(* ===== verification/Prelude.thy ===== *)
theory Prelude
  imports Main "HOL-Library.Word" "HOL-Library.Monad_Syntax"
begin

text \<open>
  Shared vocabulary of the development: the machine integers of the C code, addresses as byte
  lists, the pointer type, the collections of rewrite rules the component theories fill, and the
  generic lemmas on lists, options and words that several components use.

  A C function that can dereference a null pointer or loop for ever is modelled by a HOL function
  into \<open>option\<close>: \<open>None\<close> is undefined behaviour or divergence, \<open>Some\<close> is the value it returns. The
  \<open>do\<close> notation is the one of the option monad.
\<close>

unbundle bit_operations_syntax

type_synonym u8 = "8 word"
type_synonym u16 = "16 word"
type_synonym u32 = "32 word"

text \<open>An address of 16 (\<open>uip_ipaddr_t\<close>) or 8 (\<open>linkaddr_t\<close>) bytes, most significant first.\<close>

type_synonym ipaddr = "u8 list"
type_synonym linkaddr = "u8 list"

text \<open>A pointer into a table of structures: null, or the index of the structure.\<close>

type_synonym ptr = "nat option"

named_theorems frame_simps \<open>fields an operation does not write\<close>
named_theorems wf_intros \<open>preservation of the component invariants\<close>

subsection \<open>The option monad\<close>

lemma bind_SomeI: "m = Some x \<Longrightarrow> f x = Some y \<Longrightarrow> Option.bind m f = Some y"
  by simp

lemma bind_SomeE:
  assumes "Option.bind m f = Some y"
  obtains x where "m = Some x" and "f x = Some y"
  using assms by (auto simp: bind_eq_Some_conv)

text \<open>\<open>post m P\<close>: if the operation \<open>m\<close> returns, the state it returns satisfies \<open>P\<close>; \<open>posts m P\<close> is the same for
  an operation that returns a state and a value. The rules follow the shape of a definition in the
  \<open>do\<close> notation: a frame or an invariant of a long operation is reduced to those of the operations it
  calls.\<close>

definition post :: "'s option \<Rightarrow> ('s \<Rightarrow> bool) \<Rightarrow> bool" where
  "post m P \<longleftrightarrow> (\<forall>s. m = Some s \<longrightarrow> P s)"

definition posts :: "('s \<times> 'a) option \<Rightarrow> ('s \<Rightarrow> bool) \<Rightarrow> bool" where
  "posts m P \<longleftrightarrow> (\<forall>s x. m = Some (s, x) \<longrightarrow> P s)"

lemma postI: "(\<And>s. m = Some s \<Longrightarrow> P s) \<Longrightarrow> post m P"
  by (simp add: post_def)

lemma postsI: "(\<And>s x. m = Some (s, x) \<Longrightarrow> P s) \<Longrightarrow> posts m P"
  by (simp add: posts_def)

lemma postD: "post m P \<Longrightarrow> m = Some s \<Longrightarrow> P s"
  by (simp add: post_def)

lemma postsD: "posts m P \<Longrightarrow> m = Some (s, x) \<Longrightarrow> P s"
  by (simp add: posts_def)

lemma post_weaken: "post m P \<Longrightarrow> (\<And>s. m = Some s \<Longrightarrow> P s \<Longrightarrow> Q s) \<Longrightarrow> post m Q"
  by (simp add: post_def)

lemma posts_weaken: "posts m P \<Longrightarrow> (\<And>s x. m = Some (s, x) \<Longrightarrow> P s \<Longrightarrow> Q s) \<Longrightarrow> posts m Q"
  by (simp add: posts_def)

lemma post_basic:
  "post None P" "P s \<Longrightarrow> post (Some s) P" "posts None P" "P s \<Longrightarrow> posts (Some (s, x)) P"
  "P (fst v) \<Longrightarrow> posts (Some v) P"
  by (auto simp: post_def posts_def)

lemma post_if:
  "(c \<Longrightarrow> post a P) \<Longrightarrow> (\<not> c \<Longrightarrow> post b P) \<Longrightarrow> post (if c then a else b) P"
  "(c \<Longrightarrow> posts a' P) \<Longrightarrow> (\<not> c \<Longrightarrow> posts b' P) \<Longrightarrow> posts (if c then a' else b') P"
  by simp_all

lemma post_option:
  "(v = None \<Longrightarrow> post a P) \<Longrightarrow> (\<And>x. v = Some x \<Longrightarrow> post (f x) P) \<Longrightarrow>
   post (case v of None \<Rightarrow> a | Some x \<Rightarrow> f x) P"
  "(v = None \<Longrightarrow> posts a' P) \<Longrightarrow> (\<And>x. v = Some x \<Longrightarrow> posts (g x) P) \<Longrightarrow>
   posts (case v of None \<Rightarrow> a' | Some x \<Rightarrow> g x) P"
  by (simp_all split: option.split)

lemma post_Let:
  "(\<And>x. x = e \<Longrightarrow> post (f x) P) \<Longrightarrow> post (let x = e in f x) P"
  "(\<And>x. x = e \<Longrightarrow> posts (g x) P) \<Longrightarrow> posts (let x = e in g x) P"
  by simp_all

text \<open>A pair is taken apart with what is known about its state, if its first component is one.\<close>

lemma post_pair:
  "post (f a b) P \<Longrightarrow> post (case (a, b) of (x, y) \<Rightarrow> f x y) P"
  "posts (g a b) P \<Longrightarrow> posts (case (a, b) of (x, y) \<Rightarrow> g x y) P"
  by simp_all

lemma post_prod_state:
  fixes P :: "'s \<Rightarrow> bool" and v :: "'s \<times> 'a"
  shows "P (fst v) \<Longrightarrow> (\<And>a b. v = (a, b) \<Longrightarrow> P a \<Longrightarrow> post (f a b) P) \<Longrightarrow>
      post (case v of (a, b) \<Rightarrow> f a b) P"
    and "P (fst v) \<Longrightarrow> (\<And>a b. v = (a, b) \<Longrightarrow> P a \<Longrightarrow> posts (g a b) P) \<Longrightarrow>
      posts (case v of (a, b) \<Rightarrow> g a b) P"
  by (cases v; simp)+

lemma post_prod:
  "(\<And>a b. v = (a, b) \<Longrightarrow> post (f a b) P) \<Longrightarrow> post (case v of (a, b) \<Rightarrow> f a b) P"
  "(\<And>a b. v = (a, b) \<Longrightarrow> posts (g a b) P) \<Longrightarrow> posts (case v of (a, b) \<Rightarrow> g a b) P"
  by (cases v; simp)+

lemma post_map_option: "posts m P \<Longrightarrow> post (map_option fst m) P"
  by (cases m) (auto simp: post_def posts_def)

lemma post_bind_state:
  "post m P \<Longrightarrow> (\<And>s. m = Some s \<Longrightarrow> P s \<Longrightarrow> post (f s) P) \<Longrightarrow> post (Option.bind m f) P"
  "posts m' P \<Longrightarrow> (\<And>s x. m' = Some (s, x) \<Longrightarrow> P s \<Longrightarrow> post (f' (s, x)) P) \<Longrightarrow> post (Option.bind m' f') P"
  "post m P \<Longrightarrow> (\<And>s. m = Some s \<Longrightarrow> P s \<Longrightarrow> posts (g s) P) \<Longrightarrow> posts (Option.bind m g) P"
  "posts m' P \<Longrightarrow> (\<And>s x. m' = Some (s, x) \<Longrightarrow> P s \<Longrightarrow> posts (g' (s, x)) P) \<Longrightarrow> posts (Option.bind m' g') P"
  by (auto simp: post_def posts_def bind_eq_Some_conv)

lemma post_bind_value:
  "(\<And>x. m = Some x \<Longrightarrow> post (f x) P) \<Longrightarrow> post (Option.bind m f) P"
  "(\<And>x. m = Some x \<Longrightarrow> posts (g x) P) \<Longrightarrow> posts (Option.bind m g) P"
  by (cases m; simp add: post_basic)+

text \<open>In the order in which they are tried.\<close>

lemmas post_rules = post_basic post_if post_option post_pair post_prod_state post_prod post_Let post_map_option
  post_bind_state post_bind_value

subsection \<open>Lists\<close>

text \<open>\<open>after x xs\<close> is the part of \<open>xs\<close> behind the first \<open>x\<close>: what is left when a loop that walks
  a linked list has reached \<open>x\<close>.\<close>

fun after :: "'a \<Rightarrow> 'a list \<Rightarrow> 'a list" where
  "after x [] = []"
| "after x (y # ys) = (if x = y then ys else after x ys)"

definition first_of :: "'a list \<Rightarrow> 'a option" where
  "first_of xs = (case xs of [] \<Rightarrow> None | x # _ \<Rightarrow> Some x)"

definition last_of :: "'a list \<Rightarrow> 'a option" where
  "last_of xs = (if xs = [] then None else Some (last xs))"

lemma first_of_simps [simp]: "first_of [] = None" "first_of (x # xs) = Some x"
  by (simp_all add: first_of_def)

lemma first_of_None [simp]: "first_of xs = None \<longleftrightarrow> xs = []"
  by (cases xs) auto

lemma first_of_Some: "first_of xs = Some x \<longleftrightarrow> (\<exists>ys. xs = x # ys)"
  by (cases xs) auto

lemma last_of_simps [simp]: "last_of [] = None" "xs \<noteq> [] \<Longrightarrow> last_of xs = Some (last xs)"
  by (simp_all add: last_of_def)

lemma set_after: "set (after x xs) \<subseteq> set xs"
  by (induction xs) auto

lemma after_split: "x \<in> set xs \<Longrightarrow> \<exists>ys. xs = ys @ x # after x xs \<and> x \<notin> set ys"
proof (induction xs)
  case Nil
  then show ?case by simp
next
  case (Cons y xs)
  show ?case
  proof (cases "x = y")
    case True
    then show ?thesis by (intro exI [of _ "[]"]) simp
  next
    case False
    with Cons obtain ys where "xs = ys @ x # after x xs \<and> x \<notin> set ys" by auto
    with False show ?thesis by (intro exI [of _ "y # ys"]) simp
  qed
qed

lemma after_append: "x \<notin> set ys \<Longrightarrow> after x (ys @ x # zs) = zs"
  by (induction ys) auto

lemma after_notin [simp]: "x \<notin> set xs \<Longrightarrow> after x xs = []"
  by (induction xs) auto

lemma length_after_less: "x \<in> set xs \<Longrightarrow> length (after x xs) < length xs"
  by (induction xs) (auto split: if_splits)

lemma distinct_after: "distinct xs \<Longrightarrow> distinct (after x xs)"
  by (induction xs) auto

lemma remove1_append_mem: "x \<notin> set ys \<Longrightarrow> remove1 x (ys @ x # zs) = ys @ zs"
  by (induction ys) auto

lemma find_Some_set: "find P xs = Some x \<Longrightarrow> x \<in> set xs \<and> P x"
  by (induction xs) (auto split: if_splits)

lemma find_None_set: "find P xs = None \<longleftrightarrow> (\<forall>x \<in> set xs. \<not> P x)"
  by (induction xs) auto

lemma find_eq_filter: "find P xs = first_of (filter P xs)"
  by (induction xs) auto

lemma find_cong_set: "(\<And>x. x \<in> set xs \<Longrightarrow> P x = Q x) \<Longrightarrow> find P xs = find Q xs"
  by (induction xs) auto

lemma find_unique:
  assumes "x \<in> set xs" and "P x" and "\<And>y. y \<in> set xs \<Longrightarrow> P y \<Longrightarrow> y = x"
  shows "find P xs = Some x"
proof -
  have "find P xs \<noteq> None" using assms(1,2) by (auto simp: find_None_set)
  then obtain z where "find P xs = Some z" by blast
  with find_Some_set [OF this] assms(3) show ?thesis by blast
qed

subsection \<open>Words\<close>

lemma unat_u8_bound: "unat (w :: u8) < 256"
  using unsigned_less [of w] by simp

lemma unat_u16_bound: "unat (w :: u16) < 65536"
  using unsigned_less [of w] by simp

lemma mask_shift_bit: "i < 8 \<Longrightarrow> (w :: u8) AND push_bit i 1 \<noteq> 0 \<longleftrightarrow> bit w i"
  by (simp add: bit_iff_and_push_bit_not_eq_0)

end
