(* ===== verification/CList.thy ===== *)
theory CList
  imports Prelude
begin

text \<open>
  The intrusive linked lists of \<open>core/lib/list.c\<close>. A \<open>list_t\<close> is the address of a list variable
  holding the first element; every element starts with its \<open>next\<close> pointer. The memory model keeps
  exactly these two: the contents of the list variables and the \<open>next\<close> field of every element.
  The loops of the C code are \<open>partial_function\<close>s, so a walk over a cyclic list is \<open>None\<close>, as is a
  write through a null pointer. The lemmas show that on a well-formed list every operation
  terminates and implements the operation on HOL lists that the other theories use in its place.
\<close>

unbundle bit_operations_syntax

subsection \<open>Memory and operations\<close>

record lmem =
  heads :: "nat \<Rightarrow> ptr"
  nexts :: "nat \<Rightarrow> ptr"

definition set_head :: "nat \<Rightarrow> ptr \<Rightarrow> lmem \<Rightarrow> lmem" where
  "set_head L p m = m\<lparr>heads := (heads m)(L := p)\<rparr>"

definition set_next :: "nat \<Rightarrow> ptr \<Rightarrow> lmem \<Rightarrow> lmem" where
  "set_next x p m = m\<lparr>nexts := (nexts m)(x := p)\<rparr>"

definition list_init :: "lmem \<Rightarrow> nat \<Rightarrow> lmem" where
  "list_init m L = set_head L None m"

definition list_head :: "lmem \<Rightarrow> nat \<Rightarrow> ptr" where
  "list_head m L = heads m L"

definition list_copy :: "lmem \<Rightarrow> nat \<Rightarrow> nat \<Rightarrow> lmem" where
  "list_copy m dest src = set_head dest (heads m src) m"

partial_function (option) tail_loop :: "lmem \<Rightarrow> nat \<Rightarrow> nat option" where
  "tail_loop m l = (case nexts m l of None \<Rightarrow> Some l | Some l' \<Rightarrow> tail_loop m l')"

definition list_tail :: "lmem \<Rightarrow> nat \<Rightarrow> ptr option" where
  "list_tail m L = (case heads m L of
     None \<Rightarrow> Some None
   | Some h \<Rightarrow> map_option Some (tail_loop m h))"

partial_function (option) remove_loop ::
  "lmem \<Rightarrow> nat \<Rightarrow> ptr \<Rightarrow> ptr \<Rightarrow> ptr \<Rightarrow> lmem option" where
  "remove_loop m L item r l = (case l of
     None \<Rightarrow> Some m
   | Some c \<Rightarrow>
       if Some c = item
       then let m1 = (case r of
                        None \<Rightarrow> set_head L (nexts m c) m
                      | Some p \<Rightarrow> set_next p (nexts m c) m)
            in Some (set_next c None m1)
       else remove_loop m L item (Some c) (nexts m c))"

definition list_remove :: "lmem \<Rightarrow> nat \<Rightarrow> ptr \<Rightarrow> lmem option" where
  "list_remove m L item =
     (if heads m L = None then Some m else remove_loop m L item None (heads m L))"

definition list_add :: "lmem \<Rightarrow> nat \<Rightarrow> ptr \<Rightarrow> lmem option" where
  "list_add m L item = do {
     m1 \<leftarrow> list_remove m L item;
     i \<leftarrow> item;
     let m2 = set_next i None m1;
     l \<leftarrow> list_tail m2 L;
     Some (case l of None \<Rightarrow> set_head L item m2 | Some t \<Rightarrow> set_next t item m2)
   }"

definition list_push :: "lmem \<Rightarrow> nat \<Rightarrow> ptr \<Rightarrow> lmem option" where
  "list_push m L item = do {
     m1 \<leftarrow> list_remove m L item;
     i \<leftarrow> item;
     Some (set_head L item (set_next i (heads m1 L) m1))
   }"

partial_function (option) chop_loop :: "lmem \<Rightarrow> nat \<Rightarrow> nat option" where
  "chop_loop m l = (case nexts m l of
     None \<Rightarrow> None
   | Some n \<Rightarrow> (case nexts m n of None \<Rightarrow> Some l | Some _ \<Rightarrow> chop_loop m n))"

definition list_chop :: "lmem \<Rightarrow> nat \<Rightarrow> (lmem \<times> ptr) option" where
  "list_chop m L = (case heads m L of
     None \<Rightarrow> Some (m, None)
   | Some h \<Rightarrow>
       if nexts m h = None then Some (set_head L None m, Some h)
       else do {
         l \<leftarrow> chop_loop m h;
         let r = nexts m l;
         Some (set_next l None m, r)
       })"

definition list_pop :: "lmem \<Rightarrow> nat \<Rightarrow> lmem \<times> ptr" where
  "list_pop m L = (case heads m L of
     None \<Rightarrow> (m, None)
   | Some l \<Rightarrow> (set_head L (nexts m l) m, Some l))"

partial_function (option) length_loop :: "lmem \<Rightarrow> ptr \<Rightarrow> int \<Rightarrow> int option" where
  "length_loop m l n = (case l of None \<Rightarrow> Some n | Some c \<Rightarrow> length_loop m (nexts m c) (n + 1))"

definition list_length :: "lmem \<Rightarrow> nat \<Rightarrow> int option" where
  "list_length m L = length_loop m (heads m L) 0"

definition list_insert :: "lmem \<Rightarrow> nat \<Rightarrow> ptr \<Rightarrow> ptr \<Rightarrow> lmem option" where
  "list_insert m L previtem newitem = (case previtem of
     None \<Rightarrow> list_push m L newitem
   | Some p \<Rightarrow> do {
       n \<leftarrow> newitem;
       let m1 = set_next n (nexts m p) m;
       Some (set_next p newitem m1)
     })"

definition list_item_next :: "lmem \<Rightarrow> ptr \<Rightarrow> ptr" where
  "list_item_next m item = (case item of None \<Rightarrow> None | Some c \<Rightarrow> nexts m c)"

subsection \<open>Abstraction: the sequence a list variable stands for\<close>

fun chain :: "(nat \<Rightarrow> ptr) \<Rightarrow> ptr \<Rightarrow> nat list \<Rightarrow> bool" where
  "chain nx p [] = (p = None)"
| "chain nx p (x # xs) = (p = Some x \<and> chain nx (nx x) xs)"

definition lrep :: "lmem \<Rightarrow> nat \<Rightarrow> nat list \<Rightarrow> bool" where
  "lrep m L xs = chain (nexts m) (heads m L) xs"

lemma heads_nexts_upd [simp]:
  "heads (set_head L p m) = (heads m)(L := p)" "nexts (set_head L p m) = nexts m"
  "nexts (set_next x p m) = (nexts m)(x := p)" "heads (set_next x p m) = heads m"
  by (simp_all add: set_head_def set_next_def)

lemma chain_None [simp]: "chain nx None xs \<longleftrightarrow> xs = []"
  by (cases xs) auto

lemma chain_Some: "chain nx (Some x) xs \<longleftrightarrow> (\<exists>ys. xs = x # ys \<and> chain nx (nx x) ys)"
  by (cases xs) auto

lemma chain_unique: "chain nx p xs \<Longrightarrow> chain nx p ys \<Longrightarrow> xs = ys"
  by (induction xs arbitrary: p ys) (auto simp: chain_Some)

lemma chain_append: "chain nx p (xs @ ys) \<Longrightarrow> \<exists>q. chain nx q ys"
  by (induction xs arbitrary: p) auto

lemma chain_notin: "chain nx p (x # xs) \<Longrightarrow> x \<notin> set xs"
proof
  assume c: "chain nx p (x # xs)" and "x \<in> set xs"
  then obtain ys zs where xs: "xs = ys @ x # zs" by (meson split_list)
  with c have "chain nx (nx x) (ys @ x # zs)" by simp
  from chain_append [OF this] have "chain nx (nx x) zs" by auto
  with c have "zs = xs" by (auto intro: chain_unique)
  with xs show False by simp
qed

lemma chain_distinct: "chain nx p xs \<Longrightarrow> distinct xs"
proof (induction xs arbitrary: p)
  case Nil
  then show ?case by simp
next
  case (Cons x xs)
  from Cons.prems chain_notin have "x \<notin> set xs" by blast
  with Cons show ?case by auto
qed

lemma chain_frame [simp]: "x \<notin> set xs \<Longrightarrow> chain (nx(x := q)) p xs = chain nx p xs"
  by (induction xs arbitrary: p) auto

lemma chain_cong: "(\<And>x. x \<in> set xs \<Longrightarrow> f x = nx x) \<Longrightarrow> chain f p xs = chain nx p xs"
  by (induction xs arbitrary: p) auto

lemma chain_snoc_upd:
  "chain nx p (xs @ [t]) \<Longrightarrow> y \<noteq> t \<Longrightarrow> y \<notin> set xs \<Longrightarrow> nx y = None
   \<Longrightarrow> chain (nx(t := Some y)) p (xs @ [t, y])"
proof (induction xs arbitrary: p)
  case Nil
  then show ?case by simp
next
  case (Cons a xs)
  from chain_distinct [OF Cons.prems(1)] have "a \<noteq> t" by auto
  with Cons show ?case by auto
qed

lemma chain_unlink:
  "chain nx p (xs @ a # x # ys) \<Longrightarrow> chain (nx(a := nx x)) p (xs @ a # ys)"
proof (induction xs arbitrary: p)
  case Nil
  then have "a \<notin> set ys" using chain_distinct by fastforce
  then have "chain (nx(a := nx x)) (nx x) ys = chain nx (nx x) ys" by (intro chain_cong) auto
  with Nil show ?case by (simp add: fun_upd_def)
next
  case (Cons b xs)
  from chain_distinct [OF Cons.prems(1)] have "b \<noteq> a" by auto
  with Cons show ?case by auto
qed

lemma chain_cut: "chain nx p (xs @ t # ys) \<Longrightarrow> chain (nx(t := None)) p (xs @ [t])"
proof (induction xs arbitrary: p)
  case Nil
  then show ?case by simp
next
  case (Cons a xs)
  from chain_distinct [OF Cons.prems(1)] have "a \<noteq> t" by auto
  with Cons show ?case by auto
qed

lemma chain_link:
  "chain nx p (xs @ a # ys) \<Longrightarrow> y \<notin> set (xs @ a # ys)
   \<Longrightarrow> chain (nx(y := nx a, a := Some y)) p (xs @ a # y # ys)"
proof (induction xs arbitrary: p)
  case Nil
  then have "a \<notin> set ys" using chain_distinct by fastforce
  then have "chain (nx(y := nx a, a := Some y)) (nx a) ys = chain nx (nx a) ys"
    using Nil by (intro chain_cong) auto
  with Nil show ?case by (auto simp: fun_upd_def)
next
  case (Cons b xs)
  from chain_distinct [OF Cons.prems(1)] have "b \<noteq> a" by auto
  with Cons show ?case by auto
qed

lemma chain_last_next: "chain nx p (xs @ [t]) \<Longrightarrow> nx t = None"
  by (induction xs arbitrary: p) auto

lemma lrep_distinct: "lrep m L xs \<Longrightarrow> distinct xs"
  unfolding lrep_def by (rule chain_distinct)

lemma lrep_unique: "lrep m L xs \<Longrightarrow> lrep m L ys \<Longrightarrow> xs = ys"
  unfolding lrep_def by (rule chain_unique)


text \<open>\<open>touches m m' L A\<close>: from \<open>m\<close> to \<open>m'\<close> only the list variable \<open>L\<close> and the \<open>next\<close> fields of
  elements of \<open>A\<close> were written.\<close>

definition touches :: "lmem \<Rightarrow> lmem \<Rightarrow> nat \<Rightarrow> nat set \<Rightarrow> bool" where
  "touches m m' L A =
     ((\<forall>L'. L' \<noteq> L \<longrightarrow> heads m' L' = heads m L') \<and> (\<forall>x. x \<notin> A \<longrightarrow> nexts m' x = nexts m x))"

lemma touches_refl [simp]: "touches m m L A"
  by (simp add: touches_def)

lemma touches_trans:
  "touches m m1 L A \<Longrightarrow> touches m1 m2 L B \<Longrightarrow> touches m m2 L (A \<union> B)"
  by (auto simp: touches_def)

lemma touches_mono: "touches m m' L A \<Longrightarrow> A \<subseteq> B \<Longrightarrow> touches m m' L B"
  by (auto simp: touches_def)

lemma touches_upd [simp]:
  "touches m (set_head L p m) L A" "x \<in> A \<Longrightarrow> touches m (set_next x p m) L A"
  by (auto simp: touches_def)

lemma touches_lrep:
  assumes "touches m m' L A" and "L' \<noteq> L" and "set ys \<inter> A = {}" and "lrep m L' ys"
  shows "lrep m' L' ys"
proof -
  have "chain (nexts m') (heads m L') ys = chain (nexts m) (heads m L') ys"
    using assms(1,3) by (intro chain_cong) (auto simp: touches_def)
  with assms show ?thesis by (simp add: lrep_def touches_def)
qed

subsection \<open>Every operation on a well-formed list\<close>

lemma lrep_init: "lrep (list_init m L) L []"
  by (simp add: lrep_def list_init_def)

lemma lrep_head: "lrep m L xs \<Longrightarrow> list_head m L = first_of xs"
  by (cases xs) (auto simp: lrep_def list_head_def)

lemma lrep_copy: "lrep m src xs \<Longrightarrow> lrep (list_copy m dest src) dest xs"
  by (simp add: lrep_def list_copy_def)

lemma tail_loop_chain: "chain (nexts m) (Some l) xs \<Longrightarrow> tail_loop m l = Some (last xs)"
proof (induction xs arbitrary: l)
  case Nil
  then show ?case by simp
next
  case (Cons a xs)
  then show ?case
    by (cases xs) (auto simp: tail_loop.simps [of m a])
qed

lemma lrep_tail:
  assumes "lrep m L xs"
  shows "list_tail m L = Some (last_of xs)"
proof (cases xs)
  case Nil
  with assms show ?thesis by (simp add: lrep_def list_tail_def)
next
  case (Cons h t)
  with assms have h: "heads m L = Some h" and "chain (nexts m) (Some h) xs"
    by (auto simp: lrep_def)
  with tail_loop_chain Cons show ?thesis by (fastforce simp: list_tail_def)
qed

text \<open>The removal loop, entered with \<open>r\<close> the last element of the prefix \<open>pre\<close> already walked.\<close>

lemma remove_loop_chain:
  assumes "lrep m L (pre @ xs)" and "x \<notin> set pre" and "chain (nexts m) l xs"
  shows "\<exists>m'. remove_loop m L (Some x) (last_of pre) l = Some m' \<and>
           lrep m' L (remove1 x (pre @ xs)) \<and> touches m m' L (set (pre @ xs)) \<and>
           (x \<in> set xs \<longrightarrow> nexts m' x = None)"
  using assms
proof (induction xs arbitrary: pre l)
  case Nil
  then show ?case by (simp add: remove_loop.simps remove1_idem)
next
  case (Cons c xs)
  from Cons.prems(3) have l: "l = Some c" and ch: "chain (nexts m) (nexts m c) xs" by auto
  show ?case
  proof (cases "c = x")
    case False
    from Cons.IH [of "pre @ [c]" "nexts m c"] Cons.prems False ch
    obtain m' where "remove_loop m L (Some x) (Some c) (nexts m c) = Some m'"
      "lrep m' L (remove1 x (pre @ c # xs))" "touches m m' L (set (pre @ c # xs))"
      "x \<in> set xs \<longrightarrow> nexts m' x = None"
      by auto
    with False l show ?thesis by (auto simp: remove_loop.simps [of m L "Some x" "last_of pre"])
  next
    case True
    have xs: "x \<notin> set xs" using lrep_distinct [OF Cons.prems(1)] True by auto
    show ?thesis
    proof (cases pre rule: rev_cases)
      case Nil
      with True l xs ch show ?thesis by (simp add: remove_loop.simps lrep_def touches_def)
    next
      case (snoc ys a)
      have "chain ((nexts m)(a := nexts m x)) (heads m L) (ys @ a # xs)"
        using Cons.prems(1) snoc True by (intro chain_unlink) (simp add: lrep_def)
      moreover have "x \<notin> set (ys @ a # xs)" using Cons.prems(2) snoc xs by auto
      ultimately have "lrep (set_next x None (set_next a (nexts m x) m)) L (ys @ a # xs)"
        by (simp add: lrep_def)
      moreover have "remove1 x (pre @ c # xs) = ys @ a # xs"
        using snoc Cons.prems(2) True by (simp add: remove1_append)
      ultimately show ?thesis
        using snoc True l by (auto simp: remove_loop.simps touches_def)
    qed
  qed
qed

lemma lrep_remove:
  assumes "lrep m L xs"
  shows "\<exists>m'. list_remove m L (Some x) = Some m' \<and> lrep m' L (remove1 x xs) \<and>
           touches m m' L (set xs)"
proof (cases xs)
  case Nil
  with assms show ?thesis by (auto simp: lrep_def list_remove_def)
next
  case (Cons h t)
  with assms have "heads m L \<noteq> None" by (auto simp: lrep_def)
  moreover obtain m' where "remove_loop m L (Some x) None (heads m L) = Some m'"
      "lrep m' L (remove1 x xs)" "touches m m' L (set xs)"
    using remove_loop_chain [of m L "[]" xs x "heads m L"] assms by (auto simp: lrep_def)
  ultimately show ?thesis by (auto simp: list_remove_def)
qed


lemma lrep_add:
  assumes "lrep m L xs"
  shows "\<exists>m'. list_add m L (Some x) = Some m' \<and> lrep m' L (remove1 x xs @ [x]) \<and>
           touches m m' L (insert x (set xs))"
proof -
  obtain m1 where m1: "list_remove m L (Some x) = Some m1" "lrep m1 L (remove1 x xs)"
      "touches m m1 L (set xs)"
    using lrep_remove [OF assms] by blast
  let ?ys = "remove1 x xs"
  let ?m2 = "set_next x None m1"
  have x: "x \<notin> set ?ys" using lrep_distinct [OF assms] by simp
  then have r2: "lrep ?m2 L ?ys" using m1(2) by (simp add: lrep_def)
  have t2: "touches m ?m2 L (insert x (set xs))"
    using m1(3) by (auto simp: touches_def)
  show ?thesis
  proof (cases ?ys rule: rev_cases)
    case Nil
    with r2 m1(1) t2 lrep_tail [OF r2] show ?thesis
      by (auto simp: list_add_def lrep_def touches_def)
  next
    case (snoc zs t)
    with r2 x have "lrep (set_next t (Some x) ?m2) L (zs @ [t, x])"
      by (auto simp: lrep_def intro!: chain_snoc_upd)
    moreover have "t \<in> set xs" using snoc by (metis in_set_conv_decomp notin_set_remove1)
    ultimately show ?thesis using snoc m1(1) t2 lrep_tail [OF r2]
      by (auto simp: list_add_def touches_def)
  qed
qed

lemma lrep_push:
  assumes "lrep m L xs"
  shows "\<exists>m'. list_push m L (Some x) = Some m' \<and> lrep m' L (x # remove1 x xs) \<and>
           touches m m' L (insert x (set xs))"
proof -
  obtain m1 where m1: "list_remove m L (Some x) = Some m1" "lrep m1 L (remove1 x xs)"
      "touches m m1 L (set xs)"
    using lrep_remove [OF assms] by blast
  moreover have "x \<notin> set (remove1 x xs)" using lrep_distinct [OF assms] by simp
  ultimately show ?thesis by (auto simp: list_push_def lrep_def touches_def)
qed

lemma lrep_pop:
  assumes "lrep m L xs"
  shows "lrep (fst (list_pop m L)) L (tl xs) \<and> snd (list_pop m L) = first_of xs \<and>
           touches m (fst (list_pop m L)) L {}"
  using assms by (cases xs) (auto simp: lrep_def list_pop_def touches_def)

lemma chop_loop_chain:
  "chain (nexts m) (Some l) (xs @ [a, b]) \<Longrightarrow> chop_loop m l = Some a"
proof (induction xs arbitrary: l)
  case Nil
  then show ?case by (simp add: chop_loop.simps)
next
  case (Cons c xs)
  then obtain l' where "nexts m c = Some l'" "chain (nexts m) (Some l') (xs @ [a, b])"
    by (cases xs) auto
  moreover from this(2) have "nexts m l' \<noteq> None" by (cases xs; cases "tl xs") auto
  ultimately show ?case using Cons by (auto simp: chop_loop.simps [of m c])
qed

lemma lrep_chop:
  assumes "lrep m L xs"
  shows "\<exists>m'. list_chop m L = Some (m', last_of xs) \<and> lrep m' L (butlast xs) \<and>
           touches m m' L (set xs)"
proof (cases xs rule: rev_cases)
  case Nil
  with assms show ?thesis by (auto simp: lrep_def list_chop_def)
next
  case (snoc ys b)
  show ?thesis
  proof (cases ys rule: rev_cases)
    case Nil
    with assms snoc show ?thesis by (auto simp: lrep_def list_chop_def touches_def)
  next
    case (snoc zs a)
    with \<open>xs = ys @ [b]\<close> assms have ch: "chain (nexts m) (heads m L) (zs @ [a, b])"
      by (simp add: lrep_def)
    then obtain h where h: "heads m L = Some h" "nexts m h \<noteq> None" by (cases zs; cases "tl zs") auto
    have "chop_loop m h = Some a" using ch h by (auto intro: chop_loop_chain)
    moreover have "nexts m a = Some b"
      using ch by (metis chain.simps(2) chain_append option.sel)
    moreover have "lrep (set_next a None m) L (zs @ [a])"
      using ch chain_cut [of "nexts m" _ zs a "[b]"] by (simp add: lrep_def)
    ultimately show ?thesis using h snoc \<open>xs = ys @ [b]\<close>
      by (auto simp: list_chop_def touches_def butlast_append)
  qed
qed

lemma length_loop_chain: "chain (nexts m) l xs \<Longrightarrow> length_loop m l n = Some (n + int (length xs))"
  by (induction xs arbitrary: l n) (auto simp: length_loop.simps)

lemma lrep_length: "lrep m L xs \<Longrightarrow> list_length m L = Some (int (length xs))"
  by (simp add: lrep_def list_length_def length_loop_chain)

text \<open>\<open>list_insert\<close> behind an element of the list; unlike \<open>list_add\<close> it does not remove the new
  element first, so it must not be on the list already.\<close>

lemma lrep_insert:
  assumes "lrep m L (xs @ p # ys)" and "n \<notin> set (xs @ p # ys)"
  shows "\<exists>m'. list_insert m L (Some p) (Some n) = Some m' \<and> lrep m' L (xs @ p # n # ys) \<and>
           touches m m' L {p, n}"
  using assms chain_link [of "nexts m" "heads m L" xs p ys n]
  by (auto simp: list_insert_def lrep_def touches_def)

lemma lrep_next: "lrep m L (xs @ x # ys) \<Longrightarrow> list_item_next m (Some x) = first_of ys"
proof -
  assume "lrep m L (xs @ x # ys)"
  then obtain q where "chain (nexts m) q (x # ys)" unfolding lrep_def by (meson chain_append)
  then show ?thesis by (cases ys) (auto simp: list_item_next_def)
qed


subsection \<open>The contract the clients of a list rely on\<close>

text \<open>A list library over a memory \<open>'m\<close> is given by its abstraction \<open>rep\<close>; the laws are stated for
  one list, with an arbitrary other list that shares no element as the frame.\<close>

locale intrusive_list =
  fixes rep :: "'m \<Rightarrow> nat \<Rightarrow> nat list \<Rightarrow> bool"
    and l_add :: "'m \<Rightarrow> nat \<Rightarrow> ptr \<Rightarrow> 'm option"
    and l_push :: "'m \<Rightarrow> nat \<Rightarrow> ptr \<Rightarrow> 'm option"
    and l_remove :: "'m \<Rightarrow> nat \<Rightarrow> ptr \<Rightarrow> 'm option"
    and l_pop :: "'m \<Rightarrow> nat \<Rightarrow> 'm \<times> ptr"
  assumes rep_distinct: "rep m L xs \<Longrightarrow> distinct xs"
    and add_law: "rep m L xs \<Longrightarrow> \<exists>m'. l_add m L (Some x) = Some m' \<and> rep m' L (remove1 x xs @ [x]) \<and>
          (\<forall>L' ys. L' \<noteq> L \<longrightarrow> set ys \<inter> insert x (set xs) = {} \<longrightarrow> rep m L' ys \<longrightarrow> rep m' L' ys)"
    and push_law: "rep m L xs \<Longrightarrow> \<exists>m'. l_push m L (Some x) = Some m' \<and> rep m' L (x # remove1 x xs) \<and>
          (\<forall>L' ys. L' \<noteq> L \<longrightarrow> set ys \<inter> insert x (set xs) = {} \<longrightarrow> rep m L' ys \<longrightarrow> rep m' L' ys)"
    and remove_law: "rep m L xs \<Longrightarrow> \<exists>m'. l_remove m L (Some x) = Some m' \<and> rep m' L (remove1 x xs) \<and>
          (\<forall>L' ys. L' \<noteq> L \<longrightarrow> set ys \<inter> set xs = {} \<longrightarrow> rep m L' ys \<longrightarrow> rep m' L' ys)"
    and pop_law: "rep m L xs \<Longrightarrow> rep (fst (l_pop m L)) L (tl xs) \<and> snd (l_pop m L) = first_of xs"
begin

text \<open>Adding an element again moves it to the end: the list stays duplicate free, so an update of
  an entry already present is a move (the use \<open>uip_ds6_defrt_add\<close> and the parent sets make of it).\<close>

lemma add_twice:
  assumes "rep m L xs" and "x \<in> set xs"
  shows "\<exists>m'. l_add m L (Some x) = Some m' \<and> rep m' L (remove1 x xs @ [x]) \<and>
           length (remove1 x xs @ [x]) = length xs"
  using add_law [OF assms(1), of x] length_pos_if_in_set [OF assms(2)]
  by (auto simp: length_remove1 assms(2))

text \<open>Unlinking an element and pushing it is the move-to-front of \<open>uip_ds6_route_lookup\<close>.\<close>

lemma move_to_front:
  assumes "rep m L xs"
  shows "\<exists>m1 m'. l_remove m L (Some x) = Some m1 \<and> l_push m1 L (Some x) = Some m' \<and>
           rep m' L (x # remove1 x xs)"
proof -
  from remove_law [OF assms, of x] obtain m1 where
    m1: "l_remove m L (Some x) = Some m1" "rep m1 L (remove1 x xs)" by blast
  have "x \<notin> set (remove1 x xs)" using rep_distinct [OF assms] by simp
  with push_law [OF m1(2), of x] m1(1) show ?thesis by (auto simp: remove1_idem)
qed

text \<open>A list used as a queue: elements leave in the order in which they were added.\<close>

lemma add_pop_fifo:
  assumes "rep m L (y # xs)" and "x \<noteq> y"
  shows "\<exists>m'. l_add m L (Some x) = Some m' \<and> snd (l_pop m' L) = Some y \<and>
           rep (fst (l_pop m' L)) L (remove1 x xs @ [x])"
proof -
  from add_law [OF assms(1), of x] assms(2) obtain m' where
    m': "l_add m L (Some x) = Some m'" "rep m' L (y # remove1 x xs @ [x])" by auto
  from pop_law [OF m'(2)] m' show ?thesis by auto
qed

text \<open>Two lists over the same elements: removing from one and adding to another leaves every
  element on exactly one list.\<close>

lemma transfer:
  assumes "rep m L xs" and "rep m L' ys" and "L \<noteq> L'" and "set xs \<inter> set ys = {}" and "x \<in> set xs"
  shows "\<exists>m1 m'. l_remove m L (Some x) = Some m1 \<and> l_add m1 L' (Some x) = Some m' \<and>
           rep m' L (remove1 x xs) \<and> rep m' L' (ys @ [x])"
proof -
  have y: "x \<notin> set ys" and d: "set ys \<inter> set xs = {}" using assms(4,5) by auto
  have x: "set (remove1 x xs) = set xs - {x}" using rep_distinct [OF assms(1)] by simp
  from remove_law [OF assms(1), of x] assms(2) assms(3) [symmetric] d obtain m1 where
    m1: "l_remove m L (Some x) = Some m1" "rep m1 L (remove1 x xs)" "rep m1 L' ys" by blast
  from add_law [OF m1(3), of x] obtain m' where
    m': "l_add m1 L' (Some x) = Some m'" "rep m' L' (remove1 x ys @ [x])"
    "\<And>zs. set zs \<inter> insert x (set ys) = {} \<Longrightarrow> rep m1 L zs \<Longrightarrow> rep m' L zs"
    using assms(3) by blast
  have "rep m' L (remove1 x xs)" using assms(4) x by (intro m'(3) m1(2)) auto
  with m1 m' y show ?thesis by (auto simp: remove1_idem)
qed

end

interpretation clist: intrusive_list lrep list_add list_push list_remove list_pop
proof
  fix m L xs x
  assume r: "lrep m L xs"
  show "distinct xs" using r by (rule lrep_distinct)
  show "\<exists>m'. list_add m L (Some x) = Some m' \<and> lrep m' L (remove1 x xs @ [x]) \<and>
      (\<forall>L' ys. L' \<noteq> L \<longrightarrow> set ys \<inter> insert x (set xs) = {} \<longrightarrow> lrep m L' ys \<longrightarrow> lrep m' L' ys)"
    using lrep_add [OF r, of x] by (blast intro: touches_lrep)
  show "\<exists>m'. list_push m L (Some x) = Some m' \<and> lrep m' L (x # remove1 x xs) \<and>
      (\<forall>L' ys. L' \<noteq> L \<longrightarrow> set ys \<inter> insert x (set xs) = {} \<longrightarrow> lrep m L' ys \<longrightarrow> lrep m' L' ys)"
    using lrep_push [OF r, of x] by (blast intro: touches_lrep)
  show "\<exists>m'. list_remove m L (Some x) = Some m' \<and> lrep m' L (remove1 x xs) \<and>
      (\<forall>L' ys. L' \<noteq> L \<longrightarrow> set ys \<inter> set xs = {} \<longrightarrow> lrep m L' ys \<longrightarrow> lrep m' L' ys)"
    using lrep_remove [OF r, of x] by (blast intro: touches_lrep)
  show "lrep (fst (list_pop m L)) L (tl xs) \<and> snd (list_pop m L) = first_of xs"
    using lrep_pop [OF r] by blast
qed

text \<open>C28. The list operations of \<open>core/lib/list.c\<close> implement the operations on duplicate-free
  sequences: on a list variable that stands for \<open>xs\<close>, \<open>list_add\<close> always returns and leaves
  \<open>xs\<close> without its old occurrence of the element and with the element at the end, \<open>list_push\<close> puts it
  in front, \<open>list_remove\<close> drops it, \<open>list_chop\<close> returns and drops the last element, and a list
  that shares no element with it is untouched by the addition.\<close>

theorem list_ops_refine:
  assumes "lrep m L xs"
  shows "(\<exists>m'. list_add m L (Some x) = Some m' \<and> lrep m' L (remove1 x xs @ [x]) \<and>
            touches m m' L (insert x (set xs))) \<and>
         (\<exists>m'. list_push m L (Some x) = Some m' \<and> lrep m' L (x # remove1 x xs)) \<and>
         (\<exists>m'. list_remove m L (Some x) = Some m' \<and> lrep m' L (remove1 x xs)) \<and>
         (\<exists>m'. list_chop m L = Some (m', last_of xs) \<and> lrep m' L (butlast xs)) \<and>
         list_length m L = Some (int (length xs)) \<and> list_tail m L = Some (last_of xs)"
  using lrep_add [OF assms] lrep_push [OF assms] lrep_remove [OF assms] lrep_chop [OF assms]
    lrep_length [OF assms] lrep_tail [OF assms] by blast

definition list_demo :: lmem where
  "list_demo = \<lparr>heads = (\<lambda>_. None)(0 := Some 3), nexts = (\<lambda>_. None)(3 := Some 5)\<rparr>"

lemma lrep_demo: "lrep list_demo 0 [3, 5]"
  by (simp add: lrep_def list_demo_def)

theorem list_ops_refine_witness:
  "\<exists>m'. list_add list_demo 0 (Some 3) = Some m' \<and> lrep m' 0 [5, 3]"
  using list_ops_refine [OF lrep_demo, of 3] by auto

end
