(* ===== verification/Memb.thy ===== *)
theory Memb
  imports Prelude
begin

text \<open>
  The block allocator of \<open>core/lib/memb.c\<close>: \<open>mnum\<close> blocks of \<open>msize\<close> bytes from address \<open>mbase\<close>,
  with one reference count (a \<open>char\<close>) per block. A pointer is its address. Contents of blocks
  belong to the client and are not part of this state. The contract of a pool (allocation returns a
  free block or NULL when there is none, a freed block can be allocated again, the other blocks
  are not touched) is a locale; the clients' lemmas are proved from it.
\<close>

unbundle bit_operations_syntax

record memb =
  msize :: nat
  mnum :: nat
  mcount :: "int list"
  mbase :: nat

text \<open>\<open>memset(m->count, 0, m->num)\<close>: the first \<open>num\<close> counts are cleared.\<close>

definition memb_init :: "memb \<Rightarrow> memb" where
  "memb_init m = m\<lparr>mcount := replicate (mnum m) 0 @ drop (mnum m) (mcount m)\<rparr>"

text \<open>The loop of \<open>memb_alloc\<close> from index \<open>i\<close>; fuel \<open>n\<close> is the number of blocks left.\<close>

fun alloc_loop :: "int list \<Rightarrow> nat \<Rightarrow> nat \<Rightarrow> nat option" where
  "alloc_loop cs i 0 = None"
| "alloc_loop cs i (Suc n) = (if cs ! i = 0 then Some i else alloc_loop cs (i + 1) n)"

definition memb_alloc :: "memb \<Rightarrow> memb \<times> ptr" where
  "memb_alloc m = (case alloc_loop (mcount m) 0 (mnum m) of
     None \<Rightarrow> (m, None)
   | Some i \<Rightarrow> (m\<lparr>mcount := (mcount m)[i := mcount m ! i + 1]\<rparr>, Some (mbase m + i * msize m)))"

text \<open>The loop of \<open>memb_free\<close> at index \<open>i\<close> and address \<open>ptr2\<close>.\<close>

fun free_loop :: "memb \<Rightarrow> nat \<Rightarrow> nat \<Rightarrow> nat \<Rightarrow> nat \<Rightarrow> memb \<times> int" where
  "free_loop m p i ptr2 0 = (m, -1)"
| "free_loop m p i ptr2 (Suc n) =
     (if ptr2 = p
      then let m' = (if mcount m ! i > 0 then m\<lparr>mcount := (mcount m)[i := mcount m ! i - 1]\<rparr> else m)
           in (m', mcount m' ! i)
      else free_loop m p (i + 1) (ptr2 + msize m) n)"

definition memb_free :: "memb \<Rightarrow> nat \<Rightarrow> memb \<times> int" where
  "memb_free m p = free_loop m p 0 (mbase m) (mnum m)"

definition memb_inmemb :: "memb \<Rightarrow> nat \<Rightarrow> bool" where
  "memb_inmemb m p \<longleftrightarrow> mbase m \<le> p \<and> p < mbase m + mnum m * msize m"

fun numfree_loop :: "int list \<Rightarrow> nat \<Rightarrow> nat \<Rightarrow> nat \<Rightarrow> nat" where
  "numfree_loop cs i 0 num_free = num_free"
| "numfree_loop cs i (Suc n) num_free =
     numfree_loop cs (i + 1) n (if cs ! i = 0 then num_free + 1 else num_free)"

definition memb_numfree :: "memb \<Rightarrow> nat" where
  "memb_numfree m = numfree_loop (mcount m) 0 (mnum m) 0"

subsection \<open>Invariant and the set of allocated blocks\<close>

definition memb_wf :: "memb \<Rightarrow> bool" where
  "memb_wf m \<longleftrightarrow> length (mcount m) = mnum m \<and> 0 < msize m \<and> set (mcount m) \<subseteq> {0, 1}"

text \<open>The addresses handed out, and every address of a block.\<close>

definition memb_blocks :: "memb \<Rightarrow> nat set" where
  "memb_blocks m = (\<lambda>i. mbase m + i * msize m) ` {..< mnum m}"

definition memb_used :: "memb \<Rightarrow> nat set" where
  "memb_used m = (\<lambda>i. mbase m + i * msize m) ` {i. i < mnum m \<and> mcount m ! i \<noteq> 0}"

lemma alloc_loop_Some:
  "alloc_loop cs i n = Some k \<longleftrightarrow> i \<le> k \<and> k < i + n \<and> cs ! k = 0 \<and> (\<forall>j. i \<le> j \<and> j < k \<longrightarrow> cs ! j \<noteq> 0)"
  by (induction cs i n rule: alloc_loop.induct) (auto simp: Suc_le_eq dest: le_neq_implies_less)

lemma alloc_loop_None:
  "alloc_loop cs i n = None \<longleftrightarrow> (\<forall>j. i \<le> j \<and> j < i + n \<longrightarrow> cs ! j \<noteq> 0)"
  by (induction cs i n rule: alloc_loop.induct) (auto simp: Suc_le_eq dest: le_neq_implies_less)

lemma free_loop_hit:
  "k < n \<Longrightarrow> 0 < msize m \<Longrightarrow> p = ptr2 + k * msize m \<Longrightarrow>
   free_loop m p i ptr2 n =
     (let m' = (if mcount m ! (i + k) > 0
                then m\<lparr>mcount := (mcount m)[i + k := mcount m ! (i + k) - 1]\<rparr> else m)
      in (m', mcount m' ! (i + k)))"
proof (induction m p i ptr2 n arbitrary: k rule: free_loop.induct)
  case (1 m p i ptr2)
  then show ?case by simp
next
  case (2 m p i ptr2 n)
  show ?case
  proof (cases k)
    case 0
    with 2 show ?thesis by simp
  next
    case (Suc k')
    with 2 show ?thesis by simp
  qed
qed

lemma free_loop_miss:
  "(\<forall>k < n. p \<noteq> ptr2 + k * msize m) \<Longrightarrow> free_loop m p i ptr2 n = (m, -1)"
proof (induction m p i ptr2 n rule: free_loop.induct)
  case (1 m p i ptr2)
  then show ?case by simp
next
  case (2 m p i ptr2 n)
  have "p \<noteq> ptr2" using 2(2) by (metis add.right_neutral mult_0 zero_less_Suc)
  moreover have "\<forall>k < n. p \<noteq> ptr2 + msize m + k * msize m"
    using 2(2) by (metis Suc_less_eq add.assoc mult_Suc)
  ultimately show ?case using 2(1) by simp
qed

lemma numfree_loop_eq:
  "numfree_loop cs i n f = f + card {j. i \<le> j \<and> j < i + n \<and> cs ! j = 0}"
proof (induction cs i n f rule: numfree_loop.induct)
  case (1 cs i f)
  then show ?case by simp
next
  case (2 cs i n f)
  have "{j. i \<le> j \<and> j < i + Suc n \<and> cs ! j = 0} =
      (if cs ! i = 0 then insert i {j. i + 1 \<le> j \<and> j < i + 1 + n \<and> cs ! j = 0}
       else {j. i + 1 \<le> j \<and> j < i + 1 + n \<and> cs ! j = 0})"
    by (auto simp: Suc_le_eq dest: le_neq_implies_less)
  moreover have "finite {j. i + 1 \<le> j \<and> j < i + 1 + n \<and> cs ! j = 0}" by simp
  ultimately show ?case using 2 by simp
qed


lemma block_inj:
  "memb_wf m \<Longrightarrow> mbase m + i * msize m = mbase m + j * msize m \<longleftrightarrow> i = j"
  by (simp add: memb_wf_def)

lemma memb_used_mem:
  "memb_wf m \<Longrightarrow> mbase m + i * msize m \<in> memb_used m \<longleftrightarrow> i < mnum m \<and> mcount m ! i \<noteq> 0"
  by (auto simp: memb_used_def memb_wf_def)

lemma finite_memb [simp]: "finite (memb_blocks m)" "finite (memb_used m)"
  by (simp_all add: memb_blocks_def memb_used_def)

lemma used_subset_blocks: "memb_used m \<subseteq> memb_blocks m"
  by (auto simp: memb_used_def memb_blocks_def)

lemma card_blocks: "memb_wf m \<Longrightarrow> card (memb_blocks m) = mnum m"
  unfolding memb_blocks_def by (subst card_image) (auto simp: inj_on_def memb_wf_def)

lemma memb_init_wf:
  "length (mcount m) = mnum m \<Longrightarrow> 0 < msize m \<Longrightarrow> memb_wf (memb_init m) \<and> memb_used (memb_init m) = {}"
  by (auto simp: memb_wf_def memb_init_def memb_used_def)

lemma wf_count_upd:
  "memb_wf m \<Longrightarrow> c \<in> {0, 1} \<Longrightarrow> memb_wf (m\<lparr>mcount := (mcount m)[i := c]\<rparr>)"
  using set_update_subset_insert [of "mcount m" i c] by (auto simp: memb_wf_def)

lemma blocks_count_upd [simp]: "memb_blocks (m\<lparr>mcount := cs\<rparr>) = memb_blocks m"
  by (simp add: memb_blocks_def)

lemma used_count_upd:
  assumes "memb_wf m" and "i < mnum m"
  shows "memb_used (m\<lparr>mcount := (mcount m)[i := c]\<rparr>) =
     (if c = 0 then memb_used m - {mbase m + i * msize m}
      else insert (mbase m + i * msize m) (memb_used m))"
  using assms by (auto simp: memb_used_def memb_wf_def nth_list_update split: if_splits)

lemma alloc_full: "memb_wf m \<Longrightarrow> memb_alloc m = (m', None) \<Longrightarrow> m' = m \<and> memb_used m = memb_blocks m"
  by (auto simp: memb_alloc_def alloc_loop_None memb_used_def memb_blocks_def split: option.splits)

lemma alloc_fresh:
  assumes "memb_wf m" and "memb_alloc m = (m', Some p)"
  shows "p \<in> memb_blocks m - memb_used m \<and> memb_used m' = insert p (memb_used m) \<and> memb_wf m' \<and>
         memb_blocks m' = memb_blocks m"
proof -
  obtain i where i: "alloc_loop (mcount m) 0 (mnum m) = Some i" "p = mbase m + i * msize m"
      "m' = m\<lparr>mcount := (mcount m)[i := mcount m ! i + 1]\<rparr>"
    using assms(2) by (auto simp: memb_alloc_def split: option.splits)
  then have "i < mnum m" "mcount m ! i = 0" by (auto simp: alloc_loop_Some)
  with i assms(1) show ?thesis
    by (simp add: used_count_upd wf_count_upd memb_used_mem) (auto simp: memb_blocks_def)
qed

lemma free_block:
  assumes "memb_wf m" and "p \<in> memb_blocks m"
  shows "\<exists>m'. memb_free m p = (m', 0) \<and> memb_used m' = memb_used m - {p} \<and> memb_wf m' \<and>
         memb_blocks m' = memb_blocks m"
proof -
  obtain i where i: "i < mnum m" "p = mbase m + i * msize m"
    using assms(2) by (auto simp: memb_blocks_def)
  have c: "mcount m ! i \<in> {0, 1}"
    using assms(1) i(1) unfolding memb_wf_def by (metis nth_mem subsetD)
  have f: "memb_free m p = (let m' = (if mcount m ! i > 0
              then m\<lparr>mcount := (mcount m)[i := mcount m ! i - 1]\<rparr> else m) in (m', mcount m' ! i))"
    unfolding memb_free_def using free_loop_hit [OF i(1) _ i(2), of 0] assms(1)
    by (simp add: memb_wf_def)
  show ?thesis
  proof (cases "mcount m ! i = 0")
    case True
    with assms(1) i have "p \<notin> memb_used m" by (simp add: memb_used_mem)
    with True f assms(1) show ?thesis by simp
  next
    case False
    with c have "mcount m ! i = 1" by auto
    moreover have "i < length (mcount m)" using assms(1) i(1) by (simp add: memb_wf_def)
    ultimately show ?thesis using f i assms(1) wf_count_upd [OF assms(1), of 0 i]
      by (simp add: used_count_upd)
  qed
qed

lemma free_other:
  assumes "p \<notin> memb_blocks m"
  shows "memb_free m p = (m, -1)"
  unfolding memb_free_def
  using assms by (intro free_loop_miss) (auto simp: memb_blocks_def)

lemma numfree_used: "memb_wf m \<Longrightarrow> memb_numfree m + card (memb_used m) = mnum m"
proof -
  assume wf: "memb_wf m"
  let ?F = "{j. j < mnum m \<and> mcount m ! j = 0}"
  let ?U = "{j. j < mnum m \<and> mcount m ! j \<noteq> 0}"
  have "card (memb_used m) = card ?U"
    unfolding memb_used_def using wf by (intro card_image) (auto simp: inj_on_def memb_wf_def)
  moreover have "card ?F + card ?U = card (?F \<union> ?U)" by (intro card_Un_disjoint [symmetric]) auto
  moreover have "?F \<union> ?U = {..< mnum m}" by auto
  ultimately show ?thesis by (simp add: memb_numfree_def numfree_loop_eq)
qed

lemma inmemb_blocks: "memb_wf m \<Longrightarrow> p \<in> memb_blocks m \<Longrightarrow> memb_inmemb m p"
proof -
  assume wf: "memb_wf m" and "p \<in> memb_blocks m"
  then obtain i where i: "i < mnum m" "p = mbase m + i * msize m" by (auto simp: memb_blocks_def)
  from i(1) have "i * msize m + msize m \<le> mnum m * msize m"
    by (metis Suc_leI add.commute mult_Suc mult_le_mono1)
  moreover have "0 < msize m" using wf by (simp add: memb_wf_def)
  ultimately have "i * msize m < mnum m * msize m" by linarith
  with i(2) show ?thesis by (simp add: memb_inmemb_def)
qed

subsection \<open>The contract of a pool\<close>

locale block_pool =
  fixes inv :: "'p \<Rightarrow> bool"
    and blocks :: "'p \<Rightarrow> nat set"
    and used :: "'p \<Rightarrow> nat set"
    and alloc :: "'p \<Rightarrow> 'p \<times> ptr"
    and release :: "'p \<Rightarrow> nat \<Rightarrow> 'p \<times> int"
  assumes pool_finite: "finite (blocks m)"
    and pool_used: "inv m \<Longrightarrow> used m \<subseteq> blocks m"
    and pool_full: "inv m \<Longrightarrow> alloc m = (m', None) \<Longrightarrow> m' = m \<and> used m = blocks m"
    and pool_fresh: "inv m \<Longrightarrow> alloc m = (m', Some p) \<Longrightarrow>
          p \<in> blocks m - used m \<and> used m' = insert p (used m) \<and> inv m' \<and> blocks m' = blocks m"
    and pool_free: "inv m \<Longrightarrow> p \<in> blocks m \<Longrightarrow>
          \<exists>m'. release m p = (m', 0) \<and> used m' = used m - {p} \<and> inv m' \<and> blocks m' = blocks m"
    and pool_foreign: "p \<notin> blocks m \<Longrightarrow> release m p = (m, -1)"
begin

lemma alloc_succeeds:
  assumes "inv m" and "card (used m) < card (blocks m)"
  shows "\<exists>m' p. alloc m = (m', Some p)"
  using pool_full [OF assms(1)] assms(2) by (cases "alloc m"; cases "snd (alloc m)") auto

lemma used_bound: "inv m \<Longrightarrow> card (used m) \<le> card (blocks m)"
  by (intro card_mono pool_finite pool_used)

text \<open>A freed block makes the next allocation succeed, and never hands out a block in use.\<close>

lemma free_then_alloc:
  assumes "inv m" and "p \<in> used m"
  shows "\<exists>m1 m2 q. release m p = (m1, 0) \<and> alloc m1 = (m2, Some q) \<and> q \<notin> used m - {p} \<and>
           used m2 = insert q (used m - {p})"
proof -
  have "p \<in> blocks m" using assms pool_used by blast
  then obtain m1 where m1: "release m p = (m1, 0)" "used m1 = used m - {p}" "inv m1"
      "blocks m1 = blocks m" using pool_free assms(1) by blast
  have fin: "finite (used m)" using pool_used [OF assms(1)] pool_finite finite_subset by blast
  have "card (used m1) < card (blocks m1)"
    using m1 used_bound [OF assms(1)] card_Diff1_less [OF fin assms(2)] by simp
  then obtain m2 q where "alloc m1 = (m2, Some q)" using alloc_succeeds m1(3) by blast
  with m1 pool_fresh [OF m1(3) this] show ?thesis by auto
qed

text \<open>A block that is in use is not handed out again until it is freed.\<close>

lemma alloc_keeps:
  assumes "inv m" and "alloc m = (m', r)" and "q \<in> used m"
  shows "q \<in> used m' \<and> r \<noteq> Some q"
  using assms pool_fresh pool_full by (cases r) blast+

end

interpretation mpool: block_pool memb_wf memb_blocks memb_used memb_alloc memb_free
proof
  fix m m' p
  show "finite (memb_blocks m)" by simp
  show "memb_used m \<subseteq> memb_blocks m" by (rule used_subset_blocks)
  show "memb_wf m \<Longrightarrow> memb_alloc m = (m', None) \<Longrightarrow> m' = m \<and> memb_used m = memb_blocks m"
    by (rule alloc_full)
  show "memb_wf m \<Longrightarrow> memb_alloc m = (m', Some p) \<Longrightarrow> p \<in> memb_blocks m - memb_used m \<and>
      memb_used m' = insert p (memb_used m) \<and> memb_wf m' \<and> memb_blocks m' = memb_blocks m"
    by (rule alloc_fresh)
  show "memb_wf m \<Longrightarrow> p \<in> memb_blocks m \<Longrightarrow> \<exists>m'. memb_free m p = (m', 0) \<and>
      memb_used m' = memb_used m - {p} \<and> memb_wf m' \<and> memb_blocks m' = memb_blocks m"
    by (rule free_block)
  show "p \<notin> memb_blocks m \<Longrightarrow> memb_free m p = (m, -1)" by (rule free_other)
qed

subsection \<open>Pools of blocks known by their index\<close>

definition unit_pool :: "memb \<Rightarrow> bool" where
  "unit_pool m \<longleftrightarrow> memb_wf m \<and> mbase m = 0 \<and> msize m = 1"

lemma unit_pool_free:
  assumes "unit_pool m" and "p \<in> memb_used m"
  shows "unit_pool (fst (memb_free m p)) \<and> memb_used (fst (memb_free m p)) = memb_used m - {p} \<and>
         mnum (fst (memb_free m p)) = mnum m"
proof -
  have wf: "memb_wf m" using assms(1) by (simp add: unit_pool_def)
  have p: "p \<in> memb_blocks m" using assms(2) used_subset_blocks by blast
  have same: "mbase (fst (free_loop m p i q n)) = mbase m \<and> msize (fst (free_loop m p i q n)) = msize m \<and>
      mnum (fst (free_loop m p i q n)) = mnum m" for i q n
    by (induction n arbitrary: i q) (auto simp: Let_def)
  from free_block [OF wf p] obtain m' where m': "memb_free m p = (m', 0)"
    "memb_used m' = memb_used m - {p}" "memb_wf m'" by blast
  from same [of 0 "mbase m" "mnum m"] m'(1) have "mbase m' = mbase m \<and> msize m' = msize m \<and> mnum m' = mnum m"
    by (simp add: memb_free_def)
  with m' assms(1) show ?thesis by (simp add: unit_pool_def)
qed

lemma unit_pool_alloc:
  assumes "unit_pool m" and "memb_alloc m = (m', Some p)"
  shows "unit_pool m' \<and> memb_used m' = insert p (memb_used m) \<and> p \<notin> memb_used m \<and> mnum m' = mnum m"
proof -
  have "mbase m' = mbase m \<and> msize m' = msize m \<and> mnum m' = mnum m"
    using assms(2) by (auto simp: memb_alloc_def split: option.splits)
  with alloc_fresh [OF _ assms(2)] assms(1) show ?thesis by (auto simp: unit_pool_def)
qed

lemma unit_pool_room:
  assumes "unit_pool m" and "card (memb_used m) < mnum m"
  shows "\<exists>m' p. memb_alloc m = (m', Some p)"
  using assms mpool.alloc_succeeds [of m] by (simp add: unit_pool_def card_blocks)

subsection \<open>Properties\<close>

text \<open>C29. A block freed with \<open>memb_free\<close> can be allocated again: on a well-formed pool, freeing a
  block in use returns 0, and the following \<open>memb_alloc\<close> succeeds, with a block that no other client
  holds; all other blocks keep their state.\<close>

theorem memb_free_alloc:
  assumes "memb_wf m" and "p \<in> memb_used m"
  shows "\<exists>m1 m2 q. memb_free m p = (m1, 0) \<and> memb_alloc m1 = (m2, Some q) \<and>
           q \<notin> memb_used m - {p} \<and> memb_used m2 = insert q (memb_used m - {p})"
  using assms by (rule mpool.free_then_alloc)

definition memb_demo :: memb where
  "memb_demo = \<lparr>msize = 4, mnum = 2, mcount = [1, 1], mbase = 100\<rparr>"

theorem memb_free_alloc_witness:
  "\<exists>m1 m2 q. memb_free memb_demo 104 = (m1, 0) \<and> memb_alloc m1 = (m2, Some q)"
proof -
  have "104 \<in> memb_used memb_demo"
    unfolding memb_used_def by (rule image_eqI [of _ _ 1]) (simp_all add: memb_demo_def)
  then show ?thesis
    using memb_free_alloc [of memb_demo 104] by (auto simp: memb_wf_def memb_demo_def)
qed

end
