(* ===== verification/NbrTable.thy ===== *)
theory NbrTable
  imports Prelude Memb
begin

text \<open>
  The neighbour table of \<open>core/net/nbr-table.c\<close>: one list of keys (link-layer addresses) shared by
  up to eight tables, a \<open>used\<close> and a \<open>locked\<close> bitmap with one byte per neighbour and one bit per
  table, and the replacement policy that evicts a neighbour when the key pool is full.

  A key and an item are both represented by the neighbour index, the value \<open>index_from_key\<close> and
  \<open>index_from_item\<close> compute from their addresses; the key pool is the allocator of \<open>Memb\<close> with
  addresses counted in keys. The list of keys is the HOL list that \<open>CList\<close> justifies. The record
  is extensible: the tables' own data are fields the later theories add. What the module calls
  through function pointers or configuration macros (a table's removal callback, clearing an item,
  \<open>NBR_TABLE_FIND_REMOVABLE\<close>) is the environment \<open>nbr_env\<close>; the laws they obey are a locale, discharged
  for the callbacks of the RPL stack in the theory that defines them.
\<close>

unbundle bit_operations_syntax

definition NBR_TABLE_MAX_NEIGHBORS :: nat where "NBR_TABLE_MAX_NEIGHBORS = 70"
definition MAX_NUM_TABLES :: nat where "MAX_NUM_TABLES = 8"

datatype nbr_table_reason = NBR_TABLE_REASON_UNDEFINED | NBR_TABLE_REASON_RPL_DIO
  | NBR_TABLE_REASON_RPL_DAO | NBR_TABLE_REASON_RPL_DIS | NBR_TABLE_REASON_ROUTE
  | NBR_TABLE_REASON_IPV6_ND | NBR_TABLE_REASON_MAC | NBR_TABLE_REASON_LLSEC

text \<open>\<open>struct nbr_table\<close>: its index and whether a callback is set.\<close>

record nbr_table =
  t_index :: nat
  t_callback :: bool

record nbr_state =
  nt_keys :: "nat list"
  nt_mem :: memb
  nt_lladdr :: "nat \<Rightarrow> linkaddr"
  used_map :: "nat \<Rightarrow> u8"
  locked_map :: "nat \<Rightarrow> u8"
  all_tables :: "nat \<Rightarrow> nat option"
  num_tables :: nat
  tabs :: "nat \<Rightarrow> nbr_table"

record ('st, 'd) nbr_env =
  env_callback :: "nat \<Rightarrow> nat \<Rightarrow> 'st \<Rightarrow> 'st option"
  env_clear :: "nat \<Rightarrow> nat \<Rightarrow> 'st \<Rightarrow> 'st"
  env_policy :: "nbr_table_reason \<Rightarrow> 'd \<Rightarrow> 'st \<Rightarrow> ('st \<times> linkaddr option) option"

definition linkaddr_null :: linkaddr where "linkaddr_null = replicate 8 0"

subsection \<open>Indices, keys and items\<close>

definition key_from_index :: "int \<Rightarrow> ptr" where
  "key_from_index index = (if index \<noteq> -1 then Some (nat index) else None)"

definition item_from_index :: "int \<Rightarrow> ptr" where
  "item_from_index index = (if index \<noteq> -1 then Some (nat index) else None)"

definition index_from_key :: "ptr \<Rightarrow> int" where
  "index_from_key key = (case key of None \<Rightarrow> -1 | Some k \<Rightarrow> int k)"

definition index_from_item :: "ptr \<Rightarrow> int" where
  "index_from_item item = (case item of None \<Rightarrow> -1 | Some k \<Rightarrow> int k)"

definition item_from_key :: "ptr \<Rightarrow> ptr" where
  "item_from_key key = item_from_index (index_from_key key)"

definition key_from_item :: "ptr \<Rightarrow> ptr" where
  "key_from_item item = key_from_index (index_from_item item)"

text \<open>\<open>list_head\<close> and \<open>list_item_next\<close> on the list of keys.\<close>

definition key_head :: "('a nbr_state_scheme) \<Rightarrow> ptr" where
  "key_head s = first_of (nt_keys s)"

definition key_next :: "('a nbr_state_scheme) \<Rightarrow> ptr \<Rightarrow> ptr" where
  "key_next s key = (case key of None \<Rightarrow> None | Some k \<Rightarrow> first_of (after k (nt_keys s)))"

text \<open>The \<open>while\<close> loop of \<open>index_from_lladdr\<close> over the keys that are left.\<close>

fun lladdr_loop :: "(nat \<Rightarrow> linkaddr) \<Rightarrow> linkaddr \<Rightarrow> nat list \<Rightarrow> int" where
  "lladdr_loop la a [] = -1"
| "lladdr_loop la a (k # ks) = (if a = la k then index_from_key (Some k) else lladdr_loop la a ks)"

definition index_from_lladdr :: "('a nbr_state_scheme) \<Rightarrow> linkaddr option \<Rightarrow> int" where
  "index_from_lladdr s lladdr =
     (let a = (case lladdr of None \<Rightarrow> linkaddr_null | Some a \<Rightarrow> a)
      in lladdr_loop (nt_lladdr s) a (nt_keys s))"

definition nbr_get_bit :: "(nat \<Rightarrow> u8) \<Rightarrow> ('a nbr_state_scheme) \<Rightarrow> nat \<Rightarrow> ptr \<Rightarrow> bool" where
  "nbr_get_bit bitmap s t item =
     (let item_index = index_from_item item
      in if item_index \<noteq> -1
         then bitmap (nat item_index) AND push_bit (t_index (tabs s t)) 1 \<noteq> 0
         else False)"

definition nbr_set_bit ::
  "(nat \<Rightarrow> u8) \<Rightarrow> ('a nbr_state_scheme) \<Rightarrow> nat \<Rightarrow> ptr \<Rightarrow> bool \<Rightarrow> (nat \<Rightarrow> u8) \<times> bool" where
  "nbr_set_bit bitmap s t item v =
     (let item_index = index_from_item item; i = nat item_index; m = push_bit (t_index (tabs s t)) 1
      in if item_index \<noteq> -1
         then (bitmap(i := (if v then bitmap i OR m else bitmap i AND NOT m)), True)
         else (bitmap, False))"

subsection \<open>Allocation and eviction\<close>

text \<open>\<open>while(used != 0)\<close>: the number of bits set.\<close>

fun count_used :: "nat \<Rightarrow> nat \<Rightarrow> nat" where
  "count_used used used_count =
     (if used = 0 then used_count
      else count_used (used div 2) (if used mod 2 = 1 then used_count + 1 else used_count))"

declare count_used.simps [simp del]

fun least_used_loop ::
  "('a nbr_state_scheme) \<Rightarrow> nat list \<Rightarrow> ptr \<Rightarrow> nat \<Rightarrow> ptr" where
  "least_used_loop s [] least_used_key least_used_count = least_used_key"
| "least_used_loop s (key # ks) least_used_key least_used_count =
     (if locked_map s key = 0
      then let used_count = count_used (unat (used_map s key)) 0
           in if least_used_key = None \<or> used_count < least_used_count
              then if used_count = 0 then Some key
                   else least_used_loop s ks (Some key) used_count
              else least_used_loop s ks least_used_key least_used_count
      else least_used_loop s ks least_used_key least_used_count)"

text \<open>The \<open>for\<close> loop over the table slots that calls the removal callbacks; \<open>js\<close> are the slots left.\<close>

fun callback_loop ::
  "('a nbr_state_scheme, 'd) nbr_env \<Rightarrow> nat \<Rightarrow> nat list \<Rightarrow> 'a nbr_state_scheme
    \<Rightarrow> ('a nbr_state_scheme) option" where
  "callback_loop env key [] s = Some s"
| "callback_loop env key (j # js) s = (case all_tables s j of
     None \<Rightarrow> callback_loop env key js s
   | Some t \<Rightarrow>
       if t_callback (tabs s t)
       then let removed_item = item_from_key (Some key)
            in if nbr_get_bit (used_map s) s t removed_item
               then do { s1 \<leftarrow> env_callback env t key s; callback_loop env key js s1 }
               else callback_loop env key js s
       else callback_loop env key js s)"

text \<open>The victim for the address the policy named: its entry if it has one, which is unlocked first,
  and the least used unlocked one otherwise.\<close>

definition choose_victim :: "linkaddr \<Rightarrow> 'a nbr_state_scheme \<Rightarrow> 'a nbr_state_scheme \<times> ptr" where
  "choose_victim lladdr s =
     (let index = index_from_lladdr s (Some lladdr)
      in if index \<noteq> -1
         then (if locked_map s (nat index) \<noteq> 0
               then s\<lparr>locked_map := (locked_map s)(nat index := 0)\<rparr> else s,
               key_from_index index)
         else (s, least_used_loop s (nt_keys s) None 0))"

text \<open>Reuse of the victim: the callbacks, the cleared row and the removal from the list.\<close>

definition evict ::
  "('a nbr_state_scheme, 'd) nbr_env \<Rightarrow> nat \<Rightarrow> 'a nbr_state_scheme \<Rightarrow> ('a nbr_state_scheme) option" where
  "evict env k s = do {
     s1 \<leftarrow> callback_loop env k [0..<MAX_NUM_TABLES] s;
     Some (s1\<lparr>used_map := (used_map s1)(k := 0), nt_keys := remove1 k (nt_keys s1)\<rparr>)
   }"

definition nbr_table_allocate ::
  "('a nbr_state_scheme, 'd) nbr_env \<Rightarrow> nbr_table_reason \<Rightarrow> 'd \<Rightarrow> 'a nbr_state_scheme
    \<Rightarrow> ('a nbr_state_scheme \<times> ptr) option" where
  "nbr_table_allocate env reason data s =
     (case memb_alloc (nt_mem s) of
        (mem, Some key) \<Rightarrow> Some (s\<lparr>nt_mem := mem\<rparr>, Some key)
      | (_, None) \<Rightarrow> do {
          (s1, lladdr) \<leftarrow> env_policy env reason data s;
          case lladdr of
            None \<Rightarrow> Some (s1, None)
          | Some a \<Rightarrow>
              (case choose_victim a s1 of
                 (s2, None) \<Rightarrow> Some (s2, None)
               | (s2, Some k) \<Rightarrow> do { s3 \<leftarrow> evict env k s2; Some (s3, Some k) })
        })"

subsection \<open>The interface\<close>

definition nbr_table_register :: "nat \<Rightarrow> bool \<Rightarrow> 'a nbr_state_scheme \<Rightarrow> 'a nbr_state_scheme \<times> bool" where
  "nbr_table_register t callback s =
     (if num_tables s < MAX_NUM_TABLES
      then (s\<lparr>num_tables := num_tables s + 1,
              tabs := (tabs s)(t := \<lparr>t_index = num_tables s, t_callback = callback\<rparr>),
              all_tables := (all_tables s)(num_tables s := Some t)\<rparr>, True)
      else (s, False))"

text \<open>The \<open>do\<close> loop of \<open>nbr_table_next\<close> over the keys behind the current one.\<close>

fun next_loop :: "('a nbr_state_scheme) \<Rightarrow> nat \<Rightarrow> nat list \<Rightarrow> ptr" where
  "next_loop s t [] = None"
| "next_loop s t (k # ks) =
     (if nbr_get_bit (used_map s) s t (item_from_key (Some k)) then item_from_key (Some k)
      else next_loop s t ks)"

definition nbr_table_next :: "('a nbr_state_scheme) \<Rightarrow> nat \<Rightarrow> ptr \<Rightarrow> ptr" where
  "nbr_table_next s t item = (case key_from_item item of
     None \<Rightarrow> None
   | Some k \<Rightarrow> next_loop s t (after k (nt_keys s)))"

definition nbr_table_head :: "('a nbr_state_scheme) \<Rightarrow> nat \<Rightarrow> ptr" where
  "nbr_table_head s t =
     (let item = item_from_key (key_head s)
      in if nbr_get_bit (used_map s) s t item then item else nbr_table_next s t item)"

definition nbr_table_add_lladdr ::
  "('a nbr_state_scheme, 'd) nbr_env \<Rightarrow> nat \<Rightarrow> linkaddr option \<Rightarrow> nbr_table_reason \<Rightarrow> 'd
    \<Rightarrow> 'a nbr_state_scheme \<Rightarrow> ('a nbr_state_scheme \<times> ptr) option" where
  "nbr_table_add_lladdr env t lladdr reason data s =
     (let a = (case lladdr of None \<Rightarrow> linkaddr_null | Some a \<Rightarrow> a);
          index = index_from_lladdr s (Some a)
      in do {
        (s1, key) \<leftarrow>
          (if index = -1 then do {
             (s0, key) \<leftarrow> nbr_table_allocate env reason data s;
             case key of
               None \<Rightarrow> Some (s0, None)
             | Some k \<Rightarrow> Some (s0\<lparr>nt_keys := remove1 k (nt_keys s0) @ [k],
                                   nt_lladdr := (nt_lladdr s0)(k := a)\<rparr>, Some k)
           } else Some (s, key_from_index index));
        case key of
          None \<Rightarrow> Some (s1, None)
        | Some k \<Rightarrow> (
            let item = item_from_index (index_from_key (Some k));
                s2 = env_clear env t k s1
            in Some (s2\<lparr>used_map := fst (nbr_set_bit (used_map s2) s2 t item True)\<rparr>, item))
      })"

definition nbr_table_get_from_lladdr :: "('a nbr_state_scheme) \<Rightarrow> nat \<Rightarrow> linkaddr option \<Rightarrow> ptr" where
  "nbr_table_get_from_lladdr s t lladdr =
     (let item = item_from_index (index_from_lladdr s lladdr)
      in if nbr_get_bit (used_map s) s t item then item else None)"

definition nbr_table_remove :: "nat \<Rightarrow> ptr \<Rightarrow> 'a nbr_state_scheme \<Rightarrow> 'a nbr_state_scheme \<times> bool" where
  "nbr_table_remove t item s =
     (let (um, ret) = nbr_set_bit (used_map s) s t item False;
          (lm, _) = nbr_set_bit (locked_map s) s t item False
      in (s\<lparr>used_map := um, locked_map := lm\<rparr>, ret))"

definition nbr_table_lock :: "nat \<Rightarrow> ptr \<Rightarrow> 'a nbr_state_scheme \<Rightarrow> 'a nbr_state_scheme \<times> bool" where
  "nbr_table_lock t item s =
     (let (lm, ret) = nbr_set_bit (locked_map s) s t item True in (s\<lparr>locked_map := lm\<rparr>, ret))"

definition nbr_table_unlock :: "nat \<Rightarrow> ptr \<Rightarrow> 'a nbr_state_scheme \<Rightarrow> 'a nbr_state_scheme \<times> bool" where
  "nbr_table_unlock t item s =
     (let (lm, ret) = nbr_set_bit (locked_map s) s t item False in (s\<lparr>locked_map := lm\<rparr>, ret))"

definition nbr_table_get_lladdr :: "('a nbr_state_scheme) \<Rightarrow> ptr \<Rightarrow> linkaddr option" where
  "nbr_table_get_lladdr s item =
     (case key_from_item item of None \<Rightarrow> None | Some k \<Rightarrow> Some (nt_lladdr s k))"


subsection \<open>Indices and bits\<close>

lemma index_key_simps [simp]:
  "index_from_key None = -1" "index_from_key (Some k) = int k"
  "index_from_item None = -1" "index_from_item (Some k) = int k"
  "key_from_index (-1) = None" "key_from_index (int k) = Some k"
  "item_from_index (-1) = None" "item_from_index (int k) = Some k"
  by (simp_all add: index_from_key_def index_from_item_def key_from_index_def item_from_index_def)

lemma key_item_id [simp]: "item_from_key key = key" "key_from_item item = item"
  by (cases key; simp add: item_from_key_def) (cases item; simp add: key_from_item_def)

lemma lladdr_loop_eq: "lladdr_loop la a ks = index_from_key (find (\<lambda>k. la k = a) ks)"
  by (induction ks) auto

text \<open>\<open>uses s t k\<close>: neighbour \<open>k\<close> has an entry in table \<open>t\<close>.\<close>

definition uses :: "('a nbr_state_scheme) \<Rightarrow> nat \<Rightarrow> nat \<Rightarrow> bool" where
  "uses s t k = bit (used_map s k) (t_index (tabs s t))"

definition locks :: "('a nbr_state_scheme) \<Rightarrow> nat \<Rightarrow> nat \<Rightarrow> bool" where
  "locks s t k = bit (locked_map s k) (t_index (tabs s t))"

definition nbr_items :: "('a nbr_state_scheme) \<Rightarrow> nat \<Rightarrow> nat list" where
  "nbr_items s t = filter (uses s t) (nt_keys s)"

lemma get_bit_uses [simp]:
  "nbr_get_bit (used_map s) s t (Some k) = uses s t k" "\<not> nbr_get_bit bm s t None"
  by (simp_all add: nbr_get_bit_def uses_def bit_iff_and_push_bit_not_eq_0)

lemma get_bit_locks: "nbr_get_bit (locked_map s) s t (Some k) = locks s t k"
  by (simp add: nbr_get_bit_def locks_def bit_iff_and_push_bit_not_eq_0)

lemma set_bit_None [simp]: "nbr_set_bit bm s t None v = (bm, False)"
  by (simp add: nbr_set_bit_def)

lemma set_bit_Some:
  "nbr_set_bit bm s t (Some k) v =
     (bm(k := (if v then bm k OR push_bit (t_index (tabs s t)) 1
               else bm k AND NOT (push_bit (t_index (tabs s t)) 1))), True)"
  by (simp add: nbr_set_bit_def)

lemma bit_set_bit:
  "bit (fst (nbr_set_bit bm s t (Some k) v) j) i \<longleftrightarrow>
     (if j = k \<and> i = t_index (tabs s t) then v \<and> i < 8 else bit (bm j) i)"
  by (auto simp: set_bit_Some bit_or_iff bit_and_iff bit_not_iff bit_exp_iff
      dest: bit_imp_le_length)

lemma next_loop_eq: "next_loop s t ks = first_of (filter (uses s t) ks)"
  by (induction ks) auto

lemma nbr_next_eq:
  "nbr_table_next s t (Some k) = first_of (filter (uses s t) (after k (nt_keys s)))"
  "nbr_table_next s t None = None"
  by (simp_all add: nbr_table_next_def next_loop_eq)

lemma nbr_head_eq: "nbr_table_head s t = first_of (nbr_items s t)"
proof (cases "nt_keys s")
  case Nil
  then show ?thesis by (simp add: nbr_table_head_def key_head_def nbr_items_def nbr_next_eq)
next
  case (Cons k ks)
  then show ?thesis by (simp add: nbr_table_head_def key_head_def nbr_items_def nbr_next_eq)
qed

lemma first_filter_after:
  "distinct ks \<Longrightarrow> k \<in> set ks \<Longrightarrow> P k \<Longrightarrow>
   first_of (filter P (after k ks)) = first_of (after k (filter P ks))"
  by (induction ks) (auto dest: in_set_conv_decomp_first [THEN iffD1])

subsection \<open>The replacement policy\<close>

lemma count_used_add: "count_used n c = c + count_used n 0"
proof (induction n arbitrary: c rule: less_induct)
  case (less n)
  show ?case
  proof (cases "n = 0")
    case True
    then show ?thesis by (simp add: count_used.simps)
  next
    case False
    then have "n div 2 < n" by simp
    from less [OF this, of "c + 1"] less [OF this, of c] less [OF this, of 1] False
    show ?thesis by (simp add: count_used.simps [of n])
  qed
qed

lemma count_used_bits: "n < 2 ^ b \<Longrightarrow> count_used n 0 = card {i. i < b \<and> bit n i}"
proof (induction b arbitrary: n)
  case 0
  then show ?case by (simp add: count_used.simps)
next
  case (Suc b)
  have "{i. i < Suc b \<and> bit n i} = (if odd n then {0} else {}) \<union> Suc ` {i. i < b \<and> bit (n div 2) i}"
    by (auto simp: bit_0 bit_Suc image_iff less_Suc_eq_0_disj)
  then have "card {i. i < Suc b \<and> bit n i} = (if odd n then 1 else 0) + card {i. i < b \<and> bit (n div 2) i}"
    by (subst \<open>_ = _\<close>, subst card_Un_disjoint) (auto simp: card_image)
  moreover have "count_used n 0 = (if odd n then 1 else 0) + count_used (n div 2) 0"
    using count_used_add [of "n div 2" 1]
    by (auto simp: count_used.simps [of n] count_used.simps [of 0] odd_iff_mod_2_eq_one)
  ultimately show ?case using Suc by simp
qed

text \<open>The number of tables that use neighbour \<open>k\<close>.\<close>

definition use_count :: "('a nbr_state_scheme) \<Rightarrow> nat \<Rightarrow> nat" where
  "use_count s k = card {i. i < 8 \<and> bit (used_map s k) i}"

lemma count_used_use_count: "count_used (unat (used_map s k)) 0 = use_count s k"
proof -
  have "unat (used_map s k) < 2 ^ 8" using unat_u8_bound [of "used_map s k"] by simp
  from count_used_bits [OF this] show ?thesis
    by (simp add: use_count_def bit_unsigned_iff)
qed

text \<open>The victim of the loop, given the best of the keys \<open>pre\<close> already looked at.\<close>

definition best_victim :: "('a nbr_state_scheme) \<Rightarrow> nat list \<Rightarrow> nat \<Rightarrow> bool" where
  "best_victim s ks k \<longleftrightarrow>
     (\<exists>ys zs. ks = ys @ k # zs \<and> locked_map s k = 0 \<and>
        (\<forall>y \<in> set ys. locked_map s y = 0 \<longrightarrow> use_count s k < use_count s y) \<and>
        (\<forall>z \<in> set zs. locked_map s z = 0 \<longrightarrow> use_count s k \<le> use_count s z))"

lemma best_victim_extend:
  "best_victim s ks k \<Longrightarrow> (\<forall>z \<in> set zs. locked_map s z = 0 \<longrightarrow> use_count s k \<le> use_count s z)
   \<Longrightarrow> best_victim s (ks @ zs) k"
  unfolding best_victim_def by fastforce

lemma best_victim_min:
  "best_victim s ks k \<Longrightarrow> y \<in> set ks \<Longrightarrow> locked_map s y = 0 \<Longrightarrow> use_count s k \<le> use_count s y"
  unfolding best_victim_def by fastforce

lemma least_used_loop_Some:
  "best_victim s pre b \<Longrightarrow>
   \<exists>k. least_used_loop s ks (Some b) (use_count s b) = Some k \<and> best_victim s (pre @ ks) k"
proof (induction ks arbitrary: pre b)
  case Nil
  then show ?case by simp
next
  case (Cons x ks)
  have ext: "best_victim s (pre @ [x]) b" if "locked_map s x = 0 \<longrightarrow> use_count s b \<le> use_count s x"
    using best_victim_extend [OF Cons.prems, of "[x]"] that by simp
  have new: "best_victim s (pre @ [x]) x" if "locked_map s x = 0" "use_count s x < use_count s b"
    unfolding best_victim_def using that best_victim_min [OF Cons.prems]
    by (intro exI [of _ pre] exI [of _ "[]"]) fastforce
  show ?case
  proof (cases "locked_map s x = 0 \<and> use_count s x < use_count s b")
    case True
    show ?thesis
    proof (cases "use_count s x = 0")
      case zero: True
      with best_victim_extend [OF new, of ks] True show ?thesis
        by (simp add: count_used_use_count)
    next
      case False
      with Cons.IH [OF new] True show ?thesis by (simp add: count_used_use_count)
    qed
  next
    case False
    with Cons.IH [OF ext] show ?thesis by (auto simp: count_used_use_count)
  qed
qed

lemma least_used_loop_None:
  "(\<forall>y \<in> set pre. locked_map s y \<noteq> 0) \<Longrightarrow>
   (case least_used_loop s ks None c of
      None \<Rightarrow> \<forall>y \<in> set ks. locked_map s y \<noteq> 0
    | Some k \<Rightarrow> best_victim s (pre @ ks) k)"
proof (induction ks arbitrary: pre)
  case Nil
  then show ?case by simp
next
  case (Cons x ks)
  show ?case
  proof (cases "locked_map s x = 0")
    case False
    with Cons.IH [of "pre @ [x]"] Cons.prems show ?thesis by (auto split: option.splits)
  next
    case True
    have new: "best_victim s (pre @ [x]) x"
      unfolding best_victim_def using True Cons.prems
      by (intro exI [of _ pre] exI [of _ "[]"]) simp
    show ?thesis
    proof (cases "use_count s x = 0")
      case zero: True
      with best_victim_extend [OF new, of ks] True show ?thesis by (simp add: count_used_use_count)
    next
      case False
      with least_used_loop_Some [OF new, of ks] True show ?thesis
        by (auto simp: count_used_use_count)
    qed
  qed
qed


subsection \<open>Invariant and frames\<close>

definition nbr_wf :: "('a nbr_state_scheme) \<Rightarrow> bool" where
  "nbr_wf s \<longleftrightarrow> distinct (nt_keys s) \<and> memb_wf (nt_mem s) \<and> mbase (nt_mem s) = 0 \<and> msize (nt_mem s) = 1 \<and>
     memb_used (nt_mem s) = set (nt_keys s) \<and> inj_on (nt_lladdr s) (set (nt_keys s)) \<and>
     (\<forall>k. k \<notin> set (nt_keys s) \<longrightarrow> used_map s k = 0)"

definition registered :: "('a nbr_state_scheme) \<Rightarrow> nat \<Rightarrow> bool" where
  "registered s t \<longleftrightarrow> t_index (tabs s t) < 8 \<and> all_tables s (t_index (tabs s t)) = Some t"

text \<open>\<open>nbr_same\<close>: the keys and the tables are those of before; \<open>nbr_frame\<close>: moreover entries were
  at most removed; \<open>nbr_eq\<close>: nothing of the neighbour table changed.\<close>

definition nbr_same :: "('a nbr_state_scheme) \<Rightarrow> ('a nbr_state_scheme) \<Rightarrow> bool" where
  "nbr_same s s' \<longleftrightarrow> nt_keys s' = nt_keys s \<and> nt_mem s' = nt_mem s \<and> nt_lladdr s' = nt_lladdr s \<and>
     all_tables s' = all_tables s \<and> num_tables s' = num_tables s \<and> tabs s' = tabs s"

definition nbr_frame :: "('a nbr_state_scheme) \<Rightarrow> ('a nbr_state_scheme) \<Rightarrow> bool" where
  "nbr_frame s s' \<longleftrightarrow> nbr_same s s' \<and> (\<forall>k i. bit (used_map s' k) i \<longrightarrow> bit (used_map s k) i)"

definition nbr_eq :: "('a nbr_state_scheme) \<Rightarrow> ('a nbr_state_scheme) \<Rightarrow> bool" where
  "nbr_eq s s' \<longleftrightarrow> nbr_same s s' \<and> used_map s' = used_map s \<and> locked_map s' = locked_map s"

lemma nbr_frame_refl [simp, wf_intros]: "nbr_frame s s"
  by (simp add: nbr_frame_def nbr_same_def)

lemma nbr_frame_trans: "nbr_frame s s1 \<Longrightarrow> nbr_frame s1 s2 \<Longrightarrow> nbr_frame s s2"
  by (simp add: nbr_frame_def nbr_same_def)

lemma nbr_eq_frame: "nbr_eq s s' \<Longrightarrow> nbr_frame s s'"
  by (simp add: nbr_frame_def nbr_eq_def)

lemma nbr_eq_refl [simp]: "nbr_eq s s"
  by (simp add: nbr_eq_def nbr_same_def)

lemma nbr_eq_trans: "nbr_eq s s1 \<Longrightarrow> nbr_eq s1 s2 \<Longrightarrow> nbr_eq s s2"
  by (simp add: nbr_eq_def nbr_same_def)

lemma frame_keys: "nbr_frame s s' \<Longrightarrow> nt_keys s' = nt_keys s"
  by (simp add: nbr_frame_def nbr_same_def)

lemma frame_uses: "nbr_frame s s' \<Longrightarrow> uses s' t k \<Longrightarrow> uses s t k"
  by (simp add: nbr_frame_def nbr_same_def uses_def)

lemma frame_wf: "nbr_frame s s' \<Longrightarrow> nbr_wf s \<Longrightarrow> nbr_wf s'"
  unfolding nbr_frame_def nbr_same_def nbr_wf_def by (metis bit_0_eq bit_eqI bot_apply bot_bool_def)

lemma frame_items: "nbr_frame s s' \<Longrightarrow> set (nbr_items s' t) \<subseteq> set (nbr_items s t)"
  by (auto simp: nbr_items_def frame_keys dest: frame_uses)

lemma items_cong: "nbr_same s s' \<Longrightarrow> used_map s' = used_map s \<Longrightarrow> nbr_items s' t = nbr_items s t"
proof -
  assume a: "nbr_same s s'" "used_map s' = used_map s"
  then have "uses s' t = uses s t" by (simp add: nbr_same_def uses_def fun_eq_iff)
  with a show ?thesis by (simp add: nbr_same_def nbr_items_def)
qed

lemma remove_frame: "nbr_frame s (fst (nbr_table_remove t item s))"
  by (cases item) (auto simp: nbr_table_remove_def nbr_frame_def nbr_same_def set_bit_Some
      bit_and_iff split: if_splits)

lemma lock_frame:
  "nbr_frame s (fst (nbr_table_lock t item s))" "nbr_frame s (fst (nbr_table_unlock t item s))"
  by (simp_all add: nbr_table_lock_def nbr_table_unlock_def nbr_frame_def nbr_same_def
      split: prod.splits)

lemma lookup_index:
  "index_from_lladdr s (Some a) = index_from_key (find (\<lambda>k. nt_lladdr s k = a) (nt_keys s))"
  by (simp add: index_from_lladdr_def lladdr_loop_eq)

lemma index_key_neq [simp]: "index_from_key p = -1 \<longleftrightarrow> p = None"
  by (cases p) auto

lemma item_of_key_index [simp]:
  "item_from_index (index_from_key p) = p" "key_from_index (index_from_key p) = p"
  by (cases p; simp)+

lemma get_from_lladdr_eq:
  "nbr_table_get_from_lladdr s t (Some a) =
     (case find (\<lambda>k. nt_lladdr s k = a) (nt_keys s) of
        None \<Rightarrow> None | Some k \<Rightarrow> if uses s t k then Some k else None)"
  by (auto simp: nbr_table_get_from_lladdr_def lookup_index split: option.splits)

lemma find_lladdr_iff:
  assumes "nbr_wf s"
  shows "find (\<lambda>k. nt_lladdr s k = a) (nt_keys s) = Some k \<longleftrightarrow> k \<in> set (nt_keys s) \<and> nt_lladdr s k = a"
proof
  assume "find (\<lambda>k. nt_lladdr s k = a) (nt_keys s) = Some k"
  from find_Some_set [OF this] show "k \<in> set (nt_keys s) \<and> nt_lladdr s k = a" .
next
  assume k: "k \<in> set (nt_keys s) \<and> nt_lladdr s k = a"
  have "inj_on (nt_lladdr s) (set (nt_keys s))" using assms by (simp add: nbr_wf_def)
  with k show "find (\<lambda>k. nt_lladdr s k = a) (nt_keys s) = Some k"
    by (intro find_unique) (auto dest: inj_onD)
qed

lemma get_from_lladdr_iff:
  assumes "nbr_wf s"
  shows "nbr_table_get_from_lladdr s t (Some a) = Some k \<longleftrightarrow>
         k \<in> set (nbr_items s t) \<and> nt_lladdr s k = a"
proof (cases "find (\<lambda>k. nt_lladdr s k = a) (nt_keys s)")
  case None
  moreover from None have "\<forall>k \<in> set (nt_keys s). nt_lladdr s k \<noteq> a" by (simp add: find_None_set)
  ultimately show ?thesis by (auto simp: get_from_lladdr_eq nbr_items_def)
next
  case (Some j)
  with find_lladdr_iff [OF assms, of a] have "k \<in> set (nt_keys s) \<and> nt_lladdr s k = a \<longleftrightarrow> j = k" by auto
  with Some show ?thesis by (auto simp: get_from_lladdr_eq nbr_items_def)
qed

subsection \<open>The contract of the callbacks\<close>

text \<open>What an allocation gives: a key that is on no list, with an empty row, the key pool and the
  addresses of the remaining keys unchanged.\<close>

definition alloc_post :: "'a nbr_state_scheme \<Rightarrow> 'a nbr_state_scheme \<Rightarrow> nat \<Rightarrow> bool" where
  "alloc_post s s' k \<longleftrightarrow> k \<notin> set (nt_keys s') \<and> nt_keys s' = remove1 k (nt_keys s) \<and>
     memb_used (nt_mem s') = insert k (set (nt_keys s')) \<and> memb_wf (nt_mem s') \<and>
     mbase (nt_mem s') = 0 \<and> msize (nt_mem s') = 1 \<and> nt_lladdr s' = nt_lladdr s \<and>
     tabs s' = tabs s \<and> all_tables s' = all_tables s \<and> used_map s' k = 0 \<and>
     (\<forall>j i. bit (used_map s' j) i \<longrightarrow> bit (used_map s j) i)"

lemma alloc_key_post:
  assumes "nbr_wf s" and "memb_alloc (nt_mem s) = (mem, Some k)"
  shows "alloc_post s (s\<lparr>nt_mem := mem\<rparr>) k"
proof -
  have "msize mem = msize (nt_mem s)" "mbase mem = mbase (nt_mem s)"
    using assms(2) by (auto simp: memb_alloc_def split: option.splits)
  with alloc_fresh [OF _ assms(2)] assms(1) show ?thesis
    by (auto simp: alloc_post_def nbr_wf_def remove1_idem)
qed

lemma choose_frame: "nbr_frame s (fst (choose_victim a s))"
  by (simp add: choose_victim_def Let_def nbr_frame_def nbr_same_def)

lemma choose_in_keys:
  assumes "choose_victim a s = (s', Some k)"
  shows "k \<in> set (nt_keys s')"
proof (cases "index_from_lladdr s (Some a) = -1")
  case True
  with assms least_used_loop_None [of "[]" s "nt_keys s" 0] show ?thesis
    by (auto simp: choose_victim_def best_victim_def)
next
  case False
  with assms have "find (\<lambda>k. nt_lladdr s k = a) (nt_keys s) = Some k" "nt_keys s' = nt_keys s"
    by (auto simp: choose_victim_def lookup_index Let_def split: if_splits)
  with find_Some_set [OF this(1)] show ?thesis by simp
qed

text \<open>The last step of an addition, once the key is known: the item is cleared and its bit set.\<close>

definition claimed :: "('a nbr_state_scheme, 'd) nbr_env \<Rightarrow> nat \<Rightarrow> nat \<Rightarrow> 'a nbr_state_scheme \<Rightarrow> 'a nbr_state_scheme" where
  "claimed env t k s = (env_clear env t k s)\<lparr>used_map :=
      fst (nbr_set_bit (used_map (env_clear env t k s)) (env_clear env t k s) t (Some k) True)\<rparr>"

lemma add_cases:
  assumes "nbr_table_add_lladdr env t (Some a) reason d s = Some (s', r)"
  obtains (known) k where "k \<in> set (nt_keys s)" "nt_lladdr s k = a" "r = Some k" "s' = claimed env t k s"
  | (full) "a \<notin> nt_lladdr s ` set (nt_keys s)" "nbr_table_allocate env reason d s = Some (s', None)" "r = None"
  | (new) s0 k where "a \<notin> nt_lladdr s ` set (nt_keys s)" "nbr_table_allocate env reason d s = Some (s0, Some k)"
      "r = Some k"
      "s' = claimed env t k (s0\<lparr>nt_keys := remove1 k (nt_keys s0) @ [k], nt_lladdr := (nt_lladdr s0)(k := a)\<rparr>)"
proof (cases "find (\<lambda>k. nt_lladdr s k = a) (nt_keys s)")
  case (Some k)
  with find_Some_set [OF Some] assms known [of k] show ?thesis
    by (auto simp: nbr_table_add_lladdr_def lookup_index Let_def claimed_def elim!: bind_SomeE)
next
  case None
  then have na: "a \<notin> nt_lladdr s ` set (nt_keys s)" by (auto simp: find_None_set)
  from assms None obtain s0 key where al: "nbr_table_allocate env reason d s = Some (s0, key)"
    by (auto simp: nbr_table_add_lladdr_def lookup_index elim!: bind_SomeE)
  show ?thesis
  proof (cases key)
    case key: None
    with assms None al full na show ?thesis by (auto simp: nbr_table_add_lladdr_def lookup_index)
  next
    case (Some k)
    with assms None al new na show ?thesis
      by (auto simp: nbr_table_add_lladdr_def lookup_index Let_def claimed_def elim!: bind_SomeE)
  qed
qed

locale nbr_callbacks =
  fixes env :: "('a nbr_state_scheme, 'd) nbr_env"
  assumes callback_law: "env_callback env t k s = Some s' \<Longrightarrow> nbr_frame s s'"
    and clear_law: "nbr_eq s (env_clear env t k s)"
    and policy_law: "env_policy env r d s = Some (s', a) \<Longrightarrow> nbr_eq s s'"
begin

lemma callback_loop_frame: "callback_loop env k js s = Some s' \<Longrightarrow> nbr_frame s s'"
proof (induction js arbitrary: s)
  case Nil
  then show ?case by simp
next
  case (Cons j js)
  then show ?case
    by (auto split: option.splits if_splits elim!: bind_SomeE
        intro: nbr_frame_trans callback_law)
qed

lemma evict_post:
  assumes "nbr_wf s" and "evict env k s = Some s'" and "k \<in> set (nt_keys s)"
  shows "alloc_post s s' k"
proof -
  from assms(2) obtain s1 where cb: "callback_loop env k [0..<MAX_NUM_TABLES] s = Some s1"
    and s': "s' = s1\<lparr>used_map := (used_map s1)(k := 0), nt_keys := remove1 k (nt_keys s1)\<rparr>"
    unfolding evict_def by (auto elim: bind_SomeE)
  have f: "nbr_frame s s1" by (rule callback_loop_frame [OF cb])
  from f frame_wf [OF f assms(1)] assms(3) show ?thesis
    unfolding s' by (auto simp: alloc_post_def nbr_wf_def nbr_frame_def nbr_same_def)
qed

lemma allocate_cases:
  assumes wf: "nbr_wf s" and a: "nbr_table_allocate env reason d s = Some (s', r)"
  shows "case r of None \<Rightarrow> nbr_frame s s' | Some k \<Rightarrow> alloc_post s s' k"
proof (cases "snd (memb_alloc (nt_mem s))")
  case (Some k)
  with a alloc_key_post [OF wf] show ?thesis
    by (auto simp: nbr_table_allocate_def split: prod.splits option.splits)
next
  case None
  with a obtain s1 la where pol: "env_policy env reason d s = Some (s1, la)"
    and rest: "(case la of None \<Rightarrow> Some (s1, None) | Some a \<Rightarrow>
        (case choose_victim a s1 of (s2, None) \<Rightarrow> Some (s2, None)
         | (s2, Some k) \<Rightarrow> do { s3 \<leftarrow> evict env k s2; Some (s3, Some k) })) = Some (s', r)"
    by (auto simp: nbr_table_allocate_def split: prod.splits elim!: bind_SomeE)
  have f1: "nbr_frame s s1" using policy_law [OF pol] by (rule nbr_eq_frame)
  show ?thesis
  proof (cases la)
    case None
    with rest f1 show ?thesis by auto
  next
    case (Some ad)
    obtain s2 le where ch: "choose_victim ad s1 = (s2, le)" by force
    have f2: "nbr_frame s s2" using nbr_frame_trans [OF f1] choose_frame [of s1 ad] ch by simp
    show ?thesis
    proof (cases le)
      case None
      with rest Some ch f2 show ?thesis by auto
    next
      case (Some k)
      with rest \<open>la = Some ad\<close> ch have ev: "evict env k s2 = Some s'" and r: "r = Some k"
        by (auto elim!: bind_SomeE)
      have "alloc_post s2 s' k"
        using evict_post [OF frame_wf [OF f2 wf] ev] choose_in_keys ch Some by blast
      with f2 r show ?thesis by (auto simp: alloc_post_def nbr_frame_def nbr_same_def)
    qed
  qed
qed


text \<open>The addition for a known address does not allocate.\<close>

lemma add_known:
  "find (\<lambda>k. nt_lladdr s k = a) (nt_keys s) = Some k \<Longrightarrow>
   nbr_table_add_lladdr env t (Some a) reason d s = Some (claimed env t k s, Some k)"
  by (simp add: nbr_table_add_lladdr_def lookup_index Let_def claimed_def)

lemma claim_item:
  fixes s :: "'a nbr_state_scheme"
  assumes wf: "nbr_wf s" and t: "t_index (tabs s t) < 8" and k: "k \<in> set (nt_keys s)"
    and s': "s' = claimed env t k s"
  shows "nbr_wf s' \<and> uses s' t k \<and> nt_keys s' = nt_keys s \<and> nt_lladdr s' = nt_lladdr s \<and> tabs s' = tabs s \<and>
         (\<forall>j i. bit (used_map s' j) i \<longleftrightarrow> bit (used_map s j) i \<or> (j = k \<and> i = t_index (tabs s t)))"
proof -
  define c where "c = env_clear env t k s"
  have c: "nbr_eq s c" unfolding c_def by (rule clear_law)
  have u: "used_map s' j = (if j = k then used_map s k OR push_bit (t_index (tabs s t)) 1 else used_map s j)" for j
    using c unfolding s' claimed_def c_def [symmetric] by (simp add: set_bit_Some nbr_eq_def nbr_same_def)
  have same: "nbr_same s s'"
    using c unfolding s' claimed_def c_def [symmetric] by (simp add: nbr_eq_def nbr_same_def)
  have b: "bit (used_map s' j) i \<longleftrightarrow> bit (used_map s j) i \<or> (j = k \<and> i = t_index (tabs s t))" for j i
    using t by (auto simp: u bit_or_iff bit_exp_iff)
  have "nbr_wf s'" using wf same u k by (auto simp: nbr_wf_def nbr_same_def)
  with same b show ?thesis by (auto simp: nbr_same_def uses_def)
qed

lemma add_new_wf:
  assumes "alloc_post s s0 k" and "nbr_wf s" and "find (\<lambda>k. nt_lladdr s k = a) (nt_keys s) = None"
  shows "nbr_wf (s0\<lparr>nt_keys := remove1 k (nt_keys s0) @ [k], nt_lladdr := (nt_lladdr s0)(k := a)\<rparr>)"
proof -
  have d: "distinct (nt_keys s0)" and r: "remove1 k (nt_keys s0) = nt_keys s0"
    and sub: "set (nt_keys s0) \<subseteq> set (nt_keys s)" and u: "k \<notin> set (nt_keys s0)"
    using assms(1,2) set_remove1_subset by (force simp: alloc_post_def nbr_wf_def remove1_idem)+
  have na: "a \<notin> nt_lladdr s ` set (nt_keys s)" using assms(3) by (auto simp: find_None_set)
  have "inj_on (nt_lladdr s) (set (nt_keys s0))"
    using assms(2) sub inj_on_subset unfolding nbr_wf_def by blast
  then have inj: "inj_on ((nt_lladdr s)(k := a)) (insert k (set (nt_keys s0)))"
    using u na sub by (auto simp: inj_on_def)
  have z: "used_map s0 j = 0" if "j \<notin> insert k (set (nt_keys s0))" for j
  proof (rule bit_eqI)
    fix i
    have "j \<notin> set (nt_keys s)" using that assms(1,2) by (auto simp: alloc_post_def nbr_wf_def)
    then have "used_map s j = 0" using assms(2) by (simp add: nbr_wf_def)
    then show "bit (used_map s0 j) i = bit 0 i"
      using assms(1) unfolding alloc_post_def by (metis bit_0_eq bot_apply bot_bool_def)
  qed
  show ?thesis using assms(1) d r u inj z by (simp add: nbr_wf_def alloc_post_def)
qed

lemma add_lladdr_post:
  fixes s :: "'a nbr_state_scheme"
  assumes wf: "nbr_wf s" and t: "t_index (tabs s t) < 8"
    and add: "nbr_table_add_lladdr env t (Some a) reason d s = Some (s', r)"
  shows "case r of None \<Rightarrow> nbr_frame s s' | Some k \<Rightarrow>
           nbr_wf s' \<and> k \<in> set (nbr_items s' t) \<and> nt_lladdr s' k = a \<and> tabs s' = tabs s \<and>
           nt_keys s' = (if a \<in> nt_lladdr s ` set (nt_keys s) then nt_keys s else remove1 k (nt_keys s) @ [k]) \<and>
           (\<forall>j \<in> set (nt_keys s') - {k}. nt_lladdr s' j = nt_lladdr s j)"
  using add
proof (cases rule: add_cases)
  case (known k)
  then have "a \<in> nt_lladdr s ` set (nt_keys s)" by blast
  with claim_item [OF wf t known(1,4)] known show ?thesis by (simp add: nbr_items_def)
next
  case full
  with allocate_cases [OF wf full(2)] show ?thesis by simp
next
  case (new s0 k)
  with allocate_cases [OF wf new(2)] have ap: "alloc_post s s0 k" by simp
  let ?s1 = "s0\<lparr>nt_keys := remove1 k (nt_keys s0) @ [k], nt_lladdr := (nt_lladdr s0)(k := a)\<rparr>"
  have none: "find (\<lambda>k. nt_lladdr s k = a) (nt_keys s) = None" using new(1) by (auto simp: find_None_set)
  have "nbr_wf ?s1" by (rule add_new_wf [OF ap wf none])
  moreover have "t_index (tabs ?s1 t) < 8" using ap t by (simp add: alloc_post_def)
  ultimately have "nbr_wf s' \<and> uses s' t k \<and> nt_keys s' = nt_keys ?s1 \<and> nt_lladdr s' = nt_lladdr ?s1 \<and>
      tabs s' = tabs ?s1"
    using claim_item [OF _ _ _ new(4)] by simp
  moreover have "remove1 k (nt_keys s0) = nt_keys s0" using ap remove1_idem [of k "nt_keys s0"]
    unfolding alloc_post_def by blast
  ultimately show ?thesis using new(1,3) ap by (simp add: alloc_post_def nbr_items_def)
qed

lemma add_then_get:
  assumes "nbr_wf s" and "t_index (tabs s t) < 8"
    and "nbr_table_add_lladdr env t (Some a) reason d s = Some (s', Some k)"
  shows "nbr_wf s' \<and> nbr_table_get_from_lladdr s' t (Some a) = Some k"
  using add_lladdr_post [OF assms] by (simp add: get_from_lladdr_iff)

end

text \<open>C30. Iteration over a table visits exactly its entries, each once, in the order in which the
  neighbours were inserted: the first item is the head of the list of used keys, and from an entry
  the next one is its successor on that list (NULL after the last).\<close>

theorem nbr_iteration:
  assumes "nbr_wf s"
  shows "nbr_table_head s t = first_of (nbr_items s t) \<and>
         (\<forall>k \<in> set (nbr_items s t). nbr_table_next s t (Some k) = first_of (after k (nbr_items s t)))"
  using assms by (auto simp: nbr_head_eq nbr_next_eq nbr_items_def nbr_wf_def first_filter_after)

text \<open>C31. The replacement loop never evicts a locked neighbour: it returns NULL exactly when every
  neighbour is locked, and otherwise an unlocked one such that no unlocked neighbour is used by
  fewer tables, and every unlocked neighbour inserted before it is used by strictly more.\<close>

theorem least_used_victim:
  "case least_used_loop s ks None 0 of
     None \<Rightarrow> \<forall>y \<in> set ks. locked_map s y \<noteq> 0
   | Some k \<Rightarrow> \<exists>ys zs. ks = ys @ k # zs \<and> locked_map s k = 0 \<and>
       (\<forall>y \<in> set ys. locked_map s y = 0 \<longrightarrow> use_count s k < use_count s y) \<and>
       (\<forall>z \<in> set zs. locked_map s z = 0 \<longrightarrow> use_count s k \<le> use_count s z)"
  using least_used_loop_None [of "[]" s ks 0] by (auto simp: best_victim_def split: option.splits)

definition nbr_demo :: nbr_state where
  "nbr_demo = \<lparr>nt_keys = [1, 0], nt_mem = \<lparr>msize = 1, mnum = 2, mcount = [1, 1], mbase = 0\<rparr>,
     nt_lladdr = (\<lambda>k. [of_nat k]), used_map = (\<lambda>_. 0)(0 := 3, 1 := 2), locked_map = (\<lambda>_. 0)(1 := 1),
     all_tables = (\<lambda>_. None)(0 := Some 7), num_tables = 1,
     tabs = (\<lambda>_. \<lparr>t_index = 0, t_callback = False\<rparr>)\<rparr>"

lemma nbr_demo_wf: "nbr_wf nbr_demo"
proof -
  have "memb_used (nt_mem nbr_demo) = {0, 1}"
  proof -
    have "{i. i < (2::nat) \<and> [1::int, 1] ! i \<noteq> 0} = {0, 1}" by (auto simp: less_2_cases_iff)
    then show ?thesis by (simp add: memb_used_def nbr_demo_def)
  qed
  then show ?thesis by (auto simp: nbr_wf_def nbr_demo_def memb_wf_def inj_on_def)
qed

theorem nbr_iteration_witness: "nbr_table_next nbr_demo 7 (Some 0) = None"
proof -
  have "0 \<in> set (nbr_items nbr_demo 7)" by (simp add: nbr_items_def uses_def nbr_demo_def bit_0)
  with nbr_iteration [OF nbr_demo_wf, of 7]
  have "nbr_table_next nbr_demo 7 (Some 0) = first_of (after 0 (nbr_items nbr_demo 7))" by blast
  then show ?thesis by (simp add: nbr_items_def uses_def nbr_demo_def bit_0)
qed

theorem least_used_victim_witness:
  "\<exists>k. least_used_loop nbr_demo [1, 0] None 0 = Some k \<and> locked_map nbr_demo k = 0"
proof -
  have "locked_map nbr_demo 0 = 0" by (simp add: nbr_demo_def)
  then show ?thesis
    using least_used_victim [where s = nbr_demo and ks = "[1, 0]"] by (auto split: option.splits)
qed

end
