(* ===== verification/DualRadio.thy ===== *)
theory DualRadio
  imports NbrTable
begin

text \<open>
  The dual radio of SEDA-Net in the Cooja platform (\<open>platform/cooja/dual_conf.c\<close>): which of the
  short- and the long-range interface sends, which one received last, and the table
  \<open>ds6_lr_addrmap\<close> of \<open>core/net/nbr-table.c\<close> recording for a link-layer address which of the two
  its owner was heard on. C's \<open>int\<close> variables only ever hold the constants below, so they are
  mathematical integers.
\<close>

unbundle bit_operations_syntax

definition BOTH_RADIO :: int where "BOTH_RADIO = 0"
definition LONG_RADIO :: int where "LONG_RADIO = 1"
definition SHORT_RADIO :: int where "SHORT_RADIO = 2"

lemmas radio_defs = LONG_RADIO_def SHORT_RADIO_def BOTH_RADIO_def

record addrmap =
  am_lladdr :: linkaddr
  am_lr :: u8
  am_isused :: u8

record dual_state = nbr_state +
  long_range_radio :: int
  LongRangeTransmit :: int
  radio_received :: int
  simRadioTarget :: int
  simRadioHWOn :: bool
  simRadioHWOnLR :: bool
  radio_dead :: bool
  ds6_lr_addrmap :: "addrmap list"

subsection \<open>Switching between the radios\<close>

definition dual_radio_switch :: "int \<Rightarrow> 'a dual_state_scheme \<Rightarrow> 'a dual_state_scheme" where
  "dual_radio_switch radio s =
     (if radio = LONG_RADIO then s\<lparr>long_range_radio := 1, LongRangeTransmit := 1\<rparr>
      else if radio = SHORT_RADIO then s\<lparr>long_range_radio := 0, LongRangeTransmit := 0\<rparr>
      else s)"

definition dual_radio_change :: "'a dual_state_scheme \<Rightarrow> 'a dual_state_scheme" where
  "dual_radio_change s =
     (if long_range_radio s = 1 then dual_radio_switch SHORT_RADIO s
      else if long_range_radio s = 0 then dual_radio_switch LONG_RADIO s
      else s)"

definition sending_in_LR :: "'a dual_state_scheme \<Rightarrow> int" where
  "sending_in_LR s =
     (if long_range_radio s = 0 then SHORT_RADIO
      else if long_range_radio s = 1 then LONG_RADIO
      else 0)"

definition dual_radio_received :: "int \<Rightarrow> 'a dual_state_scheme \<Rightarrow> 'a dual_state_scheme \<times> int" where
  "dual_radio_received radio s =
     (if radio = LONG_RADIO then (s\<lparr>radio_received := LONG_RADIO\<rparr>, 1)
      else if radio = SHORT_RADIO then (s\<lparr>radio_received := SHORT_RADIO\<rparr>, 1)
      else (s, 0))"

definition radio_received_is_longrange :: "'a dual_state_scheme \<Rightarrow> int" where
  "radio_received_is_longrange s =
     (if radio_received s = LONG_RADIO then LONG_RADIO else SHORT_RADIO)"

text \<open>\<open>on\<close> and \<open>off\<close> of the Cooja radio driver (\<open>dev/cooja-radio.c\<close>): the interface, or both,
  that \<open>simRadioTarget\<close> selects.\<close>

definition sim_radio_on :: "'a dual_state_scheme \<Rightarrow> 'a dual_state_scheme \<times> int" where
  "sim_radio_on s =
     (if radio_dead s then (s, 0)
      else if simRadioTarget s = SHORT_RADIO then (s\<lparr>simRadioHWOn := True\<rparr>, 1)
      else if simRadioTarget s = LONG_RADIO then (s\<lparr>simRadioHWOnLR := True\<rparr>, 1)
      else if simRadioTarget s = BOTH_RADIO then (s\<lparr>simRadioHWOn := True, simRadioHWOnLR := True\<rparr>, 1)
      else (s, 1))"

definition sim_radio_off :: "'a dual_state_scheme \<Rightarrow> 'a dual_state_scheme \<times> int" where
  "sim_radio_off s =
     (if simRadioTarget s = SHORT_RADIO then (s\<lparr>simRadioHWOn := False\<rparr>, 1)
      else if simRadioTarget s = LONG_RADIO then (s\<lparr>simRadioHWOnLR := False\<rparr>, 1)
      else if simRadioTarget s = BOTH_RADIO then (s\<lparr>simRadioHWOn := False, simRadioHWOnLR := False\<rparr>, 1)
      else (s, 1))"

definition dual_radio_turn_on :: "int \<Rightarrow> 'a dual_state_scheme \<Rightarrow> 'a dual_state_scheme" where
  "dual_radio_turn_on targetRadio s = fst (sim_radio_on (s\<lparr>simRadioTarget := targetRadio\<rparr>))"

definition dual_radio_turn_off :: "int \<Rightarrow> 'a dual_state_scheme \<Rightarrow> 'a dual_state_scheme" where
  "dual_radio_turn_off targetRadio s = fst (sim_radio_off (s\<lparr>simRadioTarget := targetRadio\<rparr>))"

subsection \<open>The address map\<close>

text \<open>The loops run over the \<open>NBR_TABLE_MAX_NEIGHBORS\<close> entries of the array, here the entries of the
  list from index \<open>i\<close> on.\<close>

fun map_add_loop :: "linkaddr \<Rightarrow> int \<Rightarrow> addrmap list \<Rightarrow> addrmap list \<times> int" where
  "map_add_loop a received [] = ([], 0)"
| "map_add_loop a received (e # es) =
     (if am_isused e \<noteq> 1
      then (\<lparr>am_lladdr = a, am_lr = (if received = LONG_RADIO then 1 else 0), am_isused = 1\<rparr> # es, 1)
      else let (es', r) = map_add_loop a received es in (e # es', r))"

definition lladdr_map_add_lr :: "linkaddr \<Rightarrow> 'a dual_state_scheme \<Rightarrow> 'a dual_state_scheme \<times> int" where
  "lladdr_map_add_lr a s =
     (let (m, r) = map_add_loop a (radio_received_is_longrange s) (ds6_lr_addrmap s)
      in (s\<lparr>ds6_lr_addrmap := m\<rparr>, r))"

fun map_rm_loop :: "linkaddr \<Rightarrow> addrmap list \<Rightarrow> addrmap list \<times> int" where
  "map_rm_loop a [] = ([], 0)"
| "map_rm_loop a (e # es) =
     (if am_lladdr e = a then (e\<lparr>am_isused := 0\<rparr> # es, 1)
      else let (es', r) = map_rm_loop a es in (e # es', r))"

definition lladdr_map_rm_lr :: "linkaddr \<Rightarrow> 'a dual_state_scheme \<Rightarrow> 'a dual_state_scheme \<times> int" where
  "lladdr_map_rm_lr a s =
     (let (m, r) = map_rm_loop a (ds6_lr_addrmap s) in (s\<lparr>ds6_lr_addrmap := m\<rparr>, r))"

text \<open>The search of \<open>long_ip_from_lladdr_map\<close>: the \<open>lr\<close> flag of the first entry with the address,
  whether it is in use or not; 1 when there is none.\<close>

fun map_lr_loop :: "linkaddr \<Rightarrow> addrmap list \<Rightarrow> u8" where
  "map_lr_loop a [] = 1"
| "map_lr_loop a (e # es) =
     (if am_lladdr e = a then (if am_lr e = 1 then 1 else 0) else map_lr_loop a es)"

subsection \<open>Properties\<close>

text \<open>The two flags agree and say which radio is selected.\<close>

definition radio_wf :: "'a dual_state_scheme \<Rightarrow> bool" where
  "radio_wf s \<longleftrightarrow> long_range_radio s = LongRangeTransmit s \<and> long_range_radio s \<in> {0, 1} \<and>
     radio_received s \<in> {LONG_RADIO, SHORT_RADIO}"

lemma switch_wf [wf_intros]: "radio_wf s \<Longrightarrow> radio_wf (dual_radio_switch r s)"
  by (auto simp add: radio_wf_def dual_radio_switch_def)

lemma change_wf [wf_intros]: "radio_wf s \<Longrightarrow> radio_wf (dual_radio_change s)"
  by (simp add: dual_radio_change_def wf_intros)

lemma received_wf [wf_intros]: "radio_wf s \<Longrightarrow> radio_wf (fst (dual_radio_received r s))"
  by (auto simp: radio_wf_def dual_radio_received_def)

lemma sending_switch:
  "r \<in> {LONG_RADIO, SHORT_RADIO} \<Longrightarrow> sending_in_LR (dual_radio_switch r s) = r"
  by (auto simp: sending_in_LR_def dual_radio_switch_def radio_defs)

lemma received_nonzero: "radio_received_is_longrange s \<noteq> 0"
  by (simp add: radio_received_is_longrange_def radio_defs)

lemma nbr_eq_switch [simp, frame_simps]: "nbr_eq s (dual_radio_switch r s)"
  by (simp add: dual_radio_switch_def nbr_eq_def nbr_same_def)

lemma map_rm_length [simp]: "length (fst (map_rm_loop a m)) = length m"
  by (induction m) (auto split: prod.splits)

lemma map_add_length [simp]: "length (fst (map_add_loop a r m)) = length m"
  by (induction m) (auto split: prod.splits)

lemma map_add_ret: "snd (map_add_loop a r m) = (if \<forall>e \<in> set m. am_isused e = 1 then 0 else 1)"
  by (induction m) (auto split: prod.splits)

text \<open>A fresh address, added while there is a free entry, is afterwards found with the radio it was
  received on; the other addresses in use keep their radio.\<close>

lemma map_add_lookup:
  "\<exists>e \<in> set m. am_isused e \<noteq> 1 \<Longrightarrow> \<forall>e \<in> set m. am_lladdr e \<noteq> a \<Longrightarrow>
   map_lr_loop a (fst (map_add_loop a r m)) = (if r = LONG_RADIO then 1 else 0)"
proof (induction m)
  case Nil
  then show ?case by simp
next
  case (Cons e m)
  then show ?case by (cases "am_isused e = 1") (auto simp: case_prod_beta)
qed

lemma map_add_other:
  "e \<in> set m \<Longrightarrow> am_isused e = 1 \<Longrightarrow> e \<in> set (fst (map_add_loop a r m))"
  by (induction m) (auto split: prod.splits)

text \<open>Removing an address does not make it unknown: the entry stays and the search, which does not
  look at \<open>isused\<close>, still answers with its old radio.\<close>

lemma map_lr_after_rm: "map_lr_loop a (fst (map_rm_loop b m)) = map_lr_loop a m"
  by (induction m) (auto split: prod.splits)

text \<open>C32. The selected radio is well defined and switching is exact: after \<open>dual_radio_switch\<close> to
  one of the two radios the node sends on that one, \<open>dual_radio_change\<close> toggles between the two, and
  both keep the flag of the stack and the flag of the simulated radio equal.\<close>

theorem radio_switch_exact:
  assumes "radio_wf s" and "r \<in> {LONG_RADIO, SHORT_RADIO}"
  shows "sending_in_LR (dual_radio_switch r s) = r \<and> radio_wf (dual_radio_switch r s) \<and>
         sending_in_LR (dual_radio_change s) \<noteq> sending_in_LR s \<and> radio_wf (dual_radio_change s) \<and>
         sending_in_LR (dual_radio_change (dual_radio_change s)) = sending_in_LR s"
proof -
  from assms(1) have "long_range_radio s = 0 \<or> long_range_radio s = 1" by (auto simp: radio_wf_def)
  then have "sending_in_LR (dual_radio_change s) \<noteq> sending_in_LR s \<and>
      sending_in_LR (dual_radio_change (dual_radio_change s)) = sending_in_LR s"
    by (auto simp: sending_in_LR_def dual_radio_change_def dual_radio_switch_def radio_defs)
  with assms show ?thesis by (simp add: sending_switch wf_intros)
qed

definition dual_demo :: dual_state where
  "dual_demo = nbr_state.extend nbr_demo
     \<lparr>long_range_radio = 0, LongRangeTransmit = 0, radio_received = SHORT_RADIO, simRadioTarget = 0,
      simRadioHWOn = True, simRadioHWOnLR = False, radio_dead = False, ds6_lr_addrmap = []\<rparr>"

theorem radio_switch_exact_witness: "sending_in_LR (dual_radio_switch LONG_RADIO dual_demo) = LONG_RADIO"
  using radio_switch_exact [of dual_demo LONG_RADIO]
  by (simp add: radio_wf_def dual_demo_def nbr_state.defs)

text \<open>Powering one interface does not touch the other.\<close>

lemma turn_on_other:
  "simRadioHWOnLR (dual_radio_turn_on SHORT_RADIO s) = simRadioHWOnLR s"
  "simRadioHWOn (dual_radio_turn_on LONG_RADIO s) = simRadioHWOn s"
  "simRadioHWOnLR (dual_radio_turn_off SHORT_RADIO s) = simRadioHWOnLR s"
  "simRadioHWOn (dual_radio_turn_off LONG_RADIO s) = simRadioHWOn s"
  by (simp_all add: dual_radio_turn_on_def dual_radio_turn_off_def sim_radio_on_def sim_radio_off_def
      radio_defs)

lemma turn_both:
  "\<not> radio_dead s \<Longrightarrow> simRadioHWOn (dual_radio_turn_on BOTH_RADIO s) \<and>
     simRadioHWOnLR (dual_radio_turn_on BOTH_RADIO s)"
  "\<not> simRadioHWOn (dual_radio_turn_off BOTH_RADIO s) \<and> \<not> simRadioHWOnLR (dual_radio_turn_off BOTH_RADIO s)"
  by (simp_all add: dual_radio_turn_on_def dual_radio_turn_off_def sim_radio_on_def sim_radio_off_def
      radio_defs)

text \<open>Forgetting a neighbour does not forget its radio: after \<open>lladdr_map_rm_lr\<close> the search that
  decides between the short- and the long-range radio answers exactly as before, because it ignores
  the \<open>isused\<close> flag the removal clears.\<close>

theorem addrmap_rm_keeps_radio:
  "map_lr_loop a (ds6_lr_addrmap (fst (lladdr_map_rm_lr b s))) = map_lr_loop a (ds6_lr_addrmap s)"
  using map_lr_after_rm by (simp add: lladdr_map_rm_lr_def split: prod.splits) (metis fst_conv)

end
