(* ===== verification/Ds6State.thy ===== *)
theory Ds6State
  imports DualRadio
begin

text \<open>
  The data of the IPv6 layer: the structures of \<open>uip-ds6.h\<close>, \<open>uip-ds6-nbr.h\<close> and \<open>uip-ds6-route.h\<close>,
  the second timers of \<open>core/sys/stimer.c\<close>, the packet queue of \<open>core/net/ip/uip-packetqueue.c\<close>, the
  address tests of \<open>uip.h\<close>, and the state record that holds the tables of both interfaces. Pointers
  into a table are indices. What the node does to the outside (messages sent, processes started,
  notifications of the application) is the trace \<open>io\<close>; the random numbers are a stream.
\<close>

unbundle bit_operations_syntax

subsection \<open>Second timers\<close>

record stimer =
  st_start :: u32
  st_interval :: u32

definition SCLOCK_GEQ :: "u32 \<Rightarrow> u32 \<Rightarrow> bool" where
  "SCLOCK_GEQ a b \<longleftrightarrow> a - b < drop_bit 1 (NOT 0)"

definition stimer_set :: "u32 \<Rightarrow> u32 \<Rightarrow> stimer" where
  "stimer_set now interval = \<lparr>st_start = now, st_interval = interval\<rparr>"

definition stimer_reset :: "stimer \<Rightarrow> stimer" where
  "stimer_reset t = t\<lparr>st_start := st_start t + st_interval t\<rparr>"

definition stimer_restart :: "u32 \<Rightarrow> stimer \<Rightarrow> stimer" where
  "stimer_restart now t = t\<lparr>st_start := now\<rparr>"

definition stimer_expired :: "u32 \<Rightarrow> stimer \<Rightarrow> bool" where
  "stimer_expired now t = SCLOCK_GEQ now (st_start t + st_interval t)"

definition stimer_remaining :: "u32 \<Rightarrow> stimer \<Rightarrow> u32" where
  "stimer_remaining now t = st_start t + st_interval t - now"

definition stimer_elapsed :: "u32 \<Rightarrow> stimer \<Rightarrow> u32" where
  "stimer_elapsed now t = now - st_start t"

lemma SCLOCK_GEQ_alt: "SCLOCK_GEQ a b \<longleftrightarrow> unat (a - b) < 2147483647"
  by (simp add: SCLOCK_GEQ_def word_less_nat_alt mask_eq_exp_minus_1)

text \<open>Up to half the range of the clock, a timer is expired exactly when its interval has passed,
  across the wrap-around of the clock.\<close>

lemma stimer_expired_exact:
  assumes "unat d < 2147483647" and "unat i < 2147483647"
  shows "stimer_expired (now + d) (stimer_set now i) \<longleftrightarrow> i \<le> d"
proof -
  have e: "stimer_expired (now + d) (stimer_set now i) \<longleftrightarrow> unat (d - i) < 2147483647"
    by (simp add: stimer_expired_def stimer_set_def SCLOCK_GEQ_alt)
  show ?thesis
  proof (cases "i \<le> d")
    case True
    then have "unat (d - i) \<le> unat d" by (simp add: unat_sub)
    with assms True e show ?thesis by simp
  next
    case False
    then have "unat d < unat i" by (simp add: word_less_nat_alt not_le)
    then have "unat (d - i) = 2 ^ 32 + unat d - unat i" by (simp add: unat_sub_if')
    with assms False e show ?thesis by simp
  qed
qed

lemma stimer_zero_expired: "stimer_expired now (stimer_set now 0)"
  by (simp add: stimer_expired_def stimer_set_def SCLOCK_GEQ_alt)

subsection \<open>Addresses\<close>

definition uip_ipaddr_prefixcmp :: "ipaddr \<Rightarrow> ipaddr \<Rightarrow> u8 \<Rightarrow> bool" where
  "uip_ipaddr_prefixcmp a b len \<longleftrightarrow> take (unat (drop_bit 3 len)) a = take (unat (drop_bit 3 len)) b"

definition uip_is_addr_linklocal :: "ipaddr \<Rightarrow> bool" where
  "uip_is_addr_linklocal a \<longleftrightarrow> a ! 0 = 0xfe \<and> a ! 1 = 0x80"

definition uip_is_addr_mcast :: "ipaddr \<Rightarrow> bool" where
  "uip_is_addr_mcast a \<longleftrightarrow> a ! 0 = 0xff"

definition uip_create_unspecified :: ipaddr where
  "uip_create_unspecified = replicate 16 0"

definition uip_create_solicited_node :: "ipaddr \<Rightarrow> ipaddr" where
  "uip_create_solicited_node a =
     [0xff, 0x02, 0, 0, 0, 0, 0, 0, 0, 0, 0, 0x01, 0xff, a ! 13, a ! 14, a ! 15]"

definition linklocal_allnodes_mcast :: ipaddr where
  "linklocal_allnodes_mcast = [0xff, 0x02] @ replicate 13 0 @ [0x01]"

definition linklocal_rplnodes_mcast :: ipaddr where
  "linklocal_rplnodes_mcast = [0xff, 0x02] @ replicate 13 0 @ [0x1a]"

definition uip_create_linklocal_prefix :: "ipaddr \<Rightarrow> ipaddr" where
  "uip_create_linklocal_prefix a = [0xfe, 0x80, 0, 0, 0, 0, 0, 0] @ drop 8 a"

subsection \<open>Structures\<close>

text \<open>\<open>uip_ds6_element\<close> is the common prefix of the table entries: the other entries extend it.\<close>

record ds6_element =
  isused :: bool
  el_ipaddr :: ipaddr

record uip_ds6_addr = ds6_element +
  ad_state :: u8
  ad_type :: u8
  ad_isinfinite :: bool
  ad_vlifetime :: stimer

record uip_ds6_prefix = ds6_element +
  px_length :: u8
  px_advertise :: u8
  px_vlifetime :: u32
  px_plifetime :: u32
  px_l_a_reserved :: u8

definition ADDR_TENTATIVE :: u8 where "ADDR_TENTATIVE = 0"
definition ADDR_PREFERRED :: u8 where "ADDR_PREFERRED = 1"
definition NBR_INCOMPLETE :: u8 where "NBR_INCOMPLETE = 0"
definition NBR_REACHABLE :: u8 where "NBR_REACHABLE = 1"

record uip_ds6_nbr =
  nb_ipaddr :: ipaddr
  nb_isrouter :: u8
  nb_state :: u8
  nb_link_metric :: u16
  nb_packet :: ptr

text \<open>A DAG is the slot of its instance: instance index and slot.\<close>

type_synonym dagptr = "nat \<times> nat"

record rpl_route_entry =
  re_lifetime :: u32
  re_dag :: "dagptr option"
  dao_seqno_out :: u8
  dao_seqno_in :: u8
  state_flags :: u8

definition RPL_ROUTE_ENTRY_NOPATH_RECEIVED :: u8 where "RPL_ROUTE_ENTRY_NOPATH_RECEIVED = 1"
definition RPL_ROUTE_ENTRY_DAO_PENDING :: u8 where "RPL_ROUTE_ENTRY_DAO_PENDING = 2"
definition RPL_ROUTE_ENTRY_DAO_NACK :: u8 where "RPL_ROUTE_ENTRY_DAO_NACK = 4"

record uip_ds6_route =
  neighbor_routes :: ptr
  rt_ipaddr :: ipaddr
  rt_state :: rpl_route_entry
  rt_length :: u8

text \<open>The item of the table \<open>nbr_routes\<close>: \<open>LIST_STRUCT(route_list)\<close> is the list and the pointer to it,
  null until \<open>LIST_STRUCT_INIT\<close>.\<close>

record neighbor_routes_item =
  rl_init :: bool
  route_list :: "nat list"

record uip_ds6_defrt =
  df_ipaddr :: ipaddr
  df_lifetime :: stimer
  df_isinfinite :: bool

datatype route_event = UIP_DS6_NOTIFICATION_DEFRT_ADD | UIP_DS6_NOTIFICATION_DEFRT_RM
  | UIP_DS6_NOTIFICATION_ROUTE_ADD | UIP_DS6_NOTIFICATION_ROUTE_RM

datatype io_event =
    RouteNotify nat route_event ipaddr "ipaddr option" int
  | Icmp6Send ipaddr u8 u8 "u8 list"
  | ProcessStart nat
  | MulticastFlood

subsection \<open>The tables\<close>

text \<open>The neighbour tables of the node, by the variable that points to them.\<close>

definition DS6_NEIGHBORS :: nat where "DS6_NEIGHBORS = 0"
definition NBR_ROUTES :: nat where "NBR_ROUTES = 1"
definition RPL_PARENTS :: nat where "RPL_PARENTS = 2"
definition RPL_CHILDREN :: nat where "RPL_CHILDREN = 3"

lemmas table_ids = DS6_NEIGHBORS_def NBR_ROUTES_def RPL_PARENTS_def RPL_CHILDREN_def

definition UIP_DS6_ROUTE_NB :: int where "UIP_DS6_ROUTE_NB = 70"

record ds6_state = dual_state +
  clock_seconds :: u32
  uip_ds6_prefix_list :: "uip_ds6_prefix list"
  addr_list :: "uip_ds6_addr list"
  maddr_list :: "ds6_element list"
  aaddr_list :: "ds6_element list"
  long_addr_list :: "uip_ds6_addr list"
  long_maddr_list :: "ds6_element list"
  long_aaddr_list :: "ds6_element list"
  ds6_neighbors :: "nat \<Rightarrow> uip_ds6_nbr"
  packets_memb :: memb
  pkt_timer :: "nat \<Rightarrow> bool"
  nbr_routes :: "nat \<Rightarrow> neighbor_routes_item"
  neighborroutememb :: memb
  nbrr_route :: "nat \<Rightarrow> nat"
  routelist :: "nat list"
  routememb :: memb
  routes :: "nat \<Rightarrow> uip_ds6_route"
  num_routes :: int
  defaultrouterlist :: "nat list"
  defaultroutermemb :: memb
  defrts :: "nat \<Rightarrow> uip_ds6_defrt"
  notificationlist :: "nat list"
  io :: "io_event list"

definition emit :: "io_event \<Rightarrow> 'a ds6_state_scheme \<Rightarrow> 'a ds6_state_scheme" where
  "emit e s = s\<lparr>io := io s @ [e]\<rparr>"

definition set_nbr :: "nat \<Rightarrow> uip_ds6_nbr \<Rightarrow> 'a ds6_state_scheme \<Rightarrow> 'a ds6_state_scheme" where
  "set_nbr i n s = s\<lparr>ds6_neighbors := (ds6_neighbors s)(i := n)\<rparr>"

definition set_route :: "nat \<Rightarrow> uip_ds6_route \<Rightarrow> 'a ds6_state_scheme \<Rightarrow> 'a ds6_state_scheme" where
  "set_route i r s = s\<lparr>routes := (routes s)(i := r)\<rparr>"

end
