(* ===== verification/Ds6Tables.thy ===== *)
theory Ds6Tables
  imports Ds6State
begin

text \<open>
  The prefix and address tables of \<open>core/net/ipv6/uip-ds6.c\<close>: the generic search
  \<open>uip_ds6_list_loop\<close>, the operations of the prefix list and of the unicast, multicast and anycast
  address lists of the short-range interface and their \<open>long\<close> copies for the second one, and the
  selection of a source address. Every list entry extends \<open>ds6_element\<close>, as in the C code, so that the
  one search serves all tables.
\<close>

unbundle bit_operations_syntax

subsection \<open>The generic search\<close>

datatype loop_result = FOUND | FREESPACE | NOSPACE

fun ds6_loop ::
  "('a ds6_element_scheme) list \<Rightarrow> ipaddr \<Rightarrow> u8 \<Rightarrow> nat \<Rightarrow> ptr \<Rightarrow> loop_result \<times> ptr" where
  "ds6_loop [] a len i out_element = (if out_element \<noteq> None then FREESPACE else NOSPACE, out_element)"
| "ds6_loop (e # es) a len i out_element =
     (if isused e
      then if uip_ipaddr_prefixcmp (el_ipaddr e) a len then (FOUND, Some i)
           else ds6_loop es a len (i + 1) out_element
      else ds6_loop es a len (i + 1) (Some i))"

definition uip_ds6_list_loop ::
  "('a ds6_element_scheme) list \<Rightarrow> ipaddr \<Rightarrow> u8 \<Rightarrow> loop_result \<times> ptr" where
  "uip_ds6_list_loop es a len = ds6_loop es a len 0 None"

text \<open>A lookup: the entry \<open>uip_ds6_list_loop\<close> leaves in the output when it answers \<open>FOUND\<close>; an
  insertion writes to it when the answer is \<open>FREESPACE\<close>.\<close>

definition ds6_found :: "('a ds6_element_scheme) list \<Rightarrow> ipaddr \<Rightarrow> u8 \<Rightarrow> ptr" where
  "ds6_found es a len = (case uip_ds6_list_loop es a len of (FOUND, p) \<Rightarrow> p | _ \<Rightarrow> None)"

definition ds6_free :: "('a ds6_element_scheme) list \<Rightarrow> ipaddr \<Rightarrow> u8 \<Rightarrow> ptr" where
  "ds6_free es a len = (case uip_ds6_list_loop es a len of (FREESPACE, p) \<Rightarrow> p | _ \<Rightarrow> None)"

subsection \<open>Prefixes\<close>

definition uip_ds6_prefix_add ::
  "ipaddr \<Rightarrow> u8 \<Rightarrow> u8 \<Rightarrow> u8 \<Rightarrow> u32 \<Rightarrow> u32 \<Rightarrow> 'a ds6_state_scheme \<Rightarrow> 'a ds6_state_scheme \<times> ptr" where
  "uip_ds6_prefix_add a len advertise flags vtime ptime s =
     (case ds6_free (uip_ds6_prefix_list s) a len of
        None \<Rightarrow> (s, None)
      | Some i \<Rightarrow>
          (s\<lparr>uip_ds6_prefix_list := (uip_ds6_prefix_list s)[i :=
               \<lparr>isused = True, el_ipaddr = a, px_length = len, px_advertise = advertise,
                px_vlifetime = vtime, px_plifetime = ptime, px_l_a_reserved = flags\<rparr>]\<rparr>, Some i))"

definition uip_ds6_prefix_rm :: "ptr \<Rightarrow> 'a ds6_state_scheme \<Rightarrow> 'a ds6_state_scheme" where
  "uip_ds6_prefix_rm p s = (case p of
     None \<Rightarrow> s
   | Some i \<Rightarrow> s\<lparr>uip_ds6_prefix_list :=
       (uip_ds6_prefix_list s)[i := (uip_ds6_prefix_list s ! i)\<lparr>isused := False\<rparr>]\<rparr>)"

definition uip_ds6_prefix_lookup :: "ipaddr \<Rightarrow> u8 \<Rightarrow> 'a ds6_state_scheme \<Rightarrow> ptr" where
  "uip_ds6_prefix_lookup a len s = ds6_found (uip_ds6_prefix_list s) a len"

definition uip_ds6_is_addr_onlink :: "ipaddr \<Rightarrow> 'a ds6_state_scheme \<Rightarrow> bool" where
  "uip_ds6_is_addr_onlink a s =
     (find (\<lambda>p. isused p \<and> uip_ipaddr_prefixcmp (el_ipaddr p) a (px_length p))
        (uip_ds6_prefix_list s) \<noteq> None)"

subsection \<open>Multicast and anycast addresses\<close>

definition claim_element :: "nat \<Rightarrow> ipaddr \<Rightarrow> ds6_element list \<Rightarrow> ds6_element list" where
  "claim_element i a es = es[i := \<lparr>isused = True, el_ipaddr = a\<rparr>]"

definition uip_ds6_maddr_add :: "ipaddr \<Rightarrow> 'a ds6_state_scheme \<Rightarrow> 'a ds6_state_scheme \<times> ptr" where
  "uip_ds6_maddr_add a s = (case ds6_free (maddr_list s) a 128 of
     None \<Rightarrow> (s, None)
   | Some i \<Rightarrow> (s\<lparr>maddr_list := claim_element i a (maddr_list s)\<rparr>, Some i))"

definition uip_ds6_long_maddr_add :: "ipaddr \<Rightarrow> 'a ds6_state_scheme \<Rightarrow> 'a ds6_state_scheme \<times> ptr" where
  "uip_ds6_long_maddr_add a s = (case ds6_free (long_maddr_list s) a 128 of
     None \<Rightarrow> (s, None)
   | Some i \<Rightarrow> (s\<lparr>long_maddr_list := claim_element i a (long_maddr_list s)\<rparr>, Some i))"

text \<open>\<open>uip_ds6_maddr_rm\<close> clears the flag behind a pointer; the callers pass entries of the
  short-range list.\<close>

definition uip_ds6_maddr_rm :: "ptr \<Rightarrow> 'a ds6_state_scheme \<Rightarrow> 'a ds6_state_scheme" where
  "uip_ds6_maddr_rm p s = (case p of
     None \<Rightarrow> s
   | Some i \<Rightarrow> s\<lparr>maddr_list := (maddr_list s)[i := (maddr_list s ! i)\<lparr>isused := False\<rparr>]\<rparr>)"

definition uip_ds6_maddr_lookup :: "ipaddr \<Rightarrow> 'a ds6_state_scheme \<Rightarrow> ptr" where
  "uip_ds6_maddr_lookup a s = ds6_found (maddr_list s) a 128"

definition uip_ds6_long_maddr_lookup :: "ipaddr \<Rightarrow> 'a ds6_state_scheme \<Rightarrow> ptr" where
  "uip_ds6_long_maddr_lookup a s = ds6_found (long_maddr_list s) a 128"

definition uip_ds6_aaddr_add :: "ipaddr \<Rightarrow> 'a ds6_state_scheme \<Rightarrow> 'a ds6_state_scheme \<times> ptr" where
  "uip_ds6_aaddr_add a s = (case ds6_free (aaddr_list s) a 128 of
     None \<Rightarrow> (s, None)
   | Some i \<Rightarrow> (s\<lparr>aaddr_list := claim_element i a (aaddr_list s)\<rparr>, Some i))"

definition uip_ds6_long_aaddr_add :: "ipaddr \<Rightarrow> 'a ds6_state_scheme \<Rightarrow> 'a ds6_state_scheme \<times> ptr" where
  "uip_ds6_long_aaddr_add a s = (case ds6_free (long_aaddr_list s) a 128 of
     None \<Rightarrow> (s, None)
   | Some i \<Rightarrow> (s\<lparr>long_aaddr_list := claim_element i a (long_aaddr_list s)\<rparr>, Some i))"

definition uip_ds6_aaddr_rm :: "ptr \<Rightarrow> 'a ds6_state_scheme \<Rightarrow> 'a ds6_state_scheme" where
  "uip_ds6_aaddr_rm p s = (case p of
     None \<Rightarrow> s
   | Some i \<Rightarrow> s\<lparr>aaddr_list := (aaddr_list s)[i := (aaddr_list s ! i)\<lparr>isused := False\<rparr>]\<rparr>)"

definition uip_ds6_aaddr_lookup :: "ipaddr \<Rightarrow> 'a ds6_state_scheme \<Rightarrow> ptr" where
  "uip_ds6_aaddr_lookup a s = ds6_found (aaddr_list s) a 128"

definition uip_ds6_long_aaddr_lookup :: "ipaddr \<Rightarrow> 'a ds6_state_scheme \<Rightarrow> ptr" where
  "uip_ds6_long_aaddr_lookup a s = ds6_found (long_aaddr_list s) a 128"

subsection \<open>Unicast addresses\<close>

text \<open>The entry both copies of \<open>addr_add\<close> write; a lifetime of 0 means infinite, and the timer is then
  left as it was. Without duplicate address detection the address is preferred at once.\<close>

definition new_addr :: "u32 \<Rightarrow> ipaddr \<Rightarrow> u32 \<Rightarrow> u8 \<Rightarrow> uip_ds6_addr \<Rightarrow> uip_ds6_addr" where
  "new_addr now a vlifetime ty old =
     \<lparr>isused = True, el_ipaddr = a, ad_state = ADDR_PREFERRED, ad_type = ty,
      ad_isinfinite = (vlifetime = 0),
      ad_vlifetime = (if vlifetime = 0 then ad_vlifetime old else stimer_set now vlifetime)\<rparr>"

definition uip_ds6_addr_add ::
  "ipaddr \<Rightarrow> u32 \<Rightarrow> u8 \<Rightarrow> 'a ds6_state_scheme \<Rightarrow> 'a ds6_state_scheme \<times> ptr" where
  "uip_ds6_addr_add a vlifetime ty s = (case ds6_free (addr_list s) a 128 of
     None \<Rightarrow> (s, None)
   | Some i \<Rightarrow>
       let s1 = s\<lparr>addr_list := (addr_list s)[i :=
                  new_addr (clock_seconds s) a vlifetime ty (addr_list s ! i)]\<rparr>
       in (fst (uip_ds6_maddr_add (uip_create_solicited_node a) s1), Some i))"

definition uip_ds6_long_addr_add ::
  "ipaddr \<Rightarrow> u32 \<Rightarrow> u8 \<Rightarrow> 'a ds6_state_scheme \<Rightarrow> 'a ds6_state_scheme \<times> ptr" where
  "uip_ds6_long_addr_add a vlifetime ty s = (case ds6_free (long_addr_list s) a 128 of
     None \<Rightarrow> (s, None)
   | Some i \<Rightarrow>
       let s1 = s\<lparr>long_addr_list := (long_addr_list s)[i :=
                  new_addr (clock_seconds s) a vlifetime ty (long_addr_list s ! i)]\<rparr>
       in (fst (uip_ds6_maddr_add (uip_create_solicited_node a) s1), Some i))"

text \<open>A pointer to a unicast address: an entry of one of the two lists.\<close>

datatype addr_ptr = ShortAddr nat | LongAddr nat

definition uip_ds6_addr_rm :: "addr_ptr option \<Rightarrow> 'a ds6_state_scheme \<Rightarrow> 'a ds6_state_scheme" where
  "uip_ds6_addr_rm p s = (case p of
     None \<Rightarrow> s
   | Some ap \<Rightarrow>
       let e = (case ap of ShortAddr i \<Rightarrow> addr_list s ! i | LongAddr i \<Rightarrow> long_addr_list s ! i);
           s1 = uip_ds6_maddr_rm (uip_ds6_maddr_lookup (uip_create_solicited_node (el_ipaddr e)) s) s
       in (case ap of
             ShortAddr i \<Rightarrow> s1\<lparr>addr_list := (addr_list s1)[i := e\<lparr>isused := False\<rparr>]\<rparr>
           | LongAddr i \<Rightarrow> s1\<lparr>long_addr_list := (long_addr_list s1)[i := e\<lparr>isused := False\<rparr>]\<rparr>))"

definition uip_ds6_addr_lookup :: "ipaddr \<Rightarrow> 'a ds6_state_scheme \<Rightarrow> ptr" where
  "uip_ds6_addr_lookup a s = ds6_found (addr_list s) a 128"

definition uip_ds6_long_addr_lookup :: "ipaddr \<Rightarrow> 'a ds6_state_scheme \<Rightarrow> ptr" where
  "uip_ds6_long_addr_lookup a s = ds6_found (long_addr_list s) a 128"

text \<open>\<open>get_link_local\<close> and \<open>get_global\<close>: the first address in use, in the given state (any state for
  \<open>-1\<close>, here \<open>None\<close>), that is (not) link-local.\<close>

fun addr_loop :: "(uip_ds6_addr \<Rightarrow> bool) \<Rightarrow> nat \<Rightarrow> uip_ds6_addr list \<Rightarrow> ptr" where
  "addr_loop P i [] = None"
| "addr_loop P i (e # es) = (if P e then Some i else addr_loop P (i + 1) es)"

definition addr_matches :: "u8 option \<Rightarrow> bool \<Rightarrow> uip_ds6_addr \<Rightarrow> bool" where
  "addr_matches state linklocal e \<longleftrightarrow> isused e \<and> (state = None \<or> state = Some (ad_state e)) \<and>
     uip_is_addr_linklocal (el_ipaddr e) = linklocal"

definition uip_ds6_get_link_local :: "u8 option \<Rightarrow> 'a ds6_state_scheme \<Rightarrow> ptr" where
  "uip_ds6_get_link_local state s = addr_loop (addr_matches state True) 0 (addr_list s)"

definition uip_ds6_long_get_link_local :: "u8 option \<Rightarrow> 'a ds6_state_scheme \<Rightarrow> ptr" where
  "uip_ds6_long_get_link_local state s = addr_loop (addr_matches state True) 0 (long_addr_list s)"

definition uip_ds6_get_global :: "u8 option \<Rightarrow> 'a ds6_state_scheme \<Rightarrow> ptr" where
  "uip_ds6_get_global state s = addr_loop (addr_matches state False) 0 (addr_list s)"

definition uip_ds6_long_get_global :: "u8 option \<Rightarrow> 'a ds6_state_scheme \<Rightarrow> ptr" where
  "uip_ds6_long_get_global state s = addr_loop (addr_matches state False) 0 (long_addr_list s)"

subsection \<open>Source address selection\<close>

text \<open>The inner loop of \<open>get_match_length\<close> over the bits of the first differing byte, \<open>n\<close> iterations
  left, and the loop over the bytes.\<close>

fun xor_loop :: "nat \<Rightarrow> u8 \<Rightarrow> u8 \<Rightarrow> u8" where
  "xor_loop 0 x_or len = len"
| "xor_loop (Suc n) x_or len =
     (if x_or AND 0x80 = 0 then xor_loop n (push_bit 1 x_or) (len + 1) else len)"

fun match_loop :: "ipaddr \<Rightarrow> ipaddr \<Rightarrow> u8 \<Rightarrow> u8" where
  "match_loop (x # xs) (y # ys) len =
     (if x = y then match_loop xs ys (len + 8) else xor_loop 8 (x XOR y) len)"
| "match_loop _ _ len = len"

definition get_match_length :: "ipaddr \<Rightarrow> ipaddr \<Rightarrow> u8" where
  "get_match_length src dst = match_loop src dst 0"

text \<open>The loop over the addresses: the longest match so far, the last one among equals.\<close>

fun select_loop :: "ipaddr \<Rightarrow> uip_ds6_addr list \<Rightarrow> u8 \<Rightarrow> ipaddr option \<Rightarrow> ipaddr option" where
  "select_loop dst [] best matchaddr = matchaddr"
| "select_loop dst (e # es) best matchaddr =
     (if isused e \<and> ad_state e = ADDR_PREFERRED \<and> \<not> uip_is_addr_linklocal (el_ipaddr e)
      then let n = get_match_length dst (el_ipaddr e)
           in if n \<ge> best then select_loop dst es n (Some (el_ipaddr e))
              else select_loop dst es best matchaddr
      else select_loop dst es best matchaddr)"

definition uip_ds6_select_src :: "ipaddr \<Rightarrow> 'a ds6_state_scheme \<Rightarrow> ipaddr" where
  "uip_ds6_select_src dst s =
     (let (al, ll) = (if sending_in_LR s = LONG_RADIO
                      then (long_addr_list s, uip_ds6_long_get_link_local (Some ADDR_PREFERRED) s)
                      else (addr_list s, uip_ds6_get_link_local (Some ADDR_PREFERRED) s));
          matchaddr = (if \<not> uip_is_addr_linklocal dst \<and> \<not> uip_is_addr_mcast dst
                       then select_loop dst al 0 None
                       else map_option (\<lambda>i. el_ipaddr (al ! i)) ll)
      in case matchaddr of None \<Rightarrow> uip_create_unspecified | Some a \<Rightarrow> a)"

definition uip_ds6_set_addr_iid :: "ipaddr \<Rightarrow> linkaddr \<Rightarrow> ipaddr" where
  "uip_ds6_set_addr_iid a lladdr =
     (let b = take 8 a @ take 8 lladdr in b[8 := b ! 8 XOR 0x02])"


subsection \<open>What the search finds\<close>

definition entry_matches :: "ipaddr \<Rightarrow> u8 \<Rightarrow> 'a ds6_element_scheme \<Rightarrow> bool" where
  "entry_matches a len e \<longleftrightarrow> isused e \<and> uip_ipaddr_prefixcmp (el_ipaddr e) a len"

lemma ds6_loop_FOUND:
  "ds6_loop es a len i out = (FOUND, p) \<longleftrightarrow>
   (\<exists>k < length es. p = Some (i + k) \<and> entry_matches a len (es ! k) \<and>
      (\<forall>j < k. \<not> entry_matches a len (es ! j)))"
proof (induction es arbitrary: i out)
  case Nil
  then show ?case by simp
next
  case (Cons e es)
  show ?case
  proof (cases "entry_matches a len e")
    case True
    then have "ds6_loop (e # es) a len i out = (FOUND, Some i)" by (simp add: entry_matches_def)
    moreover have "k = 0" if "\<forall>j < k. \<not> entry_matches a len ((e # es) ! j)" for k
      using that True by (cases k) auto
    ultimately show ?thesis using True by force
  next
    case False
    then have "ds6_loop (e # es) a len i out = ds6_loop es a len (i + 1) (if isused e then out else Some i)"
      by (auto simp: entry_matches_def)
    with Cons.IH [of "i + 1" "if isused e then out else Some i"] False show ?thesis
      by (simp add: Ex_less_Suc2 All_less_Suc2 del: ds6_loop.simps)
  qed
qed

lemma ds6_loop_miss:
  assumes "\<forall>e \<in> set es. \<not> entry_matches a len e"
  shows "ds6_loop es a len i out =
     (let free = filter (\<lambda>k. \<not> isused (es ! k)) [0..<length es]
      in if free = [] then (if out = None then NOSPACE else FREESPACE, out)
         else (FREESPACE, Some (i + last free)))"
  using assms
proof (induction es arbitrary: i out)
  case Nil
  then show ?case by simp
next
  case (Cons e es)
  let ?f = "filter (\<lambda>k. \<not> isused (es ! k)) [0..<length es]"
  have step: "ds6_loop (e # es) a len i out = ds6_loop es a len (i + 1) (if isused e then out else Some i)"
    using Cons.prems by (auto simp: entry_matches_def)
  have f: "filter (\<lambda>k. \<not> isused ((e # es) ! k)) [0..<length (e # es)] =
      (if isused e then [] else [0]) @ map Suc ?f"
    by (simp add: upt_conv_Cons map_Suc_upt [symmetric] filter_map comp_def del: upt_Suc)
  show ?case
    unfolding step f using Cons.IH Cons.prems by (auto simp: Let_def last_map)
qed

lemma found_Some:
  "ds6_found es a len = Some k \<longleftrightarrow>
     k < length es \<and> entry_matches a len (es ! k) \<and> (\<forall>j < k. \<not> entry_matches a len (es ! j))"
proof -
  have "ds6_found es a len = Some k \<longleftrightarrow> ds6_loop es a len 0 None = (FOUND, Some k)"
    using ds6_loop_FOUND [of es a len 0 None None]
    by (auto simp: ds6_found_def uip_ds6_list_loop_def split: prod.splits loop_result.splits)
  then show ?thesis by (auto simp: ds6_loop_FOUND)
qed

lemma found_None: "ds6_found es a len = None \<longleftrightarrow> (\<forall>e \<in> set es. \<not> entry_matches a len e)"
proof
  assume n: "ds6_found es a len = None"
  show "\<forall>e \<in> set es. \<not> entry_matches a len e"
  proof (rule ccontr)
    assume "\<not> (\<forall>e \<in> set es. \<not> entry_matches a len e)"
    then obtain k where k: "k < length es" "entry_matches a len (es ! k)" by (metis in_set_conv_nth)
    define m where "m = (LEAST k. k < length es \<and> entry_matches a len (es ! k))"
    have "m < length es \<and> entry_matches a len (es ! m)" unfolding m_def by (rule LeastI [of _ k]) (use k in simp)
    moreover have "\<not> entry_matches a len (es ! j)" if "j < m" for j
      using not_less_Least [of j "\<lambda>k. k < length es \<and> entry_matches a len (es ! k)"] that calculation
      unfolding m_def by auto
    ultimately show False using n found_Some by (metis option.distinct(1))
  qed
next
  assume "\<forall>e \<in> set es. \<not> entry_matches a len e"
  then show "ds6_found es a len = None"
    by (metis found_Some nth_mem not_None_eq)
qed

text \<open>An insertion is possible exactly when no entry matches and some entry is free; it takes the last
  free one.\<close>

lemma free_eq:
  "ds6_free es a len =
     (if \<forall>e \<in> set es. \<not> entry_matches a len e
      then last_of (filter (\<lambda>k. \<not> isused (es ! k)) [0..<length es]) else None)"
proof (cases "\<forall>e \<in> set es. \<not> entry_matches a len e")
  case True
  then show ?thesis
    by (auto simp: ds6_free_def uip_ds6_list_loop_def ds6_loop_miss [OF True] Let_def last_of_def)
next
  case False
  then obtain k where "ds6_found es a len = Some k" using found_None by fastforce
  then have "fst (ds6_loop es a len 0 None) = FOUND"
    by (auto simp: ds6_found_def uip_ds6_list_loop_def split: prod.splits loop_result.splits)
  with False show ?thesis
    by (auto simp: ds6_free_def uip_ds6_list_loop_def split: prod.splits loop_result.splits)
qed

lemma free_Some:
  assumes "ds6_free es a len = Some k"
  shows "k < length es" and "\<not> isused (es ! k)" and "\<forall>e \<in> set es. \<not> entry_matches a len e"
proof -
  let ?f = "filter (\<lambda>k. \<not> isused (es ! k)) [0..<length es]"
  from assms have n: "\<forall>e \<in> set es. \<not> entry_matches a len e" and l: "last_of ?f = Some k"
    by (auto simp: free_eq split: if_splits)
  from l have "k \<in> set ?f" by (metis last_in_set last_of_def option.discI option.inject)
  with n show "k < length es" and "\<not> isused (es ! k)" and "\<forall>e \<in> set es. \<not> entry_matches a len e" by auto
qed

lemma free_None:
  "ds6_free es a len = None \<longleftrightarrow> (\<exists>e \<in> set es. entry_matches a len e) \<or> (\<forall>e \<in> set es. isused e)"
  by (auto simp: free_eq last_of_def filter_empty_conv in_set_conv_nth split: if_splits) (metis nth_mem)

lemma prefixcmp_refl [simp]: "uip_ipaddr_prefixcmp a a len"
  by (simp add: uip_ipaddr_prefixcmp_def)

lemma prefixcmp_128: "length a = 16 \<Longrightarrow> length b = 16 \<Longrightarrow> uip_ipaddr_prefixcmp a b 128 \<longleftrightarrow> a = b"
proof -
  have "unat (drop_bit 3 (128 :: u8)) = 16" by simp
  then show "length a = 16 \<Longrightarrow> length b = 16 \<Longrightarrow> ?thesis" by (simp add: uip_ipaddr_prefixcmp_def)
qed

text \<open>After writing a matching entry over a free one in a table without a match, the search finds it.\<close>

lemma found_after_claim:
  assumes "ds6_free es a len = Some k" and "entry_matches a len e"
  shows "ds6_found (es[k := e]) a len = Some k"
  using free_Some [OF assms(1)] assms(2) by (auto simp: found_Some nth_list_update)

lemma found_other_claim:
  assumes "ds6_free es a len = Some k" and "ds6_found es b len' = Some j" and "\<not> entry_matches b len' e"
  shows "ds6_found (es[k := e]) b len' = Some j"
  using assms free_Some(1,2) [OF assms(1)] unfolding found_Some
  by (auto simp: nth_list_update entry_matches_def)


subsection \<open>The match length is the length of the common bit prefix\<close>

definition byte_bits :: "u8 \<Rightarrow> bool list" where
  "byte_bits b = map (\<lambda>k. bit b (7 - k)) [0..<8]"

definition addr_bits :: "ipaddr \<Rightarrow> bool list" where
  "addr_bits a = concat (map byte_bits a)"

definition common_prefix :: "bool list \<Rightarrow> bool list \<Rightarrow> nat" where
  "common_prefix xs ys = length (takeWhile (\<lambda>(x, y). x = y) (zip xs ys))"

lemma length_byte_bits [simp]: "length (byte_bits b) = 8"
  by (simp add: byte_bits_def)

lemma common_prefix_same: "common_prefix (xs @ as) (xs @ bs) = length xs + common_prefix as bs"
  by (induction xs) (auto simp: common_prefix_def)

lemma common_prefix_le: "common_prefix xs ys \<le> length xs"
  unfolding common_prefix_def by (rule order_trans [OF length_takeWhile_le]) simp

lemma top_bit_and: "(x :: u8) AND 0x80 = 0 \<longleftrightarrow> \<not> bit x 7"
proof -
  have "(0x80 :: u8) = push_bit 7 1" by simp
  then show ?thesis by (simp only:) (simp add: bit_iff_and_push_bit_not_eq_0)
qed

lemma xor_loop_eq:
  "n \<le> 8 \<Longrightarrow> xor_loop n x len = len + of_nat (length (takeWhile (\<lambda>k. \<not> bit x (7 - k)) [0..<n]))"
proof (induction n arbitrary: x len)
  case 0
  then show ?case by simp
next
  case (Suc n)
  have shift: "takeWhile (\<lambda>k. \<not> bit (push_bit 1 x) (7 - k)) [0..<n] = takeWhile (\<lambda>k. \<not> bit x (6 - k)) [0..<n]"
    using Suc.prems by (intro takeWhile_cong) (auto simp: bit_push_bit_iff simp del: push_bit_Suc One_nat_def)
  have up: "[0..<Suc n] = 0 # map Suc [0..<n]" by (simp add: upt_conv_Cons map_Suc_upt del: upt_Suc)
  show ?case
  proof (cases "bit x 7")
    case True
    then show ?thesis unfolding up by (simp add: top_bit_and)
  next
    case False
    have "xor_loop (Suc n) x len = xor_loop n (push_bit 1 x) (len + 1)"
      using False by (simp add: top_bit_and)
    also have "\<dots> = len + 1 + of_nat (length (takeWhile (\<lambda>k. \<not> bit x (6 - k)) [0..<n]))"
      using Suc.IH [of "push_bit 1 x" "len + 1"] Suc.prems shift by simp
    also have "\<dots> = len + of_nat (length (takeWhile (\<lambda>k. \<not> bit x (7 - k)) [0..<Suc n]))"
      unfolding up using False by (simp add: takeWhile_map comp_def)
    finally show ?thesis .
  qed
qed

lemma common_prefix_byte:
  assumes "x \<noteq> y"
  shows "common_prefix (byte_bits x @ as) (byte_bits y @ bs) =
         length (takeWhile (\<lambda>k. \<not> bit (x XOR y) (7 - k)) [0..<8])"
proof -
  let ?P = "\<lambda>(a, b). a = (b :: bool)" and ?z = "zip (byte_bits x) (byte_bits y)"
  have z: "?z = map (\<lambda>k. (bit x (7 - k), bit y (7 - k))) [0..<8]"
    by (simp add: byte_bits_def zip_map_map zip_same_conv_map)
  have "\<exists>j < 8. bit x j \<noteq> bit y j"
  proof (rule ccontr)
    assume "\<not> ?thesis"
    then have "x = y" by (intro bit_word_eqI) auto
    with assms show False by simp
  qed
  then obtain j where j: "j < 8" "bit x j \<noteq> bit y j" by blast
  have "\<exists>p \<in> set ?z. \<not> ?P p"
    unfolding z using j by (intro bexI [of _ "(bit x j, bit y j)"]) (auto intro: image_eqI [of _ _ "7 - j"])
  then have "takeWhile ?P (?z @ zip as bs) = takeWhile ?P ?z" by (auto intro: takeWhile_append1)
  then show ?thesis
    by (simp add: common_prefix_def z takeWhile_map comp_def bit_xor_iff)
qed

lemma match_loop_eq:
  "length xs = length ys \<Longrightarrow> unat len + 8 * length xs < 256 \<Longrightarrow>
   unat (match_loop xs ys len) = unat len + common_prefix (addr_bits xs) (addr_bits ys)"
proof (induction xs ys len rule: match_loop.induct)
  case (1 x xs y ys len)
  show ?case
  proof (cases "x = y")
    case True
    have "unat (len + 8) = unat len + 8" using "1.prems" by (simp add: unat_word_ariths)
    with 1 True show ?thesis by (simp add: addr_bits_def common_prefix_same)
  next
    case False
    let ?n = "length (takeWhile (\<lambda>k. \<not> bit (x XOR y) (7 - k)) [0..<8])"
    have n: "?n \<le> 8" by (rule order_trans [OF length_takeWhile_le]) simp
    have "unat (len + of_nat ?n) = unat len + ?n"
      using "1.prems" n by (simp add: unat_word_ariths unat_of_nat)
    with False show ?thesis by (simp add: xor_loop_eq addr_bits_def common_prefix_byte)
  qed
qed (auto simp: addr_bits_def common_prefix_def)


subsection \<open>The contract of an address table\<close>

text \<open>The multicast and anycast lists of both interfaces are four copies of one table: \<open>tab\<close> reads
  it, the insertion claims the free entry of the search, the lookup is the search.\<close>

locale element_table =
  fixes tab :: "'s \<Rightarrow> ds6_element list"
    and ins :: "ipaddr \<Rightarrow> 's \<Rightarrow> 's \<times> ptr"
    and look :: "ipaddr \<Rightarrow> 's \<Rightarrow> ptr"
  assumes ins_free: "ds6_free (tab s) a 128 = Some i \<Longrightarrow>
        snd (ins a s) = Some i \<and> tab (fst (ins a s)) = claim_element i a (tab s)"
    and ins_full: "ds6_free (tab s) a 128 = None \<Longrightarrow> ins a s = (s, None)"
    and look_found: "look a s = ds6_found (tab s) a 128"
begin

lemma insert_lookup:
  assumes "snd (ins a s) = Some i"
  shows "look a (fst (ins a s)) = Some i"
proof -
  from assms ins_full have "ds6_free (tab s) a 128 \<noteq> None" by force
  then obtain j where j: "ds6_free (tab s) a 128 = Some j" by blast
  from ins_free [OF j] assms have "j = i" by simp
  moreover have "entry_matches a 128 \<lparr>isused = True, el_ipaddr = a\<rparr>" by (simp add: entry_matches_def)
  ultimately show ?thesis using ins_free [OF j] found_after_claim [OF j]
    by (simp add: look_found claim_element_def)
qed

text \<open>The insertion is refused when the address is there already or nothing is free, and then nothing
  changes; an address that was found before is found at the same place after it.\<close>

lemma insert_refused:
  "snd (ins a s) = None \<longleftrightarrow> look a s \<noteq> None \<or> (\<forall>e \<in> set (tab s). isused e)"
proof (cases "ds6_free (tab s) a 128")
  case None
  with ins_full [OF None] free_None [of "tab s" a 128] found_None [of "tab s" a 128] look_found [of a s]
  show ?thesis by auto
next
  case (Some i)
  with ins_free [OF Some] free_None [of "tab s" a 128] found_None [of "tab s" a 128] look_found [of a s]
  show ?thesis by auto
qed

lemma insert_keeps:
  assumes "look b s = Some j" and "length a = 16" and "length b = 16"
  shows "look b (fst (ins a s)) = Some j"
proof (cases "ds6_free (tab s) a 128")
  case None
  with ins_full [OF None] assms(1) show ?thesis by simp
next
  case (Some i)
  from assms(1) have b: "ds6_found (tab s) b 128 = Some j" by (simp add: look_found)
  have "a \<noteq> b"
    using free_Some(3) [OF Some] b by (metis found_None option.distinct(1))
  then have "\<not> entry_matches b 128 \<lparr>isused = True, el_ipaddr = a\<rparr>"
    using assms(2,3) by (simp add: entry_matches_def prefixcmp_128)
  with ins_free [OF Some] found_other_claim [OF Some b] show ?thesis
    by (simp add: look_found claim_element_def)
qed

end

interpretation maddr: element_table maddr_list uip_ds6_maddr_add uip_ds6_maddr_lookup
  by unfold_locales (simp_all add: uip_ds6_maddr_add_def uip_ds6_maddr_lookup_def)

interpretation long_maddr: element_table long_maddr_list uip_ds6_long_maddr_add uip_ds6_long_maddr_lookup
  by unfold_locales (simp_all add: uip_ds6_long_maddr_add_def uip_ds6_long_maddr_lookup_def)

interpretation aaddr: element_table aaddr_list uip_ds6_aaddr_add uip_ds6_aaddr_lookup
  by unfold_locales (simp_all add: uip_ds6_aaddr_add_def uip_ds6_aaddr_lookup_def)

interpretation long_aaddr: element_table long_aaddr_list uip_ds6_long_aaddr_add uip_ds6_long_aaddr_lookup
  by unfold_locales (simp_all add: uip_ds6_long_aaddr_add_def uip_ds6_long_aaddr_lookup_def)

subsection \<open>Unicast addresses\<close>

lemma maddr_add_frame [frame_simps, simp]:
  "addr_list (fst (uip_ds6_maddr_add a s)) = addr_list s"
  "long_addr_list (fst (uip_ds6_maddr_add a s)) = long_addr_list s"
  "long_maddr_list (fst (uip_ds6_maddr_add a s)) = long_maddr_list s"
  by (simp_all add: uip_ds6_maddr_add_def split: option.splits)

lemma maddr_add_refused: "snd (uip_ds6_maddr_add a s) = None \<Longrightarrow> fst (uip_ds6_maddr_add a s) = s"
  by (cases "ds6_free (maddr_list s) a 128") (simp_all add: uip_ds6_maddr_add_def)

lemma addr_add_lookup:
  assumes "uip_ds6_addr_add a v ty s = (s', Some i)"
  shows "uip_ds6_addr_lookup a s' = Some i"
proof -
  from assms have f: "ds6_free (addr_list s) a 128 = Some i"
    by (auto simp: uip_ds6_addr_add_def Let_def split: option.splits)
  let ?e = "new_addr (clock_seconds s) a v ty (addr_list s ! i)"
  have "addr_list s' = (addr_list s)[i := ?e]"
    using assms f by (auto simp: uip_ds6_addr_add_def Let_def frame_simps)
  moreover have "entry_matches a 128 ?e" by (simp add: entry_matches_def new_addr_def)
  ultimately show ?thesis using found_after_claim [OF f] by (simp add: uip_ds6_addr_lookup_def)
qed

lemma long_addr_add_lookup:
  assumes "uip_ds6_long_addr_add a v ty s = (s', Some i)"
  shows "uip_ds6_long_addr_lookup a s' = Some i"
proof -
  from assms have f: "ds6_free (long_addr_list s) a 128 = Some i"
    by (auto simp: uip_ds6_long_addr_add_def Let_def split: option.splits)
  let ?e = "new_addr (clock_seconds s) a v ty (long_addr_list s ! i)"
  have "long_addr_list s' = (long_addr_list s)[i := ?e]"
    using assms f by (auto simp: uip_ds6_long_addr_add_def Let_def frame_simps)
  moreover have "entry_matches a 128 ?e" by (simp add: entry_matches_def new_addr_def)
  ultimately show ?thesis using found_after_claim [OF f] by (simp add: uip_ds6_long_addr_lookup_def)
qed

lemma addr_loop_eq: "addr_loop P i es = map_option ((+) i) (first_of (filter (\<lambda>k. P (es ! k)) [0..<length es]))"
proof (induction es arbitrary: i)
  case Nil
  then show ?case by simp
next
  case (Cons e es)
  have "filter (\<lambda>k. P ((e # es) ! k)) [0..<length (e # es)] =
      (if P e then [0] else []) @ map Suc (filter (\<lambda>k. P (es ! k)) [0..<length es])"
    by (simp add: upt_conv_Cons map_Suc_upt [symmetric] filter_map comp_def del: upt_Suc)
  with Cons show ?case
    by (cases "filter (\<lambda>k. P (es ! k)) [0..<length es]") auto
qed

text \<open>The selected source: the invariant of the loop over the addresses.\<close>

lemma select_loop_best:
  assumes "select_loop dst es best m = Some a"
  shows "(m = Some a \<and> (\<forall>e \<in> set es. addr_matches (Some ADDR_PREFERRED) False e \<longrightarrow>
             get_match_length dst (el_ipaddr e) < best)) \<or>
         (\<exists>e \<in> set es. addr_matches (Some ADDR_PREFERRED) False e \<and> el_ipaddr e = a \<and>
             best \<le> get_match_length dst a \<and>
             (\<forall>e' \<in> set es. addr_matches (Some ADDR_PREFERRED) False e' \<longrightarrow>
                get_match_length dst (el_ipaddr e') \<le> get_match_length dst a))"
  using assms
proof (induction dst es best m rule: select_loop.induct)
  case (1 dst best m)
  then show ?case by simp
next
  case (2 dst e es best m)
  let ?c = "isused e \<and> ad_state e = ADDR_PREFERRED \<and> \<not> uip_is_addr_linklocal (el_ipaddr e)"
  let ?n = "get_match_length dst (el_ipaddr e)"
  have c: "addr_matches (Some ADDR_PREFERRED) False e \<longleftrightarrow> ?c" by (auto simp: addr_matches_def)
  consider "?c" "best \<le> ?n" | "?c" "\<not> best \<le> ?n" | "\<not> ?c" by blast
  then show ?case
  proof cases
    case 1
    with 2(1) [OF 1(1) refl 1(2)] 2(4) c show ?thesis by (auto simp: Let_def)
  next
    case 2
    with "2.IH"(2) [OF 2(1) refl 2(2)] "2.prems" c show ?thesis by (auto simp: Let_def)
  next
    case 3
    with "2.IH"(3) [OF 3] "2.prems" c show ?thesis by (simp only: select_loop.simps) auto
  qed
qed


lemma select_loop_total:
  "e \<in> set es \<Longrightarrow> addr_matches (Some ADDR_PREFERRED) False e \<Longrightarrow> select_loop dst es 0 m \<noteq> None"
proof -
  have keep: "select_loop dst es best (Some a) \<noteq> None" for es best a
    by (induction es arbitrary: best a) (auto simp: Let_def)
  assume "e \<in> set es" and e: "addr_matches (Some ADDR_PREFERRED) False e"
  then show ?thesis
  proof (induction es)
    case Nil
    then show ?case by simp
  next
    case (Cons x es)
    show ?case
    proof (cases "addr_matches (Some ADDR_PREFERRED) False x")
      case True
      with keep show ?thesis by (simp add: addr_matches_def Let_def del: not_None_eq)
    next
      case False
      with Cons have "select_loop dst es 0 m \<noteq> None" by auto
      with False show ?thesis by (auto simp: addr_matches_def)
    qed
  qed
qed

subsection \<open>Properties\<close>

definition used_el :: "ipaddr \<Rightarrow> ds6_element" where
  "used_el a = \<lparr>isused = True, el_ipaddr = a\<rparr>"

definition free_el :: ds6_element where
  "free_el = \<lparr>isused = False, el_ipaddr = replicate 16 0\<rparr>"

definition used_addr :: "ipaddr \<Rightarrow> uip_ds6_addr" where
  "used_addr a = \<lparr>isused = True, el_ipaddr = a, ad_state = ADDR_PREFERRED, ad_type = 1,
     ad_isinfinite = True, ad_vlifetime = \<lparr>st_start = 0, st_interval = 0\<rparr>\<rparr>"

definition zero_nbr :: uip_ds6_nbr where
  "zero_nbr = \<lparr>nb_ipaddr = replicate 16 0, nb_isrouter = 0, nb_state = 0, nb_link_metric = 0, nb_packet = None\<rparr>"

definition zero_route :: uip_ds6_route where
  "zero_route = \<lparr>neighbor_routes = None, rt_ipaddr = replicate 16 0,
     rt_state = \<lparr>re_lifetime = 0, re_dag = None, dao_seqno_out = 0, dao_seqno_in = 0, state_flags = 0\<rparr>,
     rt_length = 0\<rparr>"

definition zero_defrt :: uip_ds6_defrt where
  "zero_defrt = \<lparr>df_ipaddr = replicate 16 0, df_lifetime = \<lparr>st_start = 0, st_interval = 0\<rparr>, df_isinfinite = False\<rparr>"

definition fresh_memb :: "nat \<Rightarrow> memb" where
  "fresh_memb n = \<lparr>msize = 1, mnum = n, mcount = replicate n 0, mbase = 0\<rparr>"

text \<open>The IPv6 fields of a node with the given addresses and multicast groups and nothing else.\<close>

definition ds6_blank :: "uip_ds6_addr list \<Rightarrow> ds6_element list \<Rightarrow> ds6_state" where
  "ds6_blank al ml = dual_state.extend dual_demo (ds6_state.fields 0 [] al ml [] [] (replicate 5 free_el) []
     (\<lambda>_. zero_nbr) (fresh_memb 2) (\<lambda>_. False)
     (\<lambda>_. \<lparr>rl_init = False, route_list = []\<rparr>) (fresh_memb 70) (\<lambda>_. 0) [] (fresh_memb 70)
     (\<lambda>_. zero_route) 0 [] (fresh_memb 2) (\<lambda>_. zero_defrt) [] [])"

lemma ds6_blank_sel [simp]:
  "maddr_list (ds6_blank al ml) = ml" "addr_list (ds6_blank al ml) = al"
  "long_range_radio (ds6_blank al ml) = 0"
  by (simp_all add: ds6_blank_def ds6_state.defs dual_state.defs dual_demo_def nbr_state.defs)

text \<open>C33. \<open>get_match_length\<close> computes the number of leading bits two addresses have in common: it
  equals the length of the common prefix of their bit strings, and its 8-bit counter never
  overflows.\<close>

theorem match_length_common_prefix:
  assumes "length a = 16" and "length b = 16"
  shows "unat (get_match_length a b) = common_prefix (addr_bits a) (addr_bits b) \<and>
         get_match_length a b \<le> 128"
proof -
  have e: "unat (get_match_length a b) = common_prefix (addr_bits a) (addr_bits b)"
    using match_loop_eq [of a b 0] assms by (simp add: get_match_length_def)
  have "length (addr_bits a) = 128"
    using assms by (simp add: addr_bits_def length_concat comp_def sum_list_triv)
  then have "common_prefix (addr_bits a) (addr_bits b) \<le> 128" using common_prefix_le by metis
  with e show ?thesis by (simp add: word_le_nat_alt)
qed

theorem match_length_common_prefix_witness:
  "unat (get_match_length (replicate 16 0) (replicate 15 0 @ [1])) = 127"
proof -
  have "unat (get_match_length (replicate 16 0) (replicate 15 0 @ [1])) =
      common_prefix (addr_bits (replicate 16 0)) (addr_bits (replicate 15 0 @ [1]))"
    using match_length_common_prefix [of "replicate 16 0" "replicate 15 0 @ [1]"] by simp
  also have "\<dots> = 127"
    by (simp add: common_prefix_def addr_bits_def byte_bits_def upt_rec bit_1_iff numeral_eq_Suc)
  finally show ?thesis .
qed

text \<open>C34. For a destination that is neither link-local nor multicast, the source address is taken from
  the interface of the selected radio: a preferred, non-link-local address in use whose common
  prefix with the destination is longest, or the unspecified address when there is none.\<close>

theorem select_src_longest:
  assumes "\<not> uip_is_addr_linklocal dst" and "\<not> uip_is_addr_mcast dst"
    and "al = (if sending_in_LR s = LONG_RADIO then long_addr_list s else addr_list s)"
    and "e \<in> set al" and "addr_matches (Some ADDR_PREFERRED) False e"
  shows "\<exists>e' \<in> set al. addr_matches (Some ADDR_PREFERRED) False e' \<and> uip_ds6_select_src dst s = el_ipaddr e' \<and>
           get_match_length dst (el_ipaddr e) \<le> get_match_length dst (el_ipaddr e')"
proof -
  have src: "uip_ds6_select_src dst s = (case select_loop dst al 0 None of None \<Rightarrow> uip_create_unspecified | Some a \<Rightarrow> a)"
    using assms(1-3) by (simp add: uip_ds6_select_src_def)
  have "select_loop dst al 0 None \<noteq> None"
    using assms(4,5) select_loop_total by blast
  then obtain a where a: "select_loop dst al 0 None = Some a" by blast
  from select_loop_best [OF a] obtain e' where "e' \<in> set al" "addr_matches (Some ADDR_PREFERRED) False e'"
      "el_ipaddr e' = a" "get_match_length dst (el_ipaddr e) \<le> get_match_length dst a"
    using assms(4,5) by auto
  with a src show ?thesis by auto
qed

theorem select_src_longest_witness:
  "uip_ds6_select_src (replicate 16 0xfd) (ds6_blank [used_addr (replicate 16 0xfd)] []) = replicate 16 0xfd"
proof -
  have "sending_in_LR (ds6_blank [used_addr (replicate 16 0xfd)] []) = SHORT_RADIO"
    by (simp add: sending_in_LR_def)
  then show ?thesis
    using select_src_longest [of "replicate 16 0xfd" "[used_addr (replicate 16 0xfd)]"
        "ds6_blank [used_addr (replicate 16 0xfd)] []" "used_addr (replicate 16 0xfd)"]
    by (simp add: uip_is_addr_linklocal_def uip_is_addr_mcast_def addr_matches_def used_addr_def radio_defs
        nth_replicate numeral_eq_Suc)
qed

text \<open>C35. The solicited-node groups are not reference counted: when two unicast addresses in use end
  in the same three bytes, as the link-local and the global address of one node do, removing one of
  them leaves the group of the other, which is still in use, without an entry.\<close>

theorem addr_rm_drops_shared_group:
  assumes "i < length (addr_list s)" and "j < length (addr_list s)" and "i \<noteq> j"
    and "uip_create_solicited_node (el_ipaddr (addr_list s ! i)) =
         uip_create_solicited_node (el_ipaddr (addr_list s ! j))"
    and "isused (addr_list s ! j)"
    and "{k. k < length (maddr_list s) \<and>
            entry_matches (uip_create_solicited_node (el_ipaddr (addr_list s ! j))) 128 (maddr_list s ! k)} = {m}"
    and "s' = uip_ds6_addr_rm (Some (ShortAddr i)) s"
  shows "isused (addr_list s' ! j) \<and> addr_list s' ! j = addr_list s ! j \<and>
         uip_ds6_maddr_lookup (uip_create_solicited_node (el_ipaddr (addr_list s' ! j))) s' = None"
proof -
  let ?g = "uip_create_solicited_node (el_ipaddr (addr_list s ! j))"
  have m: "m < length (maddr_list s)" "entry_matches ?g 128 (maddr_list s ! m)"
    and only: "k < length (maddr_list s) \<Longrightarrow> entry_matches ?g 128 (maddr_list s ! k) \<Longrightarrow> k = m" for k
    using assms(6) by auto
  have "uip_ds6_maddr_lookup ?g s = Some m"
    unfolding uip_ds6_maddr_lookup_def found_Some
  proof (intro conjI allI impI notI m)
    fix k
    assume "k < m" and "entry_matches ?g 128 (maddr_list s ! k)"
    with only [of k] m(1) show False by simp
  qed
  then have rm: "s' = (let s1 = uip_ds6_maddr_rm (Some m) s
      in s1\<lparr>addr_list := (addr_list s1)[i := (addr_list s ! i)\<lparr>isused := False\<rparr>]\<rparr>)"
    unfolding assms(7) uip_ds6_addr_rm_def by (simp only: option.case addr_ptr.case assms(4) Let_def)
  have ml: "maddr_list s' = (maddr_list s)[m := (maddr_list s ! m)\<lparr>isused := False\<rparr>]"
    and al: "addr_list s' = (addr_list s)[i := (addr_list s ! i)\<lparr>isused := False\<rparr>]"
    unfolding rm by (simp_all add: uip_ds6_maddr_rm_def)
  have "\<not> entry_matches ?g 128 e" if "e \<in> set (maddr_list s')" for e
  proof -
    from that obtain k where k: "k < length (maddr_list s)" "e = maddr_list s' ! k"
      unfolding ml by (auto simp: in_set_conv_nth)
    show ?thesis
    proof (cases "k = m")
      case True
      with k ml show ?thesis by (simp add: entry_matches_def)
    next
      case False
      with k ml only show ?thesis by auto
    qed
  qed
  then have "ds6_found (maddr_list s') ?g 128 = None" by (simp add: found_None)
  with al assms(1-3,5) show ?thesis by (simp add: uip_ds6_maddr_lookup_def)
qed


definition shared_addrs :: "uip_ds6_addr list" where
  "shared_addrs = [used_addr ([0xfe, 0x80] @ replicate 13 0 @ [7]), used_addr ([0xfd, 0] @ replicate 13 0 @ [7])]"

definition shared_group :: ipaddr where
  "shared_group = uip_create_solicited_node ([0xfd, 0] @ replicate 13 0 @ [7])"

theorem addr_rm_drops_shared_group_witness:
  "uip_ds6_maddr_lookup shared_group
     (uip_ds6_addr_rm (Some (ShortAddr 0)) (ds6_blank shared_addrs [used_el shared_group])) = None"
proof -
  let ?s = "ds6_blank shared_addrs [used_el shared_group]"
  have g0: "uip_create_solicited_node (el_ipaddr (shared_addrs ! 0)) = shared_group"
    and g1: "uip_create_solicited_node (el_ipaddr (shared_addrs ! 1)) = shared_group"
    by (simp_all add: shared_addrs_def shared_group_def uip_create_solicited_node_def used_addr_def)
  have set: "{k. k < length [used_el shared_group] \<and>
      entry_matches shared_group 128 ([used_el shared_group] ! k)} = {0}"
    by (auto simp: entry_matches_def used_el_def)
  have len: "length shared_addrs = 2" and u: "isused (shared_addrs ! 1)"
    by (simp_all add: shared_addrs_def used_addr_def)
  define s' where "s' = uip_ds6_addr_rm (Some (ShortAddr 0)) ?s"
  have "isused (addr_list s' ! 1) \<and> addr_list s' ! 1 = addr_list ?s ! 1 \<and>
      uip_ds6_maddr_lookup (uip_create_solicited_node (el_ipaddr (addr_list s' ! 1))) s' = None"
    by (rule addr_rm_drops_shared_group [where i = 0 and m = 0])
      (simp_all only: ds6_blank_sel len u g0 g1 set s'_def)
  then have "uip_ds6_maddr_lookup shared_group s' = None"
    by (metis ds6_blank_sel(2) g1)
  then show ?thesis unfolding s'_def .
qed

text \<open>The long-range copy of \<open>addr_add\<close> joins the solicited-node group of its address on the
  short-range interface: it never changes the multicast list of the long-range interface, and when
  the group is added at all it is found on the short-range one.\<close>

theorem long_addr_add_joins_short:
  "case uip_ds6_long_addr_add a v ty s of
     (s', None) \<Rightarrow> s' = s
   | (s', Some i) \<Rightarrow> uip_ds6_long_addr_lookup a s' = Some i \<and> long_maddr_list s' = long_maddr_list s \<and>
       (uip_ds6_maddr_lookup (uip_create_solicited_node a) s' = None \<longrightarrow> (\<forall>e \<in> set (maddr_list s'). isused e))"
proof (cases "uip_ds6_long_addr_add a v ty s")
  case (Pair s' p)
  show ?thesis
  proof (cases p)
    case None
    with Pair show ?thesis by (auto simp: uip_ds6_long_addr_add_def Let_def split: option.splits)
  next
    case (Some i)
    define t where "t = s\<lparr>long_addr_list := (long_addr_list s)[i :=
                  new_addr (clock_seconds s) a v ty (long_addr_list s ! i)]\<rparr>"
    have "ds6_free (long_addr_list s) a 128 = Some i"
      using Pair Some unfolding uip_ds6_long_addr_add_def Let_def
      by (cases "ds6_free (long_addr_list s) a 128") simp_all
    then have "uip_ds6_long_addr_add a v ty s = (fst (uip_ds6_maddr_add (uip_create_solicited_node a) t), Some i)"
      unfolding uip_ds6_long_addr_add_def t_def by (simp only: option.case Let_def)
    with Pair have t: "s' = fst (uip_ds6_maddr_add (uip_create_solicited_node a) t)" by (simp only: prod.inject)
    have tl: "long_maddr_list t = long_maddr_list s" by (simp add: t_def)
    let ?g = "uip_create_solicited_node a"
    have "uip_ds6_maddr_lookup ?g s' = None \<longrightarrow> (\<forall>e \<in> set (maddr_list s'). isused e)"
    proof (cases "snd (uip_ds6_maddr_add ?g t)")
      case None
      then have "s' = t" unfolding t by (rule maddr_add_refused)
      with maddr.insert_refused [of ?g t] None show ?thesis by auto
    next
      case (Some j)
      with maddr.insert_lookup [OF Some] t show ?thesis by simp
    qed
    with Pair Some t tl long_addr_add_lookup [of a v ty s s' i] show ?thesis by simp
  qed
qed

theorem long_addr_add_joins_short_witness:
  "long_maddr_list (fst (uip_ds6_long_addr_add (replicate 16 1) 0 1 (ds6_blank [] []))) =
   long_maddr_list (ds6_blank [] [])"
  using long_addr_add_joins_short [where a = "replicate 16 1" and v = 0 and ty = 1 and s = "ds6_blank [] []"]
  by (auto split: prod.splits option.splits)

end
