(* ===== verification/Ds6Nbr.thy ===== *)
theory Ds6Nbr
  imports Ds6Tables
begin

text \<open>
  The neighbour cache of \<open>core/net/ipv6/uip-ds6-nbr.c\<close> over the neighbour table \<open>ds6_neighbors\<close>, with
  the packet queue handle each entry embeds and the address map of the dual radio.
  \<open>NEIGHBOR_STATE_CHANGED\<close> and \<open>LINK_NEIGHBOR_CALLBACK\<close> are arguments here (the configuration sets
  them to functions of the RPL layer). A loop with \<open>nbr_table_head\<close> and \<open>nbr_table_next\<close> is a recursion over
  \<open>nbr_items\<close>, the sequence those two visit by \<open>nbr_iteration\<close>.
\<close>

unbundle bit_operations_syntax

subsection \<open>Packet queue handles\<close>

definition uip_packetqueue_new :: "nat \<Rightarrow> 'a ds6_state_scheme \<Rightarrow> 'a ds6_state_scheme" where
  "uip_packetqueue_new i s = set_nbr i ((ds6_neighbors s i)\<lparr>nb_packet := None\<rparr>) s"

definition uip_packetqueue_alloc :: "nat \<Rightarrow> 'a ds6_state_scheme \<Rightarrow> 'a ds6_state_scheme \<times> ptr" where
  "uip_packetqueue_alloc i s =
     (if nb_packet (ds6_neighbors s i) \<noteq> None then (s, None)
      else let (m, p) = memb_alloc (packets_memb s);
               s1 = set_nbr i ((ds6_neighbors s i)\<lparr>nb_packet := p\<rparr>) (s\<lparr>packets_memb := m\<rparr>)
           in case p of
                None \<Rightarrow> (s1, None)
              | Some b \<Rightarrow> (s1\<lparr>pkt_timer := (pkt_timer s1)(b := True)\<rparr>, Some b))"

definition uip_packetqueue_free :: "nat \<Rightarrow> 'a ds6_state_scheme \<Rightarrow> 'a ds6_state_scheme" where
  "uip_packetqueue_free i s = (case nb_packet (ds6_neighbors s i) of
     None \<Rightarrow> s
   | Some b \<Rightarrow>
       set_nbr i ((ds6_neighbors s i)\<lparr>nb_packet := None\<rparr>)
         (s\<lparr>pkt_timer := (pkt_timer s)(b := False), packets_memb := fst (memb_free (packets_memb s) b)\<rparr>))"

text \<open>The callback of the timer of a queued packet, which has run out, called with the handle; \<open>memb_free\<close> of a null pointer
  finds no block.\<close>

definition packet_timedout :: "nat \<Rightarrow> 'a ds6_state_scheme \<Rightarrow> 'a ds6_state_scheme" where
  "packet_timedout i s =
     set_nbr i ((ds6_neighbors s i)\<lparr>nb_packet := None\<rparr>)
       (case nb_packet (ds6_neighbors s i) of
          None \<Rightarrow> s
        | Some b \<Rightarrow> s\<lparr>packets_memb := fst (memb_free (packets_memb s) b), pkt_timer := (pkt_timer s)(b := False)\<rparr>)"

subsection \<open>Lookups\<close>

definition uip_ds6_nbr_get_ll :: "ptr \<Rightarrow> 'a ds6_state_scheme \<Rightarrow> linkaddr option" where
  "uip_ds6_nbr_get_ll nbr s = nbr_table_get_lladdr s nbr"

definition uip_ds6_nbr_get_ipaddr :: "ptr \<Rightarrow> 'a ds6_state_scheme \<Rightarrow> ipaddr option" where
  "uip_ds6_nbr_get_ipaddr nbr s = map_option (\<lambda>i. nb_ipaddr (ds6_neighbors s i)) nbr"

fun nbr_num_loop :: "nat list \<Rightarrow> int \<Rightarrow> int" where
  "nbr_num_loop [] num = num"
| "nbr_num_loop (i # is) num = nbr_num_loop is (num + 1)"

definition uip_ds6_nbr_num :: "'a ds6_state_scheme \<Rightarrow> int" where
  "uip_ds6_nbr_num s = nbr_num_loop (nbr_items s DS6_NEIGHBORS) 0"

fun nbr_lookup_loop :: "(nat \<Rightarrow> uip_ds6_nbr) \<Rightarrow> ipaddr \<Rightarrow> nat list \<Rightarrow> ptr" where
  "nbr_lookup_loop nb a [] = None"
| "nbr_lookup_loop nb a (i # is) = (if nb_ipaddr (nb i) = a then Some i else nbr_lookup_loop nb a is)"

definition uip_ds6_nbr_lookup :: "ipaddr option \<Rightarrow> 'a ds6_state_scheme \<Rightarrow> ptr" where
  "uip_ds6_nbr_lookup ip s = (case ip of
     None \<Rightarrow> None
   | Some a \<Rightarrow> nbr_lookup_loop (ds6_neighbors s) a (nbr_items s DS6_NEIGHBORS))"

definition uip_ds6_nbr_ll_lookup :: "linkaddr option \<Rightarrow> 'a ds6_state_scheme \<Rightarrow> ptr" where
  "uip_ds6_nbr_ll_lookup lladdr s = nbr_table_get_from_lladdr s DS6_NEIGHBORS lladdr"

definition uip_ds6_nbr_ipaddr_from_lladdr :: "linkaddr option \<Rightarrow> 'a ds6_state_scheme \<Rightarrow> ipaddr option" where
  "uip_ds6_nbr_ipaddr_from_lladdr lladdr s =
     map_option (\<lambda>i. nb_ipaddr (ds6_neighbors s i)) (uip_ds6_nbr_ll_lookup lladdr s)"

definition uip_ds6_nbr_lladdr_from_ipaddr :: "ipaddr option \<Rightarrow> 'a ds6_state_scheme \<Rightarrow> linkaddr option" where
  "uip_ds6_nbr_lladdr_from_ipaddr ip s = (case uip_ds6_nbr_lookup ip s of
     None \<Rightarrow> None
   | Some i \<Rightarrow> uip_ds6_nbr_get_ll (Some i) s)"

text \<open>\<open>long_ip_from_lladdr_map\<close> of \<open>nbr-table.c\<close>: \<open>None\<close> when the address has no neighbour, as the
  comparison then dereferences a null link-layer address.\<close>

definition long_ip_from_lladdr_map :: "ipaddr \<Rightarrow> 'a ds6_state_scheme \<Rightarrow> u8 option" where
  "long_ip_from_lladdr_map ip s = do {
     let nbr = uip_ds6_nbr_lookup (Some ip) s;
     a \<leftarrow> uip_ds6_nbr_get_ll nbr s;
     Some (map_lr_loop a (ds6_lr_addrmap s))
   }"

subsection \<open>Adding and removing neighbours\<close>

definition uip_ds6_nbr_add ::
  "('a ds6_state_scheme, 'd) nbr_env \<Rightarrow> (nat \<Rightarrow> 'a ds6_state_scheme \<Rightarrow> ('a ds6_state_scheme) option)
   \<Rightarrow> ipaddr \<Rightarrow> linkaddr option \<Rightarrow> u8 \<Rightarrow> u8 \<Rightarrow> nbr_table_reason \<Rightarrow> 'd \<Rightarrow> 'a ds6_state_scheme
   \<Rightarrow> ('a ds6_state_scheme \<times> ptr) option" where
  "uip_ds6_nbr_add env state_changed ip lladdr isrouter state reason data s = do {
     (s1, nbr) \<leftarrow> nbr_table_add_lladdr env DS6_NEIGHBORS lladdr reason data s;
     a \<leftarrow> lladdr;
     let s2 = fst (lladdr_map_add_lr a s1);
     case nbr of
       None \<Rightarrow> Some (s2, None)
     | Some i \<Rightarrow> do {
         let s3 = set_nbr i ((ds6_neighbors s2 i)\<lparr>nb_ipaddr := ip, nb_state := state\<rparr>) s2;
         s4 \<leftarrow> state_changed i (uip_packetqueue_new i s3);
         Some (s4, Some i)
       }
   }"

definition uip_ds6_nbr_rm ::
  "(nat \<Rightarrow> 'a ds6_state_scheme \<Rightarrow> ('a ds6_state_scheme) option) \<Rightarrow> ptr \<Rightarrow> 'a ds6_state_scheme
   \<Rightarrow> ('a ds6_state_scheme \<times> bool) option" where
  "uip_ds6_nbr_rm state_changed nbr s = (case nbr of
     None \<Rightarrow> Some (s, False)
   | Some i \<Rightarrow> do {
       let s1 = uip_packetqueue_free i s;
       a \<leftarrow> uip_ds6_nbr_get_ll (Some i) s1;
       let s2 = fst (lladdr_map_rm_lr a s1);
       s3 \<leftarrow> state_changed i s2;
       Some (nbr_table_remove DS6_NEIGHBORS (Some i) s3)
     })"

definition uip_ds6_neighbors_init :: "'a ds6_state_scheme \<Rightarrow> 'a ds6_state_scheme" where
  "uip_ds6_neighbors_init s = fst (nbr_table_register DS6_NEIGHBORS True s)"

definition uip_ds6_link_neighbor_callback ::
  "(linkaddr \<Rightarrow> int \<Rightarrow> int \<Rightarrow> 'a ds6_state_scheme \<Rightarrow> ('a ds6_state_scheme) option)
   \<Rightarrow> linkaddr \<Rightarrow> int \<Rightarrow> int \<Rightarrow> 'a ds6_state_scheme \<Rightarrow> ('a ds6_state_scheme) option" where
  "uip_ds6_link_neighbor_callback link_callback dest status numtx s =
     (if dest = linkaddr_null then Some s else link_callback dest status numtx s)"

text \<open>\<open>uip_ds6_get_least_lifetime_neighbor\<close> (compiled with neighbour advertisements only), over the
  entries of the cache, \<open>remaining\<close> being \<open>stimer_remaining\<close> of an entry's reachability timer.\<close>

fun least_lifetime_loop :: "(nat \<Rightarrow> u32) \<Rightarrow> nat list \<Rightarrow> ptr \<Rightarrow> ptr" where
  "least_lifetime_loop remaining [] nbr_expiring = nbr_expiring"
| "least_lifetime_loop remaining (nbr # nbrs) nbr_expiring =
     (case nbr_expiring of
        Some e \<Rightarrow> (let curr = remaining nbr
                   in least_lifetime_loop remaining nbrs (if curr < remaining nbr then Some nbr else Some e))
      | None \<Rightarrow> least_lifetime_loop remaining nbrs (Some nbr))"

subsection \<open>Frames\<close>

lemma set_nbr_frame [simp, frame_simps]:
  "nbr_eq s (set_nbr i n s)" "nt_keys (set_nbr i n s) = nt_keys s" "nt_lladdr (set_nbr i n s) = nt_lladdr s"
  "used_map (set_nbr i n s) = used_map s" "tabs (set_nbr i n s) = tabs s" "io (set_nbr i n s) = io s"
  "packets_memb (set_nbr i n s) = packets_memb s" "ds6_neighbors (set_nbr i n s) = (ds6_neighbors s)(i := n)"
  by (simp_all add: set_nbr_def nbr_eq_def nbr_same_def)

lemma pq_new_eq [simp]: "nbr_eq s (uip_packetqueue_new i s)"
  by (simp add: uip_packetqueue_new_def)

lemma pq_free_eq [simp]: "nbr_eq s (uip_packetqueue_free i s)"
  by (cases "nb_packet (ds6_neighbors s i)")
    (simp_all add: uip_packetqueue_free_def set_nbr_def nbr_eq_def nbr_same_def)

lemma map_add_eq [simp]: "nbr_eq s (fst (lladdr_map_add_lr a s))"
  by (simp add: lladdr_map_add_lr_def nbr_eq_def nbr_same_def split: prod.splits)

lemma map_rm_eq [simp]: "nbr_eq s (fst (lladdr_map_rm_lr a s))"
  by (simp add: lladdr_map_rm_lr_def nbr_eq_def nbr_same_def split: prod.splits)

lemma nbr_lookup_loop_eq: "nbr_lookup_loop nb a is = find (\<lambda>i. nb_ipaddr (nb i) = a) is"
  by (induction "is") auto

lemma nbr_num_eq: "uip_ds6_nbr_num s = int (length (nbr_items s DS6_NEIGHBORS))"
proof -
  have "nbr_num_loop xs n = n + int (length xs)" for xs n
    by (induction xs arbitrary: n) auto
  then show ?thesis by (simp add: uip_ds6_nbr_num_def)
qed

lemma nbr_lookup_Some:
  "uip_ds6_nbr_lookup (Some a) s = Some i \<Longrightarrow>
     i \<in> set (nbr_items s DS6_NEIGHBORS) \<and> nb_ipaddr (ds6_neighbors s i) = a"
  by (auto simp: uip_ds6_nbr_lookup_def nbr_lookup_loop_eq dest: find_Some_set)

lemma nbr_lookup_None:
  "uip_ds6_nbr_lookup (Some a) s = None \<longleftrightarrow>
     (\<forall>i \<in> set (nbr_items s DS6_NEIGHBORS). nb_ipaddr (ds6_neighbors s i) \<noteq> a)"
  by (simp add: uip_ds6_nbr_lookup_def nbr_lookup_loop_eq find_None_set)

lemma nbr_rm_frame:
  assumes "uip_ds6_nbr_rm sc nbr s = Some (s', r)"
    and "\<And>i s s'. sc i s = Some s' \<Longrightarrow> nbr_frame s s'"
  shows "nbr_frame s s'"
proof (cases nbr)
  case None
  with assms(1) show ?thesis by (simp add: uip_ds6_nbr_rm_def)
next
  case (Some i)
  let ?s1 = "uip_packetqueue_free i s"
  from assms(1) Some obtain a s3 where sc: "sc i (fst (lladdr_map_rm_lr a ?s1)) = Some s3"
    and s': "s' = fst (nbr_table_remove DS6_NEIGHBORS (Some i) s3)"
    by (auto simp: uip_ds6_nbr_rm_def Let_def elim!: bind_SomeE)
  have "nbr_frame s ?s1" by (simp add: nbr_eq_frame)
  moreover have "nbr_frame ?s1 (fst (lladdr_map_rm_lr a ?s1))" by (simp add: nbr_eq_frame)
  ultimately show ?thesis unfolding s'
    using assms(2) [OF sc] remove_frame [of s3 DS6_NEIGHBORS "Some i"] by (meson nbr_frame_trans)
qed


lemma pq_free_pool:
  "packets_memb (uip_packetqueue_free i s) =
     (case nb_packet (ds6_neighbors s i) of None \<Rightarrow> packets_memb s
      | Some b \<Rightarrow> fst (memb_free (packets_memb s) b))"
  by (cases "nb_packet (ds6_neighbors s i)") (simp_all add: uip_packetqueue_free_def)

lemma pq_free_handle: "nb_packet (ds6_neighbors (uip_packetqueue_free i s) i) = None"
  by (cases "nb_packet (ds6_neighbors s i)") (simp_all add: uip_packetqueue_free_def)

lemma pq_alloc_Some:
  assumes "uip_packetqueue_alloc i s = (s', Some b)"
  shows "nb_packet (ds6_neighbors s i) = None" and "memb_alloc (packets_memb s) = (packets_memb s', Some b)"
    and "nb_packet (ds6_neighbors s' i) = Some b" and "pkt_timer s' b"
proof -
  show n: "nb_packet (ds6_neighbors s i) = None"
    using assms unfolding uip_packetqueue_alloc_def by (auto split: if_splits)
  obtain m p where m: "memb_alloc (packets_memb s) = (m, p)" by force
  define s1 where "s1 = set_nbr i ((ds6_neighbors s i)\<lparr>nb_packet := p\<rparr>) (s\<lparr>packets_memb := m\<rparr>)"
  have "p = Some b \<and> s' = s1\<lparr>pkt_timer := (pkt_timer s1)(b := True)\<rparr>"
    using assms n m unfolding uip_packetqueue_alloc_def s1_def [symmetric]
    by (simp add: s1_def [symmetric] split: option.splits)
  with m show "memb_alloc (packets_memb s) = (packets_memb s', Some b)"
    and "nb_packet (ds6_neighbors s' i) = Some b" and "pkt_timer s' b"
    by (simp_all add: s1_def)
qed

text \<open>C36. A queued packet is given back: when \<open>uip_packetqueue_alloc\<close> succeeds for a neighbour, it
  takes a block nobody holds and starts its timer, and \<open>uip_packetqueue_free\<close>, or the expiry of the
  timer, makes the pool what it was and leaves the handle empty.\<close>

theorem packetqueue_roundtrip:
  assumes "memb_wf (packets_memb s)" and "uip_packetqueue_alloc i s = (s', Some b)"
  shows "b \<notin> memb_used (packets_memb s) \<and> pkt_timer s' b \<and>
         memb_used (packets_memb (uip_packetqueue_free i s')) = memb_used (packets_memb s) \<and>
         memb_used (packets_memb (packet_timedout i s')) = memb_used (packets_memb s) \<and>
         nb_packet (ds6_neighbors (uip_packetqueue_free i s') i) = None \<and>
         nb_packet (ds6_neighbors (packet_timedout i s') i) = None"
proof -
  note a = pq_alloc_Some [OF assms(2)]
  from alloc_fresh [OF assms(1) a(2)] have f: "b \<in> memb_blocks (packets_memb s) - memb_used (packets_memb s)"
    "memb_used (packets_memb s') = insert b (memb_used (packets_memb s))" "memb_wf (packets_memb s')"
    "memb_blocks (packets_memb s') = memb_blocks (packets_memb s)" by auto
  from free_block [OF f(3), of b] f(1,4) obtain m' where m': "memb_free (packets_memb s') b = (m', 0)"
    "memb_used m' = memb_used (packets_memb s') - {b}" by auto
  with f a(3,4) show ?thesis
    by (auto simp: pq_free_pool pq_free_handle packet_timedout_def)
qed

lemma fresh_memb_wf: "memb_wf (fresh_memb n)"
  by (auto simp: memb_wf_def fresh_memb_def)

lemma ds6_blank_sel2 [simp]:
  "packets_memb (ds6_blank al ml) = fresh_memb 2" "ds6_neighbors (ds6_blank al ml) = (\<lambda>_. zero_nbr)"
  by (simp_all add: ds6_blank_def ds6_state.defs dual_state.defs dual_demo_def nbr_state.defs)

theorem packetqueue_roundtrip_witness:
  "nb_packet (ds6_neighbors (packet_timedout 3 (fst (uip_packetqueue_alloc 3 (ds6_blank [] [])))) 3) = None"
proof -
  have a: "memb_alloc (fresh_memb 2) = ((fresh_memb 2)\<lparr>mcount := [1, 0]\<rparr>, Some 0)"
    by (simp add: memb_alloc_def fresh_memb_def numeral_2_eq_2)
  have "snd (uip_packetqueue_alloc 3 (ds6_blank [] [])) = Some 0"
    by (simp add: uip_packetqueue_alloc_def a zero_nbr_def Let_def)
  then obtain s' where "uip_packetqueue_alloc 3 (ds6_blank [] []) = (s', Some 0)"
    by (metis prod.collapse)
  moreover have "memb_wf (packets_memb (ds6_blank [] []))" by (simp add: fresh_memb_wf)
  ultimately show ?thesis using packetqueue_roundtrip [of "ds6_blank [] []" 3 s' 0] by simp
qed

text \<open>C37. The two ways to find a neighbour agree: when an IPv6 address resolves to a link-layer
  address, that link-layer address is the one of an entry of the cache with this IPv6 address, and
  looking it up finds that entry.\<close>

theorem nbr_lookups_agree:
  assumes "nbr_wf s" and "uip_ds6_nbr_lladdr_from_ipaddr (Some a) s = Some ll"
  shows "\<exists>i. uip_ds6_nbr_ll_lookup (Some ll) s = Some i \<and> nb_ipaddr (ds6_neighbors s i) = a \<and>
             uip_ds6_nbr_ipaddr_from_lladdr (Some ll) s = Some a"
proof -
  from assms(2) obtain i where i: "uip_ds6_nbr_lookup (Some a) s = Some i" "nt_lladdr s i = ll"
    by (auto simp: uip_ds6_nbr_lladdr_from_ipaddr_def uip_ds6_nbr_get_ll_def nbr_table_get_lladdr_def
        split: option.splits)
  from nbr_lookup_Some [OF i(1)] have "i \<in> set (nbr_items s DS6_NEIGHBORS)" "nb_ipaddr (ds6_neighbors s i) = a"
    by auto
  with get_from_lladdr_iff [OF assms(1), of DS6_NEIGHBORS ll i] i(2) show ?thesis
    by (auto simp: uip_ds6_nbr_ll_lookup_def uip_ds6_nbr_ipaddr_from_lladdr_def)
qed

lemma nbr_wf_blank: "nbr_wf (ds6_blank al ml)"
  using nbr_demo_wf
  by (simp add: nbr_wf_def ds6_blank_def ds6_state.defs dual_state.defs dual_demo_def nbr_state.defs)

theorem nbr_lookups_agree_witness:
  "\<exists>i. uip_ds6_nbr_ll_lookup (Some [0]) (ds6_blank [] []) = Some i"
proof -
  have d: "DS6_NEIGHBORS = 0" by (simp add: DS6_NEIGHBORS_def)
  have "nbr_items (ds6_blank [] []) DS6_NEIGHBORS = [0]"
    by (simp add: nbr_items_def uses_def ds6_blank_def ds6_state.defs dual_state.defs dual_demo_def
        nbr_state.defs nbr_demo_def bit_0)
  then have "uip_ds6_nbr_lladdr_from_ipaddr (Some (replicate 16 0)) (ds6_blank [] []) = Some [0]"
    by (simp add: uip_ds6_nbr_lladdr_from_ipaddr_def uip_ds6_nbr_lookup_def zero_nbr_def
        uip_ds6_nbr_get_ll_def nbr_table_get_lladdr_def ds6_blank_def ds6_state.defs dual_state.defs
        dual_demo_def nbr_state.defs nbr_demo_def)
  from nbr_lookups_agree [OF nbr_wf_blank this] show ?thesis by blast
qed

text \<open>The neighbour "about to expire" is always the first entry of the cache: the loop compares
  the remaining lifetime of an entry with itself, so it never replaces its first choice.\<close>

theorem least_lifetime_is_first:
  "least_lifetime_loop remaining nbrs None = first_of nbrs"
proof -
  have "least_lifetime_loop remaining xs (Some e) = Some e" for xs e
    by (induction xs) auto
  then show ?thesis by (cases nbrs) auto
qed

end
