(* ===== verification/Ds6Route.thy ===== *)
theory Ds6Route
  imports Ds6Nbr
begin

text \<open>
  The routing table and the default routers of \<open>core/net/ipv6/uip-ds6-route.c\<close>. Routes live in the
  pool \<open>routememb\<close> and on \<open>routelist\<close>, most recently used first; every next hop has an entry in the
  neighbour table \<open>nbr_routes\<close> holding the list of its neighbour-route records, each of which points to
  one route. The notifications of the application are recorded in the trace.
\<close>

unbundle bit_operations_syntax

subsection \<open>Notifications\<close>

fun notify_loop ::
  "nat list \<Rightarrow> route_event \<Rightarrow> ipaddr \<Rightarrow> ipaddr option \<Rightarrow> int \<Rightarrow> 'a ds6_state_scheme \<Rightarrow> 'a ds6_state_scheme" where
  "notify_loop [] event route nexthop num s = s"
| "notify_loop (n # ns) event route nexthop num s =
     notify_loop ns event route nexthop num (emit (RouteNotify n event route nexthop num) s)"

definition call_route_callback ::
  "route_event \<Rightarrow> ipaddr \<Rightarrow> ipaddr option \<Rightarrow> 'a ds6_state_scheme \<Rightarrow> 'a ds6_state_scheme" where
  "call_route_callback event route nexthop s =
     (let num = (if event = UIP_DS6_NOTIFICATION_DEFRT_ADD \<or> event = UIP_DS6_NOTIFICATION_DEFRT_RM
                 then int (length (defaultrouterlist s)) else num_routes s)
      in notify_loop (notificationlist s) event route nexthop num s)"

definition uip_ds6_notification_add :: "ptr \<Rightarrow> bool \<Rightarrow> 'a ds6_state_scheme \<Rightarrow> 'a ds6_state_scheme" where
  "uip_ds6_notification_add n c s = (case n of
     Some i \<Rightarrow> if c then s\<lparr>notificationlist := remove1 i (notificationlist s) @ [i]\<rparr> else s
   | None \<Rightarrow> s)"

definition uip_ds6_notification_rm :: "nat \<Rightarrow> 'a ds6_state_scheme \<Rightarrow> 'a ds6_state_scheme" where
  "uip_ds6_notification_rm n s = s\<lparr>notificationlist := remove1 n (notificationlist s)\<rparr>"

subsection \<open>Looking up routes\<close>

definition uip_ds6_route_init :: "'a ds6_state_scheme \<Rightarrow> 'a ds6_state_scheme" where
  "uip_ds6_route_init s =
     (let s1 = s\<lparr>routememb := memb_init (routememb s), routelist := []\<rparr>;
          s2 = fst (nbr_table_register NBR_ROUTES True s1)
      in s2\<lparr>defaultroutermemb := memb_init (defaultroutermemb s2), defaultrouterlist := [],
            notificationlist := []\<rparr>)"

definition uip_ds6_route_nexthop_lladdr :: "ptr \<Rightarrow> 'a ds6_state_scheme \<Rightarrow> linkaddr option" where
  "uip_ds6_route_nexthop_lladdr route s = (case route of
     None \<Rightarrow> None
   | Some r \<Rightarrow> nbr_table_get_lladdr s (neighbor_routes (routes s r)))"

definition uip_ds6_route_nexthop :: "ptr \<Rightarrow> 'a ds6_state_scheme \<Rightarrow> ipaddr option" where
  "uip_ds6_route_nexthop route s = (case route of
     None \<Rightarrow> None
   | Some r \<Rightarrow> uip_ds6_nbr_ipaddr_from_lladdr (uip_ds6_route_nexthop_lladdr (Some r) s) s)"

definition uip_ds6_route_head :: "'a ds6_state_scheme \<Rightarrow> ptr" where
  "uip_ds6_route_head s = first_of (routelist s)"

definition uip_ds6_route_next :: "ptr \<Rightarrow> 'a ds6_state_scheme \<Rightarrow> ptr" where
  "uip_ds6_route_next r s = (case r of None \<Rightarrow> None | Some i \<Rightarrow> first_of (after i (routelist s)))"

definition uip_ds6_route_is_nexthop :: "ipaddr \<Rightarrow> 'a ds6_state_scheme \<Rightarrow> bool" where
  "uip_ds6_route_is_nexthop ip s = (case uip_ds6_nbr_lladdr_from_ipaddr (Some ip) s of
     None \<Rightarrow> False
   | Some ll \<Rightarrow> nbr_table_get_from_lladdr s NBR_ROUTES (Some ll) \<noteq> None)"

definition uip_ds6_route_num_routes :: "'a ds6_state_scheme \<Rightarrow> int" where
  "uip_ds6_route_num_routes s = num_routes s"

text \<open>The loop of \<open>uip_ds6_route_lookup\<close>; it stops at a host route.\<close>

fun route_loop :: "(nat \<Rightarrow> uip_ds6_route) \<Rightarrow> ipaddr \<Rightarrow> nat list \<Rightarrow> u8 \<Rightarrow> ptr \<Rightarrow> ptr" where
  "route_loop rt addr [] longestmatch found_route = found_route"
| "route_loop rt addr (r # rs) longestmatch found_route =
     (if rt_length (rt r) \<ge> longestmatch \<and> uip_ipaddr_prefixcmp addr (rt_ipaddr (rt r)) (rt_length (rt r))
      then if rt_length (rt r) = 128 then Some r
           else route_loop rt addr rs (rt_length (rt r)) (Some r)
      else route_loop rt addr rs longestmatch found_route)"

definition uip_ds6_route_lookup :: "ipaddr \<Rightarrow> 'a ds6_state_scheme \<Rightarrow> 'a ds6_state_scheme \<times> ptr" where
  "uip_ds6_route_lookup addr s =
     (let found_route = route_loop (routes s) addr (routelist s) 0 None
      in case found_route of
           None \<Rightarrow> (s, None)
         | Some f \<Rightarrow>
             if first_of (routelist s) \<noteq> Some f
             then let l = remove1 f (routelist s) in (s\<lparr>routelist := f # remove1 f l\<rparr>, Some f)
             else (s, Some f))"

subsection \<open>Removing and adding routes\<close>

definition set_route_list :: "nat \<Rightarrow> nat list \<Rightarrow> 'a ds6_state_scheme \<Rightarrow> 'a ds6_state_scheme" where
  "set_route_list i l s = s\<lparr>nbr_routes := (nbr_routes s)(i := (nbr_routes s i)\<lparr>route_list := l\<rparr>)\<rparr>"

text \<open>The two halves of \<open>uip_ds6_route_rm\<close>: unlinking the route and its record (the record may be
  missing), with the next hop dropped from the table when it has no route left, and freeing both.\<close>

definition route_unlink :: "nat \<Rightarrow> nat \<Rightarrow> ptr \<Rightarrow> 'a ds6_state_scheme \<Rightarrow> 'a ds6_state_scheme" where
  "route_unlink r i neighbor_route s =
     (let s1 = s\<lparr>routelist := remove1 r (routelist s)\<rparr>;
          s2 = (case neighbor_route of
                  None \<Rightarrow> s1
                | Some n \<Rightarrow> set_route_list i (remove1 n (route_list (nbr_routes s1 i))) s1)
      in if route_list (nbr_routes s2 i) = []
         then fst (nbr_table_remove NBR_ROUTES (Some i) s2) else s2)"

definition route_free :: "nat \<Rightarrow> ptr \<Rightarrow> 'a ds6_state_scheme \<Rightarrow> 'a ds6_state_scheme" where
  "route_free r neighbor_route s =
     (let s4 = s\<lparr>routememb := fst (memb_free (routememb s) r)\<rparr>;
          s5 = (case neighbor_route of
                  None \<Rightarrow> s4
                | Some n \<Rightarrow> s4\<lparr>neighborroutememb := fst (memb_free (neighborroutememb s4) n)\<rparr>)
      in s5\<lparr>num_routes := num_routes s5 - 1\<rparr>)"

definition uip_ds6_route_rm :: "ptr \<Rightarrow> 'a ds6_state_scheme \<Rightarrow> ('a ds6_state_scheme) option" where
  "uip_ds6_route_rm route s = (case route of
     None \<Rightarrow> Some s
   | Some r \<Rightarrow> (case neighbor_routes (routes s r) of
       None \<Rightarrow> Some s
     | Some i \<Rightarrow>
         if \<not> rl_init (nbr_routes s i) then None
         else
           let neighbor_route = find (\<lambda>n. nbrr_route s n = r) (route_list (nbr_routes s i));
               s1 = route_free r neighbor_route (route_unlink r i neighbor_route s)
           in Some (call_route_callback UIP_DS6_NOTIFICATION_ROUTE_RM (rt_ipaddr (routes s1 r))
                      (uip_ds6_route_nexthop (Some r) s1) s1)))"

text \<open>The \<open>while\<close> loop of \<open>rm_routelist\<close>: it re-reads the head after every removal.\<close>

partial_function (option) rm_routelist_loop ::
  "nat \<Rightarrow> 'a ds6_state_scheme \<Rightarrow> ('a ds6_state_scheme) option" where
  "rm_routelist_loop i s = (case route_list (nbr_routes s i) of
     [] \<Rightarrow> Some s
   | n # _ \<Rightarrow> do {
       s1 \<leftarrow> uip_ds6_route_rm (Some (nbrr_route s n)) s;
       rm_routelist_loop i s1
     })"

definition rm_routelist :: "ptr \<Rightarrow> 'a ds6_state_scheme \<Rightarrow> ('a ds6_state_scheme) option" where
  "rm_routelist rts s = (case rts of
     None \<Rightarrow> Some s
   | Some i \<Rightarrow>
       if rl_init (nbr_routes s i)
       then do {
         s1 \<leftarrow> rm_routelist_loop i s;
         Some (fst (nbr_table_remove NBR_ROUTES (Some i) s1))
       }
       else Some s)"

definition rm_routelist_callback :: "nat \<Rightarrow> 'a ds6_state_scheme \<Rightarrow> ('a ds6_state_scheme) option" where
  "rm_routelist_callback i s = rm_routelist (Some i) s"

definition uip_ds6_route_rm_by_nexthop :: "ipaddr \<Rightarrow> 'a ds6_state_scheme \<Rightarrow> ('a ds6_state_scheme) option" where
  "uip_ds6_route_rm_by_nexthop nexthop s =
     rm_routelist (nbr_table_get_from_lladdr s NBR_ROUTES (uip_ds6_nbr_lladdr_from_ipaddr (Some nexthop) s)) s"

text \<open>The neighbour-route list of a next hop: the one it has, or a new entry of \<open>nbr_routes\<close>.\<close>

definition nexthop_routes ::
  "('a ds6_state_scheme, 'd option) nbr_env \<Rightarrow> linkaddr \<Rightarrow> 'a ds6_state_scheme
   \<Rightarrow> ('a ds6_state_scheme \<times> ptr) option" where
  "nexthop_routes env ll s = (case nbr_table_get_from_lladdr s NBR_ROUTES (Some ll) of
     Some i \<Rightarrow> Some (s, Some i)
   | None \<Rightarrow> do {
       (s1, rts) \<leftarrow> nbr_table_add_lladdr env NBR_ROUTES (Some ll) NBR_TABLE_REASON_ROUTE None s;
       Some (case rts of
               None \<Rightarrow> (s1, None)
             | Some i \<Rightarrow> (s1\<lparr>nbr_routes := (nbr_routes s1)(i := \<lparr>rl_init = True, route_list = []\<rparr>)\<rparr>, Some i))
     })"

text \<open>The rest of \<open>uip_ds6_route_add\<close>: the two allocations, the links between them, the lock and the
  contents of the new route.\<close>

definition route_install ::
  "ipaddr \<Rightarrow> u8 \<Rightarrow> ipaddr \<Rightarrow> nat \<Rightarrow> 'a ds6_state_scheme \<Rightarrow> 'a ds6_state_scheme \<times> ptr" where
  "route_install ip len nexthop i s = (case memb_alloc (routememb s) of
     (rm, None) \<Rightarrow> (s\<lparr>routememb := rm\<rparr>, None)
   | (rm, Some r) \<Rightarrow>
       let s1 = s\<lparr>routememb := rm, routelist := r # remove1 r (routelist s)\<rparr>
       in (case memb_alloc (neighborroutememb s1) of
             (nm, None) \<Rightarrow> (s1\<lparr>neighborroutememb := nm, routememb := fst (memb_free (routememb s1) r)\<rparr>, None)
           | (nm, Some n) \<Rightarrow>
               let s2 = s1\<lparr>neighborroutememb := nm, nbrr_route := (nbrr_route s1)(n := r)\<rparr>;
                   s3 = set_route_list i (remove1 n (route_list (nbr_routes s2 i)) @ [n]) s2;
                   s4 = set_route r ((routes s3 r)\<lparr>neighbor_routes := Some i\<rparr>) s3;
                   s5 = fst (nbr_table_lock NBR_ROUTES (Some i) (s4\<lparr>num_routes := num_routes s4 + 1\<rparr>));
                   s6 = set_route r ((routes s5 r)\<lparr>rt_ipaddr := ip, rt_length := len,
                          rt_state := \<lparr>re_lifetime = 0, re_dag = None, dao_seqno_out = 0,
                                       dao_seqno_in = 0, state_flags = 0\<rparr>\<rparr>) s5
               in (call_route_callback UIP_DS6_NOTIFICATION_ROUTE_ADD ip (Some nexthop) s6, Some r)))"

definition uip_ds6_route_add ::
  "('a ds6_state_scheme, 'd option) nbr_env \<Rightarrow> ipaddr \<Rightarrow> u8 \<Rightarrow> ipaddr \<Rightarrow> 'a ds6_state_scheme
   \<Rightarrow> ('a ds6_state_scheme \<times> ptr) option" where
  "uip_ds6_route_add env ip len nexthop s =
     (case uip_ds6_nbr_lladdr_from_ipaddr (Some nexthop) s of
        None \<Rightarrow> Some (s, None)
      | Some nexthop_lladdr \<Rightarrow>
          (case uip_ds6_route_lookup ip s of (s1, r) \<Rightarrow>
             if r \<noteq> None \<and> uip_ds6_route_nexthop r s1 = Some nexthop
             then Some (s1, r)
             else do {
               s2 \<leftarrow> uip_ds6_route_rm r s1;
               if uip_ds6_route_num_routes s2 = UIP_DS6_ROUTE_NB then Some (s2, None)
               else do {
                 (s3, rts) \<leftarrow> nexthop_routes env nexthop_lladdr s2;
                 Some (case rts of
                         None \<Rightarrow> (s3, None)
                       | Some i \<Rightarrow> route_install ip len nexthop i s3)
               }
             }))"

subsection \<open>Default routers\<close>

definition uip_ds6_defrt_lookup :: "ipaddr \<Rightarrow> 'a ds6_state_scheme \<Rightarrow> ptr" where
  "uip_ds6_defrt_lookup ip s = find (\<lambda>d. df_ipaddr (defrts s d) = ip) (defaultrouterlist s)"

definition uip_ds6_defrt_add :: "ipaddr \<Rightarrow> u32 \<Rightarrow> 'a ds6_state_scheme \<Rightarrow> 'a ds6_state_scheme \<times> ptr" where
  "uip_ds6_defrt_add ip interval s =
     (let (s1, d) = (case uip_ds6_defrt_lookup ip s of
                       Some d \<Rightarrow> (s, Some d)
                     | None \<Rightarrow> (case memb_alloc (defaultroutermemb s) of
                         (m, None) \<Rightarrow> (s\<lparr>defaultroutermemb := m\<rparr>, None)
                       | (m, Some d) \<Rightarrow>
                           (s\<lparr>defaultroutermemb := m,
                              defaultrouterlist := d # remove1 d (defaultrouterlist s)\<rparr>, Some d)))
      in case d of
           None \<Rightarrow> (s1, None)
         | Some i \<Rightarrow>
             let e = (defrts s1 i)\<lparr>df_ipaddr := ip\<rparr>;
                 e' = (if interval \<noteq> 0
                       then e\<lparr>df_lifetime := stimer_set (clock_seconds s1) interval, df_isinfinite := False\<rparr>
                       else e\<lparr>df_isinfinite := True\<rparr>)
             in (call_route_callback UIP_DS6_NOTIFICATION_DEFRT_ADD ip (Some ip)
                   (s1\<lparr>defrts := (defrts s1)(i := e')\<rparr>), Some i))"

definition uip_ds6_defrt_rm :: "ptr \<Rightarrow> 'a ds6_state_scheme \<Rightarrow> 'a ds6_state_scheme" where
  "uip_ds6_defrt_rm defrt s = (case defrt of
     None \<Rightarrow> s
   | Some d \<Rightarrow>
       if d \<in> set (defaultrouterlist s)
       then let s1 = s\<lparr>defaultrouterlist := remove1 d (defaultrouterlist s),
                       defaultroutermemb := fst (memb_free (defaultroutermemb s) d)\<rparr>;
                ip = df_ipaddr (defrts s1 d)
            in call_route_callback UIP_DS6_NOTIFICATION_DEFRT_RM ip (Some ip) s1
       else s)"

fun choose_loop :: "'a ds6_state_scheme \<Rightarrow> nat list \<Rightarrow> ipaddr option \<Rightarrow> ipaddr option" where
  "choose_loop s [] addr = addr"
| "choose_loop s (d # ds) addr =
     (case uip_ds6_nbr_lookup (Some (df_ipaddr (defrts s d))) s of
        Some bestnbr \<Rightarrow>
          if nb_state (ds6_neighbors s bestnbr) \<noteq> NBR_INCOMPLETE then Some (df_ipaddr (defrts s d))
          else choose_loop s ds (Some (df_ipaddr (defrts s d)))
      | None \<Rightarrow> choose_loop s ds (Some (df_ipaddr (defrts s d))))"

definition uip_ds6_defrt_choose :: "'a ds6_state_scheme \<Rightarrow> ipaddr option" where
  "uip_ds6_defrt_choose s = choose_loop s (defaultrouterlist s) None"

text \<open>The loop of \<open>uip_ds6_defrt_periodic\<close>: it starts again from the head after a removal.\<close>

partial_function (option) defrt_periodic_loop ::
  "nat list \<Rightarrow> 'a ds6_state_scheme \<Rightarrow> ('a ds6_state_scheme) option" where
  "defrt_periodic_loop ds s = (case ds of
     [] \<Rightarrow> Some s
   | d # ds' \<Rightarrow>
       if \<not> df_isinfinite (defrts s d) \<and> stimer_expired (clock_seconds s) (df_lifetime (defrts s d))
       then let s1 = uip_ds6_defrt_rm (Some d) s in defrt_periodic_loop (defaultrouterlist s1) s1
       else defrt_periodic_loop ds' s)"

definition uip_ds6_defrt_periodic :: "'a ds6_state_scheme \<Rightarrow> ('a ds6_state_scheme) option" where
  "uip_ds6_defrt_periodic s = defrt_periodic_loop (defaultrouterlist s) s"


subsection \<open>Frames\<close>

lemma notify_loop_eq:
  "notify_loop ns e r nh num s = s\<lparr>io := io s @ map (\<lambda>n. RouteNotify n e r nh num) ns\<rparr>"
  by (induction ns arbitrary: s) (simp_all add: emit_def)

text \<open>The notifications one call adds to the trace.\<close>

definition notified :: "route_event \<Rightarrow> ipaddr \<Rightarrow> ipaddr option \<Rightarrow> 'a ds6_state_scheme \<Rightarrow> io_event list" where
  "notified e r nh s = map (\<lambda>n. RouteNotify n e r nh
     (if e = UIP_DS6_NOTIFICATION_DEFRT_ADD \<or> e = UIP_DS6_NOTIFICATION_DEFRT_RM
      then int (length (defaultrouterlist s)) else num_routes s)) (notificationlist s)"

lemma call_route_callback_eq:
  "call_route_callback e r nh s = s\<lparr>io := io s @ notified e r nh s\<rparr>"
  by (simp add: call_route_callback_def notify_loop_eq notified_def Let_def)

lemma nbr_eq_callback [simp]: "nbr_eq s (call_route_callback e r nh s)"
  by (simp add: call_route_callback_eq nbr_eq_def nbr_same_def)

subsection \<open>Longest match\<close>

definition route_matches :: "(nat \<Rightarrow> uip_ds6_route) \<Rightarrow> ipaddr \<Rightarrow> nat \<Rightarrow> bool" where
  "route_matches rt a r \<longleftrightarrow> uip_ipaddr_prefixcmp a (rt_ipaddr (rt r)) (rt_length (rt r))"

definition longest_match :: "(nat \<Rightarrow> uip_ds6_route) \<Rightarrow> ipaddr \<Rightarrow> nat list \<Rightarrow> ptr \<Rightarrow> bool" where
  "longest_match rt a rs f = (case f of
     None \<Rightarrow> \<forall>r \<in> set rs. \<not> route_matches rt a r
   | Some r \<Rightarrow> r \<in> set rs \<and> route_matches rt a r \<and>
       (\<forall>r' \<in> set rs. route_matches rt a r' \<longrightarrow> rt_length (rt r') \<le> rt_length (rt r)))"

lemma route_loop_longest:
  assumes "longest_match rt a pre f" and "l = (case f of None \<Rightarrow> 0 | Some r \<Rightarrow> rt_length (rt r))"
    and "\<forall>r \<in> set (pre @ rs). rt_length (rt r) \<le> 128"
  shows "longest_match rt a (pre @ rs) (route_loop rt a rs l f)"
  using assms
proof (induction rs arbitrary: pre f l)
  case Nil
  then show ?case by simp
next
  case (Cons r rs)
  show ?case
  proof (cases "rt_length (rt r) \<ge> l \<and> route_matches rt a r")
    case True
    have m: "longest_match rt a (pre @ [r]) (Some r)"
      using Cons.prems(1,2) True by (auto simp: longest_match_def split: option.splits intro: order_trans)
    show ?thesis
    proof (cases "rt_length (rt r) = 128")
      case full: True
      with m True Cons.prems(3) show ?thesis
        by (auto simp: longest_match_def route_matches_def)
    next
      case False
      with Cons.IH [OF m] Cons.prems(3) True show ?thesis by (simp add: route_matches_def)
    qed
  next
    case False
    have "longest_match rt a (pre @ [r]) f"
      using Cons.prems(1,2) False by (auto simp: longest_match_def split: option.splits)
    with Cons.IH [of "pre @ [r]" f l] Cons.prems(2,3)
    have "longest_match rt a (pre @ r # rs) (route_loop rt a rs l f)" by simp
    moreover have "route_loop rt a (r # rs) l f = route_loop rt a rs l f"
      using False by (auto simp: route_matches_def)
    ultimately show ?thesis by (simp only:)
  qed
qed

lemma route_lookup_eq:
  assumes "distinct (routelist s)" and "\<forall>r \<in> set (routelist s). rt_length (routes s r) \<le> 128"
  shows "longest_match (routes s) a (routelist s) (snd (uip_ds6_route_lookup a s)) \<and>
         fst (uip_ds6_route_lookup a s) = s\<lparr>routelist :=
           (case snd (uip_ds6_route_lookup a s) of None \<Rightarrow> routelist s | Some f \<Rightarrow> f # remove1 f (routelist s))\<rparr>"
proof -
  define f where "f = route_loop (routes s) a (routelist s) 0 None"
  have m: "longest_match (routes s) a (routelist s) f"
    using route_loop_longest [of "routes s" a "[]" None 0 "routelist s"] assms(2)
    by (simp add: f_def longest_match_def)
  show ?thesis
  proof (cases f)
    case None
    with m show ?thesis by (simp add: uip_ds6_route_lookup_def f_def [symmetric])
  next
    case (Some r)
    have nr: "r \<notin> set (remove1 r (routelist s))" using assms(1) by simp
    show ?thesis
    proof (cases "first_of (routelist s) = Some r")
      case True
      then obtain rs where "routelist s = r # rs" by (auto simp: first_of_Some)
      have "uip_ds6_route_lookup a s = (s, Some r)"
        using True Some unfolding uip_ds6_route_lookup_def f_def [symmetric] by simp
      with m Some \<open>routelist s = r # rs\<close> show ?thesis by simp
    next
      case False
      with m Some nr show ?thesis
        by (simp add: uip_ds6_route_lookup_def f_def [symmetric] Let_def remove1_idem)
    qed
  qed
qed


subsection \<open>The invariant of the routing table\<close>

text \<open>\<open>nr_set\<close>: the neighbour-route records in use. Every route on the list has exactly one record, on
  the list of its next hop; every next hop in the table has at least one; both pools hold exactly
  what is on the lists and \<open>num_routes\<close> counts the routes.\<close>

definition nr_set :: "'a ds6_state_scheme \<Rightarrow> nat set" where
  "nr_set s = (\<Union>i \<in> set (nbr_items s NBR_ROUTES). set (route_list (nbr_routes s i)))"

definition route_wf :: "'a ds6_state_scheme \<Rightarrow> bool" where
  "route_wf s \<longleftrightarrow> nbr_wf s \<and> t_index (tabs s NBR_ROUTES) < 8 \<and>
     distinct (routelist s) \<and> unit_pool (routememb s) \<and> memb_used (routememb s) = set (routelist s) \<and>
     unit_pool (neighborroutememb s) \<and> memb_used (neighborroutememb s) = nr_set s \<and>
     num_routes s = int (length (routelist s)) \<and>
     (\<forall>i \<in> set (nbr_items s NBR_ROUTES). rl_init (nbr_routes s i) \<and> distinct (route_list (nbr_routes s i)) \<and>
        route_list (nbr_routes s i) \<noteq> [] \<and>
        (\<forall>n \<in> set (route_list (nbr_routes s i)).
           neighbor_routes (routes s (nbrr_route s n)) = Some i)) \<and>
     bij_betw (nbrr_route s) (nr_set s) (set (routelist s))"

lemma remove_Some_eq:
  "fst (nbr_table_remove t (Some i) s) =
     s\<lparr>used_map := fst (nbr_set_bit (used_map s) s t (Some i) False),
       locked_map := fst (nbr_set_bit (locked_map s) s t (Some i) False)\<rparr>"
  by (simp add: nbr_table_remove_def set_bit_Some)

lemma uses_remove:
  "t_index (tabs s t) < 8 \<Longrightarrow>
   uses (fst (nbr_table_remove t (Some i) s)) t k \<longleftrightarrow> uses s t k \<and> k \<noteq> i"
  by (auto simp: remove_Some_eq uses_def bit_set_bit)

lemma uses_remove_other:
  "t_index (tabs s t') \<noteq> t_index (tabs s t) \<Longrightarrow>
   uses (fst (nbr_table_remove t (Some i) s)) t' k \<longleftrightarrow> uses s t' k"
  by (simp add: remove_Some_eq uses_def bit_set_bit)

lemma items_remove:
  assumes "t_index (tabs s t) < 8"
  shows "nbr_items (fst (nbr_table_remove t (Some i) s)) t = filter (\<lambda>k. k \<noteq> i) (nbr_items s t)"
proof -
  have "uses (fst (nbr_table_remove t (Some i) s)) t = (\<lambda>k. uses s t k \<and> k \<noteq> i)"
    by (intro ext) (rule uses_remove [OF assms])
  moreover have "nt_keys (fst (nbr_table_remove t (Some i) s)) = nt_keys s"
    by (rule frame_keys [OF remove_frame])
  ultimately show ?thesis by (simp add: nbr_items_def conj_commute)
qed

text \<open>The pieces a valid route has.\<close>

lemma route_wf_parts:
  assumes "route_wf s" and "r \<in> set (routelist s)"
  obtains i n where "i \<in> set (nbr_items s NBR_ROUTES)" and "n \<in> set (route_list (nbr_routes s i))"
    and "nbrr_route s n = r" and "neighbor_routes (routes s r) = Some i"
proof -
  have "r \<in> nbrr_route s ` nr_set s" using assms by (auto simp: route_wf_def bij_betw_def)
  then obtain i n where i: "i \<in> set (nbr_items s NBR_ROUTES)" "n \<in> set (route_list (nbr_routes s i))"
      "nbrr_route s n = r" by (auto simp: nr_set_def)
  with assms(1) have "neighbor_routes (routes s r) = Some i" by (auto simp: route_wf_def)
  with i that show thesis by blast
qed

text \<open>Records of different next hops are different.\<close>

lemma nr_disjoint:
  assumes "route_wf s" and "i \<in> set (nbr_items s NBR_ROUTES)" and "j \<in> set (nbr_items s NBR_ROUTES)"
    and "n \<in> set (route_list (nbr_routes s i))" and "n \<in> set (route_list (nbr_routes s j))"
  shows "i = j"
proof -
  have "\<forall>i \<in> set (nbr_items s NBR_ROUTES). \<forall>n \<in> set (route_list (nbr_routes s i)).
      neighbor_routes (routes s (nbrr_route s n)) = Some i"
    using assms(1) unfolding route_wf_def by blast
  then have "neighbor_routes (routes s (nbrr_route s n)) = Some i" "neighbor_routes (routes s (nbrr_route s n)) = Some j"
    using assms(2-5) by blast+
  then show ?thesis by simp
qed

text \<open>What removing a route on the list does, field by field.\<close>

lemma route_rm_fields:
  fixes s :: "'a ds6_state_scheme"
  assumes wf: "route_wf s" and i: "i \<in> set (nbr_items s NBR_ROUTES)"
    and n: "n \<in> set (route_list (nbr_routes s i))" and r: "nbrr_route s n = r"
  defines "l \<equiv> remove1 n (route_list (nbr_routes s i))"
  shows "\<exists>s'. uip_ds6_route_rm (Some r) s = Some s' \<and> routelist s' = remove1 r (routelist s) \<and>
      routes s' = routes s \<and> nbrr_route s' = nbrr_route s \<and>
      nbr_routes s' = (nbr_routes s)(i := (nbr_routes s i)\<lparr>route_list := l\<rparr>) \<and>
      routememb s' = fst (memb_free (routememb s) r) \<and>
      neighborroutememb s' = fst (memb_free (neighborroutememb s) n) \<and>
      num_routes s' = num_routes s - 1 \<and> nbr_frame s s' \<and>
      nbr_items s' NBR_ROUTES = filter (\<lambda>k. k \<noteq> i \<or> l \<noteq> []) (nbr_items s NBR_ROUTES) \<and>
      (\<exists>ev. io s' = io s @ ev) \<and> ds6_neighbors s' = ds6_neighbors s \<and>
      (\<forall>t j. t_index (tabs s t) \<noteq> t_index (tabs s NBR_ROUTES) \<longrightarrow> uses s' t j = uses s t j)"
proof -
  have nbr: "neighbor_routes (routes s r) = Some i" and init: "rl_init (nbr_routes s i)"
    using wf i n r by (auto simp: route_wf_def)
  have inj: "inj_on (nbrr_route s) (nr_set s)" using wf by (simp add: route_wf_def bij_betw_def)
  have f: "find (\<lambda>m. nbrr_route s m = r) (route_list (nbr_routes s i)) = Some n"
  proof (rule find_unique)
    fix y
    assume "y \<in> set (route_list (nbr_routes s i))" and "nbrr_route s y = r"
    with i n r inj show "y = n" unfolding nr_set_def by (auto dest: inj_onD)
  qed (use n r in auto)
  define s2 where "s2 = set_route_list i l (s\<lparr>routelist := remove1 r (routelist s)\<rparr>)"
  define s3 where "s3 = (if l = [] then fst (nbr_table_remove NBR_ROUTES (Some i) s2) else s2)"
  define s6 where "s6 = s3\<lparr>routememb := fst (memb_free (routememb s3) r),
      neighborroutememb := fst (memb_free (neighborroutememb s3) n), num_routes := num_routes s3 - 1\<rparr>"
  have u: "route_unlink r i (Some n) s = s3"
    by (simp add: route_unlink_def s3_def s2_def l_def set_route_list_def Let_def)
  have fr: "route_free r (Some n) s3 = s6" by (simp add: route_free_def s6_def Let_def)
  have e: "uip_ds6_route_rm (Some r) s = Some (call_route_callback UIP_DS6_NOTIFICATION_ROUTE_RM
      (rt_ipaddr (routes s6 r)) (uip_ds6_route_nexthop (Some r) s6) s6)"
    using init unfolding uip_ds6_route_rm_def by (simp only: option.case nbr f Let_def u fr) simp
  have sel: "routelist s3 = remove1 r (routelist s)" "routes s3 = routes s" "nbrr_route s3 = nbrr_route s"
    "nbr_routes s3 = (nbr_routes s)(i := (nbr_routes s i)\<lparr>route_list := l\<rparr>)"
    "routememb s3 = routememb s" "neighborroutememb s3 = neighborroutememb s" "num_routes s3 = num_routes s"
    "io s3 = io s" "ds6_neighbors s3 = ds6_neighbors s"
    by (simp_all add: s3_def s2_def set_route_list_def remove_Some_eq)
  have f2: "nbr_eq s s2" by (simp add: s2_def set_route_list_def nbr_eq_def nbr_same_def)
  have f3: "nbr_frame s s3"
    using nbr_frame_trans [OF nbr_eq_frame [OF f2] remove_frame [of s2 NBR_ROUTES "Some i"]]
      nbr_eq_frame [OF f2] by (simp add: s3_def)
  have t: "t_index (tabs s2 NBR_ROUTES) < 8" using wf f2 by (simp add: route_wf_def nbr_eq_def nbr_same_def)
  have it: "nbr_items s2 NBR_ROUTES = nbr_items s NBR_ROUTES"
    using f2 by (intro items_cong) (simp_all add: nbr_eq_def)
  have items3: "nbr_items s3 NBR_ROUTES = filter (\<lambda>k. k \<noteq> i \<or> l \<noteq> []) (nbr_items s NBR_ROUTES)"
    using items_remove [OF t, of i] it by (simp add: s3_def)
  have f6: "nbr_eq s3 s6" by (simp add: s6_def nbr_eq_def nbr_same_def)
  have items6: "nbr_items s6 NBR_ROUTES = nbr_items s3 NBR_ROUTES"
    using f6 by (intro items_cong) (simp_all add: nbr_eq_def)
  let ?c = "call_route_callback UIP_DS6_NOTIFICATION_ROUTE_RM
      (rt_ipaddr (routes s6 r)) (uip_ds6_route_nexthop (Some r) s6) s6"
  have c: "nbr_eq s6 ?c" by simp
  have itemsc: "nbr_items ?c NBR_ROUTES = nbr_items s6 NBR_ROUTES"
    using c by (intro items_cong) (simp_all only: nbr_eq_def)
  have fc: "nbr_frame s ?c" by (meson c f3 f6 nbr_eq_frame nbr_frame_trans)
  have tabs: "tabs s2 = tabs s" using f2 by (simp add: nbr_eq_def nbr_same_def)
  have use: "uses ?c t j = uses s t j" if "t_index (tabs s t) \<noteq> t_index (tabs s NBR_ROUTES)" for t j
  proof -
    have "uses ?c t j = uses s3 t j"
      using nbr_eq_trans [OF f6 c] by (simp add: uses_def nbr_eq_def nbr_same_def)
    also have "\<dots> = uses s2 t j" using that uses_remove_other [of s2 t NBR_ROUTES i j] by (simp add: s3_def tabs)
    also have "\<dots> = uses s t j" using f2 by (simp add: uses_def nbr_eq_def nbr_same_def)
    finally show ?thesis .
  qed
  show ?thesis unfolding e
    using fc use sel items3 items6 itemsc by (simp add: s6_def call_route_callback_eq)
qed


lemma bij_betw_remove: "bij_betw f A B \<Longrightarrow> a \<in> A \<Longrightarrow> bij_betw f (A - {a}) (B - {f a})"
  unfolding bij_betw_def by (auto simp: inj_on_diff inj_on_image_set_diff [of f A A] dest: inj_onD)

lemma route_wf_item:
  "route_wf s \<Longrightarrow> i \<in> set (nbr_items s NBR_ROUTES) \<Longrightarrow>
     rl_init (nbr_routes s i) \<and> distinct (route_list (nbr_routes s i)) \<and> route_list (nbr_routes s i) \<noteq> [] \<and>
     (\<forall>n \<in> set (route_list (nbr_routes s i)). neighbor_routes (routes s (nbrr_route s n)) = Some i)"
  unfolding route_wf_def by blast

lemma route_rm_wf:
  fixes s :: "'a ds6_state_scheme"
  assumes wf: "route_wf s" and r: "r \<in> set (routelist s)"
  shows "\<exists>s' i n. uip_ds6_route_rm (Some r) s = Some s' \<and> route_wf s' \<and> nbr_frame s s' \<and>
      routelist s' = remove1 r (routelist s) \<and> routes s' = routes s \<and>
      neighbor_routes (routes s r) = Some i \<and> nbrr_route s n = r \<and> nbrr_route s' = nbrr_route s \<and>
      n \<in> set (route_list (nbr_routes s i)) \<and> i \<in> set (nbr_items s NBR_ROUTES) \<and>
      nbr_routes s' = (nbr_routes s)(i := (nbr_routes s i)\<lparr>route_list := remove1 n (route_list (nbr_routes s i))\<rparr>) \<and>
      mnum (routememb s') = mnum (routememb s) \<and> mnum (neighborroutememb s') = mnum (neighborroutememb s) \<and>
      ds6_neighbors s' = ds6_neighbors s \<and>
      (\<forall>t j. t_index (tabs s t) \<noteq> t_index (tabs s NBR_ROUTES) \<longrightarrow> uses s' t j = uses s t j)"
proof -
  from route_wf_parts [OF wf r] obtain i n where i: "i \<in> set (nbr_items s NBR_ROUTES)"
    and n: "n \<in> set (route_list (nbr_routes s i))" and rn: "nbrr_route s n = r"
    and nb: "neighbor_routes (routes s r) = Some i" by blast
  let ?l = "remove1 n (route_list (nbr_routes s i))"
  from route_rm_fields [OF wf i n rn] obtain s' where s': "uip_ds6_route_rm (Some r) s = Some s'"
    and rl: "routelist s' = remove1 r (routelist s)" and rt: "routes s' = routes s"
    and nrr: "nbrr_route s' = nbrr_route s"
    and nr: "nbr_routes s' = (nbr_routes s)(i := (nbr_routes s i)\<lparr>route_list := ?l\<rparr>)"
    and rm: "routememb s' = fst (memb_free (routememb s) r)"
    and nm: "neighborroutememb s' = fst (memb_free (neighborroutememb s) n)"
    and num: "num_routes s' = num_routes s - 1" and fr: "nbr_frame s s'"
    and it: "nbr_items s' NBR_ROUTES = filter (\<lambda>k. k \<noteq> i \<or> ?l \<noteq> []) (nbr_items s NBR_ROUTES)"
    and dn: "ds6_neighbors s' = ds6_neighbors s"
    and us: "\<forall>t j. t_index (tabs s t) \<noteq> t_index (tabs s NBR_ROUTES) \<longrightarrow> uses s' t j = uses s t j"
    by blast
  have d: "distinct (route_list (nbr_routes s i))" and dr: "distinct (routelist s)"
    using route_wf_item [OF wf i] wf by (auto simp: route_wf_def)
  have nset: "nr_set s' = nr_set s - {n}"
  proof -
    have other: "n \<notin> set (route_list (nbr_routes s j))" if "j \<in> set (nbr_items s NBR_ROUTES)" "j \<noteq> i" for j
      using nr_disjoint [OF wf i that(1) n] that(2) by blast
    show ?thesis
    proof (intro set_eqI iffI)
      fix x
      assume "x \<in> nr_set s'"
      then obtain j where j: "j \<in> set (nbr_items s NBR_ROUTES)" "x \<in> set (route_list (nbr_routes s' j))"
        by (auto simp: nr_set_def it)
      with other [of j] d nr show "x \<in> nr_set s - {n}"
        by (cases "j = i") (auto simp: nr_set_def)
    next
      fix x
      assume "x \<in> nr_set s - {n}"
      then obtain j where j: "j \<in> set (nbr_items s NBR_ROUTES)" "x \<in> set (route_list (nbr_routes s j))" "x \<noteq> n"
        by (auto simp: nr_set_def)
      then have x: "x \<in> set (route_list (nbr_routes s' j))" using nr d by auto
      moreover have "j \<in> set (nbr_items s' NBR_ROUTES)" using j x nr by (auto simp: it)
      ultimately show "x \<in> nr_set s'" by (auto simp: nr_set_def)
    qed
  qed
  have nin: "n \<in> nr_set s" using i n by (auto simp: nr_set_def)
  have "bij_betw (nbrr_route s) (nr_set s - {n}) (set (routelist s) - {nbrr_route s n})"
    using wf nin by (intro bij_betw_remove) (auto simp: route_wf_def)
  then have bij: "bij_betw (nbrr_route s') (nr_set s') (set (routelist s'))"
    using nset nrr rl dr rn by simp
  have rmem: "unit_pool (routememb s') \<and> memb_used (routememb s') = set (routelist s') \<and>
      mnum (routememb s') = mnum (routememb s)"
    using unit_pool_free [of "routememb s" r] wf r rm rl dr by (simp add: route_wf_def)
  have nmem: "unit_pool (neighborroutememb s') \<and> memb_used (neighborroutememb s') = nr_set s' \<and>
      mnum (neighborroutememb s') = mnum (neighborroutememb s)"
    using unit_pool_free [of "neighborroutememb s" n] wf nin nm nset by (simp add: route_wf_def)
  have items: "rl_init (nbr_routes s' j) \<and> distinct (route_list (nbr_routes s' j)) \<and>
      route_list (nbr_routes s' j) \<noteq> [] \<and>
      (\<forall>m \<in> set (route_list (nbr_routes s' j)). neighbor_routes (routes s' (nbrr_route s' m)) = Some j)"
    if "j \<in> set (nbr_items s' NBR_ROUTES)" for j
    using route_wf_item [OF wf, of j] that it nr rt nrr d by (auto dest: notin_set_remove1)
  have len: "num_routes s' = int (length (routelist s'))"
  proof -
    have "length (routelist s) = Suc (length (routelist s'))"
      using rl r length_pos_if_in_set [OF r] by (simp add: length_remove1)
    moreover have "num_routes s = int (length (routelist s))" using wf by (simp add: route_wf_def)
    ultimately show ?thesis using num by simp
  qed
  have "route_wf s'"
    unfolding route_wf_def using frame_wf [OF fr] wf fr dr rl bij rmem nmem items len
    by (auto simp: route_wf_def nbr_frame_def nbr_same_def)
  with s' fr rl rt nb rn nrr n i nr rmem nmem dn us show ?thesis by blast
qed

text \<open>\<open>rm_routelist\<close> ends: every round takes one record off the list of the next hop.\<close>

lemma rm_routelist_loop_ends:
  fixes s :: "'a ds6_state_scheme"
  assumes "route_wf s" and "route_list (nbr_routes s i) = [] \<or> i \<in> set (nbr_items s NBR_ROUTES)"
  shows "\<exists>s'. rm_routelist_loop i s = Some s' \<and> route_wf s' \<and> nbr_frame s s' \<and>
      route_list (nbr_routes s' i) = [] \<and> routes s' = routes s \<and>
      set (routelist s') = set (routelist s) - nbrr_route s ` set (route_list (nbr_routes s i)) \<and>
      routelist s' = filter (\<lambda>r. r \<notin> nbrr_route s ` set (route_list (nbr_routes s i))) (routelist s)"
  using assms
proof (induction "length (route_list (nbr_routes s i))" arbitrary: s rule: less_induct)
  case less
  show ?case
  proof (cases "route_list (nbr_routes s i)")
    case Nil
    with less.prems show ?thesis by (subst rm_routelist_loop.simps) simp
  next
    case (Cons n ns)
    with less.prems have i: "i \<in> set (nbr_items s NBR_ROUTES)" by simp
    have n: "n \<in> set (route_list (nbr_routes s i))" using Cons by simp
    have nr: "n \<in> nr_set s" using i n by (auto simp: nr_set_def)
    have bij: "bij_betw (nbrr_route s) (nr_set s) (set (routelist s))"
      using less.prems by (simp add: route_wf_def)
    then have r: "nbrr_route s n \<in> set (routelist s)" using nr by (auto simp: bij_betw_def)
    from route_rm_wf [OF less.prems(1) r] obtain s1 j m where
      s1: "uip_ds6_route_rm (Some (nbrr_route s n)) s = Some s1" "route_wf s1" "nbr_frame s s1"
      "routelist s1 = remove1 (nbrr_route s n) (routelist s)" "routes s1 = routes s"
      and jm: "neighbor_routes (routes s (nbrr_route s n)) = Some j" "nbrr_route s m = nbrr_route s n"
      "nbrr_route s1 = nbrr_route s" "m \<in> set (route_list (nbr_routes s j))" "j \<in> set (nbr_items s NBR_ROUTES)"
      "nbr_routes s1 = (nbr_routes s)(j := (nbr_routes s j)\<lparr>route_list := remove1 m (route_list (nbr_routes s j))\<rparr>)"
      by blast
    have "j = i" using jm(1) route_wf_item [OF less.prems(1) i] n by simp
    moreover have "m \<in> nr_set s" using jm(4,5) by (auto simp: nr_set_def)
    ultimately have "m = n" using jm(2) nr bij by (auto simp: bij_betw_def dest: inj_onD)
    with \<open>j = i\<close> jm(6) Cons have l1: "route_list (nbr_routes s1 i) = ns" by simp
    have pre: "route_list (nbr_routes s1 i) = [] \<or> i \<in> set (nbr_items s1 NBR_ROUTES)"
    proof (cases "ns = []")
      case True
      with l1 show ?thesis by simp
    next
      case False
      then obtain x where x: "x \<in> set ns" by (cases ns) auto
      have "nbrr_route s x \<in> set (routelist s1)"
      proof -
        have xs: "x \<in> nr_set s" unfolding nr_set_def using x Cons i by (intro UN_I [of i]) simp_all
        have "x \<noteq> n" using route_wf_item [OF less.prems(1) i] Cons x by auto
        then have "nbrr_route s x \<noteq> nbrr_route s n" using bij xs nr by (auto simp: bij_betw_def dest: inj_onD)
        moreover have "nbrr_route s x \<in> set (routelist s)" using bij xs by (auto simp: bij_betw_def)
        ultimately show ?thesis using s1(4) by simp
      qed
      from route_wf_parts [OF s1(2) this] obtain k y where k: "k \<in> set (nbr_items s1 NBR_ROUTES)"
        "neighbor_routes (routes s1 (nbrr_route s x)) = Some k" by metis
      moreover have "neighbor_routes (routes s (nbrr_route s x)) = Some i"
        using route_wf_item [OF less.prems(1) i] x Cons by simp
      ultimately show ?thesis using s1(5) by simp
    qed
    have "length (route_list (nbr_routes s1 i)) < length (route_list (nbr_routes s i))"
      using l1 Cons by simp
    from less.hyps [OF this s1(2) pre] obtain s' where s': "rm_routelist_loop i s1 = Some s'" "route_wf s'"
      "nbr_frame s1 s'" "route_list (nbr_routes s' i) = []" "routes s' = routes s1"
      "set (routelist s') = set (routelist s1) - nbrr_route s1 ` set (route_list (nbr_routes s1 i))"
      "routelist s' = filter (\<lambda>r. r \<notin> nbrr_route s1 ` set (route_list (nbr_routes s1 i))) (routelist s1)" by blast
    have "rm_routelist_loop i s = Some s'"
      using Cons s1(1) s'(1) by (subst rm_routelist_loop.simps) simp
    moreover have "set (routelist s1) = set (routelist s) - {nbrr_route s n}"
      using s1(4) less.prems(1) by (simp add: route_wf_def)
    moreover have "routelist s1 = filter (\<lambda>r. r \<noteq> nbrr_route s n) (routelist s)"
      using s1(4) less.prems(1) by (simp add: route_wf_def distinct_remove1_removeAll removeAll_filter_not_eq eq_commute)
    then have "routelist s' = filter (\<lambda>r. r \<notin> nbrr_route s ` set (route_list (nbr_routes s i))) (routelist s)"
      using s'(7) l1 Cons by (auto simp: jm(3) intro!: filter_cong)
    ultimately show ?thesis
      using s' s1 jm(3) l1 Cons nbr_frame_trans [OF s1(3) s'(3)] by auto
  qed
qed


subsection \<open>Adding a route\<close>

text \<open>The invariant with next hop \<open>i\<close> allowed to have no record yet: the state between claiming the
  entry of the next hop and installing the route.\<close>

definition route_wf_open :: "nat \<Rightarrow> 'a ds6_state_scheme \<Rightarrow> bool" where
  "route_wf_open i s \<longleftrightarrow> nbr_wf s \<and> t_index (tabs s NBR_ROUTES) < 8 \<and> i \<in> set (nbr_items s NBR_ROUTES) \<and>
     distinct (routelist s) \<and> unit_pool (routememb s) \<and> memb_used (routememb s) = set (routelist s) \<and>
     unit_pool (neighborroutememb s) \<and> memb_used (neighborroutememb s) = nr_set s \<and>
     num_routes s = int (length (routelist s)) \<and>
     (\<forall>j \<in> set (nbr_items s NBR_ROUTES). rl_init (nbr_routes s j) \<and> distinct (route_list (nbr_routes s j)) \<and>
        (j \<noteq> i \<longrightarrow> route_list (nbr_routes s j) \<noteq> []) \<and>
        (\<forall>n \<in> set (route_list (nbr_routes s j)).
           neighbor_routes (routes s (nbrr_route s n)) = Some j)) \<and>
     bij_betw (nbrr_route s) (nr_set s) (set (routelist s))"

lemma route_wf_openI: "route_wf s \<Longrightarrow> i \<in> set (nbr_items s NBR_ROUTES) \<Longrightarrow> route_wf_open i s"
  unfolding route_wf_def route_wf_open_def by blast

lemma lock_Some_eq:
  "fst (nbr_table_lock t (Some i) s) = s\<lparr>locked_map := fst (nbr_set_bit (locked_map s) s t (Some i) True)\<rparr>"
  by (simp add: nbr_table_lock_def set_bit_Some)

lemma route_all_fields:
  "x\<lparr>neighbor_routes := a, rt_ipaddr := b, rt_length := d, rt_state := c\<rparr> =
     (\<lparr>neighbor_routes = a, rt_ipaddr = b, rt_state = c, rt_length = d\<rparr> :: uip_ds6_route)"
  by (cases x) simp

text \<open>Installing the route, field by field, when both pools have room.\<close>

lemma route_install_fields:
  fixes s :: "'a ds6_state_scheme" and ip len nexthop i
  assumes rm: "memb_alloc (routememb s) = (rm, Some r)" and nm: "memb_alloc (neighborroutememb s) = (nm, Some n)"
  defines "s' \<equiv> fst (route_install ip len nexthop i s)"
  shows "snd (route_install ip len nexthop i s) = Some r \<and>
      routememb s' = rm \<and> neighborroutememb s' = nm \<and> routelist s' = r # remove1 r (routelist s) \<and>
      nbrr_route s' = (nbrr_route s)(n := r) \<and>
      nbr_routes s' = (nbr_routes s)(i := (nbr_routes s i)\<lparr>route_list := remove1 n (route_list (nbr_routes s i)) @ [n]\<rparr>) \<and>
      routes s' = (routes s)(r := \<lparr>neighbor_routes = Some i, rt_ipaddr = ip,
          rt_state = \<lparr>re_lifetime = 0, re_dag = None, dao_seqno_out = 0, dao_seqno_in = 0, state_flags = 0\<rparr>,
          rt_length = len\<rparr>) \<and>
      num_routes s' = num_routes s + 1 \<and> nbr_frame s s' \<and> used_map s' = used_map s \<and>
      ds6_neighbors s' = ds6_neighbors s"
proof -
  define s2 where "s2 = s\<lparr>routememb := rm, routelist := r # remove1 r (routelist s),
      neighborroutememb := nm, nbrr_route := (nbrr_route s)(n := r)\<rparr>"
  define s4 where "s4 = set_route r ((routes s r)\<lparr>neighbor_routes := Some i\<rparr>)
      (set_route_list i (remove1 n (route_list (nbr_routes s i)) @ [n]) s2)"
  define s5 where "s5 = fst (nbr_table_lock NBR_ROUTES (Some i) (s4\<lparr>num_routes := num_routes s4 + 1\<rparr>))"
  define s6 where "s6 = set_route r ((routes s5 r)\<lparr>rt_ipaddr := ip, rt_length := len,
      rt_state := \<lparr>re_lifetime = 0, re_dag = None, dao_seqno_out = 0, dao_seqno_in = 0, state_flags = 0\<rparr>\<rparr>) s5"
  have e: "route_install ip len nexthop i s =
      (call_route_callback UIP_DS6_NOTIFICATION_ROUTE_ADD ip (Some nexthop) s6, Some r)"
    unfolding route_install_def s6_def s5_def s4_def s2_def
    by (simp add: rm nm Let_def set_route_list_def set_route_def)
  show ?thesis
    unfolding s'_def e
    by (simp add: call_route_callback_eq s6_def s5_def s4_def s2_def set_route_def set_route_list_def
        lock_Some_eq nbr_frame_def nbr_same_def route_all_fields)
qed

lemma route_install_wf:
  fixes s :: "'a ds6_state_scheme"
  assumes wf: "route_wf_open i s" and room: "length (routelist s) < mnum (routememb s)"
    and room': "mnum (neighborroutememb s) = mnum (routememb s)"
  shows "\<exists>s' r. route_install ip len nexthop i s = (s', Some r) \<and> route_wf s' \<and> r \<notin> set (routelist s) \<and>
      routelist s' = r # routelist s \<and> nbr_frame s s' \<and> used_map s' = used_map s \<and>
      ds6_neighbors s' = ds6_neighbors s \<and> neighbor_routes (routes s' r) = Some i \<and>
      rt_ipaddr (routes s' r) = ip \<and> rt_length (routes s' r) = len \<and> (\<forall>q. q \<noteq> r \<longrightarrow> routes s' q = routes s q)"
proof -
  note w = wf [unfolded route_wf_open_def]
  have bij: "bij_betw (nbrr_route s) (nr_set s) (set (routelist s))" using w by blast
  have c: "card (set (routelist s)) = length (routelist s)" using w distinct_card by blast
  have cn: "card (nr_set s) = length (routelist s)" using bij_betw_same_card [OF bij] c by simp
  from unit_pool_room [of "routememb s"] w room c obtain rm r where rm: "memb_alloc (routememb s) = (rm, Some r)"
    by auto
  from unit_pool_room [of "neighborroutememb s"] w room room' cn obtain nm n where
    nm: "memb_alloc (neighborroutememb s) = (nm, Some n)" by auto
  from unit_pool_alloc [OF _ rm] w have R: "unit_pool rm" "memb_used rm = insert r (set (routelist s))"
    "r \<notin> set (routelist s)" by auto
  from unit_pool_alloc [OF _ nm] w have N: "unit_pool nm" "memb_used nm = insert n (nr_set s)" "n \<notin> nr_set s"
    by auto
  define s' where "s' = fst (route_install ip len nexthop i s)"
  note F = route_install_fields [OF rm nm, of ip len nexthop i, folded s'_def]
  have i: "i \<in> set (nbr_items s NBR_ROUTES)" using w by blast
  have items: "nbr_items s' NBR_ROUTES = nbr_items s NBR_ROUTES"
    using F by (intro items_cong) (simp_all add: nbr_frame_def)
  have ni: "n \<notin> set (route_list (nbr_routes s j))" if "j \<in> set (nbr_items s NBR_ROUTES)" for j
    using N(3) that by (auto simp: nr_set_def)
  have rl: "route_list (nbr_routes s' i) = route_list (nbr_routes s i) @ [n]"
    "\<And>j. j \<noteq> i \<Longrightarrow> nbr_routes s' j = nbr_routes s j"
    using F ni [OF i] by (simp_all add: remove1_idem)
  have init: "rl_init (nbr_routes s' i) = rl_init (nbr_routes s i)" using F by simp
  have nset: "nr_set s' = insert n (nr_set s)"
  proof (intro set_eqI iffI)
    fix x
    assume "x \<in> nr_set s'"
    then obtain j where j: "j \<in> set (nbr_items s NBR_ROUTES)" "x \<in> set (route_list (nbr_routes s' j))"
      by (auto simp: nr_set_def items)
    with rl show "x \<in> insert n (nr_set s)" by (cases "j = i") (auto simp: nr_set_def)
  next
    fix x
    assume "x \<in> insert n (nr_set s)"
    then consider "x = n" | j where "j \<in> set (nbr_items s NBR_ROUTES)" "x \<in> set (route_list (nbr_routes s j))"
      by (auto simp: nr_set_def)
    then show "x \<in> nr_set s'"
    proof cases
      case 1
      with rl(1) have "x \<in> set (route_list (nbr_routes s' i))" by simp
      with i show ?thesis unfolding nr_set_def items by blast
    next
      case 2
      with rl have "x \<in> set (route_list (nbr_routes s' j))" by (cases "j = i") auto
      with 2 show ?thesis unfolding nr_set_def items by blast
    qed
  qed
  have same: "nbrr_route s' m = nbrr_route s m" if "m \<in> nr_set s" for m
    using F N(3) that by auto
  have rl': "routelist s' = r # routelist s" using F R(3) by (simp add: remove1_idem)
  have "bij_betw (nbrr_route s') (nr_set s) (set (routelist s))"
    using bij same bij_betw_cong by blast
  moreover have "nbrr_route s' n = r" using F by simp
  ultimately have bij': "bij_betw (nbrr_route s') (nr_set s') (set (routelist s'))"
    using R(3) N(3) unfolding nset rl' by (auto simp: bij_betw_def)
  have item: "rl_init (nbr_routes s' j) \<and> distinct (route_list (nbr_routes s' j)) \<and> route_list (nbr_routes s' j) \<noteq> [] \<and>
      (\<forall>m \<in> set (route_list (nbr_routes s' j)). neighbor_routes (routes s' (nbrr_route s' m)) = Some j)"
    if j: "j \<in> set (nbr_items s NBR_ROUTES)" for j
  proof -
    have old: "rl_init (nbr_routes s j) \<and> distinct (route_list (nbr_routes s j)) \<and>
        (j \<noteq> i \<longrightarrow> route_list (nbr_routes s j) \<noteq> []) \<and>
        (\<forall>n \<in> set (route_list (nbr_routes s j)). neighbor_routes (routes s (nbrr_route s n)) = Some j)"
      using w j by blast
    have keep: "neighbor_routes (routes s' (nbrr_route s' m)) = Some j" if m: "m \<in> set (route_list (nbr_routes s j))" for m
    proof -
      have mn: "m \<in> nr_set s" using m j by (auto simp: nr_set_def)
      then have "nbrr_route s m \<in> set (routelist s)" using bij by (auto simp: bij_betw_def)
      with R(3) have "nbrr_route s m \<noteq> r" by blast
      with F same [OF mn] old m show ?thesis by simp
    qed
    show ?thesis
    proof (cases "j = i")
      case True
      with old keep rl init F ni [OF i] show ?thesis by auto
    next
      case False
      with old keep rl show ?thesis by simp
    qed
  qed
  have "route_wf s'"
    unfolding route_wf_def items using frame_wf [of s s'] F w rl' bij' item nset R N
    by (auto simp: nbr_frame_def nbr_same_def)
  with F rl' R(3) show ?thesis
    by (intro exI [of _ s'] exI [of _ r]) (simp add: s'_def prod_eq_iff)
qed


text \<open>The environment the routing table needs: the callback laws, and that clearing an item of
  \<open>nbr_routes\<close> (the \<open>memset\<close> of \<open>nbr_table_add_lladdr\<close>) empties just that item.\<close>

locale route_env = nbr_callbacks env
  for env :: "('a ds6_state_scheme, 'd option) nbr_env" +
  assumes clear_routes: "env_clear env NBR_ROUTES k s =
      s\<lparr>nbr_routes := (nbr_routes s)(k := \<lparr>rl_init = False, route_list = []\<rparr>)\<rparr>"
begin

lemma nexthop_routes_open:
  fixes s :: "'a ds6_state_scheme"
  assumes wf: "route_wf s" and k: "k \<in> set (nt_keys s)" "nt_lladdr s k = ll"
  shows "\<exists>s'. nexthop_routes env ll s = Some (s', Some k) \<and> route_wf_open k s' \<and>
      routelist s' = routelist s \<and> routes s' = routes s \<and> routememb s' = routememb s \<and>
      neighborroutememb s' = neighborroutememb s \<and> ds6_neighbors s' = ds6_neighbors s \<and>
      nt_keys s' = nt_keys s \<and> nt_lladdr s' = nt_lladdr s \<and> tabs s' = tabs s \<and>
      (\<forall>t j. t_index (tabs s t) \<noteq> t_index (tabs s NBR_ROUTES) \<longrightarrow> uses s' t j = uses s t j)"
proof -
  have nw: "nbr_wf s" and t: "t_index (tabs s NBR_ROUTES) < 8" using wf by (auto simp: route_wf_def)
  have fnd: "find (\<lambda>k. nt_lladdr s k = ll) (nt_keys s) = Some k" using find_lladdr_iff [OF nw] k by blast
  show ?thesis
  proof (cases "uses s NBR_ROUTES k")
    case True
    then have "nexthop_routes env ll s = Some (s, Some k)"
      using fnd by (simp add: nexthop_routes_def get_from_lladdr_eq)
    moreover have "k \<in> set (nbr_items s NBR_ROUTES)" using True k by (simp add: nbr_items_def)
    ultimately show ?thesis using route_wf_openI [OF wf] by blast
  next
    case False
    define s1 where "s1 = claimed env NBR_ROUTES k s"
    define s' where "s' = s1\<lparr>nbr_routes := (nbr_routes s1)(k := \<lparr>rl_init = True, route_list = []\<rparr>)\<rparr>"
    have e: "nexthop_routes env ll s = Some (s', Some k)"
      using False fnd add_known [OF fnd] unfolding s'_def s1_def
      by (simp add: nexthop_routes_def get_from_lladdr_eq)
    note cl = claim_item [OF nw t k(1) s1_def]
    have sel: "routelist s' = routelist s" "routes s' = routes s" "routememb s' = routememb s"
      "neighborroutememb s' = neighborroutememb s" "ds6_neighbors s' = ds6_neighbors s"
      "nbrr_route s' = nbrr_route s" "num_routes s' = num_routes s"
      "nbr_routes s' = (nbr_routes s)(k := \<lparr>rl_init = True, route_list = []\<rparr>)"
      "nt_keys s' = nt_keys s1" "nt_lladdr s' = nt_lladdr s1" "tabs s' = tabs s1" "used_map s' = used_map s1"
      by (simp_all add: s'_def s1_def claimed_def clear_routes)
    have "nbr_eq s1 s'" by (simp add: s'_def nbr_eq_def nbr_same_def)
    then have nw': "nbr_wf s'" using cl frame_wf nbr_eq_frame by blast
    have tabs: "tabs s' = tabs s" "nt_keys s' = nt_keys s" "nt_lladdr s' = nt_lladdr s" using sel cl by simp_all
    have use: "bit (used_map s' j) i \<longleftrightarrow> bit (used_map s j) i \<or> (j = k \<and> i = t_index (tabs s NBR_ROUTES))" for j i
      using cl sel by simp
    have items: "set (nbr_items s' NBR_ROUTES) = insert k (set (nbr_items s NBR_ROUTES))"
      using k(1) by (auto simp: nbr_items_def uses_def tabs use)
    have k': "k \<notin> set (nbr_items s NBR_ROUTES)" using False by (simp add: nbr_items_def)
    have nset: "nr_set s' = nr_set s"
    proof -
      have "route_list (nbr_routes s' j) = route_list (nbr_routes s j)" if "j \<in> set (nbr_items s NBR_ROUTES)" for j
        using that k' sel(8) by auto
      moreover have "route_list (nbr_routes s' k) = []" using sel(8) by simp
      ultimately show ?thesis unfolding nr_set_def items by simp
    qed
    have it: "rl_init (nbr_routes s' j) \<and> distinct (route_list (nbr_routes s' j)) \<and>
        (j \<noteq> k \<longrightarrow> route_list (nbr_routes s' j) \<noteq> []) \<and>
        (\<forall>n \<in> set (route_list (nbr_routes s' j)). neighbor_routes (routes s' (nbrr_route s' n)) = Some j)"
      if "j \<in> set (nbr_items s' NBR_ROUTES)" for j
      using that route_wf_item [OF wf, of j] sel items by (cases "j = k") auto
    have "route_wf_open k s'"
      unfolding route_wf_open_def using wf nw' t tabs items nset it sel by (auto simp: route_wf_def)
    with e sel tabs use show ?thesis by (auto simp: uses_def)
  qed
qed


text \<open>The whole of \<open>uip_ds6_route_add\<close>, with the next hop in the neighbour cache.\<close>

lemma route_add_wf:
  fixes s :: "'a ds6_state_scheme"
  assumes wf: "route_wf s" and len: "\<forall>r \<in> set (routelist s). rt_length (routes s r) \<le> 128"
    and m: "mnum (routememb s) = 70" "mnum (neighborroutememb s) = 70"
    and nh: "uip_ds6_nbr_lookup (Some nexthop) s = Some b"
    and ix: "t_index (tabs s DS6_NEIGHBORS) \<noteq> t_index (tabs s NBR_ROUTES)"
  shows "\<exists>s' p. uip_ds6_route_add env ip l nexthop s = Some (s', p) \<and> route_wf s' \<and>
      (case p of None \<Rightarrow> num_routes s' = 70
       | Some r \<Rightarrow> r \<in> set (routelist s') \<and> uip_ds6_route_nexthop (Some r) s' = Some nexthop)"
proof -
  obtain s1 f where lk: "uip_ds6_route_lookup ip s = (s1, f)" by force
  have dist: "distinct (routelist s)" using wf by (simp add: route_wf_def)
  from route_lookup_eq [OF dist len, of ip] lk
  have f: "longest_match (routes s) ip (routelist s) f"
    and s1: "s1 = s\<lparr>routelist := (case f of None \<Rightarrow> routelist s | Some q \<Rightarrow> q # remove1 q (routelist s))\<rparr>"
    by simp_all
  have fin: "q \<in> set (routelist s)" if "f = Some q" for q using f that by (simp add: longest_match_def)
  have set1: "set (routelist s1) = set (routelist s)" "distinct (routelist s1)"
      "length (routelist s1) = length (routelist s)"
    using dist fin length_pos_if_in_set [of _ "routelist s"] unfolding s1
    by (auto split: option.splits simp: length_remove1)
  have eq1: "nbr_eq s s1" by (simp add: s1 nbr_eq_def nbr_same_def)
  have it1: "nbr_items s1 t = nbr_items s t" for t using eq1 by (intro items_cong) (simp_all add: nbr_eq_def)
  have sel1: "routes s1 = routes s" "routememb s1 = routememb s" "neighborroutememb s1 = neighborroutememb s"
    "nbr_routes s1 = nbr_routes s" "nbrr_route s1 = nbrr_route s" "num_routes s1 = num_routes s"
    "ds6_neighbors s1 = ds6_neighbors s" "tabs s1 = tabs s" "nt_keys s1 = nt_keys s" "nt_lladdr s1 = nt_lladdr s"
    by (simp_all add: s1)
  have wf1: "route_wf s1"
    using wf set1 frame_wf [OF nbr_eq_frame [OF eq1]] unfolding route_wf_def
    by (simp only: nr_set_def it1 sel1 simp_thms) blast
  have bset: "b \<in> set (nbr_items s DS6_NEIGHBORS)" and bip: "nb_ipaddr (ds6_neighbors s b) = nexthop"
    using nbr_lookup_Some [OF nh] by auto
  have ll: "uip_ds6_nbr_lladdr_from_ipaddr (Some nexthop) s = Some (nt_lladdr s b)"
    by (simp add: uip_ds6_nbr_lladdr_from_ipaddr_def nh uip_ds6_nbr_get_ll_def nbr_table_get_lladdr_def)
  show ?thesis
  proof (cases "f \<noteq> None \<and> uip_ds6_route_nexthop f s1 = Some nexthop")
    case True
    then obtain q where q: "f = Some q" by blast
    have "uip_ds6_route_add env ip l nexthop s = Some (s1, f)"
      using True by (simp add: uip_ds6_route_add_def ll lk)
    with True q wf1 fin set1 show ?thesis by auto
  next
    case False
    have "\<exists>s2. uip_ds6_route_rm f s1 = Some s2 \<and> route_wf s2 \<and> nbr_frame s1 s2 \<and>
        mnum (routememb s2) = 70 \<and> mnum (neighborroutememb s2) = 70 \<and> ds6_neighbors s2 = ds6_neighbors s \<and>
        uses s2 DS6_NEIGHBORS b"
    proof (cases f)
      case None
      with wf1 m bset sel1 eq1 show ?thesis
        by (simp add: uip_ds6_route_rm_def nbr_items_def uses_def nbr_eq_def)
    next
      case (Some q)
      with fin set1 have "q \<in> set (routelist s1)" by simp
      from route_rm_wf [OF wf1 this] Some m bset sel1 eq1 ix show ?thesis
        by (fastforce simp: nbr_items_def uses_def nbr_eq_def)
    qed
    then obtain s2 where s2: "uip_ds6_route_rm f s1 = Some s2" "route_wf s2" "nbr_frame s1 s2"
      "mnum (routememb s2) = 70" "mnum (neighborroutememb s2) = 70" "ds6_neighbors s2 = ds6_neighbors s"
      "uses s2 DS6_NEIGHBORS b" by blast
    have k2: "nt_keys s2 = nt_keys s" "nt_lladdr s2 = nt_lladdr s" "tabs s2 = tabs s"
      using s2(3) sel1 by (auto simp: nbr_frame_def nbr_same_def)
    show ?thesis
    proof (cases "num_routes s2 = 70")
      case True
      then have "uip_ds6_route_add env ip l nexthop s = Some (s2, None)"
        using False s2 by (auto simp: uip_ds6_route_add_def ll lk uip_ds6_route_num_routes_def UIP_DS6_ROUTE_NB_def)
      with True s2 show ?thesis by auto
    next
      case notfull: False
      have bk: "b \<in> set (nt_keys s2)" "nt_lladdr s2 b = nt_lladdr s b"
        using bset k2 by (auto simp: nbr_items_def)
      from nexthop_routes_open [OF s2(2) bk] obtain s3 where
        s3: "nexthop_routes env (nt_lladdr s b) s2 = Some (s3, Some b)" "route_wf_open b s3"
        "routelist s3 = routelist s2" "routememb s3 = routememb s2" "neighborroutememb s3 = neighborroutememb s2"
        "ds6_neighbors s3 = ds6_neighbors s2" "tabs s3 = tabs s2" "nt_keys s3 = nt_keys s2" "nt_lladdr s3 = nt_lladdr s2"
        "\<forall>t j. t_index (tabs s2 t) \<noteq> t_index (tabs s2 NBR_ROUTES) \<longrightarrow> uses s3 t j = uses s2 t j" by blast
      have "memb_used (routememb s2) = set (routelist s2)" "distinct (routelist s2)"
        "num_routes s2 = int (length (routelist s2))" "memb_wf (routememb s2)"
        using s2(2) by (auto simp: route_wf_def unit_pool_def)
      then have "length (routelist s2) < 70"
        using mpool.used_bound [of "routememb s2"] card_blocks [of "routememb s2"] s2(4) notfull
        by (simp add: distinct_card)
      with s2(4) s3 have room: "length (routelist s3) < mnum (routememb s3)" by simp
      have room': "mnum (neighborroutememb s3) = mnum (routememb s3)" using s2 s3 by simp
      from route_install_wf [OF s3(2) room room', of ip l nexthop] obtain s4 r where
        s4: "route_install ip l nexthop b s3 = (s4, Some r)" "route_wf s4" "routelist s4 = r # routelist s3"
        "nbr_frame s3 s4" "used_map s4 = used_map s3" "ds6_neighbors s4 = ds6_neighbors s3"
        "neighbor_routes (routes s4 r) = Some b" by blast
      have add: "uip_ds6_route_add env ip l nexthop s = Some (s4, Some r)"
        using False s2(1) notfull s3(1) s4(1)
        by (auto simp: uip_ds6_route_add_def ll lk uip_ds6_route_num_routes_def UIP_DS6_ROUTE_NB_def)
      have k4: "nt_keys s4 = nt_keys s" "nt_lladdr s4 = nt_lladdr s" "tabs s4 = tabs s"
        using s4(4) s3 k2 by (auto simp: nbr_frame_def nbr_same_def)
      have "uses s4 DS6_NEIGHBORS b = uses s3 DS6_NEIGHBORS b"
        using s4(5) k4 s3(7) k2 by (simp add: uses_def)
      also have "\<dots> = uses s2 DS6_NEIGHBORS b" using s3(10) ix k2 by simp
      finally have "b \<in> set (nbr_items s4 DS6_NEIGHBORS)" using s2(7) bk k4 k2 by (simp add: nbr_items_def)
      moreover have "nbr_wf s4" using s4(2) by (simp add: route_wf_def)
      ultimately have "nbr_table_get_from_lladdr s4 DS6_NEIGHBORS (Some (nt_lladdr s4 b)) = Some b"
        by (simp add: get_from_lladdr_iff)
      then have "uip_ds6_route_nexthop (Some r) s4 = Some nexthop"
        using s4(6,7) s3(6) s2(6) bip
        by (simp add: uip_ds6_route_nexthop_def uip_ds6_route_nexthop_lladdr_def nbr_table_get_lladdr_def
            uip_ds6_nbr_ipaddr_from_lladdr_def uip_ds6_nbr_ll_lookup_def)
      with add s4 show ?thesis by auto
    qed
  qed
qed

end


subsection \<open>Periodic processing\<close>

definition defrt_expired :: "'a ds6_state_scheme \<Rightarrow> nat \<Rightarrow> bool" where
  "defrt_expired s d \<longleftrightarrow> \<not> df_isinfinite (defrts s d) \<and> stimer_expired (clock_seconds s) (df_lifetime (defrts s d))"

lemma defrt_rm_fields:
  "d \<in> set (defaultrouterlist s) \<Longrightarrow>
   defaultrouterlist (uip_ds6_defrt_rm (Some d) s) = remove1 d (defaultrouterlist s) \<and>
   defrts (uip_ds6_defrt_rm (Some d) s) = defrts s \<and> clock_seconds (uip_ds6_defrt_rm (Some d) s) = clock_seconds s"
  by (simp add: uip_ds6_defrt_rm_def call_route_callback_eq Let_def)

lemma nbr_eq_defrt_rm [simp]: "nbr_eq s (uip_ds6_defrt_rm d s)"
  by (cases d) (simp_all add: uip_ds6_defrt_rm_def call_route_callback_eq Let_def nbr_eq_def nbr_same_def)

lemma defrt_periodic_loop_eq:
  fixes s :: "'a ds6_state_scheme"
  assumes "defaultrouterlist s = pre @ ds" and "distinct (defaultrouterlist s)"
    and "\<forall>d \<in> set pre. \<not> defrt_expired s d"
  shows "\<exists>s'. defrt_periodic_loop ds s = Some s' \<and> nbr_eq s s' \<and>
      defaultrouterlist s' = filter (\<lambda>d. \<not> defrt_expired s d) (defaultrouterlist s) \<and>
      defrts s' = defrts s \<and> clock_seconds s' = clock_seconds s"
  using assms
proof (induction "length (defaultrouterlist s) * length (defaultrouterlist s) + length ds"
    arbitrary: s pre ds rule: less_induct)
  case less
  show ?case
  proof (cases ds)
    case Nil
    with less.prems have "filter (\<lambda>d. \<not> defrt_expired s d) (defaultrouterlist s) = defaultrouterlist s"
      by (simp add: filter_id_conv)
    with Nil show ?thesis by (subst defrt_periodic_loop.simps) simp
  next
    case (Cons d ds')
    show ?thesis
    proof (cases "defrt_expired s d")
      case False
      have "\<exists>s'. defrt_periodic_loop ds' s = Some s' \<and> nbr_eq s s' \<and>
          defaultrouterlist s' = filter (\<lambda>d. \<not> defrt_expired s d) (defaultrouterlist s) \<and>
          defrts s' = defrts s \<and> clock_seconds s' = clock_seconds s"
        using less.prems Cons False by (intro less.hyps [of s ds' "pre @ [d]"]) auto
      moreover have "defrt_periodic_loop ds s = defrt_periodic_loop ds' s"
        using Cons False by (subst defrt_periodic_loop.simps) (auto simp: defrt_expired_def)
      ultimately show ?thesis by simp
    next
      case True
      define s1 where "s1 = uip_ds6_defrt_rm (Some d) s"
      have d: "d \<in> set (defaultrouterlist s)" using less.prems Cons by simp
      note f = defrt_rm_fields [OF d, folded s1_def]
      let ?L = "length (defaultrouterlist s)"
      have len: "Suc (length (defaultrouterlist s1)) = ?L"
        using f d length_pos_if_in_set [OF d] by (simp add: length_remove1)
      have exp: "defrt_expired s1 = defrt_expired s" using f by (simp add: defrt_expired_def fun_eq_iff)
      have meas: "length (defaultrouterlist s1) * length (defaultrouterlist s1) + length (defaultrouterlist s1)
          < ?L * ?L + length ds"
        by (simp add: len [symmetric])
      have "\<exists>s'. defrt_periodic_loop (defaultrouterlist s1) s1 = Some s' \<and> nbr_eq s1 s' \<and>
          defaultrouterlist s' = filter (\<lambda>d. \<not> defrt_expired s1 d) (defaultrouterlist s1) \<and>
          defrts s' = defrts s1 \<and> clock_seconds s' = clock_seconds s1"
        using f less.prems(2) by (intro less.hyps [of s1 "defaultrouterlist s1" "[]"] meas) auto
      moreover have "defrt_periodic_loop ds s = defrt_periodic_loop (defaultrouterlist s1) s1"
        using Cons True by (subst defrt_periodic_loop.simps) (simp add: defrt_expired_def s1_def Let_def)
      moreover have "filter (\<lambda>x. \<not> defrt_expired s x) (remove1 d (defaultrouterlist s)) =
          filter (\<lambda>x. \<not> defrt_expired s x) (defaultrouterlist s)"
        using True by (simp add: filter_remove1 remove1_idem)
      moreover have "nbr_eq s s1" by (simp add: s1_def)
      ultimately show ?thesis using f exp nbr_eq_trans by auto
    qed
  qed
qed

text \<open>The periodic task of \<open>uip-ds6.c\<close>: expired addresses of both interfaces, then the default
  routers.\<close>

definition expire_addr :: "addr_ptr \<Rightarrow> 'a ds6_state_scheme \<Rightarrow> 'a ds6_state_scheme" where
  "expire_addr p s =
     (let e = (case p of ShortAddr i \<Rightarrow> addr_list s ! i | LongAddr i \<Rightarrow> long_addr_list s ! i)
      in if isused e \<and> \<not> ad_isinfinite e \<and> stimer_expired (clock_seconds s) (ad_vlifetime e)
         then uip_ds6_addr_rm (Some p) s else s)"

definition uip_ds6_periodic :: "'a ds6_state_scheme \<Rightarrow> ('a ds6_state_scheme) option" where
  "uip_ds6_periodic s =
     (let s1 = fold (\<lambda>i. expire_addr (ShortAddr i)) [0..<length (addr_list s)] s;
          s2 = fold (\<lambda>i. expire_addr (LongAddr i)) [0..<length (long_addr_list s1)] s1
      in uip_ds6_defrt_periodic s2)"

subsection \<open>Properties\<close>

text \<open>C38. Route lookup returns a longest match: no route when none matches, otherwise a matching
  route on the list such that no matching route has a longer prefix; the route found becomes the head
  of the list and the others keep their order.\<close>

theorem route_lookup_longest:
  assumes "distinct (routelist s)" and "\<forall>r \<in> set (routelist s). rt_length (routes s r) \<le> 128"
    and "uip_ds6_route_lookup a s = (s', f)"
  shows "(case f of
            None \<Rightarrow> (\<forall>r \<in> set (routelist s). \<not> route_matches (routes s) a r) \<and> s' = s
          | Some r \<Rightarrow> r \<in> set (routelist s) \<and> route_matches (routes s) a r \<and>
              (\<forall>q \<in> set (routelist s). route_matches (routes s) a q \<longrightarrow>
                 rt_length (routes s q) \<le> rt_length (routes s r)) \<and>
              routelist s' = r # remove1 r (routelist s))"
  using route_lookup_eq [OF assms(1,2), of a] assms(3)
  by (cases f) (simp_all add: longest_match_def)

definition host_route :: "ipaddr \<Rightarrow> uip_ds6_route" where
  "host_route a = zero_route\<lparr>rt_ipaddr := a, rt_length := 128\<rparr>"

definition route_demo :: ds6_state where
  "route_demo = (ds6_blank [] [])\<lparr>routelist := [0, 1], routes := (\<lambda>_. zero_route)(1 := host_route (replicate 16 7))\<rparr>"

theorem route_lookup_longest_witness:
  "routelist (fst (uip_ds6_route_lookup (replicate 16 7) route_demo)) = [1, 0]"
proof -
  obtain s' f where e: "uip_ds6_route_lookup (replicate 16 7) route_demo = (s', f)" by force
  have sel: "routelist route_demo = [0, 1]" "routes route_demo 0 = zero_route"
    "routes route_demo 1 = host_route (replicate 16 7)" by (simp_all add: route_demo_def)
  have l: "rt_length zero_route = 0" "rt_length (host_route (replicate 16 7)) = 128"
    by (simp_all add: zero_route_def host_route_def)
  have len: "\<forall>r \<in> set (routelist route_demo). rt_length (routes route_demo r) \<le> 128"
    using sel l by auto
  have m: "route_matches (routes route_demo) (replicate 16 7) 1"
    unfolding route_matches_def sel by (simp add: host_route_def)
  from route_lookup_longest [OF _ len e] sel(1) have "f = Some 1 \<and> routelist s' = [1, 0]"
  proof (cases f)
    case None
    with route_lookup_longest [OF _ len e] sel(1) m show ?thesis by simp
  next
    case (Some r)
    with route_lookup_longest [OF _ len e] sel m l show ?thesis by auto
  qed
  with e show ?thesis by simp
qed

text \<open>Prefixes are compared by whole bytes: the last one to seven bits of a prefix length are
  ignored, so a route or prefix of, say, 127 bits also matches addresses that differ in the first 127
  bits.\<close>

theorem prefixcmp_ignores_partial_byte:
  "uip_ipaddr_prefixcmp a b len = uip_ipaddr_prefixcmp a b (len AND 0xF8)"
proof -
  have "drop_bit 3 (len AND NOT (mask 3)) = drop_bit 3 len"
    by (rule bit_word_eqI)
      (auto simp only: bit_drop_bit_eq bit_and_iff bit_not_iff bit_mask_iff comp_def possible_bit_word
        dest: bit_imp_le_length)
  moreover have "(0xF8 :: u8) = NOT (mask 3)" by (simp add: mask_eq_exp_minus_1)
  ultimately show ?thesis by (simp only: uip_ipaddr_prefixcmp_def)
qed

text \<open>C39. Removing all routes of a next hop ends and removes exactly them: from a well-formed table
  \<open>rm_routelist\<close> returns, the routes that used the next hop are off the list and all others stay on it in their
  order, the next hop and only it leaves the neighbour table of the routes, and the table is well-formed again,
  with both pools used by nothing else than what is left.\<close>

theorem rm_routelist_removes_all:
  assumes "route_wf s" and "i \<in> set (nbr_items s NBR_ROUTES)"
  shows "\<exists>s'. rm_routelist (Some i) s = Some s' \<and> route_wf s' \<and> routes s' = routes s \<and>
      routelist s' = filter (\<lambda>r. neighbor_routes (routes s r) \<noteq> Some i) (routelist s) \<and>
      set (nbr_items s' NBR_ROUTES) = set (nbr_items s NBR_ROUTES) - {i}"
proof -
  from rm_routelist_loop_ends [OF assms(1)] assms(2) obtain s1 where s1: "rm_routelist_loop i s = Some s1"
    "route_wf s1" "nbr_frame s s1" "routes s1 = routes s" "route_list (nbr_routes s1 i) = []"
    "routelist s1 = filter (\<lambda>r. r \<notin> nbrr_route s ` set (route_list (nbr_routes s i))) (routelist s)" by blast
  have mine: "r \<in> nbrr_route s ` set (route_list (nbr_routes s i)) \<longleftrightarrow> neighbor_routes (routes s r) = Some i"
    if r: "r \<in> set (routelist s)" for r
  proof
    assume "neighbor_routes (routes s r) = Some i"
    with route_wf_parts [OF assms(1) r] show "r \<in> nbrr_route s ` set (route_list (nbr_routes s i))"
      by (metis imageI option.inject)
  next
    assume "r \<in> nbrr_route s ` set (route_list (nbr_routes s i))"
    with route_wf_item [OF assms] show "neighbor_routes (routes s r) = Some i" by auto
  qed
  have l1: "routelist s1 = filter (\<lambda>r. neighbor_routes (routes s r) \<noteq> Some i) (routelist s)"
    unfolding s1(6) by (rule filter_cong) (simp_all add: mine)
  have t8: "t_index (tabs s1 NBR_ROUTES) < 8" using s1(2) by (simp add: route_wf_def)
  have ni: "i \<notin> set (nbr_items s1 NBR_ROUTES)" using route_wf_item [OF s1(2)] s1(5) by blast
  define s' where "s' = fst (nbr_table_remove NBR_ROUTES (Some i) s1)"
  have it: "nbr_items s' NBR_ROUTES = nbr_items s1 NBR_ROUTES"
    unfolding s'_def items_remove [OF t8] using ni by (auto simp: filter_id_conv)
  have eq: "s' = s1\<lparr>used_map := used_map s', locked_map := locked_map s'\<rparr>" by (simp add: s'_def remove_Some_eq)
  have "nbr_wf s'" using frame_wf [OF remove_frame] s1(2) by (auto simp: s'_def route_wf_def)
  moreover have sel: "tabs s' = tabs s1" "routelist s' = routelist s1" "routememb s' = routememb s1"
    "neighborroutememb s' = neighborroutememb s1" "num_routes s' = num_routes s1" "nbr_routes s' = nbr_routes s1"
    "routes s' = routes s1" "nbrr_route s' = nbrr_route s1" by (subst eq, simp)+
  moreover have "nr_set s' = nr_set s1" by (simp add: nr_set_def it sel)
  ultimately have wf: "route_wf s'" using s1(2) by (simp add: route_wf_def it)
  have "rl_init (nbr_routes s i)" using route_wf_item [OF assms] by blast
  then have e: "rm_routelist (Some i) s = Some s'" using s1(1) by (simp add: rm_routelist_def s'_def)
  have keys: "set (nbr_items s1 NBR_ROUTES) = set (nbr_items s NBR_ROUTES) - {i}"
  proof (intro equalityI subsetI)
    fix k
    assume k: "k \<in> set (nbr_items s1 NBR_ROUTES)"
    then show "k \<in> set (nbr_items s NBR_ROUTES) - {i}"
      using ni s1(3) frame_keys [OF s1(3)] frame_uses [OF s1(3)] by (auto simp: nbr_items_def)
  next
    fix k
    assume k: "k \<in> set (nbr_items s NBR_ROUTES) - {i}"
    with route_wf_item [OF assms(1), of k] obtain n where n: "n \<in> set (route_list (nbr_routes s k))"
      "neighbor_routes (routes s (nbrr_route s n)) = Some k" by (cases "route_list (nbr_routes s k)") auto
    have "n \<in> nr_set s" using k n(1) by (auto simp: nr_set_def)
    moreover have "nbrr_route s ` nr_set s = set (routelist s)" using assms(1) by (simp add: route_wf_def bij_betw_def)
    ultimately have "nbrr_route s n \<in> set (routelist s)" by blast
    then have "nbrr_route s n \<in> set (routelist s1)" using n(2) k l1 by simp
    from route_wf_parts [OF s1(2) this] n(2) s1(4) show "k \<in> set (nbr_items s1 NBR_ROUTES)" by (metis option.inject)
  qed
  show ?thesis using e wf sel(2,7) s1(4) l1 it keys by simp
qed

text \<open>A table with one route through neighbour 0.\<close>

definition one_route :: ds6_state where
  "one_route = (ds6_blank [] [])\<lparr>routelist := [0], num_routes := 1,
     routes := (\<lambda>_. zero_route\<lparr>neighbor_routes := Some 0\<rparr>), nbrr_route := (\<lambda>_. 0),
     nbr_routes := (\<lambda>_. \<lparr>rl_init = True, route_list = [0]\<rparr>),
     routememb := (fresh_memb 1)\<lparr>mcount := [1]\<rparr>, neighborroutememb := (fresh_memb 1)\<lparr>mcount := [1]\<rparr>\<rparr>"

lemma one_route_items: "nbr_items one_route NBR_ROUTES = [0]"
  by (simp add: nbr_items_def uses_def one_route_def ds6_blank_def ds6_state.defs dual_state.defs dual_demo_def
      nbr_state.defs nbr_demo_def bit_0)

lemma one_route_wf: "route_wf one_route"
proof -
  have "nbr_eq (ds6_blank [] []) one_route" by (simp add: one_route_def nbr_eq_def nbr_same_def)
  then have nw: "nbr_wf one_route" using nbr_wf_blank frame_wf nbr_eq_frame by blast
  have t: "t_index (tabs one_route NBR_ROUTES) < 8"
    by (simp add: one_route_def ds6_blank_def ds6_state.defs dual_state.defs dual_demo_def nbr_state.defs nbr_demo_def)
  have ns: "nr_set one_route = {0}" by (simp add: nr_set_def one_route_items) (simp add: one_route_def)
  have "memb_used ((fresh_memb 1)\<lparr>mcount := [1]\<rparr>) = {0}"
    by (auto simp: memb_used_def fresh_memb_def)
  then show ?thesis
    unfolding route_wf_def one_route_items ns
    using nw t by (simp add: one_route_def unit_pool_def memb_wf_def fresh_memb_def bij_betw_def)
qed

theorem rm_routelist_removes_all_witness:
  "\<exists>s'. rm_routelist (Some 0) one_route = Some s' \<and> routelist s' = [] \<and> memb_used (routememb s') = {}"
proof -
  have "0 \<in> set (nbr_items one_route NBR_ROUTES)" by (simp add: one_route_items)
  from rm_routelist_removes_all [OF one_route_wf this] obtain s' where s': "rm_routelist (Some 0) one_route = Some s'"
    "route_wf s'" "routelist s' = filter (\<lambda>r. neighbor_routes (routes one_route r) \<noteq> Some 0) (routelist one_route)" by blast
  then have "routelist s' = []" by (simp add: one_route_def)
  then show ?thesis using s' by (simp add: route_wf_def)
qed

text \<open>C40. The periodic task of the default routers always returns, and afterwards the list holds
  exactly the routers whose lifetime is infinite or has not expired, in their order.\<close>

theorem defrt_periodic_exact:
  assumes "distinct (defaultrouterlist s)"
  shows "\<exists>s'. uip_ds6_defrt_periodic s = Some s' \<and>
      defaultrouterlist s' = filter (\<lambda>d. df_isinfinite (defrts s d) \<or>
        \<not> stimer_expired (clock_seconds s) (df_lifetime (defrts s d))) (defaultrouterlist s)"
  using defrt_periodic_loop_eq [of s "[]" "defaultrouterlist s"] assms
  by (auto simp: uip_ds6_defrt_periodic_def defrt_expired_def)

theorem defrt_periodic_exact_witness:
  "\<exists>s'. uip_ds6_defrt_periodic ((ds6_blank [] [])\<lparr>defaultrouterlist := [0, 1]\<rparr>) = Some s' \<and>
     defaultrouterlist s' = []"
proof -
  let ?s = "(ds6_blank [] [])\<lparr>defaultrouterlist := [0, 1]\<rparr>"
  have "clock_seconds ?s = 0" "defrts ?s = (\<lambda>_. zero_defrt)"
    by (simp_all add: ds6_blank_def ds6_state.defs dual_state.defs dual_demo_def nbr_state.defs)
  then show ?thesis
    using defrt_periodic_exact [of ?s]
    by (simp add: zero_defrt_def stimer_expired_def SCLOCK_GEQ_alt)
qed

end
