(* ===== verification/RplDefs.thy ===== *)
theory RplDefs
  imports Ds6Route
begin

text \<open>
  The data of the RPL layer (\<open>core/net/rpl/rpl.h\<close>, \<open>rpl-private.h\<close>): parents, children, DAGs, instances
  and DIO messages, the state record of the whole node, the lollipop counters and the lookups of
  \<open>rpl-dag.c\<close> that other files use. A parent or child is the index of its neighbour in the tables
  \<open>rpl_parents\<close> and \<open>rpl_children\<close>; a DAG is a slot of the table of its instance. A one-shot timer
  (\<open>struct ctimer\<close>) is \<open>None\<close> when it is not running and else the interval it was set to.
  \<open>rand()\<close> reads a stream of 31-bit numbers.
\<close>

unbundle bit_operations_syntax

subsection \<open>Constants of the configuration\<close>

definition RPL_MAX_INSTANCES :: nat where "RPL_MAX_INSTANCES = 1"
definition RPL_MAX_DAG_PER_INSTANCE :: nat where "RPL_MAX_DAG_PER_INSTANCE = 2"
definition INFINITE_RANK :: u16 where "INFINITE_RANK = 0xffff"
definition RPL_MIN_HOPRANKINC :: u16 where "RPL_MIN_HOPRANKINC = 256"
definition RPL_MAX_RANKINC :: u16 where "RPL_MAX_RANKINC = 50 * 256"
definition RPL_DAG_MC_ETX_DIVISOR :: u16 where "RPL_DAG_MC_ETX_DIVISOR = 256"
definition RPL_INIT_LINK_METRIC :: u16 where "RPL_INIT_LINK_METRIC = 1"
definition LONG_WEIGHT_RATIO :: u8 where "LONG_WEIGHT_RATIO = 2"
definition RPL_PARENT_FLAG_UPDATED :: u8 where "RPL_PARENT_FLAG_UPDATED = 1"
definition RPL_PARENT_FLAG_LINK_METRIC_VALID :: u8 where "RPL_PARENT_FLAG_LINK_METRIC_VALID = 2"
definition UIP_ND6_RA_FLAG_AUTONOMOUS :: u8 where "UIP_ND6_RA_FLAG_AUTONOMOUS = 0x40"
definition RPL_MOP_NO_DOWNWARD_ROUTES :: u8 where "RPL_MOP_NO_DOWNWARD_ROUTES = 0"
definition RPL_MOP_DEFAULT :: u8 where "RPL_MOP_DEFAULT = 2"
definition RPL_DIO_INTERVAL_MIN :: u8 where "RPL_DIO_INTERVAL_MIN = 12"
definition RPL_DIO_INTERVAL_DOUBLINGS :: u8 where "RPL_DIO_INTERVAL_DOUBLINGS = 10"
definition RPL_DIO_REDUNDANCY :: u8 where "RPL_DIO_REDUNDANCY = 10"
definition RPL_DEFAULT_LIFETIME :: u8 where "RPL_DEFAULT_LIFETIME = 10"
definition RPL_DEFAULT_LIFETIME_UNIT :: u16 where "RPL_DEFAULT_LIFETIME_UNIT = 60"
definition RPL_ZERO_LIFETIME :: u8 where "RPL_ZERO_LIFETIME = 0"
definition RPL_GROUNDED :: u8 where "RPL_GROUNDED = 0"
definition RPL_PREFERENCE :: u8 where "RPL_PREFERENCE = 0"
definition RPL_LOLLIPOP_INIT :: u8 where "RPL_LOLLIPOP_INIT = 240"
definition CLOCK_SECOND :: u32 where "CLOCK_SECOND = 1000"
definition RANDOM_RAND_MAX :: u32 where "RANDOM_RAND_MAX = 65535"
definition BUF_SIZE :: int where "BUF_SIZE = 5000"

lemmas rpl_consts = RPL_MAX_INSTANCES_def RPL_MAX_DAG_PER_INSTANCE_def INFINITE_RANK_def
  RPL_MIN_HOPRANKINC_def RPL_MAX_RANKINC_def RPL_DAG_MC_ETX_DIVISOR_def RPL_INIT_LINK_METRIC_def
  LONG_WEIGHT_RATIO_def RPL_PARENT_FLAG_UPDATED_def RPL_PARENT_FLAG_LINK_METRIC_VALID_def
  UIP_ND6_RA_FLAG_AUTONOMOUS_def RPL_MOP_NO_DOWNWARD_ROUTES_def RPL_MOP_DEFAULT_def
  RPL_DIO_INTERVAL_MIN_def RPL_DIO_INTERVAL_DOUBLINGS_def RPL_DIO_REDUNDANCY_def
  RPL_DEFAULT_LIFETIME_def RPL_DEFAULT_LIFETIME_UNIT_def RPL_ZERO_LIFETIME_def RPL_GROUNDED_def
  RPL_PREFERENCE_def RPL_LOLLIPOP_INIT_def CLOCK_SECOND_def RANDOM_RAND_MAX_def BUF_SIZE_def

subsection \<open>Lollipop counters\<close>

definition RPL_LOLLIPOP_INCREMENT :: "u8 \<Rightarrow> u8" where
  "RPL_LOLLIPOP_INCREMENT counter =
     (if counter > 127 then (counter + 1) AND 255 else (counter + 1) AND 127)"

definition RPL_LOLLIPOP_IS_INIT :: "u8 \<Rightarrow> bool" where
  "RPL_LOLLIPOP_IS_INIT counter \<longleftrightarrow> counter > 127"

text \<open>The parameters are C \<open>int\<close>s; the callers pass bytes.\<close>

definition lollipop_greater_than :: "int \<Rightarrow> int \<Rightarrow> bool" where
  "lollipop_greater_than a b =
     (if a > 127 \<and> b \<le> 127 then 255 + 1 + b - a > 16
      else (a > b \<and> a - b < 16) \<or> (a < b \<and> b - a > 127 + 1 - 16))"

subsection \<open>Structures\<close>

datatype metric_object = NoObject | Energy u8 u8 | Etx u16

record rpl_metric_container =
  mc_type :: u8
  mc_flags :: u8
  mc_aggr :: u8
  mc_prec :: u8
  mc_length :: u8
  mc_obj :: metric_object

definition RPL_DAG_MC_NONE :: u8 where "RPL_DAG_MC_NONE = 0"
definition RPL_DAG_MC_ENERGY :: u8 where "RPL_DAG_MC_ENERGY = 2"
definition RPL_DAG_MC_ETX :: u8 where "RPL_DAG_MC_ETX = 7"

record rpl_parent =
  p_dag :: "dagptr option"
  p_rank :: u16
  p_last_tx_time :: u32
  p_dtsn :: u8
  p_flags :: u8
  p_parent_weight :: u8
  p_parent_sum_weight :: u8
  p_rem_energy :: u8
  p_MLS_id :: u8
  p_est_load :: u8
  p_latest_id :: u8

record rpl_child =
  c_weight :: u8

record rpl_prefix =
  px_prefix :: ipaddr
  px_life :: u32
  px_len :: u8
  px_flags :: u8

record rpl_dag =
  d_id :: ipaddr
  d_min_rank :: u16
  d_version :: u8
  d_grounded :: u8
  d_preference :: u8
  d_used :: bool
  d_joined :: bool
  d_preferred_parent :: ptr
  d_rank :: u16
  d_instance :: ptr
  d_prefix_info :: rpl_prefix
  d_lifetime :: u32

text \<open>The objective functions of the tree; \<open>instance->of\<close> points to one of them or is null.\<close>

datatype rpl_of = LTMAX | MRHOF | OF0

record rpl_instance =
  i_mc :: rpl_metric_container
  i_of :: "rpl_of option"
  i_current_dag :: "dagptr option"
  i_def_route :: ptr
  i_instance_id :: u8
  i_used :: bool
  i_dtsn_out :: u8
  i_mop :: u8
  i_dio_intdoubl :: u8
  i_dio_intmin :: u8
  i_dio_redundancy :: u8
  i_default_lifetime :: u8
  i_dio_intcurrent :: u8
  i_dio_send :: bool
  i_dio_counter :: u8
  i_has_downward_route :: bool
  i_max_rankinc :: u16
  i_min_hoprankinc :: u16
  i_lifetime_unit :: u16
  i_dio_next_delay :: u32
  i_dio_timer :: "u32 option"
  i_dao_timer :: "u32 option"
  i_dao_lifetime_timer :: "u32 option"
  i_unicast_dio_timer :: "u32 option"
  i_unicast_dio_target :: ptr

record rpl_dio =
  dio_dag_id :: ipaddr
  dio_ocp :: u16
  dio_rank :: u16
  dio_grounded :: u8
  dio_mop :: u8
  dio_preference :: u8
  dio_version :: u8
  dio_instance_id :: u8
  dio_dtsn :: u8
  dio_dag_intdoubl :: u8
  dio_dag_intmin :: u8
  dio_dag_redund :: u8
  dio_default_lifetime :: u8
  dio_lifetime_unit :: u16
  dio_dag_max_rankinc :: u16
  dio_dag_min_hoprankinc :: u16
  dio_destination_prefix :: rpl_prefix
  dio_prefix_info :: rpl_prefix
  dio_mc :: rpl_metric_container
  dio_parent_id :: u8
  dio_parent_long :: u8
  dio_rem_energy :: u8
  dio_weight :: u8
  dio_MLS_id :: u8
  dio_est_load :: u8
  dio_latest_id :: u8

text \<open>The parameters of an interface; its address tables are fields of \<open>ds6_state\<close>.\<close>

record uip_ds6_netif =
  link_mtu :: u32
  cur_hop_limit :: u8
  base_reachable_time :: u32
  reachable_time :: u32
  retrans_timer :: u32
  maxdadns :: u8

datatype rpl_mode = RPL_MODE_MESH | RPL_MODE_FEATHER | RPL_MODE_LEAF

text \<open>The zeroed structures \<open>memset\<close> makes.\<close>

definition zero_prefix :: rpl_prefix where
  "zero_prefix = \<lparr>px_prefix = replicate 16 0, px_life = 0, px_len = 0, px_flags = 0\<rparr>"

definition zero_mc :: rpl_metric_container where
  "zero_mc = \<lparr>mc_type = 0, mc_flags = 0, mc_aggr = 0, mc_prec = 0, mc_length = 0, mc_obj = NoObject\<rparr>"

definition zero_netif :: uip_ds6_netif where
  "zero_netif = \<lparr>link_mtu = 0, cur_hop_limit = 0, base_reachable_time = 0, reachable_time = 0, retrans_timer = 0,
     maxdadns = 0\<rparr>"

definition zero_parent :: rpl_parent where
  "zero_parent = \<lparr>p_dag = None, p_rank = 0, p_last_tx_time = 0, p_dtsn = 0, p_flags = 0, p_parent_weight = 0,
     p_parent_sum_weight = 0, p_rem_energy = 0, p_MLS_id = 0, p_est_load = 0, p_latest_id = 0\<rparr>"

definition zero_dag :: rpl_dag where
  "zero_dag = \<lparr>d_id = replicate 16 0, d_min_rank = 0, d_version = 0, d_grounded = 0, d_preference = 0,
     d_used = False, d_joined = False, d_preferred_parent = None, d_rank = 0, d_instance = None,
     d_prefix_info = zero_prefix, d_lifetime = 0\<rparr>"

definition zero_instance :: rpl_instance where
  "zero_instance = \<lparr>i_mc = zero_mc, i_of = None, i_current_dag = None, i_def_route = None, i_instance_id = 0,
     i_used = False, i_dtsn_out = 0, i_mop = 0, i_dio_intdoubl = 0, i_dio_intmin = 0, i_dio_redundancy = 0,
     i_default_lifetime = 0, i_dio_intcurrent = 0, i_dio_send = False, i_dio_counter = 0,
     i_has_downward_route = False, i_max_rankinc = 0, i_min_hoprankinc = 0, i_lifetime_unit = 0,
     i_dio_next_delay = 0, i_dio_timer = None, i_dao_timer = None, i_dao_lifetime_timer = None,
     i_unicast_dio_timer = None, i_unicast_dio_target = None\<rparr>"

subsection \<open>The state of the node\<close>

record rpl_state = ds6_state +
  parents :: "nat \<Rightarrow> rpl_parent"
  children :: "nat \<Rightarrow> rpl_child"
  instance_table :: "nat \<Rightarrow> rpl_instance"
  dag_table :: "dagptr \<Rightarrow> rpl_dag"
  default_instance :: ptr
  mode :: rpl_mode
  my_degree :: u8
  id_count :: "nat \<Rightarrow> u8"
  latest_id :: int
  init_phase :: bool
  tree_level :: u8
  join_instance :: u8
  dao_sequence :: u8
  next_dis :: u16
  dio_send_ok :: bool
  periodic_timer :: "u32 option"
  temp_instance :: ptr
  clock_time :: u32
  rand_stream :: "nat \<Rightarrow> 31 word"
  rand_pos :: nat
  uip_lladdr :: linkaddr
  packetbuf_sender :: linkaddr
  energy_percent :: u8
  dio_waiting :: bool
  dis_waiting :: bool
  uip_ds6_if :: uip_ds6_netif
  long_uip_ds6_if :: uip_ds6_netif

definition mod_parent :: "nat \<Rightarrow> (rpl_parent \<Rightarrow> rpl_parent) \<Rightarrow> rpl_state \<Rightarrow> rpl_state" where
  "mod_parent k f s = s\<lparr>parents := (parents s)(k := f (parents s k))\<rparr>"

definition mod_dag :: "dagptr \<Rightarrow> (rpl_dag \<Rightarrow> rpl_dag) \<Rightarrow> rpl_state \<Rightarrow> rpl_state" where
  "mod_dag d f s = s\<lparr>dag_table := (dag_table s)(d := f (dag_table s d))\<rparr>"

definition mod_inst :: "nat \<Rightarrow> (rpl_instance \<Rightarrow> rpl_instance) \<Rightarrow> rpl_state \<Rightarrow> rpl_state" where
  "mod_inst i f s = s\<lparr>instance_table := (instance_table s)(i := f (instance_table s i))\<rparr>"

lemma mod_frame [simp, frame_simps]:
  "nbr_eq s (mod_parent k f s)" "nbr_eq s (mod_dag d g s)" "nbr_eq s (mod_inst i h s)"
  by (simp_all add: mod_parent_def mod_dag_def mod_inst_def nbr_eq_def nbr_same_def)

lemma mod_sel [simp]:
  "parents (mod_parent k f s) = (parents s)(k := f (parents s k))" "parents (mod_dag d g s) = parents s"
  "parents (mod_inst i h s) = parents s" "dag_table (mod_parent k f s) = dag_table s"
  "dag_table (mod_dag d g s) = (dag_table s)(d := g (dag_table s d))" "dag_table (mod_inst i h s) = dag_table s"
  "instance_table (mod_parent k f s) = instance_table s" "instance_table (mod_dag d g s) = instance_table s"
  "instance_table (mod_inst i h s) = (instance_table s)(i := h (instance_table s i))"
  by (simp_all add: mod_parent_def mod_dag_def mod_inst_def)

lemma mod_nbr_sel [simp]:
  "nt_keys (mod_parent k f s) = nt_keys s" "nt_lladdr (mod_parent k f s) = nt_lladdr s"
  "used_map (mod_parent k f s) = used_map s" "locked_map (mod_parent k f s) = locked_map s"
  "tabs (mod_parent k f s) = tabs s" "nt_keys (mod_dag d g s) = nt_keys s" "nt_lladdr (mod_dag d g s) = nt_lladdr s"
  "used_map (mod_dag d g s) = used_map s" "locked_map (mod_dag d g s) = locked_map s" "tabs (mod_dag d g s) = tabs s"
  "nt_keys (mod_inst i h s) = nt_keys s" "nt_lladdr (mod_inst i h s) = nt_lladdr s"
  "used_map (mod_inst i h s) = used_map s" "locked_map (mod_inst i h s) = locked_map s" "tabs (mod_inst i h s) = tabs s"
  by (simp_all add: mod_parent_def mod_dag_def mod_inst_def)

lemma mod_ds6_sel [simp]:
  "ds6_neighbors (mod_parent k f s) = ds6_neighbors s" "ds6_neighbors (mod_dag d g s) = ds6_neighbors s"
  "ds6_neighbors (mod_inst i h s) = ds6_neighbors s" "addr_list (mod_parent k f s) = addr_list s"
  "addr_list (mod_dag d g s) = addr_list s" "addr_list (mod_inst i h s) = addr_list s"
  "io (mod_parent k f s) = io s" "io (mod_dag d g s) = io s" "io (mod_inst i h s) = io s"
  "routes (mod_parent k f s) = routes s" "routes (mod_dag d g s) = routes s" "routes (mod_inst i h s) = routes s"
  "init_phase (mod_parent k f s) = init_phase s" "init_phase (mod_dag d g s) = init_phase s"
  "init_phase (mod_inst i h s) = init_phase s" "mode (mod_parent k f s) = mode s" "mode (mod_dag d g s) = mode s"
  "mode (mod_inst i h s) = mode s"
  by (simp_all add: mod_parent_def mod_dag_def mod_inst_def)

text \<open>\<open>rand()\<close> and \<open>random_rand()\<close>, its low 16 bits.\<close>

definition c_rand :: "rpl_state \<Rightarrow> nat \<times> rpl_state" where
  "c_rand s = (unat (rand_stream s (rand_pos s)), s\<lparr>rand_pos := rand_pos s + 1\<rparr>)"

definition random_rand :: "rpl_state \<Rightarrow> u16 \<times> rpl_state" where
  "random_rand s = (case c_rand s of (r, s') \<Rightarrow> (of_nat r, s'))"

text \<open>\<open>id_count[latest_id]\<close>, undefined outside the array.\<close>

definition count_latest :: "rpl_state \<Rightarrow> u8 option" where
  "count_latest s = (if 0 \<le> latest_id s \<and> latest_id s < BUF_SIZE then Some (id_count s (nat (latest_id s))) else None)"

subsection \<open>Lookups\<close>

definition rpl_get_nbr :: "ptr \<Rightarrow> rpl_state \<Rightarrow> ptr" where
  "rpl_get_nbr parent s = (case nbr_table_get_lladdr s parent of
     Some a \<Rightarrow> nbr_table_get_from_lladdr s DS6_NEIGHBORS (Some a)
   | None \<Rightarrow> None)"

definition rpl_get_nbr_child :: "ptr \<Rightarrow> rpl_state \<Rightarrow> ptr" where
  "rpl_get_nbr_child child s = (case nbr_table_get_lladdr s child of
     Some a \<Rightarrow> nbr_table_get_from_lladdr s DS6_NEIGHBORS (Some a)
   | None \<Rightarrow> None)"

definition rpl_get_parent :: "linkaddr \<Rightarrow> rpl_state \<Rightarrow> ptr" where
  "rpl_get_parent addr s = nbr_table_get_from_lladdr s RPL_PARENTS (Some addr)"

definition rpl_get_parent_rank :: "linkaddr \<Rightarrow> rpl_state \<Rightarrow> u16" where
  "rpl_get_parent_rank addr s = (case nbr_table_get_from_lladdr s RPL_PARENTS (Some addr) of
     Some p \<Rightarrow> p_rank (parents s p) | None \<Rightarrow> 0)"

definition rpl_get_parent_link_metric :: "linkaddr \<Rightarrow> rpl_state \<Rightarrow> u16" where
  "rpl_get_parent_link_metric addr s = (case nbr_table_get_from_lladdr s DS6_NEIGHBORS (Some addr) of
     Some n \<Rightarrow> nb_link_metric (ds6_neighbors s n) | None \<Rightarrow> 0)"

definition rpl_get_parent_ipaddr :: "ptr \<Rightarrow> rpl_state \<Rightarrow> ipaddr option" where
  "rpl_get_parent_ipaddr p s = uip_ds6_nbr_ipaddr_from_lladdr (nbr_table_get_lladdr s p) s"

definition rpl_get_child_ipaddr :: "ptr \<Rightarrow> rpl_state \<Rightarrow> ipaddr option" where
  "rpl_get_child_ipaddr c s = uip_ds6_nbr_ipaddr_from_lladdr (nbr_table_get_lladdr s c) s"

definition find_parent_any_dag_any_instance :: "ipaddr \<Rightarrow> rpl_state \<Rightarrow> ptr" where
  "find_parent_any_dag_any_instance addr s =
     nbr_table_get_from_lladdr s RPL_PARENTS (uip_ds6_nbr_get_ll (uip_ds6_nbr_lookup (Some addr) s) s)"

definition rpl_find_parent :: "dagptr \<Rightarrow> ipaddr \<Rightarrow> rpl_state \<Rightarrow> ptr" where
  "rpl_find_parent dag addr s = (case find_parent_any_dag_any_instance addr s of
     Some p \<Rightarrow> if p_dag (parents s p) = Some dag then Some p else None
   | None \<Rightarrow> None)"

definition find_child_any_dag_any_instance :: "ipaddr \<Rightarrow> rpl_state \<Rightarrow> ptr" where
  "find_child_any_dag_any_instance addr s =
     nbr_table_get_from_lladdr s RPL_CHILDREN (uip_ds6_nbr_get_ll (uip_ds6_nbr_lookup (Some addr) s) s)"

definition rpl_find_child :: "ipaddr \<Rightarrow> rpl_state \<Rightarrow> ptr" where
  "rpl_find_child addr s = find_child_any_dag_any_instance addr s"

definition find_parent_dag :: "ipaddr \<Rightarrow> rpl_state \<Rightarrow> dagptr option" where
  "find_parent_dag addr s = (case find_parent_any_dag_any_instance addr s of
     Some p \<Rightarrow> p_dag (parents s p) | None \<Rightarrow> None)"

definition rpl_find_parent_any_dag :: "nat \<Rightarrow> ipaddr \<Rightarrow> rpl_state \<Rightarrow> ptr" where
  "rpl_find_parent_any_dag inst addr s = (case find_parent_any_dag_any_instance addr s of
     Some p \<Rightarrow> (case p_dag (parents s p) of
        Some d \<Rightarrow> if d_instance (dag_table s d) = Some inst then Some p else None
      | None \<Rightarrow> None)
   | None \<Rightarrow> None)"

fun instance_loop :: "u8 \<Rightarrow> rpl_state \<Rightarrow> nat list \<Rightarrow> ptr" where
  "instance_loop instance_id s [] = None"
| "instance_loop instance_id s (i # is) =
     (if i_used (instance_table s i) \<and> i_instance_id (instance_table s i) = instance_id then Some i
      else instance_loop instance_id s is)"

definition rpl_get_instance :: "u8 \<Rightarrow> rpl_state \<Rightarrow> ptr" where
  "rpl_get_instance instance_id s = instance_loop instance_id s [0..<RPL_MAX_INSTANCES]"

definition rpl_get_default_instance :: "rpl_state \<Rightarrow> ptr" where
  "rpl_get_default_instance s = default_instance s"

definition rpl_set_default_instance :: "ptr \<Rightarrow> rpl_state \<Rightarrow> rpl_state" where
  "rpl_set_default_instance i s = s\<lparr>default_instance := i\<rparr>"

text \<open>\<open>rpl_get_any_dag\<close> dereferences \<open>current_dag\<close> of an instance in use.\<close>

fun any_dag_loop :: "rpl_state \<Rightarrow> nat list \<Rightarrow> dagptr option option" where
  "any_dag_loop s [] = Some None"
| "any_dag_loop s (i # is) =
     (if i_used (instance_table s i)
      then do {
        d \<leftarrow> i_current_dag (instance_table s i);
        if d_joined (dag_table s d) then Some (Some d) else any_dag_loop s is
      }
      else any_dag_loop s is)"

definition rpl_get_any_dag :: "rpl_state \<Rightarrow> dagptr option option" where
  "rpl_get_any_dag s = any_dag_loop s [0..<RPL_MAX_INSTANCES]"

fun downward_loop :: "rpl_state \<Rightarrow> nat list \<Rightarrow> bool" where
  "downward_loop s [] = False"
| "downward_loop s (i # is) =
     (if i_used (instance_table s i) \<and> i_has_downward_route (instance_table s i) then True
      else downward_loop s is)"

definition rpl_has_downward_route :: "rpl_state \<Rightarrow> bool" where
  "rpl_has_downward_route s = downward_loop s [0..<RPL_MAX_INSTANCES]"

fun get_dag_loop :: "rpl_state \<Rightarrow> nat \<Rightarrow> ipaddr \<Rightarrow> nat list \<Rightarrow> dagptr option" where
  "get_dag_loop s inst dag_id [] = None"
| "get_dag_loop s inst dag_id (j # js) =
     (if d_used (dag_table s (inst, j)) \<and> d_id (dag_table s (inst, j)) = dag_id then Some (inst, j)
      else get_dag_loop s inst dag_id js)"

definition get_dag :: "u8 \<Rightarrow> ipaddr \<Rightarrow> rpl_state \<Rightarrow> dagptr option" where
  "get_dag instance_id dag_id s = (case rpl_get_instance instance_id s of
     None \<Rightarrow> None
   | Some i \<Rightarrow> get_dag_loop s i dag_id [0..<RPL_MAX_DAG_PER_INSTANCE])"

subsection \<open>Ranks\<close>

text \<open>\<open>DAG_RANK\<close> divides in \<open>int\<close>; a division by zero is undefined.\<close>

definition DAG_RANK :: "int \<Rightarrow> rpl_instance \<Rightarrow> int option" where
  "DAG_RANK fixpt_rank i = (if i_min_hoprankinc i = 0 then None else Some (fixpt_rank div uint (i_min_hoprankinc i)))"

definition ROOT_RANK :: "rpl_instance \<Rightarrow> u16" where
  "ROOT_RANK i = i_min_hoprankinc i"

definition RPL_LIFETIME :: "rpl_instance \<Rightarrow> u8 \<Rightarrow> u32" where
  "RPL_LIFETIME i lifetime = ucast (i_lifetime_unit i) * ucast lifetime"

definition acceptable_rank :: "dagptr \<Rightarrow> u16 \<Rightarrow> rpl_state \<Rightarrow> bool option" where
  "acceptable_rank dag rank s =
     (if rank = INFINITE_RANK then Some False
      else do {
        i \<leftarrow> d_instance (dag_table s dag);
        let inst = instance_table s i;
        if i_max_rankinc inst = 0 then Some True
        else do {
          r \<leftarrow> DAG_RANK (uint rank) inst;
          m \<leftarrow> DAG_RANK (uint (d_min_rank (dag_table s dag)) + uint (i_max_rankinc inst)) inst;
          Some (r \<le> m)
        }
      })"


subsection \<open>A node for the concrete instances\<close>

text \<open>A node with two neighbours, 0 and 1, both parents in its only DAG, which it has joined with
  neighbour 0 as preferred parent. Neighbour 0 was heard on the short and neighbour 1 on the long
  radio.\<close>

definition demo_ll :: "nat \<Rightarrow> linkaddr" where
  "demo_ll k = [0, 0, 0, 0, 0, 0, 0, of_nat k + 1]"

definition demo_ip :: "nat \<Rightarrow> ipaddr" where
  "demo_ip k = [0xfe, 0x80, 0, 0, 0, 0, 0, 0, 2, 0, 0, 0, 0, 0, 0, of_nat k + 1]"

definition demo_parent :: "u16 \<Rightarrow> u8 \<Rightarrow> rpl_parent" where
  "demo_parent r w = zero_parent\<lparr>p_dag := Some (0, 0), p_rank := r, p_parent_weight := w\<rparr>"

definition demo_dag :: rpl_dag where
  "demo_dag = zero_dag\<lparr>d_id := replicate 16 1, d_min_rank := 512, d_version := 240, d_used := True,
     d_joined := True, d_preferred_parent := Some 0, d_rank := 512, d_instance := Some 0\<rparr>"

definition demo_inst :: rpl_instance where
  "demo_inst = zero_instance\<lparr>i_of := Some LTMAX, i_current_dag := Some (0, 0), i_instance_id := 30,
     i_used := True, i_dtsn_out := 240, i_mop := 2, i_dio_intdoubl := 10, i_dio_intmin := 12,
     i_dio_redundancy := 10, i_default_lifetime := 10, i_dio_intcurrent := 12, i_max_rankinc := 12800,
     i_min_hoprankinc := 256, i_lifetime_unit := 60\<rparr>"

definition demo :: rpl_state where
  "demo = ds6_state.extend
     ((ds6_blank [used_addr (demo_ip 9), used_addr (0xfd # replicate 14 0 @ [10])] [])\<lparr>
        nt_keys := [0, 1], nt_lladdr := demo_ll, used_map := (\<lambda>_. 0)(0 := 5, 1 := 5),
        locked_map := (\<lambda>_. 0)(0 := 4), all_tables := (\<lambda>j. if j < 4 then Some j else None), num_tables := 4,
        tabs := (\<lambda>t. \<lparr>t_index = t mod 8, t_callback = True\<rparr>),
        ds6_lr_addrmap := [\<lparr>am_lladdr = demo_ll 0, am_lr = 0, am_isused = 1\<rparr>,
                           \<lparr>am_lladdr = demo_ll 1, am_lr = 1, am_isused = 1\<rparr>],
        ds6_neighbors := (\<lambda>k. zero_nbr\<lparr>nb_ipaddr := demo_ip k, nb_link_metric := 256\<rparr>)\<rparr>)
     (rpl_state.fields ((\<lambda>_. zero_parent)(0 := demo_parent 256 1, 1 := demo_parent 256 2)) (\<lambda>_. \<lparr>c_weight = 0\<rparr>)
        ((\<lambda>_. zero_instance)(0 := demo_inst)) ((\<lambda>_. zero_dag)((0, 0) := demo_dag)) (Some 0) RPL_MODE_MESH
        0 (\<lambda>_. 0) 0 False 1 1 240 0 True None None 0 (\<lambda>_. 0) 0 (demo_ll 9) (demo_ll 2) 100 False False zero_netif
        zero_netif)"

lemma demo_sel [simp]:
  "nt_keys demo = [0, 1]" "nt_mem demo = \<lparr>msize = 1, mnum = 2, mcount = [1, 1], mbase = 0\<rparr>"
  "nt_lladdr demo = demo_ll" "used_map demo = (\<lambda>_. 0)(0 := 5, 1 := 5)"
  "locked_map demo = (\<lambda>_. 0)(0 := 4)" "tabs demo = (\<lambda>t. \<lparr>t_index = t mod 8, t_callback = True\<rparr>)"
  "all_tables demo = (\<lambda>j. if j < 4 then Some j else None)"
  "ds6_neighbors demo = (\<lambda>k. zero_nbr\<lparr>nb_ipaddr := demo_ip k, nb_link_metric := 256\<rparr>)"
  "ds6_lr_addrmap demo = [\<lparr>am_lladdr = demo_ll 0, am_lr = 0, am_isused = 1\<rparr>,
     \<lparr>am_lladdr = demo_ll 1, am_lr = 1, am_isused = 1\<rparr>]"
  "addr_list demo = [used_addr (demo_ip 9), used_addr (0xfd # replicate 14 0 @ [10])]"
  "maddr_list demo = []" "routelist demo = []" "defaultrouterlist demo = []" "num_routes demo = 0"
  "routememb demo = fresh_memb 70" "neighborroutememb demo = fresh_memb 70" "io demo = []"
  "defaultroutermemb demo = fresh_memb 2"
  by (simp_all add: demo_def ds6_blank_def ds6_state.defs dual_state.defs dual_demo_def nbr_state.defs
      nbr_demo_def)

lemma demo_sel2 [simp]:
  "parents demo = (\<lambda>_. zero_parent)(0 := demo_parent 256 1, 1 := demo_parent 256 2)"
  "instance_table demo = (\<lambda>_. zero_instance)(0 := demo_inst)"
  "dag_table demo = (\<lambda>_. zero_dag)((0, 0) := demo_dag)"
  "default_instance demo = Some 0" "mode demo = RPL_MODE_MESH" "my_degree demo = 0" "id_count demo = (\<lambda>_. 0)"
  "latest_id demo = 0" "\<not> init_phase demo" "tree_level demo = 1" "join_instance demo = 1"
  "dao_sequence demo = 240" "next_dis demo = 0" "dio_send_ok demo" "rand_stream demo = (\<lambda>_. 0)"
  "uip_lladdr demo = demo_ll 9" "packetbuf_sender demo = demo_ll 2" "energy_percent demo = 100"
  "\<not> dio_waiting demo" "\<not> dis_waiting demo"
  by (simp_all add: demo_def ds6_state.defs rpl_state.defs)

lemma demo_parent_sel [simp]:
  "p_dag (demo_parent r w) = Some (0, 0)" "p_rank (demo_parent r w) = r" "p_parent_weight (demo_parent r w) = w"
  "p_flags (demo_parent r w) = 0" "p_parent_sum_weight (demo_parent r w) = 0" "p_est_load (demo_parent r w) = 0"
  by (simp_all add: demo_parent_def zero_parent_def)

lemma demo_nbr [simp]:
  "rpl_get_nbr (Some 0) demo = Some 0" "rpl_get_nbr (Some (Suc 0)) demo = Some 1"
  by (simp_all add: rpl_get_nbr_def nbr_table_get_lladdr_def nbr_table_get_from_lladdr_def index_from_lladdr_def
      nbr_get_bit_def item_from_index_def table_ids demo_ll_def)

subsection \<open>Lollipop counters are ordered by increments only\<close>

lemma uint_lollipop_increment:
  "uint (RPL_LOLLIPOP_INCREMENT c) = (if 127 < uint c then (uint c + 1) mod 256 else (uint c + 1) mod 128)"
proof -
  have m: "x AND 255 = x" "uint (x AND 127) = uint x mod 128" for x :: u8
  proof -
    have "x AND mask 8 = x" by (rule bit_word_eqI) (simp add: bit_and_iff bit_mask_iff)
    then show "x AND 255 = x" by (simp add: mask_eq_exp_minus_1)
    have "uint (x AND mask 7) = take_bit 7 (uint x)" by (simp add: unsigned_take_bit_eq flip: take_bit_eq_mask)
    then show "uint (x AND 127) = uint x mod 128" by (simp add: mask_eq_exp_minus_1 take_bit_eq_mod)
  qed
  have "(c > 127) = (127 < uint c)" by (simp add: word_less_def)
  moreover have "uint (c + 1) = (uint c + 1) mod 256" by (simp add: uint_word_ariths)
  moreover have "(uint c + 1) mod 256 mod 128 = (uint c + 1) mod 128" by (simp add: mod_mod_cancel)
  ultimately show ?thesis by (simp add: RPL_LOLLIPOP_INCREMENT_def m)
qed

text \<open>C27. An incremented lollipop counter is always newer than the counter it was made from, and never the
  other way round, across both wrap-arounds: a node that increments its DODAG version, DTSN or DAO
  sequence number is always seen to have done so by a node holding the previous value.\<close>

theorem lollipop_increment_newer:
  "lollipop_greater_than (uint (RPL_LOLLIPOP_INCREMENT c)) (uint c) \<and>
   \<not> lollipop_greater_than (uint c) (uint (RPL_LOLLIPOP_INCREMENT c))"
proof -
  have "uint c < 256" "0 \<le> uint c" using uint_bounded [of c] by simp_all
  then consider "uint c < 127" | "uint c = 127" | "127 < uint c" "uint c < 255" | "uint c = 255" by linarith
  then show ?thesis
    by cases (simp_all add: uint_lollipop_increment lollipop_greater_than_def \<open>0 \<le> uint c\<close>)
qed

text \<open>Two counters can each be newer than the other: for a counter \<open>a\<close> still in the initial region and a
  counter \<open>b\<close> of the circular region that lies within reach behind it, both comparisons succeed. Two
  nodes with such DODAG versions both take the other's version for newer and start a global repair.\<close>

theorem lollipop_both_newer:
  assumes "127 < a" and "a \<le> 255" and "0 \<le> b" and "b \<le> 127" and "a - b < 240" and "112 < a - b"
  shows "lollipop_greater_than a b \<and> lollipop_greater_than b a"
  using assms by (simp add: lollipop_greater_than_def)

theorem lollipop_both_newer_witness: "lollipop_greater_than 250 20 \<and> lollipop_greater_than 20 250"
  using lollipop_both_newer [of 250 20] by simp

end
