(* ===== verification/RplOf.thy ===== *)
theory RplOf
  imports RplDefs
begin

text \<open>
  The objective functions: the lifetime-maximising one of SEDA-Net (\<open>core/net/rpl/rpl-of-ltmax.c\<close>, the
  one the node runs), MRHOF (\<open>rpl-mrhof.c\<close>) and OF0 (\<open>rpl-of0.c\<close>). A call through
  \<open>instance->of\<close> is a dispatch on the objective function. Metrics and ranks are 16-bit words; the
  comparisons of two metrics are C \<open>int\<close> comparisons of the promoted values. \<open>None\<close> is a null pointer
  dereference.
\<close>

unbundle bit_operations_syntax

definition ETX_SCALE :: u32 where "ETX_SCALE = 100"
definition ETX_ALPHA :: u32 where "ETX_ALPHA = 90"
definition MAX_LINK_METRIC :: u16 where "MAX_LINK_METRIC = 10"
definition MAX_PATH_COST :: u16 where "MAX_PATH_COST = 100"
definition MAC_TX_OK :: int where "MAC_TX_OK = 0"
definition MAC_TX_NOACK :: int where "MAC_TX_NOACK = 2"

lemmas of_consts = ETX_SCALE_def ETX_ALPHA_def MAX_LINK_METRIC_def MAX_PATH_COST_def MAC_TX_OK_def
  MAC_TX_NOACK_def

subsection \<open>The lifetime-maximising objective function\<close>

definition ltmax_calculate_path_metric :: "ptr \<Rightarrow> rpl_state \<Rightarrow> u16" where
  "ltmax_calculate_path_metric p s = (case p of
     None \<Rightarrow> MAX_PATH_COST * RPL_DAG_MC_ETX_DIVISOR
   | Some k \<Rightarrow> (case rpl_get_nbr (Some k) s of
       None \<Rightarrow> MAX_PATH_COST * RPL_DAG_MC_ETX_DIVISOR
     | Some _ \<Rightarrow>
         let q = parents s k
         in if init_phase s then p_rank q + ucast (p_parent_weight q) * RPL_DAG_MC_ETX_DIVISOR
            else p_rank q + ucast (p_parent_weight q) *
                   (ucast (p_parent_sum_weight q) + ucast (p_est_load q)) * RPL_DAG_MC_ETX_DIVISOR))"

text \<open>The moving average of the link metric, shared by the two functions that keep one: the record of a
  valid metric is averaged with the metric of the packet, an invalid one is replaced.\<close>

definition ett_average :: "u16 \<Rightarrow> u16 \<Rightarrow> u16" where
  "ett_average recorded packet =
     ucast ((ucast recorded * ETX_ALPHA + ucast packet * (ETX_SCALE - ETX_ALPHA)) div ETX_SCALE :: u32)"

definition packet_ett :: "int \<Rightarrow> int \<Rightarrow> u16" where
  "packet_ett status numtx =
     (if status = MAC_TX_NOACK then MAX_LINK_METRIC * RPL_DAG_MC_ETX_DIVISOR
      else word_of_int numtx * RPL_DAG_MC_ETX_DIVISOR)"

definition ltmax_neighbor_link_callback :: "nat \<Rightarrow> int \<Rightarrow> int \<Rightarrow> rpl_state \<Rightarrow> rpl_state option" where
  "ltmax_neighbor_link_callback p status numtx s =
     (if numtx = 0 then Some s
      else (case rpl_get_nbr (Some p) s of
        None \<Rightarrow> Some s
      | Some n \<Rightarrow>
          if status = MAC_TX_OK \<or> status = MAC_TX_NOACK
          then do {
            let valid = p_flags (parents s p) AND RPL_PARENT_FLAG_LINK_METRIC_VALID \<noteq> 0;
            let new_ett = (if valid then ett_average (nb_link_metric (ds6_neighbors s n)) (packet_ett status numtx)
                           else packet_ett status numtx);
            let s1 = mod_parent p (\<lambda>q. q\<lparr>p_flags := p_flags q OR RPL_PARENT_FLAG_LINK_METRIC_VALID\<rparr>) s;
            let s2 = set_nbr n ((ds6_neighbors s1 n)\<lparr>nb_link_metric := new_ett\<rparr>) s1;
            is_longrange \<leftarrow> long_ip_from_lladdr_map (nb_ipaddr (ds6_neighbors s2 n)) s2;
            let ratio = (if is_longrange = 1 then LONG_WEIGHT_RATIO else 1);
            Some (mod_parent p (\<lambda>q. q\<lparr>p_parent_weight :=
                    (if new_ett = 0 then 1 * ratio
                     else ucast (new_ett div RPL_DAG_MC_ETX_DIVISOR * ucast ratio))\<rparr>) s2)
          }
          else Some s))"

definition ltmax_calculate_rank :: "ptr \<Rightarrow> u16 \<Rightarrow> rpl_state \<Rightarrow> u16" where
  "ltmax_calculate_rank p base_rank s =
     (if p = None \<or> rpl_get_nbr p s = None
      then if base_rank = 0 then INFINITE_RANK
           else let rank_increase = RPL_INIT_LINK_METRIC * RPL_DAG_MC_ETX_DIVISOR
                in if INFINITE_RANK - base_rank < rank_increase then INFINITE_RANK
                   else base_rank + rank_increase
      else let rank_increase = RPL_INIT_LINK_METRIC * RPL_DAG_MC_ETX_DIVISOR;
               base = (if base_rank = 0 then p_rank (parents s (the p)) else base_rank)
           in if INFINITE_RANK - base < rank_increase then INFINITE_RANK
              else base + rank_increase)"

text \<open>\<open>best_dag\<close> is the same in the two files.\<close>

definition ltmax_best_dag :: "dagptr \<Rightarrow> dagptr \<Rightarrow> rpl_state \<Rightarrow> dagptr" where
  "ltmax_best_dag d1 d2 s =
     (let a = dag_table s d1; b = dag_table s d2
      in if d_grounded a \<noteq> d_grounded b then if d_grounded a \<noteq> 0 then d1 else d2
         else if d_preference a \<noteq> d_preference b then if d_preference a > d_preference b then d1 else d2
         else if d_rank a < d_rank b then d1 else d2)"

text \<open>The comparison of two parents. In the initial phase a link with a metric of at least six
  transmissions is avoided, ties of the path metric leave the preferred parent; afterwards the lower
  rank wins and among equal ranks the path metric decides, with a hysteresis in favour of the
  preferred parent that depends on the level of the tree.\<close>

definition link_is_bad :: "uip_ds6_nbr \<Rightarrow> bool" where
  "link_is_bad n \<longleftrightarrow> nb_link_metric n \<ge> 6 * RPL_DAG_MC_ETX_DIVISOR"

definition similar_metric :: "int \<Rightarrow> u16 \<Rightarrow> u16 \<Rightarrow> bool" where
  "similar_metric d m1 m2 \<longleftrightarrow> uint m1 \<le> uint m2 + d \<and> uint m1 \<ge> uint m2 - d"

definition dag_preferred :: "nat \<Rightarrow> rpl_state \<Rightarrow> ptr option" where
  "dag_preferred p s = do { dag \<leftarrow> p_dag (parents s p); Some (d_preferred_parent (dag_table s dag)) }"

definition ltmax_init_best :: "nat \<Rightarrow> nat \<Rightarrow> uip_ds6_nbr \<Rightarrow> uip_ds6_nbr \<Rightarrow> rpl_state \<Rightarrow> (rpl_state \<times> ptr) option" where
  "ltmax_init_best p1 p2 nbr1 nbr2 s =
     (let m1 = ltmax_calculate_path_metric (Some p1) s; m2 = ltmax_calculate_path_metric (Some p2) s
      in if link_is_bad nbr1 \<and> link_is_bad nbr2
         then (case c_rand s of (r, s') \<Rightarrow> Some (s', if r mod 2 = 0 then Some p1 else Some p2))
         else if link_is_bad nbr1 then Some (s, Some p2)
         else if link_is_bad nbr2 then Some (s, Some p1)
         else if m1 = m2
         then do {
           preferred \<leftarrow> dag_preferred p1 s;
           if Some p1 = preferred then Some (s, Some p2)
           else if Some p2 = preferred then Some (s, Some p1)
           else Some (s, Some p1)
         }
         else Some (s, if m1 \<le> m2 then Some p1 else Some p2))"

definition ltmax_level_best :: "nat \<Rightarrow> nat \<Rightarrow> rpl_state \<Rightarrow> ptr option" where
  "ltmax_level_best p1 p2 s =
     (let m1 = ltmax_calculate_path_metric (Some p1) s; m2 = ltmax_calculate_path_metric (Some p2) s;
          better = (if m1 \<le> m2 then Some p1 else Some p2)
      in if tree_level s = 1 then Some better
         else do {
           preferred \<leftarrow> dag_preferred p1 s;
           if tree_level s = 2
           then if (Some p1 = preferred \<or> Some p2 = preferred) \<and>
                   similar_metric (uint RPL_DAG_MC_ETX_DIVISOR) m1 m2
                then Some preferred else Some better
           else if Some p1 = preferred \<or> Some p2 = preferred
           then do {
             c \<leftarrow> count_latest s;
             if similar_metric ((uint c + 1) * uint RPL_DAG_MC_ETX_DIVISOR) m1 m2
             then Some preferred else Some better
           }
           else Some better
         })"

definition ltmax_best_parent :: "nat \<Rightarrow> nat \<Rightarrow> rpl_state \<Rightarrow> (rpl_state \<times> ptr) option" where
  "ltmax_best_parent p1 p2 s = do {
     n1 \<leftarrow> rpl_get_nbr (Some p1) s;
     n2 \<leftarrow> rpl_get_nbr (Some p2) s;
     let nbr1 = ds6_neighbors s n1;
     let nbr2 = ds6_neighbors s n2;
     if init_phase s then ltmax_init_best p1 p2 nbr1 nbr2 s
     else if link_is_bad nbr1 \<and> link_is_bad nbr2
     then Some (s, if nb_link_metric nbr1 \<le> nb_link_metric nbr2 then Some p1 else Some p2)
     else if link_is_bad nbr1 then Some (s, Some p2)
     else if link_is_bad nbr2 then Some (s, Some p1)
     else if p_rank (parents s p1) < p_rank (parents s p2) then Some (s, Some p1)
     else if p_rank (parents s p1) > p_rank (parents s p2) then Some (s, Some p2)
     else do { r \<leftarrow> ltmax_level_best p1 p2 s; Some (s, r) }
   }"

subsection \<open>MRHOF\<close>

definition mrhof_calculate_path_metric :: "ptr \<Rightarrow> rpl_state \<Rightarrow> u16" where
  "mrhof_calculate_path_metric p s = (case p of
     None \<Rightarrow> MAX_PATH_COST * RPL_DAG_MC_ETX_DIVISOR
   | Some k \<Rightarrow> (case rpl_get_nbr (Some k) s of
       None \<Rightarrow> MAX_PATH_COST * RPL_DAG_MC_ETX_DIVISOR
     | Some n \<Rightarrow> p_rank (parents s k) + nb_link_metric (ds6_neighbors s n)))"

definition mrhof_neighbor_link_callback :: "nat \<Rightarrow> int \<Rightarrow> int \<Rightarrow> rpl_state \<Rightarrow> rpl_state option" where
  "mrhof_neighbor_link_callback p status numtx s = (case rpl_get_nbr (Some p) s of
     None \<Rightarrow> Some s
   | Some n \<Rightarrow>
       if status = MAC_TX_OK \<or> status = MAC_TX_NOACK
       then let valid = p_flags (parents s p) AND RPL_PARENT_FLAG_LINK_METRIC_VALID \<noteq> 0;
                new_etx = (if valid then ett_average (nb_link_metric (ds6_neighbors s n)) (packet_ett status numtx)
                           else packet_ett status numtx);
                s1 = mod_parent p (\<lambda>q. q\<lparr>p_flags := p_flags q OR RPL_PARENT_FLAG_LINK_METRIC_VALID\<rparr>) s
            in Some (set_nbr n ((ds6_neighbors s1 n)\<lparr>nb_link_metric := new_etx\<rparr>) s1)
       else Some s)"

definition mrhof_calculate_rank :: "ptr \<Rightarrow> u16 \<Rightarrow> rpl_state \<Rightarrow> u16" where
  "mrhof_calculate_rank p base_rank s = (case (p, rpl_get_nbr p s) of
     (Some k, Some n) \<Rightarrow>
       let rank_increase = nb_link_metric (ds6_neighbors s n);
           base = (if base_rank = 0 then p_rank (parents s k) else base_rank)
       in if INFINITE_RANK - base < rank_increase then INFINITE_RANK else base + rank_increase
   | _ \<Rightarrow>
       if base_rank = 0 then INFINITE_RANK
       else let rank_increase = RPL_INIT_LINK_METRIC * RPL_DAG_MC_ETX_DIVISOR
            in if INFINITE_RANK - base_rank < rank_increase then INFINITE_RANK
               else base_rank + rank_increase)"

definition mrhof_best_dag :: "dagptr \<Rightarrow> dagptr \<Rightarrow> rpl_state \<Rightarrow> dagptr" where
  "mrhof_best_dag d1 d2 s =
     (let a = dag_table s d1; b = dag_table s d2
      in if d_grounded a \<noteq> d_grounded b then if d_grounded a \<noteq> 0 then d1 else d2
         else if d_preference a \<noteq> d_preference b then if d_preference a > d_preference b then d1 else d2
         else if d_rank a < d_rank b then d1 else d2)"

definition mrhof_best_parent :: "nat \<Rightarrow> nat \<Rightarrow> rpl_state \<Rightarrow> (rpl_state \<times> ptr) option" where
  "mrhof_best_parent p1 p2 s = do {
     dag \<leftarrow> p_dag (parents s p1);
     let preferred = d_preferred_parent (dag_table s dag);
     let min_diff = uint (RPL_DAG_MC_ETX_DIVISOR div 2);
     let m1 = mrhof_calculate_path_metric (Some p1) s;
     let m2 = mrhof_calculate_path_metric (Some p2) s;
     if (Some p1 = preferred \<or> Some p2 = preferred) \<and>
        uint m1 < uint m2 + min_diff \<and> uint m1 > uint m2 - min_diff
     then Some (s, preferred)
     else Some (s, if m1 < m2 then Some p1 else Some p2)
   }"

subsection \<open>OF0\<close>

definition of0_calculate_rank :: "ptr \<Rightarrow> u16 \<Rightarrow> rpl_state \<Rightarrow> u16 option" where
  "of0_calculate_rank p base_rank s =
     (if base_rank = 0 \<and> p = None then Some INFINITE_RANK
      else let base = (if base_rank = 0 then p_rank (parents s (the p)) else base_rank)
           in do {
             increment \<leftarrow> (case p of
                None \<Rightarrow> Some RPL_MIN_HOPRANKINC
              | Some k \<Rightarrow> do {
                  d \<leftarrow> p_dag (parents s k);
                  i \<leftarrow> d_instance (dag_table s d);
                  Some (i_min_hoprankinc (instance_table s i)) });
             Some (if base + increment < base then INFINITE_RANK else base + increment)
           })"

definition of0_best_dag :: "dagptr \<Rightarrow> dagptr \<Rightarrow> rpl_state \<Rightarrow> dagptr" where
  "of0_best_dag d1 d2 s =
     (let a = dag_table s d1; b = dag_table s d2
      in if d_grounded a \<noteq> 0 \<and> d_grounded b = 0 then d1
         else if d_grounded a = 0 \<and> d_grounded b \<noteq> 0 then d2
         else if d_preference a < d_preference b then d2
         else if d_preference a > d_preference b then d1
         else if d_rank b < d_rank a then d2 else d1)"

text \<open>The combined rank OF0 compares, truncated to 16 bits; \<open>inst\<close> is the instance of the first parent.\<close>

definition of0_combined :: "nat \<Rightarrow> uip_ds6_nbr \<Rightarrow> rpl_instance \<Rightarrow> rpl_state \<Rightarrow> u16 option" where
  "of0_combined p nbr inst s = do {
     r \<leftarrow> DAG_RANK (uint (p_rank (parents s p))) inst;
     l \<leftarrow> long_ip_from_lladdr_map (nb_ipaddr nbr) s;
     Some (word_of_int (r * uint RPL_MIN_HOPRANKINC +
             uint (nb_link_metric nbr) * (if l \<noteq> 0 then uint LONG_WEIGHT_RATIO else 1)))
   }"

definition of0_best_parent :: "nat \<Rightarrow> nat \<Rightarrow> rpl_state \<Rightarrow> (rpl_state \<times> ptr) option" where
  "of0_best_parent p1 p2 s = do {
     dag \<leftarrow> p_dag (parents s p1);
     let preferred = d_preferred_parent (dag_table s dag);
     case (rpl_get_nbr (Some p1) s, rpl_get_nbr (Some p2) s) of
       (Some n1, Some n2) \<Rightarrow> do {
         i \<leftarrow> d_instance (dag_table s dag);
         r1 \<leftarrow> of0_combined p1 (ds6_neighbors s n1) (instance_table s i) s;
         r2 \<leftarrow> of0_combined p2 (ds6_neighbors s n2) (instance_table s i) s;
         let min_difference = uint RPL_MIN_HOPRANKINC + uint RPL_MIN_HOPRANKINC div 2;
         if uint r1 < uint r2 + min_difference \<and> uint r1 > uint r2 - min_difference
         then Some (s, preferred)
         else Some (s, if r1 < r2 then Some p1 else Some p2)
       }
     | _ \<Rightarrow> Some (s, preferred)
   }"

subsection \<open>Calls through the objective function of an instance\<close>

definition RPL_OF :: rpl_of where "RPL_OF = LTMAX"

definition objective_functions :: "rpl_of list" where "objective_functions = [RPL_OF]"

fun of_ocp :: "rpl_of \<Rightarrow> u16" where
  "of_ocp LTMAX = 1" | "of_ocp MRHOF = 1" | "of_ocp OF0 = 0"

fun of_calculate_rank :: "rpl_of \<Rightarrow> ptr \<Rightarrow> u16 \<Rightarrow> rpl_state \<Rightarrow> u16 option" where
  "of_calculate_rank LTMAX p b s = Some (ltmax_calculate_rank p b s)"
| "of_calculate_rank MRHOF p b s = Some (mrhof_calculate_rank p b s)"
| "of_calculate_rank OF0 p b s = of0_calculate_rank p b s"

fun of_best_parent :: "rpl_of \<Rightarrow> nat \<Rightarrow> nat \<Rightarrow> rpl_state \<Rightarrow> (rpl_state \<times> ptr) option" where
  "of_best_parent LTMAX p1 p2 s = ltmax_best_parent p1 p2 s"
| "of_best_parent MRHOF p1 p2 s = mrhof_best_parent p1 p2 s"
| "of_best_parent OF0 p1 p2 s = of0_best_parent p1 p2 s"

fun of_best_dag :: "rpl_of \<Rightarrow> dagptr \<Rightarrow> dagptr \<Rightarrow> rpl_state \<Rightarrow> dagptr" where
  "of_best_dag LTMAX d1 d2 s = ltmax_best_dag d1 d2 s"
| "of_best_dag MRHOF d1 d2 s = mrhof_best_dag d1 d2 s"
| "of_best_dag OF0 d1 d2 s = of0_best_dag d1 d2 s"

fun of_neighbor_link_callback :: "rpl_of \<Rightarrow> (nat \<Rightarrow> int \<Rightarrow> int \<Rightarrow> rpl_state \<Rightarrow> rpl_state option) option" where
  "of_neighbor_link_callback LTMAX = Some ltmax_neighbor_link_callback"
| "of_neighbor_link_callback MRHOF = Some mrhof_neighbor_link_callback"
| "of_neighbor_link_callback OF0 = None"

definition of_update_metric_container :: "rpl_of \<Rightarrow> nat \<Rightarrow> rpl_state \<Rightarrow> rpl_state" where
  "of_update_metric_container f i s =
     mod_inst i (\<lambda>x. x\<lparr>i_mc := (i_mc x)\<lparr>mc_type := RPL_DAG_MC_NONE\<rparr>\<rparr>) s"

fun find_of_loop :: "u16 \<Rightarrow> rpl_of list \<Rightarrow> rpl_of option" where
  "find_of_loop ocp [] = None"
| "find_of_loop ocp (f # fs) = (if of_ocp f = ocp then Some f else find_of_loop ocp fs)"

definition rpl_find_of :: "u16 \<Rightarrow> rpl_of option" where
  "rpl_find_of ocp = find_of_loop ocp objective_functions"


subsection \<open>The contract of an objective function\<close>

text \<open>\<open>follows calculate usable ranks par\<close>: every node \<open>n\<close> with a preferred parent \<open>m\<close> has a finite rank, which it
  computed with \<open>calculate\<close> in a state where \<open>m\<close> is the neighbour \<open>p\<close> and had advertised its rank.\<close>

definition follows ::
  "(ptr \<Rightarrow> u16 \<Rightarrow> rpl_state \<Rightarrow> u16 option) \<Rightarrow> (rpl_state \<Rightarrow> nat \<Rightarrow> bool) \<Rightarrow> ('n \<Rightarrow> u16) \<Rightarrow> ('n \<Rightarrow> 'n option) \<Rightarrow> bool" where
  "follows calculate usable ranks par \<longleftrightarrow> (\<forall>n m. par n = Some m \<longrightarrow>
     ranks n \<noteq> INFINITE_RANK \<and>
     (\<exists>s p. usable s p \<and> p_rank (parents s p) = ranks m \<and> calculate (Some p) 0 s = Some (ranks n)))"

text \<open>What the rest of RPL relies on: a rank computed from a usable parent is infinite or larger than the
  rank the parent advertised, and without a parent it is infinite. \<open>usable\<close> is the condition on the
  parent's record under which the function keeps its promise.\<close>

locale objective_function =
  fixes calculate :: "ptr \<Rightarrow> u16 \<Rightarrow> rpl_state \<Rightarrow> u16 option"
    and usable :: "rpl_state \<Rightarrow> nat \<Rightarrow> bool"
  assumes no_parent: "calculate None 0 s = Some INFINITE_RANK"
    and increases: "usable s p \<Longrightarrow> calculate (Some p) 0 s = Some r \<Longrightarrow>
          r = INFINITE_RANK \<or> p_rank (parents s p) < r"
begin

lemma rank_decreases: "follows calculate usable ranks par \<Longrightarrow> par n = Some m \<Longrightarrow> ranks m < ranks n"
  unfolding follows_def by (metis increases)

lemma path_decreases:
  assumes "follows calculate usable ranks par" and "(n, m) \<in> {(a, b). par a = Some b}\<^sup>+"
  shows "ranks m < ranks n"
  using assms(2)
proof (induction rule: trancl_induct)
  case (base m)
  then show ?case using rank_decreases [OF assms(1)] by simp
next
  case (step m k)
  then have "ranks k < ranks m" using rank_decreases [OF assms(1)] by simp
  with step.IH show ?case by simp
qed

lemma loop_free: "follows calculate usable ranks par \<Longrightarrow> acyclic {(a, b). par a = Some b}"
proof -
  assume f: "follows calculate usable ranks par"
  have "(x, x) \<notin> {(a, b). par a = Some b}\<^sup>+" for x
    using path_decreases [OF f, of x x] by auto
  then show ?thesis by (simp add: acyclic_def)
qed

end

lemma rank_room: "\<not> INFINITE_RANK - b < i \<Longrightarrow> 0 < i \<Longrightarrow> b < b + (i :: u16)"
proof -
  assume a: "\<not> INFINITE_RANK - b < i" "0 < i"
  have "b \<le> INFINITE_RANK" using unat_u16_bound [of b] by (simp add: INFINITE_RANK_def word_le_nat_alt)
  then have "unat (INFINITE_RANK - b) = 65535 - unat b"
    by (simp add: unat_sub INFINITE_RANK_def)
  with a(1) unat_u16_bound [of b] have "unat b + unat i < 65536" by (simp add: word_less_nat_alt)
  then have "unat (b + i) = unat b + unat i" by (simp add: unat_plus_if')
  moreover have "0 < unat i" using a(2) by (simp add: word_less_nat_alt)
  ultimately show "b < b + i" by (simp add: word_less_nat_alt)
qed

lemma ltmax_rank_increases:
  "ltmax_calculate_rank (Some p) 0 s = INFINITE_RANK \<or>
   p_rank (parents s p) < ltmax_calculate_rank (Some p) 0 s"
  by (auto simp: ltmax_calculate_rank_def Let_def rpl_consts(6,7) intro!: rank_room)

lemma mrhof_rank_increases:
  assumes "nb_link_metric (ds6_neighbors s n) \<noteq> 0" and "rpl_get_nbr (Some p) s = Some n"
  shows "mrhof_calculate_rank (Some p) 0 s = INFINITE_RANK \<or>
    p_rank (parents s p) < mrhof_calculate_rank (Some p) 0 s"
  using assms by (auto simp: mrhof_calculate_rank_def Let_def word_gt_0 intro!: rank_room)

lemma of0_rank_increases:
  assumes "of0_calculate_rank (Some p) 0 s = Some r"
    and "\<And>d i. p_dag (parents s p) = Some d \<Longrightarrow> d_instance (dag_table s d) = Some i \<Longrightarrow>
           i_min_hoprankinc (instance_table s i) \<noteq> 0"
  shows "r = INFINITE_RANK \<or> p_rank (parents s p) < r"
proof -
  from assms(1) obtain d i where d: "p_dag (parents s p) = Some d" "d_instance (dag_table s d) = Some i"
    and r: "r = (let b = p_rank (parents s p); h = i_min_hoprankinc (instance_table s i)
                 in if b + h < b then INFINITE_RANK else b + h)"
    by (auto simp: of0_calculate_rank_def Let_def elim!: bind_SomeE)
  let ?b = "p_rank (parents s p)" and ?h = "i_min_hoprankinc (instance_table s i)"
  have "?h \<noteq> 0" using assms(2) d by blast
  then have "?b + ?h \<noteq> ?b" by simp
  with r show ?thesis by (auto simp: Let_def not_less)
qed

text \<open>When MRHOF's link metric, or OF0's rank increment, is known not to be zero.\<close>

definition mrhof_usable :: "rpl_state \<Rightarrow> nat \<Rightarrow> bool" where
  "mrhof_usable s p \<longleftrightarrow> (case rpl_get_nbr (Some p) s of
     None \<Rightarrow> True | Some n \<Rightarrow> nb_link_metric (ds6_neighbors s n) \<noteq> 0)"

definition of0_usable :: "rpl_state \<Rightarrow> nat \<Rightarrow> bool" where
  "of0_usable s p \<longleftrightarrow> (case p_dag (parents s p) of
     None \<Rightarrow> True
   | Some d \<Rightarrow> (case d_instance (dag_table s d) of
       None \<Rightarrow> True | Some i \<Rightarrow> i_min_hoprankinc (instance_table s i) \<noteq> 0))"

lemma get_nbr_None [simp]: "rpl_get_nbr None s = None"
  by (simp add: rpl_get_nbr_def nbr_table_get_lladdr_def)

interpretation ltmax: objective_function "of_calculate_rank LTMAX" "\<lambda>_ _. True"
proof
  show "of_calculate_rank LTMAX None 0 s = Some INFINITE_RANK" for s
    by (simp add: ltmax_calculate_rank_def)
  show "r = INFINITE_RANK \<or> p_rank (parents s p) < r"
    if "of_calculate_rank LTMAX (Some p) 0 s = Some r" for s p r
    using that ltmax_rank_increases [of p s] by auto
qed

interpretation mrhof: objective_function "of_calculate_rank MRHOF" mrhof_usable
proof
  show "of_calculate_rank MRHOF None 0 s = Some INFINITE_RANK" for s
    by (simp add: mrhof_calculate_rank_def)
  show "r = INFINITE_RANK \<or> p_rank (parents s p) < r"
    if u: "mrhof_usable s p" and r: "of_calculate_rank MRHOF (Some p) 0 s = Some r" for s p r
  proof (cases "rpl_get_nbr (Some p) s")
    case None
    with r show ?thesis by (simp add: mrhof_calculate_rank_def)
  next
    case (Some n)
    with u r mrhof_rank_increases [OF _ Some] show ?thesis by (auto simp: mrhof_usable_def)
  qed
qed

interpretation of0: objective_function "of_calculate_rank OF0" of0_usable
proof
  show "of_calculate_rank OF0 None 0 s = Some INFINITE_RANK" for s
    by (simp add: of0_calculate_rank_def)
  show "r = INFINITE_RANK \<or> p_rank (parents s p) < r"
    if u: "of0_usable s p" and r: "of_calculate_rank OF0 (Some p) 0 s = Some r" for s p r
  proof (rule of0_rank_increases)
    show "of0_calculate_rank (Some p) 0 s = Some r" using r by simp
  qed (use u in \<open>simp add: of0_usable_def\<close>)
qed


subsection \<open>Properties\<close>

text \<open>C3. Loop freedom of the routing tree: when every node with a preferred parent has a finite rank it
  computed with SEDA-Net's objective function from the rank its parent advertised, following preferred
  parents never leads back to a node, whatever the number of nodes and the link metrics are.\<close>

theorem ltmax_loop_free:
  assumes "follows (of_calculate_rank LTMAX) (\<lambda>_ _. True) ranks par"
  shows "acyclic {(a, b). par a = Some b}"
  using assms by (rule ltmax.loop_free)

theorem ltmax_loop_free_witness:
  "acyclic {(a, b). (if a = (1::nat) then Some (0::nat) else None) = Some b}"
proof (rule ltmax_loop_free)
  show "follows (of_calculate_rank LTMAX) (\<lambda>_ _. True) (\<lambda>n. if n = 0 then 256 else 512)
     (\<lambda>a. if a = (1::nat) then Some (0::nat) else None)"
    unfolding follows_def
    by (auto simp: rpl_consts ltmax_calculate_rank_def intro!: exI [of _ demo] exI [of _ "0::nat"] split: if_splits)
qed

subsection \<open>The moving average of the link metric\<close>

lemma unat_ett_average:
  "unat (ett_average a b) = (unat a * 90 + unat b * 10) div 100"
proof -
  let ?n = "unat a * 90 + unat b * 10"
  have n: "?n \<le> 6553500" using unat_u16_bound [of a] unat_u16_bound [of b] by linarith
  have "(ucast a * 90 + ucast b * 10 :: u32) = of_nat ?n" by (simp only: of_nat_add of_nat_mult of_nat_unat of_nat_numeral)
  then have "unat (ucast a * 90 + ucast b * 10 :: u32) = ?n mod 2 ^ LENGTH(32)"
    by (simp only: unat_of_nat)
  also have "\<dots> = ?n" using n by simp
  finally have "unat (ucast a * 90 + ucast b * 10 :: u32) = ?n" .
  moreover have "?n div 100 < 65536" using n by simp
  ultimately show ?thesis
    by (simp add: ett_average_def of_consts unat_div unsigned_ucast_eq take_bit_nat_eq_self)
qed

lemma ett_average_between:
  assumes "lo \<le> unat a" "lo \<le> unat b" "unat a \<le> hi" "unat b \<le> hi"
  shows "lo \<le> unat (ett_average a b) \<and> unat (ett_average a b) \<le> hi"
proof -
  have "lo * 100 \<le> unat a * 90 + unat b * 10" using assms(1,2) by linarith
  moreover have "unat a * 90 + unat b * 10 \<le> hi * 100" using assms(3,4) by linarith
  ultimately have "lo \<le> (unat a * 90 + unat b * 10) div 100 \<and> (unat a * 90 + unat b * 10) div 100 \<le> hi"
    by linarith
  then show ?thesis by (simp only: unat_ett_average)
qed

text \<open>What the callback writes when it has something to do.\<close>

lemma ltmax_callback_fields:
  assumes "ltmax_neighbor_link_callback p status numtx s = Some s'" and "rpl_get_nbr (Some p) s = Some n"
    and "status \<in> {MAC_TX_OK, MAC_TX_NOACK}" and "numtx \<noteq> 0"
    and m: "m = (if p_flags (parents s p) AND RPL_PARENT_FLAG_LINK_METRIC_VALID \<noteq> 0
                 then ett_average (nb_link_metric (ds6_neighbors s n)) (packet_ett status numtx)
                 else packet_ett status numtx)"
  shows "nb_link_metric (ds6_neighbors s' n) = m \<and>
    (\<exists>ratio \<in> {1, 2}. p_parent_weight (parents s' p) = (if m = 0 then ratio else ucast (m div 256 * ucast ratio)))"
proof -
  define f1 :: "rpl_parent \<Rightarrow> rpl_parent" where "f1 = (\<lambda>q. q\<lparr>p_flags := p_flags q OR RPL_PARENT_FLAG_LINK_METRIC_VALID\<rparr>)"
  define s1 where "s1 = mod_parent p f1 s"
  define s2 where "s2 = set_nbr n ((ds6_neighbors s1 n)\<lparr>nb_link_metric := m\<rparr>) s1"
  have st: "status = MAC_TX_OK \<or> status = MAC_TX_NOACK" using assms(3) by auto
  define W where "W l = mod_parent p (\<lambda>q. q\<lparr>p_parent_weight :=
      (if m = 0 then 1 * (if l = 1 then LONG_WEIGHT_RATIO else 1)
       else ucast (m div RPL_DAG_MC_ETX_DIVISOR * ucast (if l = 1 then LONG_WEIGHT_RATIO else 1)))\<rparr>) s2" for l :: u8
  have "Option.bind (long_ip_from_lladdr_map (nb_ipaddr (ds6_neighbors s2 n)) s2) (\<lambda>l. Some (W l)) = Some s'"
    using assms(1) unfolding ltmax_neighbor_link_callback_def W_def
    by (simp only: assms(2,4) st if_True if_False option.case Let_def m [symmetric] f1_def [symmetric]
        s1_def [symmetric] s2_def [symmetric])
  then obtain l where "s' = W l" by (auto elim!: bind_SomeE)
  note l = this [unfolded W_def]
  show ?thesis
  proof
    show "nb_link_metric (ds6_neighbors s' n) = m" by (simp add: l s2_def)
    show "\<exists>ratio \<in> {1, 2}. p_parent_weight (parents s' p) = (if m = 0 then ratio else ucast (m div 256 * ucast ratio))"
      by (rule bexI [of _ "if l = 1 then 2 else 1"]) (simp_all add: l rpl_consts)
  qed
qed

lemma packet_ett_bounds:
  assumes "1 \<le> numtx" and "numtx \<le> 10"
  shows "256 \<le> unat (packet_ett status numtx) \<and> unat (packet_ett status numtx) \<le> 2560"
proof -
  have "uint (word_of_int numtx :: u16) = numtx" using assms by (simp add: uint_word_of_int)
  then have "unat (word_of_int numtx :: u16) = nat numtx" by (simp add: nat_uint_eq [symmetric] del: nat_uint_eq)
  then have "unat (word_of_int numtx * 256 :: u16) = nat numtx * 256"
    using assms by (simp add: unat_mult_lem [THEN iffD1] unat_word_ariths)
  moreover have "1 \<le> nat numtx \<and> nat numtx \<le> 10" using assms by linarith
  ultimately show ?thesis by (simp add: packet_ett_def of_consts rpl_consts)
qed

text \<open>C23. The link metric stays a transmission count between 1 and 10 (in units of 256), and the weight
  a parent is given a positive cost of at most 20: this holds after every acknowledged or unacknowledged
  transmission of up to ten attempts if it held before or there was no valid metric yet.\<close>

theorem link_metric_bounds:
  assumes "ltmax_neighbor_link_callback p status numtx s = Some s'" and "rpl_get_nbr (Some p) s = Some n"
    and "status \<in> {MAC_TX_OK, MAC_TX_NOACK}" and "1 \<le> numtx" and "numtx \<le> 10"
    and "p_flags (parents s p) AND RPL_PARENT_FLAG_LINK_METRIC_VALID \<noteq> 0 \<longrightarrow>
           nb_link_metric (ds6_neighbors s n) \<in> {256..2560}"
  shows "nb_link_metric (ds6_neighbors s' n) \<in> {256..2560} \<and> p_parent_weight (parents s' p) \<in> {1..20}"
proof -
  define m where "m = (if p_flags (parents s p) AND RPL_PARENT_FLAG_LINK_METRIC_VALID \<noteq> 0
      then ett_average (nb_link_metric (ds6_neighbors s n)) (packet_ett status numtx)
      else packet_ett status numtx)"
  have "numtx \<noteq> 0" using assms(4) by simp
  note fields = ltmax_callback_fields [OF assms(1-3) this m_def]
  note packet = packet_ett_bounds [OF assms(4,5), of status]
  have b: "256 \<le> unat m \<and> unat m \<le> 2560"
  proof (cases "p_flags (parents s p) AND RPL_PARENT_FLAG_LINK_METRIC_VALID \<noteq> 0")
    case True
    with assms(6) have "256 \<le> unat (nb_link_metric (ds6_neighbors s n)) \<and> unat (nb_link_metric (ds6_neighbors s n)) \<le> 2560"
      by (simp add: word_le_nat_alt)
    with packet True ett_average_between [of 256 _ _ 2560] show ?thesis by (simp add: m_def)
  qed (use packet in \<open>simp add: m_def\<close>)
  have d: "unat (m div 256) \<in> {1..10}"
    using b div_le_mono [of 256 "unat m" 256] div_le_mono [of "unat m" 2560 256] by (simp add: unat_div)
  from b have "m \<noteq> 0" by auto
  from fields obtain r where r: "r \<in> {1, 2}"
    "p_parent_weight (parents s' p) = (if m = 0 then r else ucast (m div 256 * ucast r))" by blast
  from r(2) \<open>m \<noteq> 0\<close> have w: "p_parent_weight (parents s' p) = ucast (m div 256 * ucast r)"
    by (simp only: if_False)
  from r(1) d have "unat (ucast (m div 256 * ucast r) :: u8) = unat (m div 256) * unat r"
    by (auto simp: unsigned_ucast_eq take_bit_nat_eq_self unat_word_ariths)
  with r(1) d w have "p_parent_weight (parents s' p) \<in> {1..20}"
    by (auto simp: word_le_nat_alt)
  moreover have "m \<in> {256..2560}" using b by (simp add: word_le_nat_alt)
  ultimately show ?thesis using fields by simp
qed

lemma demo_long_map: "long_ip_from_lladdr_map (demo_ip 0) demo = Some 0"
  by (simp add: long_ip_from_lladdr_map_def uip_ds6_nbr_lookup_def nbr_items_def uses_def table_ids
      uip_ds6_nbr_get_ll_def nbr_table_get_lladdr_def bit_0 demo_ip_def zero_nbr_def demo_ll_def Let_def)

theorem link_metric_bounds_witness:
  "\<exists>s'. ltmax_neighbor_link_callback 0 MAC_TX_NOACK 3 demo = Some s' \<and>
     nb_link_metric (ds6_neighbors s' 0) \<in> {256..2560}"
proof -
  define s2 where "s2 = set_nbr 0 ((ds6_neighbors demo 0)\<lparr>nb_link_metric := packet_ett MAC_TX_NOACK 3\<rparr>)
     (mod_parent 0 (\<lambda>q. q\<lparr>p_flags := p_flags q OR RPL_PARENT_FLAG_LINK_METRIC_VALID\<rparr>) demo)"
  have "uip_ds6_nbr_lookup (Some (demo_ip 0)) s2 = Some 0"
    by (simp add: s2_def uip_ds6_nbr_lookup_def nbr_items_def uses_def table_ids bit_0 demo_ip_def zero_nbr_def)
  then have "\<exists>l. long_ip_from_lladdr_map (demo_ip 0) s2 = Some l"
    by (simp add: long_ip_from_lladdr_map_def uip_ds6_nbr_get_ll_def nbr_table_get_lladdr_def Let_def)
  moreover have "nb_ipaddr (ds6_neighbors s2 0) = demo_ip 0" by (simp add: s2_def)
  ultimately obtain s' where "ltmax_neighbor_link_callback 0 MAC_TX_NOACK 3 demo = Some s'"
    unfolding ltmax_neighbor_link_callback_def
    by (auto simp: Let_def of_consts(6) s2_def)
  with link_metric_bounds [OF this demo_nbr(1)] show ?thesis by simp
qed

subsection \<open>Choosing between two parents\<close>

lemma level_best_choice:
  "ltmax_level_best p1 p2 s = Some r \<Longrightarrow> r = Some p1 \<or> r = Some p2"
  unfolding ltmax_level_best_def Let_def
  by (auto split: if_splits elim!: bind_SomeE)

lemma init_best_choice:
  assumes "ltmax_init_best p1 p2 n1 n2 s = Some (s', r)"
  shows "r = Some p1 \<or> r = Some p2" "link_is_bad n1 \<Longrightarrow> \<not> link_is_bad n2 \<Longrightarrow> r = Some p2"
    "link_is_bad n2 \<Longrightarrow> \<not> link_is_bad n1 \<Longrightarrow> r = Some p1"
  using assms unfolding ltmax_init_best_def Let_def by (auto split: prod.splits if_splits elim!: bind_SomeE)

text \<open>C22. SEDA-Net's comparison of two parents always names one of the two, never one whose link needs six
  transmissions or more while the other does not, and outside the initial phase, between two good links,
  never one with a higher rank than the other.\<close>

theorem ltmax_best_parent_choice:
  assumes "ltmax_best_parent p1 p2 s = Some (s', r)"
    and "rpl_get_nbr (Some p1) s = Some n1" and "rpl_get_nbr (Some p2) s = Some n2"
  shows "(r = Some p1 \<or> r = Some p2) \<and>
    (link_is_bad (ds6_neighbors s n1) \<and> \<not> link_is_bad (ds6_neighbors s n2) \<longrightarrow> r = Some p2) \<and>
    (link_is_bad (ds6_neighbors s n2) \<and> \<not> link_is_bad (ds6_neighbors s n1) \<longrightarrow> r = Some p1) \<and>
    (\<not> init_phase s \<and> \<not> link_is_bad (ds6_neighbors s n1) \<and> \<not> link_is_bad (ds6_neighbors s n2) \<longrightarrow>
       (p_rank (parents s p1) < p_rank (parents s p2) \<longrightarrow> r = Some p1) \<and>
       (p_rank (parents s p2) < p_rank (parents s p1) \<longrightarrow> r = Some p2))"
proof -
  note e = assms(1) [unfolded ltmax_best_parent_def, simplified assms(2,3) bind.bind_lunit Let_def]
  show ?thesis
  proof (cases "init_phase s")
    case True
    with e have "ltmax_init_best p1 p2 (ds6_neighbors s n1) (ds6_neighbors s n2) s = Some (s', r)" by simp
    from init_best_choice [OF this] show ?thesis using True by blast
  next
    case False
    with e show ?thesis using level_best_choice [of p1 p2 s]
      by (auto split: if_splits elim!: bind_SomeE)
  qed
qed

theorem ltmax_best_parent_choice_witness:
  "ltmax_best_parent 0 1 (mod_parent 1 (\<lambda>q. q\<lparr>p_rank := 512\<rparr>) demo) =
     Some (mod_parent 1 (\<lambda>q. q\<lparr>p_rank := 512\<rparr>) demo, Some 0)"
proof -
  let ?s = "mod_parent 1 (\<lambda>q. q\<lparr>p_rank := 512\<rparr>) demo"
  have n: "rpl_get_nbr (Some 0) ?s = Some 0" "rpl_get_nbr (Some 1) ?s = Some 1"
    by (simp_all add: rpl_get_nbr_def nbr_table_get_lladdr_def nbr_table_get_from_lladdr_def
        index_from_lladdr_def nbr_get_bit_def item_from_index_def table_ids demo_ll_def)
  have "\<exists>r. ltmax_best_parent 0 1 ?s = Some (?s, r)"
    using n by (simp add: ltmax_best_parent_def link_is_bad_def rpl_consts)
  then obtain r where r: "ltmax_best_parent 0 1 ?s = Some (?s, r)" by blast
  with ltmax_best_parent_choice [OF r n] show ?thesis
    by (simp add: link_is_bad_def rpl_consts)
qed

end
