(* ===== verification/RplTimers.thy ===== *)
theory RplTimers
  imports RplOf
begin

text \<open>
  The timers of RPL (\<open>core/net/rpl/rpl-timers.c\<close>) as far as they do not send messages: the Trickle timer
  of the DIOs, the two DAO timers and the periodic timer. All times are 32-bit numbers of clock ticks
  (milliseconds). \<open>None\<close> is a shift by 32 or more or a division by zero, which C leaves undefined.
\<close>

unbundle bit_operations_syntax

definition RPL_DIS_INTERVAL :: u16 where "RPL_DIS_INTERVAL = 60"
definition RPL_DIS_START_DELAY :: u16 where "RPL_DIS_START_DELAY = 5"
definition RPL_DAO_DELAY :: u32 where "RPL_DAO_DELAY = 4000"

definition rpl_get_mode :: "rpl_state \<Rightarrow> rpl_mode" where
  "rpl_get_mode s = mode s"

subsection \<open>The Trickle timer\<close>

definition new_dio_interval :: "nat \<Rightarrow> rpl_state \<Rightarrow> rpl_state option" where
  "new_dio_interval i s =
     (let cur = unat (i_dio_intcurrent (instance_table s i))
      in if 32 \<le> cur then None
         else let time = push_bit cur 1 :: u32;
                  ticks = time * CLOCK_SECOND div 1000;
                  (r, s1) = random_rand s;
                  t = ticks div 2 + (ticks div 2 * ucast r) div RANDOM_RAND_MAX
              in Some (mod_inst i (\<lambda>x. x\<lparr>i_dio_next_delay := ticks - t, i_dio_send := True,
                   i_dio_counter := 0, i_dio_timer := Some t\<rparr>) s1))"

definition rpl_reset_dio_timer :: "nat \<Rightarrow> rpl_state \<Rightarrow> rpl_state option" where
  "rpl_reset_dio_timer i s =
     (if i_dio_intcurrent (instance_table s i) > i_dio_intmin (instance_table s i)
      then new_dio_interval i
             (mod_inst i (\<lambda>x. x\<lparr>i_dio_counter := 0, i_dio_intcurrent := i_dio_intmin x\<rparr>) s)
      else Some s)"

subsection \<open>The DAO timers\<close>

definition set_dao_lifetime_timer :: "nat \<Rightarrow> rpl_state \<Rightarrow> rpl_state option" where
  "set_dao_lifetime_timer i s =
     (let inst = instance_table s i
      in if rpl_get_mode s = RPL_MODE_FEATHER then Some s
         else if i_lifetime_unit inst \<noteq> 0xffff \<and> i_default_lifetime inst \<noteq> 0xff
         then let e = ucast (i_default_lifetime inst) * ucast (i_lifetime_unit inst) * CLOCK_SECOND div 2 :: u32
              in if e div 2 = 0 then None
                 else let (r, s1) = random_rand s;
                          t = e + ucast r mod (e div 2)
                      in Some (mod_inst i (\<lambda>x. x\<lparr>i_dao_lifetime_timer := Some t\<rparr>) s1)
         else Some s)"

definition schedule_dao :: "nat \<Rightarrow> u32 \<Rightarrow> rpl_state \<Rightarrow> rpl_state option" where
  "schedule_dao i latency s =
     (if rpl_get_mode s = RPL_MODE_FEATHER then Some s
      else if i_dao_timer (instance_table s i) \<noteq> None then Some s
      else let (t, s1) = (if latency \<noteq> 0
                          then let (r, s1) = random_rand s in (latency div 2 + ucast r mod latency, s1)
                          else (0, s))
           in set_dao_lifetime_timer i (mod_inst i (\<lambda>x. x\<lparr>i_dao_timer := Some t\<rparr>) s1))"

definition rpl_schedule_dao :: "nat \<Rightarrow> rpl_state \<Rightarrow> rpl_state option" where
  "rpl_schedule_dao i s = schedule_dao i RPL_DAO_DELAY s"

definition rpl_schedule_dao_immediately :: "nat \<Rightarrow> rpl_state \<Rightarrow> rpl_state option" where
  "rpl_schedule_dao_immediately i s = schedule_dao i 0 s"

definition rpl_cancel_dao :: "nat \<Rightarrow> rpl_state \<Rightarrow> rpl_state" where
  "rpl_cancel_dao i s = mod_inst i (\<lambda>x. x\<lparr>i_dao_timer := None, i_dao_lifetime_timer := None\<rparr>) s"

definition rpl_schedule_unicast_dio_immediately :: "nat \<Rightarrow> rpl_state \<Rightarrow> rpl_state" where
  "rpl_schedule_unicast_dio_immediately i s = mod_inst i (\<lambda>x. x\<lparr>i_unicast_dio_timer := Some 0\<rparr>) s"

definition rpl_reset_periodic_timer :: "rpl_state \<Rightarrow> rpl_state" where
  "rpl_reset_periodic_timer s =
     (let (r, s1) = random_rand s;
          d = RPL_DIS_INTERVAL div 2 + ucast ((ucast RPL_DIS_INTERVAL * ucast r) div RANDOM_RAND_MAX)
                - RPL_DIS_START_DELAY
      in s1\<lparr>next_dis := d, periodic_timer := Some CLOCK_SECOND\<rparr>)"

subsection \<open>What the timers leave alone\<close>

lemma random_rand_state: "snd (random_rand s) = s\<lparr>rand_pos := rand_pos s + 1\<rparr>"
  by (simp add: random_rand_def c_rand_def)

lemma random_rand_frame [simp]:
  "nbr_eq s (snd (random_rand s))" "instance_table (snd (random_rand s)) = instance_table s"
  "dag_table (snd (random_rand s)) = dag_table s" "parents (snd (random_rand s)) = parents s"
  by (simp_all add: random_rand_state nbr_eq_def nbr_same_def)

text \<open>\<open>timer_same s s'\<close>: only timers, the instance table and the random numbers may have changed.\<close>

definition timer_same :: "rpl_state \<Rightarrow> rpl_state \<Rightarrow> bool" where
  "timer_same s s' \<longleftrightarrow> (\<exists>tab pos. s' = s\<lparr>instance_table := tab, rand_pos := pos\<rparr>)"

lemma timer_same_refl [simp]: "timer_same s s"
  unfolding timer_same_def by (rule exI [of _ "instance_table s"], rule exI [of _ "rand_pos s"]) simp

lemma timer_same_trans: "timer_same s s1 \<Longrightarrow> timer_same s1 s2 \<Longrightarrow> timer_same s s2"
  unfolding timer_same_def
proof (elim exE)
  fix tab pos tab' pos'
  assume "s1 = s\<lparr>instance_table := tab, rand_pos := pos\<rparr>" "s2 = s1\<lparr>instance_table := tab', rand_pos := pos'\<rparr>"
  then have "s2 = s\<lparr>instance_table := tab', rand_pos := pos'\<rparr>" by simp
  then show "\<exists>tab pos. s2 = s\<lparr>instance_table := tab, rand_pos := pos\<rparr>" by blast
qed

lemma timer_same_mod [simp]: "timer_same s (mod_inst i f s)"
  unfolding timer_same_def mod_inst_def by (rule exI, rule exI [of _ "rand_pos s"]) simp

lemma timer_same_rand [simp]: "timer_same s (snd (random_rand s))"
  unfolding timer_same_def random_rand_state
  by (rule exI [of _ "instance_table s"], rule exI [of _ "rand_pos s + 1"]) simp

lemma timer_same_sel:
  assumes "timer_same s s'"
  shows "nbr_eq s s'" "parents s' = parents s" "dag_table s' = dag_table s" "ds6_neighbors s' = ds6_neighbors s"
    "routelist s' = routelist s" "routes s' = routes s" "io s' = io s" "mode s' = mode s"
    "default_instance s' = default_instance s" "addr_list s' = addr_list s"
  using assms by (auto simp: timer_same_def nbr_eq_def nbr_same_def)

lemma timer_same_rand_mod: "timer_same s (mod_inst i f (snd (random_rand s)))"
  by (rule timer_same_trans [OF timer_same_rand timer_same_mod])

lemma new_interval_same: "new_dio_interval i s = Some s' \<Longrightarrow> timer_same s s'"
  unfolding new_dio_interval_def Let_def case_prod_beta
  by (simp only: option.inject option.distinct split: if_splits) (erule subst, rule timer_same_rand_mod)

lemma reset_dio_same: "rpl_reset_dio_timer i s = Some s' \<Longrightarrow> timer_same s s'"
  unfolding rpl_reset_dio_timer_def
  by (auto split: if_splits dest!: new_interval_same intro: timer_same_trans [OF timer_same_mod])

lemma lifetime_timer_same: "set_dao_lifetime_timer i s = Some s' \<Longrightarrow> timer_same s s'"
  unfolding set_dao_lifetime_timer_def Let_def case_prod_beta
  by (simp only: option.inject split: if_splits) (blast intro: timer_same_rand_mod timer_same_refl)+

lemma schedule_dao_same: "schedule_dao i l s = Some s' \<Longrightarrow> timer_same s s'"
  unfolding schedule_dao_def Let_def case_prod_beta
  by (simp only: option.inject fst_conv snd_conv split: if_splits)
    (blast intro: timer_same_refl timer_same_trans [OF timer_same_mod] timer_same_trans [OF timer_same_rand_mod]
       dest: lifetime_timer_same)+

subsection \<open>Bounds of the timers\<close>

lemma interval_ticks:
  assumes "c \<le> 22"
  shows "unat (push_bit c 1 * CLOCK_SECOND div 1000 :: u32) = 2 ^ c"
proof -
  have p: "(2::nat) ^ c \<le> 2 ^ 22" using assms by (intro power_increasing) simp_all
  define x :: u32 where "x = push_bit c 1"
  have u: "unat x = 2 ^ c"
    using assms unfolding x_def by (subst unsigned_push_bit_eq) (simp add: push_bit_eq_mult take_bit_of_exp)
  have "unat (x * 1000) = 2 ^ c * 1000"
    using p by (simp add: unat_word_ariths u)
  then have "unat (x * CLOCK_SECOND div 1000) = 2 ^ c" by (simp add: CLOCK_SECOND_def unat_div)
  then show ?thesis by (simp only: x_def)
qed

lemma scaled_random_le:
  fixes h :: u32 and r :: u16
  shows "unat (h * ucast r div RANDOM_RAND_MAX) \<le> unat h \<and> unat (h * ucast r div RANDOM_RAND_MAX) \<le> 65537"
proof -
  let ?p = "unat h * unat r"
  have e: "unat (h * ucast r div RANDOM_RAND_MAX) = ?p mod 2 ^ 32 div 65535"
    using unat_u16_bound [of r]
    by (simp add: unat_div unat_word_ariths RANDOM_RAND_MAX_def unsigned_ucast_eq take_bit_nat_eq_self)
  have r: "unat r \<le> 65535" using unat_u16_bound [of r] by simp
  have small: "?p mod 2 ^ 32 div 65535 \<le> 65537"
    using div_le_mono [of "?p mod 2 ^ 32" "2 ^ 32 - 1" 65535] by simp
  moreover have "?p mod 2 ^ 32 div 65535 \<le> unat h"
  proof (cases "unat h \<le> 65536")
    case True
    have "?p mod 2 ^ 32 \<le> unat h * 65535" using r by (meson le_trans mod_less_eq_dividend mult_le_mono2)
    from div_le_mono [OF this, of 65535] show ?thesis by simp
  next
    case False
    with small show ?thesis by linarith
  qed
  ultimately show ?thesis by (simp only: e)
qed

lemma unat_add_le: "unat a + unat b \<le> unat (c :: u32) \<Longrightarrow> unat ((a :: u32) + b) = unat a + unat b"
proof -
  assume "unat a + unat b \<le> unat c"
  also have "unat c < 2 ^ LENGTH(32)" by (rule unsigned_less)
  finally show ?thesis by (simp add: unat_word_ariths)
qed

text \<open>C24. A Trickle interval: for every interval the configuration allows (up to \<open>2 ^ 22\<close> ms, the minimum
  and all doublings), a new interval fires in its second half, the rest of the interval is kept for
  the second timer so that both add up to the interval exactly, and the redundancy counter starts at
  zero. The firing time is moreover never more than 65537 ms into the second half: the product
  with the random number wraps in 32 bits, so for long intervals the time is not spread over
  the second half as the comment says.\<close>

theorem trickle_interval:
  assumes "unat (i_dio_intcurrent (instance_table s i)) = c" and "c \<le> 22"
  shows "\<exists>s' t. new_dio_interval i s = Some s' \<and> i_dio_timer (instance_table s' i) = Some t \<and>
     2 ^ c div 2 \<le> unat t \<and> unat t \<le> 2 ^ c \<and> unat t \<le> 2 ^ c div 2 + 65537 \<and>
     unat t + unat (i_dio_next_delay (instance_table s' i)) = 2 ^ c \<and>
     i_dio_counter (instance_table s' i) = 0 \<and> i_dio_send (instance_table s' i)"
proof -
  define ticks :: u32 where "ticks = push_bit c 1 * CLOCK_SECOND div 1000"
  define q where "q = ticks div 2 * ucast (fst (random_rand s)) div RANDOM_RAND_MAX"
  define s' where "s' = mod_inst i (\<lambda>x. x\<lparr>i_dio_next_delay := ticks - (ticks div 2 + q), i_dio_send := True,
      i_dio_counter := 0, i_dio_timer := Some (ticks div 2 + q)\<rparr>) (snd (random_rand s))"
  have n: "\<not> 32 \<le> c" using assms(2) by simp
  have s': "new_dio_interval i s = Some s'"
    unfolding new_dio_interval_def Let_def case_prod_beta assms(1) s'_def q_def ticks_def
    by (simp only: n if_False)
  have ticks: "unat ticks = 2 ^ c" using interval_ticks [OF assms(2)] by (simp add: ticks_def)
  have half: "unat (ticks div 2) = 2 ^ c div 2" by (simp add: unat_div ticks)
  note q = scaled_random_le [of "ticks div 2" "fst (random_rand s)", folded q_def, unfolded half]
  have "2 ^ c div 2 + unat q \<le> 2 ^ c" using q by linarith
  with half ticks have t: "unat (ticks div 2 + q) = 2 ^ c div 2 + unat q" by (simp add: unat_add_le [of _ _ ticks])
  with \<open>2 ^ c div 2 + unat q \<le> 2 ^ c\<close> ticks have le: "ticks div 2 + q \<le> ticks"
    unfolding word_le_nat_alt by (simp only:)
  have "unat (ticks - (ticks div 2 + q)) = 2 ^ c - (2 ^ c div 2 + unat q)"
    using unat_sub [OF le] t ticks by simp
  with \<open>2 ^ c div 2 + unat q \<le> 2 ^ c\<close>
  have "unat (ticks div 2 + q) + unat (ticks - (ticks div 2 + q)) = 2 ^ c" using t by linarith
  moreover have "i_dio_timer (instance_table s' i) = Some (ticks div 2 + q)" "i_dio_counter (instance_table s' i) = 0"
    "i_dio_next_delay (instance_table s' i) = ticks - (ticks div 2 + q)" "i_dio_send (instance_table s' i)"
    by (simp_all add: s'_def)
  ultimately show ?thesis using q t s' \<open>2 ^ c div 2 + unat q \<le> 2 ^ c\<close> by auto
qed

theorem trickle_interval_witness:
  "\<exists>s' t. new_dio_interval 0 demo = Some s' \<and> i_dio_timer (instance_table s' 0) = Some t \<and> unat t \<le> 4096"
  using trickle_interval [of demo 0 12] by (auto simp: demo_inst_def)

text \<open>Resetting the Trickle timer leaves the instance at its minimal interval: an instance above it starts
  a new interval of the minimal length with a clear counter, and an instance already there is not
  disturbed at all (in particular its random schedule is kept).\<close>

theorem reset_dio_minimum:
  assumes "unat (i_dio_intmin (instance_table s i)) \<le> 22"
  shows "\<exists>s'. rpl_reset_dio_timer i s = Some s' \<and>
     i_dio_intcurrent (instance_table s' i) = min (i_dio_intcurrent (instance_table s i)) (i_dio_intmin (instance_table s i)) \<and>
     (i_dio_intcurrent (instance_table s i) \<le> i_dio_intmin (instance_table s i) \<longrightarrow> s' = s) \<and>
     (i_dio_intmin (instance_table s i) < i_dio_intcurrent (instance_table s i) \<longrightarrow>
        i_dio_counter (instance_table s' i) = 0 \<and>
        (\<exists>t. i_dio_timer (instance_table s' i) = Some t \<and> unat t \<le> 2 ^ unat (i_dio_intmin (instance_table s i))))"
proof (cases "i_dio_intmin (instance_table s i) < i_dio_intcurrent (instance_table s i)")
  case False
  then have "rpl_reset_dio_timer i s = Some s" by (simp add: rpl_reset_dio_timer_def)
  with False show ?thesis by (auto simp: min_def not_less)
next
  case True
  define s1 where "s1 = mod_inst i (\<lambda>x. x\<lparr>i_dio_counter := 0, i_dio_intcurrent := i_dio_intmin x\<rparr>) s"
  have c: "i_dio_intcurrent (instance_table s1 i) = i_dio_intmin (instance_table s i)" by (simp add: s1_def)
  have n: "\<not> 32 \<le> unat (i_dio_intmin (instance_table s i))" using assms by simp
  from trickle_interval [of s1 i, OF refl] assms obtain s' t where s': "new_dio_interval i s1 = Some s'"
      "i_dio_timer (instance_table s' i) = Some t" "unat t \<le> 2 ^ unat (i_dio_intmin (instance_table s i))"
      "i_dio_counter (instance_table s' i) = 0" unfolding c by blast
  have "i_dio_intcurrent (instance_table s' i) = i_dio_intcurrent (instance_table s1 i)"
    using s'(1) n c unfolding new_dio_interval_def Let_def case_prod_beta by auto
  moreover have "rpl_reset_dio_timer i s = Some s'" using True s'(1) by (simp add: rpl_reset_dio_timer_def s1_def)
  ultimately show ?thesis using True s' c by (intro exI [of _ s']) (auto simp: min_def)
qed

theorem reset_dio_minimum_witness:
  "\<exists>s'. rpl_reset_dio_timer 0 (mod_inst 0 (\<lambda>x. x\<lparr>i_dio_intcurrent := 20\<rparr>) demo) = Some s' \<and>
     i_dio_intcurrent (instance_table s' 0) = 12"
  using reset_dio_minimum [of "mod_inst 0 (\<lambda>x. x\<lparr>i_dio_intcurrent := 20\<rparr>) demo" 0]
  by (auto simp: demo_inst_def)

text \<open>C26. A DODAG configuration can crash the node: with a default lifetime or a lifetime unit of zero, as a
  DIO may carry, scheduling a DAO divides by zero, and with a minimal interval of 32 or more the new
  Trickle interval is an undefined shift.\<close>

theorem configuration_crash:
  "i_default_lifetime (instance_table s i) = 0 \<or> i_lifetime_unit (instance_table s i) = 0 \<Longrightarrow>
     i_default_lifetime (instance_table s i) \<noteq> 0xff \<Longrightarrow> i_lifetime_unit (instance_table s i) \<noteq> 0xffff \<Longrightarrow>
     mode s \<noteq> RPL_MODE_FEATHER \<Longrightarrow> i_dao_timer (instance_table s i) = None \<Longrightarrow> rpl_schedule_dao i s = None"
proof -
  assume z: "i_default_lifetime (instance_table s i) = 0 \<or> i_lifetime_unit (instance_table s i) = 0"
    and n: "i_default_lifetime (instance_table s i) \<noteq> 0xff" "i_lifetime_unit (instance_table s i) \<noteq> 0xffff"
    and m: "mode s \<noteq> RPL_MODE_FEATHER" and d: "i_dao_timer (instance_table s i) = None"
  define s1 where "s1 = mod_inst i (\<lambda>x. x\<lparr>i_dao_timer :=
      Some (RPL_DAO_DELAY div 2 + ucast (fst (random_rand s)) mod RPL_DAO_DELAY)\<rparr>) (snd (random_rand s))"
  have e: "rpl_schedule_dao i s = set_dao_lifetime_timer i s1"
    using m d by (simp add: rpl_schedule_dao_def schedule_dao_def rpl_get_mode_def s1_def case_prod_beta RPL_DAO_DELAY_def)
  have "mode s1 = mode s" "i_default_lifetime (instance_table s1 i) = i_default_lifetime (instance_table s i)"
    "i_lifetime_unit (instance_table s1 i) = i_lifetime_unit (instance_table s i)"
    by (simp_all add: s1_def random_rand_state)
  with z n m show ?thesis by (auto simp: e set_dao_lifetime_timer_def rpl_get_mode_def Let_def)
qed

theorem configuration_crash_witness:
  "rpl_schedule_dao 0 (mod_inst 0 (\<lambda>x. x\<lparr>i_default_lifetime := 0\<rparr>) demo) = None"
  by (rule configuration_crash) (simp_all add: demo_inst_def zero_instance_def)

end
