(* ===== verification/RplMessages.thy ===== *)
theory RplMessages
  imports RplTimers
begin

text \<open>
  The RPL messages of \<open>core/net/rpl/rpl-icmp6.c\<close>: what the node writes into DIS, DIO and DAO messages and
  sends, and how it reads a received DIO and the options of a DAO. A message sent is an event of the
  trace \<open>io\<close> with the bytes of its ICMPv6 body; unicast messages first select the radio the receiver was
  heard on. A received message is the memory from \<open>UIP_ICMP_PAYLOAD\<close> on, a function from offsets to bytes,
  and the length \<open>buffer_length\<close> of the body: the code may read bytes behind the body. \<open>None\<close> is a null
  pointer dereference or a copy beyond a buffer.
\<close>

unbundle bit_operations_syntax

definition ICMP6_RPL :: u8 where "ICMP6_RPL = 155"
definition RPL_CODE_DIS :: u8 where "RPL_CODE_DIS = 0"
definition RPL_CODE_DIO :: u8 where "RPL_CODE_DIO = 1"
definition RPL_CODE_DAO :: u8 where "RPL_CODE_DAO = 2"
definition RPL_DAO_K_FLAG :: u8 where "RPL_DAO_K_FLAG = 0x80"
definition RPL_DAO_D_FLAG :: u8 where "RPL_DAO_D_FLAG = 0x40"
definition RPL_DIO_GROUNDED :: u8 where "RPL_DIO_GROUNDED = 0x80"
definition RPL_DIO_MOP_MASK :: u8 where "RPL_DIO_MOP_MASK = 0x38"
definition RPL_DIO_PREFERENCE_MASK :: u8 where "RPL_DIO_PREFERENCE_MASK = 0x07"
definition RPL_DIO_REFRESH_DAO_ROUTES :: bool where "RPL_DIO_REFRESH_DAO_ROUTES = False"
definition SERVER_NODE :: u8 where "SERVER_NODE = 1"

lemmas message_consts = ICMP6_RPL_def RPL_CODE_DIS_def RPL_CODE_DIO_def RPL_CODE_DAO_def RPL_DAO_K_FLAG_def
  RPL_DAO_D_FLAG_def RPL_DIO_GROUNDED_def RPL_DIO_MOP_MASK_def RPL_DIO_PREFERENCE_MASK_def
  RPL_DIO_REFRESH_DAO_ROUTES_def SERVER_NODE_def

subsection \<open>Numbers in messages\<close>

definition get16 :: "(nat \<Rightarrow> u8) \<Rightarrow> nat \<Rightarrow> u16" where
  "get16 buffer pos = push_bit 8 (ucast (buffer pos)) OR ucast (buffer (pos + 1))"

definition get32 :: "(nat \<Rightarrow> u8) \<Rightarrow> nat \<Rightarrow> u32" where
  "get32 buffer pos = push_bit 24 (ucast (buffer pos)) OR push_bit 16 (ucast (buffer (pos + 1))) OR
     push_bit 8 (ucast (buffer (pos + 2))) OR ucast (buffer (pos + 3))"

definition set16 :: "u16 \<Rightarrow> u8 list" where
  "set16 v = [ucast (drop_bit 8 v), ucast (v AND 0xff)]"

definition set32 :: "u32 \<Rightarrow> u8 list" where
  "set32 v = [ucast (drop_bit 24 v), ucast (drop_bit 16 v AND 0xff), ucast (drop_bit 8 v AND 0xff), ucast (v AND 0xff)]"

text \<open>\<open>memcpy\<close> of \<open>n\<close> bytes from a message.\<close>

definition bytes_at :: "(nat \<Rightarrow> u8) \<Rightarrow> nat \<Rightarrow> nat \<Rightarrow> u8 list" where
  "bytes_at buffer pos n = map (\<lambda>j. buffer (pos + j)) [0..<n]"

subsection \<open>Sending\<close>

definition uip_icmp6_send :: "ipaddr \<Rightarrow> u8 \<Rightarrow> u8 \<Rightarrow> u8 list \<Rightarrow> rpl_state \<Rightarrow> rpl_state" where
  "uip_icmp6_send dest type code bytes s = emit (Icmp6Send dest type code bytes) s"

text \<open>The loop, repeated before every unicast transmission, that looks for the receiver in the address map
  and switches to the radio of its entry; comparing with the link-layer address of an unknown
  neighbour dereferences a null pointer.\<close>

fun select_loop_lr :: "linkaddr \<Rightarrow> addrmap list \<Rightarrow> rpl_state \<Rightarrow> rpl_state" where
  "select_loop_lr a [] s = s"
| "select_loop_lr a (e # es) s =
     (if am_lladdr e = a
      then dual_radio_switch (if am_lr e = 1 then LONG_RADIO else SHORT_RADIO) s
      else select_loop_lr a es s)"

definition select_radio :: "ipaddr \<Rightarrow> rpl_state \<Rightarrow> rpl_state option" where
  "select_radio dst s = do {
     a \<leftarrow> uip_ds6_nbr_get_ll (uip_ds6_nbr_lookup (Some dst) s) s;
     Some (select_loop_lr a (ds6_lr_addrmap s) s)
   }"

fun global_addr_loop :: "uip_ds6_addr list \<Rightarrow> ipaddr option" where
  "global_addr_loop [] = None"
| "global_addr_loop (e # es) =
     (if isused e \<and> (ad_state e = ADDR_TENTATIVE \<or> ad_state e = ADDR_PREFERRED) \<and>
         \<not> uip_is_addr_linklocal (el_ipaddr e)
      then Some (el_ipaddr e) else global_addr_loop es)"

definition get_global_addr :: "rpl_state \<Rightarrow> ipaddr option" where
  "get_global_addr s = global_addr_loop (addr_list s)"

definition dis_output :: "ipaddr option \<Rightarrow> rpl_state \<Rightarrow> rpl_state" where
  "dis_output addr s =
     (let dst = (case addr of None \<Rightarrow> linklocal_rplnodes_mcast | Some a \<Rightarrow> a)
      in uip_icmp6_send dst ICMP6_RPL RPL_CODE_DIS [0, 0] s)"

subsection \<open>DAO messages\<close>

definition dao_bytes :: "u8 \<Rightarrow> ipaddr \<Rightarrow> ipaddr \<Rightarrow> u8 \<Rightarrow> u8 \<Rightarrow> u8 list" where
  "dao_bytes instance_id dag_id prefix lifetime seq_no =
     [instance_id, RPL_DAO_D_FLAG, 0, seq_no] @ dag_id @ [5, 18, 0, 128] @ prefix @ [6, 4, 0, 0, 0, lifetime]"

definition dao_output_target_seq :: "ptr \<Rightarrow> ipaddr \<Rightarrow> u8 \<Rightarrow> u8 \<Rightarrow> rpl_state \<Rightarrow> rpl_state option" where
  "dao_output_target_seq parent prefix lifetime seq_no s =
     (if rpl_get_mode s = RPL_MODE_FEATHER then Some s
      else (case parent of
        None \<Rightarrow> Some s
      | Some p \<Rightarrow> (case p_dag (parents s p) of
          None \<Rightarrow> Some s
        | Some d \<Rightarrow> (case d_instance (dag_table s d) of
            None \<Rightarrow> Some s
          | Some i \<Rightarrow> do {
              let bytes = dao_bytes (i_instance_id (instance_table s i)) (d_id (dag_table s d)) prefix lifetime seq_no;
              dst \<leftarrow> rpl_get_parent_ipaddr (Some p) s;
              s1 \<leftarrow> select_radio dst s;
              Some (uip_icmp6_send dst ICMP6_RPL RPL_CODE_DAO bytes s1)
            }))))"

definition dao_output_target :: "ptr \<Rightarrow> ipaddr \<Rightarrow> u8 \<Rightarrow> rpl_state \<Rightarrow> rpl_state option" where
  "dao_output_target parent prefix lifetime s = dao_output_target_seq parent prefix lifetime (dao_sequence s) s"

definition dao_output :: "ptr \<Rightarrow> u8 \<Rightarrow> rpl_state \<Rightarrow> rpl_state option" where
  "dao_output parent lifetime s = (case get_global_addr s of
     None \<Rightarrow> Some s
   | Some prefix \<Rightarrow> (case parent of
       None \<Rightarrow> Some s
     | Some p \<Rightarrow> (case p_dag (parents s p) of
         None \<Rightarrow> Some s
       | Some d \<Rightarrow> (case d_instance (dag_table s d) of
           None \<Rightarrow> Some s
         | Some i \<Rightarrow>
             let s1 = s\<lparr>dao_sequence := RPL_LOLLIPOP_INCREMENT (dao_sequence s)\<rparr>;
                 s2 = mod_inst i (\<lambda>x. x\<lparr>i_has_downward_route := lifetime \<noteq> RPL_ZERO_LIFETIME\<rparr>) s1
             in dao_output_target (Some p) prefix lifetime s2))))"

subsection \<open>DIO messages\<close>

text \<open>The last byte of the node's link-local address.\<close>

definition my_id :: "rpl_state \<Rightarrow> u8 option" where
  "my_id s = do { i \<leftarrow> uip_ds6_get_link_local None s; Some (el_ipaddr (addr_list s ! i) ! 15) }"

definition dio_base :: "rpl_instance \<Rightarrow> rpl_dag \<Rightarrow> u8 \<Rightarrow> u8 \<Rightarrow> u8 list" where
  "dio_base inst dag energy weight =
     [i_instance_id inst, d_version dag] @ set16 (d_rank dag) @
     [(if d_grounded dag \<noteq> 0 then RPL_DIO_GROUNDED else 0) OR push_bit 3 (i_mop inst) OR
        (d_preference dag AND RPL_DIO_PREFERENCE_MASK),
      i_dtsn_out inst, energy, weight] @ d_id dag"

definition dio_conf :: "rpl_instance \<Rightarrow> u16 \<Rightarrow> u8 list" where
  "dio_conf inst ocp =
     [4, 14, 0, i_dio_intdoubl inst, i_dio_intmin inst, i_dio_redundancy inst] @ set16 (i_max_rankinc inst) @
     set16 (i_min_hoprankinc inst) @ set16 ocp @ [0, i_default_lifetime inst] @ set16 (i_lifetime_unit inst)"

definition dio_prefix :: "rpl_prefix \<Rightarrow> u8 list" where
  "dio_prefix pf =
     (if px_len pf > 0
      then [8, 35, px_len pf, px_flags pf] @ set32 (px_life pf) @ set32 (px_life pf) @ [0, 0, 0, 0] @ px_prefix pf
      else [])"

text \<open>The five bytes about the parent and the load that SEDA-Net appends. Addresses of preferred parents
  are dereferenced.\<close>

definition dio_parent_bytes :: "rpl_dag \<Rightarrow> rpl_state \<Rightarrow> (u8 list) option" where
  "dio_parent_bytes dag s = (case d_preferred_parent dag of
     None \<Rightarrow> Some [0, 0]
   | Some p \<Rightarrow> do { a \<leftarrow> rpl_get_parent_ipaddr (Some p) s; Some [a ! 15, a ! 8] })"

definition dio_load_bytes :: "rpl_dag \<Rightarrow> rpl_state \<Rightarrow> (u8 list) option" where
  "dio_load_bytes dag s =
     (if tree_level s = 2
      then do { me \<leftarrow> my_id s; c \<leftarrow> count_latest s; Some [me, c, word_of_int (latest_id s)] }
      else if tree_level s = 1 \<or> uint (tree_level s) = -1 then Some [0, 0, 0]
      else Some (case d_preferred_parent dag of
        Some p \<Rightarrow> [p_MLS_id (parents s p), p_est_load (parents s p), p_latest_id (parents s p)]
      | None \<Rightarrow> [0, 0, 0]))"

definition dio_output :: "nat \<Rightarrow> ipaddr option \<Rightarrow> rpl_state \<Rightarrow> rpl_state option" where
  "dio_output i uc_addr s = do {
     d \<leftarrow> i_current_dag (instance_table s i);
     let inst = instance_table s i;
     let dag = dag_table s d;
     let s1 = (if RPL_DIO_REFRESH_DAO_ROUTES \<and> uc_addr = None
               then mod_inst i (\<lambda>x. x\<lparr>i_dtsn_out := RPL_LOLLIPOP_INCREMENT (i_dtsn_out x)\<rparr>) s else s);
     me \<leftarrow> my_id s;
     let weight = (if me = SERVER_NODE then 0 else my_degree s);
     func \<leftarrow> i_of inst;
     if mc_type (i_mc inst) \<noteq> RPL_DAG_MC_NONE
     then Some (of_update_metric_container func i s1)
     else do {
       parent \<leftarrow> dio_parent_bytes dag s1;
       load \<leftarrow> dio_load_bytes dag s1;
       let bytes = dio_base inst dag (energy_percent s) weight @ dio_conf inst (of_ocp func) @
                   dio_prefix (d_prefix_info dag) @ parent @ load;
       case uc_addr of
         None \<Rightarrow> Some (uip_icmp6_send linklocal_rplnodes_mcast ICMP6_RPL RPL_CODE_DIO bytes s1)
       | Some a \<Rightarrow> do {
           s2 \<leftarrow> select_radio a s1;
           Some (uip_icmp6_send a ICMP6_RPL RPL_CODE_DIO bytes s2)
         }
     }
   }"

subsection \<open>Reading a DIO\<close>

text \<open>The defaults before the options are read, with the zeroed structure for the rest.\<close>

definition default_dio :: rpl_dio where
  "default_dio = \<lparr>dio_dag_id = replicate 16 0, dio_ocp = of_ocp RPL_OF, dio_rank = 0, dio_grounded = 0,
     dio_mop = 0, dio_preference = 0, dio_version = 0, dio_instance_id = 0, dio_dtsn = 0,
     dio_dag_intdoubl = RPL_DIO_INTERVAL_DOUBLINGS, dio_dag_intmin = RPL_DIO_INTERVAL_MIN,
     dio_dag_redund = RPL_DIO_REDUNDANCY, dio_default_lifetime = RPL_DEFAULT_LIFETIME,
     dio_lifetime_unit = RPL_DEFAULT_LIFETIME_UNIT, dio_dag_max_rankinc = RPL_MAX_RANKINC,
     dio_dag_min_hoprankinc = RPL_MIN_HOPRANKINC, dio_destination_prefix = zero_prefix,
     dio_prefix_info = zero_prefix, dio_mc = zero_mc, dio_parent_id = 0, dio_parent_long = 0,
     dio_rem_energy = 0, dio_weight = 0, dio_MLS_id = 0, dio_est_load = 0, dio_latest_id = 0\<rparr>"

definition dio_header :: "(nat \<Rightarrow> u8) \<Rightarrow> rpl_dio" where
  "dio_header b = default_dio\<lparr>dio_instance_id := b 0, dio_version := b 1, dio_rank := get16 b 2,
     dio_grounded := b 4 AND RPL_DIO_GROUNDED, dio_mop := drop_bit 3 (b 4 AND RPL_DIO_MOP_MASK),
     dio_preference := b 4 AND RPL_DIO_PREFERENCE_MASK, dio_dtsn := b 5, dio_rem_energy := b 6,
     dio_weight := b 7, dio_dag_id := bytes_at b 8 16\<rparr>"

text \<open>One case of the \<open>switch\<close> for the option at \<open>i\<close> of length \<open>len\<close>; \<open>None\<close> discards the message.\<close>

definition dio_metric_option :: "(nat \<Rightarrow> u8) \<Rightarrow> nat \<Rightarrow> nat \<Rightarrow> rpl_dio \<Rightarrow> rpl_dio option" where
  "dio_metric_option b i len dio =
     (if len < 6 then None
      else let mc = \<lparr>mc_type = b (i + 2), mc_flags = push_bit 1 (b (i + 3)) OR drop_bit 7 (b (i + 4)),
                     mc_aggr = drop_bit 4 (b (i + 4)) AND 0x3, mc_prec = b (i + 4) AND 0xf,
                     mc_length = b (i + 5), mc_obj = mc_obj (dio_mc dio)\<rparr>
           in if mc_type mc = RPL_DAG_MC_NONE then Some (dio\<lparr>dio_mc := mc\<rparr>)
              else if mc_type mc = RPL_DAG_MC_ETX then Some (dio\<lparr>dio_mc := mc\<lparr>mc_obj := Etx (get16 b (i + 6))\<rparr>\<rparr>)
              else if mc_type mc = RPL_DAG_MC_ENERGY
              then Some (dio\<lparr>dio_mc := mc\<lparr>mc_obj := Energy (b (i + 6)) (b (i + 7))\<rparr>\<rparr>)
              else None)"

definition dio_route_option :: "(nat \<Rightarrow> u8) \<Rightarrow> nat \<Rightarrow> nat \<Rightarrow> rpl_dio \<Rightarrow> rpl_dio option" where
  "dio_route_option b i len dio =
     (if len < 9 then None
      else let n = (unat (b (i + 2)) + 7) div 8;
               pf = (dio_destination_prefix dio)\<lparr>px_len := b (i + 2), px_flags := b (i + 3), px_life := get32 b (i + 4)\<rparr>
           in if n + 8 \<le> len \<and> b (i + 2) \<le> 128
              then Some (dio\<lparr>dio_destination_prefix :=
                     pf\<lparr>px_prefix := bytes_at b (i + 8) n @ drop n (px_prefix pf)\<rparr>\<rparr>)
              else None)"

definition dio_conf_option :: "(nat \<Rightarrow> u8) \<Rightarrow> nat \<Rightarrow> nat \<Rightarrow> rpl_dio \<Rightarrow> rpl_dio option" where
  "dio_conf_option b i len dio =
     (if len \<noteq> 16 then None
      else Some (dio\<lparr>dio_dag_intdoubl := b (i + 3), dio_dag_intmin := b (i + 4), dio_dag_redund := b (i + 5),
             dio_dag_max_rankinc := get16 b (i + 6), dio_dag_min_hoprankinc := get16 b (i + 8),
             dio_ocp := get16 b (i + 10), dio_default_lifetime := b (i + 13),
             dio_lifetime_unit := get16 b (i + 14)\<rparr>))"

definition dio_prefix_option :: "(nat \<Rightarrow> u8) \<Rightarrow> nat \<Rightarrow> nat \<Rightarrow> rpl_dio \<Rightarrow> rpl_dio option" where
  "dio_prefix_option b i len dio =
     (if len \<noteq> 37 then None
      else Some (dio\<lparr>dio_prefix_info := \<lparr>px_prefix = bytes_at b (i + 16) 16, px_life = get32 b (i + 8),
                       px_len = b (i + 2), px_flags = b (i + 3)\<rparr>,
             dio_parent_id := b (i + 32), dio_parent_long := b (i + 33), dio_MLS_id := b (i + 34),
             dio_est_load := b (i + 35), dio_latest_id := b (i + 36)\<rparr>))"

definition dio_option :: "(nat \<Rightarrow> u8) \<Rightarrow> nat \<Rightarrow> nat \<Rightarrow> rpl_dio \<Rightarrow> rpl_dio option" where
  "dio_option b i len dio =
     (if b i = 2 then dio_metric_option b i len dio
      else if b i = 3 then dio_route_option b i len dio
      else if b i = 4 then dio_conf_option b i len dio
      else if b i = 8 then dio_prefix_option b i len dio
      else Some dio)"

definition option_len :: "(nat \<Rightarrow> u8) \<Rightarrow> nat \<Rightarrow> nat" where
  "option_len b i = (if b i = 0 then 1 else 2 + unat (b (i + 1)))"

lemma option_len_pos [simp]: "0 < option_len b i" by (simp add: option_len_def)

function dio_options :: "(nat \<Rightarrow> u8) \<Rightarrow> nat \<Rightarrow> nat \<Rightarrow> rpl_dio \<Rightarrow> rpl_dio option" where
  "dio_options b n i dio =
     (if i < n
      then if option_len b i + i > n then None
           else do {
             dio' \<leftarrow> dio_option b i (option_len b i) dio;
             dio_options b n (i + option_len b i) dio'
           }
      else Some dio)"
  by pat_completeness auto
termination
  by (relation "measure (\<lambda>(b, n, i, dio). n - i)") (simp_all add: diff_less_mono2)

declare dio_options.simps [simp del]

definition dio_parse :: "(nat \<Rightarrow> u8) \<Rightarrow> u8 \<Rightarrow> rpl_dio option" where
  "dio_parse b buffer_length = dio_options b (unat buffer_length) 24 (dio_header b)"

subsection \<open>Reading the options of a DAO\<close>

record dao_opts =
  do_prefixlen :: u8
  do_prefix :: "ipaddr option"
  do_lifetime :: u8

text \<open>\<open>do_prefix\<close> is \<open>None\<close> as long as the variable is not initialised. Copying more than the 16 bytes of
  an address is undefined.\<close>

definition dao_option :: "(nat \<Rightarrow> u8) \<Rightarrow> nat \<Rightarrow> dao_opts \<Rightarrow> dao_opts option" where
  "dao_option b i o' =
     (if b i = 5
      then let prefixlen = b (i + 3); n = (unat prefixlen + 7) div 8
           in if n \<le> 16
              then Some (o'\<lparr>do_prefixlen := prefixlen, do_prefix := Some (bytes_at b (i + 4) n @ replicate (16 - n) 0)\<rparr>)
              else None
      else if b i = 6 then Some (o'\<lparr>do_lifetime := b (i + 5)\<rparr>)
      else Some o')"

function dao_options :: "(nat \<Rightarrow> u8) \<Rightarrow> nat \<Rightarrow> nat \<Rightarrow> dao_opts \<Rightarrow> dao_opts option" where
  "dao_options b n i o' =
     (if i < n
      then do { o2 \<leftarrow> dao_option b i o'; dao_options b n (i + option_len b i) o2 }
      else Some o')"
  by pat_completeness auto
termination
  by (relation "measure (\<lambda>(b, n, i, o'). n - i)") (simp_all add: diff_less_mono2)

declare dao_options.simps [simp del]

end
