(* ===== verification/RplParents.thy ===== *)
theory RplParents
  imports RplMessages
begin

text \<open>
  The parents and children of a node (\<open>core/net/rpl/rpl-dag.c\<close>), the callbacks by which the other layers
  report changes of neighbours (\<open>rpl.c\<close>), the replacement policy for neighbours (\<open>rpl-nbr-policy.c\<close>) and
  the environment \<open>node_env\<close> these functions make for the neighbour table. The locales of the neighbour
  and routing tables are interpreted on it. A loop over a table whose body removes entries is a
  recursion over the keys that tests at each key whether it still has an entry, which is what
  \<open>nbr_table_next\<close> does, as no such body changes the keys.
\<close>

unbundle bit_operations_syntax

subsection \<open>The preferred parent and the default route\<close>

definition rpl_set_preferred_parent :: "dagptr option \<Rightarrow> ptr \<Rightarrow> rpl_state \<Rightarrow> rpl_state" where
  "rpl_set_preferred_parent dag p s = (case dag of
     None \<Rightarrow> s
   | Some d \<Rightarrow>
       if d_preferred_parent (dag_table s d) \<noteq> p
       then let s1 = fst (nbr_table_unlock RPL_PARENTS (d_preferred_parent (dag_table s d)) s);
                s2 = fst (nbr_table_lock RPL_PARENTS p s1)
            in mod_dag d (\<lambda>x. x\<lparr>d_preferred_parent := p\<rparr>) s2
       else s)"

definition RPL_DEFAULT_ROUTE_INFINITE_LIFETIME :: bool where "RPL_DEFAULT_ROUTE_INFINITE_LIFETIME = True"

definition rpl_set_default_route :: "nat \<Rightarrow> ipaddr option \<Rightarrow> rpl_state \<Rightarrow> rpl_state \<times> bool" where
  "rpl_set_default_route i from s =
     (let s1 = (case i_def_route (instance_table s i) of
                  None \<Rightarrow> s
                | Some d \<Rightarrow> mod_inst i (\<lambda>x. x\<lparr>i_def_route := None\<rparr>) (uip_ds6_defrt_rm (Some d) s))
      in case from of
           Some a \<Rightarrow>
             let inst = instance_table s1 i;
                 (s2, d) = uip_ds6_defrt_add a
                   (if RPL_DEFAULT_ROUTE_INFINITE_LIFETIME then 0 else RPL_LIFETIME inst (i_default_lifetime inst)) s1
             in (mod_inst i (\<lambda>x. x\<lparr>i_def_route := d\<rparr>) s2, d \<noteq> None)
         | None \<Rightarrow>
             (case i_def_route (instance_table s1 i) of
                Some d \<Rightarrow> (uip_ds6_defrt_rm (Some d) s1, True)
              | None \<Rightarrow> (s1, True)))"

subsection \<open>Dropping parents and children\<close>

definition rpl_nullify_parent :: "nat \<Rightarrow> rpl_state \<Rightarrow> rpl_state option" where
  "rpl_nullify_parent p s = do {
     d \<leftarrow> p_dag (parents s p);
     if d_preferred_parent (dag_table s d) = Some p \<or> d_preferred_parent (dag_table s d) = None
     then do {
       let s1 = mod_dag d (\<lambda>x. x\<lparr>d_rank := INFINITE_RANK\<rparr>) s;
       if d_joined (dag_table s1 d)
       then do {
         i \<leftarrow> d_instance (dag_table s1 d);
         let s2 = (case i_def_route (instance_table s1 i) of
                     None \<Rightarrow> s1
                   | Some r \<Rightarrow> mod_inst i (\<lambda>x. x\<lparr>i_def_route := None\<rparr>) (uip_ds6_defrt_rm (Some r) s1));
         if d_preferred_parent (dag_table s2 d) = Some p
         then do {
           s3 \<leftarrow> dao_output (Some p) RPL_ZERO_LIFETIME s2;
           Some (rpl_set_preferred_parent (Some d) None s3)
         }
         else Some s2
       }
       else Some s1
     }
     else Some s
   }"

definition rpl_remove_parent :: "nat \<Rightarrow> rpl_state \<Rightarrow> rpl_state option" where
  "rpl_remove_parent p s = do {
     s1 \<leftarrow> rpl_nullify_parent p s;
     Some (fst (nbr_table_remove RPL_PARENTS (Some p) s1))
   }"

definition rpl_remove_child :: "nat \<Rightarrow> rpl_state \<Rightarrow> rpl_state" where
  "rpl_remove_child c s = fst (nbr_table_remove RPL_CHILDREN (Some c) s)"

fun remove_parents_loop :: "dagptr \<Rightarrow> u16 \<Rightarrow> nat list \<Rightarrow> rpl_state \<Rightarrow> rpl_state option" where
  "remove_parents_loop dag minimum_rank [] s = Some s"
| "remove_parents_loop dag minimum_rank (p # ps) s = do {
     s1 \<leftarrow> (if uses s RPL_PARENTS p \<and> p_dag (parents s p) = Some dag \<and> p_rank (parents s p) \<ge> minimum_rank
            then rpl_remove_parent p s else Some s);
     remove_parents_loop dag minimum_rank ps s1
   }"

definition remove_parents :: "dagptr \<Rightarrow> u16 \<Rightarrow> rpl_state \<Rightarrow> rpl_state option" where
  "remove_parents dag minimum_rank s = remove_parents_loop dag minimum_rank (nt_keys s) s"

fun nullify_parents_loop :: "dagptr \<Rightarrow> u16 \<Rightarrow> nat list \<Rightarrow> rpl_state \<Rightarrow> rpl_state option" where
  "nullify_parents_loop dag minimum_rank [] s = Some s"
| "nullify_parents_loop dag minimum_rank (p # ps) s = do {
     s1 \<leftarrow> (if uses s RPL_PARENTS p \<and> p_dag (parents s p) = Some dag \<and> p_rank (parents s p) \<ge> minimum_rank
            then rpl_nullify_parent p s else Some s);
     nullify_parents_loop dag minimum_rank ps s1
   }"

definition nullify_parents :: "dagptr \<Rightarrow> u16 \<Rightarrow> rpl_state \<Rightarrow> rpl_state option" where
  "nullify_parents dag minimum_rank s = nullify_parents_loop dag minimum_rank (nt_keys s) s"

subsection \<open>Callbacks\<close>

text \<open>The loops over the instances; \<open>is\<close> are the instances left.\<close>

fun link_callback_loop :: "nat list \<Rightarrow> ipaddr \<Rightarrow> int \<Rightarrow> int \<Rightarrow> rpl_state \<Rightarrow> rpl_state option" where
  "link_callback_loop [] ipaddr status numtx s = Some s"
| "link_callback_loop (i # is) ipaddr status numtx s = do {
     s1 \<leftarrow> (if i_used (instance_table s i)
            then (case rpl_find_parent_any_dag i ipaddr s of
                None \<Rightarrow> Some s
              | Some p \<Rightarrow> do {
                  let s1 = mod_parent p (\<lambda>x. x\<lparr>p_flags := p_flags x OR RPL_PARENT_FLAG_UPDATED\<rparr>) s;
                  func \<leftarrow> i_of (instance_table s1 i);
                  case of_neighbor_link_callback func of
                    None \<Rightarrow> Some s1
                  | Some f \<Rightarrow> do {
                      s2 \<leftarrow> f p status numtx s1;
                      Some (mod_parent p (\<lambda>x. x\<lparr>p_last_tx_time := clock_time s2\<rparr>) s2)
                    }
                })
            else Some s);
     link_callback_loop is ipaddr status numtx s1
   }"

definition rpl_link_neighbor_callback :: "linkaddr \<Rightarrow> int \<Rightarrow> int \<Rightarrow> rpl_state \<Rightarrow> rpl_state option" where
  "rpl_link_neighbor_callback addr status numtx s =
     (let ipaddr = uip_ds6_set_addr_iid ([0xfe, 0x80] @ replicate 14 0) addr
      in link_callback_loop [0..<RPL_MAX_INSTANCES] ipaddr status numtx s)"

fun ipv6_callback_loop :: "nat list \<Rightarrow> nat \<Rightarrow> rpl_state \<Rightarrow> rpl_state" where
  "ipv6_callback_loop [] nbr s = s"
| "ipv6_callback_loop (i # is) nbr s = ipv6_callback_loop is nbr
     (if i_used (instance_table s i)
      then (case rpl_find_parent_any_dag i (nb_ipaddr (ds6_neighbors s nbr)) s of
          None \<Rightarrow> s
        | Some p \<Rightarrow> mod_parent p (\<lambda>x. x\<lparr>p_rank := INFINITE_RANK, p_flags := p_flags x OR RPL_PARENT_FLAG_UPDATED\<rparr>) s)
      else s)"

definition rpl_ipv6_neighbor_callback :: "nat \<Rightarrow> rpl_state \<Rightarrow> rpl_state option" where
  "rpl_ipv6_neighbor_callback nbr s = Some (ipv6_callback_loop [0..<RPL_MAX_INSTANCES] nbr s)"

subsection \<open>The replacement policy\<close>

definition MAX_CHILDREN :: nat where "MAX_CHILDREN = NBR_TABLE_MAX_NEIGHBORS - 2"

text \<open>The variables \<open>update_nbr\<close> computes, and the data the users of the policy pass.\<close>

record nbr_stats =
  worst_rank :: u16
  worst_rank_nbr :: "linkaddr option"
  num_parents :: int
  num_children :: int
  num_used :: int

datatype nbr_data = DioData rpl_dio | InstanceData nat | WeightData u8

text \<open>One iteration: \<open>nbr\<close> as a next hop, as a parent, and as the neighbour to remove.\<close>

definition count_nbr :: "nat \<Rightarrow> rpl_state \<Rightarrow> nbr_stats \<Rightarrow> nbr_stats option" where
  "count_nbr nbr s st = do {
     let lladdr = nt_lladdr s nbr;
     let nexthop = uip_ds6_route_is_nexthop (nb_ipaddr (ds6_neighbors s nbr)) s;
     let st1 = (if nexthop then st\<lparr>num_children := num_children st + 1\<rparr> else st);
     st2 \<leftarrow> (case rpl_get_parent lladdr s of
         None \<Rightarrow> Some (if nexthop then st1
                       else st1\<lparr>worst_rank_nbr := Some lladdr, worst_rank := INFINITE_RANK\<rparr>)
       | Some p \<Rightarrow> do {
           let st2 = st1\<lparr>num_parents := num_parents st1 + 1\<rparr>;
           case p_dag (parents s p) of
             None \<Rightarrow> Some st2
           | Some d \<Rightarrow>
               if d_preferred_parent (dag_table s d) = Some p then Some st2
               else if \<not> nexthop \<and> worst_rank st2 < INFINITE_RANK \<and> p_rank (parents s p) > 0
               then (case d_instance (dag_table s d) of
                   None \<Rightarrow> Some st2
                 | Some i \<Rightarrow> do {
                     func \<leftarrow> i_of (instance_table s i);
                     rank \<leftarrow> of_calculate_rank func (Some p) 0 s;
                     Some (if rank > worst_rank st2
                           then st2\<lparr>worst_rank := rank, worst_rank_nbr := Some lladdr\<rparr> else st2)
                   })
               else Some st2
         });
     Some (st2\<lparr>num_used := num_used st2 + 1\<rparr>)
   }"

fun update_nbr_loop :: "nat list \<Rightarrow> rpl_state \<Rightarrow> nbr_stats \<Rightarrow> nbr_stats option" where
  "update_nbr_loop [] s st = Some st"
| "update_nbr_loop (nbr # nbrs) s st = do { st1 \<leftarrow> count_nbr nbr s st; update_nbr_loop nbrs s st1 }"

definition update_nbr :: "rpl_state \<Rightarrow> nbr_stats option" where
  "update_nbr s = update_nbr_loop (nbr_items s DS6_NEIGHBORS) s
     \<lparr>worst_rank = 0, worst_rank_nbr = None, num_parents = 0, num_children = 0, num_used = 0\<rparr>"

definition find_removable_dis :: "rpl_state \<Rightarrow> (linkaddr option) option" where
  "find_removable_dis s = do {
     st \<leftarrow> update_nbr s;
     Some (if num_children st < int MAX_CHILDREN then worst_rank_nbr st else None)
   }"

definition find_removable_dio :: "rpl_dio \<Rightarrow> rpl_state \<Rightarrow> (linkaddr option) option" where
  "find_removable_dio dio s = do {
     st \<leftarrow> update_nbr s;
     case rpl_get_instance (dio_instance_id dio) s of
       None \<Rightarrow> Some None
     | Some i \<Rightarrow>
         if i_current_dag (instance_table s i) = None then Some None
         else do {
           func \<leftarrow> i_of (instance_table s i);
           rank \<leftarrow> of_calculate_rank func None (dio_rank dio) s;
           Some (if uint rank < uint (worst_rank st) - uint (i_min_hoprankinc (instance_table s i)) div 2
                 then worst_rank_nbr st else None)
         }
   }"

definition find_removable_dao :: "ptr \<Rightarrow> rpl_state \<Rightarrow> (linkaddr option) option" where
  "find_removable_dao inst s = do {
     st \<leftarrow> update_nbr s;
     max \<leftarrow> (case inst of
         None \<Rightarrow> Some (int MAX_CHILDREN)
       | Some i \<Rightarrow> do {
           d \<leftarrow> i_current_dag (instance_table s i);
           Some (if d_rank (dag_table s d) = ROOT_RANK (instance_table s i)
                 then int NBR_TABLE_MAX_NEIGHBORS else int MAX_CHILDREN)
         });
     Some (if num_children st \<ge> max then None else worst_rank_nbr st)
   }"

text \<open>\<open>data\<close> is a null pointer or what the callers pass with the reason; reading it as something else is
  undefined.\<close>

definition rpl_nbr_policy_find_removable ::
  "nbr_table_reason \<Rightarrow> nbr_data option \<Rightarrow> rpl_state \<Rightarrow> (linkaddr option) option" where
  "rpl_nbr_policy_find_removable reason data s = (case reason of
     NBR_TABLE_REASON_RPL_DIO \<Rightarrow> (case data of Some (DioData dio) \<Rightarrow> find_removable_dio dio s | _ \<Rightarrow> None)
   | NBR_TABLE_REASON_RPL_DAO \<Rightarrow> (case data of
       None \<Rightarrow> find_removable_dao None s
     | Some (InstanceData i) \<Rightarrow> find_removable_dao (Some i) s
     | _ \<Rightarrow> None)
   | NBR_TABLE_REASON_RPL_DIS \<Rightarrow> find_removable_dis s
   | _ \<Rightarrow> Some None)"

subsection \<open>The environment of the neighbour table\<close>

text \<open>The removal callbacks the four tables are registered with, the zeroed items, and the policy.\<close>

definition node_callback :: "nat \<Rightarrow> nat \<Rightarrow> rpl_state \<Rightarrow> rpl_state option" where
  "node_callback t k s =
     (if t = DS6_NEIGHBORS then map_option fst (uip_ds6_nbr_rm rpl_ipv6_neighbor_callback (Some k) s)
      else if t = NBR_ROUTES then rm_routelist_callback k s
      else if t = RPL_PARENTS then rpl_remove_parent k s
      else if t = RPL_CHILDREN then Some (rpl_remove_child k s)
      else Some s)"

definition node_clear :: "nat \<Rightarrow> nat \<Rightarrow> rpl_state \<Rightarrow> rpl_state" where
  "node_clear t k s =
     (if t = DS6_NEIGHBORS then set_nbr k zero_nbr s
      else if t = NBR_ROUTES then s\<lparr>nbr_routes := (nbr_routes s)(k := \<lparr>rl_init = False, route_list = []\<rparr>)\<rparr>
      else if t = RPL_PARENTS then s\<lparr>parents := (parents s)(k := zero_parent)\<rparr>
      else if t = RPL_CHILDREN then s\<lparr>children := (children s)(k := \<lparr>c_weight = 0\<rparr>)\<rparr>
      else s)"

definition node_env :: "(rpl_state, nbr_data option) nbr_env" where
  "node_env = \<lparr>env_callback = node_callback, env_clear = node_clear,
     env_policy = (\<lambda>reason data s. map_option (Pair s) (rpl_nbr_policy_find_removable reason data s))\<rparr>"

subsection \<open>Adding parents, children and neighbours\<close>

definition rpl_icmp6_update_nbr_table ::
  "ipaddr \<Rightarrow> nbr_table_reason \<Rightarrow> nbr_data option \<Rightarrow> rpl_state \<Rightarrow> (rpl_state \<times> ptr) option" where
  "rpl_icmp6_update_nbr_table from reason data s = (case uip_ds6_nbr_lookup (Some from) s of
     Some n \<Rightarrow> Some (s, Some n)
   | None \<Rightarrow> uip_ds6_nbr_add node_env rpl_ipv6_neighbor_callback from (Some (packetbuf_sender s)) 0 NBR_REACHABLE
               reason data s)"

definition rpl_add_parent :: "dagptr \<Rightarrow> rpl_dio \<Rightarrow> ipaddr \<Rightarrow> rpl_state \<Rightarrow> (rpl_state \<times> ptr) option" where
  "rpl_add_parent dag dio addr s = (case uip_ds6_nbr_lladdr_from_ipaddr (Some addr) s of
     None \<Rightarrow> Some (s, None)
   | Some lladdr \<Rightarrow> do {
       (s1, p) \<leftarrow> nbr_table_add_lladdr node_env RPL_PARENTS (Some lladdr) NBR_TABLE_REASON_RPL_DIO
                    (Some (DioData dio)) s;
       case p of
         None \<Rightarrow> Some (s1, None)
       | Some k \<Rightarrow> do {
           let nbr = rpl_get_nbr (Some k) s1;
           let s2 = mod_parent k (\<lambda>x. x\<lparr>p_dag := Some dag, p_rank := dio_rank dio, p_dtsn := dio_dtsn dio\<rparr>) s1;
           Some ((case nbr of
               None \<Rightarrow> s2
             | Some n \<Rightarrow>
                 if nb_link_metric (ds6_neighbors s2 n) = 0
                 then set_nbr n ((ds6_neighbors s2 n)\<lparr>nb_link_metric :=
                        RPL_INIT_LINK_METRIC * RPL_DAG_MC_ETX_DIVISOR\<rparr>) s2
                 else s2), Some k)
         }
     })"

definition rpl_add_child :: "u8 \<Rightarrow> ipaddr \<Rightarrow> rpl_state \<Rightarrow> (rpl_state \<times> ptr) option" where
  "rpl_add_child weight addr s = (case uip_ds6_nbr_lladdr_from_ipaddr (Some addr) s of
     None \<Rightarrow> Some (s, None)
   | Some lladdr \<Rightarrow> do {
       (s1, c) \<leftarrow> nbr_table_add_lladdr node_env RPL_CHILDREN (Some lladdr) NBR_TABLE_REASON_UNDEFINED
                    (Some (WeightData weight)) s;
       Some (case c of
           None \<Rightarrow> (s1, None)
         | Some k \<Rightarrow> (s1\<lparr>children := (children s1)(k := (children s1 k)\<lparr>c_weight := weight\<rparr>)\<rparr>, Some k))
     })"

end
