(* ===== verification/NodeEnv.thy ===== *)
theory NodeEnv
  imports RplParents
begin

text \<open>
  What the operations of RPL leave alone, the interpretation of the locales of the neighbour and the
  routing table on the environment of the node, and the invariant \<open>node_wf\<close> of both tables with its
  preservation by everything that changes them: the removal callbacks, the eviction of a neighbour and
  the addition of neighbours, parents, children and routes.
\<close>

unbundle bit_operations_syntax

subsection \<open>Frames\<close>

named_theorems same_ops \<open>operations in the option monad that leave the routing table alone\<close>
named_theorems same_steps \<open>operations that leave the routing table alone\<close>

definition route_same :: "rpl_state \<Rightarrow> rpl_state \<Rightarrow> bool" where
  "route_same s s' \<longleftrightarrow> nbr_frame s s' \<and> (\<forall>k. uses s' NBR_ROUTES k = uses s NBR_ROUTES k) \<and>
     routelist s' = routelist s \<and> routememb s' = routememb s \<and> neighborroutememb s' = neighborroutememb s \<and>
     nbrr_route s' = nbrr_route s \<and> nbr_routes s' = nbr_routes s \<and> num_routes s' = num_routes s \<and>
     (\<forall>r. neighbor_routes (routes s' r) = neighbor_routes (routes s r) \<and> rt_length (routes s' r) = rt_length (routes s r))"

lemma route_same_refl [simp, same_steps]: "route_same s s"
  by (simp add: route_same_def)

lemma route_same_trans: "route_same s s1 \<Longrightarrow> route_same s1 s2 \<Longrightarrow> route_same s s2"
  unfolding route_same_def using nbr_frame_trans by metis

lemma route_same_after: "route_same s1 s2 \<Longrightarrow> route_same s s1 \<Longrightarrow> route_same s s2"
  by (rule route_same_trans)

lemma route_same_op:
  "post m (route_same s1) \<Longrightarrow> route_same s s1 \<Longrightarrow> post m (route_same s)"
  "posts m' (route_same s1) \<Longrightarrow> route_same s s1 \<Longrightarrow> posts m' (route_same s)"
  by (auto simp: post_def posts_def intro: route_same_trans)

lemma route_same_frame: "route_same s s' \<Longrightarrow> nbr_frame s s'"
  by (simp add: route_same_def)

lemma route_same_cases [same_steps]:
  "route_same s a \<Longrightarrow> route_same s b \<Longrightarrow> route_same s (if c then a else b)"
  "route_same s a \<Longrightarrow> (\<And>x. v = Some x \<Longrightarrow> route_same s (f x)) \<Longrightarrow> route_same s (case v of None \<Rightarrow> a | Some x \<Rightarrow> f x)"
  by (auto split: option.splits)

text \<open>Updates of fields that belong to neither table.\<close>

lemma route_same_upd:
  "route_same s (mod_parent k f s)" "route_same s (mod_dag d g s)" "route_same s (mod_inst i h s)"
  "route_same s (emit e s)" "route_same s (set_nbr n x s)" "route_same s (s\<lparr>dao_sequence := q\<rparr>)"
  "route_same s (s\<lparr>defaultroutermemb := dm\<rparr>)" "route_same s (s\<lparr>defaultrouterlist := dl\<rparr>)"
  "route_same s (s\<lparr>defrts := df\<rparr>)" "route_same s (s\<lparr>io := tr\<rparr>)"
  "route_same s (s\<lparr>long_range_radio := lr\<rparr>)" "route_same s (s\<lparr>LongRangeTransmit := lt\<rparr>)"
  "route_same s (s\<lparr>rand_pos := rp\<rparr>)" "route_same s (s\<lparr>instance_table := it\<rparr>)"
  "route_same s (s\<lparr>parents := pa\<rparr>)" "route_same s (s\<lparr>children := ch\<rparr>)" "route_same s (s\<lparr>ds6_lr_addrmap := am\<rparr>)"
  "route_same s (s\<lparr>pkt_timer := pt\<rparr>)" "route_same s (s\<lparr>packets_memb := pm\<rparr>)" "route_same s (s\<lparr>ds6_neighbors := nb\<rparr>)"
  by (simp_all add: route_same_def nbr_frame_def nbr_same_def uses_def mod_parent_def mod_dag_def mod_inst_def
      emit_def set_nbr_def)

lemmas [same_steps] = route_same_upd [THEN route_same_after]

lemma route_same_lock [THEN route_same_after, same_steps]:
  "route_same s (fst (nbr_table_lock t p s))" "route_same s (fst (nbr_table_unlock t p s))"
  using lock_frame [of s t p]
  by (simp_all add: route_same_def nbr_table_lock_def nbr_table_unlock_def uses_def case_prod_beta)

lemma route_same_remove:
  assumes "t_index (tabs s NBR_ROUTES) \<noteq> t_index (tabs s t)"
  shows "route_same s (fst (nbr_table_remove t p s))"
proof (cases p)
  case None
  then show ?thesis by (simp add: nbr_table_remove_def)
next
  case (Some i)
  with uses_remove_other [OF assms] remove_frame [of s t p] show ?thesis
    by (simp add: route_same_def remove_Some_eq)
qed

lemma same_radio [same_steps]: "route_same s s1 \<Longrightarrow> route_same s (dual_radio_switch r s1)"
  unfolding dual_radio_switch_def by (rule same_steps | assumption)+

lemma same_select_loop [same_steps]: "route_same s s1 \<Longrightarrow> route_same s (select_loop_lr a es s1)"
  by (induction es) (simp_all add: same_radio)

lemma same_select_radio: "post (select_radio a s) (route_same s)"
  unfolding select_radio_def by (rule post_rules same_steps)+

lemmas [same_ops] = same_select_radio [THEN route_same_op(1)]

lemma same_send [same_steps]: "route_same s s1 \<Longrightarrow> route_same s (uip_icmp6_send a t c b s1)"
  unfolding uip_icmp6_send_def by (rule same_steps)

lemma same_callback [same_steps]: "route_same s s1 \<Longrightarrow> route_same s (call_route_callback e r nh s1)"
  unfolding call_route_callback_eq by (rule same_steps)

lemma same_defrt_rm [same_steps]: "route_same s s1 \<Longrightarrow> route_same s (uip_ds6_defrt_rm d s1)"
  unfolding uip_ds6_defrt_rm_def Let_def by (rule same_steps | assumption)+

lemma same_defrt_add [same_steps]: "route_same s s1 \<Longrightarrow> route_same s (fst (uip_ds6_defrt_add a t s1))"
proof -
  assume s1: "route_same s s1"
  define r where "r = (case uip_ds6_defrt_lookup a s1 of
                       Some d \<Rightarrow> (s1, Some d)
                     | None \<Rightarrow> (case memb_alloc (defaultroutermemb s1) of
                         (m, None) \<Rightarrow> (s1\<lparr>defaultroutermemb := m\<rparr>, None)
                       | (m, Some d) \<Rightarrow>
                           (s1\<lparr>defaultroutermemb := m,
                              defaultrouterlist := d # remove1 d (defaultrouterlist s1)\<rparr>, Some d)))"
  have "route_same s (fst r)"
    unfolding r_def using s1
    by (simp split: option.split prod.split) (blast intro: same_steps)
  then show ?thesis
    unfolding uip_ds6_defrt_add_def r_def [symmetric] Let_def
    by (cases r; cases "snd r")
      (simp_all only: prod.case fst_conv snd_conv option.case, (rule same_steps | assumption)+)
qed

lemma same_dao_seq: "post (dao_output_target_seq p a l q s) (route_same s)"
  unfolding dao_output_target_seq_def by (hypsubst | rule same_ops post_rules same_steps | assumption)+

lemmas [same_ops] = same_dao_seq [THEN route_same_op(1)]

lemma same_dao_output: "post (dao_output p l s) (route_same s)"
  unfolding dao_output_def dao_output_target_def
  by (hypsubst | rule same_ops post_rules same_steps | assumption)+

lemmas [same_ops] = same_dao_output [THEN route_same_op(1)]

lemma same_set_preferred [same_steps]: "route_same s s1 \<Longrightarrow> route_same s (rpl_set_preferred_parent d p s1)"
  unfolding rpl_set_preferred_parent_def Let_def by (rule same_steps | assumption)+

lemma same_nullify: "post (rpl_nullify_parent p s) (route_same s)"
  unfolding rpl_nullify_parent_def by (hypsubst | rule same_ops post_rules same_steps | assumption)+


lemmas [same_ops] = same_nullify [THEN route_same_op(1)]


text \<open>\<open>fixed s s'\<close>: what nothing changes once the tables are registered.\<close>

definition fixed :: "rpl_state \<Rightarrow> rpl_state \<Rightarrow> bool" where
  "fixed s s' \<longleftrightarrow> tabs s' = tabs s \<and> all_tables s' = all_tables s \<and> mnum (routememb s') = mnum (routememb s) \<and>
     mnum (neighborroutememb s') = mnum (neighborroutememb s) \<and>
     (\<forall>r. rt_length (routes s r) \<le> 128 \<longrightarrow> rt_length (routes s' r) \<le> 128)"

lemma fixed_refl [simp]: "fixed s s"
  by (simp add: fixed_def)

lemma fixed_trans: "fixed s s1 \<Longrightarrow> fixed s1 s2 \<Longrightarrow> fixed s s2"
  by (simp add: fixed_def)

lemma same_fixed: "route_same s s' \<Longrightarrow> fixed s s'"
  by (simp add: fixed_def route_same_def nbr_frame_def nbr_same_def)

lemma free_mnum [simp]: "mnum (fst (memb_free m p)) = mnum m"
proof -
  have "mnum (fst (free_loop m p i q n)) = mnum m" for i q n
    by (induction n arbitrary: i q) (simp_all add: Let_def)
  then show ?thesis by (simp add: memb_free_def)
qed

lemma remove_fixed: "fixed s (fst (nbr_table_remove t p s))"
  by (cases p) (simp_all add: nbr_table_remove_def fixed_def remove_Some_eq set_bit_Some)

lemma route_unlink_fixed: "nbr_frame s (route_unlink r i n s) \<and> fixed s (route_unlink r i n s)"
proof -
  define s2 where "s2 = (case n of None \<Rightarrow> s\<lparr>routelist := remove1 r (routelist s)\<rparr>
     | Some n \<Rightarrow> set_route_list i (remove1 n (route_list (nbr_routes s i))) (s\<lparr>routelist := remove1 r (routelist s)\<rparr>))"
  have s2: "nbr_frame s s2" "fixed s s2"
    by (auto simp: s2_def set_route_list_def nbr_frame_def nbr_same_def fixed_def split: option.split)
  have "route_unlink r i n s = (if route_list (nbr_routes s2 i) = [] then fst (nbr_table_remove NBR_ROUTES (Some i) s2) else s2)"
    by (simp add: route_unlink_def s2_def Let_def split: option.split)
  with s2 remove_fixed [of s2 NBR_ROUTES "Some i"] remove_frame [of s2 NBR_ROUTES "Some i"] show ?thesis
    by (auto intro: nbr_frame_trans fixed_trans)
qed

lemma route_free_fixed: "nbr_frame s (route_free r n s) \<and> fixed s (route_free r n s)"
  by (cases n) (simp_all add: route_free_def nbr_frame_def nbr_same_def fixed_def)

lemma route_rm_fixed: "post (uip_ds6_route_rm r s) (\<lambda>s'. nbr_frame s s' \<and> fixed s s')"
proof -
  have "nbr_frame s (call_route_callback e a nh (route_free r n (route_unlink r i n s))) \<and>
        fixed s (call_route_callback e a nh (route_free r n (route_unlink r i n s)))" for e a nh r n i
    using route_unlink_fixed [of s r i n] route_free_fixed [of "route_unlink r i n s" r n]
      same_callback [OF route_same_refl, of "route_free r n (route_unlink r i n s)" e a nh]
    by (meson fixed_trans nbr_frame_trans route_same_frame same_fixed)
  then show ?thesis unfolding uip_ds6_route_rm_def Let_def
    by (intro post_option post_if post_basic) simp_all
qed

lemma rm_routelist_loop_fixed:
  assumes "rm_routelist_loop i s = Some s'"
  shows "nbr_frame s s' \<and> fixed s s'"
proof (rule rm_routelist_loop.raw_induct [where P = "\<lambda>i s s'. nbr_frame s s' \<and> fixed s s'", OF _ assms])
  fix f i s s'
  assume IH: "\<And>i s s'. f i s = Some s' \<Longrightarrow> nbr_frame s s' \<and> fixed s s'"
    and e: "(case route_list (nbr_routes s i) of [] \<Rightarrow> Some s
      | n # _ \<Rightarrow> uip_ds6_route_rm (Some (nbrr_route s n)) s \<bind> f i) = Some (s' :: rpl_state)"
  show "nbr_frame s s' \<and> fixed s s'"
  proof (cases "route_list (nbr_routes s i)")
    case Nil
    with e show ?thesis by simp
  next
    case (Cons n ns)
    with e obtain s1 where s1: "uip_ds6_route_rm (Some (nbrr_route s n)) s = Some s1" "f i s1 = Some s'"
      by (auto elim: bind_SomeE)
    from postD [OF route_rm_fixed s1(1)] IH [OF s1(2)] show ?thesis
      by (blast intro: nbr_frame_trans fixed_trans)
  qed
qed

lemma rm_routelist_fixed: "post (rm_routelist p s) (\<lambda>s'. nbr_frame s s' \<and> fixed s s')"
  unfolding rm_routelist_def
  by (intro post_rules) (auto dest!: rm_routelist_loop_fixed intro: nbr_frame_trans remove_frame fixed_trans remove_fixed)

subsection \<open>The callbacks\<close>

lemma same_ipv6_callback: "post (rpl_ipv6_neighbor_callback n s) (route_same s)"
proof -
  have "route_same s s1 \<Longrightarrow> route_same s (ipv6_callback_loop is n s1)" for s1 "is"
  proof (induction "is" arbitrary: s1)
    case (Cons i "is")
    show ?case unfolding ipv6_callback_loop.simps
      by (rule Cons.IH, (rule same_steps | rule Cons.prems)+)
  qed simp
  then show ?thesis by (simp add: rpl_ipv6_neighbor_callback_def post_def)
qed

lemma node_callback_law: "node_callback t k s = Some s' \<Longrightarrow> nbr_frame s s'"
proof -
  assume a: "node_callback t k s = Some s'"
  have sc: "nbr_frame s s'" if "rpl_ipv6_neighbor_callback i s = Some s'" for i s s'
    using postD [OF same_ipv6_callback that] by (rule route_same_frame)
  consider (nbr) "t = DS6_NEIGHBORS" | (rt) "t = NBR_ROUTES" | (par) "t = RPL_PARENTS" | (ch) "t = RPL_CHILDREN"
    | (other) "t \<noteq> DS6_NEIGHBORS" "t \<noteq> NBR_ROUTES" "t \<noteq> RPL_PARENTS" "t \<noteq> RPL_CHILDREN" by blast
  then show ?thesis
  proof cases
    case nbr
    with a obtain r where "uip_ds6_nbr_rm rpl_ipv6_neighbor_callback (Some k) s = Some (s', r)"
      by (auto simp: node_callback_def)
    then show ?thesis by (rule nbr_rm_frame) (rule sc)
  next
    case rt
    with a have "rm_routelist (Some k) s = Some s'"
      by (simp add: node_callback_def rm_routelist_callback_def table_ids)
    from postD [OF rm_routelist_fixed this] show ?thesis by blast
  next
    case par
    with a obtain s1 where "rpl_nullify_parent k s = Some s1" "s' = fst (nbr_table_remove RPL_PARENTS (Some k) s1)"
      by (auto simp: node_callback_def table_ids rpl_remove_parent_def elim: bind_SomeE)
    with postD [OF same_nullify] remove_frame show ?thesis by (blast intro: nbr_frame_trans route_same_frame)
  next
    case ch
    with a remove_frame show ?thesis by (auto simp: node_callback_def table_ids rpl_remove_child_def)
  next
    case other
    with a show ?thesis by (simp add: node_callback_def)
  qed
qed

lemma node_clear_law: "nbr_eq s (node_clear t k s)"
  by (simp add: node_clear_def nbr_eq_def nbr_same_def set_nbr_def)

interpretation nbr: nbr_callbacks node_env
proof
  show "nbr_frame s s'" if "env_callback node_env t k s = Some s'" for t k s s'
    using that node_callback_law by (simp add: node_env_def)
  show "nbr_eq s (env_clear node_env t k s)" for s t k
    by (simp add: node_env_def node_clear_law)
  show "nbr_eq s s'" if "env_policy node_env r d s = Some (s', a)" for r d s s' a
    using that by (auto simp: node_env_def)
qed

interpretation rt: route_env node_env
proof
  show "env_clear node_env NBR_ROUTES k s =
      s\<lparr>nbr_routes := (nbr_routes s)(k := \<lparr>rl_init = False, route_list = []\<rparr>)\<rparr>" for k s
    by (simp add: node_env_def node_clear_def table_ids)
qed

subsection \<open>The invariant of the tables\<close>

definition node_tabs :: "rpl_state \<Rightarrow> bool" where
  "node_tabs s \<longleftrightarrow> (\<forall>t < 4. tabs s t = \<lparr>t_index = t, t_callback = True\<rparr> \<and> all_tables s t = Some t)"

definition node_wf :: "rpl_state \<Rightarrow> bool" where
  "node_wf s \<longleftrightarrow> route_wf s \<and> node_tabs s \<and> mnum (routememb s) = 70 \<and> mnum (neighborroutememb s) = 70 \<and>
     (\<forall>r. rt_length (routes s r) \<le> 128)"

definition route_core :: "rpl_state \<Rightarrow> bool" where
  "route_core s \<longleftrightarrow> t_index (tabs s NBR_ROUTES) < 8 \<and>
     distinct (routelist s) \<and> unit_pool (routememb s) \<and> memb_used (routememb s) = set (routelist s) \<and>
     unit_pool (neighborroutememb s) \<and> memb_used (neighborroutememb s) = nr_set s \<and>
     num_routes s = int (length (routelist s)) \<and>
     (\<forall>i \<in> set (nbr_items s NBR_ROUTES). rl_init (nbr_routes s i) \<and> distinct (route_list (nbr_routes s i)) \<and>
        route_list (nbr_routes s i) \<noteq> [] \<and>
        (\<forall>n \<in> set (route_list (nbr_routes s i)). neighbor_routes (routes s (nbrr_route s n)) = Some i)) \<and>
     bij_betw (nbrr_route s) (nr_set s) (set (routelist s))"

lemma route_wf_core: "route_wf s \<longleftrightarrow> nbr_wf s \<and> route_core s"
  unfolding route_wf_def route_core_def by blast

lemma route_core_cong:
  assumes "route_core s" and "set (nbr_items s' NBR_ROUTES) = set (nbr_items s NBR_ROUTES)" and "tabs s' = tabs s"
    and "routelist s' = routelist s" and "routememb s' = routememb s" and "neighborroutememb s' = neighborroutememb s"
    and "nbrr_route s' = nbrr_route s" and "nbr_routes s' = nbr_routes s" and "num_routes s' = num_routes s"
    and "\<And>r. neighbor_routes (routes s' r) = neighbor_routes (routes s r)"
  shows "route_core s'"
  using assms unfolding route_core_def nr_set_def by simp

lemma node_wf_fixed: "fixed s s' \<Longrightarrow> node_wf s \<Longrightarrow> route_wf s' \<Longrightarrow> node_wf s'"
  by (simp add: node_wf_def fixed_def node_tabs_def)

lemma same_node_wf: "route_same s s' \<Longrightarrow> node_wf s \<Longrightarrow> node_wf s'"
proof (rule node_wf_fixed [OF same_fixed])
  assume a: "route_same s s'" and wf: "node_wf s"
  then have "nt_keys s' = nt_keys s" "\<forall>k. uses s' NBR_ROUTES k = uses s NBR_ROUTES k" "tabs s' = tabs s"
    by (simp_all add: route_same_def nbr_frame_def nbr_same_def)
  then have "set (nbr_items s' NBR_ROUTES) = set (nbr_items s NBR_ROUTES)" by (auto simp: nbr_items_def)
  moreover have "route_core s" "nbr_wf s" using wf by (simp_all add: node_wf_def route_wf_core)
  ultimately have "route_core s'" using a \<open>tabs s' = tabs s\<close>
    by - (rule route_core_cong [of s s'], simp_all add: route_same_def)
  with frame_wf [OF route_same_frame [OF a] \<open>nbr_wf s\<close>] show "route_wf s'" by (simp add: route_wf_core)
qed

lemma same_tabs: "route_same s s' \<Longrightarrow> node_tabs s \<Longrightarrow> node_tabs s'"
  by (simp add: node_tabs_def route_same_def nbr_frame_def nbr_same_def)

lemma same_remove [same_steps]:
  "route_same s s1 \<Longrightarrow> node_tabs s \<Longrightarrow> t < 4 \<Longrightarrow> t \<noteq> NBR_ROUTES \<Longrightarrow>
   route_same s (fst (nbr_table_remove t p s1))"
proof -
  assume a: "route_same s s1" "node_tabs s" "t < 4" "t \<noteq> NBR_ROUTES"
  then have "t_index (tabs s1 NBR_ROUTES) \<noteq> t_index (tabs s1 t)"
    using same_tabs [OF a(1,2)] by (simp add: node_tabs_def table_ids)
  from route_same_after [OF route_same_remove [OF this] a(1)] show ?thesis .
qed

lemma table_less [same_steps]: "DS6_NEIGHBORS < 4" "RPL_PARENTS < 4" "RPL_CHILDREN < 4" "NBR_ROUTES < 4"
  "DS6_NEIGHBORS \<noteq> NBR_ROUTES" "RPL_PARENTS \<noteq> NBR_ROUTES" "RPL_CHILDREN \<noteq> NBR_ROUTES"
  by (simp_all add: table_ids)

lemma same_remove_parent: "node_tabs s \<Longrightarrow> post (rpl_remove_parent p s) (route_same s)"
  unfolding rpl_remove_parent_def by (hypsubst | rule same_ops post_rules same_steps | assumption)+

lemma same_remove_child [same_steps]:
  "route_same s s1 \<Longrightarrow> node_tabs s \<Longrightarrow> route_same s (rpl_remove_child c s1)"
  unfolding rpl_remove_child_def by (rule same_steps | assumption)+

lemma same_pq_free [same_steps]: "route_same s s1 \<Longrightarrow> route_same s (uip_packetqueue_free i s1)"
  unfolding uip_packetqueue_free_def by (rule same_steps | assumption)+

lemma same_map_rm [same_steps]: "route_same s s1 \<Longrightarrow> route_same s (fst (lladdr_map_rm_lr a s1))"
  unfolding lladdr_map_rm_lr_def case_prod_beta Let_def fst_conv by (rule same_steps | assumption)+

lemma same_map_add [same_steps]: "route_same s s1 \<Longrightarrow> route_same s (fst (lladdr_map_add_lr a s1))"
  unfolding lladdr_map_add_lr_def case_prod_beta Let_def fst_conv by (rule same_steps | assumption)+

lemmas [same_ops] = same_ipv6_callback [THEN route_same_op(1)]

lemma same_nbr_rm: "node_tabs s \<Longrightarrow> post (map_option fst (uip_ds6_nbr_rm rpl_ipv6_neighbor_callback n s)) (route_same s)"
  unfolding uip_ds6_nbr_rm_def
  by (hypsubst | rule same_ops post_rules same_steps | assumption | (unfold fst_conv, rule same_steps))+

lemma node_callback_wf:
  assumes wf: "node_wf s" and k: "k \<in> set (nt_keys s)" "uses s t k"
  shows "post (node_callback t k s) (\<lambda>s'. node_wf s' \<and> (t = NBR_ROUTES \<longrightarrow> \<not> uses s' NBR_ROUTES k))"
proof (rule postI)
  fix s'
  assume cb: "node_callback t k s = Some s'"
  have tb: "node_tabs s" using wf by (simp add: node_wf_def)
  consider (nbr) "t = DS6_NEIGHBORS" | (rt) "t = NBR_ROUTES" | (par) "t = RPL_PARENTS" | (ch) "t = RPL_CHILDREN"
    | (other) "t \<noteq> DS6_NEIGHBORS" "t \<noteq> NBR_ROUTES" "t \<noteq> RPL_PARENTS" "t \<noteq> RPL_CHILDREN" by blast
  then show "node_wf s' \<and> (t = NBR_ROUTES \<longrightarrow> \<not> uses s' NBR_ROUTES k)"
  proof cases
    case nbr
    with cb postD [OF same_nbr_rm [OF tb]] have "route_same s s'" by (simp add: node_callback_def)
    with wf nbr show ?thesis by (simp add: same_node_wf table_ids)
  next
    case par
    with cb postD [OF same_remove_parent [OF tb]] have "route_same s s'" by (simp add: node_callback_def table_ids)
    with wf par show ?thesis by (simp add: same_node_wf table_ids)
  next
    case ch
    with cb same_remove_child [OF route_same_refl tb] have "route_same s s'" by (auto simp: node_callback_def table_ids)
    with wf ch show ?thesis by (simp add: same_node_wf table_ids)
  next
    case other
    with cb wf show ?thesis by (simp add: node_callback_def)
  next
    case rt
    have rw: "route_wf s" and i: "k \<in> set (nbr_items s NBR_ROUTES)"
      using wf k rt by (simp_all add: node_wf_def nbr_items_def)
    from rm_routelist_loop_ends [OF rw] i obtain s1 where s1: "rm_routelist_loop k s = Some s1" "route_wf s1"
      "route_list (nbr_routes s1 k) = []" "nbr_frame s s1" by blast
    have "rl_init (nbr_routes s k)" using rw i by (simp add: route_wf_def)
    with cb rt s1 have s': "s' = fst (nbr_table_remove NBR_ROUTES (Some k) s1)"
      by (simp add: node_callback_def rm_routelist_callback_def rm_routelist_def table_ids)
    have nk: "k \<notin> set (nbr_items s1 NBR_ROUTES)" using s1(2,3) unfolding route_wf_def by blast
    have t8: "t_index (tabs s1 NBR_ROUTES) < 8" using s1(2) by (simp add: route_wf_def)
    have nu: "\<not> uses s1 NBR_ROUTES k" using nk k(1) frame_keys [OF s1(4)] by (simp add: nbr_items_def)
    have "uses s' NBR_ROUTES j = uses s1 NBR_ROUTES j" for j
      unfolding s' using uses_remove [OF t8, of k j] nu by blast
    moreover have "nbr_frame s1 s'" unfolding s' by (rule remove_frame)
    ultimately have "route_same s1 s'" unfolding route_same_def by (simp add: s' remove_Some_eq)
    moreover have "node_wf s1" using node_wf_fixed wf s1(2) rm_routelist_loop_fixed [OF s1(1)] by blast
    ultimately have "node_wf s'" by (rule same_node_wf)
    moreover have "\<not> uses s' NBR_ROUTES k" unfolding s' by (simp add: uses_remove [OF t8])
    ultimately show ?thesis by blast
  qed
qed

lemma callback_loop_wf:
  assumes "node_wf s" and "k \<in> set (nt_keys s)"
  shows "post (callback_loop node_env k js s) (\<lambda>s'. node_wf s' \<and>
           (NBR_ROUTES \<in> set js \<or> \<not> uses s NBR_ROUTES k \<longrightarrow> \<not> uses s' NBR_ROUTES k))"
  using assms
proof (induction js arbitrary: s)
  case Nil
  then show ?case by (simp add: post_def)
next
  case (Cons j js)
  have step: "post (callback_loop node_env k js s1) (\<lambda>s'. node_wf s' \<and>
      (NBR_ROUTES \<in> set (j # js) \<or> \<not> uses s NBR_ROUTES k \<longrightarrow> \<not> uses s' NBR_ROUTES k))"
    if "node_wf s1" "nbr_frame s s1" "j = NBR_ROUTES \<Longrightarrow> \<not> uses s1 NBR_ROUTES k" for s1
  proof (rule post_weaken [OF Cons.IH [OF that(1)]])
    show "k \<in> set (nt_keys s1)" using Cons.prems(2) frame_keys [OF that(2)] by simp
    fix s'
    assume cb: "callback_loop node_env k js s1 = Some s'"
      and x: "node_wf s' \<and> (NBR_ROUTES \<in> set js \<or> \<not> uses s1 NBR_ROUTES k \<longrightarrow> \<not> uses s' NBR_ROUTES k)"
    then show "node_wf s' \<and> (NBR_ROUTES \<in> set (j # js) \<or> \<not> uses s NBR_ROUTES k \<longrightarrow> \<not> uses s' NBR_ROUTES k)"
      using that(2,3) frame_uses [OF that(2)] by auto
  qed
  have nbr: "j = NBR_ROUTES \<Longrightarrow> all_tables s j = Some NBR_ROUTES \<and> t_callback (tabs s NBR_ROUTES)"
    using Cons.prems(1) by (simp add: node_wf_def node_tabs_def table_ids)
  show ?case
  proof (cases "all_tables s j")
    case None
    with nbr have "j \<noteq> NBR_ROUTES" by auto
    with None step [OF Cons.prems(1)] show ?thesis by simp
  next
    case (Some t)
    show ?thesis
    proof (cases "t_callback (tabs s t) \<and> uses s t k")
      case True
      have "post (node_callback t k s) (\<lambda>s1. post (callback_loop node_env k js s1) (\<lambda>s'. node_wf s' \<and>
          (NBR_ROUTES \<in> set (j # js) \<or> \<not> uses s NBR_ROUTES k \<longrightarrow> \<not> uses s' NBR_ROUTES k)))"
      proof (rule post_weaken [OF node_callback_wf [OF Cons.prems]])
        show "uses s t k" using True by blast
      next
        fix s1
        assume cb: "node_callback t k s = Some s1" and p: "node_wf s1 \<and> (t = NBR_ROUTES \<longrightarrow> \<not> uses s1 NBR_ROUTES k)"
        have "j = NBR_ROUTES \<Longrightarrow> t = NBR_ROUTES" using nbr Some by simp
        with p show "post (callback_loop node_env k js s1) (\<lambda>s'. node_wf s' \<and>
          (NBR_ROUTES \<in> set (j # js) \<or> \<not> uses s NBR_ROUTES k \<longrightarrow> \<not> uses s' NBR_ROUTES k))"
          by (intro step node_callback_law [OF cb]) blast+
      qed
      then show ?thesis using Some True
        by (auto simp: node_env_def post_def elim!: bind_SomeE)
    next
      case False
      with Some nbr have "j = NBR_ROUTES \<Longrightarrow> \<not> uses s NBR_ROUTES k" by auto
      with False Some step [OF Cons.prems(1)] show ?thesis by auto
    qed
  qed
qed


text \<open>An allocation leaves the routes of the other neighbours alone; the key it returns has none.\<close>

lemma evict_core:
  assumes wf: "node_wf s" and k: "k \<in> set (nt_keys s)"
  shows "post (evict node_env k s) (\<lambda>s'. fixed s s' \<and> route_core s')"
proof (rule postI)
  fix s'
  assume "evict node_env k s = Some s'"
  then obtain s1 where cb: "callback_loop node_env k [0..<MAX_NUM_TABLES] s = Some s1"
    and s': "s' = s1\<lparr>used_map := (used_map s1)(k := 0), nt_keys := remove1 k (nt_keys s1)\<rparr>"
    unfolding evict_def by (auto elim: bind_SomeE)
  have "NBR_ROUTES \<in> set [0..<MAX_NUM_TABLES]" by (simp add: MAX_NUM_TABLES_def table_ids)
  with postD [OF callback_loop_wf [OF wf k] cb] have s1: "node_wf s1" "\<not> uses s1 NBR_ROUTES k" by blast+
  then have "distinct (nt_keys s1)" by (simp add: node_wf_def route_wf_def nbr_wf_def)
  then have "set (nbr_items s' NBR_ROUTES) = set (nbr_items s1 NBR_ROUTES)"
    using s1(2) by (auto simp: s' nbr_items_def uses_def)
  then have "route_core s'"
    using s1(1) by - (rule route_core_cong [of s1 s'], simp_all add: s' node_wf_def route_wf_core)
  moreover have "fixed s s'" using wf s1(1) nbr.callback_loop_frame [OF cb]
    by (simp add: s' fixed_def node_wf_def nbr_frame_def nbr_same_def)
  ultimately show "fixed s s' \<and> route_core s'" by blast
qed

lemma choose_same: "route_same s (fst (choose_victim a s))"
  using choose_frame [of s a]
  by (simp add: choose_victim_def Let_def route_same_def uses_def)

lemma allocate_core:
  assumes wf: "node_wf s" and al: "nbr_table_allocate node_env reason d s = Some (s', p)"
  shows "case p of None \<Rightarrow> node_wf s' | Some k \<Rightarrow> fixed s s' \<and> route_core s'"
proof (cases "snd (memb_alloc (nt_mem s))")
  case (Some k)
  then obtain mem where m: "memb_alloc (nt_mem s) = (mem, Some k)" by (metis prod.collapse)
  with al have e: "s' = s\<lparr>nt_mem := mem\<rparr>" "p = Some k" by (simp_all add: nbr_table_allocate_def)
  have "uses s' NBR_ROUTES = uses s NBR_ROUTES" by (simp add: e uses_def fun_eq_iff)
  then have "nbr_items s' NBR_ROUTES = nbr_items s NBR_ROUTES" by (simp add: nbr_items_def e)
  moreover have "route_core s" using wf by (simp add: node_wf_def route_wf_core)
  ultimately have "route_core s'" by - (rule route_core_cong [of s], simp_all add: e)
  moreover have "fixed s s'" by (simp add: fixed_def e)
  ultimately show ?thesis by (simp add: e)
next
  case None
  then obtain mem where m: "memb_alloc (nt_mem s) = (mem, None)" by (metis prod.collapse)
  with al obtain s1 la where pol: "env_policy node_env reason d s = Some (s1, la)"
    and rest: "(case la of None \<Rightarrow> Some (s1, None) | Some a \<Rightarrow>
        (case choose_victim a s1 of (s2, None) \<Rightarrow> Some (s2, None)
         | (s2, Some k) \<Rightarrow> do { s3 \<leftarrow> evict node_env k s2; Some (s3, Some k) })) = Some (s', p)"
    unfolding nbr_table_allocate_def m prod.case option.case by (auto elim: bind_SomeE)
  have s1: "s1 = s" using pol by (simp add: node_env_def map_option_case split: option.splits)
  show ?thesis
  proof (cases la)
    case None
    with rest wf s1 show ?thesis by simp
  next
    case (Some a)
    obtain s2 v where ch: "choose_victim a s = (s2, v)" by force
    have same: "route_same s s2" using choose_same [of s a] ch by simp
    then have s2: "node_wf s2" "fixed s s2" using wf by (auto intro: same_node_wf same_fixed)
    show ?thesis
    proof (cases v)
      case None
      with rest Some s1 ch s2 show ?thesis by simp
    next
      case (Some k)
      with rest \<open>la = Some a\<close> s1 ch have ev: "evict node_env k s2 = Some s'" and p: "p = Some k"
        by (simp_all add: bind_eq_Some_conv)
      have "k \<in> set (nt_keys s2)" using choose_in_keys ch Some by blast
      from postD [OF evict_core [OF s2(1) this] ev] s2(2) p show ?thesis by (auto intro: fixed_trans)
    qed
  qed
qed

text \<open>The claim of an item of another table.\<close>

lemma claimed_core:
  assumes "t \<noteq> NBR_ROUTES" "t < 4" "node_tabs c" "k \<in> set (nt_keys c)" and rc: "route_core c"
  shows "route_core (claimed node_env t k c) \<and> fixed c (claimed node_env t k c)"
proof -
  define s' where "s' = claimed node_env t k c"
  have r: "tabs s' = tabs c \<and> routelist s' = routelist c \<and> routememb s' = routememb c \<and> routes s' = routes c \<and>
      neighborroutememb s' = neighborroutememb c \<and> nbrr_route s' = nbrr_route c \<and> nbr_routes s' = nbr_routes c \<and>
      num_routes s' = num_routes c \<and> all_tables s' = all_tables c \<and> nt_keys s' = nt_keys c"
    using assms(1) by (simp add: s'_def claimed_def node_env_def node_clear_def set_nbr_def)
  have u: "used_map s' = fst (nbr_set_bit (used_map c) c t (Some k) True)"
    by (simp add: s'_def claimed_def node_env_def node_clear_def set_nbr_def set_bit_Some)
  have "t_index (tabs c t) = t" "t_index (tabs c NBR_ROUTES) = NBR_ROUTES"
    using assms(2,3) by (simp_all add: node_tabs_def table_ids)
  then have "set (nbr_items s' NBR_ROUTES) = set (nbr_items c NBR_ROUTES)"
    using assms(1) r by (auto simp: nbr_items_def uses_def u bit_set_bit)
  with r rc have "route_core s'" by - (rule route_core_cong [of c], simp_all)
  moreover have "fixed c s'" using r by (simp add: fixed_def)
  ultimately show ?thesis by (simp add: s'_def)
qed

lemma add_lladdr_wf:
  assumes wf: "node_wf s" and t: "t < 4" "t \<noteq> NBR_ROUTES"
    and add: "nbr_table_add_lladdr node_env t (Some a) reason d s = Some (s', p)"
  shows "node_wf s'"
proof -
  have nw: "nbr_wf s" and tb: "node_tabs s" and rc: "route_core s"
    using wf by (simp_all add: node_wf_def route_wf_core)
  have t8: "t_index (tabs s t) < 8" using t tb by (simp add: node_tabs_def)
  note add_post = nbr.add_lladdr_post [OF nw t8 add]
  show ?thesis
    using add
  proof (cases rule: add_cases)
    case (known k)
    from claimed_core [OF t(2,1) tb known(1) rc] have "route_core s'" "fixed s s'"
      by (simp_all only: known(4))
    moreover have "nbr_wf s'" using add_post known(3) by simp
    ultimately show ?thesis using node_wf_fixed wf route_wf_core by blast
  next
    case full
    with allocate_core [OF wf full(2)] show ?thesis by simp
  next
    case (new s0 k)
    let ?s1 = "s0\<lparr>nt_keys := remove1 k (nt_keys s0) @ [k], nt_lladdr := (nt_lladdr s0)(k := a)\<rparr>"
    from allocate_core [OF wf new(2)] have f0: "fixed s s0" and c0: "route_core s0" by simp_all
    from nbr.allocate_cases [OF nw new(2)] have ap: "alloc_post s s0 k" by simp
    have "set (nbr_items ?s1 NBR_ROUTES) = set (nbr_items s0 NBR_ROUTES)"
      using ap remove1_idem [of k "nt_keys s0"] by (auto simp: alloc_post_def nbr_items_def uses_def)
    then have c1: "route_core ?s1" by - (rule route_core_cong [OF c0], simp_all)
    have f1: "fixed s ?s1" using f0 by (simp add: fixed_def)
    then have "node_tabs ?s1" using tb by (simp add: node_tabs_def fixed_def)
    from claimed_core [OF t(2,1) this _ c1, of k] have "route_core s'" "fixed ?s1 s'"
      by (simp_all add: new(4))
    moreover have "nbr_wf s'" using add_post new(3) by simp
    ultimately show ?thesis using node_wf_fixed [OF fixed_trans [OF f1] wf] route_wf_core by blast
  qed
qed

end
