(* ===== verification/RplDag.thy ===== *)
theory RplDag
  imports RplRoutes
begin

text \<open>
  The instances and DAGs of a node (\<open>core/net/rpl/rpl-dag.c\<close>): the root, prefixes and addresses,
  allocation, the selection of parents and DAGs, joining, the repairs and the processing of a DIO,
  with the two functions of \<open>rpl.c\<close> that need them. The printing of neighbour lists is left out. A
  result \<open>None\<close> is a null pointer dereference, a copy beyond a buffer or an undefined shift.
\<close>

unbundle bit_operations_syntax

subsection \<open>Prefixes\<close>

definition set_ip_from_prefix :: "rpl_prefix \<Rightarrow> rpl_state \<Rightarrow> ipaddr option" where
  "set_ip_from_prefix prefix s =
     (let n = (unat (px_len prefix) + 7) div 8
      in if n \<le> 16
         then Some (uip_ds6_set_addr_iid (take n (px_prefix prefix) @ replicate (16 - n) 0) (uip_lladdr s))
         else None)"

definition ADDR_AUTOCONF :: u8 where "ADDR_AUTOCONF = 1"

definition check_prefix :: "rpl_prefix option \<Rightarrow> rpl_prefix option \<Rightarrow> rpl_state \<Rightarrow> rpl_state option" where
  "check_prefix last_prefix new_prefix s =
     (if (case (last_prefix, new_prefix) of
            (Some l, Some n) \<Rightarrow> px_len l = px_len n \<and> uip_ipaddr_prefixcmp (px_prefix l) (px_prefix n) (px_len n) \<and>
              px_flags l = px_flags n
          | _ \<Rightarrow> False)
      then Some s
      else do {
        s1 \<leftarrow> (case last_prefix of
            None \<Rightarrow> Some s
          | Some l \<Rightarrow> do {
              a \<leftarrow> set_ip_from_prefix l s;
              Some (case uip_ds6_addr_lookup a s of
                  None \<Rightarrow> s
                | Some rep \<Rightarrow> uip_ds6_addr_rm (Some (ShortAddr rep)) s)
            });
        case new_prefix of
          None \<Rightarrow> Some s1
        | Some n \<Rightarrow> do {
            a \<leftarrow> set_ip_from_prefix n s1;
            Some (if uip_ds6_addr_lookup a s1 = None then fst (uip_ds6_addr_add a 0 ADDR_AUTOCONF s1) else s1)
          }
      })"

definition rpl_set_prefix :: "dagptr \<Rightarrow> ipaddr \<Rightarrow> nat \<Rightarrow> rpl_state \<Rightarrow> (rpl_state \<times> bool) option" where
  "rpl_set_prefix dag prefix len s =
     (if len > 128 then Some (s, False)
      else do {
        let last = d_prefix_info (dag_table s dag);
        let n = (len + 7) div 8;
        let new = last\<lparr>px_prefix := take n prefix @ replicate (16 - n) 0, px_len := of_nat len,
                       px_flags := UIP_ND6_RA_FLAG_AUTONOMOUS\<rparr>;
        let s1 = mod_dag dag (\<lambda>x. x\<lparr>d_prefix_info := new\<rparr>) s;
        s2 \<leftarrow> (if px_len last = 0 then check_prefix None (Some new) s1
               else check_prefix (Some last) (Some new) s1);
        Some (s2, True)
      })"

subsection \<open>Instances and DAGs\<close>

text \<open>\<open>memset\<close> of an instance also clears the DAG table in it.\<close>

definition clear_instance :: "nat \<Rightarrow> rpl_state \<Rightarrow> rpl_state" where
  "clear_instance i s = s\<lparr>instance_table := (instance_table s)(i := zero_instance),
     dag_table := (\<lambda>d. if fst d = i then zero_dag else dag_table s d)\<rparr>"

fun alloc_instance_loop :: "u8 \<Rightarrow> rpl_state \<Rightarrow> nat list \<Rightarrow> rpl_state \<times> ptr" where
  "alloc_instance_loop instance_id s [] = (s, None)"
| "alloc_instance_loop instance_id s (i # is) =
     (if \<not> i_used (instance_table s i)
      then (mod_inst i (\<lambda>x. x\<lparr>i_instance_id := instance_id, i_def_route := None, i_used := True\<rparr>)
              (clear_instance i s), Some i)
      else alloc_instance_loop instance_id s is)"

definition rpl_alloc_instance :: "u8 \<Rightarrow> rpl_state \<Rightarrow> rpl_state \<times> ptr" where
  "rpl_alloc_instance instance_id s = alloc_instance_loop instance_id s [0..<RPL_MAX_INSTANCES]"

fun alloc_dag_loop :: "nat \<Rightarrow> rpl_state \<Rightarrow> nat list \<Rightarrow> rpl_state \<times> dagptr option" where
  "alloc_dag_loop i s [] = (s, None)"
| "alloc_dag_loop i s (j # js) =
     (if \<not> d_used (dag_table s (i, j))
      then (mod_dag (i, j) (\<lambda>_. zero_dag\<lparr>d_used := True, d_rank := INFINITE_RANK, d_min_rank := INFINITE_RANK,
              d_instance := Some i\<rparr>) s, Some (i, j))
      else alloc_dag_loop i s js)"

definition rpl_alloc_dag :: "u8 \<Rightarrow> ipaddr \<Rightarrow> rpl_state \<Rightarrow> rpl_state \<times> dagptr option" where
  "rpl_alloc_dag instance_id dag_id s =
     (let (s1, inst) = (case rpl_get_instance instance_id s of
                          Some i \<Rightarrow> (s, Some i)
                        | None \<Rightarrow> rpl_alloc_instance instance_id s)
      in case inst of
           None \<Rightarrow> (s1, None)
         | Some i \<Rightarrow> alloc_dag_loop i s1 [0..<RPL_MAX_DAG_PER_INSTANCE])"

definition rpl_free_dag :: "dagptr \<Rightarrow> rpl_state \<Rightarrow> rpl_state option" where
  "rpl_free_dag dag s = do {
     s' \<leftarrow> (if d_joined (dag_table s dag)
       then do {
         let s1 = mod_dag dag (\<lambda>x. x\<lparr>d_joined := False\<rparr>) s;
         s2 \<leftarrow> rpl_remove_routes dag s1;
         s3 \<leftarrow> (if px_flags (d_prefix_info (dag_table s2 dag)) AND UIP_ND6_RA_FLAG_AUTONOMOUS \<noteq> 0
                then check_prefix (Some (d_prefix_info (dag_table s2 dag))) None s2 else Some s2);
         remove_parents dag 0 s3
       }
       else Some s);
     Some (mod_dag dag (\<lambda>x. x\<lparr>d_used := False\<rparr>) s')
   }"

fun free_dags_loop :: "nat \<Rightarrow> nat list \<Rightarrow> rpl_state \<Rightarrow> rpl_state option" where
  "free_dags_loop i [] s = Some s"
| "free_dags_loop i (j # js) s = do {
     s1 \<leftarrow> (if d_used (dag_table s (i, j)) then rpl_free_dag (i, j) s else Some s);
     free_dags_loop i js s1
   }"

definition rpl_free_instance :: "nat \<Rightarrow> rpl_state \<Rightarrow> rpl_state option" where
  "rpl_free_instance i s = do {
     s1 \<leftarrow> free_dags_loop i [0..<RPL_MAX_DAG_PER_INSTANCE] s;
     let s2 = fst (rpl_set_default_route i None s1);
     let s3 = mod_inst i (\<lambda>x. x\<lparr>i_dio_timer := None, i_dao_timer := None, i_dao_lifetime_timer := None\<rparr>) s2;
     let s4 = (if default_instance s3 = Some i then s3\<lparr>default_instance := None\<rparr> else s3);
     Some (mod_inst i (\<lambda>x. x\<lparr>i_used := False\<rparr>) s4)
   }"

subsection \<open>The root\<close>

text \<open>The loop of \<open>rpl_set_root\<close> over the DAGs of the instance; it computes the next version.\<close>

fun drop_dags_loop :: "nat \<Rightarrow> ipaddr \<Rightarrow> nat list \<Rightarrow> u8 \<Rightarrow> rpl_state \<Rightarrow> (rpl_state \<times> u8) option" where
  "drop_dags_loop i dag_id [] version s = Some (s, version)"
| "drop_dags_loop i dag_id (j # js) version s =
     (let dag = dag_table s (i, j)
      in if d_used dag
         then do {
           let version1 = (if d_id dag = dag_id then RPL_LOLLIPOP_INCREMENT (d_version dag) else version);
           k \<leftarrow> d_instance dag;
           let s1 = (if i_current_dag (instance_table s k) = Some (i, j)
                     then mod_inst k (\<lambda>x. x\<lparr>i_current_dag := None\<rparr>) s else s);
           s2 \<leftarrow> rpl_free_dag (i, j) s1;
           drop_dags_loop i dag_id js version1 s2
         }
         else drop_dags_loop i dag_id js version s)"

definition root_config :: "rpl_instance \<Rightarrow> rpl_instance" where
  "root_config x = x\<lparr>i_dio_intdoubl := RPL_DIO_INTERVAL_DOUBLINGS, i_dio_intmin := RPL_DIO_INTERVAL_MIN,
     i_dio_intcurrent := RPL_DIO_INTERVAL_MIN + RPL_DIO_INTERVAL_DOUBLINGS, i_dio_redundancy := RPL_DIO_REDUNDANCY,
     i_max_rankinc := RPL_MAX_RANKINC, i_min_hoprankinc := RPL_MIN_HOPRANKINC,
     i_default_lifetime := RPL_DEFAULT_LIFETIME, i_lifetime_unit := RPL_DEFAULT_LIFETIME_UNIT\<rparr>"

definition rpl_set_root :: "u8 \<Rightarrow> ipaddr \<Rightarrow> rpl_state \<Rightarrow> (rpl_state \<times> dagptr option) option" where
  "rpl_set_root instance_id dag_id s = do {
     (s1, version) \<leftarrow> (case rpl_get_instance instance_id s of
         None \<Rightarrow> Some (s, RPL_LOLLIPOP_INIT)
       | Some i \<Rightarrow> drop_dags_loop i dag_id [0..<RPL_MAX_DAG_PER_INSTANCE] RPL_LOLLIPOP_INIT s);
     case rpl_alloc_dag instance_id dag_id s1 of
       (s2, None) \<Rightarrow> Some (s2, None)
     | (s2, Some d) \<Rightarrow> do {
         i \<leftarrow> d_instance (dag_table s2 d);
         let s3 = mod_dag d (\<lambda>x. x\<lparr>d_version := version, d_joined := True, d_grounded := RPL_GROUNDED,
                    d_preference := RPL_PREFERENCE\<rparr>) s2;
         let s4 = mod_inst i (\<lambda>x. x\<lparr>i_mop := RPL_MOP_DEFAULT, i_of := Some RPL_OF\<rparr>) s3;
         let s5 = rpl_set_preferred_parent (Some d) None s4;
         let s6 = mod_inst i root_config (mod_dag d (\<lambda>x. x\<lparr>d_id := dag_id\<rparr>) s5);
         let s7 = mod_dag d (\<lambda>x. x\<lparr>d_rank := ROOT_RANK (instance_table s6 i)\<rparr>) s6;
         s8 \<leftarrow> (case i_current_dag (instance_table s7 i) of
             Some c \<Rightarrow> if c \<noteq> d
               then do { t \<leftarrow> rpl_remove_routes c s7; Some (mod_dag c (\<lambda>x. x\<lparr>d_joined := False\<rparr>) t) }
               else Some s7
           | None \<Rightarrow> Some s7);
         let s9 = mod_inst i (\<lambda>x. x\<lparr>i_current_dag := Some d, i_dtsn_out := RPL_LOLLIPOP_INIT\<rparr>) s8;
         func \<leftarrow> i_of (instance_table s9 i);
         let s10 = (of_update_metric_container func i s9)\<lparr>default_instance := Some i\<rparr>;
         s11 \<leftarrow> rpl_reset_dio_timer i s10;
         Some (s11, Some d)
       }
   }"

definition rpl_repair_root :: "u8 \<Rightarrow> rpl_state \<Rightarrow> (rpl_state \<times> bool) option" where
  "rpl_repair_root instance_id s = (case rpl_get_instance instance_id s of
     None \<Rightarrow> Some (s, False)
   | Some i \<Rightarrow> do {
       d \<leftarrow> i_current_dag (instance_table s i);
       if d_rank (dag_table s d) \<noteq> ROOT_RANK (instance_table s i) then Some (s, False)
       else do {
         let s1 = mod_dag d (\<lambda>x. x\<lparr>d_version := RPL_LOLLIPOP_INCREMENT (d_version x)\<rparr>) s;
         let s2 = mod_inst i (\<lambda>x. x\<lparr>i_dtsn_out := RPL_LOLLIPOP_INCREMENT (i_dtsn_out x)\<rparr>) s1;
         s3 \<leftarrow> rpl_reset_dio_timer i s2;
         Some (s3, True)
       }
     })"

subsection \<open>Selecting a parent\<close>

text \<open>The loop over the parents; \<open>best\<close> is the best candidate so far.\<close>

fun best_parent_loop :: "dagptr \<Rightarrow> nat list \<Rightarrow> rpl_state \<Rightarrow> ptr \<Rightarrow> (rpl_state \<times> ptr) option" where
  "best_parent_loop dag [] s best = Some (s, best)"
| "best_parent_loop dag (p # ps) s best =
     (if p_dag (parents s p) \<noteq> Some dag \<or> p_rank (parents s p) = INFINITE_RANK
      then best_parent_loop dag ps s best
      else (case best of
          None \<Rightarrow> best_parent_loop dag ps s (Some p)
        | Some b \<Rightarrow> do {
            i \<leftarrow> d_instance (dag_table s dag);
            func \<leftarrow> i_of (instance_table s i);
            (s1, r) \<leftarrow> of_best_parent func b p s;
            best_parent_loop dag ps s1 r
          }))"

text \<open>The probabilistic switch: the previous parent is kept when the random number is zero.\<close>

definition keep_previous :: "nat \<Rightarrow> nat \<Rightarrow> rpl_state \<Rightarrow> rpl_state \<times> bool" where
  "keep_previous prev best s =
     (let load_diff = p_est_load (parents s prev) + p_parent_sum_weight (parents s prev)
                        - (p_est_load (parents s best) + p_parent_sum_weight (parents s best))
      in if load_diff > 0
         then (case c_rand s of (r, s1) \<Rightarrow> (s1, r mod unat load_diff = 0))
         else (s, True))"

definition best_parent :: "dagptr \<Rightarrow> rpl_state \<Rightarrow> (rpl_state \<times> ptr) option" where
  "best_parent dag s = do {
     let prev = d_preferred_parent (dag_table s dag);
     (s1, best) \<leftarrow> best_parent_loop dag (nbr_items s RPL_PARENTS) s None;
     let (s2, keep) = (case (best, prev) of
         (Some b, Some q) \<Rightarrow> if b \<noteq> q then keep_previous q b s1 else (s1, False)
       | _ \<Rightarrow> (s1, False));
     if keep then Some (s2, prev)
     else (case prev of
         None \<Rightarrow> Some (s2, best)
       | Some q \<Rightarrow>
           if init_phase s2 \<and> prev \<noteq> best
           then do {
             b \<leftarrow> best;
             if p_rank (parents s2 q) > p_rank (parents s2 b) then Some (s2, best)
             else (case c_rand s2 of (r, s3) \<Rightarrow> Some (s3, if r mod 2 = 0 then best else prev))
           }
           else Some (s2, best))
   }"

definition rpl_select_parent :: "dagptr \<Rightarrow> rpl_state \<Rightarrow> (rpl_state \<times> ptr) option" where
  "rpl_select_parent dag s = do {
     (s1, best) \<leftarrow> best_parent dag s;
     if best \<noteq> None
     then do {
       let s2 = rpl_set_preferred_parent (Some dag) best s1;
       i \<leftarrow> d_instance (dag_table s2 dag);
       func \<leftarrow> i_of (instance_table s2 i);
       rank \<leftarrow> of_calculate_rank func (d_preferred_parent (dag_table s2 dag)) 0 s2;
       Some (mod_dag dag (\<lambda>x. x\<lparr>d_rank := rank\<rparr>) s2, best)
     }
     else Some (mod_dag dag (\<lambda>x. x\<lparr>d_rank := INFINITE_RANK\<rparr>) s1, best)
   }"

subsection \<open>Selecting a DAG\<close>

fun best_dag_loop :: "nat \<Rightarrow> rpl_state \<Rightarrow> nat list \<Rightarrow> dagptr option \<Rightarrow> dagptr option option" where
  "best_dag_loop i s [] best = Some best"
| "best_dag_loop i s (j # js) best = do {
     let dag = dag_table s (i, j);
     best1 \<leftarrow> (case d_preferred_parent dag of
         None \<Rightarrow> Some best
       | Some p \<Rightarrow>
           if d_used dag \<and> p_rank (parents s p) \<noteq> INFINITE_RANK
           then (case best of
               None \<Rightarrow> Some (Some (i, j))
             | Some b \<Rightarrow> do { func \<leftarrow> i_of (instance_table s i); Some (Some (of_best_dag func b (i, j) s)) })
           else Some best);
     best_dag_loop i s js best1
   }"

definition choose_dag :: "nat \<Rightarrow> nat \<Rightarrow> dagptr \<Rightarrow> rpl_state \<Rightarrow> (rpl_state \<times> dagptr option) option" where
  "choose_dag i p cur s =
     (if d_rank (dag_table s cur) = ROOT_RANK (instance_table s i) then Some (s, Some cur)
      else do {
        d \<leftarrow> p_dag (parents s p);
        (s1, sel) \<leftarrow> rpl_select_parent d s;
        if sel \<noteq> None
        then (if d \<noteq> cur
              then do { func \<leftarrow> i_of (instance_table s1 i); Some (s1, Some (of_best_dag func cur d s1)) }
              else Some (s1, Some cur))
        else if d = cur
        then do { best \<leftarrow> best_dag_loop i s1 [0..<RPL_MAX_DAG_PER_INSTANCE] None; Some (s1, best) }
        else Some (s1, Some cur)
      })"

text \<open>Leaving the current DAG for the one chosen.\<close>

definition switch_dag :: "nat \<Rightarrow> dagptr \<Rightarrow> dagptr \<Rightarrow> rpl_state \<Rightarrow> rpl_state option" where
  "switch_dag i cur best s = do {
     s1 \<leftarrow> rpl_remove_routes cur s;
     let new = d_prefix_info (dag_table s1 best);
     let old = d_prefix_info (dag_table s1 cur);
     s2 \<leftarrow> (if px_flags new AND UIP_ND6_RA_FLAG_AUTONOMOUS \<noteq> 0 then check_prefix (Some old) (Some new) s1
            else if px_flags old AND UIP_ND6_RA_FLAG_AUTONOMOUS \<noteq> 0 then check_prefix (Some old) None s1
            else Some s1);
     let s3 = mod_dag best (\<lambda>x. x\<lparr>d_joined := True\<rparr>) s2;
     let s4 = mod_dag cur (\<lambda>x. x\<lparr>d_joined := False\<rparr>) s3;
     Some (mod_inst i (\<lambda>x. x\<lparr>i_current_dag := Some best\<rparr>) s4)
   }"

text \<open>What follows a change of the preferred parent.\<close>

definition parent_changed :: "nat \<Rightarrow> dagptr \<Rightarrow> ptr \<Rightarrow> rpl_state \<Rightarrow> rpl_state option" where
  "parent_changed i best last_parent s =
     (if d_preferred_parent (dag_table s best) \<noteq> last_parent
      then do {
        let s1 = fst (rpl_set_default_route i (rpl_get_parent_ipaddr (d_preferred_parent (dag_table s best)) s) s);
        s2 \<leftarrow> (if i_mop (instance_table s1 i) \<noteq> RPL_MOP_NO_DOWNWARD_ROUTES
               then do {
                 t \<leftarrow> (if last_parent \<noteq> None then dao_output last_parent RPL_ZERO_LIFETIME s1 else Some s1);
                 rpl_schedule_dao i
                   (mod_inst i (\<lambda>x. x\<lparr>i_dtsn_out := RPL_LOLLIPOP_INCREMENT (i_dtsn_out x)\<rparr>) t)
               }
               else Some s1);
        rpl_reset_dio_timer i s2
      }
      else Some s)"

definition rpl_select_dag :: "nat \<Rightarrow> nat \<Rightarrow> rpl_state \<Rightarrow> (rpl_state \<times> dagptr option) option" where
  "rpl_select_dag i p s = do {
     cur \<leftarrow> i_current_dag (instance_table s i);
     let last_parent = d_preferred_parent (dag_table s cur);
     (s1, best_dag) \<leftarrow> choose_dag i p cur s;
     case best_dag of
       None \<Rightarrow> Some (s1, None)
     | Some best \<Rightarrow> do {
         s2 \<leftarrow> (if cur \<noteq> best then switch_dag i cur best s1 else Some s1);
         func \<leftarrow> i_of (instance_table s2 i);
         let s3 = of_update_metric_container func i s2;
         rank \<leftarrow> of_calculate_rank func (d_preferred_parent (dag_table s3 best)) 0 s3;
         let s4 = mod_dag best (\<lambda>x. x\<lparr>d_rank := rank\<rparr>) s3;
         if last_parent = None \<or> rank < d_min_rank (dag_table s4 best)
         then do {
           s5 \<leftarrow> parent_changed i best last_parent (mod_dag best (\<lambda>x. x\<lparr>d_min_rank := rank\<rparr>) s4);
           Some (s5, Some best)
         }
         else do {
           ok \<leftarrow> acceptable_rank best rank s4;
           if ok
           then do { s5 \<leftarrow> parent_changed i best last_parent s4; Some (s5, Some best) }
           else do {
             let s5 = rpl_set_preferred_parent (i_current_dag (instance_table s4 i)) None s4;
             s6 \<leftarrow> (if i_mop (instance_table s5 i) \<noteq> RPL_MOP_NO_DOWNWARD_ROUTES \<and> last_parent \<noteq> None
                    then dao_output last_parent RPL_ZERO_LIFETIME s5 else Some s5);
             Some (s6, None)
           }
         }
       }
   }"

subsection \<open>Repairs\<close>

fun local_repair_loop :: "nat \<Rightarrow> nat list \<Rightarrow> rpl_state \<Rightarrow> rpl_state option" where
  "local_repair_loop i [] s = Some s"
| "local_repair_loop i (j # js) s = do {
     s1 \<leftarrow> (if d_used (dag_table s (i, j))
            then nullify_parents (i, j) 0 (mod_dag (i, j) (\<lambda>x. x\<lparr>d_rank := INFINITE_RANK\<rparr>) s)
            else Some s);
     local_repair_loop i js s1
   }"

definition rpl_local_repair :: "ptr \<Rightarrow> rpl_state \<Rightarrow> rpl_state option" where
  "rpl_local_repair inst s = (case inst of
     None \<Rightarrow> Some s
   | Some i \<Rightarrow> do {
       s1 \<leftarrow> local_repair_loop i [0..<RPL_MAX_DAG_PER_INSTANCE] s;
       s2 \<leftarrow> rpl_reset_dio_timer i (mod_inst i (\<lambda>x. x\<lparr>i_has_downward_route := False\<rparr>) s1);
       Some (mod_inst i (\<lambda>x. x\<lparr>i_dtsn_out := RPL_LOLLIPOP_INCREMENT (i_dtsn_out x)\<rparr>) s2)
     })"

definition rpl_process_parent_event :: "nat \<Rightarrow> nat \<Rightarrow> rpl_state \<Rightarrow> (rpl_state \<times> bool) option" where
  "rpl_process_parent_event i p s = do {
     d \<leftarrow> p_dag (parents s p);
     ok \<leftarrow> acceptable_rank d (p_rank (parents s p)) s;
     (s1, stop) \<leftarrow> (if \<not> ok
       then do {
         s1 \<leftarrow> rpl_nullify_parent p s;
         cur \<leftarrow> i_current_dag (instance_table s1 i);
         Some (s1, Some p \<noteq> d_preferred_parent (dag_table s1 cur))
       }
       else Some (s, False));
     if stop then Some (s1, False)
     else do {
       (s2, sel) \<leftarrow> rpl_select_dag i p s1;
       if sel = None
       then do { s3 \<leftarrow> rpl_local_repair (Some i) s2; Some (s3, False) }
       else Some (s2, ok)
     }
   }"

fun recalculate_loop :: "nat list \<Rightarrow> rpl_state \<Rightarrow> rpl_state option" where
  "recalculate_loop [] s = Some s"
| "recalculate_loop (p # ps) s = do {
     s1 \<leftarrow> (if uses s RPL_PARENTS p
            then (case p_dag (parents s p) of
                None \<Rightarrow> Some s
              | Some d \<Rightarrow> (case d_instance (dag_table s d) of
                  None \<Rightarrow> Some s
                | Some i \<Rightarrow>
                    if p_flags (parents s p) AND RPL_PARENT_FLAG_UPDATED \<noteq> 0
                    then map_option fst (rpl_process_parent_event i p
                           (mod_parent p (\<lambda>x. x\<lparr>p_flags := p_flags x AND NOT RPL_PARENT_FLAG_UPDATED\<rparr>) s))
                    else Some s))
            else Some s);
     recalculate_loop ps s1
   }"

definition rpl_recalculate_ranks :: "rpl_state \<Rightarrow> rpl_state option" where
  "rpl_recalculate_ranks s = recalculate_loop (nt_keys s) s"

end
