(* ===== verification/RplDio.thy ===== *)
theory RplDio
  imports RplDag
begin

text \<open>
  Joining and processing of DIOs (\<open>core/net/rpl/rpl-dag.c\<close>): moving a parent between DAGs, joining an
  instance, adding a DAG, the global repair and \<open>rpl_process_dio\<close>, in the sections of the C function;
  \<open>rpl_purge_dags\<close> and \<open>rpl_init\<close> of \<open>rpl.c\<close>. \<open>rpl_process_dio\<close> writes to the sender address its caller passes, so
  the address is part of its result.
\<close>

unbundle bit_operations_syntax

definition rpl_move_parent :: "dagptr \<Rightarrow> dagptr \<Rightarrow> nat \<Rightarrow> rpl_state \<Rightarrow> rpl_state option" where
  "rpl_move_parent dag_src dag_dst parent s = do {
     s' \<leftarrow> (if d_preferred_parent (dag_table s dag_src) = Some parent
       then do {
         let s1 = rpl_set_preferred_parent (Some dag_src) None s;
         let s2 = mod_dag dag_src (\<lambda>x. x\<lparr>d_rank := INFINITE_RANK\<rparr>) s1;
         if d_joined (dag_table s2 dag_src)
         then do {
           i \<leftarrow> d_instance (dag_table s2 dag_src);
           Some (case i_def_route (instance_table s2 i) of
               None \<Rightarrow> s2
             | Some r \<Rightarrow> mod_inst i (\<lambda>x. x\<lparr>i_def_route := None\<rparr>) (uip_ds6_defrt_rm (Some r) s2))
         }
         else Some s2
       }
       else if d_joined (dag_table s dag_src)
       then rpl_remove_routes_by_nexthop (rpl_get_parent_ipaddr (Some parent) s) dag_src s
       else Some s);
     Some (mod_parent parent (\<lambda>x. x\<lparr>p_dag := Some dag_dst\<rparr>) s')
   }"

text \<open>The depth in the tree that SEDA-Net derives from the rank of the DAG.\<close>

definition set_tree_level :: "dagptr \<Rightarrow> rpl_state \<Rightarrow> rpl_state" where
  "set_tree_level dag s = s\<lparr>tree_level :=
     (if d_rank (dag_table s dag) = RPL_MIN_HOPRANKINC * 2 then 1
      else if d_rank (dag_table s dag) = RPL_MIN_HOPRANKINC * 3 then 2 else 3)\<rparr>"

text \<open>What the radio a neighbour was heard on makes of the weight of a parent.\<close>

definition weight_of :: "ipaddr \<Rightarrow> rpl_state \<Rightarrow> u8 option" where
  "weight_of from s = do { lr \<leftarrow> long_ip_from_lladdr_map from s; Some (if lr = 1 then LONG_WEIGHT_RATIO else 1) }"

subsection \<open>Joining\<close>

definition join_config :: "rpl_of \<Rightarrow> rpl_dio \<Rightarrow> dagptr \<Rightarrow> rpl_instance \<Rightarrow> rpl_instance" where
  "join_config func dio dag x = x\<lparr>i_of := Some func, i_mop := dio_mop dio, i_current_dag := Some dag,
     i_dtsn_out := RPL_LOLLIPOP_INIT, i_max_rankinc := dio_dag_max_rankinc dio,
     i_min_hoprankinc := dio_dag_min_hoprankinc dio, i_dio_intdoubl := dio_dag_intdoubl dio,
     i_dio_intmin := dio_dag_intmin dio, i_dio_intcurrent := dio_dag_intmin dio + dio_dag_intdoubl dio,
     i_dio_redundancy := dio_dag_redund dio, i_default_lifetime := dio_default_lifetime dio,
     i_lifetime_unit := dio_lifetime_unit dio\<rparr>"

text \<open>The part of \<open>rpl_join_instance\<close> after the parent has been added.\<close>

definition join_dag :: "rpl_of \<Rightarrow> dagptr \<Rightarrow> nat \<Rightarrow> nat \<Rightarrow> ipaddr \<Rightarrow> rpl_dio \<Rightarrow> rpl_state \<Rightarrow> rpl_state option" where
  "join_dag func d i p from dio s = do {
     w \<leftarrow> weight_of from s;
     let s1 = mod_parent p (\<lambda>x. x\<lparr>p_dtsn := dio_dtsn dio, p_parent_weight := w\<rparr>) s;
     s2 \<leftarrow> (if px_flags (dio_prefix_info dio) AND UIP_ND6_RA_FLAG_AUTONOMOUS \<noteq> 0
            then check_prefix None (Some (dio_prefix_info dio)) s1 else Some s1);
     let s3 = mod_dag d (\<lambda>x. x\<lparr>d_joined := True, d_preference := dio_preference dio,
                d_grounded := dio_grounded dio, d_version := dio_version dio\<rparr>) s2;
     let s4 = mod_inst i (join_config func dio d) s3;
     let s5 = mod_dag d (\<lambda>x. x\<lparr>d_id := dio_dag_id dio, d_prefix_info := dio_prefix_info dio\<rparr>) s4;
     let s6 = rpl_set_preferred_parent (Some d) (Some p) s5;
     let s7 = of_update_metric_container func i s6;
     rank \<leftarrow> of_calculate_rank func (Some p) 0 s7;
     let s8 = set_tree_level d (mod_dag d (\<lambda>x. x\<lparr>d_rank := rank, d_min_rank := rank\<rparr>) s7);
     let s9 = (if default_instance s8 = None then s8\<lparr>default_instance := Some i\<rparr> else s8);
     s10 \<leftarrow> rpl_reset_dio_timer i s9;
     let s11 = fst (rpl_set_default_route i (Some from) s10);
     if i_mop (instance_table s11 i) \<noteq> RPL_MOP_NO_DOWNWARD_ROUTES then rpl_schedule_dao i s11 else Some s11
   }"

definition rpl_join_instance :: "ipaddr \<Rightarrow> rpl_dio \<Rightarrow> rpl_state \<Rightarrow> rpl_state option" where
  "rpl_join_instance from dio s =
     (let s1 = s\<lparr>join_instance := 1\<rparr>
      in case rpl_find_of (dio_ocp dio) of
           None \<Rightarrow> Some s1
         | Some func \<Rightarrow> (case rpl_alloc_dag (dio_instance_id dio) (dio_dag_id dio) s1 of
             (s2, None) \<Rightarrow> Some s2
           | (s2, Some d) \<Rightarrow> do {
               i \<leftarrow> d_instance (dag_table s2 d);
               (s3, p) \<leftarrow> rpl_add_parent d dio from s2;
               case p of
                 None \<Rightarrow> Some (mod_inst i (\<lambda>x. x\<lparr>i_used := False\<rparr>) s3)
               | Some k \<Rightarrow> join_dag func d i k from dio s3
             }))"

text \<open>Whether a DIO carries the configuration the instance has.\<close>

definition same_config :: "rpl_instance \<Rightarrow> rpl_dio \<Rightarrow> bool" where
  "same_config x dio \<longleftrightarrow> rpl_find_of (dio_ocp dio) = i_of x \<and> i_mop x = dio_mop dio \<and>
     i_max_rankinc x = dio_dag_max_rankinc dio \<and> i_min_hoprankinc x = dio_dag_min_hoprankinc dio \<and>
     i_dio_intdoubl x = dio_dag_intdoubl dio \<and> i_dio_intmin x = dio_dag_intmin dio \<and>
     i_dio_redundancy x = dio_dag_redund dio \<and> i_default_lifetime x = dio_default_lifetime dio \<and>
     i_lifetime_unit x = dio_lifetime_unit dio"

text \<open>The sender as a parent in \<open>dag\<close>: added, or moved from the DAG it was in.\<close>

definition adopt_parent :: "dagptr \<Rightarrow> rpl_dio \<Rightarrow> ipaddr \<Rightarrow> rpl_state \<Rightarrow> (rpl_state \<times> ptr) option" where
  "adopt_parent dag dio from s = (case find_parent_dag from s of
     None \<Rightarrow> rpl_add_parent dag dio from s
   | Some previous_dag \<Rightarrow> do {
       p \<leftarrow> rpl_find_parent previous_dag from s;
       s1 \<leftarrow> rpl_move_parent previous_dag dag p s;
       Some (s1, Some p)
     })"

definition rpl_add_dag :: "ipaddr \<Rightarrow> rpl_dio \<Rightarrow> rpl_state \<Rightarrow> (rpl_state \<times> dagptr option) option" where
  "rpl_add_dag from dio s = (case rpl_alloc_dag (dio_instance_id dio) (dio_dag_id dio) s of
     (s1, None) \<Rightarrow> Some (s1, None)
   | (s1, Some d) \<Rightarrow> do {
       i \<leftarrow> d_instance (dag_table s1 d);
       (s2, p) \<leftarrow> adopt_parent d dio from s1;
       case p of
         None \<Rightarrow> Some (mod_dag d (\<lambda>x. x\<lparr>d_used := False\<rparr>) s2, None)
       | Some k \<Rightarrow> do {
           let s3 = mod_parent k (\<lambda>x. x\<lparr>p_rank := dio_rank dio\<rparr>) s2;
           if \<not> same_config (instance_table s3 i) dio
           then do {
             s4 \<leftarrow> rpl_remove_parent k s3;
             Some (mod_dag d (\<lambda>x. x\<lparr>d_used := False\<rparr>) s4, None)
           }
           else do {
             let s4 = mod_dag d (\<lambda>x. x\<lparr>d_used := True, d_grounded := dio_grounded dio,
                        d_preference := dio_preference dio, d_version := dio_version dio,
                        d_id := dio_dag_id dio, d_prefix_info := dio_prefix_info dio\<rparr>) s3;
             let s5 = rpl_set_preferred_parent (Some d) (Some k) s4;
             func \<leftarrow> i_of (instance_table s5 i);
             rank \<leftarrow> of_calculate_rank func (Some k) 0 s5;
             let s6 = mod_dag d (\<lambda>x. x\<lparr>d_rank := rank, d_min_rank := rank\<rparr>) s5;
             s7 \<leftarrow> map_option fst (rpl_process_parent_event i k s6);
             Some (mod_parent k (\<lambda>x. x\<lparr>p_dtsn := dio_dtsn dio\<rparr>) s7, Some d)
           }
         }
     })"

subsection \<open>The global repair\<close>

definition repair_config :: "rpl_dio \<Rightarrow> rpl_instance \<Rightarrow> rpl_instance" where
  "repair_config dio x = x\<lparr>i_dio_intdoubl := dio_dag_intdoubl dio, i_dio_intmin := dio_dag_intmin dio,
     i_dio_redundancy := dio_dag_redund dio, i_default_lifetime := dio_default_lifetime dio,
     i_lifetime_unit := dio_lifetime_unit dio, i_dtsn_out := RPL_LOLLIPOP_INCREMENT (i_dtsn_out x)\<rparr>"

definition global_repair :: "ipaddr \<Rightarrow> dagptr \<Rightarrow> rpl_dio \<Rightarrow> rpl_state \<Rightarrow> rpl_state option" where
  "global_repair from dag dio s = do {
     s1 \<leftarrow> remove_parents dag 0 s;
     i \<leftarrow> d_instance (dag_table s1 dag);
     func \<leftarrow> i_of (instance_table s1 i);
     let s2 = mod_dag dag (\<lambda>x. x\<lparr>d_version := dio_version dio, d_min_rank := INFINITE_RANK\<rparr>)
                (mod_inst i (repair_config dio) s1);
     (s3, p) \<leftarrow> rpl_add_parent dag dio from s2;
     case p of
       None \<Rightarrow> Some (mod_dag dag (\<lambda>x. x\<lparr>d_rank := INFINITE_RANK\<rparr>) s3)
     | Some k \<Rightarrow> do {
         rank \<leftarrow> of_calculate_rank func (Some k) 0 s3;
         map_option fst (rpl_process_parent_event i k
           (mod_dag dag (\<lambda>x. x\<lparr>d_rank := rank, d_min_rank := rank\<rparr>) s3))
       }
   }"

subsection \<open>Processing a DIO\<close>

definition should_send_dao :: "nat \<Rightarrow> rpl_dio \<Rightarrow> nat \<Rightarrow> rpl_state \<Rightarrow> bool option" where
  "should_send_dao i dio p s =
     (if i_mop (instance_table s i) = RPL_MOP_NO_DOWNWARD_ROUTES then Some False
      else do {
        d \<leftarrow> i_current_dag (instance_table s i);
        Some (Some p = d_preferred_parent (dag_table s d) \<and>
              lollipop_greater_than (uint (dio_dtsn dio)) (uint (p_dtsn (parents s p))))
      })"

definition add_nbr_from_dio :: "ipaddr \<Rightarrow> rpl_dio \<Rightarrow> rpl_state \<Rightarrow> (rpl_state \<times> bool) option" where
  "add_nbr_from_dio from dio s = do {
     (s1, n) \<leftarrow> rpl_icmp6_update_nbr_table from NBR_TABLE_REASON_RPL_DIO (Some (DioData dio)) s;
     Some (s1, n \<noteq> None)
   }"

text \<open>A prefix announced for autoconfiguration.\<close>

definition learn_prefix :: "dagptr \<Rightarrow> rpl_dio \<Rightarrow> rpl_state \<Rightarrow> rpl_state option" where
  "learn_prefix dag dio s =
     (if px_len (dio_prefix_info dio) \<noteq> 0 \<and> px_flags (dio_prefix_info dio) AND UIP_ND6_RA_FLAG_AUTONOMOUS \<noteq> 0
      then map_option fst (rpl_set_prefix dag (px_prefix (dio_prefix_info dio)) (unat (px_len (dio_prefix_info dio))) s)
      else Some s)"

text \<open>The comparison of versions; the boolean tells that processing ends here.\<close>

definition process_version :: "ipaddr \<Rightarrow> rpl_dio \<Rightarrow> dagptr \<Rightarrow> nat \<Rightarrow> rpl_state \<Rightarrow> (rpl_state \<times> bool) option" where
  "process_version from dio dag i s =
     (let d = dag_table s dag
      in if lollipop_greater_than (uint (dio_version dio)) (uint (d_version d))
         then (if d_rank d = ROOT_RANK (instance_table s i)
               then do {
                 s1 \<leftarrow> rpl_reset_dio_timer i
                        (mod_dag dag (\<lambda>x. x\<lparr>d_version := RPL_LOLLIPOP_INCREMENT (dio_version dio)\<rparr>) s);
                 Some (s1, True)
               }
               else do { s1 \<leftarrow> learn_prefix dag dio s; s2 \<leftarrow> global_repair from dag dio s1; Some (s2, True) })
         else if lollipop_greater_than (uint (d_version d)) (uint (dio_version dio)) \<and> d_joined d
         then do { s1 \<leftarrow> rpl_reset_dio_timer i s; Some (s1, True) }
         else Some (s, False))"

text \<open>The sender as a candidate parent in the DAG.\<close>

definition candidate_parent ::
  "ipaddr \<Rightarrow> rpl_dio \<Rightarrow> dagptr \<Rightarrow> nat \<Rightarrow> rpl_state \<Rightarrow> (rpl_state \<times> ptr) option" where
  "candidate_parent from dio dag i s = (case rpl_find_parent dag from s of
     Some p \<Rightarrow> Some (
       if p_rank (parents s p) = dio_rank dio \<and> d_joined (dag_table s dag)
       then mod_inst i (\<lambda>x. x\<lparr>i_dio_counter := i_dio_counter x + 1\<rparr>) s else s, Some p)
   | None \<Rightarrow> adopt_parent dag dio from s)"

text \<open>The address of the sender's other radio: the byte that tells the radios apart is flipped.\<close>

definition flip_radio :: "ipaddr \<Rightarrow> ipaddr" where
  "flip_radio a = (if a ! 8 = 0x82 then a[8 := 0x2] else a[8 := 0x82])"

definition update_parent :: "ipaddr \<Rightarrow> rpl_dio \<Rightarrow> dagptr \<Rightarrow> nat \<Rightarrow> rpl_state \<Rightarrow> rpl_state option" where
  "update_parent from dio dag p s = do {
     let s1 = mod_parent p (\<lambda>x. x\<lparr>p_rank := dio_rank dio\<rparr>) s;
     s2 \<leftarrow> (if p_parent_weight (parents s1 p) = 0
            then do { w \<leftarrow> weight_of from s1; Some (mod_parent p (\<lambda>x. x\<lparr>p_parent_weight := w\<rparr>) s1) }
            else Some s1);
     let s3 = mod_parent p (\<lambda>x. x\<lparr>p_MLS_id := dio_MLS_id dio, p_est_load := dio_est_load dio,
                p_rem_energy := dio_rem_energy dio, p_parent_sum_weight := dio_weight dio\<rparr>) s2;
     let s4 = (case rpl_find_parent dag (flip_radio from) s3 of
                 None \<Rightarrow> s3
               | Some t \<Rightarrow> (let q = parents s3 p
                           in mod_parent t (\<lambda>x. x\<lparr>p_parent_sum_weight := dio_weight dio, p_rank := p_rank q,
                                p_MLS_id := p_MLS_id q, p_est_load := p_est_load q\<rparr>) s3));
     Some (mod_parent p (\<lambda>x. x\<lparr>p_flags := p_flags x OR RPL_PARENT_FLAG_UPDATED\<rparr>) s4)
   }"

text \<open>What follows the decision about the parent.\<close>

definition process_accepted :: "ipaddr \<Rightarrow> rpl_dio \<Rightarrow> dagptr \<Rightarrow> nat \<Rightarrow> nat \<Rightarrow> rpl_state \<Rightarrow> rpl_state option" where
  "process_accepted from dio dag i p s = do {
     let s1 = set_tree_level dag s;
     s2 \<leftarrow> (if d_joined (dag_table s1 dag) \<and> d_preferred_parent (dag_table s1 dag) = Some p
       then do {
         send \<leftarrow> should_send_dao i dio p s1;
         t \<leftarrow> (if send
               then rpl_schedule_dao i
                      (mod_inst i (\<lambda>x. x\<lparr>i_dtsn_out := RPL_LOLLIPOP_INCREMENT (i_dtsn_out x)\<rparr>) s1)
               else Some s1);
         Some (fst (uip_ds6_defrt_add from
                 (if RPL_DEFAULT_ROUTE_INFINITE_LIFETIME then 0
                  else RPL_LIFETIME (instance_table t i) (i_default_lifetime (instance_table t i))) t))
       }
       else Some s1);
     Some (mod_parent p (\<lambda>x. x\<lparr>p_dtsn := dio_dtsn dio\<rparr>) s2)
   }"

text \<open>\<open>1UL << (intmin + intdoubl)\<close>, in seconds.\<close>

definition dag_lifetime :: "rpl_instance \<Rightarrow> u32 option" where
  "dag_lifetime x = (let n = unat (i_dio_intmin x) + unat (i_dio_intdoubl x)
     in if n < 32 then Some (push_bit n 1 div 1000) else None)"

text \<open>A DIO of a DAG the node belongs to, once its rank and prefix have been handled.\<close>

definition process_candidate ::
  "ipaddr \<Rightarrow> rpl_dio \<Rightarrow> dagptr \<Rightarrow> nat \<Rightarrow> rpl_state \<Rightarrow> (rpl_state \<times> ipaddr) option" where
  "process_candidate from dio dag i s = do {
     l \<leftarrow> dag_lifetime (instance_table s i);
     (s2, ok) \<leftarrow> add_nbr_from_dio from dio (mod_dag dag (\<lambda>x. x\<lparr>d_lifetime := l\<rparr>) s);
     if \<not> ok then Some (s2, from)
     else do {
       (s3, p) \<leftarrow> candidate_parent from dio dag i s2;
       case p of
         None \<Rightarrow> Some (s3, from)
       | Some k \<Rightarrow> do {
           s4 \<leftarrow> update_parent from dio dag k s3;
           let from' = flip_radio (flip_radio from);
           (s5, ok) \<leftarrow> rpl_process_parent_event i k s4;
           if \<not> ok then Some (s5, from')
           else do { s6 \<leftarrow> process_accepted from' dio dag i k s5; Some (s6, from') }
         }
     }
   }"

text \<open>The DAG of the DIO, added when it is new; \<open>None\<close> when it cannot be.\<close>

definition known_dag :: "ipaddr \<Rightarrow> rpl_dio \<Rightarrow> dagptr option \<Rightarrow> rpl_state \<Rightarrow> (rpl_state \<times> dagptr option) option" where
  "known_dag from dio dag s = (case dag of
     Some d \<Rightarrow> Some (s, Some d)
   | None \<Rightarrow> do {
       (s1, ok) \<leftarrow> add_nbr_from_dio from dio s;
       if ok then rpl_add_dag from dio s1 else Some (s1, None)
     })"

definition rpl_process_dio :: "ipaddr \<Rightarrow> rpl_dio \<Rightarrow> rpl_state \<Rightarrow> (rpl_state \<times> ipaddr) option" where
  "rpl_process_dio from dio s =
     (if dio_mop dio \<noteq> RPL_MOP_DEFAULT then Some (s, from)
      else do {
        let dag = get_dag (dio_instance_id dio) (dio_dag_id dio) s;
        let inst = rpl_get_instance (dio_instance_id dio) s;
        (s1, done) \<leftarrow> (case (dag, inst) of
            (Some d, Some i) \<Rightarrow> process_version from dio d i s
          | _ \<Rightarrow> Some (s, False));
        if done then Some (s1, from)
        else (case inst of
            None \<Rightarrow> do {
              (s2, ok) \<leftarrow> add_nbr_from_dio from dio s1;
              s3 \<leftarrow> (if ok then rpl_join_instance from dio s2 else Some s2);
              Some (s3, from)
            }
          | Some i \<Rightarrow> do {
              cur \<leftarrow> i_current_dag (instance_table s1 i);
              if d_rank (dag_table s1 cur) = ROOT_RANK (instance_table s1 i) \<and> dag \<noteq> Some cur
              then Some (s1, from)
              else do {
                (s2, found) \<leftarrow> known_dag from dio dag s1;
                case found of
                  None \<Rightarrow> Some (s2, from)
                | Some d \<Rightarrow>
                    if dio_rank dio < ROOT_RANK (instance_table s2 i) then Some (s2, from)
                    else do {
                      s3 \<leftarrow> (if dio_rank dio = INFINITE_RANK \<and> d_joined (dag_table s2 d)
                             then rpl_reset_dio_timer i s2 else Some s2);
                      s4 \<leftarrow> learn_prefix d dio s3;
                      if d_rank (dag_table s4 d) = ROOT_RANK (instance_table s4 i)
                      then Some (if dio_rank dio \<noteq> INFINITE_RANK
                                 then mod_inst i (\<lambda>x. x\<lparr>i_dio_counter := i_dio_counter x + 1\<rparr>) s4 else s4, from)
                      else process_candidate from dio d i s4
                    }
              }
            })
      })"

subsection \<open>Expiry of DAGs and initialisation\<close>

fun purge_dag_loop :: "nat \<Rightarrow> nat list \<Rightarrow> rpl_state \<Rightarrow> rpl_state option" where
  "purge_dag_loop i [] s = Some s"
| "purge_dag_loop i (j # js) s = do {
     let dag = dag_table s (i, j);
     s1 \<leftarrow> (if \<not> d_used dag then Some s
            else if d_lifetime dag = 0 then (if \<not> d_joined dag then rpl_free_dag (i, j) s else Some s)
            else Some (mod_dag (i, j) (\<lambda>x. x\<lparr>d_lifetime := d_lifetime x - 1\<rparr>) s));
     purge_dag_loop i js s1
   }"

fun purge_dags_loop :: "nat list \<Rightarrow> rpl_state \<Rightarrow> rpl_state option" where
  "purge_dags_loop [] s = Some s"
| "purge_dags_loop (i # is) s = do {
     s1 \<leftarrow> (if i_used (instance_table s i) then purge_dag_loop i [0..<RPL_MAX_DAG_PER_INSTANCE] s else Some s);
     purge_dags_loop is s1
   }"

definition rpl_purge_dags :: "rpl_state \<Rightarrow> rpl_state option" where
  "rpl_purge_dags s = purge_dags_loop [0..<RPL_MAX_INSTANCES] s"

definition rpl_dag_init :: "rpl_state \<Rightarrow> rpl_state" where
  "rpl_dag_init s = fst (nbr_table_register RPL_CHILDREN True (fst (nbr_table_register RPL_PARENTS True s)))"

definition rpl_init :: "rpl_state \<Rightarrow> rpl_state" where
  "rpl_init s =
     (let s1 = rpl_reset_periodic_timer (rpl_dag_init (s\<lparr>default_instance := None\<rparr>))
      in fst (uip_ds6_maddr_add linklocal_rplnodes_mcast s1))"

end
