(* ===== verification/RplNode.thy ===== *)
theory RplNode
  imports RplDio
begin

text \<open>
  The RPL node as a whole: the handlers of received messages (\<open>dis_input\<close>, \<open>dio_input\<close>, \<open>dao_input\<close> of
  \<open>core/net/rpl/rpl-icmp6.c\<close>), the timer handlers of \<open>rpl-timers.c\<close>, the two processes of
  \<open>platform/cooja/dual_conf.c\<close> that broadcast a message first on the long and then on the short radio, and
  the steps of the node as a relation: a step is the handling of one event. Without DAO
  acknowledgements \<open>dao_ack_input\<close> and \<open>dao_ack_output\<close> are empty.
\<close>

unbundle bit_operations_syntax

subsection \<open>DIS messages\<close>

fun dis_input_loop :: "ipaddr \<Rightarrow> ipaddr \<Rightarrow> nat list \<Rightarrow> rpl_state \<Rightarrow> rpl_state option" where
  "dis_input_loop src dst [] s = Some s"
| "dis_input_loop src dst (i # is) s = do {
     s1 \<leftarrow> (if i_used (instance_table s i)
            then (if uip_is_addr_mcast dst then rpl_reset_dio_timer i s
                  else do {
                    (t, n) \<leftarrow> rpl_icmp6_update_nbr_table src NBR_TABLE_REASON_RPL_DIS None s;
                    if n = None then Some t else dio_output i (Some src) t
                  })
            else Some s);
     dis_input_loop src dst is s1
   }"

definition dis_input :: "ipaddr \<Rightarrow> ipaddr \<Rightarrow> rpl_state \<Rightarrow> rpl_state option" where
  "dis_input src dst s = dis_input_loop src dst [0..<RPL_MAX_INSTANCES] s"

subsection \<open>DIO messages\<close>

text \<open>Whether the sender of the DIO has this node as its preferred parent, on the radio it was heard on.\<close>

definition is_my_child :: "rpl_dio \<Rightarrow> rpl_state \<Rightarrow> bool option" where
  "is_my_child dio s = do {
     me \<leftarrow> my_id s;
     let is_longrange = radio_received_is_longrange s \<noteq> 0;
     Some (me = dio_parent_id dio \<and>
       ((is_longrange \<and> dio_parent_long dio = 0x82) \<or> (\<not> is_longrange \<and> dio_parent_long dio = 0x02)))
   }"

definition dio_child :: "ipaddr \<Rightarrow> rpl_dio \<Rightarrow> rpl_state \<Rightarrow> rpl_state option" where
  "dio_child from dio s = do {
     mine \<leftarrow> is_my_child dio s;
     case rpl_find_child from s of
       Some c \<Rightarrow> Some (if mine then s else rpl_remove_child c (s\<lparr>my_degree := my_degree s - 1\<rparr>))
     | None \<Rightarrow>
         if mine
         then do {
           (s1, c) \<leftarrow> rpl_add_child 1 from s;
           Some (case c of
               None \<Rightarrow> s1
             | Some k \<Rightarrow> s1\<lparr>my_degree := my_degree s1 + c_weight (children s1 k)\<rparr>)
         }
         else Some s
   }"

definition dio_input :: "ipaddr \<Rightarrow> (nat \<Rightarrow> u8) \<Rightarrow> u8 \<Rightarrow> rpl_state \<Rightarrow> rpl_state option" where
  "dio_input src b buffer_length s = (case dio_parse b buffer_length of
     None \<Rightarrow> Some s
   | Some dio \<Rightarrow> do {
       (s1, from) \<leftarrow> rpl_process_dio src dio s;
       dio_child from dio s1
     })"

subsection \<open>DAO messages\<close>

definition RPL_NOPATH_REMOVAL_DELAY :: u32 where "RPL_NOPATH_REMOVAL_DELAY = 60"

definition prepare_for_dao_fwd :: "u8 \<Rightarrow> nat \<Rightarrow> rpl_state \<Rightarrow> rpl_state \<times> u8" where
  "prepare_for_dao_fwd sequence rep s =
     (let s1 = s\<lparr>dao_sequence := RPL_LOLLIPOP_INCREMENT (dao_sequence s)\<rparr>
      in (set_rt_state rep (\<lambda>x. x\<lparr>dao_seqno_in := sequence, dao_seqno_out := dao_sequence s1,
            state_flags := state_flags x OR RPL_ROUTE_ENTRY_DAO_PENDING\<rparr>) s1, dao_sequence s1))"

text \<open>The checks for loops; the boolean tells that one was found.\<close>

definition dao_loop_check :: "ipaddr \<Rightarrow> dagptr \<Rightarrow> nat \<Rightarrow> rpl_state \<Rightarrow> (rpl_state \<times> bool) option" where
  "dao_loop_check src dag i s = (case rpl_find_parent dag src s of
     None \<Rightarrow> Some (s, False)
   | Some p \<Rightarrow> do {
       a \<leftarrow> DAG_RANK (uint (p_rank (parents s p))) (instance_table s i);
       b \<leftarrow> DAG_RANK (uint (d_rank (dag_table s dag))) (instance_table s i);
       Some (if a < b \<or> d_preferred_parent (dag_table s dag) = Some p
             then (mod_parent p (\<lambda>x. x\<lparr>p_rank := INFINITE_RANK, p_flags := p_flags x OR RPL_PARENT_FLAG_UPDATED\<rparr>) s, True)
             else (s, False))
     })"

text \<open>The received message with the new sequence number, sent on to the preferred parent.\<close>

definition forward_dao :: "ipaddr \<Rightarrow> (nat \<Rightarrow> u8) \<Rightarrow> u8 \<Rightarrow> u8 \<Rightarrow> rpl_state \<Rightarrow> rpl_state option" where
  "forward_dao dst b buffer_length out_seq s = do {
     s1 \<leftarrow> select_radio dst s;
     Some (uip_icmp6_send dst ICMP6_RPL RPL_CODE_DAO (bytes_at (b(3 := out_seq)) 0 (unat buffer_length)) s1)
   }"

text \<open>The address of the preferred parent, when there is one.\<close>

definition dao_parent :: "dagptr \<Rightarrow> rpl_state \<Rightarrow> ipaddr option" where
  "dao_parent dag s = (case d_preferred_parent (dag_table s dag) of
     None \<Rightarrow> None | Some p \<Rightarrow> rpl_get_parent_ipaddr (Some p) s)"

definition dao_no_path ::
  "ipaddr \<Rightarrow> (nat \<Rightarrow> u8) \<Rightarrow> u8 \<Rightarrow> dagptr \<Rightarrow> u8 \<Rightarrow> ptr \<Rightarrow> rpl_state \<Rightarrow> rpl_state option" where
  "dao_no_path src b buffer_length dag prefixlen rep s = (case rep of
     None \<Rightarrow> Some s
   | Some r \<Rightarrow>
       if state_flags (rt_state (routes s r)) AND RPL_ROUTE_ENTRY_NOPATH_RECEIVED = 0 \<and>
          rt_length (routes s r) = prefixlen \<and> uip_ds6_route_nexthop (Some r) s = Some src
       then (let s1 = set_rt_state r (\<lambda>x. x\<lparr>state_flags := state_flags x OR RPL_ROUTE_ENTRY_NOPATH_RECEIVED,
                        re_lifetime := RPL_NOPATH_REMOVAL_DELAY\<rparr>) s
             in case dao_parent dag s1 of
                  None \<Rightarrow> Some s1
                | Some dst \<Rightarrow> (case prepare_for_dao_fwd (b 3) r s1 of
                    (s2, out_seq) \<Rightarrow> forward_dao dst b buffer_length out_seq s2))
       else Some s)"

text \<open>The sender as a child, when it is not yet one.\<close>

definition dao_child :: "ipaddr \<Rightarrow> rpl_state \<Rightarrow> rpl_state option" where
  "dao_child src s = (case rpl_find_child src s of
     Some c \<Rightarrow> Some s
   | None \<Rightarrow> do {
       (s1, c) \<leftarrow> rpl_add_child 1 src s;
       Some (case c of
           None \<Rightarrow> s1
         | Some k \<Rightarrow> s1\<lparr>my_degree := my_degree s1 + c_weight (children s1 k)\<rparr>)
     })"

definition dao_forward_new :: "(nat \<Rightarrow> u8) \<Rightarrow> u8 \<Rightarrow> dagptr \<Rightarrow> nat \<Rightarrow> rpl_state \<Rightarrow> rpl_state option" where
  "dao_forward_new b buffer_length dag r s = (case dao_parent dag s of
     None \<Rightarrow> Some s
   | Some dst \<Rightarrow>
       let e = rt_state (routes s r)
       in if state_flags e AND RPL_ROUTE_ENTRY_DAO_PENDING \<noteq> 0 \<and> dao_seqno_in e = b 3
          then forward_dao dst b buffer_length (dao_seqno_out e) s
          else (case prepare_for_dao_fwd (b 3) r s of
                  (s1, out_seq) \<Rightarrow> forward_dao dst b buffer_length out_seq s1))"

definition dao_path ::
  "ipaddr \<Rightarrow> (nat \<Rightarrow> u8) \<Rightarrow> u8 \<Rightarrow> nat \<Rightarrow> dagptr \<Rightarrow> ipaddr \<Rightarrow> u8 \<Rightarrow> u8 \<Rightarrow> rpl_state \<Rightarrow> rpl_state option" where
  "dao_path src b buffer_length i dag prefix prefixlen lifetime s = do {
     (s1, nbr) \<leftarrow> rpl_icmp6_update_nbr_table src NBR_TABLE_REASON_RPL_DAO (Some (InstanceData i)) s;
     if nbr = None then Some s1
     else do {
       (s2, rep) \<leftarrow> rpl_add_route dag prefix prefixlen src s1;
       case rep of
         None \<Rightarrow> Some s2
       | Some r \<Rightarrow> do {
           let s3 = set_rt_state r (\<lambda>x. RPL_ROUTE_CLEAR_NOPATH_RECEIVED
                      (x\<lparr>re_lifetime := RPL_LIFETIME (instance_table s2 i) lifetime\<rparr>)) s2;
           s4 \<leftarrow> dao_child src s3;
           if uip_is_addr_mcast src then Some s4 else dao_forward_new b buffer_length dag r s4
         }
     }
   }"

definition dao_input :: "ipaddr \<Rightarrow> (nat \<Rightarrow> u8) \<Rightarrow> u8 \<Rightarrow> rpl_state \<Rightarrow> rpl_state option" where
  "dao_input src b buffer_length s = (case rpl_get_instance (b 0) s of
     None \<Rightarrow> Some s
   | Some i \<Rightarrow> do {
       dag \<leftarrow> i_current_dag (instance_table s i);
       if b 1 AND RPL_DAO_D_FLAG \<noteq> 0 \<and> bytes_at b 4 16 \<noteq> d_id (dag_table s dag)
       then Some s
       else do {
         (s1, found) \<leftarrow> (if uip_is_addr_mcast src then Some (s, False) else dao_loop_check src dag i s);
         if found then Some s1
         else do {
           opts \<leftarrow> dao_options b (unat buffer_length) (if b 1 AND RPL_DAO_D_FLAG \<noteq> 0 then 20 else 4)
                    \<lparr>do_prefixlen = 0, do_prefix = None, do_lifetime = i_default_lifetime (instance_table s1 i)\<rparr>;
           prefix \<leftarrow> do_prefix opts;
           let (s2, rep) = uip_ds6_route_lookup prefix s1;
           if do_lifetime opts = RPL_ZERO_LIFETIME
           then dao_no_path src b buffer_length dag (do_prefixlen opts) rep s2
           else dao_path src b buffer_length i dag prefix (do_prefixlen opts) (do_lifetime opts) s2
         }
       }
     })"

subsection \<open>Broadcasts on both radios\<close>

text \<open>\<open>process_start\<close> of a process that waits for its timer does nothing; otherwise the process runs up to
  its wait, and the event of its timer runs the rest.\<close>

definition dio_broadcast :: "nat \<Rightarrow> rpl_state \<Rightarrow> rpl_state option" where
  "dio_broadcast i s =
     (let s1 = s\<lparr>temp_instance := Some i\<rparr>
      in if dio_waiting s1 then Some s1
         else do { s2 \<leftarrow> dio_output i None (dual_radio_switch LONG_RADIO s1); Some (s2\<lparr>dio_waiting := True\<rparr>) })"

definition dio_broadcast_resume :: "rpl_state \<Rightarrow> rpl_state option" where
  "dio_broadcast_resume s = do {
     i \<leftarrow> temp_instance s;
     s1 \<leftarrow> dio_output i None (dual_radio_switch SHORT_RADIO s);
     Some (s1\<lparr>dio_waiting := False\<rparr>)
   }"

definition dis_broadcast :: "rpl_state \<Rightarrow> rpl_state" where
  "dis_broadcast s =
     (if dis_waiting s then s
      else (dis_output None (dual_radio_switch LONG_RADIO s))\<lparr>dis_waiting := True\<rparr>)"

definition dis_broadcast_resume :: "rpl_state \<Rightarrow> rpl_state" where
  "dis_broadcast_resume s = (dis_output None (dual_radio_switch SHORT_RADIO s))\<lparr>dis_waiting := False\<rparr>"

subsection \<open>Timers\<close>

definition handle_periodic_timer :: "rpl_state \<Rightarrow> rpl_state option" where
  "handle_periodic_timer s = do {
     s1 \<leftarrow> rpl_purge_dags s;
     s2 \<leftarrow> rpl_purge_routes s1;
     s3 \<leftarrow> rpl_recalculate_ranks s2;
     let s4 = s3\<lparr>next_dis := next_dis s3 + 1\<rparr>;
     d \<leftarrow> rpl_get_any_dag s4;
     let s5 = (if d = None \<and> next_dis s4 \<ge> RPL_DIS_INTERVAL
               then dis_broadcast (s4\<lparr>next_dis := 0\<rparr>) else s4);
     Some (s5\<lparr>periodic_timer := Some CLOCK_SECOND\<rparr>)
   }"

definition set_dio_timer :: "nat \<Rightarrow> u32 \<Rightarrow> rpl_state \<Rightarrow> rpl_state" where
  "set_dio_timer i t s = mod_inst i (\<lambda>x. x\<lparr>i_dio_timer := Some t\<rparr>) s"

definition handle_dio_timer :: "nat \<Rightarrow> rpl_state \<Rightarrow> rpl_state option" where
  "handle_dio_timer i s =
     (if \<not> dio_send_ok s \<and> uip_ds6_get_link_local (Some ADDR_PREFERRED) s = None
      then Some (set_dio_timer i CLOCK_SECOND s)
      else let s1 = s\<lparr>dio_send_ok := True\<rparr>; inst = instance_table s1 i
           in if i_dio_send inst
              then do {
                s2 \<leftarrow> (if i_dio_redundancy inst \<noteq> 0 \<and> i_dio_counter inst < i_dio_redundancy inst
                       then dio_broadcast i s1 else Some s1);
                Some (set_dio_timer i (i_dio_next_delay (instance_table s2 i))
                        (mod_inst i (\<lambda>x. x\<lparr>i_dio_send := False\<rparr>) s2))
              }
              else new_dio_interval i
                (if unat (i_dio_intcurrent inst) < unat (i_dio_intmin inst) + unat (i_dio_intdoubl inst)
                 then mod_inst i (\<lambda>x. x\<lparr>i_dio_intcurrent := i_dio_intcurrent x + 1\<rparr>) s1 else s1))"

definition handle_dao_timer :: "nat \<Rightarrow> rpl_state \<Rightarrow> rpl_state option" where
  "handle_dao_timer i s =
     (if \<not> dio_send_ok s \<and> uip_ds6_get_link_local (Some ADDR_PREFERRED) s = None
      then Some (mod_inst i (\<lambda>x. x\<lparr>i_dao_timer := Some CLOCK_SECOND\<rparr>) s)
      else do {
        d \<leftarrow> i_current_dag (instance_table s i);
        s1 \<leftarrow> (if d_preferred_parent (dag_table s d) \<noteq> None
               then dao_output (d_preferred_parent (dag_table s d)) (i_default_lifetime (instance_table s i)) s
               else Some s);
        let s2 = mod_inst i (\<lambda>x. x\<lparr>i_dao_timer := None\<rparr>) s1;
        if i_dao_lifetime_timer (instance_table s2 i) = None then set_dao_lifetime_timer i s2 else Some s2
      })"

definition handle_unicast_dio_timer :: "nat \<Rightarrow> rpl_state \<Rightarrow> rpl_state option" where
  "handle_unicast_dio_timer i s =
     (case rpl_get_parent_ipaddr (i_unicast_dio_target (instance_table s i)) s of
        None \<Rightarrow> Some s
      | Some a \<Rightarrow> dio_output i (Some a) s)"

subsection \<open>The steps of a node\<close>

datatype node_event =
    RecvDis ipaddr ipaddr
  | RecvDio ipaddr "nat \<Rightarrow> u8" u8
  | RecvDao ipaddr "nat \<Rightarrow> u8" u8
  | PeriodicTimer
  | DioTimer nat
  | DaoTimer nat
  | DaoLifetimeTimer nat
  | UnicastDioTimer nat
  | DioResume
  | DisResume
  | LinkCallback linkaddr int int
  | Heard int linkaddr
  | BecomeRoot u8 ipaddr
  | RepairRoot u8
  | SetMode rpl_mode
  | Forward ipaddr
  | Ds6Periodic
  | Clock u32 u32
  | Measured bool int "nat \<Rightarrow> u8" u8

text \<open>A timer is taken off before its handler runs. \<open>Heard\<close> is the reception of a frame: the radio it came
  from and its sender; \<open>Forward\<close> looks up the route of a packet; \<open>Ds6Periodic\<close> is the periodic sweep of the
  IPv6 tables, \<open>Clock\<close> the progress of the two clocks, and \<open>Measured\<close> what the application and the MAC layer
  write into the variables of the load balancing and the energy they report.\<close>

definition node_handle :: "node_event \<Rightarrow> rpl_state \<Rightarrow> rpl_state option" where
  "node_handle e s = (case e of
     RecvDis src dst \<Rightarrow> dis_input src dst s
   | RecvDio src b len \<Rightarrow> dio_input src b len s
   | RecvDao src b len \<Rightarrow> dao_input src b len s
   | PeriodicTimer \<Rightarrow> handle_periodic_timer (s\<lparr>periodic_timer := None\<rparr>)
   | DioTimer i \<Rightarrow> handle_dio_timer i (mod_inst i (\<lambda>x. x\<lparr>i_dio_timer := None\<rparr>) s)
   | DaoTimer i \<Rightarrow> handle_dao_timer i (mod_inst i (\<lambda>x. x\<lparr>i_dao_timer := None\<rparr>) s)
   | DaoLifetimeTimer i \<Rightarrow> handle_dao_timer i (mod_inst i (\<lambda>x. x\<lparr>i_dao_lifetime_timer := None\<rparr>) s)
   | UnicastDioTimer i \<Rightarrow> handle_unicast_dio_timer i (mod_inst i (\<lambda>x. x\<lparr>i_unicast_dio_timer := None\<rparr>) s)
   | DioResume \<Rightarrow> dio_broadcast_resume s
   | DisResume \<Rightarrow> Some (dis_broadcast_resume s)
   | LinkCallback a status numtx \<Rightarrow> uip_ds6_link_neighbor_callback rpl_link_neighbor_callback a status numtx s
   | Heard radio a \<Rightarrow> Some ((fst (dual_radio_received radio s))\<lparr>packetbuf_sender := a\<rparr>)
   | BecomeRoot instance_id dag_id \<Rightarrow> map_option fst (rpl_set_root instance_id dag_id s)
   | RepairRoot instance_id \<Rightarrow> map_option fst (rpl_repair_root instance_id s)
   | SetMode m \<Rightarrow> map_option fst (rpl_set_mode m s)
   | Forward a \<Rightarrow> Some (fst (uip_ds6_route_lookup a s))
   | Ds6Periodic \<Rightarrow> uip_ds6_periodic s
   | Clock seconds ticks \<Rightarrow>
       Some (s\<lparr>clock_seconds := clock_seconds s + seconds, clock_time := clock_time s + ticks\<rparr>)
   | Measured init latest counts energy \<Rightarrow>
       Some (s\<lparr>init_phase := init, latest_id := latest, id_count := counts, energy_percent := energy\<rparr>))"

text \<open>Whether an event can happen: its timer runs, its process waits.\<close>

definition enabled :: "node_event \<Rightarrow> rpl_state \<Rightarrow> bool" where
  "enabled e s = (case e of
     PeriodicTimer \<Rightarrow> periodic_timer s \<noteq> None
   | DioTimer i \<Rightarrow> i_dio_timer (instance_table s i) \<noteq> None
   | DaoTimer i \<Rightarrow> i_dao_timer (instance_table s i) \<noteq> None
   | DaoLifetimeTimer i \<Rightarrow> i_dao_lifetime_timer (instance_table s i) \<noteq> None
   | UnicastDioTimer i \<Rightarrow> i_unicast_dio_timer (instance_table s i) \<noteq> None
   | DioResume \<Rightarrow> dio_waiting s
   | DisResume \<Rightarrow> dis_waiting s
   | _ \<Rightarrow> True)"

inductive node_step :: "rpl_state \<Rightarrow> node_event \<Rightarrow> rpl_state \<Rightarrow> bool" where
  event: "enabled e s \<Longrightarrow> node_handle e s = Some s' \<Longrightarrow> node_step s e s'"

end
