(* ===== verification/RplFrame.thy ===== *)
theory RplFrame
  imports RplNode
begin

text \<open>
  What the operations of RPL leave alone: the frame rules \<open>route_same\<close> of the timers, the prefixes, the
  selection of a parent, the local repair and the link callback, which change neither table of the node.
\<close>

unbundle bit_operations_syntax

subsection \<open>Operations that leave the routing table alone\<close>

lemma route_same_upd2:
  "route_same s (s\<lparr>join_instance := ji\<rparr>)" "route_same s (s\<lparr>tree_level := tv\<rparr>)"
  "route_same s (s\<lparr>default_instance := di\<rparr>)" "route_same s (s\<lparr>my_degree := md\<rparr>)"
  "route_same s (s\<lparr>next_dis := nd\<rparr>)" "route_same s (s\<lparr>periodic_timer := pt\<rparr>)"
  "route_same s (s\<lparr>temp_instance := ti\<rparr>)" "route_same s (s\<lparr>dio_waiting := w1\<rparr>)"
  "route_same s (s\<lparr>dis_waiting := w2\<rparr>)" "route_same s (s\<lparr>packetbuf_sender := ps\<rparr>)"
  "route_same s (s\<lparr>radio_received := rr\<rparr>)" "route_same s (s\<lparr>dio_send_ok := so\<rparr>)"
  "route_same s (s\<lparr>mode := mo\<rparr>)" "route_same s (s\<lparr>dag_table := dt\<rparr>)"
  "route_same s (s\<lparr>addr_list := al\<rparr>)" "route_same s (s\<lparr>maddr_list := ml\<rparr>)"
  "route_same s (s\<lparr>long_addr_list := ll\<rparr>)" "route_same s (set_rt_state r f s)"
  "route_same s (s\<lparr>init_phase := ip\<rparr>)" "route_same s (s\<lparr>latest_id := li\<rparr>)" "route_same s (s\<lparr>id_count := ic\<rparr>)"
  "route_same s (s\<lparr>energy_percent := ep\<rparr>)" "route_same s (s\<lparr>clock_seconds := cs\<rparr>)" "route_same s (s\<lparr>clock_time := ct\<rparr>)"
  "route_same s (s\<lparr>uip_ds6_if := si\<rparr>)" "route_same s (s\<lparr>long_uip_ds6_if := lo\<rparr>)"
  "route_same s (s\<lparr>uip_ds6_prefix_list := xl\<rparr>)" "route_same s (s\<lparr>long_maddr_list := lm\<rparr>)"
  "route_same s (s\<lparr>aaddr_list := aa\<rparr>)" "route_same s (s\<lparr>long_aaddr_list := la\<rparr>)"
  by (simp_all add: route_same_def nbr_frame_def nbr_same_def uses_def set_rt_state_def set_route_def)

lemmas [same_steps] = route_same_upd2 [THEN route_same_after]

lemma timer_same_route: "timer_same s s' \<Longrightarrow> route_same s s'"
  unfolding timer_same_def by (elim exE, hypsubst) (rule same_steps)+

lemma same_schedule: "post (schedule_dao i l s) (route_same s)"
  by (rule postI) (rule timer_same_route, rule schedule_dao_same)

lemma same_reset_dio: "post (rpl_reset_dio_timer i s) (route_same s)"
  by (rule postI) (rule timer_same_route, rule reset_dio_same)

lemma same_new_interval: "post (new_dio_interval i s) (route_same s)"
  by (rule postI) (rule timer_same_route, rule new_interval_same)

lemma same_lifetime_timer: "post (set_dao_lifetime_timer i s) (route_same s)"
  by (rule postI) (rule timer_same_route, rule lifetime_timer_same)

lemmas [same_ops] =
  same_schedule [THEN route_same_op(1)]
  same_reset_dio [THEN route_same_op(1)]
  same_new_interval [THEN route_same_op(1)]
  same_lifetime_timer [THEN route_same_op(1)]

lemma same_schedule2: "post (rpl_schedule_dao i s) (route_same s)" "post (rpl_schedule_dao_immediately i s) (route_same s)"
  unfolding rpl_schedule_dao_def rpl_schedule_dao_immediately_def by (rule same_schedule)+

lemmas [same_ops] = same_schedule2 [THEN route_same_op(1)]

lemma same_cancel_dao [same_steps]: "route_same s s1 \<Longrightarrow> route_same s (rpl_cancel_dao i s1)"
  unfolding rpl_cancel_dao_def by (rule same_steps)

lemma same_maddr [same_steps]:
  "route_same s s1 \<Longrightarrow> route_same s (fst (uip_ds6_maddr_add a s1))"
  "route_same s s1 \<Longrightarrow> route_same s (uip_ds6_maddr_rm p s1)"
  unfolding uip_ds6_maddr_add_def uip_ds6_maddr_rm_def
  by (cases "ds6_free (maddr_list s1) a 128"; simp; (rule same_steps | assumption)+) (rule same_steps | assumption)+

lemma same_addr_add [same_steps]: "route_same s s1 \<Longrightarrow> route_same s (fst (uip_ds6_addr_add a l t s1))"
  unfolding uip_ds6_addr_add_def Let_def
  by (cases "ds6_free (addr_list s1) a 128"; simp only: option.case fst_conv; (rule same_steps | assumption)+)

lemma same_addr_rm [same_steps]: "route_same s s1 \<Longrightarrow> route_same s (uip_ds6_addr_rm p s1)"
  unfolding uip_ds6_addr_rm_def Let_def
  by (cases p; simp only: option.case split: addr_ptr.split; (intro conjI allI impI)?; (rule same_steps | assumption)+)

lemma same_check_prefix: "post (check_prefix l n s) (route_same s)"
  unfolding check_prefix_def by (hypsubst | rule same_ops post_rules same_steps | assumption)+

lemmas [same_ops] = same_check_prefix [THEN route_same_op(1)]

lemma same_set_prefix: "posts (rpl_set_prefix d p l s) (route_same s)"
  unfolding rpl_set_prefix_def by (hypsubst | rule same_ops post_rules same_steps | assumption)+

lemmas [same_ops] = same_set_prefix [THEN route_same_op(2)]

lemma same_default_route [same_steps]: "route_same s s1 \<Longrightarrow> route_same s (fst (rpl_set_default_route i a s1))"
proof -
  assume s1: "route_same s s1"
  define s2 where "s2 = (case i_def_route (instance_table s1 i) of None \<Rightarrow> s1
      | Some d \<Rightarrow> mod_inst i (\<lambda>x. x\<lparr>i_def_route := None\<rparr>) (uip_ds6_defrt_rm (Some d) s1))"
  have s2: "route_same s s2" unfolding s2_def using s1 by - (rule same_steps | assumption)+
  have "route_same s (fst (case i_def_route (instance_table s2 i) of
      Some d \<Rightarrow> (uip_ds6_defrt_rm (Some d) s2, True) | None \<Rightarrow> (s2, True)))"
    by (cases "i_def_route (instance_table s2 i)"; simp only: option.case fst_conv; (rule same_steps s2)+)
  moreover have "route_same s (fst (mod_inst i f (fst (uip_ds6_defrt_add b t s2)), x))" for f b t x
    unfolding fst_conv by (rule same_steps s2)+
  ultimately show ?thesis
    unfolding rpl_set_default_route_def s2_def [symmetric] Let_def case_prod_beta
    by (cases a) (simp_all only: option.case)
qed

lemma same_update_metric [same_steps]: "route_same s s1 \<Longrightarrow> route_same s (of_update_metric_container f i s1)"
  unfolding of_update_metric_container_def by (rule same_steps)

lemma same_alloc_dag [same_steps]: "route_same s s1 \<Longrightarrow> route_same s (fst (rpl_alloc_dag a d s1))"
proof -
  assume s1: "route_same s s1"
  have c: "route_same s t \<Longrightarrow> route_same s (clear_instance i t)" for t i
    unfolding clear_instance_def by (rule same_steps | assumption)+
  have "route_same s t \<Longrightarrow> route_same s (fst (alloc_instance_loop a t is))" for t "is"
    by (induction "is") (auto intro: same_steps c)
  then have i: "route_same s (fst (rpl_alloc_instance a s1))" by (simp add: rpl_alloc_instance_def s1)
  have d: "route_same s t \<Longrightarrow> route_same s (fst (alloc_dag_loop i t js))" for t i js
    by (induction js) (auto intro: same_steps)
  define r where "r = (case rpl_get_instance a s1 of Some i \<Rightarrow> (s1, Some i) | None \<Rightarrow> rpl_alloc_instance a s1)"
  have "route_same s (fst r)" using s1 i by (simp add: r_def split: option.split)
  then show ?thesis unfolding rpl_alloc_dag_def r_def [symmetric] Let_def
    by (cases r; cases "snd r") (auto intro: d)
qed

subsection \<open>Selecting a parent\<close>

lemma same_rand [same_steps]: "route_same s s1 \<Longrightarrow> route_same s (snd (c_rand s1))"
  unfolding c_rand_def snd_conv by (rule same_steps)

lemma of_best_parent_same: "posts (of_best_parent f a b s) (route_same s)"
proof -
  have i: "posts (ltmax_init_best p q n m s) (route_same s)" for p q n m
    unfolding ltmax_init_best_def Let_def c_rand_def
    by (auto simp: posts_def same_steps split: if_splits elim!: bind_SomeE)
  have l: "posts (ltmax_best_parent a b s) (route_same s)"
    unfolding ltmax_best_parent_def by (rule post_rules i route_same_refl | simp)+
  show ?thesis
    by (cases f) (simp_all add: l mrhof_best_parent_def of0_best_parent_def, (rule post_rules route_same_refl | simp)+)
qed

lemmas [same_ops] = of_best_parent_same [THEN route_same_op(2)]

lemma same_best_parent_loop: "posts (best_parent_loop d ps s b) (route_same s)"
proof -
  have "route_same s s1 \<Longrightarrow> posts (best_parent_loop d ps s1 b) (route_same s)" for s1
  proof (induction ps arbitrary: s1 b)
    case Nil
    then show ?case by (simp add: post_basic)
  next
    case (Cons p ps)
    show ?case unfolding best_parent_loop.simps
      by (rule same_ops post_rules Cons.IH Cons.prems | assumption)+
  qed
  then show ?thesis by simp
qed

lemmas [same_ops] = same_best_parent_loop [THEN route_same_op(2)]

lemma same_keep_previous [same_steps]: "route_same s s1 \<Longrightarrow> route_same s (fst (keep_previous p b s1))"
  unfolding keep_previous_def Let_def c_rand_def by (auto intro: same_steps)

lemma same_best_parent: "posts (best_parent d s) (route_same s)"
proof -
  have k: "route_same s (fst (case (best, prev) of (Some b, Some q) \<Rightarrow> if b \<noteq> q then keep_previous q b s1 else (s1, False)
       | _ \<Rightarrow> (s1, False)))" if "route_same s s1" for best prev s1
    using that by (auto intro: same_steps split: option.split)
  have r: "c_rand s1 = (r, s2) \<Longrightarrow> route_same s s1 \<Longrightarrow> route_same s s2" for r s1 s2
    using same_rand [of s s1] by simp
  show ?thesis unfolding best_parent_def Let_def
    by (rule same_ops post_basic post_if post_option post_pair post_bind_state post_bind_value | rule post_prod_state, rule k
       | rule post_prod | erule r | rule k same_steps | assumption)+
qed

lemmas [same_ops] = same_best_parent [THEN route_same_op(2)]

lemma same_select_parent: "posts (rpl_select_parent d s) (route_same s)"
  unfolding rpl_select_parent_def by (hypsubst | rule same_ops post_rules same_steps | assumption)+

lemmas [same_ops] = same_select_parent [THEN route_same_op(2)]

lemma same_nullify_parents: "post (nullify_parents d r s) (route_same s)"
proof -
  have "route_same s s1 \<Longrightarrow> post (nullify_parents_loop d r ps s1) (route_same s)" for s1 ps
  proof (induction ps arbitrary: s1)
    case (Cons p ps)
    show ?case unfolding nullify_parents_loop.simps
      by (rule same_ops post_rules Cons.IH Cons.prems | assumption)+
  qed (simp add: post_basic)
  then show ?thesis by (simp add: nullify_parents_def)
qed

lemmas [same_ops] = same_nullify_parents [THEN route_same_op(1)]

lemma same_remove_parents: "node_tabs s \<Longrightarrow> post (remove_parents d r s) (route_same s)"
proof -
  assume tabs: "node_tabs s"
  have "route_same s s1 \<Longrightarrow> post (remove_parents_loop d r ps s1) (route_same s)" for s1 ps
  proof (induction ps arbitrary: s1)
    case (Cons p ps)
    have "post (rpl_remove_parent p s1) (route_same s)"
      by (rule route_same_op(1) [OF same_remove_parent [OF same_tabs [OF Cons.prems tabs]] Cons.prems])
    then show ?case unfolding remove_parents_loop.simps
      by - (rule post_rules Cons.IH Cons.prems | assumption)+
  qed (simp add: post_basic)
  then show ?thesis by (simp add: remove_parents_def)
qed

lemma same_local_repair: "post (rpl_local_repair i s) (route_same s)"
proof -
  have "route_same s s1 \<Longrightarrow> post (local_repair_loop k js s1) (route_same s)" for s1 k js
  proof (induction js arbitrary: s1)
    case (Cons j js)
    show ?case unfolding local_repair_loop.simps
      by (rule same_ops post_rules same_steps Cons.IH Cons.prems | assumption)+
  qed (simp add: post_basic)
  note l = this [OF route_same_refl]
  show ?thesis unfolding rpl_local_repair_def
    by (rule l same_ops post_rules same_steps | assumption)+
qed

lemmas [same_ops] = same_local_repair [THEN route_same_op(1)]

lemma same_link_callback: "post (rpl_link_neighbor_callback a status n s) (route_same s)"
proof -
  have lt: "route_same s s1 \<Longrightarrow> post (ltmax_neighbor_link_callback p status n s1) (route_same s)" for s1 p
    unfolding ltmax_neighbor_link_callback_def
    by (hypsubst | rule same_ops post_rules same_steps | assumption)+
  have mr: "route_same s s1 \<Longrightarrow> post (mrhof_neighbor_link_callback p status n s1) (route_same s)" for s1 p
    unfolding mrhof_neighbor_link_callback_def
    by (hypsubst | rule same_ops post_rules same_steps | assumption)+
  have f: "route_same s s1 \<Longrightarrow> of_neighbor_link_callback func = Some f \<Longrightarrow> post (f p status n s1) (route_same s)"
    for s1 p f func by (cases func) (auto intro: lt mr)
  have "route_same s s1 \<Longrightarrow> post (link_callback_loop is ip status n s1) (route_same s)" for s1 ip "is"
  proof (induction "is" arbitrary: s1)
    case (Cons i "is")
    show ?case unfolding link_callback_loop.simps Let_def
      by (rule same_ops post_rules same_steps Cons.IH Cons.prems f | assumption)+
  qed (simp add: post_basic)
  then show ?thesis by (simp add: rpl_link_neighbor_callback_def)
qed

end
