(* ===== verification/RplInit.thy ===== *)
theory RplInit
  imports RplNode
begin

text \<open>
  The start of a node: \<open>uip_ds6_init\<close> (\<open>core/net/ipv6/uip-ds6.c\<close>), which registers the neighbour and routing
  tables and gives both interfaces their link-local address and multicast groups, followed by \<open>rpl_init\<close>, as
  \<open>tcpip_process\<close> of \<open>core/net/ip/tcpip.c\<close> calls them, on the zeroed static memory of the C program. A
  reachable state is one a started node gets to by node steps, with the clock advancing and the periodic
  sweep \<open>uip_ds6_periodic\<close> at any time between them. The timers of the interfaces (\<open>etimer\<close>) are not part of
  the state, as they only decide when the sweep runs.
\<close>

unbundle bit_operations_syntax

definition UIP_LINK_MTU :: u32 where "UIP_LINK_MTU = 1280"
definition UIP_TTL :: u8 where "UIP_TTL = 64"
definition UIP_ND6_REACHABLE_TIME :: u32 where "UIP_ND6_REACHABLE_TIME = 600000"
definition UIP_ND6_RETRANS_TIMER :: u32 where "UIP_ND6_RETRANS_TIMER = 10000"
definition UIP_ND6_DEF_MAXDADNS :: u8 where "UIP_ND6_DEF_MAXDADNS = 0"
definition UIP_DEFAULT_PREFIX_LEN :: u8 where "UIP_DEFAULT_PREFIX_LEN = 64"
definition UIP_DS6_PREFIX_NB :: nat where "UIP_DS6_PREFIX_NB = 3"
definition UIP_DS6_ADDR_NB :: nat where "UIP_DS6_ADDR_NB = 3"
definition UIP_DS6_MADDR_NB :: nat where "UIP_DS6_MADDR_NB = 2 + UIP_DS6_ADDR_NB"
definition UIP_DS6_AADDR_NB :: nat where "UIP_DS6_AADDR_NB = UIP_DS6_PREFIX_NB - 1"
definition UIP_DS6_DEFRT_NB :: nat where "UIP_DS6_DEFRT_NB = 2"

definition linklocal_allrouters_mcast :: ipaddr where
  "linklocal_allrouters_mcast = [0xff, 0x02] @ replicate 13 0 @ [0x02]"

subsection \<open>The IPv6 tables\<close>

text \<open>The sum of the two random numbers is an \<open>int\<close>; the first operand is evaluated first. A remainder by
  zero is undefined.\<close>

definition uip_ds6_compute_reachable_time :: "rpl_state \<Rightarrow> (rpl_state \<times> u32) option" where
  "uip_ds6_compute_reachable_time s =
     (let x = base_reachable_time (uip_ds6_if s);
          (a, s1) = random_rand s;
          (b, s2) = random_rand s1
      in if x + x div 2 - x div 2 = 0 then None
         else Some (s2, x div 2 + (ucast (push_bit 8 a) + ucast b) mod (x + x div 2 - x div 2)))"

text \<open>The parameters set for an interface before its reachable time is drawn; \<open>memset\<close> has cleared the rest.\<close>

definition init_netif :: uip_ds6_netif where
  "init_netif = zero_netif\<lparr>link_mtu := UIP_LINK_MTU, cur_hop_limit := UIP_TTL,
     base_reachable_time := UIP_ND6_REACHABLE_TIME\<rparr>"

definition set_reachable :: "u32 \<Rightarrow> uip_ds6_netif \<Rightarrow> uip_ds6_netif" where
  "set_reachable r x = x\<lparr>reachable_time := r, retrans_timer := UIP_ND6_RETRANS_TIMER,
     maxdadns := UIP_ND6_DEF_MAXDADNS\<rparr>"

definition zero_addr :: uip_ds6_addr where
  "zero_addr = \<lparr>isused = False, el_ipaddr = replicate 16 0, ad_state = 0, ad_type = 0, ad_isinfinite = False,
     ad_vlifetime = \<lparr>st_start = 0, st_interval = 0\<rparr>\<rparr>"

definition zero_ds6_prefix :: uip_ds6_prefix where
  "zero_ds6_prefix = \<lparr>isused = False, el_ipaddr = replicate 16 0, px_length = 0, px_advertise = 0, px_vlifetime = 0,
     px_plifetime = 0, px_l_a_reserved = 0\<rparr>"

text \<open>The \<open>memset\<close>s of the tables.\<close>

definition clear_tables :: "rpl_state \<Rightarrow> rpl_state" where
  "clear_tables s = s\<lparr>uip_ds6_prefix_list := replicate UIP_DS6_PREFIX_NB zero_ds6_prefix,
     addr_list := replicate UIP_DS6_ADDR_NB zero_addr, maddr_list := replicate UIP_DS6_MADDR_NB free_el,
     aaddr_list := replicate UIP_DS6_AADDR_NB free_el, uip_ds6_if := zero_netif,
     long_addr_list := replicate UIP_DS6_ADDR_NB zero_addr, long_maddr_list := replicate UIP_DS6_MADDR_NB free_el,
     long_aaddr_list := replicate UIP_DS6_AADDR_NB free_el, long_uip_ds6_if := zero_netif\<rparr>"

text \<open>The addresses of an interface: the prefix, the link-local address and the two groups.\<close>

definition init_long_addrs :: "linkaddr \<Rightarrow> rpl_state \<Rightarrow> rpl_state" where
  "init_long_addrs uip_long_lladdr s =
     (let prefix = uip_create_linklocal_prefix (replicate 16 0);
          s1 = fst (uip_ds6_prefix_add prefix UIP_DEFAULT_PREFIX_LEN 0 0 0 0 s);
          s2 = fst (uip_ds6_long_addr_add (uip_ds6_set_addr_iid prefix uip_long_lladdr) 0 ADDR_AUTOCONF s1);
          s3 = fst (uip_ds6_long_maddr_add linklocal_allnodes_mcast s2)
      in fst (uip_ds6_long_maddr_add linklocal_allrouters_mcast s3))"

definition init_short_addrs :: "rpl_state \<Rightarrow> rpl_state" where
  "init_short_addrs s =
     (let prefix = uip_create_linklocal_prefix (replicate 16 0);
          s1 = fst (uip_ds6_prefix_add prefix UIP_DEFAULT_PREFIX_LEN 0 0 0 0 s);
          s2 = fst (uip_ds6_addr_add (uip_ds6_set_addr_iid prefix (uip_lladdr s1)) 0 ADDR_AUTOCONF s1);
          s3 = fst (uip_ds6_maddr_add linklocal_allnodes_mcast s2)
      in fst (uip_ds6_maddr_add linklocal_allrouters_mcast s3))"

definition uip_ds6_init :: "linkaddr \<Rightarrow> rpl_state \<Rightarrow> rpl_state option" where
  "uip_ds6_init uip_long_lladdr s = do {
     let s1 = clear_tables (uip_ds6_route_init (uip_ds6_neighbors_init s));
     let s2 = s1\<lparr>uip_ds6_if := init_netif\<rparr>;
     (s3, r) \<leftarrow> uip_ds6_compute_reachable_time s2;
     let s4 = s3\<lparr>uip_ds6_if := set_reachable r init_netif, long_uip_ds6_if := init_netif\<rparr>;
     (s5, r2) \<leftarrow> uip_ds6_compute_reachable_time s4;
     let s6 = s5\<lparr>long_uip_ds6_if := set_reachable r2 init_netif\<rparr>;
     Some (init_short_addrs (init_long_addrs uip_long_lladdr s6))
   }"

subsection \<open>Power-on\<close>

text \<open>The static memory of the program at power-on, with the address of the node and its random numbers; the
  MAC layer has set the level in the tree to -1.\<close>

definition power_on :: "linkaddr \<Rightarrow> (nat \<Rightarrow> 31 word) \<Rightarrow> rpl_state" where
  "power_on lladdr rand = ds6_state.extend
     (dual_state.extend
       (nbr_state.extend
         \<lparr>nt_keys = [], nt_mem = fresh_memb NBR_TABLE_MAX_NEIGHBORS, nt_lladdr = (\<lambda>_. replicate 8 0),
          used_map = (\<lambda>_. 0), locked_map = (\<lambda>_. 0), all_tables = (\<lambda>_. None), num_tables = 0,
          tabs = (\<lambda>_. \<lparr>t_index = 0, t_callback = False\<rparr>)\<rparr>
         (dual_state.fields 0 0 SHORT_RADIO 0 True True False
           (replicate NBR_TABLE_MAX_NEIGHBORS \<lparr>am_lladdr = replicate 8 0, am_lr = 0, am_isused = 0\<rparr>)))
       (ds6_state.fields 0 [] [] [] [] [] [] [] (\<lambda>_. zero_nbr) (fresh_memb 2) (\<lambda>_. False)
         (\<lambda>_. \<lparr>rl_init = False, route_list = []\<rparr>) (fresh_memb 70) (\<lambda>_. 0) [] (fresh_memb 70)
         (\<lambda>_. zero_route) 0 [] (fresh_memb UIP_DS6_DEFRT_NB) (\<lambda>_. zero_defrt) [] []))
     (rpl_state.fields (\<lambda>_. zero_parent) (\<lambda>_. \<lparr>c_weight = 0\<rparr>) (\<lambda>_. zero_instance) (\<lambda>_. zero_dag) None
       RPL_MODE_MESH 0 (\<lambda>_. 0) 0 False 255 0 RPL_LOLLIPOP_INIT 0 False None None 0 rand 0 lladdr (replicate 8 0)
       100 False False
       zero_netif zero_netif)"

text \<open>A node that has been started.\<close>

definition node_boot :: "linkaddr \<Rightarrow> linkaddr \<Rightarrow> (nat \<Rightarrow> 31 word) \<Rightarrow> rpl_state option" where
  "node_boot lladdr long_lladdr rand = map_option rpl_init (uip_ds6_init long_lladdr (power_on lladdr rand))"

inductive reachable :: "rpl_state \<Rightarrow> bool" where
  boot: "node_boot lladdr long_lladdr rand = Some s \<Longrightarrow> reachable s"
| step: "reachable s \<Longrightarrow> node_step s e s' \<Longrightarrow> reachable s'"

end
