(* ===== verification/RplInv.thy ===== *)
theory RplInv
  imports RplFrame RplInit
begin

text \<open>
  The invariant of the node: every step keeps the neighbour table and the routing table well-formed
  (\<open>node_wf\<close>), so every reachable state has them so. Operations that touch neither table are dealt with by
  the frame \<open>route_same\<close>; the others have a rule of their own, and the proofs about the handlers only
  follow their structure.
\<close>

unbundle bit_operations_syntax

named_theorems wf_ops \<open>operations in the option monad that keep the tables well-formed\<close>
named_theorems wf_steps \<open>operations that keep the tables well-formed\<close>

subsection \<open>Operations that leave the tables alone\<close>

lemma same_wf:
  "post m (route_same s) \<Longrightarrow> node_wf s \<Longrightarrow> post m node_wf"
  "posts m' (route_same s) \<Longrightarrow> node_wf s \<Longrightarrow> posts m' node_wf"
  by (auto simp: post_def posts_def intro: same_node_wf)

lemma post_then:
  "post m P \<Longrightarrow> (\<And>s. m = Some s \<Longrightarrow> P s \<Longrightarrow> posts (g s) Q) \<Longrightarrow> posts (Option.bind m g) Q"
  by (auto simp: post_def posts_def bind_eq_Some_conv)

lemma node_wf_tabs: "node_wf s \<Longrightarrow> node_tabs s"
  by (simp add: node_wf_def)

lemma node_wf_cases [wf_steps]:
  "node_wf a \<Longrightarrow> node_wf b \<Longrightarrow> node_wf (if c then a else b)"
  "node_wf a \<Longrightarrow> (\<And>x. v = Some x \<Longrightarrow> node_wf (f x)) \<Longrightarrow> node_wf (case v of None \<Rightarrow> a | Some x \<Rightarrow> f x)"
  by (auto split: option.splits)

lemmas [wf_steps] = route_same_upd [THEN same_node_wf] route_same_upd2 [THEN same_node_wf]
  same_radio [OF route_same_refl, THEN same_node_wf] same_send [OF route_same_refl, THEN same_node_wf]
  same_callback [OF route_same_refl, THEN same_node_wf] same_defrt_rm [OF route_same_refl, THEN same_node_wf]
  same_defrt_add [OF route_same_refl, THEN same_node_wf] same_set_preferred [OF route_same_refl, THEN same_node_wf]
  same_cancel_dao [OF route_same_refl, THEN same_node_wf] same_maddr [OF route_same_refl, THEN same_node_wf]
  same_default_route [OF route_same_refl, THEN same_node_wf]
  same_update_metric [OF route_same_refl, THEN same_node_wf]
  same_alloc_dag [OF route_same_refl, THEN same_node_wf] same_rand [OF route_same_refl, THEN same_node_wf]
  same_map_add [OF route_same_refl, THEN same_node_wf]

lemmas [wf_ops] = same_select_radio [THEN same_wf(1)] same_dao_seq [THEN same_wf(1)]
  same_dao_output [THEN same_wf(1)] same_nullify [THEN same_wf(1)] same_schedule [THEN same_wf(1)]
  same_schedule2 [THEN same_wf(1)] same_reset_dio [THEN same_wf(1)] same_new_interval [THEN same_wf(1)]
  same_lifetime_timer [THEN same_wf(1)] same_check_prefix [THEN same_wf(1)] same_set_prefix [THEN same_wf(2)]
  same_select_parent [THEN same_wf(2)] same_local_repair [THEN same_wf(1)]
  same_link_callback [THEN same_wf(1)] same_ipv6_callback [THEN same_wf(1)]

lemma wf_remove_parent [wf_ops]: "node_wf s \<Longrightarrow> post (rpl_remove_parent p s) node_wf"
  by (rule same_wf(1) [OF same_remove_parent [OF node_wf_tabs]])

lemma wf_remove_parents [wf_ops]: "node_wf s \<Longrightarrow> post (remove_parents d r s) node_wf"
  by (rule same_wf(1) [OF same_remove_parents [OF node_wf_tabs]])

lemma wf_remove_child [wf_steps]: "node_wf s \<Longrightarrow> node_wf (rpl_remove_child c s)"
  by (rule same_node_wf [OF same_remove_child [OF route_same_refl node_wf_tabs]])

subsection \<open>Neighbours\<close>

lemma wf_add_lladdr [wf_ops]:
  "node_wf s \<Longrightarrow> t < 4 \<Longrightarrow> t \<noteq> NBR_ROUTES \<Longrightarrow> posts (nbr_table_add_lladdr node_env t (Some a) reason d s) node_wf"
  by (rule postsI) (rule add_lladdr_wf)

lemmas [wf_steps] = table_less

lemma wf_nbr_add [wf_ops]:
  "node_wf s \<Longrightarrow> posts (uip_ds6_nbr_add node_env rpl_ipv6_neighbor_callback a (Some l) x y r d s) node_wf"
  unfolding uip_ds6_nbr_add_def uip_packetqueue_new_def
  by (hypsubst | rule wf_ops post_rules wf_steps | assumption)+

lemma wf_update_nbr [wf_ops]: "node_wf s \<Longrightarrow> posts (rpl_icmp6_update_nbr_table a r d s) node_wf"
  unfolding rpl_icmp6_update_nbr_table_def by (hypsubst | rule wf_ops post_rules wf_steps | assumption)+

lemma wf_add_parent [wf_ops]: "node_wf s \<Longrightarrow> posts (rpl_add_parent d dio a s) node_wf"
  unfolding rpl_add_parent_def by (hypsubst | rule wf_ops post_rules wf_steps | assumption)+

lemma wf_add_child [wf_ops]: "node_wf s \<Longrightarrow> posts (rpl_add_child w a s) node_wf"
proof -
  have "node_wf s1 \<Longrightarrow> node_wf (fst (case c of None \<Rightarrow> (s1, None)
      | Some k \<Rightarrow> (s1\<lparr>children := (children s1)(k := (children s1 k)\<lparr>c_weight := w\<rparr>)\<rparr>, Some k)))" for s1 c
    by (cases c) (simp_all only: option.case fst_conv wf_steps)
  note wf_case = this
  show "node_wf s \<Longrightarrow> posts (rpl_add_child w a s) node_wf"
    unfolding rpl_add_child_def by (hypsubst | rule wf_ops post_rules wf_case wf_steps | assumption)+
qed

subsection \<open>Routes\<close>

definition node_static :: "rpl_state \<Rightarrow> bool" where
  "node_static s \<longleftrightarrow> node_tabs s \<and> mnum (routememb s) = 70 \<and> mnum (neighborroutememb s) = 70 \<and>
     (\<forall>r. rt_length (routes s r) \<le> 128)"

lemma node_wf_split: "node_wf s \<longleftrightarrow> route_wf s \<and> node_static s"
  by (simp add: node_wf_def node_static_def)

lemma static_fixed: "fixed s s' \<Longrightarrow> node_static s \<Longrightarrow> node_static s'"
  by (simp add: fixed_def node_static_def node_tabs_def)

lemma wf_route_lookup [wf_steps]: "node_wf s \<Longrightarrow> node_wf (fst (uip_ds6_route_lookup a s))"
proof -
  assume wf: "node_wf s"
  let ?s' = "fst (uip_ds6_route_lookup a s)"
  have d: "distinct (routelist s)" and len: "\<forall>r \<in> set (routelist s). rt_length (routes s r) \<le> 128"
    and rw: "route_wf s" using wf by (simp_all add: node_wf_def route_wf_def)
  define f where "f = snd (uip_ds6_route_lookup a s)"
  define rs where "rs = (case f of None \<Rightarrow> routelist s | Some r \<Rightarrow> r # remove1 r (routelist s))"
  from route_lookup_eq [OF d len, of a] have s': "?s' = s\<lparr>routelist := rs\<rparr>"
    and m: "longest_match (routes s) a (routelist s) f" by (simp_all only: f_def rs_def)
  have rs: "set rs = set (routelist s)" "distinct rs" "length rs = length (routelist s)"
    using m d length_pos_if_in_set [of _ "routelist s"]
    by (auto simp: rs_def longest_match_def length_remove1 split: option.splits)
  have "route_wf (s\<lparr>routelist := rs\<rparr>)" using rw rs
    by (simp add: route_wf_def nbr_wf_def nbr_items_def uses_def nr_set_def)
  moreover have "fixed s (s\<lparr>routelist := rs\<rparr>)" by (simp add: fixed_def)
  ultimately show ?thesis unfolding s' using node_wf_fixed wf by blast
qed

lemma wf_route_rm: "node_wf s \<Longrightarrow> r \<in> set (routelist s) \<Longrightarrow> post (uip_ds6_route_rm (Some r) s) node_wf"
proof (rule postI)
  fix s' assume wf: "node_wf s" and r: "r \<in> set (routelist s)" and rm: "uip_ds6_route_rm (Some r) s = Some s'"
  from wf have "route_wf s" by (simp add: node_wf_def)
  from route_rm_wf [OF this r] rm have "route_wf s'" by auto
  moreover from postD [OF route_rm_fixed rm] have "fixed s s'" by blast
  ultimately show "node_wf s'" using node_wf_fixed wf by blast
qed

lemma static_add_routes: "node_wf s \<Longrightarrow> posts (nbr_table_add_lladdr node_env NBR_ROUTES (Some a) reason d s) node_static"
proof (rule postsI)
  fix s' p
  assume wf: "node_wf s" and add: "nbr_table_add_lladdr node_env NBR_ROUTES (Some a) reason d s = Some (s', p)"
  have st: "node_static s" using wf by (simp add: node_wf_split)
  have cl: "fixed c (claimed node_env NBR_ROUTES k c)" for c k
    by (simp add: claimed_def node_env_def node_clear_def fixed_def table_ids)
  show "node_static s'"
    using add
  proof (cases rule: add_cases)
    case (known k)
    then show ?thesis using static_fixed [OF cl st] by simp
  next
    case full
    with allocate_core [OF wf full(2)] show ?thesis by (simp add: node_wf_split)
  next
    case (new s0 k)
    from allocate_core [OF wf new(2)] have f0: "fixed s s0" by simp
    then have "fixed s (s0\<lparr>nt_keys := remove1 k (nt_keys s0) @ [k], nt_lladdr := (nt_lladdr s0)(k := a)\<rparr>)"
      by (simp add: fixed_def)
    from static_fixed [OF fixed_trans [OF this cl] st] new(4) show ?thesis by simp
  qed
qed

lemma static_upd: "node_static s \<Longrightarrow> node_static (s\<lparr>nbr_routes := x\<rparr>)"
  by (simp add: node_static_def node_tabs_def)

lemma static_route: "node_static s \<Longrightarrow> rt_length x \<le> 128 \<Longrightarrow> node_static (set_route r x s)"
  by (simp add: node_static_def node_tabs_def set_route_def)

lemma static_install: "node_static s \<Longrightarrow> l \<le> 128 \<Longrightarrow> node_static (fst (route_install ip l nh i s))"
proof -
  assume st: "node_static s" and l: "l \<le> 128"
  have m: "memb_alloc m = (m', p) \<Longrightarrow> mnum m' = mnum m" for m m' p
    by (auto simp: memb_alloc_def split: option.splits)
  show ?thesis
  proof (cases "snd (memb_alloc (routememb s))")
    case None
    with st show ?thesis
      by (auto simp: route_install_def node_static_def node_tabs_def m split: prod.splits option.splits)
  next
    case (Some r)
    then obtain rm where rm: "memb_alloc (routememb s) = (rm, Some r)" by (metis prod.collapse)
    show ?thesis
    proof (cases "snd (memb_alloc (neighborroutememb s))")
      case None
      then obtain nm where "memb_alloc (neighborroutememb s) = (nm, None)" by (metis prod.collapse)
      with st rm show ?thesis
        by (simp add: route_install_def node_static_def node_tabs_def Let_def m [OF rm] m)
    next
      case (Some n)
      then obtain nm where nm: "memb_alloc (neighborroutememb s) = (nm, Some n)" by (metis prod.collapse)
      note f = route_install_fields [OF rm nm, of ip l nh i]
      from st l m [OF rm] m [OF nm] f show ?thesis
        by (simp add: node_static_def node_tabs_def nbr_frame_def nbr_same_def)
    qed
  qed
qed

lemma wf_route_add [wf_ops]:
  "node_wf s \<Longrightarrow> l \<le> 128 \<Longrightarrow> posts (uip_ds6_route_add node_env ip l nh s) node_wf"
proof (rule postsI)
  fix s' p
  assume wf: "node_wf s" and l: "l \<le> 128" and add: "uip_ds6_route_add node_env ip l nh s = Some (s', p)"
  have st: "node_static t" if "node_wf t" for t using that by (simp add: node_wf_split)
  have ins: "posts (nexthop_routes node_env a t) node_static" if "node_wf t" for a t
  proof -
    have "node_static t1 \<Longrightarrow> node_static (fst (case c of None \<Rightarrow> (t1, None)
        | Some i \<Rightarrow> (t1\<lparr>nbr_routes := (nbr_routes t1)(i := \<lparr>rl_init = True, route_list = []\<rparr>)\<rparr>, Some i)))" for t1 c
      by (cases c) (simp_all only: option.case fst_conv static_upd)
    note c = this
    show ?thesis unfolding nexthop_routes_def
      by (assumption | rule static_add_routes [OF that] post_basic post_option post_pair post_bind_state c st that)+
  qed
  show "node_wf s'"
  proof (cases "uip_ds6_nbr_lladdr_from_ipaddr (Some nh) s")
    case None
    with add wf show ?thesis by (simp add: uip_ds6_route_add_def)
  next
    case (Some ll)
    then obtain b where b: "uip_ds6_nbr_lookup (Some nh) s = Some b"
      by (cases "uip_ds6_nbr_lookup (Some nh) s")
        (auto simp: uip_ds6_nbr_lladdr_from_ipaddr_def uip_ds6_nbr_get_ll_def nbr_table_get_lladdr_def)
    have rw: "route_wf s" and len: "\<forall>r \<in> set (routelist s). rt_length (routes s r) \<le> 128" and d: "distinct (routelist s)"
      and mn: "mnum (routememb s) = 70" "mnum (neighborroutememb s) = 70"
      and ix: "t_index (tabs s DS6_NEIGHBORS) \<noteq> t_index (tabs s NBR_ROUTES)"
      using wf by (simp_all add: node_wf_def route_wf_def node_tabs_def table_ids)
    obtain s1 r where lk: "uip_ds6_route_lookup ip s = (s1, r)" by force
    have s1: "node_wf s1" using wf_route_lookup [OF wf, of ip] lk by simp
    have rm: "post (uip_ds6_route_rm r s1) node_wf"
    proof (cases r)
      case None
      then show ?thesis using s1 by (simp add: uip_ds6_route_rm_def post_def)
    next
      case (Some q)
      with route_lookup_eq [OF d len, of ip] lk have "q \<in> set (routelist s1)"
        by (auto simp: longest_match_def)
      with s1 Some show ?thesis by (simp add: wf_route_rm)
    qed
    have i: "node_static t \<Longrightarrow> node_static (fst (case c of None \<Rightarrow> (t, None) | Some i \<Rightarrow> route_install ip l nh i t))" for t c
      using l by (cases c) (simp_all add: static_install)
    have "posts (uip_ds6_route_add node_env ip l nh s) node_static"
      unfolding uip_ds6_route_add_def Some option.case lk prod.case
      by (assumption | rule post_if post_basic post_pair post_then [OF rm] post_bind_state(4) [OF ins] i st s1)+
    then have "node_static s'" using add by (rule postsD)
    moreover from rt.route_add_wf [OF rw len mn b ix, of ip l] add have "route_wf s'" by auto
    ultimately show ?thesis by (simp add: node_wf_split)
  qed
qed

lemma wf_set_rt_state [wf_steps]: "node_wf s \<Longrightarrow> node_wf (set_rt_state r f s)"
  by (rule route_same_upd2 [THEN same_node_wf])

lemma wf_rpl_add_route [wf_ops]: "node_wf s \<Longrightarrow> l \<le> 128 \<Longrightarrow> posts (rpl_add_route d ip l nh s) node_wf"
  unfolding rpl_add_route_def by (hypsubst | rule wf_ops post_rules wf_steps | assumption)+

text \<open>The loops that start again from the head of the list after a removal. Removing the routes of a DAG
  ends, as every round shortens the list or the part of it that is left.\<close>

lemma remove_routes_loop_ends:
  assumes "node_wf s" and "set rs \<subseteq> set (routelist s)"
    and "\<And>r. r \<in> set (routelist s) \<Longrightarrow> r \<notin> set rs \<Longrightarrow> re_dag (rt_state (routes s r)) \<noteq> Some d"
  shows "\<exists>s'. remove_routes_loop d rs s = Some s' \<and> node_wf s' \<and> nbr_frame s s' \<and> routes s' = routes s \<and>
     set (routelist s') = {r \<in> set (routelist s). re_dag (rt_state (routes s r)) \<noteq> Some d}"
  using assms
proof (induction "length (routelist s)" arbitrary: s rs rule: less_induct)
  case less
  note outer = less.hyps
  show ?case
    using less.prems
  proof (induction rs)
    case Nil
    then show ?case by (subst remove_routes_loop.simps) auto
  next
    case (Cons r rs)
    show ?case
    proof (cases "re_dag (rt_state (routes s r)) = Some d")
      case False
      then have "\<And>q. q \<in> set (routelist s) \<Longrightarrow> q \<notin> set rs \<Longrightarrow> re_dag (rt_state (routes s q)) \<noteq> Some d"
        using Cons.prems(3) by (metis set_ConsD)
      with Cons.IH [OF Cons.prems(1)] Cons.prems(2) False show ?thesis
        by (subst remove_routes_loop.simps) simp
    next
      case True
      have r: "r \<in> set (routelist s)" and rw: "route_wf s" using Cons.prems by (simp_all add: node_wf_def)
      from route_rm_wf [OF rw r] obtain s1 where s1: "uip_ds6_route_rm (Some r) s = Some s1"
        "nbr_frame s s1" "routelist s1 = remove1 r (routelist s)" "routes s1 = routes s" by blast
      have dist: "distinct (routelist s)" using rw by (simp add: route_wf_def)
      have "length (routelist s1) < length (routelist s)"
        using r s1(3) length_pos_if_in_set [OF r] by (simp add: length_remove1)
      moreover have "node_wf s1" using wf_route_rm [OF Cons.prems(1) r] s1(1) by (rule postD)
      ultimately obtain s' where s': "remove_routes_loop d (routelist s1) s1 = Some s'" "node_wf s'" "nbr_frame s1 s'"
        "routes s' = routes s1" "set (routelist s') = {r \<in> set (routelist s1). re_dag (rt_state (routes s1 r)) \<noteq> Some d}"
        using outer [of s1 "routelist s1"] by auto
      have "remove_routes_loop d (r # rs) s = Some s'"
        using True s1(1) s'(1) by (subst remove_routes_loop.simps) simp
      moreover have "set (routelist s') = {r \<in> set (routelist s). re_dag (rt_state (routes s r)) \<noteq> Some d}"
        using True dist by (auto simp: s'(5) s1(3,4))
      ultimately show ?thesis using s'(2,3,4) s1(2,4) by (auto intro: nbr_frame_trans)
    qed
  qed
qed

lemma wf_remove_routes [wf_ops]: "node_wf s \<Longrightarrow> post (rpl_remove_routes d s) node_wf"
  using remove_routes_loop_ends [of s "routelist s" d] by (auto simp: rpl_remove_routes_def post_def)

lemma remove_nexthop_loop_wf:
  assumes "remove_nexthop_loop nh d rs s = Some s'" and "node_wf s" and "set rs \<subseteq> set (routelist s)"
  shows "node_wf s'"
proof -
  have "node_wf s \<longrightarrow> set rs \<subseteq> set (routelist s) \<longrightarrow> node_wf s'"
  proof (rule remove_nexthop_loop.raw_induct [where P = "\<lambda>nh d rs s s'. node_wf s \<longrightarrow> set rs \<subseteq> set (routelist s) \<longrightarrow> node_wf s'",
    OF _ assms(1)], intro impI)
  fix f nh d rs s s'
  assume IH: "\<And>nh d rs s s'. f nh d rs s = Some s' \<Longrightarrow> node_wf s \<longrightarrow> set rs \<subseteq> set (routelist s) \<longrightarrow> node_wf s'"
    and e: "(case rs of [] \<Rightarrow> Some s
      | r # rs' \<Rightarrow> do {
       a \<leftarrow> uip_ds6_route_nexthop (Some r) s;
       b \<leftarrow> nh;
       if a = b \<and> re_dag (rt_state (routes s r)) = Some d
       then do { s1 \<leftarrow> uip_ds6_route_rm (Some r) s; f nh d (routelist s1) s1 }
       else f nh d rs' s }) = Some (s' :: rpl_state)"
    and wf: "node_wf s" and sub: "set rs \<subseteq> set (routelist s)"
  from sub wf_route_rm [OF wf] have rm: "r \<in> set rs \<Longrightarrow> uip_ds6_route_rm (Some r) s = Some s1 \<Longrightarrow> node_wf s1" for r s1
    by (auto dest: postD)
  show "node_wf s'"
  proof (cases rs)
    case Nil
    with e wf show ?thesis by simp
  next
    case (Cons r rs')
    have "\<And>rs t. f nh d rs t = Some s' \<Longrightarrow> node_wf t \<Longrightarrow> set rs \<subseteq> set (routelist t) \<Longrightarrow> node_wf s'" using IH by blast
    moreover have "\<And>s1. uip_ds6_route_rm (Some r) s = Some s1 \<Longrightarrow> node_wf s1" by (rule rm [of r]) (simp_all add: Cons)
    ultimately show ?thesis using Cons e sub wf by (auto simp del: split_paired_All elim!: bind_SomeE split: if_splits)
  qed
qed
  then show ?thesis using assms(2,3) by blast
qed

lemma wf_remove_nexthop [wf_ops]: "node_wf s \<Longrightarrow> post (rpl_remove_routes_by_nexthop a d s) node_wf"
  by (rule postI) (auto simp: rpl_remove_routes_by_nexthop_def dest: remove_nexthop_loop_wf)

lemma wf_output_target [wf_ops]: "node_wf s \<Longrightarrow> post (dao_output_target p a l s) node_wf"
  unfolding dao_output_target_def by (rule wf_ops)

lemma purge_loop_wf:
  assumes "purge_loop rs s = Some s'" and "node_wf s" and "set rs \<subseteq> set (routelist s)"
  shows "node_wf s'"
proof -
  have "node_wf s \<longrightarrow> set rs \<subseteq> set (routelist s) \<longrightarrow> node_wf s'"
  proof (rule purge_loop.raw_induct [where P = "\<lambda>rs s s'. node_wf s \<longrightarrow> set rs \<subseteq> set (routelist s) \<longrightarrow> node_wf s'",
    OF _ assms(1)], intro impI)
  fix f rs s s'
  assume IH: "\<And>rs s s'. f rs s = Some s' \<Longrightarrow> node_wf s \<longrightarrow> set rs \<subseteq> set (routelist s) \<longrightarrow> node_wf s'"
    and e: "(case rs of [] \<Rightarrow> Some s
     | r # rs' \<Rightarrow>
       if re_lifetime (rt_state (routes s r)) < 1
       then do {
         let prefix = rt_ipaddr (routes s r);
         s1 \<leftarrow> uip_ds6_route_rm (Some r) s;
         i \<leftarrow> default_instance s1;
         d \<leftarrow> i_current_dag (instance_table s1 i);
         if d_rank (dag_table s1 d) \<noteq> ROOT_RANK (instance_table s1 i)
         then dao_output_target (d_preferred_parent (dag_table s1 d)) prefix RPL_ZERO_LIFETIME s1
         else f (routelist s1) s1
       }
       else f rs' s) = Some (s' :: rpl_state)"
    and wf: "node_wf s" and sub: "set rs \<subseteq> set (routelist s)"
  from sub wf_route_rm [OF wf] have rm: "r \<in> set rs \<Longrightarrow> uip_ds6_route_rm (Some r) s = Some s1 \<Longrightarrow> node_wf s1" for r s1
    by (auto dest: postD)
  have out: "node_wf t \<Longrightarrow> dao_output_target p a l t = Some s' \<Longrightarrow> node_wf s'" for p a l t
    by (rule postD [OF wf_output_target])
  show "node_wf s'"
  proof (cases rs)
    case Nil
    with e wf show ?thesis by simp
  next
    case (Cons r rs')
    show ?thesis
    proof (cases "re_lifetime (rt_state (routes s r)) < 1")
      case False
      with e Cons IH sub wf show ?thesis by auto
    next
      case True
      with e Cons obtain s1 i d where s1: "uip_ds6_route_rm (Some r) s = Some s1"
        and rest: "(if d_rank (dag_table s1 d) \<noteq> ROOT_RANK (instance_table s1 i)
         then dao_output_target (d_preferred_parent (dag_table s1 d)) (rt_ipaddr (routes s r)) RPL_ZERO_LIFETIME s1
         else f (routelist s1) s1) = Some s'" by (auto simp: Let_def elim!: bind_SomeE)
      have "node_wf s1" using rm [OF _ s1] Cons by simp
      with rest out IH show ?thesis by (auto split: if_splits)
    qed
  qed
qed
  then show ?thesis using assms(2,3) by blast
qed

lemma wf_age [wf_steps]: "node_wf s \<Longrightarrow> node_wf (age_loop rs s)"
  by (induction rs arbitrary: s) (simp_all add: wf_steps)

lemma wf_purge_routes [wf_ops]: "node_wf s \<Longrightarrow> post (rpl_purge_routes s) node_wf"
  by (rule postI) (auto simp: rpl_purge_routes_def Let_def intro: wf_age dest: purge_loop_wf)

subsection \<open>DAGs\<close>

lemma wf_free_dag [wf_ops]: "node_wf s \<Longrightarrow> post (rpl_free_dag d s) node_wf"
  unfolding rpl_free_dag_def by (hypsubst | rule wf_ops post_rules wf_steps | assumption)+

lemma wf_free_dags_loop [wf_ops]: "node_wf s \<Longrightarrow> post (free_dags_loop i js s) node_wf"
proof (induction js arbitrary: s)
  case (Cons j js)
  then show ?case unfolding free_dags_loop.simps by - (rule wf_ops post_rules | assumption)+
qed (simp add: post_basic)

lemma wf_free_instance [wf_ops]: "node_wf s \<Longrightarrow> post (rpl_free_instance i s) node_wf"
  unfolding rpl_free_instance_def by (hypsubst | rule wf_ops post_rules wf_steps | assumption)+

lemma wf_drop_dags_loop [wf_ops]: "node_wf s \<Longrightarrow> posts (drop_dags_loop i a js v s) node_wf"
proof (induction js arbitrary: s v)
  case (Cons j js)
  then show ?case unfolding drop_dags_loop.simps
    by - (hypsubst | rule wf_ops post_rules wf_steps Cons.IH | assumption)+
qed (simp add: post_basic)

lemma wf_alloc_dag: "rpl_alloc_dag a d s = (s', x) \<Longrightarrow> node_wf s \<Longrightarrow> node_wf s'"
  using same_node_wf [OF same_alloc_dag [OF route_same_refl, of s a d]] by simp

lemma wf_set_root [wf_ops]: "node_wf s \<Longrightarrow> posts (rpl_set_root i a s) node_wf"
  unfolding rpl_set_root_def
  by (hypsubst | rule wf_ops post_rules wf_steps | assumption | erule wf_alloc_dag)+

lemma wf_repair_root [wf_ops]: "node_wf s \<Longrightarrow> posts (rpl_repair_root i s) node_wf"
  unfolding rpl_repair_root_def by (hypsubst | rule wf_ops post_rules wf_steps | assumption)+

lemma wf_set_mode [wf_ops]: "node_wf s \<Longrightarrow> posts (rpl_set_mode m s) node_wf"
  unfolding rpl_set_mode_def
  by (cases m; simp only: rpl_mode.case) (hypsubst | rule wf_ops post_rules wf_steps | assumption)+

lemma wf_choose_dag [wf_ops]: "node_wf s \<Longrightarrow> posts (choose_dag i p c s) node_wf"
  unfolding choose_dag_def by (hypsubst | rule wf_ops post_rules wf_steps | assumption)+

lemma wf_switch_dag [wf_ops]: "node_wf s \<Longrightarrow> post (switch_dag i c b s) node_wf"
  unfolding switch_dag_def by (hypsubst | rule wf_ops post_rules wf_steps | assumption)+

lemma wf_parent_changed [wf_ops]: "node_wf s \<Longrightarrow> post (parent_changed i b l s) node_wf"
  unfolding parent_changed_def by (hypsubst | rule wf_ops post_rules wf_steps | assumption)+

lemma wf_select_dag [wf_ops]: "node_wf s \<Longrightarrow> posts (rpl_select_dag i p s) node_wf"
  unfolding rpl_select_dag_def by (hypsubst | rule wf_ops post_rules wf_steps | assumption)+

lemma wf_parent_event [wf_ops]: "node_wf s \<Longrightarrow> posts (rpl_process_parent_event i p s) node_wf"
  unfolding rpl_process_parent_event_def by (hypsubst | rule wf_ops post_rules wf_steps | assumption)+

lemma wf_recalculate_loop [wf_ops]: "node_wf s \<Longrightarrow> post (recalculate_loop ps s) node_wf"
proof (induction ps arbitrary: s)
  case (Cons p ps)
  then show ?case unfolding recalculate_loop.simps
    by - (hypsubst | rule wf_ops post_rules wf_steps Cons.IH | assumption)+
qed (simp add: post_basic)

lemma wf_recalculate [wf_ops]: "node_wf s \<Longrightarrow> post (rpl_recalculate_ranks s) node_wf"
  unfolding rpl_recalculate_ranks_def by (rule wf_ops)

lemma wf_move_parent [wf_ops]: "node_wf s \<Longrightarrow> post (rpl_move_parent a b p s) node_wf"
  unfolding rpl_move_parent_def by (hypsubst | rule wf_ops post_rules wf_steps | assumption)+

lemma wf_tree_level [wf_steps]: "node_wf s \<Longrightarrow> node_wf (set_tree_level d s)"
  unfolding set_tree_level_def by (rule wf_steps)

lemma wf_join_dag [wf_ops]: "node_wf s \<Longrightarrow> post (join_dag f d i p a dio s) node_wf"
  unfolding join_dag_def by (hypsubst | rule wf_ops post_rules wf_steps | assumption)+

lemma wf_join_instance [wf_ops]: "node_wf s \<Longrightarrow> post (rpl_join_instance a dio s) node_wf"
  unfolding rpl_join_instance_def
  by (hypsubst | rule wf_ops post_rules wf_steps | assumption | erule wf_alloc_dag)+

lemma wf_adopt_parent [wf_ops]: "node_wf s \<Longrightarrow> posts (adopt_parent d dio a s) node_wf"
  unfolding adopt_parent_def by (hypsubst | rule wf_ops post_rules wf_steps | assumption)+

lemma wf_add_dag [wf_ops]: "node_wf s \<Longrightarrow> posts (rpl_add_dag a dio s) node_wf"
  unfolding rpl_add_dag_def
  by (hypsubst | rule wf_ops post_rules wf_steps | assumption | erule wf_alloc_dag)+

lemma wf_global_repair [wf_ops]: "node_wf s \<Longrightarrow> post (global_repair a d dio s) node_wf"
  unfolding global_repair_def by (hypsubst | rule wf_ops post_rules wf_steps | assumption)+

lemma wf_add_nbr [wf_ops]: "node_wf s \<Longrightarrow> posts (add_nbr_from_dio a dio s) node_wf"
  unfolding add_nbr_from_dio_def by (hypsubst | rule wf_ops post_rules wf_steps | assumption)+

lemma wf_learn_prefix [wf_ops]: "node_wf s \<Longrightarrow> post (learn_prefix d dio s) node_wf"
  unfolding learn_prefix_def by (hypsubst | rule wf_ops post_rules wf_steps | assumption)+

lemma wf_process_version [wf_ops]: "node_wf s \<Longrightarrow> posts (process_version a dio d i s) node_wf"
  unfolding process_version_def Let_def by (hypsubst | rule wf_ops post_rules wf_steps | assumption)+

lemma wf_candidate [wf_ops]: "node_wf s \<Longrightarrow> posts (candidate_parent a dio d i s) node_wf"
  unfolding candidate_parent_def by (hypsubst | rule wf_ops post_rules wf_steps | assumption)+

lemma wf_update_parent [wf_ops]: "node_wf s \<Longrightarrow> post (update_parent a dio d p s) node_wf"
  unfolding update_parent_def Let_def by (hypsubst | rule wf_ops post_rules wf_steps | assumption)+

lemma wf_accepted [wf_ops]: "node_wf s \<Longrightarrow> post (process_accepted a dio d i p s) node_wf"
  unfolding process_accepted_def by (hypsubst | rule wf_ops post_rules wf_steps | assumption)+

lemma wf_process_candidate [wf_ops]: "node_wf s \<Longrightarrow> posts (process_candidate a dio d i s) node_wf"
  unfolding process_candidate_def by (hypsubst | rule wf_ops post_rules wf_steps | assumption)+

lemma wf_known_dag [wf_ops]: "node_wf s \<Longrightarrow> posts (known_dag a dio d s) node_wf"
  unfolding known_dag_def by (hypsubst | rule wf_ops post_rules wf_steps | assumption)+

lemma wf_process_dio [wf_ops]: "node_wf s \<Longrightarrow> posts (rpl_process_dio a dio s) node_wf"
proof -
  have v: "posts (case (dag, inst) of (Some d, Some i) \<Rightarrow> process_version a dio d i s | _ \<Rightarrow> Some (s, False)) node_wf"
    if "node_wf s" for dag inst
    using that wf_process_version by (cases dag; cases inst) (simp_all add: post_basic)
  show "node_wf s \<Longrightarrow> posts (rpl_process_dio a dio s) node_wf"
    unfolding rpl_process_dio_def Let_def
    by (hypsubst | rule wf_ops v post_rules wf_steps | assumption)+
qed


lemma wf_purge_dag_loop [wf_ops]: "node_wf s \<Longrightarrow> post (purge_dag_loop i js s) node_wf"
proof (induction js arbitrary: s)
  case (Cons j js)
  then show ?case unfolding purge_dag_loop.simps Let_def
    by - (hypsubst | rule wf_ops post_rules wf_steps Cons.IH | assumption)+
qed (simp add: post_basic)

lemma wf_purge_dags_loop [wf_ops]: "node_wf s \<Longrightarrow> post (purge_dags_loop is s) node_wf"
proof (induction "is" arbitrary: s)
  case (Cons i "is")
  then show ?case unfolding purge_dags_loop.simps
    by - (hypsubst | rule wf_ops post_rules wf_steps Cons.IH | assumption)+
qed (simp add: post_basic)

lemma wf_purge_dags [wf_ops]: "node_wf s \<Longrightarrow> post (rpl_purge_dags s) node_wf"
  unfolding rpl_purge_dags_def by (rule wf_ops)

subsection \<open>Handlers\<close>

lemma same_dio_output: "post (dio_output i a s) (route_same s)"
  unfolding dio_output_def Let_def by (hypsubst | rule same_ops post_rules same_steps | assumption)+

lemmas [wf_ops] = same_dio_output [THEN same_wf(1)]

lemma wf_dis_output [wf_steps]: "node_wf s \<Longrightarrow> node_wf (dis_output a s)"
  unfolding dis_output_def Let_def by (rule wf_steps)

lemma wf_dis_input [wf_ops]: "node_wf s \<Longrightarrow> post (dis_input src dst s) node_wf"
proof -
  have "node_wf s \<Longrightarrow> post (dis_input_loop src dst is s) node_wf" for s "is"
  proof (induction "is" arbitrary: s)
    case (Cons i "is")
    then show ?case unfolding dis_input_loop.simps
      by - (hypsubst | rule wf_ops post_rules wf_steps Cons.IH | assumption)+
  qed (simp add: post_basic)
  then show "node_wf s \<Longrightarrow> ?thesis" by (simp add: dis_input_def)
qed

lemma wf_dio_child [wf_ops]: "node_wf s \<Longrightarrow> post (dio_child a dio s) node_wf"
  unfolding dio_child_def by (hypsubst | rule wf_ops post_rules wf_steps | assumption)+

lemma wf_dio_input [wf_ops]: "node_wf s \<Longrightarrow> post (dio_input src b n s) node_wf"
  unfolding dio_input_def by (hypsubst | rule wf_ops post_rules wf_steps | assumption)+

lemma wf_prepare: "prepare_for_dao_fwd q r s = (s', x) \<Longrightarrow> node_wf s \<Longrightarrow> node_wf s'"
  unfolding prepare_for_dao_fwd_def Let_def by (auto intro!: wf_steps)

lemma wf_loop_check [wf_ops]: "node_wf s \<Longrightarrow> posts (dao_loop_check src d i s) node_wf"
  unfolding dao_loop_check_def by (hypsubst | rule wf_ops post_rules wf_steps | assumption | (simp only: split: if_split; intro conjI impI; simp))+

lemma wf_forward_dao [wf_ops]: "node_wf s \<Longrightarrow> post (forward_dao dst b n q s) node_wf"
  unfolding forward_dao_def by (hypsubst | rule wf_ops post_rules wf_steps | assumption)+

lemma wf_no_path [wf_ops]: "node_wf s \<Longrightarrow> post (dao_no_path src b n d l rep s) node_wf"
  unfolding dao_no_path_def by (hypsubst | rule wf_ops post_rules wf_steps | assumption | erule wf_prepare)+

lemma wf_dao_child [wf_ops]: "node_wf s \<Longrightarrow> post (dao_child src s) node_wf"
  unfolding dao_child_def by (hypsubst | rule wf_ops post_rules wf_steps | assumption)+

lemma wf_forward_new [wf_ops]: "node_wf s \<Longrightarrow> post (dao_forward_new b n d r s) node_wf"
  unfolding dao_forward_new_def by (hypsubst | rule wf_ops post_rules wf_steps | assumption | erule wf_prepare)+

lemma wf_dao_path [wf_ops]: "node_wf s \<Longrightarrow> l \<le> 128 \<Longrightarrow> post (dao_path src b n i d ip l lt s) node_wf"
  unfolding dao_path_def by (hypsubst | rule wf_ops post_rules wf_steps | assumption)+

lemma dao_options_len: "dao_options b n i opts = Some o2 \<Longrightarrow> do_prefixlen opts \<le> 128 \<Longrightarrow> do_prefixlen o2 \<le> 128"
proof (induction b n i opts rule: dao_options.induct)
  case (1 b n i opts)
  show ?case
  proof (cases "i < n")
    case False
    with 1 show ?thesis by (subst (asm) (2) dao_options.simps) simp
  next
    case True
    with 1(2) obtain o1 where o1: "dao_option b i opts = Some o1" "dao_options b n (i + option_len b i) o1 = Some o2"
      by (subst (asm) (2) dao_options.simps) (auto elim: bind_SomeE)
    have "do_prefixlen o1 \<le> 128"
      using o1(1) 1(3) by (auto simp: dao_option_def Let_def word_le_nat_alt split: if_splits)
    with 1(1) True o1 show ?thesis by blast
  qed
qed

lemma wf_lookup_pair: "uip_ds6_route_lookup a s = (s', r) \<Longrightarrow> node_wf s \<Longrightarrow> node_wf s'"
  using wf_route_lookup [of s a] by simp

lemma wf_dao_input [wf_ops]: "node_wf s \<Longrightarrow> post (dao_input src b n s) node_wf"
proof -
  have l: "dao_options b k i \<lparr>do_prefixlen = 0, do_prefix = p, do_lifetime = lt\<rparr> = Some o2 \<Longrightarrow> do_prefixlen o2 \<le> 128"
    for k i p lt o2 by (erule dao_options_len) simp
  show "node_wf s \<Longrightarrow> ?thesis"
    unfolding dao_input_def
    by (hypsubst | rule wf_ops post_rules wf_steps | assumption | erule wf_lookup_pair | erule l)+
qed

lemma wf_dio_broadcast [wf_ops]: "node_wf s \<Longrightarrow> post (dio_broadcast i s) node_wf" "node_wf s \<Longrightarrow> post (dio_broadcast_resume s) node_wf"
  unfolding dio_broadcast_def dio_broadcast_resume_def
  by (hypsubst | rule wf_ops post_rules wf_steps | assumption)+

lemma wf_dis_broadcast [wf_steps]: "node_wf s \<Longrightarrow> node_wf (dis_broadcast s)" "node_wf s \<Longrightarrow> node_wf (dis_broadcast_resume s)"
  unfolding dis_broadcast_def dis_broadcast_resume_def by (rule wf_steps | assumption)+

lemma wf_periodic [wf_ops]: "node_wf s \<Longrightarrow> post (handle_periodic_timer s) node_wf"
  unfolding handle_periodic_timer_def by (hypsubst | rule wf_ops post_rules wf_steps | assumption)+

lemma wf_dio_timer [wf_ops]: "node_wf s \<Longrightarrow> post (handle_dio_timer i s) node_wf"
  unfolding handle_dio_timer_def set_dio_timer_def by (hypsubst | rule wf_ops post_rules wf_steps | assumption)+

lemma wf_dao_timer [wf_ops]: "node_wf s \<Longrightarrow> post (handle_dao_timer i s) node_wf"
  unfolding handle_dao_timer_def by (hypsubst | rule wf_ops post_rules wf_steps | assumption)+

lemma wf_unicast_timer [wf_ops]: "node_wf s \<Longrightarrow> post (handle_unicast_dio_timer i s) node_wf"
  unfolding handle_unicast_dio_timer_def by (hypsubst | rule wf_ops post_rules wf_steps | assumption)+

lemma wf_link_callback [wf_ops]:
  "node_wf s \<Longrightarrow> post (uip_ds6_link_neighbor_callback rpl_link_neighbor_callback a st n s) node_wf"
  unfolding uip_ds6_link_neighbor_callback_def by (hypsubst | rule wf_ops post_rules wf_steps | assumption)+

lemma wf_received [wf_steps]: "node_wf s \<Longrightarrow> node_wf (fst (dual_radio_received r s))"
  unfolding dual_radio_received_def if_distrib [of fst] fst_conv by (rule wf_steps | assumption)+

lemma same_expire: "route_same s (expire_addr p s)"
  unfolding expire_addr_def Let_def by (rule same_steps)+

lemma same_ds6_periodic: "post (uip_ds6_periodic s) (route_same s)"
proof -
  have f: "route_same s (fold (\<lambda>i. expire_addr (p i)) is s)" for s p "is"
    by (induction "is" arbitrary: s) (auto intro: route_same_trans same_expire)
  have d: "post (defrt_periodic_loop ds s) (route_same s)" for ds and s :: rpl_state
  proof (rule postI)
    fix s' assume "defrt_periodic_loop ds s = Some s'"
    then show "route_same s s'"
    proof (rule defrt_periodic_loop.raw_induct [where P = "\<lambda>ds s s'. route_same s s'", rotated])
      fix f ds and s s' :: rpl_state
      assume "\<And>ds s s'. f ds s = Some s' \<Longrightarrow> route_same s s'"
        and "(case ds of [] \<Rightarrow> Some s
            | d # ds' \<Rightarrow>
               if \<not> df_isinfinite (defrts s d) \<and> stimer_expired (clock_seconds s) (df_lifetime (defrts s d))
               then let s1 = uip_ds6_defrt_rm (Some d) s in f (defaultrouterlist s1) s1
               else f ds' s) = Some s'"
      then show "route_same s s'"
        by (auto simp: Let_def split: list.splits if_splits
            intro: route_same_trans [OF same_defrt_rm [OF route_same_refl]])
    qed
  qed
  show ?thesis unfolding uip_ds6_periodic_def uip_ds6_defrt_periodic_def Let_def
    by (rule route_same_op(1) [OF d]) (rule route_same_trans [OF f f])
qed

lemmas [wf_ops] = same_ds6_periodic [THEN same_wf(1)]

lemma wf_handle: "node_wf s \<Longrightarrow> post (node_handle e s) node_wf"
  unfolding node_handle_def
  by (cases e; simp only: node_event.case) (hypsubst | rule wf_ops post_rules wf_steps | assumption)+

lemma wf_step: "node_step s e s' \<Longrightarrow> node_wf s \<Longrightarrow> node_wf s'"
  by (erule node_step.cases) (metis wf_handle postD)

end
