(* ===== verification/RplReach.thy ===== *)
theory RplReach
  imports RplInv
begin

text \<open>
  Every reachable state has well-formed tables: a started node has empty ones, which the frame rules show
  for the initialisation, and the steps keep them so.
\<close>

subsection \<open>A started node\<close>

text \<open>The tables of a started node are empty.\<close>

definition empty_tables :: "rpl_state \<Rightarrow> bool" where
  "empty_tables s \<longleftrightarrow> nt_keys s = [] \<and> unit_pool (nt_mem s) \<and> memb_used (nt_mem s) = {} \<and> (\<forall>k. used_map s k = 0) \<and>
     routelist s = [] \<and> unit_pool (routememb s) \<and> memb_used (routememb s) = {} \<and> mnum (routememb s) = 70 \<and>
     unit_pool (neighborroutememb s) \<and> memb_used (neighborroutememb s) = {} \<and> mnum (neighborroutememb s) = 70 \<and>
     num_routes s = 0 \<and> (\<forall>r. rt_length (routes s r) \<le> 128)"

lemma empty_tables_wf: "empty_tables s \<Longrightarrow> node_tabs s \<Longrightarrow> node_wf s"
  by (simp add: empty_tables_def node_wf_def route_wf_def nbr_wf_def unit_pool_def node_tabs_def table_ids
      nbr_items_def nr_set_def bij_betw_def)

lemma same_empty: "route_same s s' \<Longrightarrow> empty_tables s \<Longrightarrow> empty_tables s'"
proof -
  assume f: "route_same s s'" and e: "empty_tables s"
  have "used_map s' k = 0" for k
    using f e by (intro bit_word_eqI) (auto simp: route_same_def nbr_frame_def empty_tables_def)
  with f e show ?thesis by (simp add: route_same_def nbr_frame_def nbr_same_def empty_tables_def)
qed

lemma register_empty [simp]: "empty_tables (fst (nbr_table_register t c s)) = empty_tables s"
  by (simp add: nbr_table_register_def empty_tables_def)

lemma register_tabs:
  assumes "num_tables s < MAX_NUM_TABLES"
  shows "num_tables (fst (nbr_table_register t c s)) = num_tables s + 1"
    "tabs (fst (nbr_table_register t c s)) = (tabs s)(t := \<lparr>t_index = num_tables s, t_callback = c\<rparr>)"
    "all_tables (fst (nbr_table_register t c s)) = (all_tables s)(num_tables s := Some t)"
  using assms by (simp_all add: nbr_table_register_def)

lemma fresh_unit: "unit_pool (fresh_memb n)" "memb_used (fresh_memb n) = {}" "mnum (fresh_memb n) = n"
  "memb_init (fresh_memb n) = fresh_memb n"
  by (auto simp: unit_pool_def memb_wf_def memb_used_def fresh_memb_def memb_init_def)

lemma power_on_sel:
  "nt_keys (power_on a r) = []" "nt_mem (power_on a r) = fresh_memb NBR_TABLE_MAX_NEIGHBORS"
  "used_map (power_on a r) = (\<lambda>_. 0)" "num_tables (power_on a r) = 0" "routelist (power_on a r) = []"
  "routememb (power_on a r) = fresh_memb 70" "neighborroutememb (power_on a r) = fresh_memb 70"
  "num_routes (power_on a r) = 0" "routes (power_on a r) = (\<lambda>_. zero_route)"
  "uip_lladdr (power_on a r) = a" "rand_stream (power_on a r) = r"
  by (simp_all add: power_on_def ds6_state.defs dual_state.defs nbr_state.defs rpl_state.defs)

lemma power_on_empty: "empty_tables (power_on a r)"
  by (simp add: empty_tables_def power_on_sel fresh_unit zero_route_def)

lemma same_clear [same_steps]: "route_same s s1 \<Longrightarrow> route_same s (clear_tables s1)"
  unfolding clear_tables_def by (rule same_steps | assumption)+

lemma same_prefix_add [same_steps]: "route_same s s1 \<Longrightarrow> route_same s (fst (uip_ds6_prefix_add a l ad f v p s1))"
  unfolding uip_ds6_prefix_add_def
  by (cases "ds6_free (uip_ds6_prefix_list s1) a l"; simp only: option.case fst_conv; (rule same_steps | assumption)+)

lemma same_long_maddr [same_steps]: "route_same s s1 \<Longrightarrow> route_same s (fst (uip_ds6_long_maddr_add a s1))"
  unfolding uip_ds6_long_maddr_add_def
  by (cases "ds6_free (long_maddr_list s1) a 128"; simp only: option.case fst_conv; (rule same_steps | assumption)+)

lemma same_long_addr [same_steps]: "route_same s s1 \<Longrightarrow> route_same s (fst (uip_ds6_long_addr_add a l t s1))"
  unfolding uip_ds6_long_addr_add_def Let_def
  by (cases "ds6_free (long_addr_list s1) a 128"; simp only: option.case fst_conv; (rule same_steps | assumption)+)

lemma same_init_addrs [same_steps]:
  "route_same s s1 \<Longrightarrow> route_same s (init_long_addrs a s1)" "route_same s s1 \<Longrightarrow> route_same s (init_short_addrs s1)"
  unfolding init_long_addrs_def init_short_addrs_def Let_def by (rule same_steps | assumption)+

lemma same_random: "random_rand s = (r, s') \<Longrightarrow> route_same s s'"
  using same_rand [OF route_same_refl, of s] by (auto simp: random_rand_def split: prod.splits)

lemma same_compute: "posts (uip_ds6_compute_reachable_time s) (route_same s)"
  unfolding uip_ds6_compute_reachable_time_def
  by (rule postsI) (auto simp: Let_def split: prod.splits if_splits intro: route_same_trans dest!: same_random)

lemmas [same_ops] = same_compute [THEN route_same_op(2)]

lemma ds6_init_same:
  "post (uip_ds6_init b s) (route_same (uip_ds6_route_init (uip_ds6_neighbors_init s)))"
  unfolding uip_ds6_init_def by (hypsubst | rule same_ops post_rules same_steps | assumption)+

lemma wf_boot: "node_boot a b r = Some s \<Longrightarrow> node_wf s"
proof -
  assume bt: "node_boot a b r = Some s"
  then obtain s2 where s2: "uip_ds6_init b (power_on a r) = Some s2" and s: "s = rpl_init s2"
    by (auto simp: node_boot_def)
  define s1 where "s1 = uip_ds6_route_init (uip_ds6_neighbors_init (power_on a r))"
  have e1: "empty_tables s1" using power_on_empty [of a r]
    by (simp add: s1_def uip_ds6_route_init_def uip_ds6_neighbors_init_def nbr_table_register_def empty_tables_def Let_def
        power_on_sel fresh_unit MAX_NUM_TABLES_def)
  have t1: "num_tables s1 = 2" "\<forall>t < 2. tabs s1 t = \<lparr>t_index = t, t_callback = True\<rparr> \<and> all_tables s1 t = Some t"
    by (auto simp: s1_def uip_ds6_route_init_def uip_ds6_neighbors_init_def nbr_table_register_def Let_def
        power_on_sel MAX_NUM_TABLES_def table_ids less_2_cases_iff)
  have r2: "route_same s1 s2" using postD [OF ds6_init_same s2] by (simp add: s1_def)
  define s3 where "s3 = rpl_dag_init (s2\<lparr>default_instance := None\<rparr>)"
  have t2: "num_tables s2 = 2" "\<forall>t < 2. tabs s2 t = \<lparr>t_index = t, t_callback = True\<rparr> \<and> all_tables s2 t = Some t"
    using r2 t1 by (simp_all add: route_same_def nbr_frame_def nbr_same_def)
  have lt: "(t :: nat) < 4 \<longleftrightarrow> t < 2 \<or> t = 2 \<or> t = 3" for t by linarith
  have "node_tabs s3"
    using t2 unfolding node_tabs_def s3_def rpl_dag_init_def lt
    by (simp add: register_tabs MAX_NUM_TABLES_def table_ids)
  moreover have "empty_tables (s2\<lparr>default_instance := None\<rparr>)"
    by (rule same_empty [OF route_same_upd2(3) same_empty [OF r2 e1]])
  then have "empty_tables s3" by (simp add: s3_def rpl_dag_init_def)
  ultimately have w3: "node_wf s3" by (rule empty_tables_wf [rotated])
  have "node_wf (rpl_reset_periodic_timer s3)"
    unfolding rpl_reset_periodic_timer_def Let_def case_prod_beta
    using same_random [of s3 "fst (random_rand s3)" "snd (random_rand s3)"] w3
    by (auto intro!: wf_steps intro: same_node_wf)
  then show ?thesis unfolding s rpl_init_def Let_def s3_def by (rule wf_steps)
qed

lemma reachable_wf: "reachable s \<Longrightarrow> node_wf s"
  by (induction rule: reachable.induct) (auto intro: wf_boot wf_step)


text \<open>The parts of the invariant.\<close>

lemma node_wf_tables:
  assumes wf: "node_wf s"
  shows "distinct (nt_keys s)" "inj_on (nt_lladdr s) (set (nt_keys s))" "memb_used (routememb s) = set (routelist s)"
    "num_routes s = int (length (routelist s))" "num_routes s \<le> 70"
    "\<forall>r \<in> set (routelist s). \<exists>i n. neighbor_routes (routes s r) = Some i \<and> i \<in> set (nbr_items s NBR_ROUTES) \<and>
        n \<in> set (route_list (nbr_routes s i)) \<and> nbrr_route s n = r"
proof -
  have rw: "route_wf s" and m: "mnum (routememb s) = 70" using wf by (simp_all add: node_wf_def)
  show "distinct (nt_keys s)" "inj_on (nt_lladdr s) (set (nt_keys s))" "memb_used (routememb s) = set (routelist s)"
    "num_routes s = int (length (routelist s))"
    using rw wf by (simp_all add: route_wf_def nbr_wf_def)
  have "memb_used (routememb s) \<subseteq> {..<70}" using rw m by (auto simp: memb_used_def route_wf_def unit_pool_def)
  with rw have "set (routelist s) \<subseteq> {..<70}" by (simp add: route_wf_def)
  then have "card (set (routelist s)) \<le> 70" using card_mono [of "{..<70::nat}"] by simp
  with rw show "num_routes s \<le> 70" by (simp add: route_wf_def distinct_card)
  show "\<forall>r \<in> set (routelist s). \<exists>i n. neighbor_routes (routes s r) = Some i \<and> i \<in> set (nbr_items s NBR_ROUTES) \<and>
        n \<in> set (route_list (nbr_routes s i)) \<and> nbrr_route s n = r"
    using route_wf_parts [OF rw] by blast
qed

subsection \<open>Properties\<close>

text \<open>C2. In every state a node can reach, through any messages, timers, failures of links and evictions of
  neighbours, the neighbour and routing tables are well-formed: every neighbour has its own link-layer
  address; the route blocks and the neighbour-route records in use are exactly the listed ones; every
  route on the list hangs on an existing next hop, whose list of records leads back to it; and the
  count of routes is the length of the list, at most 70.\<close>

theorem reachable_tables:
  assumes "reachable s"
  shows "node_wf s \<and> distinct (nt_keys s) \<and> inj_on (nt_lladdr s) (set (nt_keys s)) \<and>
     memb_used (routememb s) = set (routelist s) \<and> num_routes s = int (length (routelist s)) \<and> num_routes s \<le> 70 \<and>
     (\<forall>r \<in> set (routelist s). \<exists>i n. neighbor_routes (routes s r) = Some i \<and> i \<in> set (nbr_items s NBR_ROUTES) \<and>
        n \<in> set (route_list (nbr_routes s i)) \<and> nbrr_route s n = r)"
  using node_wf_tables [OF reachable_wf [OF assms]] reachable_wf [OF assms] by blast

text \<open>A node that has been started, then heard a frame on its long radio.\<close>

lemma boot_Some: "\<exists>s. node_boot a b r = Some s"
proof -
  have c: "\<exists>t x. uip_ds6_compute_reachable_time s = Some (t, x)" if "uip_ds6_if s = init_netif \<or>
      (\<exists>r. uip_ds6_if s = set_reachable r init_netif)" for s
    using that by (auto simp: uip_ds6_compute_reachable_time_def Let_def init_netif_def set_reachable_def
        zero_netif_def UIP_ND6_REACHABLE_TIME_def split: prod.splits)
  define s2 where "s2 = (clear_tables (uip_ds6_route_init (uip_ds6_neighbors_init (power_on a r))))\<lparr>uip_ds6_if := init_netif\<rparr>"
  obtain s3 x where s3: "uip_ds6_compute_reachable_time s2 = Some (s3, x)" using c [of s2] by (auto simp: s2_def)
  define s4 where "s4 = s3\<lparr>uip_ds6_if := set_reachable x init_netif, long_uip_ds6_if := init_netif\<rparr>"
  obtain s5 y where s5: "uip_ds6_compute_reachable_time s4 = Some (s5, y)" using c [of s4] by (auto simp: s4_def)
  have "\<exists>s. uip_ds6_init b (power_on a r) = Some s"
    unfolding uip_ds6_init_def Let_def s2_def [symmetric] by (simp add: s3 s4_def [symmetric] s5)
  then show ?thesis by (auto simp: node_boot_def)
qed

theorem reachable_tables_witness: "\<exists>s. reachable s \<and> radio_received s = LONG_RADIO \<and> num_routes s \<le> 70"
proof -
  obtain s where "node_boot (demo_ll 1) (demo_ll 2) (\<lambda>_. 7) = Some s" using boot_Some by blast
  then have s: "reachable s" by (rule reachable.boot)
  have "node_step s (Heard LONG_RADIO (demo_ll 3)) (s\<lparr>radio_received := LONG_RADIO, packetbuf_sender := demo_ll 3\<rparr>)"
    by (rule node_step.event) (simp_all add: enabled_def node_handle_def dual_radio_received_def)
  then have r: "reachable (s\<lparr>radio_received := LONG_RADIO, packetbuf_sender := demo_ll 3\<rparr>)"
    by (rule reachable.step [OF s])
  show ?thesis using reachable_tables [OF r] r by (intro exI) auto
qed

end
