(* ===== verification/Packetbuf.thy ===== *)
theory Packetbuf
  imports NbrTable
begin

text \<open>
  The packet buffer of \<open>core/net/packetbuf.c\<close>: one frame with its header in front of the data, the
  attributes and the two addresses the layers pass along with it. The buffer is a list of
  \<open>PACKETBUF_SIZE\<close> bytes; \<open>bufptr\<close> bytes behind the header have been consumed. Reading or writing a byte
  outside of an array is undefined (\<open>None\<close>). The abstract packet is a header and a payload; the
  operations are proved to act on it.
\<close>

unbundle bit_operations_syntax

definition PACKETBUF_SIZE :: nat where "PACKETBUF_SIZE = 128"

datatype pb_attr =
    PACKETBUF_ATTR_NONE | PACKETBUF_ATTR_CHANNEL | PACKETBUF_ATTR_NETWORK_ID | PACKETBUF_ATTR_LINK_QUALITY
  | PACKETBUF_ATTR_RSSI | PACKETBUF_ATTR_TIMESTAMP | PACKETBUF_ATTR_RADIO_TXPOWER | PACKETBUF_ATTR_LISTEN_TIME
  | PACKETBUF_ATTR_TRANSMIT_TIME | PACKETBUF_ATTR_MAX_MAC_TRANSMISSIONS | PACKETBUF_ATTR_MAC_SEQNO
  | PACKETBUF_ATTR_MAC_ACK | PACKETBUF_ATTR_IS_CREATED_AND_SECURED | PACKETBUF_ATTR_PENDING
  | PACKETBUF_ATTR_FRAME_TYPE

datatype pb_addr = PACKETBUF_ADDR_SENDER | PACKETBUF_ADDR_RECEIVER

record pb_state =
  packetbuf :: "u8 list"
  buflen :: u16
  bufptr :: u16
  hdrlen :: u8
  packetbuf_attrs :: "pb_attr \<Rightarrow> u16"
  packetbuf_addrs :: "pb_addr \<Rightarrow> linkaddr"

subsection \<open>Memory\<close>

text \<open>\<open>n\<close> bytes from offset \<open>i\<close> of an array, and the bytes \<open>bs\<close> written there.\<close>

definition mem_read :: "u8 list \<Rightarrow> nat \<Rightarrow> nat \<Rightarrow> (u8 list) option" where
  "mem_read m i n = (if i + n \<le> length m then Some (take n (drop i m)) else None)"

definition mem_write :: "u8 list \<Rightarrow> nat \<Rightarrow> u8 list \<Rightarrow> (u8 list) option" where
  "mem_write m i bs = (if i + length bs \<le> length m
     then Some (take i m @ bs @ drop (i + length bs) m) else None)"

subsection \<open>Operations\<close>

definition packetbuf_attr_clear :: "'a pb_state_scheme \<Rightarrow> 'a pb_state_scheme" where
  "packetbuf_attr_clear s = s\<lparr>packetbuf_attrs := (\<lambda>_. 0), packetbuf_addrs := (\<lambda>_. linkaddr_null)\<rparr>"

definition packetbuf_clear :: "'a pb_state_scheme \<Rightarrow> 'a pb_state_scheme" where
  "packetbuf_clear s = packetbuf_attr_clear (s\<lparr>buflen := 0, bufptr := 0, hdrlen := 0\<rparr>)"

definition packetbuf_copyfrom :: "u8 list \<Rightarrow> u16 \<Rightarrow> 'a pb_state_scheme \<Rightarrow> ('a pb_state_scheme \<times> u16) option" where
  "packetbuf_copyfrom from len s = do {
     let s1 = packetbuf_clear s;
     let l = min (of_nat PACKETBUF_SIZE) len;
     bs \<leftarrow> mem_read from 0 (unat l);
     m \<leftarrow> mem_write (packetbuf s1) 0 bs;
     Some (s1\<lparr>packetbuf := m, buflen := l\<rparr>, l)
   }"

definition packetbuf_hdrlen :: "'a pb_state_scheme \<Rightarrow> u8" where
  "packetbuf_hdrlen s = ucast (bufptr s + ucast (hdrlen s))"

definition packetbuf_datalen :: "'a pb_state_scheme \<Rightarrow> u16" where
  "packetbuf_datalen s = buflen s"

definition packetbuf_totlen :: "'a pb_state_scheme \<Rightarrow> u16" where
  "packetbuf_totlen s = ucast (packetbuf_hdrlen s) + packetbuf_datalen s"

definition packetbuf_set_datalen :: "u16 \<Rightarrow> 'a pb_state_scheme \<Rightarrow> 'a pb_state_scheme" where
  "packetbuf_set_datalen len s = s\<lparr>buflen := len\<rparr>"

text \<open>The position of the data in the buffer: \<open>packetbuf_dataptr\<close>; \<open>packetbuf_hdrptr\<close> is position 0.\<close>

definition packetbuf_dataptr :: "'a pb_state_scheme \<Rightarrow> nat" where
  "packetbuf_dataptr s = unat (packetbuf_hdrlen s)"

text \<open>The loop of \<open>packetbuf_compact\<close> over the indices left; the bytes are moved one by one.\<close>

fun compact_loop :: "nat list \<Rightarrow> nat \<Rightarrow> nat \<Rightarrow> u8 list \<Rightarrow> (u8 list) option" where
  "compact_loop [] dst src m = Some m"
| "compact_loop (i # is) dst src m = do {
     b \<leftarrow> mem_read m (src + i) 1;
     m1 \<leftarrow> mem_write m (dst + i) b;
     compact_loop is dst src m1
   }"

definition packetbuf_compact :: "'a pb_state_scheme \<Rightarrow> 'a pb_state_scheme option" where
  "packetbuf_compact s =
     (if bufptr s \<noteq> 0
      then do {
        m \<leftarrow> compact_loop [0..<unat (buflen s)] (unat (hdrlen s)) (unat (packetbuf_hdrlen s)) (packetbuf s);
        Some (s\<lparr>packetbuf := m, bufptr := 0\<rparr>)
      }
      else Some s)"

text \<open>\<open>packetbuf_copyto\<close> into an array \<open>dst\<close>: the bytes written there and the length returned. A buffer whose
  lengths do not fit is not copied.\<close>

definition packetbuf_copyto :: "u8 list \<Rightarrow> 'a pb_state_scheme \<Rightarrow> (u8 list \<times> u16) option" where
  "packetbuf_copyto dst s =
     (if unat (hdrlen s) + unat (buflen s) > PACKETBUF_SIZE then Some (dst, 0)
      else do {
        h \<leftarrow> mem_read (packetbuf s) 0 (unat (hdrlen s));
        d1 \<leftarrow> mem_write dst 0 h;
        b \<leftarrow> mem_read (packetbuf s) (packetbuf_dataptr s) (unat (buflen s));
        d2 \<leftarrow> mem_write d1 (unat (hdrlen s)) b;
        Some (d2, ucast (hdrlen s) + buflen s)
      })"

text \<open>The loop of \<open>packetbuf_hdralloc\<close>, from the last byte down.\<close>

fun shift_loop :: "nat list \<Rightarrow> nat \<Rightarrow> u8 list \<Rightarrow> (u8 list) option" where
  "shift_loop [] sz m = Some m"
| "shift_loop (i # is) sz m = do {
     b \<leftarrow> mem_read m i 1;
     m1 \<leftarrow> mem_write m (i + sz) b;
     shift_loop is sz m1
   }"

definition packetbuf_hdralloc :: "nat \<Rightarrow> 'a pb_state_scheme \<Rightarrow> ('a pb_state_scheme \<times> bool) option" where
  "packetbuf_hdralloc sz s =
     (if sz + unat (packetbuf_totlen s) > PACKETBUF_SIZE then Some (s, False)
      else do {
        m \<leftarrow> shift_loop (rev [0..<unat (packetbuf_totlen s)]) sz (packetbuf s);
        Some (s\<lparr>packetbuf := m, hdrlen := hdrlen s + of_nat sz\<rparr>, True)
      })"

definition packetbuf_hdrreduce :: "nat \<Rightarrow> 'a pb_state_scheme \<Rightarrow> 'a pb_state_scheme \<times> bool" where
  "packetbuf_hdrreduce sz s =
     (if unat (buflen s) < sz then (s, False)
      else (s\<lparr>bufptr := bufptr s + of_nat sz, buflen := buflen s - of_nat sz\<rparr>, True))"

definition packetbuf_set_attr :: "pb_attr \<Rightarrow> u16 \<Rightarrow> 'a pb_state_scheme \<Rightarrow> 'a pb_state_scheme" where
  "packetbuf_set_attr t v s = s\<lparr>packetbuf_attrs := (packetbuf_attrs s)(t := v)\<rparr>"

definition packetbuf_attr :: "pb_attr \<Rightarrow> 'a pb_state_scheme \<Rightarrow> u16" where
  "packetbuf_attr t s = packetbuf_attrs s t"

definition packetbuf_set_addr :: "pb_addr \<Rightarrow> linkaddr \<Rightarrow> 'a pb_state_scheme \<Rightarrow> 'a pb_state_scheme" where
  "packetbuf_set_addr t a s = s\<lparr>packetbuf_addrs := (packetbuf_addrs s)(t := a)\<rparr>"

definition packetbuf_addr :: "pb_addr \<Rightarrow> 'a pb_state_scheme \<Rightarrow> linkaddr" where
  "packetbuf_addr t s = packetbuf_addrs s t"

definition packetbuf_holds_broadcast :: "'a pb_state_scheme \<Rightarrow> bool" where
  "packetbuf_holds_broadcast s \<longleftrightarrow> packetbuf_addrs s PACKETBUF_ADDR_RECEIVER = linkaddr_null"

subsection \<open>The abstract packet\<close>

definition pb_wf :: "'a pb_state_scheme \<Rightarrow> bool" where
  "pb_wf s \<longleftrightarrow> length (packetbuf s) = PACKETBUF_SIZE \<and>
     unat (hdrlen s) + unat (bufptr s) + unat (buflen s) \<le> PACKETBUF_SIZE"

definition pb_header :: "'a pb_state_scheme \<Rightarrow> u8 list" where
  "pb_header s = take (unat (hdrlen s)) (packetbuf s)"

definition pb_payload :: "'a pb_state_scheme \<Rightarrow> u8 list" where
  "pb_payload s = take (unat (buflen s)) (drop (unat (hdrlen s) + unat (bufptr s)) (packetbuf s))"

lemma wf_bounds:
  assumes "pb_wf s"
  shows "unat (hdrlen s) \<le> 128" "unat (bufptr s) \<le> 128" "unat (buflen s) \<le> 128"
    "unat (hdrlen s) + unat (bufptr s) + unat (buflen s) \<le> 128"
  using assms by (simp_all add: pb_wf_def PACKETBUF_SIZE_def)

lemma unat_ucast_u16: "unat (ucast (x :: u8) :: u16) = unat x"
  using unat_u8_bound [of x] by (simp add: unsigned_ucast_eq take_bit_nat_eq_self_iff)

lemma hdrlen_exact: "pb_wf s \<Longrightarrow> unat (packetbuf_hdrlen s) = unat (hdrlen s) + unat (bufptr s)"
proof -
  assume "pb_wf s"
  note b = wf_bounds [OF this]
  have "unat (bufptr s + ucast (hdrlen s)) = unat (bufptr s) + unat (hdrlen s)"
    using b by (simp add: unat_word_ariths unat_ucast_u16)
  then show ?thesis using b
    by (simp add: packetbuf_hdrlen_def unsigned_ucast_eq take_bit_eq_mod)
qed

lemma totlen_exact: "pb_wf s \<Longrightarrow> unat (packetbuf_totlen s) = unat (hdrlen s) + unat (bufptr s) + unat (buflen s)"
proof -
  assume w: "pb_wf s"
  note b = wf_bounds [OF w]
  show ?thesis using b hdrlen_exact [OF w]
    by (simp add: packetbuf_totlen_def packetbuf_datalen_def unat_word_ariths unat_ucast_u16)
qed

lemma payload_length: "pb_wf s \<Longrightarrow> length (pb_payload s) = unat (buflen s)"
  using wf_bounds by (fastforce simp: pb_payload_def pb_wf_def PACKETBUF_SIZE_def)

lemma header_length: "pb_wf s \<Longrightarrow> length (pb_header s) = unat (hdrlen s)"
  using wf_bounds by (fastforce simp: pb_header_def pb_wf_def PACKETBUF_SIZE_def)

text \<open>One byte moved.\<close>

lemma move_byte:
  assumes "i < length m" and "j < length m"
  shows "(do { b \<leftarrow> mem_read m i 1; mem_write m j b }) = Some (m[j := m ! i])"
  using assms by (simp add: mem_read_def mem_write_def take_Suc_conv_app_nth upd_conv_take_nth_drop)

lemma move_byte_bind:
  assumes "i < length m" and "j < length m"
  shows "(do { b \<leftarrow> mem_read m i 1; m1 \<leftarrow> mem_write m j b; f m1 }) = f (m[j := m ! i])"
  using arg_cong [OF move_byte [OF assms], of "\<lambda>x. Option.bind x f"] by simp

text \<open>Moving \<open>n\<close> bytes down, lowest first, and up, highest first.\<close>

lemma compact_loop_moves:
  assumes "dst \<le> src" and "src + k + n \<le> length m"
  shows "compact_loop [k..<k + n] dst src m =
     Some (take (dst + k) m @ take n (drop (src + k) m) @ drop (dst + k + n) m)"
  using assms
proof (induction n arbitrary: k m)
  case 0
  then show ?case by simp
next
  case (Suc n)
  define m1 where "m1 = m[dst + k := m ! (src + k)]"
  have "[k..<k + Suc n] = k # [Suc k..<Suc k + n]" by (simp add: upt_conv_Cons)
  moreover have "compact_loop (k # is) dst src m = compact_loop is dst src m1" for "is"
    using Suc.prems move_byte_bind [of "src + k" m "dst + k" "compact_loop is dst src"] by (simp add: m1_def)
  moreover have "compact_loop [Suc k..<Suc k + n] dst src m1 =
      Some (take (dst + Suc k) m1 @ take n (drop (src + Suc k) m1) @ drop (dst + Suc k + n) m1)"
    using Suc.prems by (intro Suc.IH) (simp_all add: m1_def)
  moreover have "take (dst + Suc k) m1 = take (dst + k) m @ [m ! (src + k)]"
    using Suc.prems by (simp add: m1_def take_Suc_conv_app_nth)
  moreover have "drop (src + Suc k) m1 = drop (src + Suc k) m" "drop (dst + Suc k + n) m1 = drop (dst + Suc k + n) m"
    using Suc.prems by (simp_all add: m1_def)
  moreover have "take (Suc n) (drop (src + k) m) = m ! (src + k) # take n (drop (src + Suc k) m)"
    using Suc.prems by (simp add: Cons_nth_drop_Suc [symmetric])
  ultimately show ?case by simp
qed

lemma shift_loop_moves:
  assumes "sz + n \<le> length m"
  shows "shift_loop (rev [0..<n]) sz m = Some (take sz m @ take n m @ drop (sz + n) m)"
  using assms
proof (induction n arbitrary: m)
  case 0
  then show ?case by simp
next
  case (Suc n)
  define m1 where "m1 = m[n + sz := m ! n]"
  have "shift_loop (rev [0..<Suc n]) sz m = shift_loop (rev [0..<n]) sz m1"
    using Suc.prems move_byte_bind [of n m "n + sz" "shift_loop (rev [0..<n]) sz"] by (simp add: m1_def)
  also have "\<dots> = Some (take sz m1 @ take n m1 @ drop (sz + n) m1)"
    using Suc.prems by (intro Suc.IH) (simp add: m1_def)
  also have "take sz m1 = take sz m" by (simp add: m1_def)
  also have "take n m1 = take n m" by (simp add: m1_def)
  also have "drop (sz + n) m1 = m ! n # drop (sz + Suc n) m"
    using Suc.prems by (simp add: m1_def add.commute drop_update_swap Cons_nth_drop_Suc [symmetric])
  also have "take n m @ m ! n # drop (sz + Suc n) m = take (Suc n) m @ drop (sz + Suc n) m"
    using Suc.prems by (simp add: take_Suc_conv_app_nth)
  finally show ?case by simp
qed

subsection \<open>Refinement\<close>

lemma copyfrom_abs:
  assumes "pb_wf s" and "unat len \<le> length from"
  shows "\<exists>s' l. packetbuf_copyfrom from len s = Some (s', l) \<and> pb_wf s' \<and> pb_header s' = [] \<and>
     pb_payload s' = take (min PACKETBUF_SIZE (unat len)) from \<and> l = buflen s' \<and>
     packetbuf_attrs s' = (\<lambda>_. 0) \<and> packetbuf_addrs s' = (\<lambda>_. linkaddr_null)"
proof -
  define l where "l = min (of_nat PACKETBUF_SIZE) len"
  have l: "unat l = min PACKETBUF_SIZE (unat len)" "unat l \<le> 128"
    by (auto simp: l_def min_def PACKETBUF_SIZE_def word_le_nat_alt)
  then have le: "unat l \<le> length from" using assms(2) by simp
  define m where "m = take (unat l) from @ drop (unat l) (packetbuf s)"
  define s' where "s' = (packetbuf_clear s)\<lparr>packetbuf := m, buflen := l\<rparr>"
  have "packetbuf_copyfrom from len s = Some (s', l)"
    using assms(1) le l(2) unfolding packetbuf_copyfrom_def l_def [symmetric]
    by (simp add: mem_read_def mem_write_def s'_def m_def packetbuf_clear_def packetbuf_attr_clear_def pb_wf_def
        PACKETBUF_SIZE_def)
  moreover have "pb_wf s'" "pb_header s' = []" "pb_payload s' = take (unat l) from"
    using assms(1) le l(2)
    by (simp_all add: pb_wf_def s'_def m_def packetbuf_clear_def packetbuf_attr_clear_def pb_header_def pb_payload_def
        PACKETBUF_SIZE_def)
  ultimately show ?thesis using l(1)
    by (auto simp: s'_def packetbuf_clear_def packetbuf_attr_clear_def)
qed

lemma copyto_abs:
  assumes "pb_wf s" and "length dst = PACKETBUF_SIZE"
  shows "\<exists>d. packetbuf_copyto dst s = Some (d, ucast (hdrlen s) + buflen s) \<and> length d = PACKETBUF_SIZE \<and>
     take (unat (hdrlen s) + unat (buflen s)) d = pb_header s @ pb_payload s"
proof -
  note b = wf_bounds [OF assms(1)]
  have L: "length (packetbuf s) = 128" using assms(1) by (simp add: pb_wf_def PACKETBUF_SIZE_def)
  have h: "mem_read (packetbuf s) 0 (unat (hdrlen s)) = Some (pb_header s)"
    using b L by (simp add: mem_read_def pb_header_def)
  have p: "mem_read (packetbuf s) (packetbuf_dataptr s) (unat (buflen s)) = Some (pb_payload s)"
    using b L hdrlen_exact [OF assms(1)] by (simp add: mem_read_def pb_payload_def packetbuf_dataptr_def)
  define d1 where "d1 = pb_header s @ drop (unat (hdrlen s)) dst"
  have d1: "mem_write dst 0 (pb_header s) = Some d1" "length d1 = 128" "take (unat (hdrlen s)) d1 = pb_header s"
    using b assms(2) header_length [OF assms(1)] by (simp_all add: mem_write_def d1_def PACKETBUF_SIZE_def)
  define d where "d = pb_header s @ pb_payload s @ drop (unat (hdrlen s) + unat (buflen s)) d1"
  have "mem_write d1 (unat (hdrlen s)) (pb_payload s) = Some d"
    using b d1 payload_length [OF assms(1)] by (simp add: mem_write_def d_def)
  moreover have "\<not> unat (hdrlen s) + unat (buflen s) > PACKETBUF_SIZE" using b by (simp add: PACKETBUF_SIZE_def)
  ultimately have "packetbuf_copyto dst s = Some (d, ucast (hdrlen s) + buflen s)"
    unfolding packetbuf_copyto_def by (simp only: if_False h d1(1) p Option.bind.simps)
  moreover have "length d = PACKETBUF_SIZE"
    using b d1(2) header_length [OF assms(1)] payload_length [OF assms(1)] by (simp add: d_def PACKETBUF_SIZE_def)
  moreover have "take (unat (hdrlen s) + unat (buflen s)) d = pb_header s @ pb_payload s"
    using header_length [OF assms(1)] payload_length [OF assms(1)] by (simp add: d_def)
  ultimately show ?thesis by blast
qed

lemma compact_abs:
  assumes "pb_wf s"
  shows "\<exists>s'. packetbuf_compact s = Some s' \<and> pb_wf s' \<and> bufptr s' = 0 \<and> pb_header s' = pb_header s \<and>
     pb_payload s' = pb_payload s \<and> packetbuf_attrs s' = packetbuf_attrs s \<and> packetbuf_addrs s' = packetbuf_addrs s"
proof (cases "bufptr s = 0")
  case True
  then show ?thesis using assms by (simp add: packetbuf_compact_def)
next
  case False
  note b = wf_bounds [OF assms]
  have L: "length (packetbuf s) = 128" using assms by (simp add: pb_wf_def PACKETBUF_SIZE_def)
  define h p n where "h = unat (hdrlen s)" and "p = unat (bufptr s)" and "n = unat (buflen s)"
  define m where "m = take h (packetbuf s) @ take n (drop (h + p) (packetbuf s)) @ drop (h + n) (packetbuf s)"
  have "compact_loop [0..<0 + n] h (h + p) (packetbuf s) =
      Some (take (h + 0) (packetbuf s) @ take n (drop (h + p + 0) (packetbuf s)) @ drop (h + 0 + n) (packetbuf s))"
    using b L by (intro compact_loop_moves) (simp_all add: h_def p_def n_def)
  then have "packetbuf_compact s = Some (s\<lparr>packetbuf := m, bufptr := 0\<rparr>)"
    using False hdrlen_exact [OF assms] by (simp add: packetbuf_compact_def h_def p_def n_def m_def)
  moreover have "length m = 128" "take h m = take h (packetbuf s)"
    "take n (drop h m) = take n (drop (h + p) (packetbuf s))"
    using b L by (simp_all add: m_def h_def p_def n_def)
  ultimately show ?thesis using b
    by (simp add: pb_wf_def pb_header_def pb_payload_def PACKETBUF_SIZE_def h_def p_def n_def)
qed

lemma hdralloc_abs:
  assumes "pb_wf s"
  shows "\<exists>s' ok. packetbuf_hdralloc n s = Some (s', ok) \<and> pb_wf s' \<and> pb_payload s' = pb_payload s \<and>
     (ok \<longleftrightarrow> n + unat (hdrlen s) + unat (bufptr s) + unat (buflen s) \<le> PACKETBUF_SIZE) \<and>
     (if ok then drop n (pb_header s') = pb_header s \<and> length (pb_header s') = n + length (pb_header s) else s' = s) \<and>
     packetbuf_attrs s' = packetbuf_attrs s \<and> packetbuf_addrs s' = packetbuf_addrs s"
proof (cases "n + unat (packetbuf_totlen s) > PACKETBUF_SIZE")
  case True
  then show ?thesis using assms totlen_exact [OF assms]
    by (intro exI [of _ s] exI [of _ False]) (simp add: packetbuf_hdralloc_def)
next
  case False
  note b = wf_bounds [OF assms]
  have L: "length (packetbuf s) = 128" using assms by (simp add: pb_wf_def PACKETBUF_SIZE_def)
  define t where "t = unat (packetbuf_totlen s)"
  have t: "t = unat (hdrlen s) + unat (bufptr s) + unat (buflen s)" "n + t \<le> 128"
    using totlen_exact [OF assms] False by (simp_all add: t_def PACKETBUF_SIZE_def)
  define m where "m = take n (packetbuf s) @ take t (packetbuf s) @ drop (n + t) (packetbuf s)"
  have "shift_loop (rev [0..<t]) n (packetbuf s) = Some m"
    using t(2) L by (simp add: shift_loop_moves m_def)
  then have e: "packetbuf_hdralloc n s = Some (s\<lparr>packetbuf := m, hdrlen := hdrlen s + of_nat n\<rparr>, True)"
    using False by (simp add: packetbuf_hdralloc_def t_def)
  have h: "unat (hdrlen s + of_nat n) = n + unat (hdrlen s)"
    using t by (simp add: unat_word_ariths unat_of_nat)
  have m: "length m = 128" "drop n m = take t (packetbuf s) @ drop (n + t) (packetbuf s)"
    "length (take n m) = n" using t(2) L by (simp_all add: m_def)
  have "take (unat (buflen s)) (drop (n + unat (hdrlen s) + unat (bufptr s)) m) = pb_payload s"
  proof -
    have "drop (n + unat (hdrlen s) + unat (bufptr s)) m = drop (unat (hdrlen s) + unat (bufptr s)) (drop n m)"
      by (simp add: ac_simps)
    then show ?thesis using t L by (simp add: m(2) pb_payload_def drop_take)
  qed
  moreover have "drop n (take (n + unat (hdrlen s)) m) = pb_header s"
    using t L by (simp add: drop_take m(2) pb_header_def)
  ultimately show ?thesis using e h m(1) t b L
    by (intro exI [of _ "s\<lparr>packetbuf := m, hdrlen := hdrlen s + of_nat n\<rparr>"] exI [of _ True])
      (simp add: pb_wf_def pb_header_def pb_payload_def PACKETBUF_SIZE_def)
qed

lemma hdrreduce_abs:
  assumes "pb_wf s"
  shows "pb_wf (fst (packetbuf_hdrreduce n s)) \<and> pb_header (fst (packetbuf_hdrreduce n s)) = pb_header s \<and>
     pb_payload (fst (packetbuf_hdrreduce n s)) =
       (if n \<le> length (pb_payload s) then drop n (pb_payload s) else pb_payload s) \<and>
     (snd (packetbuf_hdrreduce n s) \<longleftrightarrow> n \<le> length (pb_payload s))"
proof (cases "unat (buflen s) < n")
  case True
  then show ?thesis using assms payload_length [OF assms] by (simp add: packetbuf_hdrreduce_def)
next
  case False
  note b = wf_bounds [OF assms]
  have u: "unat (of_nat n :: u16) = n" using False b by (simp add: unat_of_nat)
  have "unat (bufptr s + of_nat n) = unat (bufptr s) + n" using False b by (simp add: unat_word_ariths unat_of_nat)
  moreover have "unat (buflen s - of_nat n) = unat (buflen s) - n"
    using False unat_sub [of "of_nat n" "buflen s"] by (simp add: word_le_nat_alt u)
  ultimately show ?thesis using False b assms payload_length [OF assms]
    by (simp add: packetbuf_hdrreduce_def pb_wf_def pb_header_def pb_payload_def PACKETBUF_SIZE_def drop_take ac_simps)
qed

subsection \<open>Properties\<close>

text \<open>C20. The packet buffer implements a packet of a header and a payload. Making room for a header of \<open>n\<close> bytes
  succeeds exactly when everything still fits and then puts \<open>n\<close> bytes in front of the old header;
  consuming \<open>n\<close> bytes of the payload succeeds exactly when it has them; compacting changes neither
  part; and what is copied out is the header followed by the payload, whatever has been consumed and
  however often the data was moved. Nothing is read or written outside the buffer.\<close>

theorem packetbuf_refines:
  assumes "pb_wf s" and "length dst = PACKETBUF_SIZE"
  shows "\<exists>s' ok s'' d. packetbuf_hdralloc n s = Some (s', ok) \<and>
     (ok \<longleftrightarrow> n + unat (hdrlen s) + unat (bufptr s) + unat (buflen s) \<le> PACKETBUF_SIZE) \<and>
     pb_payload s' = pb_payload s \<and> (ok \<longrightarrow> drop n (pb_header s') = pb_header s) \<and> (\<not> ok \<longrightarrow> s' = s) \<and>
     packetbuf_compact (fst (packetbuf_hdrreduce k s')) = Some s'' \<and> pb_wf s'' \<and> bufptr s'' = 0 \<and>
     pb_header s'' = pb_header s' \<and>
     pb_payload s'' = (if k \<le> length (pb_payload s) then drop k (pb_payload s) else pb_payload s) \<and>
     packetbuf_copyto dst s'' = Some (d, ucast (hdrlen s'') + buflen s'') \<and>
     take (unat (hdrlen s'') + unat (buflen s'')) d = pb_header s'' @ pb_payload s''"
proof -
  from hdralloc_abs [OF assms(1), of n] obtain s' ok where 1: "packetbuf_hdralloc n s = Some (s', ok)" "pb_wf s'"
      "pb_payload s' = pb_payload s" "ok \<longleftrightarrow> n + unat (hdrlen s) + unat (bufptr s) + unat (buflen s) \<le> PACKETBUF_SIZE"
      "ok \<longrightarrow> drop n (pb_header s') = pb_header s" "\<not> ok \<longrightarrow> s' = s" by (metis (full_types))
  note 2 = hdrreduce_abs [OF 1(2), of k]
  from compact_abs [of "fst (packetbuf_hdrreduce k s')"] 2 obtain s'' where
    3: "packetbuf_compact (fst (packetbuf_hdrreduce k s')) = Some s''" "pb_wf s''" "bufptr s'' = 0"
      "pb_header s'' = pb_header (fst (packetbuf_hdrreduce k s'))"
      "pb_payload s'' = pb_payload (fst (packetbuf_hdrreduce k s'))" by blast
  from copyto_abs [OF 3(2) assms(2)] 1 2 3 show ?thesis by (intro exI [of _ s'] exI [of _ ok] exI [of _ s'']) auto
qed

definition pb_demo :: pb_state where
  "pb_demo = \<lparr>packetbuf = [1, 2, 3] @ replicate 125 0, buflen = 3, bufptr = 0, hdrlen = 0, packetbuf_attrs = (\<lambda>_. 0),
     packetbuf_addrs = (\<lambda>_. linkaddr_null)\<rparr>"

theorem packetbuf_refines_witness:
  "\<exists>s' s''. packetbuf_hdralloc 2 pb_demo = Some (s', True) \<and>
     packetbuf_compact (fst (packetbuf_hdrreduce 1 s')) = Some s'' \<and> pb_payload s'' = [2, 3]"
  using packetbuf_refines [of pb_demo "replicate 128 0" 2 1]
  by (auto simp: pb_wf_def pb_demo_def PACKETBUF_SIZE_def pb_payload_def)

end
