(* ===== verification/Queuebuf.thy ===== *)
theory Queuebuf
  imports Packetbuf Ds6Tables
begin

text \<open>
  The queue buffers of \<open>core/net/queuebuf.c\<close>, which keep frames while they wait: handles from the pool
  \<open>bufmem\<close>, each with a data block from the pool \<open>buframmem\<close> (nothing is swapped to a file in the
  configuration). The invariant says that both pools are in step and no block is lost; a frame put into a
  queue buffer comes back as it was.
\<close>

definition QUEUEBUF_NUM :: nat where "QUEUEBUF_NUM = 16"

record qb_data =
  qd_data :: "u8 list"
  qd_len :: u16
  qd_attrs :: "pb_attr \<Rightarrow> u16"
  qd_addrs :: "pb_addr \<Rightarrow> linkaddr"

record qb_state = pb_state +
  bufmem :: memb
  buframmem :: memb
  qb_ram_ptr :: "nat \<Rightarrow> ptr"
  qb_ram :: "nat \<Rightarrow> qb_data"

subsection \<open>Operations\<close>

definition queuebuf_init :: "'a qb_state_scheme \<Rightarrow> 'a qb_state_scheme" where
  "queuebuf_init s = s\<lparr>buframmem := memb_init (buframmem s), bufmem := memb_init (bufmem s)\<rparr>"

definition queuebuf_numfree :: "'a qb_state_scheme \<Rightarrow> nat" where
  "queuebuf_numfree s = memb_numfree (bufmem s)"

text \<open>\<open>packetbuf_copyto\<close> and \<open>packetbuf_attr_copyto\<close> into a data block.\<close>

definition packetbuf_store :: "'a pb_state_scheme \<Rightarrow> qb_data \<Rightarrow> qb_data option" where
  "packetbuf_store s d = do {
     (bs, n) \<leftarrow> packetbuf_copyto (qd_data d) s;
     Some (d\<lparr>qd_data := bs, qd_len := n, qd_attrs := packetbuf_attrs s, qd_addrs := packetbuf_addrs s\<rparr>)
   }"

definition queuebuf_new_from_packetbuf :: "'a qb_state_scheme \<Rightarrow> ('a qb_state_scheme \<times> ptr) option" where
  "queuebuf_new_from_packetbuf s = (case memb_alloc (bufmem s) of
     (m, None) \<Rightarrow> Some (s\<lparr>bufmem := m\<rparr>, None)
   | (m, Some b) \<Rightarrow> (case memb_alloc (buframmem s) of
       (m2, None) \<Rightarrow> Some (s\<lparr>bufmem := fst (memb_free m b), buframmem := m2,
                             qb_ram_ptr := (qb_ram_ptr s)(b := None)\<rparr>, None)
     | (m2, Some r) \<Rightarrow> do {
         d \<leftarrow> packetbuf_store s (qb_ram s r);
         Some (s\<lparr>bufmem := m, buframmem := m2, qb_ram_ptr := (qb_ram_ptr s)(b := Some r),
                 qb_ram := (qb_ram s)(r := d)\<rparr>, Some b)
       }))"

definition queuebuf_update_attr_from_packetbuf :: "nat \<Rightarrow> 'a qb_state_scheme \<Rightarrow> 'a qb_state_scheme option" where
  "queuebuf_update_attr_from_packetbuf b s = do {
     r \<leftarrow> qb_ram_ptr s b;
     Some (s\<lparr>qb_ram := (qb_ram s)(r := (qb_ram s r)\<lparr>qd_attrs := packetbuf_attrs s, qd_addrs := packetbuf_addrs s\<rparr>)\<rparr>)
   }"

definition queuebuf_update_from_packetbuf :: "nat \<Rightarrow> 'a qb_state_scheme \<Rightarrow> 'a qb_state_scheme option" where
  "queuebuf_update_from_packetbuf b s = do {
     r \<leftarrow> qb_ram_ptr s b;
     d \<leftarrow> packetbuf_store s (qb_ram s r);
     Some (s\<lparr>qb_ram := (qb_ram s)(r := d)\<rparr>)
   }"

definition queuebuf_free :: "ptr \<Rightarrow> 'a qb_state_scheme \<Rightarrow> 'a qb_state_scheme" where
  "queuebuf_free buf s = (case buf of
     None \<Rightarrow> s
   | Some b \<Rightarrow>
       if memb_inmemb (bufmem s) b
       then s\<lparr>buframmem := (case qb_ram_ptr s b of None \<Rightarrow> buframmem s | Some r \<Rightarrow> fst (memb_free (buframmem s) r)),
              bufmem := fst (memb_free (bufmem s) b)\<rparr>
       else s)"

definition queuebuf_to_packetbuf :: "ptr \<Rightarrow> 'a qb_state_scheme \<Rightarrow> 'a qb_state_scheme option" where
  "queuebuf_to_packetbuf buf s = (case buf of
     None \<Rightarrow> Some s
   | Some b \<Rightarrow>
       if memb_inmemb (bufmem s) b
       then do {
         r \<leftarrow> qb_ram_ptr s b;
         let d = qb_ram s r;
         (s1, l) \<leftarrow> packetbuf_copyfrom (qd_data d) (qd_len d) s;
         Some (s1\<lparr>packetbuf_attrs := qd_attrs d, packetbuf_addrs := qd_addrs d\<rparr>)
       }
       else Some s)"

definition queuebuf_dataptr :: "ptr \<Rightarrow> 'a qb_state_scheme \<Rightarrow> (u8 list option) option" where
  "queuebuf_dataptr buf s = (case buf of
     None \<Rightarrow> Some None
   | Some b \<Rightarrow> if memb_inmemb (bufmem s) b then do { r \<leftarrow> qb_ram_ptr s b; Some (Some (qd_data (qb_ram s r))) }
              else Some None)"

definition queuebuf_datalen :: "nat \<Rightarrow> 'a qb_state_scheme \<Rightarrow> u16 option" where
  "queuebuf_datalen b s = do { r \<leftarrow> qb_ram_ptr s b; Some (qd_len (qb_ram s r)) }"

definition queuebuf_addr :: "nat \<Rightarrow> pb_addr \<Rightarrow> 'a qb_state_scheme \<Rightarrow> linkaddr option" where
  "queuebuf_addr b t s = do { r \<leftarrow> qb_ram_ptr s b; Some (qd_addrs (qb_ram s r) t) }"

definition queuebuf_attr :: "nat \<Rightarrow> pb_attr \<Rightarrow> 'a qb_state_scheme \<Rightarrow> u16 option" where
  "queuebuf_attr b t s = do { r \<leftarrow> qb_ram_ptr s b; Some (qd_attrs (qb_ram s r) t) }"

subsection \<open>The invariant\<close>

definition qb_ok :: "qb_data \<Rightarrow> bool" where
  "qb_ok d \<longleftrightarrow> length (qd_data d) = PACKETBUF_SIZE \<and> unat (qd_len d) \<le> PACKETBUF_SIZE"

definition qb_wf :: "'a qb_state_scheme \<Rightarrow> bool" where
  "qb_wf s \<longleftrightarrow> unit_pool (bufmem s) \<and> unit_pool (buframmem s) \<and> mnum (bufmem s) = QUEUEBUF_NUM \<and>
     mnum (buframmem s) = QUEUEBUF_NUM \<and>
     (\<forall>b \<in> memb_used (bufmem s). qb_ram_ptr s b \<noteq> None) \<and>
     bij_betw (\<lambda>b. the (qb_ram_ptr s b)) (memb_used (bufmem s)) (memb_used (buframmem s)) \<and>
     (\<forall>r. length (qd_data (qb_ram s r)) = PACKETBUF_SIZE) \<and>
     (\<forall>r \<in> memb_used (buframmem s). unat (qd_len (qb_ram s r)) \<le> PACKETBUF_SIZE)"

text \<open>The frame a queue buffer holds.\<close>

definition qb_frame :: "'a qb_state_scheme \<Rightarrow> nat \<Rightarrow> u8 list \<times> (pb_attr \<Rightarrow> u16) \<times> (pb_addr \<Rightarrow> linkaddr)" where
  "qb_frame s b = (let d = qb_ram s (the (qb_ram_ptr s b)) in (take (unat (qd_len d)) (qd_data d), qd_attrs d, qd_addrs d))"

text \<open>What the packet buffer holds, as a frame.\<close>

definition pb_frame :: "'a pb_state_scheme \<Rightarrow> u8 list \<times> (pb_attr \<Rightarrow> u16) \<times> (pb_addr \<Rightarrow> linkaddr)" where
  "pb_frame s = (pb_header s @ pb_payload s, packetbuf_attrs s, packetbuf_addrs s)"

lemma unit_pool_bound: "unit_pool m \<Longrightarrow> p \<in> memb_used m \<Longrightarrow> p < mnum m"
  by (auto simp: unit_pool_def memb_used_def)

lemma unit_pool_inmemb: "unit_pool m \<Longrightarrow> p < mnum m \<Longrightarrow> memb_inmemb m p"
  by (simp add: unit_pool_def memb_inmemb_def)

lemma qb_cards: "qb_wf s \<Longrightarrow> card (memb_used (buframmem s)) = card (memb_used (bufmem s))"
  using bij_betw_same_card by (fastforce simp: qb_wf_def)

lemma alloc_None_full: "unit_pool m \<Longrightarrow> memb_alloc m = (m', None) \<Longrightarrow> m' = m \<and> card (memb_used m) = mnum m"
  using alloc_full [of m m'] card_blocks [of m] by (simp add: unit_pool_def)

lemma used_le: "unit_pool m \<Longrightarrow> card (memb_used m) \<le> mnum m"
  using mpool.used_bound [of m] card_blocks [of m] by (simp add: unit_pool_def)

text \<open>A new queue buffer: there is one as long as fewer than \<open>QUEUEBUF_NUM\<close> are in use, its data block never
  fails, and it holds the frame of the packet buffer.\<close>

lemma new_queuebuf:
  assumes "qb_wf s" and "pb_wf s"
  shows "\<exists>s' p. queuebuf_new_from_packetbuf s = Some (s', p) \<and> qb_wf s' \<and> pb_wf s' \<and> pb_frame s' = pb_frame s \<and>
     (p = None \<longleftrightarrow> card (memb_used (bufmem s)) = QUEUEBUF_NUM) \<and>
     (case p of None \<Rightarrow> s' = s
      | Some b \<Rightarrow> memb_used (bufmem s') = insert b (memb_used (bufmem s)) \<and> b \<notin> memb_used (bufmem s) \<and>
          qb_frame s' b = pb_frame s \<and> (\<forall>c \<in> memb_used (bufmem s). qb_frame s' c = qb_frame s c))"
proof (cases "snd (memb_alloc (bufmem s))")
  case None
  then obtain m where m: "memb_alloc (bufmem s) = (m, None)" by (cases "memb_alloc (bufmem s)") simp
  from alloc_None_full [OF _ m] assms(1) have "m = bufmem s" "card (memb_used (bufmem s)) = QUEUEBUF_NUM"
    by (simp_all add: qb_wf_def)
  then show ?thesis using m assms by (simp add: queuebuf_new_from_packetbuf_def)
next
  case (Some b)
  then obtain m where m: "memb_alloc (bufmem s) = (m, Some b)" by (cases "memb_alloc (bufmem s)") simp
  have up: "unit_pool (bufmem s)" "unit_pool (buframmem s)" "mnum (bufmem s) = QUEUEBUF_NUM" "mnum (buframmem s) = QUEUEBUF_NUM"
    using assms(1) by (simp_all add: qb_wf_def)
  note B = unit_pool_alloc [OF up(1) m]
  have c: "card (memb_used (bufmem s)) < QUEUEBUF_NUM"
    using B used_le [of m] up(3) by (auto simp: card_insert_if)
  then obtain m2 r where m2: "memb_alloc (buframmem s) = (m2, Some r)"
    using unit_pool_room [OF up(2)] qb_cards [OF assms(1)] up(4) by auto
  note R = unit_pool_alloc [OF up(2) m2]
  have L: "length (qd_data (qb_ram s r)) = PACKETBUF_SIZE" using assms(1) by (simp add: qb_wf_def)
  obtain d where d: "packetbuf_copyto (qd_data (qb_ram s r)) s = Some (d, ucast (hdrlen s) + buflen s)"
    "length d = PACKETBUF_SIZE" "take (unat (hdrlen s) + unat (buflen s)) d = pb_header s @ pb_payload s"
    using copyto_abs [OF assms(2) L] by blast
  have n: "unat (ucast (hdrlen s) + buflen s) = unat (hdrlen s) + unat (buflen s)"
    using wf_bounds [OF assms(2)] by (simp add: unat_word_ariths unat_ucast_u16)
  define dd where "dd = (qb_ram s r)\<lparr>qd_data := d, qd_len := ucast (hdrlen s) + buflen s, qd_attrs := packetbuf_attrs s,
      qd_addrs := packetbuf_addrs s\<rparr>"
  define s' where "s' = s\<lparr>bufmem := m, buframmem := m2, qb_ram_ptr := (qb_ram_ptr s)(b := Some r),
      qb_ram := (qb_ram s)(r := dd)\<rparr>"
  have e: "queuebuf_new_from_packetbuf s = Some (s', Some b)"
    by (simp add: queuebuf_new_from_packetbuf_def m m2 packetbuf_store_def d(1) s'_def dd_def)
  have ram: "the (qb_ram_ptr s c) \<in> memb_used (buframmem s)" if "c \<in> memb_used (bufmem s)" for c
    using assms(1) that by (auto simp: qb_wf_def bij_betw_def)
  then have ne: "the (qb_ram_ptr s c) \<noteq> r" "c \<noteq> b" if "c \<in> memb_used (bufmem s)" for c using R B that by blast+
  have bij: "bij_betw (\<lambda>b. the (qb_ram_ptr s' b)) (memb_used (bufmem s')) (memb_used (buframmem s'))"
  proof -
    have "bij_betw (\<lambda>b. the (qb_ram_ptr s b)) (memb_used (bufmem s)) (memb_used (buframmem s))"
      using assms(1) by (simp add: qb_wf_def)
    then have "bij_betw (\<lambda>b. the (qb_ram_ptr s' b)) (memb_used (bufmem s)) (memb_used (buframmem s))"
      by (rule bij_betw_cong [THEN iffD1, rotated]) (auto simp: s'_def ne)
    from notIn_Un_bij_betw [OF _ _ this, of b] show ?thesis
      using B R by (simp add: s'_def)
  qed
  have "qb_wf s'" using assms(1) B R L d(2) n wf_bounds [OF assms(2)] bij
    by (auto simp: qb_wf_def s'_def dd_def PACKETBUF_SIZE_def)
  moreover have "pb_wf s'" "pb_frame s' = pb_frame s"
    using assms(2) by (simp_all add: s'_def pb_wf_def pb_frame_def pb_header_def pb_payload_def)
  moreover have "qb_frame s' b = pb_frame s" by (simp add: qb_frame_def s'_def dd_def n d(3) pb_frame_def)
  moreover have "\<forall>c \<in> memb_used (bufmem s). qb_frame s' c = qb_frame s c"
    using ne by (auto simp: qb_frame_def s'_def)
  ultimately show ?thesis using e B c by (intro exI [of _ s'] exI [of _ "Some b"]) (simp add: s'_def)
qed

lemma free_queuebuf:
  assumes "qb_wf s" and "b \<in> memb_used (bufmem s)"
  shows "qb_wf (queuebuf_free (Some b) s) \<and> memb_used (bufmem (queuebuf_free (Some b) s)) = memb_used (bufmem s) - {b} \<and>
     (\<forall>c. qb_frame (queuebuf_free (Some b) s) c = qb_frame s c)"
proof -
  have up: "unit_pool (bufmem s)" "unit_pool (buframmem s)" "mnum (bufmem s) = QUEUEBUF_NUM" "mnum (buframmem s) = QUEUEBUF_NUM"
    and bij: "bij_betw (\<lambda>b. the (qb_ram_ptr s b)) (memb_used (bufmem s)) (memb_used (buframmem s))"
    using assms(1) by (simp_all add: qb_wf_def)
  obtain r where r: "qb_ram_ptr s b = Some r" using assms by (auto simp: qb_wf_def)
  then have ru: "r \<in> memb_used (buframmem s)" using bij assms(2) by (force simp: bij_betw_def)
  have e: "queuebuf_free (Some b) s = s\<lparr>buframmem := fst (memb_free (buframmem s) r), bufmem := fst (memb_free (bufmem s) b)\<rparr>"
    using unit_pool_inmemb [OF up(1) unit_pool_bound [OF up(1) assms(2)]] r by (simp add: queuebuf_free_def)
  have "bij_betw (\<lambda>b. the (qb_ram_ptr s b)) (memb_used (bufmem s) - {b}) (memb_used (buframmem s) - {r})"
    using bij_betw_DiffI [OF bij, of "{b}" "{r}"] assms(2) ru r by simp
  then show ?thesis using assms unit_pool_free [OF up(1) assms(2)] unit_pool_free [OF up(2) ru]
    by (auto simp: e qb_wf_def qb_frame_def)
qed

lemma load_queuebuf:
  assumes "qb_wf s" and "pb_wf s" and "b \<in> memb_used (bufmem s)"
  shows "\<exists>s'. queuebuf_to_packetbuf (Some b) s = Some s' \<and> qb_wf s' \<and> pb_wf s' \<and> pb_frame s' = qb_frame s b \<and>
     pb_header s' = [] \<and> bufmem s' = bufmem s \<and> (\<forall>c. qb_frame s' c = qb_frame s c) \<and>
     (\<exists>m l. s' = s\<lparr>packetbuf := m, buflen := l, bufptr := 0, hdrlen := 0, packetbuf_attrs := fst (snd (qb_frame s b)),
        packetbuf_addrs := snd (snd (qb_frame s b))\<rparr>)"
proof -
  have up: "unit_pool (bufmem s)" and bij: "bij_betw (\<lambda>b. the (qb_ram_ptr s b)) (memb_used (bufmem s)) (memb_used (buframmem s))"
    using assms(1) by (simp_all add: qb_wf_def)
  obtain r where r: "qb_ram_ptr s b = Some r" using assms by (auto simp: qb_wf_def)
  then have ru: "r \<in> memb_used (buframmem s)" using bij assms(3) by (force simp: bij_betw_def)
  have L: "length (qd_data (qb_ram s r)) = PACKETBUF_SIZE" "unat (qd_len (qb_ram s r)) \<le> PACKETBUF_SIZE"
    using assms(1) ru by (simp_all add: qb_wf_def)
  define l where "l = min (of_nat PACKETBUF_SIZE) (qd_len (qb_ram s r))"
  have l: "l = qd_len (qb_ram s r)"
    using L(2) by (auto simp: l_def min_def PACKETBUF_SIZE_def word_le_nat_alt word_unat_eq_iff)
  define m where "m = take (unat l) (qd_data (qb_ram s r)) @ drop (unat l) (packetbuf s)"
  define s' where "s' = s\<lparr>packetbuf := m, buflen := l, bufptr := 0, hdrlen := 0, packetbuf_attrs := qd_attrs (qb_ram s r),
        packetbuf_addrs := qd_addrs (qb_ram s r)\<rparr>"
  have pl: "length (packetbuf s) = PACKETBUF_SIZE" using assms(2) by (simp add: pb_wf_def)
  have "queuebuf_to_packetbuf (Some b) s = Some s'"
    using unit_pool_inmemb [OF up unit_pool_bound [OF up assms(3)]] r L l pl
    by (simp add: queuebuf_to_packetbuf_def packetbuf_copyfrom_def l_def [symmetric] mem_read_def mem_write_def
        packetbuf_clear_def packetbuf_attr_clear_def s'_def m_def Let_def)
  moreover have "pb_wf s'" "pb_header s' = []" "pb_payload s' = take (unat l) (qd_data (qb_ram s r))"
    using pl L l by (simp_all add: s'_def m_def pb_wf_def pb_header_def pb_payload_def)
  moreover have "qb_wf s'" "bufmem s' = bufmem s" "\<forall>c. qb_frame s' c = qb_frame s c"
    using assms(1) by (simp_all add: s'_def qb_wf_def qb_frame_def)
  moreover have f: "qb_frame s b = (take (unat l) (qd_data (qb_ram s r)), qd_attrs (qb_ram s r), qd_addrs (qb_ram s r))"
    by (simp add: qb_frame_def Let_def r l)
  ultimately show ?thesis by (intro exI [of _ s']) (auto simp: pb_frame_def f s'_def)
qed

subsection \<open>Properties\<close>

text \<open>C21. A frame put into a queue buffer comes back as it was: whatever the layers do to the packet buffer in
  between, loading the queue buffer restores the bytes (header and payload, now without a header in
  front), the attributes and the addresses; storing it does not change any other queue buffer, and
  freeing it leaves exactly the others in use, so no block of either pool is lost.\<close>

theorem queuebuf_roundtrip:
  assumes "qb_wf s" and "pb_wf s" and "card (memb_used (bufmem s)) < QUEUEBUF_NUM"
  shows "\<exists>s1 b. queuebuf_new_from_packetbuf s = Some (s1, Some b) \<and> b \<notin> memb_used (bufmem s) \<and>
     (\<forall>c \<in> memb_used (bufmem s). qb_frame s1 c = qb_frame s c) \<and>
     (\<forall>m l p h a r. pb_wf (s1\<lparr>packetbuf := m, buflen := l, bufptr := p, hdrlen := h, packetbuf_attrs := a, packetbuf_addrs := r\<rparr>) \<longrightarrow>
        (\<exists>s2. queuebuf_to_packetbuf (Some b)
            (s1\<lparr>packetbuf := m, buflen := l, bufptr := p, hdrlen := h, packetbuf_attrs := a, packetbuf_addrs := r\<rparr>) = Some s2 \<and>
          pb_frame s2 = pb_frame s \<and> pb_header s2 = [] \<and> qb_wf (queuebuf_free (Some b) s2) \<and>
          memb_used (bufmem (queuebuf_free (Some b) s2)) = memb_used (bufmem s)))"
proof -
  from new_queuebuf [OF assms(1,2)] assms(3) obtain s1 b where
    1: "queuebuf_new_from_packetbuf s = Some (s1, Some b)" "qb_wf s1"
      "memb_used (bufmem s1) = insert b (memb_used (bufmem s))" "b \<notin> memb_used (bufmem s)"
      "qb_frame s1 b = pb_frame s" "\<forall>c \<in> memb_used (bufmem s). qb_frame s1 c = qb_frame s c"
    by (auto split: option.splits)
  have "\<exists>s2. queuebuf_to_packetbuf (Some b) t = Some s2 \<and> pb_frame s2 = pb_frame s \<and> pb_header s2 = [] \<and>
      qb_wf (queuebuf_free (Some b) s2) \<and> memb_used (bufmem (queuebuf_free (Some b) s2)) = memb_used (bufmem s)"
    if t: "t = s1\<lparr>packetbuf := m, buflen := l, bufptr := p, hdrlen := h, packetbuf_attrs := a, packetbuf_addrs := r\<rparr>"
      and w: "pb_wf t" for t m l p h a r
  proof -
    have "qb_wf t" "bufmem t = bufmem s1" "qb_frame t b = pb_frame s"
      using 1(2,5) by (simp_all add: t qb_wf_def qb_frame_def)
    with load_queuebuf [OF this(1) w, of b] 1(3) obtain s2 where
      s2: "queuebuf_to_packetbuf (Some b) t = Some s2" "qb_wf s2" "pb_frame s2 = pb_frame s" "pb_header s2 = []"
        "bufmem s2 = bufmem s1" by auto
    with free_queuebuf [OF s2(2), of b] 1(3,4) show ?thesis by auto
  qed
  then show ?thesis using 1 by blast
qed

definition qb_demo :: qb_state where
  "qb_demo = pb_state.extend pb_demo \<lparr>bufmem = fresh_memb 16, buframmem = fresh_memb 16, qb_ram_ptr = (\<lambda>_. None),
     qb_ram = (\<lambda>_. \<lparr>qd_data = replicate 128 0, qd_len = 0, qd_attrs = (\<lambda>_. 0), qd_addrs = (\<lambda>_. linkaddr_null)\<rparr>)\<rparr>"

lemma qb_demo_wf: "qb_wf qb_demo" "pb_wf qb_demo" "memb_used (bufmem qb_demo) = {}" "pb_payload qb_demo = [1, 2, 3]"
  by (auto simp: inj_on_def qb_demo_def qb_wf_def pb_demo_def pb_state.defs unit_pool_def memb_wf_def fresh_memb_def memb_used_def
      QUEUEBUF_NUM_def PACKETBUF_SIZE_def pb_wf_def pb_payload_def bij_betw_def)

theorem queuebuf_roundtrip_witness:
  "\<exists>s1 b. queuebuf_new_from_packetbuf qb_demo = Some (s1, Some b) \<and> b \<notin> memb_used (bufmem qb_demo)"
  using queuebuf_roundtrip [OF qb_demo_wf(1,2)] by (auto simp: qb_demo_wf QUEUEBUF_NUM_def)

end
