(* ===== verification/Csma.thy ===== *)
theory Csma
  imports Queuebuf RplNode
begin

text \<open>
  The CSMA layer of \<open>core/net/mac/csma.c\<close>: one queue of frames per neighbour, the backoff before a
  transmission, retransmissions and the report of the outcome to the sender of the frame. Frames live in
  queue buffers; the queues, the packets and their metadata come from block pools. The state holds the
  rest of the node (\<open>mac_node\<close>), whose radio the layer selects, whose random numbers it takes and to whose
  neighbour cache the callback \<open>packet_sent\<close> of \<open>core/net/ipv6/sicslowpan.c\<close> reports the outcome.

  The radio duty cycling below (\<open>core/net/mac/dualmac/dualmac.c\<close>) gets a frame by \<open>qsend_list\<close> and answers
  by a call of \<open>packet_sent\<close>: the frame handed down is an entry of the trace \<open>mac_log\<close>, the answer an event
  with any status and any contents of the packet buffer.
\<close>

unbundle bit_operations_syntax

definition CSMA_MIN_BE :: u8 where "CSMA_MIN_BE = 0"
definition CSMA_MAX_BE :: u8 where "CSMA_MAX_BE = 4"
definition CSMA_MAX_BACKOFF :: u8 where "CSMA_MAX_BACKOFF = 5"
definition CSMA_MAX_MAX_FRAME_RETRIES :: u8 where "CSMA_MAX_MAX_FRAME_RETRIES = 7"
definition CSMA_MAX_NEIGHBOR_QUEUES :: nat where "CSMA_MAX_NEIGHBOR_QUEUES = 5"
definition CSMA_MAX_PACKET_PER_NEIGHBOR :: nat where "CSMA_MAX_PACKET_PER_NEIGHBOR = QUEUEBUF_NUM"
definition MAC_TX_COLLISION :: int where "MAC_TX_COLLISION = 1"
definition MAC_TX_DEFERRED :: int where "MAC_TX_DEFERRED = 3"
definition MAC_TX_ERR :: int where "MAC_TX_ERR = 4"

lemmas csma_consts = CSMA_MIN_BE_def CSMA_MAX_BE_def CSMA_MAX_BACKOFF_def CSMA_MAX_MAX_FRAME_RETRIES_def
  CSMA_MAX_NEIGHBOR_QUEUES_def CSMA_MAX_PACKET_PER_NEIGHBOR_def MAC_TX_COLLISION_def MAC_TX_DEFERRED_def
  MAC_TX_ERR_def MAC_TX_OK_def MAC_TX_NOACK_def

text \<open>The callback of the only layer that sends, \<open>packet_sent\<close> of \<open>sicslowpan.c\<close>.\<close>

datatype mac_callback = Sicslowpan_packet_sent

record qbuf_metadata =
  md_sent :: "mac_callback option"
  md_cptr :: ptr
  md_max_transmissions :: u8

record rdc_buf_list =
  rb_buf :: ptr
  rb_ptr :: ptr
  rb_radio :: u8

record neighbor_queue =
  nq_addr :: linkaddr
  nq_transmit_timer :: "u32 option"
  nq_transmissions :: u8
  nq_collisions :: u8
  nq_packets :: "nat list"

text \<open>What the layer does that others see: a frame handed to the radio duty cycling, an outcome reported.\<close>

datatype mac_event =
    RdcSend nat nat
  | SentCallback "mac_callback option" ptr int int

record csma_state = qb_state +
  neighbor_memb :: memb
  packet_memb :: memb
  metadata_memb :: memb
  neighbor_list :: "nat list"
  neighbors :: "nat \<Rightarrow> neighbor_queue"
  packets :: "nat \<Rightarrow> rdc_buf_list"
  metadata :: "nat \<Rightarrow> qbuf_metadata"
  csma_initialized :: bool
  seqno :: u16
  mac_node :: rpl_state
  mac_log :: "mac_event list"
  last_tx_status :: int

definition mod_queue :: "nat \<Rightarrow> (neighbor_queue \<Rightarrow> neighbor_queue) \<Rightarrow> csma_state \<Rightarrow> csma_state" where
  "mod_queue n f s = s\<lparr>neighbors := (neighbors s)(n := f (neighbors s n))\<rparr>"

definition mac_emit :: "mac_event \<Rightarrow> csma_state \<Rightarrow> csma_state" where
  "mac_emit e s = s\<lparr>mac_log := mac_log s @ [e]\<rparr>"

definition mac_rand :: "csma_state \<Rightarrow> u16 \<times> csma_state" where
  "mac_rand s = (case random_rand (mac_node s) of (r, nd) \<Rightarrow> (r, s\<lparr>mac_node := nd\<rparr>))"

subsection \<open>Scheduling a transmission\<close>

definition neighbor_queue_from_addr :: "linkaddr \<Rightarrow> csma_state \<Rightarrow> ptr" where
  "neighbor_queue_from_addr addr s = find (\<lambda>n. nq_addr (neighbors s n) = addr) (neighbor_list s)"

text \<open>\<open>channel_check_interval\<close> of \<open>dualmac.c\<close> for the Cooja platform: the period of on and off time in clock
  ticks.\<close>

definition RTIMER_ARCH_SECOND :: u32 where "RTIMER_ARCH_SECOND = 1000"
definition DEFAULT_ON_TIME :: u32 where "DEFAULT_ON_TIME = RTIMER_ARCH_SECOND div 160"
definition DEFAULT_OFF_TIME :: u32 where "DEFAULT_OFF_TIME = RTIMER_ARCH_SECOND div 8 - DEFAULT_ON_TIME"
definition DEFAULT_PERIOD :: u32 where "DEFAULT_PERIOD = DEFAULT_OFF_TIME + DEFAULT_ON_TIME"

definition channel_check_interval :: u16 where
  "channel_check_interval = ucast (1 * CLOCK_SECOND * DEFAULT_PERIOD div RTIMER_ARCH_SECOND)"

definition backoff_period :: u32 where
  "backoff_period = (let time = ucast channel_check_interval
                     in if time = 0 then max (CLOCK_SECOND div 3125) 1 else time)"

definition schedule_transmission :: "nat \<Rightarrow> csma_state \<Rightarrow> csma_state" where
  "schedule_transmission n s =
     (let backoff_exponent = min (nq_collisions (neighbors s n)) CSMA_MAX_BE;
          delay = (push_bit (unat backoff_exponent) 1 - 1) * backoff_period;
          (delay', s1) = (if delay > 0 then (case mac_rand s of (r, s1) \<Rightarrow> (ucast r mod delay, s1)) else (delay, s))
      in mod_queue n (\<lambda>x. x\<lparr>nq_transmit_timer := Some delay'\<rparr>) s1)"

text \<open>\<open>qsend_list\<close> of \<open>dualmac.c\<close> loads the first frame of the list into the packet buffer and sends it.\<close>

definition qsend_list :: "nat \<Rightarrow> ptr \<Rightarrow> csma_state \<Rightarrow> csma_state option" where
  "qsend_list n buf_list s = (case buf_list of
     None \<Rightarrow> Some s
   | Some q \<Rightarrow> do { s1 \<leftarrow> queuebuf_to_packetbuf (rb_buf (packets s q)) s; Some (mac_emit (RdcSend n q) s1) })"

definition transmit_packet_list :: "nat \<Rightarrow> csma_state \<Rightarrow> csma_state option" where
  "transmit_packet_list n s = (case nq_packets (neighbors s n) of
     [] \<Rightarrow> Some s
   | q # _ \<Rightarrow>
       let radio = uint (rb_radio (packets s q));
           s1 = (if radio = SHORT_RADIO then s\<lparr>mac_node := dual_radio_switch SHORT_RADIO (mac_node s)\<rparr>
                 else if radio = LONG_RADIO then s\<lparr>mac_node := dual_radio_switch LONG_RADIO (mac_node s)\<rparr>
                 else s)
       in qsend_list n (Some q) s1)"

subsection \<open>The end of a transmission\<close>

text \<open>\<open>packet_sent\<close> of \<open>sicslowpan.c\<close> (no sniffer is installed) and the call of it by \<open>mac.c\<close>.\<close>

definition sicslowpan_packet_sent :: "ptr \<Rightarrow> int \<Rightarrow> int \<Rightarrow> csma_state \<Rightarrow> csma_state option" where
  "sicslowpan_packet_sent p status transmissions s = do {
     nd \<leftarrow> uip_ds6_link_neighbor_callback rpl_link_neighbor_callback (packetbuf_addr PACKETBUF_ADDR_RECEIVER s)
             status transmissions (mac_node s);
     Some (s\<lparr>mac_node := nd, last_tx_status := status\<rparr>)
   }"

definition mac_call_sent_callback ::
  "mac_callback option \<Rightarrow> ptr \<Rightarrow> int \<Rightarrow> int \<Rightarrow> csma_state \<Rightarrow> csma_state option" where
  "mac_call_sent_callback sent p status num_tx s =
     (let s1 = mac_emit (SentCallback sent p status num_tx) s
      in case sent of
           None \<Rightarrow> Some s1
         | Some Sicslowpan_packet_sent \<Rightarrow> sicslowpan_packet_sent p status num_tx s1)"

definition drop_queue :: "nat \<Rightarrow> csma_state \<Rightarrow> csma_state" where
  "drop_queue n s = s\<lparr>neighbor_list := remove1 n (neighbor_list s), neighbor_memb := fst (memb_free (neighbor_memb s) n)\<rparr>"

definition free_packet :: "nat \<Rightarrow> nat \<Rightarrow> csma_state \<Rightarrow> csma_state" where
  "free_packet n p s =
     (let s1 = mod_queue n (\<lambda>x. x\<lparr>nq_packets := remove1 p (nq_packets x)\<rparr>) s;
          s2 = queuebuf_free (rb_buf (packets s1 p)) s1;
          s3 = s2\<lparr>metadata_memb := (case rb_ptr (packets s2 p) of None \<Rightarrow> metadata_memb s2
                                     | Some m \<Rightarrow> fst (memb_free (metadata_memb s2) m))\<rparr>;
          s4 = s3\<lparr>packet_memb := fst (memb_free (packet_memb s3) p)\<rparr>
      in if nq_packets (neighbors s4 n) \<noteq> []
         then schedule_transmission n
                (mod_queue n (\<lambda>x. x\<lparr>nq_transmissions := 0, nq_collisions := CSMA_MIN_BE\<rparr>) s4)
         else drop_queue n (mod_queue n (\<lambda>x. x\<lparr>nq_transmit_timer := None\<rparr>) s4))"

text \<open>The number of transmissions is read from the queue after the packet has been freed.\<close>

definition tx_done :: "int \<Rightarrow> nat \<Rightarrow> nat \<Rightarrow> csma_state \<Rightarrow> csma_state option" where
  "tx_done status q n s = do {
     m \<leftarrow> rb_ptr (packets s q);
     let sent = md_sent (metadata s m);
     let cptr = md_cptr (metadata s m);
     let s1 = free_packet n q s;
     mac_call_sent_callback sent cptr status (uint (nq_transmissions (neighbors s1 n))) s1
   }"

definition rexmit :: "nat \<Rightarrow> nat \<Rightarrow> csma_state \<Rightarrow> csma_state option" where
  "rexmit q n s = do {
     let s1 = schedule_transmission n s;
     b \<leftarrow> rb_buf (packets s1 q);
     queuebuf_update_attr_from_packetbuf b s1
   }"

definition collision :: "nat \<Rightarrow> nat \<Rightarrow> int \<Rightarrow> csma_state \<Rightarrow> csma_state option" where
  "collision q n num_transmissions s = do {
     m \<leftarrow> rb_ptr (packets s q);
     let s1 = mod_queue n (\<lambda>x. x\<lparr>nq_collisions := nq_collisions x + of_int num_transmissions\<rparr>) s;
     let s2 = (if nq_collisions (neighbors s1 n) > CSMA_MAX_BACKOFF
               then mod_queue n (\<lambda>x. x\<lparr>nq_collisions := CSMA_MIN_BE, nq_transmissions := nq_transmissions x + 1\<rparr>) s1
               else s1);
     if nq_transmissions (neighbors s2 n) \<ge> md_max_transmissions (metadata s2 m)
     then tx_done MAC_TX_COLLISION q n s2
     else rexmit q n s2
   }"

definition noack :: "nat \<Rightarrow> nat \<Rightarrow> int \<Rightarrow> csma_state \<Rightarrow> csma_state option" where
  "noack q n num_transmissions s = do {
     m \<leftarrow> rb_ptr (packets s q);
     let s1 = mod_queue n (\<lambda>x. x\<lparr>nq_collisions := CSMA_MIN_BE,
                nq_transmissions := nq_transmissions x + of_int num_transmissions\<rparr>) s;
     if nq_transmissions (neighbors s1 n) \<ge> md_max_transmissions (metadata s1 m)
     then tx_done MAC_TX_NOACK q n s1
     else rexmit q n s1
   }"

definition tx_ok :: "nat \<Rightarrow> nat \<Rightarrow> int \<Rightarrow> csma_state \<Rightarrow> csma_state option" where
  "tx_ok q n num_transmissions s =
     tx_done MAC_TX_OK q n (mod_queue n (\<lambda>x. x\<lparr>nq_collisions := CSMA_MIN_BE,
       nq_transmissions := nq_transmissions x + of_int num_transmissions\<rparr>) s)"

text \<open>The loop that finds the packet of the answer: the first one with the sequence number of the packet
  buffer. The outer \<open>None\<close> is a dereference of a null queue buffer.\<close>

fun seqno_loop :: "nat list \<Rightarrow> csma_state \<Rightarrow> ptr option" where
  "seqno_loop [] s = Some None"
| "seqno_loop (q # qs) s = do {
     b \<leftarrow> rb_buf (packets s q);
     a \<leftarrow> queuebuf_attr b PACKETBUF_ATTR_MAC_SEQNO s;
     if a = packetbuf_attr PACKETBUF_ATTR_MAC_SEQNO s then Some (Some q) else seqno_loop qs s
   }"

definition packet_sent :: "nat \<Rightarrow> int \<Rightarrow> int \<Rightarrow> csma_state \<Rightarrow> csma_state option" where
  "packet_sent n status num_transmissions s = do {
     p \<leftarrow> seqno_loop (nq_packets (neighbors s n)) s;
     case p of
       None \<Rightarrow> Some s
     | Some q \<Rightarrow>
         if rb_ptr (packets s q) = None then Some s
         else if status = MAC_TX_OK then tx_ok q n num_transmissions s
         else if status = MAC_TX_NOACK then noack q n num_transmissions s
         else if status = MAC_TX_COLLISION then collision q n num_transmissions s
         else if status = MAC_TX_DEFERRED then Some s
         else tx_done status q n s
   }"

subsection \<open>Sending\<close>

text \<open>The sequence number of the frame; zero is skipped.\<close>

definition next_seqno :: "csma_state \<Rightarrow> csma_state" where
  "next_seqno s =
     (let s1 = (if csma_initialized s then s
                else (case mac_rand s of (r, t) \<Rightarrow> t\<lparr>csma_initialized := True, seqno := r\<rparr>));
          s2 = (if seqno s1 = 0 then s1\<lparr>seqno := 1\<rparr> else s1)
      in (packetbuf_set_attr PACKETBUF_ATTR_MAC_SEQNO (seqno s2) s2)\<lparr>seqno := seqno s2 + 1\<rparr>)"

text \<open>The queue of the receiver, created when there is none.\<close>

definition get_queue :: "csma_state \<Rightarrow> csma_state \<times> ptr" where
  "get_queue s =
     (let addr = packetbuf_addr PACKETBUF_ADDR_RECEIVER s
      in case neighbor_queue_from_addr addr s of
           Some n \<Rightarrow> (s, Some n)
         | None \<Rightarrow> (case memb_alloc (neighbor_memb s) of
             (m, None) \<Rightarrow> (s\<lparr>neighbor_memb := m\<rparr>, None)
           | (m, Some n) \<Rightarrow>
               ((mod_queue n (\<lambda>x. x\<lparr>nq_addr := addr, nq_transmissions := 0, nq_collisions := CSMA_MIN_BE,
                   nq_packets := []\<rparr>) (s\<lparr>neighbor_memb := m\<rparr>))\<lparr>neighbor_list := neighbor_list s @ [n]\<rparr>, Some n)))"

text \<open>The packet with its metadata and its queue buffer; the boolean tells whether all could be allocated.\<close>

definition alloc_packet :: "mac_callback option \<Rightarrow> ptr \<Rightarrow> csma_state \<Rightarrow> (csma_state \<times> ptr) option" where
  "alloc_packet sent cptr s = (case memb_alloc (packet_memb s) of
     (pm, None) \<Rightarrow> Some (s\<lparr>packet_memb := pm\<rparr>, None)
   | (pm, Some q) \<Rightarrow> (case memb_alloc (metadata_memb s) of
       (mm, None) \<Rightarrow> Some (s\<lparr>packet_memb := fst (memb_free pm q), metadata_memb := mm,
                              packets := (packets s)(q := (packets s q)\<lparr>rb_ptr := None\<rparr>)\<rparr>, None)
     | (mm, Some m) \<Rightarrow> do {
         (s1, b) \<leftarrow> queuebuf_new_from_packetbuf (s\<lparr>packet_memb := pm, metadata_memb := mm\<rparr>);
         let s2 = s1\<lparr>packets := (packets s1)(q := (packets s1 q)\<lparr>rb_ptr := Some m, rb_buf := b\<rparr>)\<rparr>;
         Some (case b of
             None \<Rightarrow> (s2\<lparr>metadata_memb := fst (memb_free (metadata_memb s2) m),
                        packet_memb := fst (memb_free (packet_memb s2) q)\<rparr>, None)
           | Some _ \<Rightarrow>
               let attr = packetbuf_attr PACKETBUF_ATTR_MAX_MAC_TRANSMISSIONS s2;
                   mt = (if attr = 0 then CSMA_MAX_MAX_FRAME_RETRIES + 1 else ucast attr)
               in (s2\<lparr>metadata := (metadata s2)(m := \<lparr>md_sent = sent, md_cptr = cptr, md_max_transmissions = mt\<rparr>),
                      packets := (packets s2)(q := (packets s2 q)\<lparr>rb_radio := of_int (sending_in_LR (mac_node s2))\<rparr>)\<rparr>,
                   Some q))
       }))"

definition send_packet :: "mac_callback option \<Rightarrow> ptr \<Rightarrow> csma_state \<Rightarrow> csma_state option" where
  "send_packet sent p s = (case get_queue (next_seqno s) of
     (s1, None) \<Rightarrow> mac_call_sent_callback sent p MAC_TX_ERR 1 s1
   | (s1, Some n) \<Rightarrow>
       if length (nq_packets (neighbors s1 n)) < CSMA_MAX_PACKET_PER_NEIGHBOR
       then do {
         (s2, packet) \<leftarrow> alloc_packet sent p s1;
         case packet of
           Some q \<Rightarrow>
             let s3 = mod_queue n (\<lambda>x. x\<lparr>nq_packets := nq_packets x @ [q]\<rparr>) s2
             in Some (if first_of (nq_packets (neighbors s3 n)) = Some q then schedule_transmission n s3 else s3)
         | None \<Rightarrow>
             mac_call_sent_callback sent p MAC_TX_ERR 1
               (if nq_packets (neighbors s2 n) = [] then drop_queue n s2 else s2)
       }
       else mac_call_sent_callback sent p MAC_TX_ERR 1 s1)"

definition csma_init :: "csma_state \<Rightarrow> csma_state" where
  "csma_init s = s\<lparr>packet_memb := memb_init (packet_memb s), metadata_memb := memb_init (metadata_memb s),
     neighbor_memb := memb_init (neighbor_memb s)\<rparr>"

end
