(* ===== verification/CsmaInv.thy ===== *)
theory CsmaInv
  imports Csma
begin

text \<open>
  The invariant of the CSMA queues and its preservation by every operation: no queue, packet, metadata
  block or queue buffer is lost or used twice, whatever the layers above and below do and in whatever order.
\<close>

unbundle bit_operations_syntax

subsection \<open>The invariant\<close>

text \<open>The packets in a queue.\<close>

definition queued :: "csma_state \<Rightarrow> nat set" where
  "queued s = (\<Union>n \<in> set (neighbor_list s). set (nq_packets (neighbors s n)))"

text \<open>The part of the invariant about the queues; the queues of \<open>E\<close> may be empty.\<close>

definition csma_core :: "nat set \<Rightarrow> csma_state \<Rightarrow> bool" where
  "csma_core E s \<longleftrightarrow>
     unit_pool (neighbor_memb s) \<and> mnum (neighbor_memb s) = CSMA_MAX_NEIGHBOR_QUEUES \<and>
     memb_used (neighbor_memb s) = set (neighbor_list s) \<and> distinct (neighbor_list s) \<and>
     inj_on (\<lambda>n. nq_addr (neighbors s n)) (set (neighbor_list s)) \<and>
     unit_pool (packet_memb s) \<and> mnum (packet_memb s) = QUEUEBUF_NUM \<and> memb_used (packet_memb s) = queued s \<and>
     unit_pool (metadata_memb s) \<and> mnum (metadata_memb s) = QUEUEBUF_NUM \<and>
     (\<forall>n \<in> set (neighbor_list s) - E. nq_packets (neighbors s n) \<noteq> []) \<and>
     (\<forall>n \<in> set (neighbor_list s). distinct (nq_packets (neighbors s n))) \<and>
     (\<forall>n \<in> set (neighbor_list s). \<forall>k \<in> set (neighbor_list s). n \<noteq> k \<longrightarrow>
        set (nq_packets (neighbors s n)) \<inter> set (nq_packets (neighbors s k)) = {}) \<and>
     (\<forall>q \<in> queued s. rb_ptr (packets s q) \<noteq> None \<and> rb_buf (packets s q) \<noteq> None) \<and>
     bij_betw (\<lambda>q. the (rb_ptr (packets s q))) (queued s) (memb_used (metadata_memb s)) \<and>
     inj_on (\<lambda>q. the (rb_buf (packets s q))) (queued s) \<and>
     (\<lambda>q. the (rb_buf (packets s q))) ` queued s \<subseteq> memb_used (bufmem s)"

text \<open>The queue buffers in use that no queued packet has: those the layer above keeps for itself. No operation of CSMA
  adds one, which would be a queue buffer lost, or takes one away.\<close>

definition spare_bufs :: "csma_state \<Rightarrow> nat set" where
  "spare_bufs s = memb_used (bufmem s) - (\<lambda>q. the (rb_buf (packets s q))) ` queued s"

definition csma_wf :: "csma_state \<Rightarrow> bool" where
  "csma_wf s \<longleftrightarrow> qb_wf s \<and> pb_wf s \<and> csma_core {} s"

text \<open>What the core depends on.\<close>

definition core_same :: "csma_state \<Rightarrow> csma_state \<Rightarrow> bool" where
  "core_same s s' \<longleftrightarrow> neighbor_memb s' = neighbor_memb s \<and> packet_memb s' = packet_memb s \<and>
     metadata_memb s' = metadata_memb s \<and> neighbor_list s' = neighbor_list s \<and>
     (\<forall>n. nq_packets (neighbors s' n) = nq_packets (neighbors s n) \<and> nq_addr (neighbors s' n) = nq_addr (neighbors s n)) \<and>
     packets s' = packets s \<and> metadata s' = metadata s \<and> bufmem s' = bufmem s"

lemma core_same_refl [simp]: "core_same s s"
  by (simp add: core_same_def)

lemma core_same_trans: "core_same s s1 \<Longrightarrow> core_same s1 s2 \<Longrightarrow> core_same s s2"
  by (simp add: core_same_def)

lemma core_same_queued: "core_same s s' \<Longrightarrow> queued s' = queued s"
  by (simp add: core_same_def queued_def)

lemma core_same_core: "core_same s s' \<Longrightarrow> csma_core E s \<Longrightarrow> csma_core E s'"
  using core_same_queued [of s s'] by (simp add: core_same_def csma_core_def)

lemma core_same_spare: "core_same s s' \<Longrightarrow> spare_bufs s' = spare_bufs s"
  using core_same_queued [of s s'] by (simp add: core_same_def spare_bufs_def)

lemma used_card: "csma_core E s \<Longrightarrow> card (memb_used (bufmem s)) = card (queued s) + card (spare_bufs s)"
proof -
  assume c: "csma_core E s"
  let ?i = "(\<lambda>q. the (rb_buf (packets s q))) ` queued s"
  have i: "?i \<subseteq> memb_used (bufmem s)" "card ?i = card (queued s)"
    using c card_image by (auto simp: csma_core_def)
  have "finite (memb_used (bufmem s))" by (rule finite_memb)
  then have "card (memb_used (bufmem s)) = card ?i + card (memb_used (bufmem s) - ?i)"
    using card_Diff_subset [OF finite_subset [OF i(1)] i(1)] card_mono [OF _ i(1)] by simp
  then show ?thesis by (simp add: i(2) spare_bufs_def)
qed

text \<open>\<open>quiet s s'\<close>: the queues, their packets and the buffers are the same.\<close>

definition quiet :: "csma_state \<Rightarrow> csma_state \<Rightarrow> bool" where
  "quiet s s' \<longleftrightarrow> core_same s s' \<and> (qb_wf s \<longrightarrow> qb_wf s') \<and> (pb_wf s \<longrightarrow> pb_wf s')"

lemma quiet_refl [simp]: "quiet s s"
  by (simp add: quiet_def)

lemma quiet_trans: "quiet s s1 \<Longrightarrow> quiet s1 s2 \<Longrightarrow> quiet s s2"
  by (auto simp: quiet_def intro: core_same_trans)

lemma quiet_queued: "quiet s s' \<Longrightarrow> queued s' = queued s"
  by (simp add: quiet_def core_same_queued)

lemma quiet_spare: "quiet s s' \<Longrightarrow> spare_bufs s' = spare_bufs s"
  by (simp add: quiet_def core_same_spare)

lemma quiet_core: "quiet s s' \<Longrightarrow> csma_core E s \<Longrightarrow> csma_core E s'"
  unfolding quiet_def using core_same_core by blast

lemma quiet_wf: "quiet s s' \<Longrightarrow> csma_wf s \<Longrightarrow> csma_wf s'"
  unfolding quiet_def csma_wf_def using core_same_core by blast

subsection \<open>Operations that leave the queues alone\<close>

lemma qb_pb_cong:
  assumes "bufmem s' = bufmem s" and "buframmem s' = buframmem s" and "qb_ram_ptr s' = qb_ram_ptr s" and "qb_ram s' = qb_ram s"
    and "packetbuf s' = packetbuf s" and "buflen s' = buflen s" and "bufptr s' = bufptr s" and "hdrlen s' = hdrlen s"
  shows "qb_wf (s' :: csma_state) = qb_wf (s :: csma_state)" "pb_wf s' = pb_wf s"
  using assms by (simp_all add: qb_wf_def pb_wf_def)

lemma quiet_queue_upd:
  assumes "\<And>x. nq_packets (f x) = nq_packets x" and "\<And>x. nq_addr (f x) = nq_addr x"
  shows "quiet s (mod_queue n f s)"
  using assms by (simp add: quiet_def core_same_def mod_queue_def qb_wf_def pb_wf_def)

lemma quiet_upd:
  "quiet s (s\<lparr>mac_node := nd\<rparr>)" "quiet s (s\<lparr>mac_log := l\<rparr>)" "quiet s (s\<lparr>last_tx_status := t\<rparr>)"
  "quiet s (s\<lparr>csma_initialized := c\<rparr>)" "quiet s (s\<lparr>seqno := q\<rparr>)" "quiet s (mac_emit e s)"
  "quiet s (packetbuf_set_attr a v s)"
  by (simp_all add: quiet_def core_same_def mac_emit_def qb_wf_def pb_wf_def packetbuf_set_attr_def)

lemma quiet_rand: "quiet s (snd (mac_rand s))"
  by (simp add: mac_rand_def quiet_upd case_prod_beta)

lemma quiet_schedule: "quiet s (schedule_transmission n s)"
proof -
  define d where "d = (push_bit (unat (min (nq_collisions (neighbors s n)) CSMA_MAX_BE)) 1 - 1) * backoff_period"
  define s1 where "s1 = (if d > 0 then snd (mac_rand s) else s)"
  have "\<exists>t. schedule_transmission n s = mod_queue n (\<lambda>x. x\<lparr>nq_transmit_timer := Some t\<rparr>) s1"
    unfolding schedule_transmission_def Let_def d_def [symmetric] s1_def
    by (cases "d > 0"; cases "mac_rand s") auto
  then obtain t where t: "schedule_transmission n s = mod_queue n (\<lambda>x. x\<lparr>nq_transmit_timer := Some t\<rparr>) s1" ..
  have "quiet s1 (mod_queue n (\<lambda>x. x\<lparr>nq_transmit_timer := Some t\<rparr>) s1)" by (rule quiet_queue_upd) simp_all
  moreover have "quiet s s1" by (simp add: s1_def quiet_rand)
  ultimately show ?thesis unfolding t by (rule quiet_trans [rotated])
qed

lemma quiet_update_attr: "queuebuf_update_attr_from_packetbuf b s = Some s' \<Longrightarrow> quiet s s'"
  by (auto simp: queuebuf_update_attr_from_packetbuf_def quiet_def core_same_def qb_wf_def pb_wf_def elim!: bind_SomeE)

lemma quiet_callback: "mac_call_sent_callback c p st k s = Some s' \<Longrightarrow> quiet s s'"
  unfolding mac_call_sent_callback_def sicslowpan_packet_sent_def Let_def
  by (auto split: option.splits mac_callback.splits elim!: bind_SomeE
      intro: quiet_upd quiet_trans [OF quiet_upd(6)] quiet_trans [OF quiet_upd(1) quiet_upd(3)])

lemma core_parts:
  assumes "csma_core E s" and "n \<in> set (neighbor_list s)" and "q \<in> set (nq_packets (neighbors s n))"
  shows "q \<in> queued s" "\<exists>b. rb_buf (packets s q) = Some b \<and> b \<in> memb_used (bufmem s)"
    "\<exists>m. rb_ptr (packets s q) = Some m \<and> m \<in> memb_used (metadata_memb s)"
proof -
  show q: "q \<in> queued s" using assms(2,3) by (auto simp: queued_def)
  have "rb_ptr (packets s q) \<noteq> None \<and> rb_buf (packets s q) \<noteq> None" "the (rb_buf (packets s q)) \<in> memb_used (bufmem s)"
    "the (rb_ptr (packets s q)) \<in> memb_used (metadata_memb s)"
    using assms(1) q by (auto simp: csma_core_def bij_betw_def)
  then show "\<exists>b. rb_buf (packets s q) = Some b \<and> b \<in> memb_used (bufmem s)"
    "\<exists>m. rb_ptr (packets s q) = Some m \<and> m \<in> memb_used (metadata_memb s)" by auto
qed

subsection \<open>The transmission of the first packet\<close>

lemma wf_transmit:
  assumes "csma_wf s" and "n \<in> set (neighbor_list s)"
  shows "\<exists>s' q. transmit_packet_list n s = Some s' \<and> csma_wf s' \<and> quiet s s' \<and>
     first_of (nq_packets (neighbors s n)) = Some q \<and> mac_log s' = mac_log s @ [RdcSend n q] \<and>
     (\<exists>b. rb_buf (packets s q) = Some b \<and> pb_frame s' = qb_frame s b) \<and>
     mac_node s' = dual_radio_switch (uint (rb_radio (packets s q))) (mac_node s) \<and> neighbors s' = neighbors s \<and>
     qb_ram s' = qb_ram s \<and> qb_ram_ptr s' = qb_ram_ptr s"
proof -
  obtain q qs where q: "nq_packets (neighbors s n) = q # qs"
    using assms by (cases "nq_packets (neighbors s n)") (auto simp: csma_wf_def csma_core_def)
  obtain b where b: "rb_buf (packets s q) = Some b" "b \<in> memb_used (bufmem s)"
    using core_parts(2) [of "{}" s n q] assms q by (auto simp: csma_wf_def)
  define s1 where "s1 = s\<lparr>mac_node := dual_radio_switch (uint (rb_radio (packets s q))) (mac_node s)\<rparr>"
  have r: "(if uint (rb_radio (packets s q)) = SHORT_RADIO then s\<lparr>mac_node := dual_radio_switch SHORT_RADIO (mac_node s)\<rparr>
            else if uint (rb_radio (packets s q)) = LONG_RADIO then s\<lparr>mac_node := dual_radio_switch LONG_RADIO (mac_node s)\<rparr>
            else s) = s1"
    by (simp add: s1_def dual_radio_switch_def)
  have s1: "quiet s s1" "qb_frame s1 b = qb_frame s b" "packets s1 = packets s" "bufmem s1 = bufmem s"
    by (simp_all add: s1_def quiet_upd qb_frame_def)
  have w1: "csma_wf s1" by (rule quiet_wf [OF s1(1) assms(1)])
  from load_queuebuf [of s1 b] w1 b s1 obtain s2 m l where s2: "queuebuf_to_packetbuf (Some b) s1 = Some s2" "qb_wf s2"
      "pb_wf s2" "pb_frame s2 = qb_frame s b" and e: "s2 = s1\<lparr>packetbuf := m, buflen := l, bufptr := 0, hdrlen := 0,
        packetbuf_attrs := fst (snd (qb_frame s b)), packetbuf_addrs := snd (snd (qb_frame s b))\<rparr>"
    by (auto simp: csma_wf_def)
  have "quiet s1 s2" using s2 by (simp add: quiet_def core_same_def e)
  then have qt: "quiet s (mac_emit (RdcSend n q) s2)"
    using s1(1) quiet_upd(6) by (blast intro: quiet_trans)
  have "transmit_packet_list n s = Some (mac_emit (RdcSend n q) s2)"
    using r s2(1) b(1) s1(3) by (simp add: transmit_packet_list_def q Let_def qsend_list_def)
  moreover have "pb_frame (mac_emit (RdcSend n q) s2) = qb_frame s b"
    using s2(4) by (simp add: pb_frame_def pb_header_def pb_payload_def mac_emit_def)
  moreover have "mac_log (mac_emit (RdcSend n q) s2) = mac_log s @ [RdcSend n q]"
    "mac_node (mac_emit (RdcSend n q) s2) = dual_radio_switch (uint (rb_radio (packets s q))) (mac_node s)"
    "neighbors (mac_emit (RdcSend n q) s2) = neighbors s" "qb_ram (mac_emit (RdcSend n q) s2) = qb_ram s"
    "qb_ram_ptr (mac_emit (RdcSend n q) s2) = qb_ram_ptr s"
    by (simp_all add: mac_emit_def e s1_def)
  ultimately show ?thesis using qt quiet_wf [OF qt assms(1)] q b(1)
    by (intro exI [of _ "mac_emit (RdcSend n q) s2"] exI [of _ q]) simp
qed

subsection \<open>The end of a packet\<close>

lemma core_close: "csma_core {n} s \<Longrightarrow> nq_packets (neighbors s n) \<noteq> [] \<Longrightarrow> csma_core {} s"
proof -
  assume c: "csma_core {n} s" and n: "nq_packets (neighbors s n) \<noteq> []"
  then have "\<forall>k \<in> set (neighbor_list s) - {n}. nq_packets (neighbors s k) \<noteq> []" by (simp add: csma_core_def)
  with n have "\<forall>k \<in> set (neighbor_list s). nq_packets (neighbors s k) \<noteq> []" by blast
  with c show ?thesis by (simp add: csma_core_def)
qed

lemma wf_drop_queue:
  assumes "csma_core {n} s" and "n \<in> set (neighbor_list s)" and "nq_packets (neighbors s n) = []"
  shows "csma_core {} (drop_queue n s)" "queued (drop_queue n s) = queued s" "spare_bufs (drop_queue n s) = spare_bufs s"
proof -
  have d: "distinct (neighbor_list s)" "unit_pool (neighbor_memb s)" "memb_used (neighbor_memb s) = set (neighbor_list s)"
    using assms(1) by (simp_all add: csma_core_def)
  have l: "set (neighbor_list (drop_queue n s)) = set (neighbor_list s) - {n}"
    using d(1) by (simp add: drop_queue_def)
  note f = unit_pool_free [OF d(2), of n, unfolded d(3), OF assms(2)]
  have e: "neighbors (drop_queue n s) = neighbors s" "packets (drop_queue n s) = packets s"
    "packet_memb (drop_queue n s) = packet_memb s" "metadata_memb (drop_queue n s) = metadata_memb s"
    "bufmem (drop_queue n s) = bufmem s" by (simp_all add: drop_queue_def)
  show q: "queued (drop_queue n s) = queued s" using assms(3) by (auto simp: queued_def l e)
  then show "spare_bufs (drop_queue n s) = spare_bufs s" by (simp add: spare_bufs_def e)
  have "inj_on (\<lambda>n. nq_addr (neighbors s n)) (set (neighbor_list s))" using assms(1) by (simp add: csma_core_def)
  then have "inj_on (\<lambda>n. nq_addr (neighbors s n)) (set (neighbor_list s) - {n})" by (rule inj_on_diff)
  moreover have "distinct (neighbor_list (drop_queue n s))" using d(1) by (simp add: drop_queue_def)
  moreover have "unit_pool (neighbor_memb (drop_queue n s))" "mnum (neighbor_memb (drop_queue n s)) = mnum (neighbor_memb s)"
    "memb_used (neighbor_memb (drop_queue n s)) = set (neighbor_list s) - {n}"
    using f by (simp_all add: drop_queue_def)
  ultimately show "csma_core {} (drop_queue n s)"
    using assms(1) unfolding csma_core_def q l e by simp
qed

text \<open>What is left when the packet, its metadata and its queue buffer have been given back.\<close>

definition release :: "nat \<Rightarrow> nat \<Rightarrow> nat \<Rightarrow> nat \<Rightarrow> csma_state \<Rightarrow> csma_state" where
  "release n q b m s = (queuebuf_free (Some b) (mod_queue n (\<lambda>x. x\<lparr>nq_packets := remove1 q (nq_packets x)\<rparr>) s))
     \<lparr>metadata_memb := fst (memb_free (metadata_memb s) m), packet_memb := fst (memb_free (packet_memb s) q)\<rparr>"

lemma queuebuf_free_sel:
  "neighbors (queuebuf_free b s) = neighbors s" "neighbor_list (queuebuf_free b s) = neighbor_list s"
  "neighbor_memb (queuebuf_free b s) = neighbor_memb s" "packets (queuebuf_free b s) = packets s"
  "packet_memb (queuebuf_free b s) = packet_memb s" "metadata_memb (queuebuf_free b s) = metadata_memb s"
  "metadata (queuebuf_free b s) = metadata s" "pb_wf (queuebuf_free b s) = pb_wf s"
  "mac_log (queuebuf_free b s) = mac_log s" "mac_node (queuebuf_free b s) = mac_node s"
  "packetbuf_addrs (queuebuf_free b s) = packetbuf_addrs s"
  by (simp_all add: queuebuf_free_def pb_wf_def split: option.split)

lemma wf_release:
  assumes "csma_wf s" and "n \<in> set (neighbor_list s)" and "q \<in> set (nq_packets (neighbors s n))"
    and b: "rb_buf (packets s q) = Some b" and m: "rb_ptr (packets s q) = Some m"
  shows "csma_core {n} (release n q b m s) \<and> qb_wf (release n q b m s) \<and> pb_wf (release n q b m s) \<and>
     queued (release n q b m s) = queued s - {q} \<and> neighbor_list (release n q b m s) = neighbor_list s \<and>
     nq_packets (neighbors (release n q b m s) n) = remove1 q (nq_packets (neighbors s n)) \<and>
     (\<forall>k. k \<noteq> n \<longrightarrow> neighbors (release n q b m s) k = neighbors s k) \<and>
     nq_transmissions (neighbors (release n q b m s) n) = nq_transmissions (neighbors s n) \<and>
     packets (release n q b m s) = packets s \<and> metadata (release n q b m s) = metadata s \<and>
     mac_log (release n q b m s) = mac_log s \<and> mac_node (release n q b m s) = mac_node s \<and>
     packetbuf_addrs (release n q b m s) = packetbuf_addrs s \<and> spare_bufs (release n q b m s) = spare_bufs s"
proof -
  define s1 where "s1 = mod_queue n (\<lambda>x. x\<lparr>nq_packets := remove1 q (nq_packets x)\<rparr>) s"
  define s2 where "s2 = queuebuf_free (Some b) s1"
  define t where "t = release n q b m s"
  have t: "t = s2\<lparr>metadata_memb := fst (memb_free (metadata_memb s) m), packet_memb := fst (memb_free (packet_memb s) q)\<rparr>"
    unfolding t_def release_def s2_def s1_def ..
  have c: "csma_core {} s" "qb_wf s" "pb_wf s" using assms(1) by (simp_all add: csma_wf_def)
  from core_parts [OF c(1) assms(2,3)] b m have q: "q \<in> queued s" "b \<in> memb_used (bufmem s)" "m \<in> memb_used (metadata_memb s)"
    by simp_all
  have s1: "qb_wf s1" "pb_wf s1" "bufmem s1 = bufmem s"
    using c by (simp_all add: s1_def mod_queue_def qb_wf_def pb_wf_def)
  note fq = free_queuebuf [OF s1(1), of b, unfolded s1(3), OF q(2), folded s2_def]
  note sel = queuebuf_free_sel [of "Some b" s1, folded s2_def]
  have nb: "neighbors t = (neighbors s)(n := (neighbors s n)\<lparr>nq_packets := remove1 q (nq_packets (neighbors s n))\<rparr>)"
    and e: "neighbor_list t = neighbor_list s" "neighbor_memb t = neighbor_memb s" "packets t = packets s"
      "metadata t = metadata s" "mac_log t = mac_log s" "mac_node t = mac_node s" "packetbuf_addrs t = packetbuf_addrs s"
      "packet_memb t = fst (memb_free (packet_memb s) q)" "metadata_memb t = fst (memb_free (metadata_memb s) m)"
      "bufmem t = bufmem s2"
    by (simp_all add: t sel) (simp_all add: s1_def mod_queue_def)
  have "qb_wf t = qb_wf s2" "pb_wf t = pb_wf s2" by (simp_all add: t qb_wf_def pb_wf_def)
  then have wt: "qb_wf t" "pb_wf t" using fq s1(2) sel(8) by simp_all
  have dist: "\<forall>k \<in> set (neighbor_list s). distinct (nq_packets (neighbors s k))"
    and dj: "\<forall>k \<in> set (neighbor_list s). \<forall>j \<in> set (neighbor_list s). k \<noteq> j \<longrightarrow>
        set (nq_packets (neighbors s k)) \<inter> set (nq_packets (neighbors s j)) = {}"
    using c(1) unfolding csma_core_def by blast+
  have ps: "set (nq_packets (neighbors t k)) = set (nq_packets (neighbors s k)) - {q}" if "k \<in> set (neighbor_list s)" for k
    using that dist dj assms(2,3) by (auto simp: nb)
  have qd: "queued t = queued s - {q}" using ps by (auto simp: queued_def e)
  have pools: "unit_pool (packet_memb s)" "memb_used (packet_memb s) = queued s" "unit_pool (metadata_memb s)"
    using c(1) by (simp_all add: csma_core_def)
  note fp = unit_pool_free [OF pools(1), of q, unfolded pools(2), OF q(1)] and fm = unit_pool_free [OF pools(3) q(3)]
  have ne: "\<forall>k \<in> set (neighbor_list s) - {n}. nq_packets (neighbors s k) \<noteq> []"
    and ia: "inj_on (\<lambda>k. nq_addr (neighbors s k)) (set (neighbor_list s))"
    and bij: "bij_betw (\<lambda>q. the (rb_ptr (packets s q))) (queued s) (memb_used (metadata_memb s))"
    and inj: "inj_on (\<lambda>q. the (rb_buf (packets s q))) (queued s)"
      "(\<lambda>q. the (rb_buf (packets s q))) ` queued s \<subseteq> memb_used (bufmem s)"
    using c(1) by (simp_all add: csma_core_def)
  have "bij_betw (\<lambda>q. the (rb_ptr (packets s q))) (queued s - {q}) (memb_used (metadata_memb s) - {m})"
    using bij_betw_DiffI [OF bij, of "{q}" "{m}"] q m by simp
  moreover have "inj_on (\<lambda>q. the (rb_buf (packets s q))) (queued s - {q})" using inj(1) by (rule inj_on_diff)
  moreover have "(\<lambda>q. the (rb_buf (packets s q))) ` (queued s - {q}) \<subseteq> memb_used (bufmem t)"
    using inj q(1) b fq by (auto simp: e inj_on_def image_subset_iff)
  moreover have "\<forall>k \<in> set (neighbor_list s) - {n}. nq_packets (neighbors t k) \<noteq> []"
    "\<forall>k \<in> set (neighbor_list s). distinct (nq_packets (neighbors t k))"
    using ne dist by (simp_all add: nb)
  moreover have "nq_addr (neighbors t k) = nq_addr (neighbors s k)" for k by (simp add: nb)
  with ia have "inj_on (\<lambda>k. nq_addr (neighbors t k)) (set (neighbor_list s))" by simp
  moreover have "\<forall>k \<in> set (neighbor_list s). \<forall>j \<in> set (neighbor_list s). k \<noteq> j \<longrightarrow>
        set (nq_packets (neighbors t k)) \<inter> set (nq_packets (neighbors t j)) = {}"
  proof (intro ballI impI)
    fix k j assume kj: "k \<in> set (neighbor_list s)" "j \<in> set (neighbor_list s)" "k \<noteq> j"
    then have "set (nq_packets (neighbors s k)) \<inter> set (nq_packets (neighbors s j)) = {}" using dj by blast
    then show "set (nq_packets (neighbors t k)) \<inter> set (nq_packets (neighbors t j)) = {}"
      unfolding ps [OF kj(1)] ps [OF kj(2)] by blast
  qed
  ultimately have "csma_core {n} t"
    using c(1) fp fm unfolding csma_core_def e qd by simp
  moreover have "spare_bufs t = spare_bufs s"
  proof -
    have "(\<lambda>q. the (rb_buf (packets s q))) ` (queued s - {q}) = (\<lambda>q. the (rb_buf (packets s q))) ` queued s - {b}"
      using inj_on_image_set_diff [OF inj(1), of "queued s" "{q}"] q(1) b by simp
    moreover have "b \<in> (\<lambda>q. the (rb_buf (packets s q))) ` queued s" using q(1) b by (intro image_eqI [of _ _ q]) simp_all
    ultimately show ?thesis using fq unfolding spare_bufs_def e qd by blast
  qed
  ultimately show ?thesis using wt qd e nb unfolding t_def by simp
qed

end
