(* ===== verification/CsmaSent.thy ===== *)
theory CsmaSent
  imports CsmaInv
begin

text \<open>
  What an answer of the radio duty cycling does: the packet it is about stays queued for another
  attempt, or it is done and its sender hears the outcome, exactly once. How often a packet can be
  tried is bounded.
\<close>

unbundle bit_operations_syntax

subsection \<open>Freeing a packet\<close>

lemma schedule_fields:
  "mac_log (schedule_transmission n s) = mac_log s" "metadata (schedule_transmission n s) = metadata s"
  "nq_transmissions (neighbors (schedule_transmission n s) k) = nq_transmissions (neighbors s k)"
  "nq_collisions (neighbors (schedule_transmission n s) k) = nq_collisions (neighbors s k)"
  "nq_transmit_timer (neighbors (schedule_transmission n s) n) \<noteq> None"
  "packetbuf_addrs (schedule_transmission n s) = packetbuf_addrs s"
  "qb_ram (schedule_transmission n s) = qb_ram s" "qb_ram_ptr (schedule_transmission n s) = qb_ram_ptr s"
  "packetbuf_attrs (schedule_transmission n s) = packetbuf_attrs s"
proof -
  define d where "d = (push_bit (unat (min (nq_collisions (neighbors s n)) CSMA_MAX_BE)) 1 - 1) * backoff_period"
  define s1 where "s1 = (if d > 0 then snd (mac_rand s) else s)"
  have "\<exists>t. schedule_transmission n s = mod_queue n (\<lambda>x. x\<lparr>nq_transmit_timer := Some t\<rparr>) s1"
    unfolding schedule_transmission_def Let_def d_def [symmetric] s1_def
    by (cases "d > 0"; cases "mac_rand s") auto
  then obtain t where t: "schedule_transmission n s = mod_queue n (\<lambda>x. x\<lparr>nq_transmit_timer := Some t\<rparr>) s1" ..
  have s1: "mac_log s1 = mac_log s" "metadata s1 = metadata s" "neighbors s1 = neighbors s"
    "packetbuf_addrs s1 = packetbuf_addrs s" "qb_ram s1 = qb_ram s" "qb_ram_ptr s1 = qb_ram_ptr s"
    "packetbuf_attrs s1 = packetbuf_attrs s"
    by (simp_all add: s1_def mac_rand_def case_prod_beta)
  show "mac_log (schedule_transmission n s) = mac_log s" "metadata (schedule_transmission n s) = metadata s"
    "nq_transmissions (neighbors (schedule_transmission n s) k) = nq_transmissions (neighbors s k)"
    "nq_collisions (neighbors (schedule_transmission n s) k) = nq_collisions (neighbors s k)"
    "nq_transmit_timer (neighbors (schedule_transmission n s) n) \<noteq> None"
    "packetbuf_addrs (schedule_transmission n s) = packetbuf_addrs s"
    "qb_ram (schedule_transmission n s) = qb_ram s" "qb_ram_ptr (schedule_transmission n s) = qb_ram_ptr s"
    "packetbuf_attrs (schedule_transmission n s) = packetbuf_attrs s"
    by (simp_all add: t mod_queue_def s1)
qed

lemma free_packet_release:
  assumes "rb_buf (packets s q) = Some b" and "rb_ptr (packets s q) = Some m"
  shows "free_packet n q s =
     (let t = release n q b m s
      in if nq_packets (neighbors t n) \<noteq> []
         then schedule_transmission n (mod_queue n (\<lambda>x. x\<lparr>nq_transmissions := 0, nq_collisions := CSMA_MIN_BE\<rparr>) t)
         else drop_queue n (mod_queue n (\<lambda>x. x\<lparr>nq_transmit_timer := None\<rparr>) t))"
proof -
  define s1 where "s1 = mod_queue n (\<lambda>x. x\<lparr>nq_packets := remove1 q (nq_packets x)\<rparr>) s"
  have p: "packets s1 = packets s" "packet_memb s1 = packet_memb s" "metadata_memb s1 = metadata_memb s"
    by (simp_all add: s1_def mod_queue_def)
  define s2 where "s2 = queuebuf_free (Some b) s1"
  note sel = queuebuf_free_sel [of "Some b" s1, folded s2_def]
  have r: "release n q b m s = s2\<lparr>metadata_memb := fst (memb_free (metadata_memb s) m),
      packet_memb := fst (memb_free (packet_memb s) q)\<rparr>"
    unfolding release_def s2_def s1_def ..
  show ?thesis unfolding free_packet_def Let_def s1_def [symmetric] r
    by (simp add: p assms sel s2_def [symmetric])
qed

text \<open>Freeing a packet: it is no longer queued and nothing else changes hands. A queue that goes on starts
  counting afresh and is scheduled; the queue of the last packet is given back with its counters.\<close>

lemma wf_free_packet:
  assumes w: "csma_wf s" and n: "n \<in> set (neighbor_list s)" and q: "q \<in> set (nq_packets (neighbors s n))"
  shows "csma_wf (free_packet n q s)" "queued (free_packet n q s) = queued s - {q}"
    "mac_log (free_packet n q s) = mac_log s" "metadata (free_packet n q s) = metadata s"
    "packetbuf_addrs (free_packet n q s) = packetbuf_addrs s"
    "nq_packets (neighbors (free_packet n q s) n) = remove1 q (nq_packets (neighbors s n))"
    "nq_transmissions (neighbors (free_packet n q s) n) =
       (if remove1 q (nq_packets (neighbors s n)) = [] then nq_transmissions (neighbors s n) else 0)"
    "neighbor_list (free_packet n q s) =
       (if remove1 q (nq_packets (neighbors s n)) = [] then remove1 n (neighbor_list s) else neighbor_list s)"
    "remove1 q (nq_packets (neighbors s n)) \<noteq> [] \<Longrightarrow> nq_transmit_timer (neighbors (free_packet n q s) n) \<noteq> None"
    "spare_bufs (free_packet n q s) = spare_bufs s"
proof -
  have c: "csma_core {} s" using w by (simp add: csma_wf_def)
  obtain b m where bm: "rb_buf (packets s q) = Some b" "rb_ptr (packets s q) = Some m"
    using core_parts [OF c n q] by blast
  define t where "t = release n q b m s"
  note R = wf_release [OF w n q bm, folded t_def]
  define t1 where "t1 = mod_queue n (\<lambda>x. x\<lparr>nq_transmissions := 0, nq_collisions := CSMA_MIN_BE\<rparr>) t"
  define t2 where "t2 = mod_queue n (\<lambda>x. x\<lparr>nq_transmit_timer := None\<rparr>) t"
  have qt: "quiet t t1" "quiet t t2" unfolding t1_def t2_def by (rule quiet_queue_upd; simp)+
  have f1: "mac_log t1 = mac_log t" "metadata t1 = metadata t" "packetbuf_addrs t1 = packetbuf_addrs t"
    "nq_transmissions (neighbors t1 n) = 0" by (simp_all add: t1_def mod_queue_def)
  have f2: "mac_log t2 = mac_log t" "metadata t2 = metadata t" "packetbuf_addrs t2 = packetbuf_addrs t"
    "nq_transmissions (neighbors t2 n) = nq_transmissions (neighbors t n)" by (simp_all add: t2_def mod_queue_def)
  have dsel: "mac_log (drop_queue n x) = mac_log x" "metadata (drop_queue n x) = metadata x"
    "packetbuf_addrs (drop_queue n x) = packetbuf_addrs x" "neighbors (drop_queue n x) = neighbors x"
    "qb_wf (drop_queue n x) = qb_wf x" "pb_wf (drop_queue n x) = pb_wf x" for x
    by (simp_all add: drop_queue_def qb_wf_def pb_wf_def)
  define r where "r = remove1 q (nq_packets (neighbors s n))"
  have e: "free_packet n q s = (if r \<noteq> [] then schedule_transmission n t1 else drop_queue n t2)"
    using R by (simp add: free_packet_release [OF bm] Let_def t_def t1_def t2_def r_def)
  have all: "csma_wf (free_packet n q s) \<and> queued (free_packet n q s) = queued s - {q} \<and>
    mac_log (free_packet n q s) = mac_log s \<and> metadata (free_packet n q s) = metadata s \<and>
    packetbuf_addrs (free_packet n q s) = packetbuf_addrs s \<and>
    nq_packets (neighbors (free_packet n q s) n) = r \<and>
    nq_transmissions (neighbors (free_packet n q s) n) = (if r = [] then nq_transmissions (neighbors s n) else 0) \<and>
    neighbor_list (free_packet n q s) = (if r = [] then remove1 n (neighbor_list s) else neighbor_list s) \<and>
    (r \<noteq> [] \<longrightarrow> nq_transmit_timer (neighbors (free_packet n q s) n) \<noteq> None) \<and> spare_bufs (free_packet n q s) = spare_bufs s"
  proof (cases "r = []")
    case False
    have Q: "quiet t (schedule_transmission n t1)" by (rule quiet_trans [OF qt(1) quiet_schedule])
    then have "core_same t (schedule_transmission n t1)" by (simp add: quiet_def)
    then have s: "nq_packets (neighbors (schedule_transmission n t1) n) = r"
      "neighbor_list (schedule_transmission n t1) = neighbor_list s"
      using R by (simp_all add: core_same_def r_def)
    have "csma_core {n} (schedule_transmission n t1)" using R by (blast intro: quiet_core [OF Q])
    from core_close [OF this] s(1) False have "csma_core {} (schedule_transmission n t1)" by simp
    moreover have "qb_wf (schedule_transmission n t1)" "pb_wf (schedule_transmission n t1)"
      using Q R by (simp_all add: quiet_def)
    ultimately show ?thesis using False R f1 s quiet_queued [OF Q] quiet_spare [OF Q] schedule_fields [of n t1]
      by (simp add: e csma_wf_def)
  next
    case True
    have "core_same t t2" using qt(2) by (simp add: quiet_def)
    then have s: "nq_packets (neighbors t2 n) = []" "neighbor_list t2 = neighbor_list s"
      using R True by (simp_all add: core_same_def r_def)
    have "csma_core {n} t2" using R by (blast intro: quiet_core [OF qt(2)])
    note D = wf_drop_queue [OF this _ s(1), unfolded s(2), OF n]
    moreover have "qb_wf t2" "pb_wf t2" using qt(2) R by (simp_all add: quiet_def)
    moreover have "neighbor_list (drop_queue n t2) = remove1 n (neighbor_list s)" using s(2) by (simp add: drop_queue_def)
    ultimately show ?thesis using True R f2 s quiet_queued [OF qt(2)] quiet_spare [OF qt(2)] dsel [of t2]
      by (simp add: e csma_wf_def)
  qed
  from all show "csma_wf (free_packet n q s)" "queued (free_packet n q s) = queued s - {q}"
    "mac_log (free_packet n q s) = mac_log s" "metadata (free_packet n q s) = metadata s"
    "packetbuf_addrs (free_packet n q s) = packetbuf_addrs s"
    "nq_packets (neighbors (free_packet n q s) n) = remove1 q (nq_packets (neighbors s n))"
    "nq_transmissions (neighbors (free_packet n q s) n) =
       (if remove1 q (nq_packets (neighbors s n)) = [] then nq_transmissions (neighbors s n) else 0)"
    "neighbor_list (free_packet n q s) =
       (if remove1 q (nq_packets (neighbors s n)) = [] then remove1 n (neighbor_list s) else neighbor_list s)"
    "remove1 q (nq_packets (neighbors s n)) \<noteq> [] \<Longrightarrow> nq_transmit_timer (neighbors (free_packet n q s) n) \<noteq> None"
    "spare_bufs (free_packet n q s) = spare_bufs s"
    by (simp_all add: r_def)
qed

subsection \<open>The answer about the first packet\<close>

text \<open>An attempt to transmit the first packet of a queue and the answer about it; the radio duty cycling of
  SEDA-Net answers before \<open>transmit_packet_list\<close> returns.\<close>

definition attempt :: "nat \<Rightarrow> int \<Rightarrow> int \<Rightarrow> csma_state \<Rightarrow> csma_state option" where
  "attempt n status num s = do { s1 \<leftarrow> transmit_packet_list n s; packet_sent n status num s1 }"

lemma attempt_found:
  assumes w: "csma_wf s" and n: "n \<in> set (neighbor_list s)" and q: "nq_packets (neighbors s n) = q # qs"
  shows "\<exists>s1. transmit_packet_list n s = Some s1 \<and> csma_wf s1 \<and> quiet s s1 \<and> neighbors s1 = neighbors s \<and>
     mac_log s1 = mac_log s @ [RdcSend n q] \<and> seqno_loop (nq_packets (neighbors s1 n)) s1 = Some (Some q)"
proof -
  from wf_transmit [OF w n] q obtain s1 b where s1: "transmit_packet_list n s = Some s1" "csma_wf s1" "quiet s s1"
      "mac_log s1 = mac_log s @ [RdcSend n q]" "rb_buf (packets s q) = Some b" "pb_frame s1 = qb_frame s b"
      "neighbors s1 = neighbors s" "qb_ram s1 = qb_ram s" "qb_ram_ptr s1 = qb_ram_ptr s" by auto
  have p: "packets s1 = packets s" using s1(3) by (simp add: quiet_def core_same_def)
  obtain r where r: "qb_ram_ptr s b = Some r"
    using core_parts(2) [of "{}" s n q] w n q s1(5) by (auto simp: csma_wf_def qb_wf_def)
  have "packetbuf_attrs s1 = qd_attrs (qb_ram s r)"
    using s1(6) r by (simp add: pb_frame_def qb_frame_def Let_def)
  then have "seqno_loop (nq_packets (neighbors s1 n)) s1 = Some (Some q)"
    by (simp add: s1(7) q p s1(5) queuebuf_attr_def s1(8,9) r packetbuf_attr_def)
  with s1 show ?thesis by blast
qed

lemma tx_done_eq:
  assumes "rb_ptr (packets s q) = Some m"
  shows "tx_done status q n s = mac_call_sent_callback (md_sent (metadata s m)) (md_cptr (metadata s m)) status
     (uint (nq_transmissions (neighbors (free_packet n q s) n))) (free_packet n q s)"
  by (simp add: tx_done_def assms Let_def)

lemma rexmit_ok:
  assumes "csma_wf s" and "n \<in> set (neighbor_list s)" and "q \<in> set (nq_packets (neighbors s n))"
  shows "\<exists>s'. rexmit q n s = Some s' \<and> quiet s s' \<and> mac_log s' = mac_log s \<and> metadata s' = metadata s \<and>
     nq_transmissions (neighbors s' n) = nq_transmissions (neighbors s n) \<and>
     nq_collisions (neighbors s' n) = nq_collisions (neighbors s n) \<and> nq_transmit_timer (neighbors s' n) \<noteq> None"
proof -
  define s1 where "s1 = schedule_transmission n s"
  have s1: "quiet s s1" by (simp add: s1_def quiet_schedule)
  note w1 = quiet_wf [OF s1 assms(1)]
  have same: "neighbor_list s1 = neighbor_list s" "nq_packets (neighbors s1 n) = nq_packets (neighbors s n)"
    "packets s1 = packets s" using s1 by (simp_all add: quiet_def core_same_def)
  then obtain b where b: "rb_buf (packets s1 q) = Some b" "b \<in> memb_used (bufmem s1)"
    using core_parts(2) [of "{}" s1 n q] w1 assms(2,3) by (auto simp: csma_wf_def)
  then obtain r where r: "qb_ram_ptr s1 b = Some r" using w1 by (auto simp: csma_wf_def qb_wf_def)
  then obtain s2 where s2: "queuebuf_update_attr_from_packetbuf b s1 = Some s2"
    and e: "s2 = s1\<lparr>qb_ram := (qb_ram s1)(r := (qb_ram s1 r)\<lparr>qd_attrs := packetbuf_attrs s1, qd_addrs := packetbuf_addrs s1\<rparr>)\<rparr>"
    by (simp add: queuebuf_update_attr_from_packetbuf_def)
  have "rexmit q n s = Some s2" using b(1) s2 by (simp add: rexmit_def s1_def Let_def)
  moreover have "quiet s s2" by (rule quiet_trans [OF s1 quiet_update_attr [OF s2]])
  moreover have "mac_log s2 = mac_log s1" "metadata s2 = metadata s1" "neighbors s2 = neighbors s1" by (simp_all add: e)
  ultimately show ?thesis using schedule_fields [of n s] by (simp add: s1_def)
qed

text \<open>The answers \<open>MAC_TX_OK\<close>, \<open>MAC_TX_NOACK\<close> and \<open>MAC_TX_COLLISION\<close> as changes of the two counters.\<close>

definition count_answer :: "int \<Rightarrow> int \<Rightarrow> neighbor_queue \<Rightarrow> neighbor_queue" where
  "count_answer status num x =
     (if status = MAC_TX_COLLISION
      then (if nq_collisions x + of_int num > CSMA_MAX_BACKOFF
            then x\<lparr>nq_collisions := CSMA_MIN_BE, nq_transmissions := nq_transmissions x + 1\<rparr>
            else x\<lparr>nq_collisions := nq_collisions x + of_int num\<rparr>)
      else x\<lparr>nq_collisions := CSMA_MIN_BE, nq_transmissions := nq_transmissions x + of_int num\<rparr>)"

lemma mod_queue_cong: "f (neighbors s n) = g (neighbors s n) \<Longrightarrow> mod_queue n f s = mod_queue n g s"
  by (simp add: mod_queue_def)

lemma mod_queue_twice: "mod_queue n g (mod_queue n f s) = mod_queue n (\<lambda>x. g (f x)) s"
  by (simp add: mod_queue_def)

lemma packet_sent_answer:
  assumes "seqno_loop (nq_packets (neighbors s n)) s = Some (Some q)" and "rb_ptr (packets s q) = Some m"
    and "status \<in> {MAC_TX_OK, MAC_TX_NOACK, MAC_TX_COLLISION}"
  shows "packet_sent n status num s =
     (let s1 = mod_queue n (count_answer status num) s
      in if status = MAC_TX_OK \<or> nq_transmissions (neighbors s1 n) \<ge> md_max_transmissions (metadata s m)
         then tx_done status q n s1 else rexmit q n s1)"
proof -
  have sel: "neighbors (mod_queue n f s) n = f (neighbors s n)" "metadata (mod_queue n f s) = metadata s" for f
    by (simp_all add: mod_queue_def)
  have nd: "MAC_TX_OK \<noteq> MAC_TX_NOACK" "MAC_TX_OK \<noteq> MAC_TX_COLLISION" "MAC_TX_NOACK \<noteq> MAC_TX_COLLISION"
    by (simp_all add: csma_consts)
  consider "status = MAC_TX_OK" | "status = MAC_TX_NOACK" | "status = MAC_TX_COLLISION" using assms(3) by blast
  then show ?thesis
  proof cases
    case 1
    have "count_answer MAC_TX_OK num = (\<lambda>x. x\<lparr>nq_collisions := CSMA_MIN_BE,
       nq_transmissions := nq_transmissions x + of_int num\<rparr>)" using nd by (simp add: count_answer_def fun_eq_iff)
    with 1 nd show ?thesis by (simp add: packet_sent_def assms tx_ok_def Let_def)
  next
    case 2
    have "count_answer MAC_TX_NOACK num = (\<lambda>x. x\<lparr>nq_collisions := CSMA_MIN_BE,
       nq_transmissions := nq_transmissions x + of_int num\<rparr>)" using nd by (simp add: count_answer_def fun_eq_iff)
    with 2 nd show ?thesis by (simp add: packet_sent_def assms noack_def Let_def sel)
  next
    case 3
    define x where "x = neighbors s n"
    have "(if nq_collisions (neighbors (mod_queue n (\<lambda>x. x\<lparr>nq_collisions := nq_collisions x + of_int num\<rparr>) s) n) > CSMA_MAX_BACKOFF
       then mod_queue n (\<lambda>x. x\<lparr>nq_collisions := CSMA_MIN_BE, nq_transmissions := nq_transmissions x + 1\<rparr>)
              (mod_queue n (\<lambda>x. x\<lparr>nq_collisions := nq_collisions x + of_int num\<rparr>) s)
       else mod_queue n (\<lambda>x. x\<lparr>nq_collisions := nq_collisions x + of_int num\<rparr>) s)
      = mod_queue n (count_answer MAC_TX_COLLISION num) s"
      by (auto simp: sel mod_queue_twice count_answer_def intro!: mod_queue_cong)
    with 3 nd show ?thesis by (simp add: packet_sent_def assms collision_def Let_def sel)
  qed
qed

text \<open>A failed attempt at the first packet \<open>q\<close> of the queue \<open>n\<close>: the packet is done, or the queues are as before and the
  counters are closer to the limit.\<close>

definition tries_left :: "nat \<Rightarrow> nat \<Rightarrow> csma_state \<Rightarrow> int" where
  "tries_left n m s = 6 * (uint (md_max_transmissions (metadata s m)) - uint (nq_transmissions (neighbors s n))) -
     uint (nq_collisions (neighbors s n))"

lemma count_answer_left:
  assumes "status \<in> {MAC_TX_NOACK, MAC_TX_COLLISION}" and "uint (nq_collisions x) \<le> 5" and "uint (nq_transmissions x) < 255"
  shows "uint (nq_collisions (count_answer status 1 x)) \<le> 5"
    "6 * uint (nq_transmissions (count_answer status 1 x)) + uint (nq_collisions (count_answer status 1 x)) >
       6 * uint (nq_transmissions x) + uint (nq_collisions x)"
    "nq_packets (count_answer status 1 x) = nq_packets x" "nq_addr (count_answer status 1 x) = nq_addr x"
proof -
  have nd: "MAC_TX_NOACK \<noteq> MAC_TX_COLLISION" by (simp add: csma_consts)
  have t: "uint (nq_transmissions x + 1) = uint (nq_transmissions x) + 1"
    using assms(3) by (simp add: uint_word_ariths)
  have c: "uint (nq_collisions x + 1) = uint (nq_collisions x) + 1"
    using assms(2) by (simp add: uint_word_ariths)
  have g: "nq_collisions x + 1 > CSMA_MAX_BACKOFF \<longleftrightarrow> uint (nq_collisions x) = 5"
    using assms(2) by (auto simp: word_less_def c CSMA_MAX_BACKOFF_def)
  show "uint (nq_collisions (count_answer status 1 x)) \<le> 5"
    "6 * uint (nq_transmissions (count_answer status 1 x)) + uint (nq_collisions (count_answer status 1 x)) >
       6 * uint (nq_transmissions x) + uint (nq_collisions x)"
    "nq_packets (count_answer status 1 x) = nq_packets x" "nq_addr (count_answer status 1 x) = nq_addr x"
    using assms nd by (auto simp: count_answer_def t c g CSMA_MIN_BE_def)
qed

lemma attempt_fail:
  assumes w: "csma_wf s" and n: "n \<in> set (neighbor_list s)" and q: "nq_packets (neighbors s n) = q # qs"
    and m: "rb_ptr (packets s q) = Some m" and st: "status \<in> {MAC_TX_NOACK, MAC_TX_COLLISION}"
    and c: "uint (nq_collisions (neighbors s n)) \<le> 5" and t: "uint (nq_transmissions (neighbors s n)) < 255"
  shows "(\<exists>s' k. attempt n status 1 s =
        mac_call_sent_callback (md_sent (metadata s m)) (md_cptr (metadata s m)) status k s' \<and> csma_wf s' \<and>
        queued s' = queued s - {q} \<and> spare_bufs s' = spare_bufs s \<and> mac_log s' = mac_log s @ [RdcSend n q]) \<or>
     (\<exists>s'. attempt n status 1 s = Some s' \<and> quiet s s' \<and> metadata s' = metadata s \<and>
        mac_log s' = mac_log s @ [RdcSend n q] \<and> uint (nq_collisions (neighbors s' n)) \<le> 5 \<and>
        uint (nq_transmissions (neighbors s' n)) < 255 \<and> 0 < tries_left n m s' \<and> tries_left n m s' < tries_left n m s)"
proof -
  from attempt_found [OF w n q] obtain s1 where s1: "transmit_packet_list n s = Some s1" "csma_wf s1" "quiet s s1"
      "neighbors s1 = neighbors s" "mac_log s1 = mac_log s @ [RdcSend n q]"
      "seqno_loop (nq_packets (neighbors s1 n)) s1 = Some (Some q)" by blast
  have same: "packets s1 = packets s" "metadata s1 = metadata s" "neighbor_list s1 = neighbor_list s"
    using s1(3) by (simp_all add: quiet_def core_same_def)
  define s2 where "s2 = mod_queue n (count_answer status 1) s1"
  note left = count_answer_left [OF st c t]
  have q2: "quiet s1 s2" using st unfolding s2_def
    by (intro quiet_queue_upd) (auto simp: count_answer_def)
  have w2: "csma_wf s2" by (rule quiet_wf [OF q2 s1(2)])
  have n2: "n \<in> set (neighbor_list s2)" "q \<in> set (nq_packets (neighbors s2 n))" "packets s2 = packets s"
    "metadata s2 = metadata s" "mac_log s2 = mac_log s1"
    using q2 n q same s1(4) by (simp_all add: quiet_def core_same_def) (simp_all add: s2_def mod_queue_def)
  have x2: "neighbors s2 n = count_answer status 1 (neighbors s n)" by (simp add: s2_def mod_queue_def s1(4))
  have no: "status \<noteq> MAC_TX_OK" using st by (auto simp: csma_consts)
  have e: "attempt n status 1 s =
     (if nq_transmissions (neighbors s2 n) \<ge> md_max_transmissions (metadata s m) then tx_done status q n s2 else rexmit q n s2)"
    using packet_sent_answer [OF s1(6), of m status 1] m same st no
    by (auto simp: attempt_def s1(1) Let_def s2_def)
  show ?thesis
  proof (cases "nq_transmissions (neighbors s2 n) \<ge> md_max_transmissions (metadata s m)")
    case True
    note F = wf_free_packet [OF w2 n2(1,2)]
    have "queued s2 = queued s" "spare_bufs s2 = spare_bufs s"
      using quiet_queued [OF quiet_trans [OF s1(3) q2]] quiet_spare [OF quiet_trans [OF s1(3) q2]] by simp_all
    then show ?thesis
      using True F(1-3,10) n2 s1(5) m tx_done_eq [of s2 q m status n] by (intro disjI1 exI) (auto simp: e)
  next
    case False
    from rexmit_ok [OF w2 n2(1,2)] obtain s3 where s3: "rexmit q n s2 = Some s3" "quiet s2 s3" "mac_log s3 = mac_log s2"
        "metadata s3 = metadata s2" "nq_transmissions (neighbors s3 n) = nq_transmissions (neighbors s2 n)"
        "nq_collisions (neighbors s3 n) = nq_collisions (neighbors s2 n)" by blast
    have l: "uint (nq_transmissions (neighbors s2 n)) < uint (md_max_transmissions (metadata s m))"
      using False by (simp add: word_le_def)
    moreover have "uint (md_max_transmissions (metadata s m)) < 256"
      using uint_lt2p [of "md_max_transmissions (metadata s m)"] by simp
    moreover have "quiet s s3" by (rule quiet_trans [OF quiet_trans [OF s1(3) q2] s3(2)])
    ultimately show ?thesis using False s3 left s1(5) n2
      by (intro disjI2 exI [of _ s3]) (auto simp: e tries_left_def x2)
  qed
qed

text \<open>The repeated attempts at the first packet, each with its answer, until the packet is done.\<close>

fun retry :: "nat \<Rightarrow> nat \<Rightarrow> int list \<Rightarrow> csma_state \<Rightarrow> (csma_state \<times> bool) option" where
  "retry n q [] s = Some (s, False)"
| "retry n q (status # answers) s = do {
     s1 \<leftarrow> attempt n status 1 s;
     if q \<in> queued s1 then retry n q answers s1 else Some (s1, True)
   }"

lemma callback_queued: "mac_call_sent_callback c p st k s = Some s' \<Longrightarrow> queued s' = queued s"
  using quiet_callback quiet_queued by blast

lemma retry_ends:
  assumes "csma_wf s" and "n \<in> set (neighbor_list s)" and "nq_packets (neighbors s n) = q # qs"
    and "rb_ptr (packets s q) = Some m" and "set answers \<subseteq> {MAC_TX_NOACK, MAC_TX_COLLISION}"
    and "uint (nq_collisions (neighbors s n)) \<le> 5" and "uint (nq_transmissions (neighbors s n)) < 255"
    and "answers \<noteq> []" and "tries_left n m s \<le> int (length answers)"
  shows "\<exists>s' k j. retry n q answers s = map_option (\<lambda>t. (t, True))
        (mac_call_sent_callback (md_sent (metadata s m)) (md_cptr (metadata s m)) (answers ! (j - 1)) k s') \<and>
     csma_wf s' \<and> queued s' = queued s - {q} \<and> spare_bufs s' = spare_bufs s \<and>
     1 \<le> j \<and> j \<le> length answers \<and> mac_log s' = mac_log s @ replicate j (RdcSend n q)"
  using assms
proof (induction answers arbitrary: s)
  case Nil
  then show ?case by simp
next
  case (Cons status answers)
  have st: "status \<in> {MAC_TX_NOACK, MAC_TX_COLLISION}" "set answers \<subseteq> {MAC_TX_NOACK, MAC_TX_COLLISION}"
    using Cons.prems(5) by simp_all
  have qq: "q \<in> queued s" using Cons.prems(2,3) by (auto simp: queued_def intro!: bexI [of _ n])
  from attempt_fail [OF Cons.prems(1-4) st(1) Cons.prems(6,7)] show ?case
  proof (elim disjE exE conjE)
    fix s' k assume a: "attempt n status 1 s =
        mac_call_sent_callback (md_sent (metadata s m)) (md_cptr (metadata s m)) status k s'" "csma_wf s'"
      "queued s' = queued s - {q}" "spare_bufs s' = spare_bufs s" "mac_log s' = mac_log s @ [RdcSend n q]"
    have "retry n q (status # answers) s = map_option (\<lambda>t. (t, True))
        (mac_call_sent_callback (md_sent (metadata s m)) (md_cptr (metadata s m)) status k s')"
      using a(3) callback_queued
      by (cases "mac_call_sent_callback (md_sent (metadata s m)) (md_cptr (metadata s m)) status k s'") (auto simp: a(1))
    then show ?thesis using a by (intro exI [of _ s'] exI [of _ k] exI [of _ 1]) simp
  next
    fix s' assume a: "attempt n status 1 s = Some s'" "quiet s s'" "metadata s' = metadata s"
      "mac_log s' = mac_log s @ [RdcSend n q]" "uint (nq_collisions (neighbors s' n)) \<le> 5"
      "uint (nq_transmissions (neighbors s' n)) < 255" "0 < tries_left n m s'" "tries_left n m s' < tries_left n m s"
    have same: "queued s' = queued s" "neighbor_list s' = neighbor_list s" "packets s' = packets s"
      "nq_packets (neighbors s' n) = nq_packets (neighbors s n)"
      using a(2) by (simp_all add: quiet_queued quiet_def core_same_def)
    have "tries_left n m s' \<le> int (length answers)" using a(8) Cons.prems(9) by simp
    moreover from this a(7) have "answers \<noteq> []" by auto
    ultimately obtain s'' k j where r: "retry n q answers s' = map_option (\<lambda>t. (t, True))
        (mac_call_sent_callback (md_sent (metadata s m)) (md_cptr (metadata s m)) (answers ! (j - 1)) k s'')"
        "csma_wf s''" "queued s'' = queued s - {q}" "spare_bufs s'' = spare_bufs s'" "1 \<le> j" "j \<le> length answers"
        "mac_log s'' = mac_log s' @ replicate j (RdcSend n q)"
      using Cons.IH [of s'] quiet_wf [OF a(2) Cons.prems(1)] Cons.prems(2-4) st(2) a(3,5,6) same by auto
    have "retry n q (status # answers) s = retry n q answers s'" using a(1) same(1) qq by simp
    then show ?thesis using r a(4)
      by (intro exI [of _ s''] exI [of _ k] exI [of _ "Suc j"]) (simp add: quiet_spare [OF a(2)] nth_Cons')
  qed
qed

subsection \<open>Properties\<close>

text \<open>C10. No packet is retransmitted for ever: whatever mixture of missing acknowledgements and collisions the
  radio reports, the first packet of a queue is done after at most six attempts for each transmission
  it is allowed (five backoffs after a collision, then one transmission is counted). All attempts
  return; then the packet, its metadata and its queue buffer, and no others, have been given back to their
  pools, the invariant holds, and the sender of the packet is called with the answer to the attempt that was
  the last. What is left open is only what the sender's callback does.\<close>

theorem retries_end:
  assumes "csma_wf s" and "n \<in> set (neighbor_list s)" and "nq_packets (neighbors s n) = q # qs"
    and "rb_ptr (packets s q) = Some m" and "set answers \<subseteq> {MAC_TX_NOACK, MAC_TX_COLLISION}"
    and "uint (nq_collisions (neighbors s n)) \<le> 5" and "uint (nq_transmissions (neighbors s n)) < 255"
    and "answers \<noteq> []" and "6 * uint (md_max_transmissions (metadata s m)) \<le> int (length answers)"
  shows "\<exists>s' k j. retry n q answers s = map_option (\<lambda>t. (t, True))
        (mac_call_sent_callback (md_sent (metadata s m)) (md_cptr (metadata s m)) (answers ! (j - 1)) k s') \<and>
     1 \<le> j \<and> j \<le> length answers \<and> mac_log s' = mac_log s @ replicate j (RdcSend n q) \<and>
     csma_wf s' \<and> queued s' = queued s - {q} \<and> memb_used (packet_memb s') = memb_used (packet_memb s) - {q} \<and>
     card (memb_used (metadata_memb s')) + 1 = card (memb_used (metadata_memb s)) \<and>
     card (memb_used (bufmem s')) + 1 = card (memb_used (bufmem s)) \<and> spare_bufs s' = spare_bufs s"
proof -
  have "tries_left n m s \<le> int (length answers)" using assms(9) uint_ge_0 [of "nq_transmissions (neighbors s n)"] uint_ge_0 [of "nq_collisions (neighbors s n)"]
    unfolding tries_left_def right_diff_distrib by linarith
  from retry_ends [OF assms(1-8) this] obtain s' k j where r: "retry n q answers s = map_option (\<lambda>t. (t, True))
        (mac_call_sent_callback (md_sent (metadata s m)) (md_cptr (metadata s m)) (answers ! (j - 1)) k s')"
      "csma_wf s'" "queued s' = queued s - {q}" "spare_bufs s' = spare_bufs s"
      "1 \<le> j" "j \<le> length answers" "mac_log s' = mac_log s @ replicate j (RdcSend n q)" by blast
  have q: "q \<in> queued s" using assms(2,3) by (auto simp: queued_def intro!: bexI [of _ n])
  have c: "csma_core {} s" "csma_core {} s'" using assms(1) r(2) by (simp_all add: csma_wf_def)
  have fin: "finite (queued s)" by (simp add: queued_def)
  have one: "card (queued s') + 1 = card (queued s)" using q fin r(3) card_Suc_Diff1 by fastforce
  have "card (memb_used (metadata_memb t)) = card (queued t)" if "csma_core {} t" for t
    using that bij_betw_same_card by (fastforce simp: csma_core_def)
  then have m: "card (memb_used (metadata_memb s')) + 1 = card (memb_used (metadata_memb s))" using one c by simp
  have b: "card (memb_used (bufmem s')) + 1 = card (memb_used (bufmem s))"
    using used_card [OF c(1)] used_card [OF c(2)] one r(4) by simp
  have p: "memb_used (packet_memb s') = memb_used (packet_memb s) - {q}" using c r(3) by (simp add: csma_core_def)
  show ?thesis using r m b p by blast
qed

end
