(* ===== verification/CsmaReach.thy ===== *)
theory CsmaReach
  imports CsmaSent
begin

text \<open>
  The parts of a request to send: the sequence number, the queue of the receiver (opened when there is
  none), the allocation of the packet with its metadata and its queue buffer, and the enqueueing. Each
  keeps the invariant of \<open>CsmaInv\<close> up to the one queue that may still be empty.
\<close>

unbundle bit_operations_syntax

subsection \<open>A request to send\<close>

lemma quiet_next_seqno: "quiet s (next_seqno s)"
proof -
  define s1 where "s1 = (if csma_initialized s then s
      else (snd (mac_rand s))\<lparr>csma_initialized := True, seqno := fst (mac_rand s)\<rparr>)"
  define s2 where "s2 = (if seqno s1 = 0 then s1\<lparr>seqno := 1\<rparr> else s1)"
  have e: "next_seqno s = (packetbuf_set_attr PACKETBUF_ATTR_MAC_SEQNO (seqno s2) s2)\<lparr>seqno := seqno s2 + 1\<rparr>"
    by (simp add: next_seqno_def s1_def s2_def Let_def case_prod_beta)
  have "quiet s s1"
    using quiet_trans [OF quiet_trans [OF quiet_rand quiet_upd(4)] quiet_upd(5)] by (simp add: s1_def)
  moreover have "quiet s1 s2" by (simp add: s2_def quiet_upd)
  moreover have "quiet s2 (next_seqno s)" unfolding e by (rule quiet_trans [OF quiet_upd(7) quiet_upd(5)])
  ultimately show ?thesis by (blast intro: quiet_trans)
qed

lemma next_seqno_fields:
  "mac_log (next_seqno s) = mac_log s" "packetbuf_addrs (next_seqno s) = packetbuf_addrs s"
  "packetbuf_attr PACKETBUF_ATTR_MAC_SEQNO (next_seqno s) \<noteq> 0" "neighbors (next_seqno s) = neighbors s"
  by (auto simp: next_seqno_def Let_def packetbuf_set_attr_def packetbuf_attr_def mac_rand_def case_prod_beta)

text \<open>The queue the packet goes to.\<close>

definition open_queue :: "nat \<Rightarrow> csma_state \<Rightarrow> bool" where
  "open_queue n s \<longleftrightarrow> csma_core {n} s \<and> qb_wf s \<and> pb_wf s \<and> n \<in> set (neighbor_list s)"

lemma get_queue_None:
  assumes "csma_wf s" and "get_queue s = (s', None)"
  shows "s' = s" "length (neighbor_list s) = CSMA_MAX_NEIGHBOR_QUEUES"
proof -
  obtain m where m: "memb_alloc (neighbor_memb s) = (m, None)" and s': "s' = s\<lparr>neighbor_memb := m\<rparr>"
    using assms(2) by (auto simp: get_queue_def Let_def split: option.splits prod.splits)
  have p: "unit_pool (neighbor_memb s)" "mnum (neighbor_memb s) = CSMA_MAX_NEIGHBOR_QUEUES"
    "memb_used (neighbor_memb s) = set (neighbor_list s)" "distinct (neighbor_list s)"
    using assms(1) by (simp_all add: csma_wf_def csma_core_def)
  from alloc_None_full [OF p(1) m] p show "s' = s" "length (neighbor_list s) = CSMA_MAX_NEIGHBOR_QUEUES"
    by (simp_all add: s' distinct_card)
qed

lemma get_queue_Some:
  assumes "csma_wf s" and "get_queue s = (s', Some n)"
  shows "open_queue n s'" "queued s' = queued s" "mac_log s' = mac_log s"
    "nq_addr (neighbors s' n) = packetbuf_addr PACKETBUF_ADDR_RECEIVER s"
    "\<And>k. k \<in> set (neighbor_list s) \<Longrightarrow> neighbors s' k = neighbors s k" "metadata s' = metadata s"
    "spare_bufs s' = spare_bufs s"
proof -
  have c: "csma_core {} s" "qb_wf s" "pb_wf s" using assms(1) by (simp_all add: csma_wf_def)
  have all: "open_queue n s' \<and> queued s' = queued s \<and> mac_log s' = mac_log s \<and>
    nq_addr (neighbors s' n) = packetbuf_addr PACKETBUF_ADDR_RECEIVER s \<and>
    (\<forall>k \<in> set (neighbor_list s). neighbors s' k = neighbors s k) \<and> metadata s' = metadata s \<and> spare_bufs s' = spare_bufs s"
  proof (cases "neighbor_queue_from_addr (packetbuf_addr PACKETBUF_ADDR_RECEIVER s) s")
    case (Some k)
    with assms(2) have e: "s' = s" "k = n" by (simp_all add: get_queue_def)
    from Some have "n \<in> set (neighbor_list s)" "nq_addr (neighbors s n) = packetbuf_addr PACKETBUF_ADDR_RECEIVER s"
      using find_Some_set by (fastforce simp: neighbor_queue_from_addr_def e)+
    moreover have "csma_core {n} s" using c(1) unfolding csma_core_def by simp
    ultimately show ?thesis using c e by (simp add: open_queue_def)
  next
    case None
    then have new: "\<forall>k \<in> set (neighbor_list s). nq_addr (neighbors s k) \<noteq> packetbuf_addr PACKETBUF_ADDR_RECEIVER s"
      by (simp add: neighbor_queue_from_addr_def find_None_set)
    from None assms(2) obtain m where m: "memb_alloc (neighbor_memb s) = (m, Some n)"
      and s': "s' = (mod_queue n (\<lambda>x. x\<lparr>nq_addr := packetbuf_addr PACKETBUF_ADDR_RECEIVER s, nq_transmissions := 0,
          nq_collisions := CSMA_MIN_BE, nq_packets := []\<rparr>) (s\<lparr>neighbor_memb := m\<rparr>))\<lparr>neighbor_list := neighbor_list s @ [n]\<rparr>"
      by (auto simp: get_queue_def Let_def split: option.splits prod.splits)
    have p: "unit_pool (neighbor_memb s)" "memb_used (neighbor_memb s) = set (neighbor_list s)"
      using c(1) by (simp_all add: csma_core_def)
    note A = unit_pool_alloc [OF p(1) m, unfolded p(2)]
    define x where "x = (neighbors s n)\<lparr>nq_addr := packetbuf_addr PACKETBUF_ADDR_RECEIVER s, nq_transmissions := 0,
          nq_collisions := CSMA_MIN_BE, nq_packets := []\<rparr>"
    have f: "neighbors s' = (neighbors s)(n := x)" "neighbor_list s' = neighbor_list s @ [n]" "neighbor_memb s' = m"
      "packets s' = packets s" "packet_memb s' = packet_memb s" "metadata_memb s' = metadata_memb s"
      "bufmem s' = bufmem s" "mac_log s' = mac_log s" "metadata s' = metadata s"
      by (simp_all add: s' mod_queue_def x_def)
    have x: "nq_packets x = []" "nq_addr x = packetbuf_addr PACKETBUF_ADDR_RECEIVER s" by (simp_all add: x_def)
    have w: "qb_wf s' = qb_wf s" "pb_wf s' = pb_wf s" by (simp_all add: s' mod_queue_def qb_wf_def pb_wf_def)
    have old: "neighbors s' k = neighbors s k" if "k \<in> set (neighbor_list s)" for k using A that by (auto simp: f)
    then have qd: "queued s' = queued s" by (auto simp: queued_def f(2)) (simp_all add: f(1) x)
    have ia: "inj_on (\<lambda>k. nq_addr (neighbors s k)) (set (neighbor_list s))"
      and ds: "\<forall>k \<in> set (neighbor_list s). distinct (nq_packets (neighbors s k))"
      and dj: "\<forall>k \<in> set (neighbor_list s). \<forall>j \<in> set (neighbor_list s). k \<noteq> j \<longrightarrow>
        set (nq_packets (neighbors s k)) \<inter> set (nq_packets (neighbors s j)) = {}"
      and ne: "\<forall>k \<in> set (neighbor_list s). nq_packets (neighbors s k) \<noteq> []"
      using c(1) by (simp_all add: csma_core_def)
    have "inj_on (\<lambda>k. nq_addr (neighbors s' k)) (set (neighbor_list s'))"
      using ia new old A by (fastforce simp: inj_on_def f(2) f(1) x)
    moreover have "\<forall>k \<in> set (neighbor_list s'). \<forall>j \<in> set (neighbor_list s'). k \<noteq> j \<longrightarrow>
        set (nq_packets (neighbors s' k)) \<inter> set (nq_packets (neighbors s' j)) = {}"
      using dj by (simp add: f x)
    moreover have "\<forall>k \<in> set (neighbor_list s') - {n}. nq_packets (neighbors s' k) \<noteq> []"
      "\<forall>k \<in> set (neighbor_list s'). distinct (nq_packets (neighbors s' k))"
      using ne ds by (simp_all add: f x)
    ultimately have "csma_core {n} s'"
      using c(1) A unfolding csma_core_def qd f(2-7) by simp
    then show ?thesis using c w qd old f x by (simp add: open_queue_def spare_bufs_def)
  qed
  then show "open_queue n s'" "queued s' = queued s" "mac_log s' = mac_log s"
    "nq_addr (neighbors s' n) = packetbuf_addr PACKETBUF_ADDR_RECEIVER s"
    "\<And>k. k \<in> set (neighbor_list s) \<Longrightarrow> neighbors s' k = neighbors s k" "metadata s' = metadata s" "spare_bufs s' = spare_bufs s" by blast+
qed

text \<open>Fields the allocation of a queue buffer leaves alone.\<close>

lemma queuebuf_new_sel:
  assumes "queuebuf_new_from_packetbuf (s :: csma_state) = Some (s', p)"
  shows "neighbors s' = neighbors s \<and> neighbor_list s' = neighbor_list s \<and> neighbor_memb s' = neighbor_memb s \<and>
     packets s' = packets s \<and> packet_memb s' = packet_memb s \<and> metadata_memb s' = metadata_memb s \<and>
     metadata s' = metadata s \<and> mac_log s' = mac_log s \<and> mac_node s' = mac_node s \<and> packetbuf_attrs s' = packetbuf_attrs s"
  using assms by (auto simp: queuebuf_new_from_packetbuf_def split: prod.splits option.splits elim!: bind_SomeE)

text \<open>The pools may change representation, the packets outside the queues their contents.\<close>

lemma core_upd:
  assumes "csma_core E s" and "neighbors s' = neighbors s" and "neighbor_list s' = neighbor_list s"
    and "neighbor_memb s' = neighbor_memb s"
    and "unit_pool (packet_memb s') \<and> mnum (packet_memb s') = QUEUEBUF_NUM \<and> memb_used (packet_memb s') = queued s"
    and "unit_pool (metadata_memb s') \<and> mnum (metadata_memb s') = QUEUEBUF_NUM \<and>
      memb_used (metadata_memb s') = memb_used (metadata_memb s)"
    and "\<And>k. k \<in> queued s \<Longrightarrow> rb_ptr (packets s' k) = rb_ptr (packets s k) \<and> rb_buf (packets s' k) = rb_buf (packets s k)"
    and "memb_used (bufmem s) \<subseteq> memb_used (bufmem s')"
  shows "csma_core E s'" "queued s' = queued s"
proof -
  show q: "queued s' = queued s" by (simp add: queued_def assms(2,3))
  have b: "bij_betw (\<lambda>q. the (rb_ptr (packets s q))) (queued s) (memb_used (metadata_memb s))"
    "inj_on (\<lambda>q. the (rb_buf (packets s q))) (queued s)"
    "(\<lambda>q. the (rb_buf (packets s q))) ` queued s \<subseteq> memb_used (bufmem s)"
    "\<forall>q \<in> queued s. rb_ptr (packets s q) \<noteq> None \<and> rb_buf (packets s q) \<noteq> None"
    using assms(1) by (simp_all add: csma_core_def)
  have "bij_betw (\<lambda>q. the (rb_ptr (packets s' q))) (queued s) (memb_used (metadata_memb s))"
    by (rule bij_betw_cong [THEN iffD2, OF _ b(1)]) (simp add: assms(7))
  moreover have "inj_on (\<lambda>q. the (rb_buf (packets s' q))) (queued s)"
    by (rule inj_on_cong [THEN iffD2, OF _ b(2)]) (simp add: assms(7))
  moreover have "(\<lambda>q. the (rb_buf (packets s' q))) ` queued s \<subseteq> memb_used (bufmem s')"
    using b(3) assms(7,8) by (auto simp: image_subset_iff)
  moreover have "\<forall>q \<in> queued s. rb_ptr (packets s' q) \<noteq> None \<and> rb_buf (packets s' q) \<noteq> None"
    using b(4) assms(7) by simp
  ultimately show "csma_core E s'"
    using assms(1,5,6) unfolding csma_core_def q assms(2-4) by simp
qed

text \<open>A packet is added to a queue: it is one in use that no queue holds yet.\<close>

lemma core_enqueue:
  assumes c: "csma_core {n} s" and n: "n \<in> set (neighbor_list s)" and q: "q \<notin> queued s"
    and s': "neighbors s' = neighbors s" "neighbor_list s' = neighbor_list s" "neighbor_memb s' = neighbor_memb s"
    and pm: "unit_pool (packet_memb s') \<and> mnum (packet_memb s') = QUEUEBUF_NUM \<and> memb_used (packet_memb s') = insert q (queued s)"
    and mm: "unit_pool (metadata_memb s') \<and> mnum (metadata_memb s') = QUEUEBUF_NUM \<and>
      memb_used (metadata_memb s') = insert m (memb_used (metadata_memb s)) \<and> m \<notin> memb_used (metadata_memb s)"
    and bm: "memb_used (bufmem s') = insert b (memb_used (bufmem s)) \<and> b \<notin> memb_used (bufmem s)"
    and pk: "rb_ptr (packets s' q) = Some m" "rb_buf (packets s' q) = Some b"
    and old: "\<And>k. k \<in> queued s \<Longrightarrow> rb_ptr (packets s' k) = rb_ptr (packets s k) \<and> rb_buf (packets s' k) = rb_buf (packets s k)"
  shows "csma_core {} (mod_queue n (\<lambda>x. x\<lparr>nq_packets := nq_packets x @ [q]\<rparr>) s')"
    "queued (mod_queue n (\<lambda>x. x\<lparr>nq_packets := nq_packets x @ [q]\<rparr>) s') = insert q (queued s)"
    "spare_bufs (mod_queue n (\<lambda>x. x\<lparr>nq_packets := nq_packets x @ [q]\<rparr>) s') = spare_bufs s"
proof -
  define t where "t = mod_queue n (\<lambda>x. x\<lparr>nq_packets := nq_packets x @ [q]\<rparr>) s'"
  have e: "neighbor_list t = neighbor_list s" "neighbor_memb t = neighbor_memb s" "packets t = packets s'"
    "packet_memb t = packet_memb s'" "metadata_memb t = metadata_memb s'" "bufmem t = bufmem s'"
    by (simp_all add: t_def mod_queue_def s')
  have nb: "nq_packets (neighbors t k) = (if k = n then nq_packets (neighbors s n) @ [q] else nq_packets (neighbors s k))"
    "nq_addr (neighbors t k) = nq_addr (neighbors s k)" for k by (simp_all add: t_def mod_queue_def s')
  have qd: "queued t = insert q (queued s)" using n by (auto simp: queued_def e nb split: if_splits)
  have nq: "q \<notin> set (nq_packets (neighbors s k))" if "k \<in> set (neighbor_list s)" for k
    using q that by (auto simp: queued_def)
  have ds: "\<forall>k \<in> set (neighbor_list s). distinct (nq_packets (neighbors s k))"
    and dj: "\<forall>k \<in> set (neighbor_list s). \<forall>j \<in> set (neighbor_list s). k \<noteq> j \<longrightarrow>
        set (nq_packets (neighbors s k)) \<inter> set (nq_packets (neighbors s j)) = {}"
    and ne: "\<forall>k \<in> set (neighbor_list s) - {n}. nq_packets (neighbors s k) \<noteq> []"
    and b: "bij_betw (\<lambda>q. the (rb_ptr (packets s q))) (queued s) (memb_used (metadata_memb s))"
    "inj_on (\<lambda>q. the (rb_buf (packets s q))) (queued s)"
    "(\<lambda>q. the (rb_buf (packets s q))) ` queued s \<subseteq> memb_used (bufmem s)"
    "\<forall>q \<in> queued s. rb_ptr (packets s q) \<noteq> None \<and> rb_buf (packets s q) \<noteq> None"
    using c by (simp_all add: csma_core_def)
  have "bij_betw (\<lambda>q. the (rb_ptr (packets s' q))) (queued s) (memb_used (metadata_memb s))"
    by (rule bij_betw_cong [THEN iffD2, OF _ b(1)]) (simp add: old)
  from notIn_Un_bij_betw [OF q _ this, unfolded pk(1)] mm
  have "bij_betw (\<lambda>q. the (rb_ptr (packets s' q))) (insert q (queued s)) (memb_used (metadata_memb s'))" by (simp add: pk(1))
  moreover have i0: "inj_on (\<lambda>q. the (rb_buf (packets s' q))) (queued s)"
    by (rule inj_on_cong [THEN iffD2, OF _ b(2)]) (simp add: old)
  have im: "(\<lambda>q. the (rb_buf (packets s' q))) ` queued s \<subseteq> memb_used (bufmem s)"
    using b(3) old by (auto simp: image_subset_iff)
  then have "inj_on (\<lambda>q. the (rb_buf (packets s' q))) (insert q (queued s))"
    using i0 bm q pk(2) by auto
  moreover have "(\<lambda>q. the (rb_buf (packets s' q))) ` insert q (queued s) \<subseteq> memb_used (bufmem s')"
    using im bm pk(2) by auto
  moreover have "\<forall>q \<in> insert q (queued s). rb_ptr (packets s' q) \<noteq> None \<and> rb_buf (packets s' q) \<noteq> None"
    using b(4) old pk by simp
  moreover have "\<forall>k \<in> set (neighbor_list s) - {}. nq_packets (neighbors t k) \<noteq> []"
    "\<forall>k \<in> set (neighbor_list s). distinct (nq_packets (neighbors t k))"
    using ne ds nq n by (simp_all add: nb)
  moreover have "\<forall>k \<in> set (neighbor_list s). \<forall>j \<in> set (neighbor_list s). k \<noteq> j \<longrightarrow>
        set (nq_packets (neighbors t k)) \<inter> set (nq_packets (neighbors t j)) = {}"
    using dj nq by (simp add: nb)
  moreover have "inj_on (\<lambda>k. nq_addr (neighbors t k)) (set (neighbor_list s))" using c by (simp add: nb csma_core_def)
  ultimately have "csma_core {} t" using c pm mm unfolding csma_core_def qd e by simp
  moreover have "(\<lambda>q. the (rb_buf (packets s' q))) ` queued s = (\<lambda>q. the (rb_buf (packets s q))) ` queued s"
    using old by (intro image_cong) simp_all
  then have "spare_bufs t = spare_bufs s" using bm im by (auto simp: spare_bufs_def qd e pk(2))
  ultimately show "csma_core {} (mod_queue n (\<lambda>x. x\<lparr>nq_packets := nq_packets x @ [q]\<rparr>) s')"
    "queued (mod_queue n (\<lambda>x. x\<lparr>nq_packets := nq_packets x @ [q]\<rparr>) s') = insert q (queued s)"
    "spare_bufs (mod_queue n (\<lambda>x. x\<lparr>nq_packets := nq_packets x @ [q]\<rparr>) s') = spare_bufs s"
    using qd by (simp_all add: t_def)
qed

text \<open>The record of a packet that could be allocated.\<close>

definition sent_packet :: "csma_state \<Rightarrow> csma_state \<Rightarrow> mac_callback option \<Rightarrow> ptr \<Rightarrow> nat \<Rightarrow> bool" where
  "sent_packet s s' sent c q \<longleftrightarrow>
     (\<exists>m b. rb_ptr (packets s' q) = Some m \<and> rb_buf (packets s' q) = Some b \<and>
        rb_radio (packets s' q) = of_int (sending_in_LR (mac_node s)) \<and> qb_frame s' b = pb_frame s \<and>
        metadata s' m = \<lparr>md_sent = sent, md_cptr = c, md_max_transmissions =
          (if packetbuf_attr PACKETBUF_ATTR_MAX_MAC_TRANSMISSIONS s = 0 then CSMA_MAX_MAX_FRAME_RETRIES + 1
           else ucast (packetbuf_attr PACKETBUF_ATTR_MAX_MAC_TRANSMISSIONS s))\<rparr>)"

lemma alloc_packet_cases:
  assumes o: "open_queue n s"
  shows "\<exists>s' p. alloc_packet sent c s = Some (s', p) \<and> neighbors s' = neighbors s \<and> neighbor_list s' = neighbor_list s \<and>
     mac_log s' = mac_log s \<and> mac_node s' = mac_node s \<and>
     (case p of
        None \<Rightarrow> open_queue n s' \<and> queued s' = queued s \<and> spare_bufs s' = spare_bufs s \<and>
          (card (queued s) = QUEUEBUF_NUM \<or> card (memb_used (bufmem s)) = QUEUEBUF_NUM)
      | Some q \<Rightarrow> q \<notin> queued s \<and> csma_wf (mod_queue n (\<lambda>x. x\<lparr>nq_packets := nq_packets x @ [q]\<rparr>) s') \<and>
          queued (mod_queue n (\<lambda>x. x\<lparr>nq_packets := nq_packets x @ [q]\<rparr>) s') = insert q (queued s) \<and>
          spare_bufs (mod_queue n (\<lambda>x. x\<lparr>nq_packets := nq_packets x @ [q]\<rparr>) s') = spare_bufs s \<and>
          sent_packet s s' sent c q)"
proof -
  have w: "csma_core {n} s" "qb_wf s" "pb_wf s" "n \<in> set (neighbor_list s)" using o by (simp_all add: open_queue_def)
  have pp: "unit_pool (packet_memb s)" "mnum (packet_memb s) = QUEUEBUF_NUM" "memb_used (packet_memb s) = queued s"
    and mp: "unit_pool (metadata_memb s)" "mnum (metadata_memb s) = QUEUEBUF_NUM"
    and bij: "bij_betw (\<lambda>q. the (rb_ptr (packets s q))) (queued s) (memb_used (metadata_memb s))"
    using w(1) by (simp_all add: csma_core_def)
  show ?thesis
  proof (cases "snd (memb_alloc (packet_memb s))")
    case None
    then obtain pm where pm: "memb_alloc (packet_memb s) = (pm, None)" by (cases "memb_alloc (packet_memb s)") simp
    from alloc_None_full [OF pp(1) pm] pp have "pm = packet_memb s" "card (queued s) = QUEUEBUF_NUM" by simp_all
    then have "alloc_packet sent c s = Some (s, None)" by (simp add: alloc_packet_def pm)
    then show ?thesis using o \<open>card (queued s) = QUEUEBUF_NUM\<close> by (intro exI [of _ s] exI [of _ None]) simp
  next
    case (Some q)
    then obtain pm where pm: "memb_alloc (packet_memb s) = (pm, Some q)" by (cases "memb_alloc (packet_memb s)") simp
    note P = unit_pool_alloc [OF pp(1) pm, unfolded pp(3)]
    have "card (queued s) < QUEUEBUF_NUM" using P used_le [of pm] pp(2) by (auto simp: card_insert_if queued_def)
    then obtain mm m where mm: "memb_alloc (metadata_memb s) = (mm, Some m)"
      using unit_pool_room [OF mp(1)] bij_betw_same_card [OF bij] mp(2) by auto
    note M = unit_pool_alloc [OF mp(1) mm]
    define s0 where "s0 = s\<lparr>packet_memb := pm, metadata_memb := mm\<rparr>"
    have s0: "qb_wf s0" "pb_wf s0" "bufmem s0 = bufmem s" "pb_frame s0 = pb_frame s" "mac_node s0 = mac_node s"
      "neighbors s0 = neighbors s" "neighbor_list s0 = neighbor_list s" "neighbor_memb s0 = neighbor_memb s"
      "mac_log s0 = mac_log s" "packets s0 = packets s" "packet_memb s0 = pm" "metadata_memb s0 = mm"
      "packetbuf_attrs s0 = packetbuf_attrs s"
      using w(2,3) by (simp_all add: s0_def qb_wf_def pb_wf_def pb_frame_def pb_header_def pb_payload_def)
    from new_queuebuf [OF s0(1,2)] obtain s1 b where s1: "queuebuf_new_from_packetbuf s0 = Some (s1, b)" "qb_wf s1" "pb_wf s1"
        "b = None \<longleftrightarrow> card (memb_used (bufmem s0)) = QUEUEBUF_NUM"
        "case b of None \<Rightarrow> s1 = s0 | Some b \<Rightarrow> memb_used (bufmem s1) = insert b (memb_used (bufmem s0)) \<and>
          b \<notin> memb_used (bufmem s0) \<and> qb_frame s1 b = pb_frame s0 \<and> (\<forall>c \<in> memb_used (bufmem s0). qb_frame s1 c = qb_frame s0 c)"
      by blast
    note sel = queuebuf_new_sel [OF s1(1)]
    define s2 where "s2 = s1\<lparr>packets := (packets s1)(q := (packets s1 q)\<lparr>rb_ptr := Some m, rb_buf := b\<rparr>)\<rparr>"
    show ?thesis
    proof (cases b)
      case None
      define t where "t = s2\<lparr>metadata_memb := fst (memb_free (metadata_memb s2) m), packet_memb := fst (memb_free (packet_memb s2) q)\<rparr>"
      have "alloc_packet sent c s = Some (t, None)"
        using s1(1) unfolding None by (simp add: alloc_packet_def pm mm s0_def [symmetric] Let_def s2_def t_def None)
      moreover have f: "neighbors t = neighbors s" "neighbor_list t = neighbor_list s" "neighbor_memb t = neighbor_memb s"
        "mac_log t = mac_log s" "mac_node t = mac_node s" "packet_memb t = fst (memb_free pm q)"
        "metadata_memb t = fst (memb_free mm m)" "bufmem t = bufmem s1"
        "packets t = (packets s)(q := (packets s q)\<lparr>rb_ptr := Some m, rb_buf := b\<rparr>)"
        using sel s0 by (simp_all add: t_def s2_def)
      have wt: "qb_wf t" "pb_wf t" using s1(2,3) by (simp_all add: t_def s2_def qb_wf_def pb_wf_def)
      have FP: "unit_pool (fst (memb_free pm q))" "memb_used (fst (memb_free pm q)) = queued s" "mnum (fst (memb_free pm q)) = QUEUEBUF_NUM"
        using unit_pool_free [of pm q] P pp(2) by simp_all
      have FM: "unit_pool (fst (memb_free mm m))" "memb_used (fst (memb_free mm m)) = memb_used (metadata_memb s)"
        "mnum (fst (memb_free mm m)) = QUEUEBUF_NUM" using unit_pool_free [of mm m] M mp(2) by simp_all
      have qt: "csma_core {n} t \<and> queued t = queued s"
        using None s1(5) s0(3) P M pp(2) mp(2) by (intro conjI core_upd [OF w(1)]) (auto simp: f FP FM)
      have "(\<lambda>q. the (rb_buf (packets t q))) ` queued s = (\<lambda>q. the (rb_buf (packets s q))) ` queued s"
        using P by (intro image_cong) (auto simp: f)
      then have "spare_bufs t = spare_bufs s" using qt None s1(5) s0(3) by (simp add: spare_bufs_def f(8))
      moreover note qt
      moreover have "card (memb_used (bufmem s)) = QUEUEBUF_NUM" using None s1(4) s0(3) by simp
      ultimately show ?thesis using wt f w(4) by (intro exI [of _ t] exI [of _ None]) (simp add: open_queue_def)
    next
      case (Some b')
      define mt where "mt = (if packetbuf_attr PACKETBUF_ATTR_MAX_MAC_TRANSMISSIONS s = 0 then CSMA_MAX_MAX_FRAME_RETRIES + 1
           else ucast (packetbuf_attr PACKETBUF_ATTR_MAX_MAC_TRANSMISSIONS s))"
      define t where "t = s2\<lparr>metadata := (metadata s2)(m := \<lparr>md_sent = sent, md_cptr = c, md_max_transmissions = mt\<rparr>),
          packets := (packets s2)(q := (packets s2 q)\<lparr>rb_radio := of_int (sending_in_LR (mac_node s2))\<rparr>)\<rparr>"
      have at: "packetbuf_attr PACKETBUF_ATTR_MAX_MAC_TRANSMISSIONS s2 = packetbuf_attr PACKETBUF_ATTR_MAX_MAC_TRANSMISSIONS s"
        using sel s0(13) by (simp add: packetbuf_attr_def s2_def)
      have "alloc_packet sent c s = Some (t, Some q)"
        using s1(1) at unfolding Some
        by (simp add: alloc_packet_def pm mm s0_def [symmetric] Let_def s2_def t_def mt_def Some)
      moreover have f: "neighbors t = neighbors s" "neighbor_list t = neighbor_list s" "neighbor_memb t = neighbor_memb s"
        "mac_log t = mac_log s" "mac_node t = mac_node s" "packet_memb t = pm" "metadata_memb t = mm" "bufmem t = bufmem s1"
        "rb_ptr (packets t q) = Some m" "rb_buf (packets t q) = Some b'"
        "rb_radio (packets t q) = of_int (sending_in_LR (mac_node s))"
        "metadata t m = \<lparr>md_sent = sent, md_cptr = c, md_max_transmissions = mt\<rparr>"
        "\<And>k. k \<noteq> q \<Longrightarrow> packets t k = packets s k"
        using sel s0 Some by (simp_all add: t_def s2_def)
      have fr: "qb_frame t b' = qb_frame s1 b'" by (simp add: t_def s2_def qb_frame_def)
      define u where "u = mod_queue n (\<lambda>x. x\<lparr>nq_packets := nq_packets x @ [q]\<rparr>) t"
      have wu: "qb_wf u" "pb_wf u" using s1(2,3) by (simp_all add: u_def mod_queue_def t_def s2_def qb_wf_def pb_wf_def)
      have old: "rb_ptr (packets t k) = rb_ptr (packets s k) \<and> rb_buf (packets t k) = rb_buf (packets s k)"
        if "k \<in> queued s" for k using P that f(13) by (cases "k = q") simp_all
      have pools: "unit_pool (packet_memb t) \<and> mnum (packet_memb t) = QUEUEBUF_NUM \<and> memb_used (packet_memb t) = insert q (queued s)"
        "unit_pool (metadata_memb t) \<and> mnum (metadata_memb t) = QUEUEBUF_NUM \<and>
         memb_used (metadata_memb t) = insert m (memb_used (metadata_memb s)) \<and> m \<notin> memb_used (metadata_memb s)"
        "memb_used (bufmem t) = insert b' (memb_used (bufmem s)) \<and> b' \<notin> memb_used (bufmem s)"
        using P M pp(2) mp(2) s1(5) s0(3) Some by (simp_all add: f)
      have "q \<notin> queued s" using P by simp
      from core_enqueue [OF w(1,4) this f(1-3) pools f(9,10) old]
      have "csma_core {} u" "queued u = insert q (queued s)" "spare_bufs u = spare_bufs s" unfolding u_def by simp_all
      moreover have "sent_packet s t sent c q" using f fr s1(5) Some s0(4) by (simp add: sent_packet_def mt_def)
      ultimately show ?thesis using P wu f unfolding u_def
        by (intro exI [of _ t] exI [of _ "Some q"]) (simp add: csma_wf_def)
    qed
  qed
qed

text \<open>Giving back the queue when nothing could be put into it.\<close>

lemma open_close:
  assumes "open_queue n s"
  shows "csma_wf (if nq_packets (neighbors s n) = [] then drop_queue n s else s)"
    "queued (if nq_packets (neighbors s n) = [] then drop_queue n s else s) = queued s"
    "mac_log (if nq_packets (neighbors s n) = [] then drop_queue n s else s) = mac_log s"
    "spare_bufs (if nq_packets (neighbors s n) = [] then drop_queue n s else s) = spare_bufs s"
proof -
  have w: "csma_core {n} s" "qb_wf s" "pb_wf s" "n \<in> set (neighbor_list s)" using assms by (simp_all add: open_queue_def)
  have d: "qb_wf (drop_queue n s) = qb_wf s" "pb_wf (drop_queue n s) = pb_wf s" "mac_log (drop_queue n s) = mac_log s"
    by (simp_all add: drop_queue_def qb_wf_def pb_wf_def)
  show "csma_wf (if nq_packets (neighbors s n) = [] then drop_queue n s else s)"
    "queued (if nq_packets (neighbors s n) = [] then drop_queue n s else s) = queued s"
    "mac_log (if nq_packets (neighbors s n) = [] then drop_queue n s else s) = mac_log s"
    "spare_bufs (if nq_packets (neighbors s n) = [] then drop_queue n s else s) = spare_bufs s"
    using w d wf_drop_queue [OF w(1,4)] core_close [OF w(1)] by (simp_all add: csma_wf_def)
qed

end
