(* ===== verification/CsmaNet.thy ===== *)
theory CsmaNet
  imports CsmaReach RplReach
begin

text \<open>
  The CSMA layer as a machine that runs beside the rest of the node: requests to send, timers with the
  answers of the radio, and the steps of the node itself, in any order. In all reachable states
  the queues are well-formed, every waiting packet has a timer that will take it on, and the outcomes
  reported and the packets waiting add up to the requests.
\<close>

unbundle bit_operations_syntax

subsection \<open>The rest of the node\<close>

definition node_kept :: "csma_state \<Rightarrow> csma_state \<Rightarrow> bool" where
  "node_kept s s' \<longleftrightarrow> (node_wf (mac_node s) \<longrightarrow> node_wf (mac_node s'))"

lemma node_kept_refl [simp]: "node_kept s s"
  by (simp add: node_kept_def)

lemma node_kept_trans: "node_kept s s1 \<Longrightarrow> node_kept s1 s2 \<Longrightarrow> node_kept s s2"
  by (simp add: node_kept_def)

lemma node_kept_same: "mac_node s' = mac_node s \<Longrightarrow> node_kept s s'"
  by (simp add: node_kept_def)

lemma node_kept_rand: "node_kept s (snd (mac_rand s))"
  using same_random [of "mac_node s" "fst (random_rand (mac_node s))" "snd (random_rand (mac_node s))"] same_node_wf
  by (auto simp: node_kept_def mac_rand_def case_prod_beta)

lemma node_kept_switch: "mac_node s' = dual_radio_switch r (mac_node s) \<Longrightarrow> node_kept s s'"
  unfolding node_kept_def by (auto intro!: wf_steps)

lemma schedule_eq:
  "\<exists>t. schedule_transmission n s = mod_queue n (\<lambda>x. x\<lparr>nq_transmit_timer := Some t\<rparr>) s \<or>
       schedule_transmission n s = mod_queue n (\<lambda>x. x\<lparr>nq_transmit_timer := Some t\<rparr>) (snd (mac_rand s))"
  unfolding schedule_transmission_def Let_def by (auto split: prod.splits)

lemma mac_rand_fields: "neighbors (snd (mac_rand s)) = neighbors s" "neighbor_list (snd (mac_rand s)) = neighbor_list s"
  "mac_log (snd (mac_rand s)) = mac_log s"
  by (simp_all add: mac_rand_def case_prod_beta)

lemma schedule_others:
  "k \<noteq> n \<Longrightarrow> neighbors (schedule_transmission n s) k = neighbors s k"
  "neighbor_list (schedule_transmission n s) = neighbor_list s" "node_kept s (schedule_transmission n s)"
  using schedule_eq [of n s] node_kept_rand [of s] by (auto simp: mod_queue_def mac_rand_fields node_kept_def)

lemma callback_fields:
  assumes "mac_call_sent_callback c p st k s = Some s'"
  shows "mac_log s' = mac_log s @ [SentCallback c p st k]" "neighbors s' = neighbors s" "neighbor_list s' = neighbor_list s"
    "node_kept s s'"
proof -
  have w: "node_wf nd" if "node_wf (mac_node s)"
    "uip_ds6_link_neighbor_callback rpl_link_neighbor_callback a st k (mac_node s) = Some nd" for a nd
    using that wf_link_callback [THEN postD] by blast
  show "mac_log s' = mac_log s @ [SentCallback c p st k]" "neighbors s' = neighbors s" "neighbor_list s' = neighbor_list s"
    "node_kept s s'"
    using assms w by (auto simp: mac_call_sent_callback_def sicslowpan_packet_sent_def mac_emit_def Let_def
        packetbuf_addr_def node_kept_def split: option.splits mac_callback.splits elim!: bind_SomeE)
qed

lemma free_packet_others:
  assumes "csma_wf s" and "n \<in> set (neighbor_list s)" and "q \<in> set (nq_packets (neighbors s n))"
  shows "k \<noteq> n \<Longrightarrow> neighbors (free_packet n q s) k = neighbors s k" "node_kept s (free_packet n q s)"
proof -
  obtain b m where bm: "rb_buf (packets s q) = Some b" "rb_ptr (packets s q) = Some m"
    using core_parts [of "{}" s n q] assms by (auto simp: csma_wf_def)
  note R = wf_release [OF assms bm]
  show "k \<noteq> n \<Longrightarrow> neighbors (free_packet n q s) k = neighbors s k"
    using R by (simp add: free_packet_release [OF bm] Let_def schedule_others mod_queue_def drop_queue_def)
  show "node_kept s (free_packet n q s)"
    using R by (auto simp: free_packet_release [OF bm] Let_def mod_queue_def drop_queue_def
        intro!: node_kept_same node_kept_trans [OF _ schedule_others(3)])
qed

subsection \<open>Answers\<close>

text \<open>The outcome of an answer about the queue \<open>n\<close>: nothing but counters, timers and attributes changes, or one
  packet of the queue is done and reported.\<close>

definition waits :: "csma_state \<Rightarrow> nat \<Rightarrow> bool" where
  "waits s k \<longleftrightarrow> nq_transmit_timer (neighbors s k) \<noteq> None"

definition settled :: "nat \<Rightarrow> csma_state \<Rightarrow> csma_state \<Rightarrow> bool" where
  "settled n s s' \<longleftrightarrow> csma_wf s' \<and> node_kept s s' \<and> set (neighbor_list s') \<subseteq> set (neighbor_list s) \<and>
     (\<forall>k. k \<noteq> n \<longrightarrow> waits s' k = waits s k) \<and> spare_bufs s' = spare_bufs s \<and>
     ((queued s' = queued s \<and> mac_log s' = mac_log s) \<or>
      (\<exists>q c p st k. q \<in> queued s \<and> queued s' = queued s - {q} \<and> mac_log s' = mac_log s @ [SentCallback c p st k]))"

lemma settled_after:
  assumes "quiet s s1" and "node_kept s s1" and "mac_log s1 = mac_log s" and "\<And>k. k \<noteq> n \<Longrightarrow> waits s1 k = waits s k"
    and "settled n s1 s2"
  shows "settled n s s2"
proof -
  have "neighbor_list s1 = neighbor_list s" using assms(1) by (simp add: quiet_def core_same_def)
  with assms quiet_queued [OF assms(1)] quiet_spare [OF assms(1)] show ?thesis
    unfolding settled_def by (auto intro: node_kept_trans)
qed

lemma settled_quiet:
  assumes "csma_wf s" and "quiet s s'" and "node_kept s s'" and "mac_log s' = mac_log s" and "\<And>k. k \<noteq> n \<Longrightarrow> waits s' k = waits s k"
  shows "settled n s s'"
  using assms quiet_wf [OF assms(2,1)] quiet_queued [OF assms(2)] quiet_spare [OF assms(2)]
  by (simp add: settled_def) (simp add: quiet_def core_same_def)

lemma settled_tx_done:
  assumes "csma_wf s" and "n \<in> set (neighbor_list s)" and "q \<in> set (nq_packets (neighbors s n))"
    and "tx_done status q n s = Some s'"
  shows "settled n s s'" "n \<in> set (neighbor_list s') \<Longrightarrow> waits s' n"
proof -
  obtain m where m: "rb_ptr (packets s q) = Some m" and q: "q \<in> queued s"
    using core_parts [of "{}" s n q] assms by (auto simp: csma_wf_def)
  define t where "t = free_packet n q s"
  from assms(4) obtain k where cb: "mac_call_sent_callback (md_sent (metadata s m)) (md_cptr (metadata s m)) status k t = Some s'"
    by (simp add: tx_done_eq [OF m] t_def)
  note F = wf_free_packet [OF assms(1-3), folded t_def] and O = free_packet_others [OF assms(1-3), folded t_def]
  note C = callback_fields [OF cb]
  have d: "distinct (neighbor_list s)" using assms(1) by (simp add: csma_wf_def csma_core_def)
  have "csma_wf s'" "queued s' = queued s - {q}" "spare_bufs s' = spare_bufs s"
    using quiet_wf [OF quiet_callback [OF cb] F(1)] quiet_queued [OF quiet_callback [OF cb]] F(2)
      quiet_spare [OF quiet_callback [OF cb]] F(10) by simp_all
  moreover have "set (neighbor_list s') \<subseteq> set (neighbor_list s)" by (auto simp: C F(8) dest: set_remove1_subset [THEN subsetD])
  moreover have "mac_log s' = mac_log s @ [SentCallback (md_sent (metadata s m)) (md_cptr (metadata s m)) status k]"
    using C(1) F(3) by simp
  moreover have "node_kept s s'" using O(2) C(4) by (rule node_kept_trans)
  moreover have "waits s' j = waits s j" if "j \<noteq> n" for j using O(1) [OF that] by (simp add: waits_def C)
  ultimately show "settled n s s'" using q unfolding settled_def by blast
  show "waits s' n" if "n \<in> set (neighbor_list s')"
    using that F(8,9) d by (auto simp: waits_def C split: if_splits)
qed

lemma settled_rexmit:
  assumes "csma_wf s" and "n \<in> set (neighbor_list s)" and "q \<in> set (nq_packets (neighbors s n))"
    and "rexmit q n s = Some s'"
  shows "settled n s s'" "waits s' n"
proof -
  from rexmit_ok [OF assms(1-3)] assms(4) have R: "quiet s s'" "mac_log s' = mac_log s" "waits s' n" by (auto simp: waits_def)
  have "neighbors s' = neighbors (schedule_transmission n s)" "mac_node s' = mac_node (schedule_transmission n s)"
    using assms(4) by (auto simp: rexmit_def Let_def queuebuf_update_attr_from_packetbuf_def elim!: bind_SomeE)
  then have "node_kept s s'" "k \<noteq> n \<Longrightarrow> waits s' k = waits s k" for k
    using schedule_others(1) [of k n s] schedule_others(3) [of s n] by (simp_all add: waits_def node_kept_def)
  then show "settled n s s'" using settled_quiet [OF assms(1) R(1) _ R(2)] by blast
  show "waits s' n" by (rule R(3))
qed


lemma seqno_loop_finds:
  assumes "csma_wf s" and "n \<in> set (neighbor_list s)" and "set qs \<subseteq> set (nq_packets (neighbors s n))"
  shows "\<exists>p. seqno_loop qs s = Some p \<and> (\<forall>q. p = Some q \<longrightarrow> q \<in> set qs)"
  using assms(3)
proof (induction qs)
  case Nil
  then show ?case by simp
next
  case (Cons q qs)
  obtain b r where "rb_buf (packets s q) = Some b" "qb_ram_ptr s b = Some r"
    using core_parts(2) [of "{}" s n q] assms(1,2) Cons.prems by (fastforce simp: csma_wf_def qb_wf_def)
  with Cons show ?case by (auto simp: queuebuf_attr_def)
qed

lemma settled_packet_sent:
  assumes w: "csma_wf s" and n: "n \<in> set (neighbor_list s)" and ps: "packet_sent n status num s = Some s'"
  shows "settled n s s'" "waits s n \<Longrightarrow> n \<in> set (neighbor_list s') \<Longrightarrow> waits s' n"
    "seqno_loop (nq_packets (neighbors s n)) s \<noteq> Some None \<Longrightarrow> status \<noteq> MAC_TX_DEFERRED \<Longrightarrow>
       n \<in> set (neighbor_list s') \<Longrightarrow> waits s' n"
proof -
  from seqno_loop_finds [OF w n subset_refl] obtain p where p: "seqno_loop (nq_packets (neighbors s n)) s = Some p"
    and pq: "\<And>q. p = Some q \<Longrightarrow> q \<in> set (nq_packets (neighbors s n))" by blast
  have id: "settled n s s" using w by (simp add: settled_def)
  have "settled n s s' \<and> (n \<in> set (neighbor_list s') \<longrightarrow> (waits s n \<longrightarrow> waits s' n) \<and>
     (p \<noteq> None \<and> status \<noteq> MAC_TX_DEFERRED \<longrightarrow> waits s' n))"
  proof (cases p)
    case None
    then show ?thesis using ps p id by (simp add: packet_sent_def)
  next
    case (Some q)
    note q = pq [OF Some]
    obtain m where m: "rb_ptr (packets s q) = Some m"
      using core_parts(3) [of "{}" s n q] w n q by (auto simp: csma_wf_def)
    show ?thesis
    proof (cases "status \<in> {MAC_TX_OK, MAC_TX_NOACK, MAC_TX_COLLISION}")
      case True
      define s1 where "s1 = mod_queue n (count_answer status num) s"
      have q1: "quiet s s1" unfolding s1_def by (rule quiet_queue_upd) (auto simp: count_answer_def)
      have w1: "csma_wf s1" by (rule quiet_wf [OF q1 w])
      have f1: "n \<in> set (neighbor_list s1)" "q \<in> set (nq_packets (neighbors s1 n))"
        using q1 n q by (simp_all add: quiet_def core_same_def)
      have k1: "node_kept s s1" "mac_log s1 = mac_log s" "\<And>k. k \<noteq> n \<Longrightarrow> waits s1 k = waits s k"
        by (simp_all add: s1_def mod_queue_def node_kept_def waits_def)
      have "tx_done status q n s1 = Some s' \<or> rexmit q n s1 = Some s'"
        using ps packet_sent_answer [OF p [unfolded Some] m True, of num] by (auto simp: Let_def s1_def split: if_splits)
      then have "settled n s1 s'" "n \<in> set (neighbor_list s') \<Longrightarrow> waits s' n"
        using settled_tx_done [OF w1 f1] settled_rexmit [OF w1 f1] by blast+
      then show ?thesis using settled_after [OF q1 k1] by blast
    next
      case False
      show ?thesis
      proof (cases "status = MAC_TX_DEFERRED")
        case True
        then show ?thesis using ps p Some m id by (simp add: packet_sent_def csma_consts)
      next
        case False
        then have "tx_done status q n s = Some s'" using ps p Some m \<open>status \<notin> {MAC_TX_OK, MAC_TX_NOACK, MAC_TX_COLLISION}\<close>
          by (simp add: packet_sent_def)
        then show ?thesis using settled_tx_done [OF w n q] by blast
      qed
    qed
  qed
  then show "settled n s s'" "waits s n \<Longrightarrow> n \<in> set (neighbor_list s') \<Longrightarrow> waits s' n"
    "seqno_loop (nq_packets (neighbors s n)) s \<noteq> Some None \<Longrightarrow> status \<noteq> MAC_TX_DEFERRED \<Longrightarrow>
       n \<in> set (neighbor_list s') \<Longrightarrow> waits s' n" using p by auto
qed

subsection \<open>Requests to send\<close>

definition scheduled :: "nat set \<Rightarrow> csma_state \<Rightarrow> bool" where
  "scheduled E s \<longleftrightarrow> (\<forall>k \<in> set (neighbor_list s) - E. waits s k)"

lemma scheduled_same:
  "neighbors s' = neighbors s \<Longrightarrow> neighbor_list s' = neighbor_list s \<Longrightarrow> scheduled E s' = scheduled E s"
  by (simp add: scheduled_def waits_def)

lemma node_kept_next_seqno: "node_kept s (next_seqno s)"
proof -
  have "mac_node (next_seqno s) = (if csma_initialized s then mac_node s else mac_node (snd (mac_rand s)))"
    by (simp add: next_seqno_def Let_def packetbuf_set_attr_def case_prod_beta)
  then show ?thesis using node_kept_rand [of s] by (simp add: node_kept_def)
qed

lemma get_queue_more:
  assumes "csma_wf s" and "get_queue s = (s', Some n)"
  shows "set (neighbor_list s') = insert n (set (neighbor_list s))" "mac_node s' = mac_node s" "bufmem s' = bufmem s"
    "pb_frame s' = pb_frame s" "packetbuf_attrs s' = packetbuf_attrs s" "qb_frame s' b = qb_frame s b"
    "nq_packets (neighbors s' n) \<noteq> [] \<Longrightarrow> n \<in> set (neighbor_list s)"
  using assms(2) find_Some_set [of "\<lambda>n. nq_addr (neighbors s n) = packetbuf_addr PACKETBUF_ADDR_RECEIVER s" "neighbor_list s" n]
  by (auto simp: get_queue_def Let_def mod_queue_def pb_frame_def pb_header_def pb_payload_def qb_frame_def
      neighbor_queue_from_addr_def split: option.splits prod.splits)

lemma scheduled_get_queue:
  assumes "csma_wf s" and "get_queue s = (s', Some n)" and "scheduled {} s"
  shows "scheduled {n} s'" "nq_packets (neighbors s' n) \<noteq> [] \<Longrightarrow> scheduled {} s'"
  using assms(3) get_queue_Some(5) [OF assms(1,2)] get_queue_more(1,7) [OF assms(1,2)]
  by (auto simp: scheduled_def waits_def)

lemma open_wf: "open_queue n s \<Longrightarrow> nq_packets (neighbors s n) \<noteq> [] \<Longrightarrow> csma_wf s"
  using core_close [of n s] by (simp add: open_queue_def csma_wf_def)

lemma queued_full:
  assumes "open_queue n s" and "\<not> length (nq_packets (neighbors s n)) < CSMA_MAX_PACKET_PER_NEIGHBOR"
  shows "card (queued s) = QUEUEBUF_NUM"
proof -
  have c: "unit_pool (packet_memb s)" "mnum (packet_memb s) = QUEUEBUF_NUM" "memb_used (packet_memb s) = queued s"
    and d: "distinct (nq_packets (neighbors s n))" using assms(1) by (simp_all add: open_queue_def csma_core_def)
  have "set (nq_packets (neighbors s n)) \<subseteq> queued s" using assms(1) by (auto simp: open_queue_def queued_def)
  then have "length (nq_packets (neighbors s n)) \<le> card (queued s)"
    using card_mono [of "queued s" "set (nq_packets (neighbors s n))"] d c(3) finite_memb(2) [of "packet_memb s"]
    by (simp add: distinct_card)
  moreover have "card (queued s) \<le> QUEUEBUF_NUM" using used_le [OF c(1)] c(2,3) by simp
  ultimately show ?thesis using assms(2) by (simp add: CSMA_MAX_PACKET_PER_NEIGHBOR_def)
qed

text \<open>The two outcomes of a request.\<close>

definition accepted :: "mac_callback option \<Rightarrow> ptr \<Rightarrow> csma_state \<Rightarrow> csma_state \<Rightarrow> bool" where
  "accepted sent p s s' \<longleftrightarrow> csma_wf s' \<and> node_kept s s' \<and> mac_log s' = mac_log s \<and> (scheduled {} s \<longrightarrow> scheduled {} s') \<and> spare_bufs s' = spare_bufs s \<and>
     (\<exists>n q m b. n \<in> set (neighbor_list s') \<and> nq_addr (neighbors s' n) = packetbuf_addr PACKETBUF_ADDR_RECEIVER s \<and>
        q \<notin> queued s \<and> queued s' = insert q (queued s) \<and> (\<exists>qs. nq_packets (neighbors s' n) = qs @ [q]) \<and>
        rb_ptr (packets s' q) = Some m \<and> rb_buf (packets s' q) = Some b \<and>
        rb_radio (packets s' q) = of_int (sending_in_LR (mac_node s)) \<and>
        qb_frame s' b = pb_frame (next_seqno s) \<and>
        md_sent (metadata s' m) = sent \<and> md_cptr (metadata s' m) = p \<and>
        md_max_transmissions (metadata s' m) = (if packetbuf_attr PACKETBUF_ATTR_MAX_MAC_TRANSMISSIONS s = 0 then 8
           else ucast (packetbuf_attr PACKETBUF_ATTR_MAX_MAC_TRANSMISSIONS s)))"

definition refused :: "csma_state \<Rightarrow> csma_state \<Rightarrow> bool" where
  "refused s s' \<longleftrightarrow> csma_wf s' \<and> node_kept s s' \<and> mac_log s' = mac_log s \<and> (scheduled {} s \<longrightarrow> scheduled {} s') \<and>
     queued s' = queued s \<and> spare_bufs s' = spare_bufs s \<and>
     (length (neighbor_list s) = CSMA_MAX_NEIGHBOR_QUEUES \<or> card (queued s) = QUEUEBUF_NUM \<or>
      card (memb_used (bufmem s)) = QUEUEBUF_NUM)"

lemma next_seqno_more:
  "bufmem (next_seqno s) = bufmem s" "neighbor_list (next_seqno s) = neighbor_list s" "queued (next_seqno s) = queued s"
  "sending_in_LR (mac_node (next_seqno s)) = sending_in_LR (mac_node s)"
  "packetbuf_attr PACKETBUF_ATTR_MAX_MAC_TRANSMISSIONS (next_seqno s) = packetbuf_attr PACKETBUF_ATTR_MAX_MAC_TRANSMISSIONS s"
  "packetbuf_addr PACKETBUF_ADDR_RECEIVER (next_seqno s) = packetbuf_addr PACKETBUF_ADDR_RECEIVER s"
  "scheduled E (next_seqno s) = scheduled E s" "spare_bufs (next_seqno s) = spare_bufs s"
proof -
  note q = quiet_next_seqno [of s]
  show "queued (next_seqno s) = queued s" by (rule quiet_queued [OF q])
  show "spare_bufs (next_seqno s) = spare_bufs s" by (rule quiet_spare [OF q])
  show "bufmem (next_seqno s) = bufmem s" "neighbor_list (next_seqno s) = neighbor_list s"
    using q by (simp_all add: quiet_def core_same_def)
  then show "scheduled E (next_seqno s) = scheduled E s" by (intro scheduled_same next_seqno_fields(4))
  define s1 where "s1 = (if csma_initialized s then s
      else (snd (mac_rand s))\<lparr>csma_initialized := True, seqno := fst (mac_rand s)\<rparr>)"
  define s2 where "s2 = (if seqno s1 = 0 then s1\<lparr>seqno := 1\<rparr> else s1)"
  have e: "next_seqno s = (packetbuf_set_attr PACKETBUF_ATTR_MAC_SEQNO (seqno s2) s2)\<lparr>seqno := seqno s2 + 1\<rparr>"
    by (simp add: next_seqno_def s1_def s2_def Let_def case_prod_beta)
  have "mac_node s2 = mac_node s \<or> mac_node s2 = snd (random_rand (mac_node s))"
    "packetbuf_attrs s2 = packetbuf_attrs s" "packetbuf_addrs s2 = packetbuf_addrs s"
    by (auto simp: s2_def s1_def mac_rand_def case_prod_beta)
  then show "sending_in_LR (mac_node (next_seqno s)) = sending_in_LR (mac_node s)"
    "packetbuf_attr PACKETBUF_ATTR_MAX_MAC_TRANSMISSIONS (next_seqno s) = packetbuf_attr PACKETBUF_ATTR_MAX_MAC_TRANSMISSIONS s"
    "packetbuf_addr PACKETBUF_ADDR_RECEIVER (next_seqno s) = packetbuf_addr PACKETBUF_ADDR_RECEIVER s"
    by (auto simp: e packetbuf_set_attr_def packetbuf_attr_def packetbuf_addr_def random_rand_state sending_in_LR_def)
qed

text \<open>From the state \<open>s1\<close> in which the queue \<open>n\<close> is open.\<close>

lemma enqueue_cases:
  assumes o: "open_queue n s1" and lt: "length (nq_packets (neighbors s1 n)) < CSMA_MAX_PACKET_PER_NEIGHBOR"
    and sch: "scheduled {n} s1 \<and> (nq_packets (neighbors s1 n) \<noteq> [] \<longrightarrow> scheduled {} s1) \<or> \<not> P"
  shows "\<exists>s2 a. alloc_packet sent p s1 = Some (s2, a) \<and> (case a of
     Some q \<Rightarrow>
       (let s3 = mod_queue n (\<lambda>x. x\<lparr>nq_packets := nq_packets x @ [q]\<rparr>) s2;
            s' = (if first_of (nq_packets (neighbors s3 n)) = Some q then schedule_transmission n s3 else s3)
        in csma_wf s' \<and> node_kept s1 s' \<and> mac_log s' = mac_log s1 \<and> (P \<longrightarrow> scheduled {} s') \<and> neighbor_list s' = neighbor_list s1 \<and>
           nq_addr (neighbors s' n) = nq_addr (neighbors s1 n) \<and> nq_packets (neighbors s' n) = nq_packets (neighbors s1 n) @ [q] \<and>
           q \<notin> queued s1 \<and> queued s' = insert q (queued s1) \<and> spare_bufs s' = spare_bufs s1 \<and> sent_packet s1 s' sent p q)
   | None \<Rightarrow>
       (let s' = (if nq_packets (neighbors s2 n) = [] then drop_queue n s2 else s2)
        in csma_wf s' \<and> node_kept s1 s' \<and> mac_log s' = mac_log s1 \<and> (P \<longrightarrow> scheduled {} s') \<and> queued s' = queued s1 \<and> spare_bufs s' = spare_bufs s1 \<and>
           (card (queued s1) = QUEUEBUF_NUM \<or> card (memb_used (bufmem s1)) = QUEUEBUF_NUM)))"
proof -
  from alloc_packet_cases [OF o, of sent p] obtain s2 a where a: "alloc_packet sent p s1 = Some (s2, a)"
    "neighbors s2 = neighbors s1" "neighbor_list s2 = neighbor_list s1" "mac_log s2 = mac_log s1" "mac_node s2 = mac_node s1"
    and c: "case a of
        None \<Rightarrow> open_queue n s2 \<and> queued s2 = queued s1 \<and> spare_bufs s2 = spare_bufs s1 \<and>
          (card (queued s1) = QUEUEBUF_NUM \<or> card (memb_used (bufmem s1)) = QUEUEBUF_NUM)
      | Some q \<Rightarrow> q \<notin> queued s1 \<and> csma_wf (mod_queue n (\<lambda>x. x\<lparr>nq_packets := nq_packets x @ [q]\<rparr>) s2) \<and>
          queued (mod_queue n (\<lambda>x. x\<lparr>nq_packets := nq_packets x @ [q]\<rparr>) s2) = insert q (queued s1) \<and>
          spare_bufs (mod_queue n (\<lambda>x. x\<lparr>nq_packets := nq_packets x @ [q]\<rparr>) s2) = spare_bufs s1 \<and>
          sent_packet s1 s2 sent p q" by blast
  have n: "n \<in> set (neighbor_list s1)" "distinct (neighbor_list s1)" using o by (simp_all add: open_queue_def csma_core_def)
  show ?thesis
  proof (cases a)
    case None
    then have c: "open_queue n s2" "queued s2 = queued s1" "spare_bufs s2 = spare_bufs s1" "card (queued s1) = QUEUEBUF_NUM \<or> card (memb_used (bufmem s1)) = QUEUEBUF_NUM"
      using c by simp_all
    define s' where "s' = (if nq_packets (neighbors s2 n) = [] then drop_queue n s2 else s2)"
    have "csma_wf s'" "queued s' = queued s2" "mac_log s' = mac_log s2" "spare_bufs s' = spare_bufs s2" unfolding s'_def by (rule open_close [OF c(1)])+
    moreover have "P \<longrightarrow> scheduled {} s'" using sch n a by (auto simp: scheduled_def waits_def s'_def drop_queue_def)
    moreover have "node_kept s1 s'" using a by (simp add: s'_def node_kept_same drop_queue_def)
    ultimately show ?thesis using a c None by (simp add: s'_def Let_def)
  next
    case (Some q)
    define s3 where "s3 = mod_queue n (\<lambda>x. x\<lparr>nq_packets := nq_packets x @ [q]\<rparr>) s2"
    define s' where "s' = (if first_of (nq_packets (neighbors s3 n)) = Some q then schedule_transmission n s3 else s3)"
    have c: "q \<notin> queued s1" "csma_wf s3" "queued s3 = insert q (queued s1)" "sent_packet s1 s2 sent p q"
      "spare_bufs s3 = spare_bufs s1"
      using c Some by (simp_all add: s3_def)
    have q': "quiet s3 s'" by (simp add: s'_def quiet_schedule)
    have cs: "packets s' = packets s3" "metadata s' = metadata s3" "neighbor_list s' = neighbor_list s3"
      "\<And>k. nq_packets (neighbors s' k) = nq_packets (neighbors s3 k)" "\<And>k. nq_addr (neighbors s' k) = nq_addr (neighbors s3 k)"
      using q' by (simp_all add: quiet_def core_same_def)
    have f3: "neighbors s3 n = (neighbors s1 n)\<lparr>nq_packets := nq_packets (neighbors s1 n) @ [q]\<rparr>" "neighbor_list s3 = neighbor_list s1"
      "\<And>k. k \<noteq> n \<Longrightarrow> neighbors s3 k = neighbors s1 k" "mac_log s3 = mac_log s1" "mac_node s3 = mac_node s1"
      "packets s3 = packets s2" "metadata s3 = metadata s2" "\<And>b. qb_frame s3 b = qb_frame s2 b"
      using a by (simp_all add: s3_def mod_queue_def qb_frame_def)
    have k: "node_kept s1 s'" "mac_log s' = mac_log s1"
      using f3(4,5) schedule_others(3) [of s3 n] schedule_fields(1) [of n s3] by (auto simp: s'_def node_kept_def)
    have ram: "qb_frame s' b = qb_frame s2 b" for b
      using f3(8) [of b] schedule_fields(7,8) [of n s3] by (simp add: s'_def qb_frame_def)
    have "waits s' k" if "P" "k \<in> set (neighbor_list s1)" for k
    proof (cases "k = n")
      case True
      then show ?thesis
        using sch that f3(1,2) c(1) n(1) schedule_fields(5) [of n s3]
        by (cases "nq_packets (neighbors s1 n)") (auto simp: s'_def waits_def scheduled_def queued_def)
    next
      case False
      then show ?thesis using sch that f3(3) [OF False] schedule_others(1) [OF False, of s3]
        by (auto simp: s'_def waits_def scheduled_def)
    qed
    then have "P \<longrightarrow> scheduled {} s'" by (simp add: scheduled_def cs f3(2))
    moreover have "sent_packet s1 s' sent p q" using c(4) ram by (simp add: sent_packet_def cs f3)
    ultimately show ?thesis
      using a(1) c(1,3,5) k quiet_wf [OF q' c(2)] quiet_queued [OF q'] quiet_spare [OF q'] cs f3(1,2) unfolding Some
      by (intro exI [of _ s2] exI [of _ "Some q"]) (unfold option.case Let_def s3_def [symmetric] s'_def [symmetric], simp)
  qed
qed

lemma send_cases:
  assumes w: "csma_wf s"
  shows "(\<exists>s'. send_packet sent p s = Some s' \<and> accepted sent p s s') \<or>
     (\<exists>s'. send_packet sent p s = mac_call_sent_callback sent p MAC_TX_ERR 1 s' \<and> refused s s')"
proof -
  define s0 where "s0 = next_seqno s"
  have w0: "csma_wf s0" unfolding s0_def by (rule quiet_wf [OF quiet_next_seqno w])
  have k0: "node_kept s s0" "mac_log s0 = mac_log s" by (simp_all add: s0_def node_kept_next_seqno next_seqno_fields)
  note m0 = next_seqno_more [where s = s, folded s0_def]
  show ?thesis
  proof (cases "snd (get_queue s0)")
    case None
    then obtain s1 where s1: "get_queue s0 = (s1, None)" by (cases "get_queue s0") simp
    note G = get_queue_None [OF w0 s1]
    have "refused s s1" using w0 k0 G m0 by (simp add: refused_def)
    then show ?thesis using s1 by (auto simp: send_packet_def s0_def)
  next
    case (Some n)
    then obtain s1 where s1: "get_queue s0 = (s1, Some n)" by (cases "get_queue s0") simp
    note G = get_queue_Some [OF w0 s1] and M = get_queue_more [OF w0 s1]
    have k1: "node_kept s s1" using k0 M by (simp add: node_kept_def)
    have sc: "scheduled {} s \<Longrightarrow> scheduled {n} s1" "scheduled {} s \<Longrightarrow> nq_packets (neighbors s1 n) \<noteq> [] \<Longrightarrow> scheduled {} s1"
      using scheduled_get_queue [OF w0 s1] m0(7) by blast+
    show ?thesis
    proof (cases "length (nq_packets (neighbors s1 n)) < CSMA_MAX_PACKET_PER_NEIGHBOR")
      case False
      then have ne: "nq_packets (neighbors s1 n) \<noteq> []" by (auto simp: CSMA_MAX_PACKET_PER_NEIGHBOR_def QUEUEBUF_NUM_def)
      have "refused s s1" using open_wf [OF G(1) ne] queued_full [OF G(1) False] k0 k1 G sc ne m0 by (simp add: refused_def)
      then show ?thesis using s1 False by (auto simp: send_packet_def s0_def)
    next
      case True
      have "scheduled {n} s1 \<and> (nq_packets (neighbors s1 n) \<noteq> [] \<longrightarrow> scheduled {} s1) \<or> \<not> scheduled {} s" using sc by blast
      from enqueue_cases [OF G(1) True this, of sent p] obtain s2 a where
        a: "alloc_packet sent p s1 = Some (s2, a)" and c: "case a of
     Some q \<Rightarrow>
       (let s3 = mod_queue n (\<lambda>x. x\<lparr>nq_packets := nq_packets x @ [q]\<rparr>) s2;
            s' = (if first_of (nq_packets (neighbors s3 n)) = Some q then schedule_transmission n s3 else s3)
        in csma_wf s' \<and> node_kept s1 s' \<and> mac_log s' = mac_log s1 \<and> (scheduled {} s \<longrightarrow> scheduled {} s') \<and> neighbor_list s' = neighbor_list s1 \<and>
           nq_addr (neighbors s' n) = nq_addr (neighbors s1 n) \<and> nq_packets (neighbors s' n) = nq_packets (neighbors s1 n) @ [q] \<and>
           q \<notin> queued s1 \<and> queued s' = insert q (queued s1) \<and> spare_bufs s' = spare_bufs s1 \<and> sent_packet s1 s' sent p q)
   | None \<Rightarrow>
       (let s' = (if nq_packets (neighbors s2 n) = [] then drop_queue n s2 else s2)
        in csma_wf s' \<and> node_kept s1 s' \<and> mac_log s' = mac_log s1 \<and> (scheduled {} s \<longrightarrow> scheduled {} s') \<and> queued s' = queued s1 \<and> spare_bufs s' = spare_bufs s1 \<and>
           (card (queued s1) = QUEUEBUF_NUM \<or> card (memb_used (bufmem s1)) = QUEUEBUF_NUM))" by blast
      show ?thesis
      proof (cases a)
        case None
        define s' where "s' = (if nq_packets (neighbors s2 n) = [] then drop_queue n s2 else s2)"
        have "send_packet sent p s = mac_call_sent_callback sent p MAC_TX_ERR 1 s'"
          using s1 True a None by (simp add: send_packet_def s0_def s'_def)
        moreover have "refused s s'"
          using c unfolding None option.case Let_def s'_def [symmetric] using k0 k1 G(2,3,7) m0 M(3)
          by (auto simp: refused_def intro: node_kept_trans)
        ultimately show ?thesis by blast
      next
        case (Some q)
        define s3 where "s3 = mod_queue n (\<lambda>x. x\<lparr>nq_packets := nq_packets x @ [q]\<rparr>) s2"
        define s' where "s' = (if first_of (nq_packets (neighbors s3 n)) = Some q then schedule_transmission n s3 else s3)"
        have e: "send_packet sent p s = Some s'"
          using s1 True a Some unfolding s'_def s3_def by (simp add: send_packet_def s0_def [symmetric] Let_def)
        have C: "csma_wf s'" "node_kept s1 s'" "mac_log s' = mac_log s1" "scheduled {} s \<longrightarrow> scheduled {} s'"
          "neighbor_list s' = neighbor_list s1" "nq_addr (neighbors s' n) = nq_addr (neighbors s1 n)"
          "nq_packets (neighbors s' n) = nq_packets (neighbors s1 n) @ [q]" "q \<notin> queued s1"
          "queued s' = insert q (queued s1)" "sent_packet s1 s' sent p q" "spare_bufs s' = spare_bufs s1"
          using c unfolding Some option.case Let_def s3_def [symmetric] s'_def [symmetric] by blast+
        from C(10) obtain m b where mb: "rb_ptr (packets s' q) = Some m" "rb_buf (packets s' q) = Some b"
          "rb_radio (packets s' q) = of_int (sending_in_LR (mac_node s1))" "qb_frame s' b = pb_frame s1"
          "metadata s' m = \<lparr>md_sent = sent, md_cptr = p, md_max_transmissions =
          (if packetbuf_attr PACKETBUF_ATTR_MAX_MAC_TRANSMISSIONS s1 = 0 then CSMA_MAX_MAX_FRAME_RETRIES + 1
           else ucast (packetbuf_attr PACKETBUF_ATTR_MAX_MAC_TRANSMISSIONS s1))\<rparr>" by (auto simp: sent_packet_def)
        have at: "packetbuf_attr PACKETBUF_ATTR_MAX_MAC_TRANSMISSIONS s1 = packetbuf_attr PACKETBUF_ATTR_MAX_MAC_TRANSMISSIONS s"
          using m0(5) M(5) by (simp add: packetbuf_attr_def)
        have "n \<in> set (neighbor_list s')" using M(1) C(5) by simp
        moreover have "rb_radio (packets s' q) = of_int (sending_in_LR (mac_node s))" using mb(3) M(2) m0(4) by simp
        moreover have "node_kept s s'" using k1 C(2) by (rule node_kept_trans)
        moreover have "qb_frame s' b = pb_frame (next_seqno s)" using mb(4) M(4) by (simp add: s0_def)
        moreover have "CSMA_MAX_MAX_FRAME_RETRIES + 1 = 8" by (simp add: CSMA_MAX_MAX_FRAME_RETRIES_def)
        ultimately have "accepted sent p s s'"
          using C(1,3,4,6-9,11) mb(1,2,5) at k0(2) G(2-4,7) m0(3,6,8)
          unfolding accepted_def by (intro conjI exI [of _ n] exI [of _ q] exI [of _ m] exI [of _ b]) simp_all
        then show ?thesis using e by blast
      qed
    qed
  qed
qed

subsection \<open>The machine\<close>

text \<open>The inputs. A request comes with the packet buffer the layers above have filled; when a timer expires the
  first frame of the queue is handed down and the radio duty cycling answers, having left the packet
  buffer in any state with the same sequence number (\<open>dualmac.c\<close> never defers a frame).\<close>

datatype mac_input =
    Request pb_state "mac_callback option" ptr
  | Transmit nat pb_state int int
  | NodeInput node_event

definition set_packetbuf :: "pb_state \<Rightarrow> csma_state \<Rightarrow> csma_state" where
  "set_packetbuf b s = s\<lparr>packetbuf := packetbuf b, buflen := buflen b, bufptr := bufptr b, hdrlen := hdrlen b,
     packetbuf_attrs := packetbuf_attrs b, packetbuf_addrs := packetbuf_addrs b\<rparr>"

definition expire_timer :: "nat \<Rightarrow> csma_state \<Rightarrow> csma_state" where
  "expire_timer n s = mod_queue n (\<lambda>x. x\<lparr>nq_transmit_timer := None\<rparr>) s"

inductive mac_step :: "csma_state \<Rightarrow> mac_input \<Rightarrow> csma_state \<Rightarrow> bool" where
  request: "pb_wf b \<Longrightarrow> send_packet sent p (set_packetbuf b s) = Some s' \<Longrightarrow> mac_step s (Request b sent p) s'"
| transmit: "n \<in> set (neighbor_list s) \<Longrightarrow> waits s n \<Longrightarrow> transmit_packet_list n (expire_timer n s) = Some s1 \<Longrightarrow>
    pb_wf b \<Longrightarrow> packetbuf_attrs b PACKETBUF_ATTR_MAC_SEQNO = packetbuf_attrs s1 PACKETBUF_ATTR_MAC_SEQNO \<Longrightarrow>
    status \<noteq> MAC_TX_DEFERRED \<Longrightarrow> packet_sent n status num (set_packetbuf b s1) = Some s' \<Longrightarrow>
    mac_step s (Transmit n b status num) s'"
| node: "node_step (mac_node s) e nd \<Longrightarrow> mac_step s (NodeInput e) (s\<lparr>mac_node := nd\<rparr>)"

inductive_cases mac_stepE: "mac_step s i s'"

text \<open>The memory at power-on, and a started layer on a started node.\<close>

definition csma_power_on :: "rpl_state \<Rightarrow> csma_state" where
  "csma_power_on nd =
     \<lparr>packetbuf = replicate 128 0, buflen = 0, bufptr = 0, hdrlen = 0, packetbuf_attrs = (\<lambda>_. 0),
      packetbuf_addrs = (\<lambda>_. linkaddr_null),
      bufmem = fresh_memb QUEUEBUF_NUM, buframmem = fresh_memb QUEUEBUF_NUM, qb_ram_ptr = (\<lambda>_. None),
      qb_ram = (\<lambda>_. \<lparr>qd_data = replicate 128 0, qd_len = 0, qd_attrs = (\<lambda>_. 0), qd_addrs = (\<lambda>_. linkaddr_null)\<rparr>),
      neighbor_memb = fresh_memb CSMA_MAX_NEIGHBOR_QUEUES, packet_memb = fresh_memb QUEUEBUF_NUM,
      metadata_memb = fresh_memb QUEUEBUF_NUM, neighbor_list = [],
      neighbors = (\<lambda>_. \<lparr>nq_addr = linkaddr_null, nq_transmit_timer = None, nq_transmissions = 0, nq_collisions = 0,
                        nq_packets = []\<rparr>),
      packets = (\<lambda>_. \<lparr>rb_buf = None, rb_ptr = None, rb_radio = 0\<rparr>),
      metadata = (\<lambda>_. \<lparr>md_sent = None, md_cptr = None, md_max_transmissions = 0\<rparr>),
      csma_initialized = False, seqno = 0, mac_node = nd, mac_log = [], last_tx_status = 0\<rparr>"

definition csma_boot :: "rpl_state \<Rightarrow> csma_state" where
  "csma_boot nd = csma_init (queuebuf_init (csma_power_on nd))"

text \<open>\<open>mac_run k s\<close>: the state \<open>s\<close> is reached with \<open>k\<close> requests.\<close>

inductive mac_run :: "nat \<Rightarrow> csma_state \<Rightarrow> bool" where
  start: "node_boot a b r = Some nd \<Longrightarrow> mac_run 0 (csma_boot nd)"
| input: "mac_run k s \<Longrightarrow> mac_step s i s' \<Longrightarrow> mac_run (case i of Request _ _ _ \<Rightarrow> k + 1 | _ \<Rightarrow> k) s'"

definition reports :: "csma_state \<Rightarrow> nat" where
  "reports s = length (filter (\<lambda>e. case e of SentCallback _ _ _ _ \<Rightarrow> True | _ \<Rightarrow> False) (mac_log s))"

definition run_ok :: "nat \<Rightarrow> csma_state \<Rightarrow> bool" where
  "run_ok k s \<longleftrightarrow> csma_wf s \<and> node_wf (mac_node s) \<and> scheduled {} s \<and> k = card (queued s) + reports s \<and> spare_bufs s = {}"

lemma boot_ok: "node_boot a b r = Some nd \<Longrightarrow> run_ok 0 (csma_boot nd)"
proof -
  assume "node_boot a b r = Some nd"
  then have n: "node_wf nd" by (rule wf_boot)
  have e: "csma_boot nd = csma_power_on nd"
    by (simp add: csma_boot_def csma_init_def queuebuf_init_def csma_power_on_def fresh_unit(4))
  have "csma_wf (csma_power_on nd)"
    by (simp add: csma_wf_def qb_wf_def pb_wf_def csma_core_def csma_power_on_def fresh_unit queued_def PACKETBUF_SIZE_def bij_betw_def)
  with n show ?thesis unfolding e
    by (simp add: run_ok_def scheduled_def reports_def queued_def spare_bufs_def) (simp add: csma_power_on_def fresh_unit)
qed

lemma set_packetbuf_quiet: "pb_wf b \<Longrightarrow> quiet s (set_packetbuf b s)"
  by (simp add: quiet_def core_same_def set_packetbuf_def qb_wf_def pb_wf_def)

lemma set_packetbuf_fields:
  "neighbors (set_packetbuf b s) = neighbors s" "neighbor_list (set_packetbuf b s) = neighbor_list s"
  "mac_log (set_packetbuf b s) = mac_log s" "mac_node (set_packetbuf b s) = mac_node s"
  by (simp_all add: set_packetbuf_def)

lemma request_ok:
  assumes "run_ok k s" and "pb_wf b" and "send_packet sent p (set_packetbuf b s) = Some s'"
  shows "run_ok (k + 1) s'"
proof -
  define s0 where "s0 = set_packetbuf b s"
  have w: "csma_wf s0" unfolding s0_def by (rule quiet_wf [OF set_packetbuf_quiet [OF assms(2)]]) (use assms(1) in \<open>simp add: run_ok_def\<close>)
  have q0: "queued s0 = queued s" unfolding s0_def by (rule quiet_queued [OF set_packetbuf_quiet [OF assms(2)]])
  have s0: "scheduled {} s0" "node_wf (mac_node s0)" "mac_log s0 = mac_log s" "k = card (queued s) + reports s" "spare_bufs s0 = {}"
    using assms(1) quiet_spare [OF set_packetbuf_quiet [OF assms(2)], of s] scheduled_same [of s0 s] by (simp_all add: s0_def set_packetbuf_fields run_ok_def)
  have fin: "finite (queued s)" by (simp add: queued_def)
  from send_cases [OF w, of sent p] assms(3) show ?thesis
  proof (elim disjE exE conjE)
    fix t assume "send_packet sent p s0 = Some t" and a: "accepted sent p s0 t"
    then have "t = s'" using assms(3) by (simp add: s0_def)
    with a s0 fin show ?thesis by (auto simp: accepted_def run_ok_def node_kept_def reports_def q0)
  next
    fix t assume "send_packet sent p s0 = mac_call_sent_callback sent p MAC_TX_ERR 1 t" and r: "refused s0 t"
    then have cb: "mac_call_sent_callback sent p MAC_TX_ERR 1 t = Some s'" using assms(3) by (simp add: s0_def)
    note C = callback_fields [OF cb]
    have "csma_wf t" using r by (simp add: refused_def)
    from quiet_wf [OF quiet_callback [OF cb] this] have "csma_wf s'" .
    moreover have "queued s' = queued t" "spare_bufs s' = spare_bufs t"
      by (rule quiet_queued [OF quiet_callback [OF cb]], rule quiet_spare [OF quiet_callback [OF cb]])
    ultimately show ?thesis using r s0 C scheduled_same [OF C(2,3)]
      by (simp add: refused_def run_ok_def node_kept_def reports_def q0)
  qed
qed

text \<open>When the timer of a queue expires, its first frame is handed down, and the answer finds it.\<close>

lemma transmit_found:
  assumes w: "csma_wf s" and n: "n \<in> set (neighbor_list s)" and t: "transmit_packet_list n (expire_timer n s) = Some s1"
  shows "csma_wf s1" "quiet s s1" "node_kept s s1" "\<exists>q. mac_log s1 = mac_log s @ [RdcSend n q]"
    "neighbor_list s1 = neighbor_list s" "\<And>k. k \<noteq> n \<Longrightarrow> waits s1 k = waits s k"
    "\<And>b. pb_wf b \<Longrightarrow> packetbuf_attrs b PACKETBUF_ATTR_MAC_SEQNO = packetbuf_attrs s1 PACKETBUF_ATTR_MAC_SEQNO \<Longrightarrow>
       seqno_loop (nq_packets (neighbors (set_packetbuf b s1) n)) (set_packetbuf b s1) \<noteq> Some None"
proof -
  define s0 where "s0 = expire_timer n s"
  have q0: "quiet s s0" unfolding s0_def expire_timer_def by (rule quiet_queue_upd) simp_all
  have w0: "csma_wf s0" by (rule quiet_wf [OF q0 w])
  have n0: "n \<in> set (neighbor_list s0)" using n by (simp add: s0_def expire_timer_def mod_queue_def)
  from wf_transmit [OF w0 n0] t obtain q b where
    W: "csma_wf s1" "quiet s0 s1" "mac_log s1 = mac_log s0 @ [RdcSend n q]"
      "first_of (nq_packets (neighbors s0 n)) = Some q" "rb_buf (packets s0 q) = Some b" "pb_frame s1 = qb_frame s0 b"
      "mac_node s1 = dual_radio_switch (uint (rb_radio (packets s0 q))) (mac_node s0)" "neighbors s1 = neighbors s0"
      "qb_ram s1 = qb_ram s0" "qb_ram_ptr s1 = qb_ram_ptr s0" by (auto simp: s0_def)
  show "csma_wf s1" by (rule W(1))
  show "quiet s s1" by (rule quiet_trans [OF q0 W(2)])
  have "node_kept s s0" by (simp add: s0_def expire_timer_def mod_queue_def node_kept_same)
  then show "node_kept s s1" by (rule node_kept_trans [OF _ node_kept_switch [OF W(7)]])
  show "\<exists>q. mac_log s1 = mac_log s @ [RdcSend n q]" using W(3) by (auto simp: s0_def expire_timer_def mod_queue_def)
  show "neighbor_list s1 = neighbor_list s" using \<open>quiet s s1\<close> by (simp add: quiet_def core_same_def)
  show "waits s1 k = waits s k" if "k \<noteq> n" for k
    using that by (simp add: waits_def W(8)) (simp add: s0_def expire_timer_def mod_queue_def)
  fix c :: pb_state
  assume c: "pb_wf c" "packetbuf_attrs c PACKETBUF_ATTR_MAC_SEQNO = packetbuf_attrs s1 PACKETBUF_ATTR_MAC_SEQNO"
  obtain qs where qs: "nq_packets (neighbors s0 n) = q # qs"
    using W(4) by (cases "nq_packets (neighbors s0 n)") simp_all
  obtain r where r: "qb_ram_ptr s0 b = Some r"
    using core_parts(2) [of "{}" s0 n q] w0 n0 W(5) qs by (auto simp: csma_wf_def qb_wf_def)
  have "packetbuf_attrs s1 = qd_attrs (qb_ram s0 r)" using W(6) r by (simp add: pb_frame_def qb_frame_def Let_def)
  moreover have "packets s1 = packets s0" using W(2) by (simp add: quiet_def core_same_def)
  ultimately show "seqno_loop (nq_packets (neighbors (set_packetbuf c s1) n)) (set_packetbuf c s1) \<noteq> Some None"
    using c(2) r W(5,8-10) qs by (simp add: set_packetbuf_def queuebuf_attr_def packetbuf_attr_def)
qed

lemma transmit_ok:
  assumes ok: "run_ok k s" and n: "n \<in> set (neighbor_list s)" and t: "transmit_packet_list n (expire_timer n s) = Some s1"
    and b: "pb_wf b" "packetbuf_attrs b PACKETBUF_ATTR_MAC_SEQNO = packetbuf_attrs s1 PACKETBUF_ATTR_MAC_SEQNO"
    and st: "status \<noteq> MAC_TX_DEFERRED" and ps: "packet_sent n status num (set_packetbuf b s1) = Some s'"
  shows "run_ok k s'"
proof -
  have w: "csma_wf s" "scheduled {} s" "node_wf (mac_node s)" "k = card (queued s) + reports s" "spare_bufs s = {}"
    using ok by (simp_all add: run_ok_def)
  note T = transmit_found [OF w(1) n t]
  define s2 where "s2 = set_packetbuf b s1"
  have q2: "quiet s1 s2" unfolding s2_def by (rule set_packetbuf_quiet [OF b(1)])
  have f2: "neighbors s2 = neighbors s1" "neighbor_list s2 = neighbor_list s1" "mac_log s2 = mac_log s1" "mac_node s2 = mac_node s1"
    by (simp_all add: s2_def set_packetbuf_fields)
  have w2: "csma_wf s2" by (rule quiet_wf [OF q2 T(1)])
  have n2: "n \<in> set (neighbor_list s2)" using n T(5) f2 by simp
  note S = settled_packet_sent [OF w2 n2 ps [folded s2_def]]
  have seen: "seqno_loop (nq_packets (neighbors s2 n)) s2 \<noteq> Some None" using T(7) [OF b] by (simp add: s2_def)
  have "waits s' j" if "j \<in> set (neighbor_list s')" for j
  proof (cases "j = n")
    case True
    with S(3) [OF seen st] that show ?thesis by simp
  next
    case False
    then have "waits s' j = waits s j" using S(1) T(6) [OF False] f2 by (simp add: settled_def waits_def)
    moreover have "j \<in> set (neighbor_list s)" using S(1) that f2 T(5) by (auto simp: settled_def)
    ultimately show ?thesis using w(2) by (simp add: scheduled_def)
  qed
  then have "scheduled {} s'" by (simp add: scheduled_def)
  moreover have qq: "queued s2 = queued s" by (rule quiet_queued [OF quiet_trans [OF T(2) q2]])
  have fin: "finite (queued s)" by (simp add: queued_def)
  have r2: "reports s2 = reports s" using T(4) by (auto simp: reports_def f2)
  have "card (queued s') + reports s' = card (queued s) + reports s"
  proof -
    from S(1) have "(queued s' = queued s2 \<and> mac_log s' = mac_log s2) \<or>
      (\<exists>q c p st k. q \<in> queued s2 \<and> queued s' = queued s2 - {q} \<and> mac_log s' = mac_log s2 @ [SentCallback c p st k])"
      by (simp add: settled_def)
    then show ?thesis
    proof (elim disjE exE conjE)
      assume "queued s' = queued s2" "mac_log s' = mac_log s2"
      then show ?thesis using r2 qq by (simp add: reports_def)
    next
      fix q c p st k
      assume d: "q \<in> queued s2" "queued s' = queued s2 - {q}" "mac_log s' = mac_log s2 @ [SentCallback c p st k]"
      then have "Suc (card (queued s')) = card (queued s)" using fin qq by (metis card_Suc_Diff1)
      moreover have "reports s' = Suc (reports s)" using d(3) r2 by (simp add: reports_def)
      ultimately show ?thesis by simp
    qed
  qed
  moreover have "node_wf (mac_node s')"
    using S(1) T(3) w(3) f2(4) by (simp add: settled_def node_kept_def)
  moreover have "spare_bufs s2 = {}" using quiet_spare [OF quiet_trans [OF T(2) q2]] w(5) by simp
  ultimately show ?thesis using S(1) w(4) by (simp add: run_ok_def settled_def)
qed

lemma step_ok:
  assumes "run_ok k s" and "mac_step s i s'"
  shows "run_ok (case i of Request _ _ _ \<Rightarrow> k + 1 | _ \<Rightarrow> k) s'"
  using assms(2)
proof cases
  case (request b sent p)
  then show ?thesis using request_ok [OF assms(1)] by simp
next
  case (transmit n s1 b status num)
  then show ?thesis using transmit_ok [OF assms(1)] by simp
next
  case (node e nd)
  have "csma_wf s'" unfolding node(2) by (rule quiet_wf [OF quiet_upd(1)]) (use assms(1) in \<open>simp add: run_ok_def\<close>)
  moreover have "queued s' = queued s" "spare_bufs s' = spare_bufs s"
    unfolding node(2) by (rule quiet_queued [OF quiet_upd(1)], rule quiet_spare [OF quiet_upd(1)])
  ultimately show ?thesis using assms(1) wf_step [OF node(3)] node(1)
    by (simp add: run_ok_def reports_def scheduled_def waits_def) (simp add: node(2))
qed

lemma run_reaches_ok: "mac_run k s \<Longrightarrow> run_ok k s"
  by (induction rule: mac_run.induct) (blast intro: boot_ok step_ok)+

subsection \<open>Properties\<close>

text \<open>C1. No request to send is lost and none is reported twice: in every state the MAC layer reaches beside a
  running node, the outcomes reported and the packets still waiting add up to the requests made. Every
  waiting packet is in exactly one queue, and that queue's timer runs, so that it will be
  taken on; the packets, their metadata, their queue buffers and the queues in use are exactly those reachable
  from the list of queues, so that none is lost; each packet has a queue buffer of its own, there is one queue
  for each receiver, and no queue is empty. The tables of the node stay well-formed through all reports.\<close>

theorem csma_no_loss:
  assumes "mac_run k s"
  shows "card (queued s) + reports s = k \<and> csma_wf s \<and> node_wf (mac_node s) \<and>
     memb_used (packet_memb s) = queued s \<and> memb_used (neighbor_memb s) = set (neighbor_list s) \<and>
     bij_betw (\<lambda>q. the (rb_ptr (packets s q))) (queued s) (memb_used (metadata_memb s)) \<and>
     bij_betw (\<lambda>q. the (rb_buf (packets s q))) (queued s) (memb_used (bufmem s)) \<and>
     card (memb_used (buframmem s)) = card (queued s) \<and> card (queued s) \<le> QUEUEBUF_NUM \<and>
     (\<forall>n \<in> set (neighbor_list s). nq_packets (neighbors s n) \<noteq> [] \<and> nq_transmit_timer (neighbors s n) \<noteq> None)"
proof -
  have ok: "run_ok k s" by (rule run_reaches_ok [OF assms])
  then have c: "csma_core {} s" "qb_wf s" "spare_bufs s = {}" by (simp_all add: run_ok_def csma_wf_def)
  then have b: "bij_betw (\<lambda>q. the (rb_buf (packets s q))) (queued s) (memb_used (bufmem s))"
    by (auto simp: csma_core_def bij_betw_def spare_bufs_def)
  have "card (memb_used (buframmem s)) = card (queued s)" using qb_cards [OF c(2)] bij_betw_same_card [OF b] by simp
  moreover have "card (queued s) \<le> QUEUEBUF_NUM" using c used_le [of "packet_memb s"] by (simp add: csma_core_def)
  ultimately show ?thesis using ok c b by (simp add: run_ok_def scheduled_def waits_def) (simp add: csma_core_def)
qed

end
