(* ===== verification/CsmaProps.thy ===== *)
theory CsmaProps
  imports CsmaNet
begin

text \<open>
  What the senders of frames learn from the CSMA layer, and states in which the properties of the layer
  can be seen.
\<close>

unbundle bit_operations_syntax

subsection \<open>A report that counts no transmission\<close>

definition ltmax_only :: "rpl_state \<Rightarrow> bool" where
  "ltmax_only s \<longleftrightarrow> (\<forall>i < RPL_MAX_INSTANCES. i_used (instance_table s i) \<longrightarrow> i_of (instance_table s i) = Some LTMAX)"

definition weights_same :: "rpl_state \<Rightarrow> rpl_state \<Rightarrow> bool" where
  "weights_same s s' \<longleftrightarrow> ds6_neighbors s' = ds6_neighbors s \<and> instance_table s' = instance_table s \<and>
     (\<forall>p. p_parent_weight (parents s' p) = p_parent_weight (parents s p) \<and> p_rank (parents s' p) = p_rank (parents s p))"

lemma link_callback_zero:
  assumes "\<forall>i \<in> set is. i_used (instance_table s i) \<longrightarrow> i_of (instance_table s i) = Some LTMAX"
  shows "\<exists>s'. link_callback_loop is a status 0 s = Some s' \<and> weights_same s s'"
  using assms
proof (induction "is" arbitrary: s)
  case Nil
  then show ?case by (simp add: weights_same_def)
next
  case (Cons i "is")
  define s1 where "s1 = (if i_used (instance_table s i) then (case rpl_find_parent_any_dag i a s of None \<Rightarrow> s
      | Some p \<Rightarrow> mod_parent p (\<lambda>x. x\<lparr>p_last_tx_time := clock_time s\<rparr>)
          (mod_parent p (\<lambda>x. x\<lparr>p_flags := p_flags x OR RPL_PARENT_FLAG_UPDATED\<rparr>) s)) else s)"
  have w: "weights_same s s1" by (auto simp: s1_def weights_same_def mod_parent_def split: option.split)
  have "link_callback_loop (i # is) a status 0 s = link_callback_loop is a status 0 s1"
    using Cons.prems by (auto simp: s1_def ltmax_neighbor_link_callback_def mod_parent_def split: option.split)
  moreover have "\<forall>i \<in> set is. i_used (instance_table s1 i) \<longrightarrow> i_of (instance_table s1 i) = Some LTMAX"
    using Cons.prems w by (simp add: weights_same_def)
  from Cons.IH [OF this] obtain s' where "link_callback_loop is a status 0 s1 = Some s'" "weights_same s1 s'" by blast
  ultimately show ?case using w by (auto simp: weights_same_def)
qed

lemma callback_zero:
  assumes "ltmax_only (mac_node s)"
  shows "\<exists>s'. mac_call_sent_callback c p status 0 s = Some s' \<and> weights_same (mac_node s) (mac_node s') \<and>
     mac_log s' = mac_log s @ [SentCallback c p status 0]"
proof -
  have "\<exists>nd. uip_ds6_link_neighbor_callback rpl_link_neighbor_callback a status 0 (mac_node s) = Some nd \<and> weights_same (mac_node s) nd" for a
    using assms link_callback_zero [of "[0..<RPL_MAX_INSTANCES]" "mac_node s"]
    by (auto simp: uip_ds6_link_neighbor_callback_def rpl_link_neighbor_callback_def Let_def weights_same_def ltmax_only_def)
  from this [of "packetbuf_addr PACKETBUF_ADDR_RECEIVER s"] show ?thesis
    by (cases c) (auto simp: mac_call_sent_callback_def sicslowpan_packet_sent_def mac_emit_def Let_def weights_same_def
        packetbuf_addr_def split: mac_callback.split)
qed

text \<open>What the layer itself changes of the node: the radio in use and the random numbers.\<close>

definition node_only :: "rpl_state \<Rightarrow> rpl_state \<Rightarrow> bool" where
  "node_only s s' \<longleftrightarrow> instance_table s' = instance_table s \<and> parents s' = parents s \<and> ds6_neighbors s' = ds6_neighbors s"

lemma node_only_rand: "node_only (mac_node s) (mac_node (snd (mac_rand s)))"
  by (simp add: node_only_def mac_rand_def case_prod_beta random_rand_state)

lemma node_only_schedule: "node_only (mac_node s) (mac_node (schedule_transmission n s))"
  using schedule_eq [of n s] node_only_rand [of s] by (auto simp: mod_queue_def node_only_def)

lemma node_only_free:
  assumes "csma_wf s" and "n \<in> set (neighbor_list s)" and "q \<in> set (nq_packets (neighbors s n))"
  shows "node_only (mac_node s) (mac_node (free_packet n q s))"
proof -
  obtain b m where bm: "rb_buf (packets s q) = Some b" "rb_ptr (packets s q) = Some m"
    using core_parts [of "{}" s n q] assms by (auto simp: csma_wf_def)
  note R = wf_release [OF assms bm]
  have e: "mac_node (mod_queue n f t) = mac_node t" "mac_node (drop_queue n t) = mac_node t" for f t
    by (simp_all add: mod_queue_def drop_queue_def)
  show ?thesis
    using R node_only_schedule [of "mod_queue n (\<lambda>x. x\<lparr>nq_transmissions := 0, nq_collisions := CSMA_MIN_BE\<rparr>) (release n q b m s)" n]
    by (simp add: free_packet_release [OF bm] Let_def e) (simp add: node_only_def)
qed

lemma attempt_success:
  assumes w: "csma_wf s" and n: "n \<in> set (neighbor_list s)" and q: "nq_packets (neighbors s n) = q # qs"
    and m: "rb_ptr (packets s q) = Some m"
  shows "\<exists>t. attempt n MAC_TX_OK num s = mac_call_sent_callback (md_sent (metadata s m)) (md_cptr (metadata s m)) MAC_TX_OK
       (if qs = [] then uint (nq_transmissions (neighbors s n) + of_int num) else 0) t \<and>
     csma_wf t \<and> queued t = queued s - {q} \<and> mac_log t = mac_log s @ [RdcSend n q] \<and> node_only (mac_node s) (mac_node t)"
proof -
  from attempt_found [OF w n q] obtain s1 where s1: "transmit_packet_list n s = Some s1" "csma_wf s1" "quiet s s1"
      "neighbors s1 = neighbors s" "mac_log s1 = mac_log s @ [RdcSend n q]"
      "seqno_loop (nq_packets (neighbors s1 n)) s1 = Some (Some q)" by blast
  have nd: "node_only (mac_node s) (mac_node s1)"
    using wf_transmit [OF w n] s1(1) by (auto simp: node_only_def dual_radio_switch_def)
  have same: "packets s1 = packets s" "metadata s1 = metadata s" "neighbor_list s1 = neighbor_list s"
    using s1(3) by (simp_all add: quiet_def core_same_def)
  define s2 where "s2 = mod_queue n (count_answer MAC_TX_OK num) s1"
  have q2: "quiet s1 s2" unfolding s2_def by (rule quiet_queue_upd) (auto simp: count_answer_def)
  have w2: "csma_wf s2" by (rule quiet_wf [OF q2 s1(2)])
  have n2: "n \<in> set (neighbor_list s2)" "nq_packets (neighbors s2 n) = q # qs" "packets s2 = packets s"
    "metadata s2 = metadata s" "mac_log s2 = mac_log s1" "mac_node s2 = mac_node s1"
    using q2 n q same s1(4) by (simp_all add: quiet_def core_same_def) (simp_all add: s2_def mod_queue_def)
  have tr: "nq_transmissions (neighbors s2 n) = nq_transmissions (neighbors s n) + of_int num"
    by (simp add: s2_def mod_queue_def s1(4) count_answer_def csma_consts)
  have q3: "q \<in> set (nq_packets (neighbors s2 n))" using n2(2) by simp
  define t where "t = free_packet n q s2"
  note F = wf_free_packet [OF w2 n2(1) q3, folded t_def]
  have k: "uint (nq_transmissions (neighbors t n)) = (if qs = [] then uint (nq_transmissions (neighbors s n) + of_int num) else 0)"
    using F(7) n2(2) by (simp add: tr)
  have "attempt n MAC_TX_OK num s = tx_done MAC_TX_OK q n s2"
    using packet_sent_answer [OF s1(6), of m MAC_TX_OK num] m same by (simp add: attempt_def s1(1) Let_def s2_def)
  then have "attempt n MAC_TX_OK num s = mac_call_sent_callback (md_sent (metadata s m)) (md_cptr (metadata s m)) MAC_TX_OK
       (if qs = [] then uint (nq_transmissions (neighbors s n) + of_int num) else 0) t"
    using tx_done_eq [of s2 q m] m n2(3,4) k by (simp only: t_def)
  moreover have "queued t = queued s - {q}" using F(2) quiet_queued [OF quiet_trans [OF s1(3) q2]] by simp
  moreover have "node_only (mac_node s) (mac_node t)"
    using nd node_only_free [OF w2 n2(1) q3] n2(6) by (simp add: t_def node_only_def)
  ultimately show ?thesis using F(1,3) s1(5) n2(5) by (intro exI [of _ t]) simp
qed

subsection \<open>Properties\<close>

text \<open>C11. What the sender learns of a frame that was acknowledged: the frame, its buffers and its place in the
  queue are given back, but the number of transmissions reported is right only when no other frame waits
  for the same neighbour. Otherwise the counter has been reset for the next frame before
  \<open>tx_done\<close> reads it, and zero transmissions are reported. The LTMAX objective function ignores
  such a report: neither the link metric nor the rank or weight of any parent changes.\<close>

theorem report_loses_count:
  assumes "csma_wf s" and "n \<in> set (neighbor_list s)" and "nq_packets (neighbors s n) = q # qs"
    and "rb_ptr (packets s q) = Some m" and "ltmax_only (mac_node s)" and "qs \<noteq> []"
  shows "\<exists>s'. attempt n MAC_TX_OK num s = Some s' \<and> csma_wf s' \<and> queued s' = queued s - {q} \<and>
     mac_log s' = mac_log s @ [RdcSend n q, SentCallback (md_sent (metadata s m)) (md_cptr (metadata s m)) MAC_TX_OK 0] \<and>
     weights_same (mac_node s) (mac_node s')"
proof -
  from attempt_success [OF assms(1-4), of num] assms(6) obtain t where
    t: "attempt n MAC_TX_OK num s = mac_call_sent_callback (md_sent (metadata s m)) (md_cptr (metadata s m)) MAC_TX_OK 0 t"
      "csma_wf t" "queued t = queued s - {q}" "mac_log t = mac_log s @ [RdcSend n q]" "node_only (mac_node s) (mac_node t)" by auto
  have "ltmax_only (mac_node t)" using assms(5) t(5) by (simp add: ltmax_only_def node_only_def)
  from callback_zero [OF this] obtain s' where
    s': "mac_call_sent_callback (md_sent (metadata s m)) (md_cptr (metadata s m)) MAC_TX_OK 0 t = Some s'"
      "weights_same (mac_node t) (mac_node s')"
      "mac_log s' = mac_log t @ [SentCallback (md_sent (metadata s m)) (md_cptr (metadata s m)) MAC_TX_OK 0]" by blast
  have "csma_wf s'" "queued s' = queued t"
    using quiet_wf [OF quiet_callback [OF s'(1)] t(2)] quiet_queued [OF quiet_callback [OF s'(1)]] by auto
  then show ?thesis using s' t by (intro exI [of _ s']) (simp add: weights_same_def node_only_def)
qed

text \<open>C12. A request to send is either accepted or refused, and never fails otherwise. Accepted, the frame of the
  packet buffer with its new sequence number is at the end of the queue of its receiver, in a
  queue buffer of its own and with the callback, the number of transmissions and the
  radio chosen at that time; nothing is reported. Refused, the sender hears an error about one
  transmission and the queues are as before; that happens only when all queues, packets or queue buffers
  are in use.\<close>

theorem send_accepted_or_refused:
  assumes "csma_wf s"
  shows "(\<exists>s'. send_packet sent p s = Some s' \<and> csma_wf s' \<and> mac_log s' = mac_log s \<and>
       (\<exists>n q m b qs. n \<in> set (neighbor_list s') \<and> nq_addr (neighbors s' n) = packetbuf_addr PACKETBUF_ADDR_RECEIVER s \<and>
          nq_packets (neighbors s' n) = qs @ [q] \<and> q \<notin> queued s \<and> queued s' = insert q (queued s) \<and>
          rb_ptr (packets s' q) = Some m \<and> rb_buf (packets s' q) = Some b \<and> qb_frame s' b = pb_frame (next_seqno s) \<and>
          rb_radio (packets s' q) = of_int (sending_in_LR (mac_node s)) \<and> md_sent (metadata s' m) = sent \<and>
          md_cptr (metadata s' m) = p)) \<or>
     (\<exists>s'. send_packet sent p s = mac_call_sent_callback sent p MAC_TX_ERR 1 s' \<and> csma_wf s' \<and> mac_log s' = mac_log s \<and>
       queued s' = queued s \<and>
       (length (neighbor_list s) = CSMA_MAX_NEIGHBOR_QUEUES \<or> card (queued s) = QUEUEBUF_NUM \<or>
        card (memb_used (bufmem s)) = QUEUEBUF_NUM))"
  using send_cases [OF assms, of sent p]
proof (elim disjE exE conjE)
  fix s' assume "send_packet sent p s = Some s'" "accepted sent p s s'"
  then show ?thesis unfolding accepted_def by (intro disjI1) blast
next
  fix s' assume "send_packet sent p s = mac_call_sent_callback sent p MAC_TX_ERR 1 s'" "refused s s'"
  then show ?thesis unfolding refused_def by (intro disjI2) blast
qed

subsection \<open>States of a running layer\<close>

text \<open>A pool of \<open>n\<close> blocks with the first \<open>k\<close> in use.\<close>

definition first_used :: "nat \<Rightarrow> nat \<Rightarrow> memb" where
  "first_used n k = (fresh_memb n)\<lparr>mcount := replicate k 1 @ replicate (n - k) 0\<rparr>"

lemma first_used_pool:
  assumes "k \<le> n"
  shows "memb_used (first_used n k) = {..<k}" "unit_pool (first_used n k)" "mnum (first_used n k) = n"
proof -
  have "(replicate k 1 @ replicate (n - k) 0) ! i = (if i < k then 1 else (0 :: int))" if "i < n" for i
    using that by (simp add: nth_append)
  then show "memb_used (first_used n k) = {..<k}"
    using assms by (auto simp: first_used_def memb_used_def fresh_memb_def split: if_splits)
  show "unit_pool (first_used n k)" "mnum (first_used n k) = n"
    using assms by (auto simp: first_used_def unit_pool_def memb_wf_def fresh_memb_def)
qed

text \<open>A layer with two packets for one neighbour.\<close>

definition csma_demo :: csma_state where
  "csma_demo = (csma_power_on (power_on (demo_ll 1) (\<lambda>_. 7)))
     \<lparr>bufmem := first_used 16 2,
      buframmem := first_used 16 2,
      qb_ram_ptr := (\<lambda>b. Some b),
      neighbor_memb := first_used 5 1,
      packet_memb := first_used 16 2,
      metadata_memb := first_used 16 2,
      neighbor_list := [0],
      neighbors := (\<lambda>_. \<lparr>nq_addr = demo_ll 2, nq_transmit_timer = Some 1, nq_transmissions = 0, nq_collisions = 0,
                         nq_packets = [0, 1]\<rparr>),
      packets := (\<lambda>q. \<lparr>rb_buf = Some q, rb_ptr = Some q, rb_radio = 0\<rparr>),
      metadata := (\<lambda>_. \<lparr>md_sent = Some Sicslowpan_packet_sent, md_cptr = None, md_max_transmissions = 8\<rparr>)\<rparr>"

lemma csma_demo_fields:
  "neighbor_list csma_demo = [0]" "nq_packets (neighbors csma_demo n) = [0, 1]" "rb_ptr (packets csma_demo q) = Some q"
  "rb_buf (packets csma_demo q) = Some q" "metadata csma_demo q = \<lparr>md_sent = Some Sicslowpan_packet_sent, md_cptr = None, md_max_transmissions = 8\<rparr>"
  "nq_transmissions (neighbors csma_demo n) = 0" "nq_collisions (neighbors csma_demo n) = 0"
  "mac_node csma_demo = power_on (demo_ll 1) (\<lambda>_. 7)" "mac_log csma_demo = []"
  "queued csma_demo = {0, 1}" "qb_ram_ptr csma_demo b = Some b"
  "bufmem csma_demo = first_used 16 2"
  "packet_memb csma_demo = first_used 16 2"
  "metadata_memb csma_demo = first_used 16 2"
  "buframmem csma_demo = first_used 16 2"
  "neighbor_memb csma_demo = first_used 5 1"
  "qb_ram csma_demo b = \<lparr>qd_data = replicate 128 0, qd_len = 0, qd_attrs = (\<lambda>_. 0), qd_addrs = (\<lambda>_. linkaddr_null)\<rparr>"
  "packetbuf csma_demo = replicate 128 0" "buflen csma_demo = 0" "bufptr csma_demo = 0" "hdrlen csma_demo = 0"
  by (auto simp: csma_demo_def csma_power_on_def queued_def)

lemma csma_demo_wf: "csma_wf csma_demo"
proof -
  have "csma_core {} csma_demo"
    unfolding csma_core_def csma_demo_fields
    by (auto simp: CSMA_MAX_NEIGHBOR_QUEUES_def QUEUEBUF_NUM_def first_used_pool bij_betw_def inj_on_def)
  moreover have "qb_wf csma_demo" unfolding qb_wf_def csma_demo_fields
    by (auto simp: QUEUEBUF_NUM_def first_used_pool bij_betw_def PACKETBUF_SIZE_def)
  moreover have "pb_wf csma_demo" by (simp add: pb_wf_def csma_demo_fields PACKETBUF_SIZE_def)
  ultimately show ?thesis by (simp add: csma_wf_def)
qed

lemma csma_demo_ltmax: "ltmax_only (mac_node csma_demo)"
  by (simp add: ltmax_only_def csma_demo_fields power_on_def nbr_state.defs dual_state.defs ds6_state.defs rpl_state.defs zero_instance_def)

theorem report_loses_count_witness:
  "\<exists>s'. attempt 0 MAC_TX_OK 3 csma_demo = Some s' \<and> queued s' = {1} \<and>
     mac_log s' = [RdcSend 0 0, SentCallback (Some Sicslowpan_packet_sent) None MAC_TX_OK 0]"
  using report_loses_count [OF csma_demo_wf, of 0 0 "[1]" 0 3] csma_demo_ltmax
  by (auto simp: csma_demo_fields)

theorem send_accepted_or_refused_witness:
  "\<exists>s'. send_packet (Some Sicslowpan_packet_sent) None csma_demo = Some s' \<and> card (queued s') = 3"
proof -
  have "\<not> (length (neighbor_list csma_demo) = CSMA_MAX_NEIGHBOR_QUEUES \<or> card (queued csma_demo) = QUEUEBUF_NUM \<or>
        card (memb_used (bufmem csma_demo)) = QUEUEBUF_NUM)"
    by (simp add: csma_demo_fields first_used_pool CSMA_MAX_NEIGHBOR_QUEUES_def QUEUEBUF_NUM_def)
  with send_accepted_or_refused [OF csma_demo_wf, of "Some Sicslowpan_packet_sent" None]
  obtain s' q where s': "send_packet (Some Sicslowpan_packet_sent) None csma_demo = Some s'"
    "q \<notin> queued csma_demo" "queued s' = insert q (queued csma_demo)" by blast
  then have "card (queued s') = 3" by (simp add: csma_demo_fields)
  with s'(1) show ?thesis by blast
qed

theorem retries_end_witness:
  "\<exists>s' k j. retry 0 0 (replicate 48 MAC_TX_COLLISION) csma_demo = map_option (\<lambda>t. (t, True))
        (mac_call_sent_callback (Some Sicslowpan_packet_sent) None MAC_TX_COLLISION k s') \<and> queued s' = {1} \<and> j \<le> (48 :: nat)"
proof -
  obtain s' k j where "retry 0 0 (replicate 48 MAC_TX_COLLISION) csma_demo = map_option (\<lambda>t. (t, True))
        (mac_call_sent_callback (Some Sicslowpan_packet_sent) None (replicate 48 MAC_TX_COLLISION ! (j - 1)) k s')"
      "1 \<le> j" "j \<le> 48" "queued s' = {0, 1} - {0}"
    using retries_end [OF csma_demo_wf, of 0 0 "[1]" 0 "replicate 48 MAC_TX_COLLISION"] by (auto simp: csma_demo_fields)
  then show ?thesis by (intro exI [of _ s'] exI [of _ k] exI [of _ j]) auto
qed

text \<open>A layer started on a started node, after its first request.\<close>

theorem csma_no_loss_witness: "\<exists>s. mac_run 1 s \<and> card (queued s) + reports s = 1"
proof -
  obtain nd where nd: "node_boot (demo_ll 1) (demo_ll 2) (\<lambda>_. 7) = Some nd" using boot_Some by blast
  note r = mac_run.start [OF nd]
  define s where "s = set_packetbuf pb_demo (csma_boot nd)"
  have pb: "pb_wf pb_demo" by (simp add: pb_demo_def pb_wf_def PACKETBUF_SIZE_def)
  have w: "csma_wf s" unfolding s_def using boot_ok [OF nd]
    by (intro quiet_wf [OF set_packetbuf_quiet [OF pb]]) (simp add: run_ok_def)
  have "queued s = {}" "neighbor_list s = []" "bufmem s = fresh_memb 16"
    by (simp_all add: s_def set_packetbuf_def csma_boot_def csma_init_def queuebuf_init_def csma_power_on_def queued_def fresh_unit
        QUEUEBUF_NUM_def)
  then have "\<not> refused s t" for t
    by (simp add: refused_def fresh_unit CSMA_MAX_NEIGHBOR_QUEUES_def QUEUEBUF_NUM_def)
  with send_cases [OF w, of None None] obtain s' where "send_packet None None s = Some s'" by blast
  then have "mac_step (csma_boot nd) (Request pb_demo None None) s'"
    unfolding s_def by (rule mac_step.request [OF pb])
  from mac_run.input [OF r this] have "mac_run 1 s'" by simp
  from csma_no_loss [OF this] this show ?thesis by auto
qed

end
