(* ===== verification/Iphc.thy ===== *)
theory Iphc
  imports Packetbuf RplMessages
begin

text \<open>
  Header compression of \<open>core/net/ipv6/sicslowpan.c\<close> (IPHC and LOWPAN_UDP of RFC 6282): from the IPv6
  packet in \<open>uip_buf\<close>, a list of bytes, to the bytes in front of the payload, and back. The encoder appends
  to what is at \<open>hc06_ptr\<close>, the decoder reads at a position of the received bytes; reading or writing outside of
  an array is undefined (\<open>None\<close>).
\<close>

unbundle bit_operations_syntax

subsection \<open>Constants\<close>

definition UIP_IPH_LEN :: nat where "UIP_IPH_LEN = 40"
definition UIP_UDPH_LEN :: nat where "UIP_UDPH_LEN = 8"
definition UIP_BUFSIZE :: nat where "UIP_BUFSIZE = 1600"
definition UIP_PROTO_UDP :: u8 where "UIP_PROTO_UDP = 17"
definition SICSLOWPAN_DISPATCH_IPHC :: u8 where "SICSLOWPAN_DISPATCH_IPHC = 0x60"
definition SICSLOWPAN_IPHC_FL_C :: u8 where "SICSLOWPAN_IPHC_FL_C = 0x10"
definition SICSLOWPAN_IPHC_TC_C :: u8 where "SICSLOWPAN_IPHC_TC_C = 0x08"
definition SICSLOWPAN_IPHC_NH_C :: u8 where "SICSLOWPAN_IPHC_NH_C = 0x04"
definition SICSLOWPAN_IPHC_CID :: u8 where "SICSLOWPAN_IPHC_CID = 0x80"
definition SICSLOWPAN_IPHC_SAC :: u8 where "SICSLOWPAN_IPHC_SAC = 0x40"
definition SICSLOWPAN_IPHC_SAM_11 :: u8 where "SICSLOWPAN_IPHC_SAM_11 = 0x30"
definition SICSLOWPAN_IPHC_M :: u8 where "SICSLOWPAN_IPHC_M = 0x08"
definition SICSLOWPAN_IPHC_DAC :: u8 where "SICSLOWPAN_IPHC_DAC = 0x04"
definition SICSLOWPAN_IPHC_DAM_11 :: u8 where "SICSLOWPAN_IPHC_DAM_11 = 0x03"
definition SICSLOWPAN_UDP_4_BIT_PORT_MIN :: u16 where "SICSLOWPAN_UDP_4_BIT_PORT_MIN = 0xF0B0"
definition SICSLOWPAN_UDP_8_BIT_PORT_MIN :: u16 where "SICSLOWPAN_UDP_8_BIT_PORT_MIN = 0xF000"
definition SICSLOWPAN_NHC_UDP_MASK :: u8 where "SICSLOWPAN_NHC_UDP_MASK = 0xF8"
definition SICSLOWPAN_NHC_UDP_ID :: u8 where "SICSLOWPAN_NHC_UDP_ID = 0xF0"
definition SICSLOWPAN_NHC_UDP_CHECKSUMC :: u8 where "SICSLOWPAN_NHC_UDP_CHECKSUMC = 0x04"
definition SICSLOWPAN_NHC_UDP_CS_P_00 :: u8 where "SICSLOWPAN_NHC_UDP_CS_P_00 = 0xF0"
definition SICSLOWPAN_NHC_UDP_CS_P_01 :: u8 where "SICSLOWPAN_NHC_UDP_CS_P_01 = 0xF1"
definition SICSLOWPAN_NHC_UDP_CS_P_10 :: u8 where "SICSLOWPAN_NHC_UDP_CS_P_10 = 0xF2"
definition SICSLOWPAN_NHC_UDP_CS_P_11 :: u8 where "SICSLOWPAN_NHC_UDP_CS_P_11 = 0xF3"

lemmas iphc_consts = UIP_IPH_LEN_def UIP_UDPH_LEN_def UIP_PROTO_UDP_def SICSLOWPAN_DISPATCH_IPHC_def
  SICSLOWPAN_IPHC_FL_C_def SICSLOWPAN_IPHC_TC_C_def SICSLOWPAN_IPHC_NH_C_def SICSLOWPAN_IPHC_CID_def
  SICSLOWPAN_IPHC_SAC_def SICSLOWPAN_IPHC_SAM_11_def SICSLOWPAN_IPHC_M_def SICSLOWPAN_IPHC_DAC_def
  SICSLOWPAN_IPHC_DAM_11_def SICSLOWPAN_UDP_4_BIT_PORT_MIN_def SICSLOWPAN_UDP_8_BIT_PORT_MIN_def
  SICSLOWPAN_NHC_UDP_MASK_def SICSLOWPAN_NHC_UDP_ID_def SICSLOWPAN_NHC_UDP_CHECKSUMC_def
  SICSLOWPAN_NHC_UDP_CS_P_00_def SICSLOWPAN_NHC_UDP_CS_P_01_def SICSLOWPAN_NHC_UDP_CS_P_10_def
  SICSLOWPAN_NHC_UDP_CS_P_11_def

text \<open>Uncompression of link-local, context-based and multicast addresses: the number of bytes from the
  prefix and from the packet (15 means 16); the values of the hop limit.\<close>

definition llprefix :: "u8 list" where "llprefix = [0xfe, 0x80]"
definition unc_llconf :: "u8 list" where "unc_llconf = [0x0f, 0x28, 0x22, 0x20]"
definition unc_ctxconf :: "u8 list" where "unc_ctxconf = [0x00, 0x88, 0x82, 0x80]"
definition unc_mxconf :: "u8 list" where "unc_mxconf = [0x0f, 0x25, 0x23, 0x21]"
definition ttl_values :: "u8 list" where "ttl_values = [0, 1, 64, 255]"

record addr_context =
  ac_used :: u8
  ac_number :: u8
  ac_prefix :: "u8 list"

text \<open>The contexts set up by \<open>sicslowpan_init\<close>: the default prefix, and an unused one.\<close>

definition init_addr_contexts :: "addr_context list" where
  "init_addr_contexts =
     [\<lparr>ac_used = 1, ac_number = 0, ac_prefix = [0xfd, 0x00] @ replicate 6 0\<rparr>,
      \<lparr>ac_used = 0, ac_number = 0, ac_prefix = replicate 8 0\<rparr>]"

definition addr_context_lookup_by_prefix :: "addr_context list \<Rightarrow> ipaddr \<Rightarrow> addr_context option" where
  "addr_context_lookup_by_prefix cs a = find (\<lambda>c. ac_used c = 1 \<and> uip_ipaddr_prefixcmp (ac_prefix c) a 64) cs"

definition addr_context_lookup_by_number :: "addr_context list \<Rightarrow> u8 \<Rightarrow> addr_context option" where
  "addr_context_lookup_by_number cs n = find (\<lambda>c. ac_used c = 1 \<and> ac_number c = n) cs"

subsection \<open>Addresses that can be compressed\<close>

definition uip_is_addr_unspecified :: "ipaddr \<Rightarrow> bool" where
  "uip_is_addr_unspecified a \<longleftrightarrow> take 16 a = replicate 16 0"

definition uip_is_addr_mac_addr_based :: "ipaddr \<Rightarrow> linkaddr \<Rightarrow> bool" where
  "uip_is_addr_mac_addr_based a m \<longleftrightarrow> take 8 (drop 8 a) = (m ! 0 XOR 0x02) # take 7 (drop 1 m)"

definition sicslowpan_is_iid_16_bit_compressable :: "ipaddr \<Rightarrow> bool" where
  "sicslowpan_is_iid_16_bit_compressable a \<longleftrightarrow>
     take 6 (drop 8 a) = [0, 0, 0, 0xff, 0xfe, 0]"

definition sicslowpan_is_mcast_addr_compressable48 :: "ipaddr \<Rightarrow> bool" where
  "sicslowpan_is_mcast_addr_compressable48 a \<longleftrightarrow> take 9 (drop 2 a) = replicate 9 0"

definition sicslowpan_is_mcast_addr_compressable32 :: "ipaddr \<Rightarrow> bool" where
  "sicslowpan_is_mcast_addr_compressable32 a \<longleftrightarrow> take 11 (drop 2 a) = replicate 11 0"

definition sicslowpan_is_mcast_addr_compressable8 :: "ipaddr \<Rightarrow> bool" where
  "sicslowpan_is_mcast_addr_compressable8 a \<longleftrightarrow> a ! 1 = 2 \<and> take 13 (drop 2 a) = replicate 13 0"

subsection \<open>Compression\<close>

definition ip_src :: "u8 list \<Rightarrow> ipaddr" where "ip_src u = take 16 (drop 8 u)"
definition ip_dest :: "u8 list \<Rightarrow> ipaddr" where "ip_dest u = take 16 (drop 24 u)"

text \<open>The address mode bits and the bytes written.\<close>

definition compress_addr_64 :: "nat \<Rightarrow> ipaddr \<Rightarrow> linkaddr \<Rightarrow> u8 \<times> u8 list" where
  "compress_addr_64 bitpos a lladdr =
     (if uip_is_addr_mac_addr_based a lladdr then (push_bit bitpos 3, [])
      else if sicslowpan_is_iid_16_bit_compressable a then (push_bit bitpos 2, take 2 (drop 14 a))
      else (push_bit bitpos 1, take 8 (drop 8 a)))"

text \<open>Traffic class and flow label.\<close>

definition compress_tcflow :: "u8 list \<Rightarrow> u8 \<times> u8 list" where
  "compress_tcflow u =
     (let vtc = u ! 0; tcflow = u ! 1;
          tmp0 = push_bit 4 vtc OR drop_bit 4 tcflow;
          tmp = push_bit 6 (tmp0 AND 0x03) OR drop_bit 2 tmp0;
          no_tc = (vtc AND 0x0F = 0 \<and> tcflow AND 0xF0 = 0)
      in if tcflow AND 0x0F = 0 \<and> u ! 2 = 0 \<and> u ! 3 = 0
         then (if no_tc then (SICSLOWPAN_IPHC_FL_C OR SICSLOWPAN_IPHC_TC_C, []) else (SICSLOWPAN_IPHC_FL_C, [tmp]))
         else (if no_tc then (SICSLOWPAN_IPHC_TC_C, [(tmp AND 0xc0) OR (tcflow AND 0x0F), u ! 2, u ! 3])
               else (0, [tmp, u ! 1, u ! 2, u ! 3])))"

definition compress_ttl :: "u8 \<Rightarrow> u8 \<times> u8 list" where
  "compress_ttl ttl = (if ttl = 1 then (1, []) else if ttl = 64 then (2, []) else if ttl = 255 then (3, []) else (0, [ttl]))"

text \<open>An address is compressed as link-local if the bytes 2 to 7 of the destination address are zero, the source
  address too.\<close>

definition dest_mid_zero :: "u8 list \<Rightarrow> bool" where
  "dest_mid_zero u \<longleftrightarrow> take 6 (drop 2 (ip_dest u)) = replicate 6 0"

text \<open>The source address: bits of \<open>iphc1\<close>, of the context byte, and the bytes written.\<close>

definition compress_src :: "addr_context list \<Rightarrow> linkaddr \<Rightarrow> u8 list \<Rightarrow> u8 \<times> u8 \<times> u8 list" where
  "compress_src cs lladdr u =
     (if uip_is_addr_unspecified (ip_src u) then (SICSLOWPAN_IPHC_SAC, 0, [])
      else (case addr_context_lookup_by_prefix cs (ip_src u) of
        Some c \<Rightarrow> (case compress_addr_64 4 (ip_src u) lladdr of
            (m, bs) \<Rightarrow> (SICSLOWPAN_IPHC_CID OR SICSLOWPAN_IPHC_SAC OR m, push_bit 4 (ac_number c), bs))
      | None \<Rightarrow>
          if uip_is_addr_linklocal (ip_src u) \<and> dest_mid_zero u
          then (case compress_addr_64 4 (ip_src u) lladdr of (m, bs) \<Rightarrow> (m, 0, bs))
          else (0, 0, ip_src u)))"

definition compress_dest :: "addr_context list \<Rightarrow> linkaddr \<Rightarrow> u8 list \<Rightarrow> u8 \<times> u8 \<times> u8 list" where
  "compress_dest cs dest u =
     (let a = ip_dest u
      in if uip_is_addr_mcast a
         then (if sicslowpan_is_mcast_addr_compressable8 a then (SICSLOWPAN_IPHC_M OR 3, 0, [a ! 15])
               else if sicslowpan_is_mcast_addr_compressable32 a
               then (SICSLOWPAN_IPHC_M OR 2, 0, a ! 1 # take 3 (drop 13 a))
               else if sicslowpan_is_mcast_addr_compressable48 a
               then (SICSLOWPAN_IPHC_M OR 1, 0, a ! 1 # take 5 (drop 11 a))
               else (SICSLOWPAN_IPHC_M, 0, a))
         else (case addr_context_lookup_by_prefix cs a of
             Some c \<Rightarrow> (case compress_addr_64 0 a dest of (m, bs) \<Rightarrow> (SICSLOWPAN_IPHC_DAC OR m, ac_number c, bs))
           | None \<Rightarrow>
               if uip_is_addr_linklocal a \<and> dest_mid_zero u
               then (case compress_addr_64 0 a dest of (m, bs) \<Rightarrow> (m, 0, bs))
               else (0, 0, a)))"

text \<open>The UDP header: the ports, then the checksum.\<close>

definition compress_udp :: "u8 list \<Rightarrow> u8 list" where
  "compress_udp u =
     (let srcport = get16 (\<lambda>i. u ! i) 40; destport = get16 (\<lambda>i. u ! i) 42;
          ports =
           (if srcport AND 0xfff0 = SICSLOWPAN_UDP_4_BIT_PORT_MIN \<and> destport AND 0xfff0 = SICSLOWPAN_UDP_4_BIT_PORT_MIN
            then [SICSLOWPAN_NHC_UDP_CS_P_11,
                  ucast (push_bit 4 (srcport - SICSLOWPAN_UDP_4_BIT_PORT_MIN)) + ucast (destport - SICSLOWPAN_UDP_4_BIT_PORT_MIN)]
            else if destport AND 0xff00 = SICSLOWPAN_UDP_8_BIT_PORT_MIN
            then [SICSLOWPAN_NHC_UDP_CS_P_01, u ! 40, u ! 41, ucast (destport - SICSLOWPAN_UDP_8_BIT_PORT_MIN)]
            else if srcport AND 0xff00 = SICSLOWPAN_UDP_8_BIT_PORT_MIN
            then [SICSLOWPAN_NHC_UDP_CS_P_10, ucast (srcport - SICSLOWPAN_UDP_8_BIT_PORT_MIN), u ! 42, u ! 43]
            else [SICSLOWPAN_NHC_UDP_CS_P_00, u ! 40, u ! 41, u ! 42, u ! 43])
      in ports @ [u ! 46, u ! 47])"

text \<open>The compressed header and \<open>uncomp_hdr_len\<close>, the length of what it stands for.\<close>

definition compress_hdr_iphc :: "addr_context list \<Rightarrow> linkaddr \<Rightarrow> linkaddr \<Rightarrow> u8 list \<Rightarrow> u8 list \<times> u8" where
  "compress_hdr_iphc cs lladdr dest u =
     (let cid = (if addr_context_lookup_by_prefix cs (ip_dest u) \<noteq> None \<or> addr_context_lookup_by_prefix cs (ip_src u) \<noteq> None
                 then SICSLOWPAN_IPHC_CID else 0);
          (tc, tcs) = compress_tcflow u;
          udp = (u ! 6 = UIP_PROTO_UDP);
          (ttl, ttls) = compress_ttl (u ! 7);
          (s1, s2, ss) = compress_src cs lladdr u;
          (d1, d2, ds) = compress_dest cs dest u;
          iphc0 = SICSLOWPAN_DISPATCH_IPHC OR tc OR (if udp then SICSLOWPAN_IPHC_NH_C else 0) OR ttl;
          iphc1 = cid OR s1 OR d1
      in ([iphc0, iphc1] @ (if cid \<noteq> 0 then [s2 OR d2] else []) @ tcs @ (if udp then [] else [u ! 6]) @ ttls @ ss @ ds @
            (if udp then compress_udp u else []),
          of_nat (if udp then UIP_IPH_LEN + UIP_UDPH_LEN else UIP_IPH_LEN)))"

subsection \<open>Uncompression\<close>

definition rd :: "u8 list \<Rightarrow> nat \<Rightarrow> u8 option" where
  "rd p i = (if i < length p then Some (p ! i) else None)"

definition half_count :: "u8 \<Rightarrow> nat" where
  "half_count n = (if n = 15 then 16 else unat n)"

definition uncompress_addr :: "u8 list option \<Rightarrow> u8 \<Rightarrow> linkaddr option \<Rightarrow> u8 list \<Rightarrow> nat \<Rightarrow> (ipaddr \<times> nat) option" where
  "uncompress_addr prefix pref_post_count lladdr p pos =
     (let prefcount = half_count (drop_bit 4 pref_post_count);
          postcount = half_count (pref_post_count AND 0x0f)
      in do {
        pre \<leftarrow> (if prefcount > 0 then do { x \<leftarrow> prefix; mem_read x 0 prefcount } else Some []);
        let a = pre @ replicate (16 - (prefcount + postcount)) 0;
        if postcount > 0
        then do {
          bs \<leftarrow> mem_read p pos postcount;
          Some (if postcount = 2 \<and> prefcount < 11 then (a @ bs)[11 := 0xff, 12 := 0xfe] else a @ bs, pos + postcount)
        }
        else if prefcount > 0 then do { m \<leftarrow> lladdr; Some (uip_ds6_set_addr_iid a m, pos) }
        else Some (a, pos)
      })"

text \<open>The four bytes of version, traffic class and flow label.\<close>

definition uncompress_tcflow :: "u8 \<Rightarrow> u8 list \<Rightarrow> nat \<Rightarrow> (u8 list \<times> nat) option" where
  "uncompress_tcflow iphc0 p pos =
     (if iphc0 AND SICSLOWPAN_IPHC_FL_C = 0
      then if iphc0 AND SICSLOWPAN_IPHC_TC_C = 0
           then do {
             bs \<leftarrow> mem_read p pos 4;
             let tmp = bs ! 0;
             Some ([0x60 OR (drop_bit 2 tmp AND 0x0f), (drop_bit 2 tmp AND 0x30) OR push_bit 6 tmp OR (bs ! 1 AND 0x0F),
                    bs ! 2, bs ! 3], pos + 4)
           }
           else do {
             bs \<leftarrow> mem_read p pos 3;
             Some ([0x60, (bs ! 0 AND 0x0F) OR (drop_bit 2 (bs ! 0) AND 0x30), bs ! 1, bs ! 2], pos + 3)
           }
      else if iphc0 AND SICSLOWPAN_IPHC_TC_C = 0
           then do {
             b \<leftarrow> rd p pos;
             Some ([0x60 OR (drop_bit 2 b AND 0x0f), (push_bit 6 b AND 0xC0) OR (drop_bit 2 b AND 0x30), 0, 0], pos + 1)
           }
           else Some ([0x60, 0, 0, 0], pos))"

text \<open>The source and destination addresses: the address, nothing (a multicast address with a context is
  not implemented), or the error that the context is unknown.\<close>

datatype addr_result = Address ipaddr nat | Unsupported | NoContext

definition uncompress_src ::
  "addr_context list \<Rightarrow> linkaddr \<Rightarrow> u8 \<Rightarrow> u8 list \<Rightarrow> nat \<Rightarrow> nat \<Rightarrow> addr_result option" where
  "uncompress_src cs sender iphc1 p h pos =
     (let tmp = unat (drop_bit 4 (iphc1 AND SICSLOWPAN_IPHC_SAM_11) AND 0x03)
      in if iphc1 AND SICSLOWPAN_IPHC_SAC \<noteq> 0
         then do {
           sci \<leftarrow> (if iphc1 AND SICSLOWPAN_IPHC_CID \<noteq> 0 then map_option (drop_bit 4) (rd p (h + 2)) else Some 0);
           let c = addr_context_lookup_by_number cs sci;
           if tmp \<noteq> 0 \<and> c = None then Some NoContext
           else do {
             (a, pos') \<leftarrow> uncompress_addr (if tmp \<noteq> 0 then map_option ac_prefix c else None) (unc_ctxconf ! tmp) (Some sender) p pos;
             Some (Address a pos')
           }
         }
         else do {
           (a, pos') \<leftarrow> uncompress_addr (Some llprefix) (unc_llconf ! tmp) (Some sender) p pos;
           Some (Address a pos')
         })"

definition uncompress_dest ::
  "addr_context list \<Rightarrow> linkaddr \<Rightarrow> u8 \<Rightarrow> u8 list \<Rightarrow> nat \<Rightarrow> nat \<Rightarrow> addr_result option" where
  "uncompress_dest cs receiver iphc1 p h pos =
     (let tmp = unat (iphc1 AND SICSLOWPAN_IPHC_DAM_11 AND 0x03)
      in if iphc1 AND SICSLOWPAN_IPHC_M \<noteq> 0
         then if iphc1 AND SICSLOWPAN_IPHC_DAC \<noteq> 0 then Some Unsupported
              else do {
                (prefix, pos1) \<leftarrow> (if 0 < tmp \<and> tmp < 3 then do { b \<leftarrow> rd p pos; Some ([0xff, b], pos + 1) }
                                    else Some ([0xff, 0x02], pos));
                (a, pos') \<leftarrow> uncompress_addr (Some prefix) (unc_mxconf ! tmp) None p pos1;
                Some (Address a pos')
              }
         else if iphc1 AND SICSLOWPAN_IPHC_DAC \<noteq> 0
         then do {
           dci \<leftarrow> (if iphc1 AND SICSLOWPAN_IPHC_CID \<noteq> 0 then map_option (\<lambda>b. b AND 0x0f) (rd p (h + 2)) else Some 0);
           case addr_context_lookup_by_number cs dci of
             None \<Rightarrow> Some NoContext
           | Some c \<Rightarrow> do {
               (a, pos') \<leftarrow> uncompress_addr (Some (ac_prefix c)) (unc_ctxconf ! tmp) (Some receiver) p pos;
               Some (Address a pos')
             }
         }
         else do {
           (a, pos') \<leftarrow> uncompress_addr (Some llprefix) (unc_llconf ! tmp) (Some receiver) p pos;
           Some (Address a pos')
         })"

text \<open>The UDP header: the ports and the checksum, if it is carried (otherwise the bytes in the buffer stay).\<close>

definition uncompress_ports :: "u8 list \<Rightarrow> nat \<Rightarrow> u8 \<Rightarrow> (u8 list \<times> nat) option" where
  "uncompress_ports p pos nhc =
     (let enc = nhc AND SICSLOWPAN_NHC_UDP_CS_P_11
      in if enc = SICSLOWPAN_NHC_UDP_CS_P_00 then do { bs \<leftarrow> mem_read p (pos + 1) 4; Some (bs, pos + 5) }
         else if enc = SICSLOWPAN_NHC_UDP_CS_P_01
         then do { bs \<leftarrow> mem_read p (pos + 1) 3;
                   Some (take 2 bs @ set16 (SICSLOWPAN_UDP_8_BIT_PORT_MIN + ucast (bs ! 2)), pos + 4) }
         else if enc = SICSLOWPAN_NHC_UDP_CS_P_10
         then do { bs \<leftarrow> mem_read p (pos + 1) 3;
                   Some (set16 (SICSLOWPAN_UDP_8_BIT_PORT_MIN + ucast (bs ! 0)) @ drop 1 bs, pos + 4) }
         else do { b \<leftarrow> rd p (pos + 1);
                   Some (set16 (SICSLOWPAN_UDP_4_BIT_PORT_MIN + ucast (drop_bit 4 b)) @
                         set16 (SICSLOWPAN_UDP_4_BIT_PORT_MIN + ucast (b AND 0x0F)), pos + 2) })"

definition uncompress_udp :: "u8 \<Rightarrow> u8 list \<Rightarrow> nat \<Rightarrow> u8 list \<Rightarrow> u8 \<Rightarrow> (u8 list \<times> nat \<times> u8) option" where
  "uncompress_udp iphc0 p pos buf uncomp =
     (if iphc0 AND SICSLOWPAN_IPHC_NH_C = 0 then Some (buf, pos, uncomp)
      else do {
        nhc \<leftarrow> rd p pos;
        if nhc AND SICSLOWPAN_NHC_UDP_MASK \<noteq> SICSLOWPAN_NHC_UDP_ID then Some (buf, pos, uncomp)
        else do {
          buf1 \<leftarrow> mem_write buf 6 [UIP_PROTO_UDP];
          (ports, pos1) \<leftarrow> uncompress_ports p pos nhc;
          buf2 \<leftarrow> mem_write buf1 40 ports;
          (buf3, pos2) \<leftarrow> (if nhc AND SICSLOWPAN_NHC_UDP_CHECKSUMC = 0
                           then do { bs \<leftarrow> mem_read p pos1 2; b \<leftarrow> mem_write buf2 46 bs; Some (b, pos1 + 2) }
                           else Some (buf2, pos1));
          Some (buf3, pos2, uncomp + of_nat UIP_UDPH_LEN)
        }
      })"

text \<open>The end of \<open>uncompress_hdr_iphc\<close>: the lengths.\<close>

definition uncompress_lengths :: "int \<Rightarrow> u16 \<Rightarrow> u8 list \<Rightarrow> u8 \<Rightarrow> u8 \<Rightarrow> (u8 list) option" where
  "uncompress_lengths datalen ip_len buf hdr_len uncomp =
     (let len = (if ip_len = 0 then datalen - uint hdr_len + uint uncomp - int UIP_IPH_LEN
                 else uint ip_len - int UIP_IPH_LEN)
      in do {
        buf1 \<leftarrow> mem_write buf 4 [of_int (len div 256), of_int (len mod 256)];
        proto \<leftarrow> rd buf1 6;
        if proto = UIP_PROTO_UDP then do { bs \<leftarrow> mem_read buf1 4 2; mem_write buf1 44 bs } else Some buf1
      })"

text \<open>\<open>uncompress_hdr_iphc\<close> on the bytes \<open>p\<close> from \<open>packetbuf_ptr\<close>, of which \<open>hdr_len\<close> are processed: the buffer,
  the new \<open>packetbuf_hdr_len\<close> and \<open>uncomp_hdr_len\<close>. When a context is unknown it returns with the lengths as
  they were.\<close>

definition uncompress_hdr_iphc ::
  "addr_context list \<Rightarrow> linkaddr \<Rightarrow> linkaddr \<Rightarrow> u8 list \<Rightarrow> int \<Rightarrow> u8 list \<Rightarrow> u16 \<Rightarrow> u8 \<Rightarrow> u8
   \<Rightarrow> (u8 list \<times> u8 \<times> u8) option" where
  "uncompress_hdr_iphc cs sender receiver p datalen buf ip_len hdr_len uncomp = do {
     let h = unat hdr_len;
     iphc0 \<leftarrow> rd p h;
     iphc1 \<leftarrow> rd p (h + 1);
     (tf, pos1) \<leftarrow> uncompress_tcflow iphc0 p (h + 2 + (if iphc1 AND SICSLOWPAN_IPHC_CID \<noteq> 0 then 1 else 0));
     buf1 \<leftarrow> mem_write buf 0 tf;
     (buf2, pos2) \<leftarrow> (if iphc0 AND SICSLOWPAN_IPHC_NH_C = 0
                      then do { b \<leftarrow> rd p pos1; x \<leftarrow> mem_write buf1 6 [b]; Some (x, pos1 + 1) }
                      else Some (buf1, pos1));
     (ttl, pos3) \<leftarrow> (if iphc0 AND 0x03 \<noteq> 0 then Some (ttl_values ! unat (iphc0 AND 0x03), pos2)
                     else do { b \<leftarrow> rd p pos2; Some (b, pos2 + 1) });
     buf3 \<leftarrow> mem_write buf2 7 [ttl];
     src \<leftarrow> uncompress_src cs sender iphc1 p h pos3;
     case src of
       Address a pos4 \<Rightarrow> do {
         buf4 \<leftarrow> mem_write buf3 8 a;
         dst \<leftarrow> uncompress_dest cs receiver iphc1 p h pos4;
         case dst of
           NoContext \<Rightarrow> Some (buf4, hdr_len, uncomp)
         | _ \<Rightarrow> do {
             (buf5, pos5) \<leftarrow> (case dst of Address d pos5 \<Rightarrow> do { x \<leftarrow> mem_write buf4 24 d; Some (x, pos5) }
                                        | _ \<Rightarrow> Some (buf4, pos4));
             (buf6, pos6, uncomp1) \<leftarrow> uncompress_udp iphc0 p pos5 buf5 (uncomp + of_nat UIP_IPH_LEN);
             let hdr_len1 = of_nat pos6;
             buf7 \<leftarrow> uncompress_lengths datalen ip_len buf6 hdr_len1 uncomp1;
             Some (buf7, hdr_len1, uncomp1)
           }
       }
     | _ \<Rightarrow> Some (buf3, hdr_len, uncomp)
   }"

end
