(* ===== verification/IphcRound.thy ===== *)
theory IphcRound
  imports Iphc
begin

text \<open>
  Uncompressing a compressed header gives the header back. The proof follows the fields: each part of the
  encoder writes some bytes and some bits of the two encoding bytes, from which the corresponding part of the
  decoder reads the field again.
\<close>

unbundle bit_operations_syntax

subsection \<open>Bytes at a position\<close>

definition reads :: "u8 list \<Rightarrow> nat \<Rightarrow> u8 list \<Rightarrow> bool" where
  "reads p pos bs \<longleftrightarrow> pos + length bs \<le> length p \<and> take (length bs) (drop pos p) = bs"

lemma reads_Nil [simp]: "reads p pos [] \<longleftrightarrow> pos \<le> length p"
  by (simp add: reads_def)

lemma reads_append: "reads p pos (a @ b) \<longleftrightarrow> reads p pos a \<and> reads p (pos + length a) b"
  by (auto simp: reads_def take_add add.commute add.left_commute append_eq_append_conv)

lemma reads_Cons: "reads p pos (b # bs) \<longleftrightarrow> rd p pos = Some b \<and> reads p (pos + 1) bs"
  by (auto simp: reads_def rd_def take_Suc_conv_app_nth Cons_nth_drop_Suc [symmetric] simp flip: drop_drop)

lemma reads_mem_read: "reads p pos bs \<Longrightarrow> n = length bs \<Longrightarrow> mem_read p pos n = Some bs"
  by (simp add: reads_def mem_read_def)

lemma reads_rd: "reads p pos [b] \<Longrightarrow> rd p pos = Some b"
  by (simp add: reads_Cons)

lemma reads_here: "reads (a @ b @ c) (length a) b"
  by (simp add: reads_def)

subsection \<open>Bits of a byte\<close>

lemma byte_eqI:
  assumes "bit a 0 = bit b 0" "bit a 1 = bit b 1" "bit a 2 = bit b 2" "bit a 3 = bit b 3"
    "bit a 4 = bit b 4" "bit a 5 = bit b 5" "bit a 6 = bit b 6" "bit a 7 = bit b 7"
  shows "a = (b :: u8)"
proof (rule bit_word_eqI)
  have "\<forall>n < 8. bit a n = bit b n" using assms by (simp add: numeral_eq_Suc All_less_Suc)
  then show "bit a n = bit b n" if "n < LENGTH(8)" for n using that by simp
qed

lemma and_or_zero:
  fixes a b :: "'a::len word"
  assumes "b AND m = 0" "k AND m = k"
  shows "(a OR b) AND k = a AND k"
proof -
  have "b AND k = (b AND m) AND k"
    by (metis assms(2) and.assoc and.commute)
  then show ?thesis using assms(1) by (simp add: word_ao_dist)
qed

subsection \<open>Traffic class and flow label\<close>

lemma tcflow_bits0:
  fixes vtc tcflow :: u8
  assumes "vtc AND 0xF0 = 0x60"
  defines "tmp0 \<equiv> push_bit 4 vtc OR drop_bit 4 tcflow"
  defines "tmp \<equiv> push_bit 6 (tmp0 AND 0x03) OR drop_bit 2 tmp0"
  shows "0x60 OR (drop_bit 2 tmp AND 0x0f) = vtc"
proof -
  have v: "vtc = 0x60 OR (vtc AND 0x0F)"
  proof -
    have "vtc = (vtc AND 0xF0) OR (vtc AND 0x0F)" by (rule byte_eqI) (simp_all add: bit_simps)
    then show ?thesis using assms(1) by simp
  qed
  have "drop_bit 2 tmp AND 0x0f = vtc AND 0x0f"
    unfolding tmp_def tmp0_def by (rule byte_eqI; simp add: bit_simps)
  then show ?thesis using v by simp
qed

lemma tcflow_bits1:
  fixes vtc tcflow :: u8
  defines "tmp0 \<equiv> push_bit 4 vtc OR drop_bit 4 tcflow"
  defines "tmp \<equiv> push_bit 6 (tmp0 AND 0x03) OR drop_bit 2 tmp0"
  shows "(drop_bit 2 tmp AND 0x30) OR push_bit 6 tmp OR (tcflow AND 0x0F) = tcflow"
  unfolding tmp_def tmp0_def by (rule byte_eqI; simp add: bit_simps)

lemma tcflow_bits2:
  fixes vtc tcflow :: u8
  assumes "tcflow AND 0x0F = 0"
  defines "tmp0 \<equiv> push_bit 4 vtc OR drop_bit 4 tcflow"
  defines "tmp \<equiv> push_bit 6 (tmp0 AND 0x03) OR drop_bit 2 tmp0"
  shows "(push_bit 6 tmp AND 0xC0) OR (drop_bit 2 tmp AND 0x30) = tcflow"
proof -
  have "(push_bit 6 tmp AND 0xC0) OR (drop_bit 2 tmp AND 0x30) OR (tcflow AND 0x0F) = tcflow"
    unfolding tmp_def tmp0_def by (rule byte_eqI; simp add: bit_simps)
  then show ?thesis using assms(1) by simp
qed

lemma tcflow_bits3:
  fixes vtc tcflow :: u8
  assumes "vtc AND 0x0F = 0" "tcflow AND 0xF0 = 0"
  defines "tmp0 \<equiv> push_bit 4 vtc OR drop_bit 4 tcflow"
  defines "tmp \<equiv> push_bit 6 (tmp0 AND 0x03) OR drop_bit 2 tmp0"
  shows "(tmp AND 0xc0) OR (tcflow AND 0x0F) = tcflow"
proof -
  have "tmp AND 0xc0 = push_bit 2 (tcflow AND 0xF0) AND 0xc0"
    unfolding tmp_def tmp0_def by (rule byte_eqI; simp add: bit_simps impossible_bit)
  then have "tmp AND 0xc0 = 0" using assms by simp
  moreover have "tcflow = (tcflow AND 0xF0) OR (tcflow AND 0x0F)" by (rule byte_eqI) (simp_all add: bit_simps)
  ultimately show ?thesis using assms(2) by simp
qed

lemma compress_tcflow_bits:
  "fst (compress_tcflow u) = 0 \<or> fst (compress_tcflow u) = 0x08 \<or> fst (compress_tcflow u) = 0x10 \<or> fst (compress_tcflow u) = 0x18"
  by (simp add: compress_tcflow_def Let_def iphc_consts)

lemma tcflow_roundtrip:
  assumes u: "u ! 0 AND 0xF0 = 0x60" "4 \<le> length u"
    and c: "compress_tcflow u = (tc, bs)" and r: "reads p pos bs"
    and i: "iphc0 AND SICSLOWPAN_IPHC_FL_C = tc AND SICSLOWPAN_IPHC_FL_C"
      "iphc0 AND SICSLOWPAN_IPHC_TC_C = tc AND SICSLOWPAN_IPHC_TC_C"
  shows "uncompress_tcflow iphc0 p pos = Some (take 4 u, pos + length bs)"
proof -
  have t4: "take 4 u = [u ! 0, u ! 1, u ! 2, u ! 3]"
    using u(2) by (intro nth_equalityI) (auto simp: less_Suc_eq numeral_eq_Suc)
  have no_tc: "u ! 0 AND 0x0F = 0 \<Longrightarrow> u ! 0 = 0x60"
  proof -
    assume "u ! 0 AND 0x0F = 0"
    moreover have "u ! 0 = (u ! 0 AND 0xF0) OR (u ! 0 AND 0x0F)" by (rule byte_eqI) (simp_all add: bit_simps)
    ultimately show "u ! 0 = 0x60" using u(1) by simp
  qed
  have fl: "u ! 1 AND 0x0F = 0 \<Longrightarrow> u ! 1 AND 0xF0 = 0 \<Longrightarrow> u ! 1 = 0"
  proof -
    assume "u ! 1 AND 0x0F = 0" "u ! 1 AND 0xF0 = 0"
    moreover have "u ! 1 = (u ! 1 AND 0xF0) OR (u ! 1 AND 0x0F)" by (rule byte_eqI) (simp_all add: bit_simps)
    ultimately show "u ! 1 = 0" by simp
  qed
  note b0 = tcflow_bits0 [OF u(1), of "u ! 1"] and b1 = tcflow_bits1 [of "u ! 0" "u ! 1"]
    and b2 = tcflow_bits2 [of "u ! 1" "u ! 0"] and b3 = tcflow_bits3 [of "u ! 0" "u ! 1"]
  consider
    (a) "u ! 1 AND 0x0F = 0" "u ! 2 = 0" "u ! 3 = 0" "u ! 0 AND 0x0F = 0" "u ! 1 AND 0xF0 = 0"
  | (b) "u ! 1 AND 0x0F = 0" "u ! 2 = 0" "u ! 3 = 0" "\<not> (u ! 0 AND 0x0F = 0 \<and> u ! 1 AND 0xF0 = 0)"
  | (c) "\<not> (u ! 1 AND 0x0F = 0 \<and> u ! 2 = 0 \<and> u ! 3 = 0)" "u ! 0 AND 0x0F = 0" "u ! 1 AND 0xF0 = 0"
  | (d) "\<not> (u ! 1 AND 0x0F = 0 \<and> u ! 2 = 0 \<and> u ! 3 = 0)" "\<not> (u ! 0 AND 0x0F = 0 \<and> u ! 1 AND 0xF0 = 0)"
    by blast
  then show ?thesis
  proof cases
    case a
    note v = no_tc [OF a(4)] fl [OF a(1, 5)]
    from c a i show ?thesis
      by (simp add: compress_tcflow_def iphc_consts v uncompress_tcflow_def t4)
        (use v in auto)
  next
    case b
    let ?t = "push_bit 6 ((push_bit 4 (u ! 0) OR drop_bit 4 (u ! 1)) AND 3) OR drop_bit 2 (push_bit 4 (u ! 0) OR drop_bit 4 (u ! 1))"
    have e: "tc = 0x10" "bs = [?t]" using c b by (simp_all only: compress_tcflow_def Let_def simp_thms if_True if_False iphc_consts prod.inject)
    have "rd p pos = Some ?t" using r by (simp add: e reads_Cons)
    with i show ?thesis
      using b0 b2 [OF b(1)] b by (simp add: e iphc_consts uncompress_tcflow_def t4)
  next
    case c': c
    have e: "tc = 0x08" "bs = [u ! 1, u ! 2, u ! 3]"
      using c c' b3 [OF c'(2, 3)] by (simp_all only: compress_tcflow_def Let_def simp_thms if_True if_False iphc_consts prod.inject)
    have "mem_read p pos 3 = Some [u ! 1, u ! 2, u ! 3]" using r by (simp add: e reads_mem_read)
    moreover have "(u ! 1 AND 0x0F) OR (drop_bit 2 (u ! 1) AND 0x30) = u ! 1"
    proof -
      have "drop_bit 2 (u ! 1) AND 0x30 = drop_bit 2 (u ! 1 AND 0xF0) AND 0x30"
        by (rule byte_eqI; simp add: bit_simps)
      then have "drop_bit 2 (u ! 1) AND 0x30 = 0" unfolding c'(3) by simp
      moreover have "u ! 1 = (u ! 1 AND 0xF0) OR (u ! 1 AND 0x0F)" by (rule byte_eqI) (simp_all add: bit_simps)
      ultimately show ?thesis using c'(3) by simp
    qed
    ultimately show ?thesis using i by (simp add: e iphc_consts uncompress_tcflow_def t4 no_tc c')
  next
    case d
    let ?t = "push_bit 6 ((push_bit 4 (u ! 0) OR drop_bit 4 (u ! 1)) AND 3) OR drop_bit 2 (push_bit 4 (u ! 0) OR drop_bit 4 (u ! 1))"
    have e: "tc = 0" "bs = [?t, u ! 1, u ! 2, u ! 3]"
      using c d by (simp_all only: compress_tcflow_def Let_def simp_thms if_True if_False iphc_consts prod.inject)
    have "mem_read p pos 4 = Some [?t, u ! 1, u ! 2, u ! 3]" using r by (simp add: e reads_mem_read)
    with i show ?thesis using b0 b1 by (simp add: e iphc_consts uncompress_tcflow_def t4)
  qed
qed

lemma ttl_roundtrip:
  assumes c: "compress_ttl t = (m, bs)" and r: "reads p pos bs" and i: "iphc0 AND 0x03 = m"
  shows "(if iphc0 AND 0x03 \<noteq> 0 then Some (ttl_values ! unat (iphc0 AND 0x03), pos)
          else do { b \<leftarrow> rd p pos; Some (b, pos + 1) }) = Some (t, pos + length bs)"
  using c r unfolding i
  by (auto simp: compress_ttl_def ttl_values_def reads_Cons split: if_splits)

lemma compress_ttl_bits: "fst (compress_ttl t) = 0 \<or> fst (compress_ttl t) = 1 \<or> fst (compress_ttl t) = 2 \<or> fst (compress_ttl t) = 3"
  by (simp add: compress_ttl_def)

subsection \<open>Addresses\<close>

lemma list16: "length (a :: 'a list) = 16 \<Longrightarrow>
  a = [a!0, a!1, a!2, a!3, a!4, a!5, a!6, a!7, a!8, a!9, a!10, a!11, a!12, a!13, a!14, a!15]"
  by (intro nth_equalityI) (auto simp: less_Suc_eq numeral_eq_Suc)

lemma list16E:
  assumes "length (a :: 'a list) = 16"
  obtains b0 b1 b2 b3 b4 b5 b6 b7 b8 b9 b10 b11 b12 b13 b14 b15
  where "a = [b0, b1, b2, b3, b4, b5, b6, b7, b8, b9, b10, b11, b12, b13, b14, b15]"
  using list16 [OF assms] by blast

lemma list8E:
  assumes "length (a :: 'a list) = 8"
  obtains b0 b1 b2 b3 b4 b5 b6 b7 where "a = [b0, b1, b2, b3, b4, b5, b6, b7]"
proof
  show "a = [a ! 0, a ! 1, a ! 2, a ! 3, a ! 4, a ! 5, a ! 6, a ! 7]"
    using assms by (intro nth_equalityI) (auto simp: less_Suc_eq numeral_eq_Suc)
qed

text \<open>The part of an address behind the prefix, in 8 bytes, 2 bytes or elided, behind a prefix of 8 bytes or
  the link-local prefix.\<close>

lemma compress_addr_64_bitpos:
  "compress_addr_64 n a m = (push_bit n (fst (compress_addr_64 0 a m)), snd (compress_addr_64 0 a m))"
  by (simp add: compress_addr_64_def)

lemma replicates:
  "replicate 6 x = [x, x, x, x, x, x]" "replicate 9 x = [x, x, x, x, x, x, x, x, x]"
  "replicate 12 x = [x, x, x, x, x, x, x, x, x, x, x, x]"
  "replicate 11 x = [x, x, x, x, x, x, x, x, x, x, x]" "replicate 13 x = [x, x, x, x, x, x, x, x, x, x, x, x, x]"
  by (simp_all add: numeral_eq_Suc)

text \<open>The prefix that the decoder puts in front of it.\<close>

definition prefix_conf :: "u8 list \<Rightarrow> u8 list \<Rightarrow> ipaddr \<Rightarrow> bool" where
  "prefix_conf conf pre a \<longleftrightarrow>
     (conf = unc_ctxconf \<and> length pre = 8 \<and> take 8 a = pre) \<or>
     (conf = unc_llconf \<and> pre = llprefix \<and> take 8 a = llprefix @ replicate 6 0)"

lemma addr_64_roundtrip:
  assumes a: "length a = 16" and m: "length m = 8"
    and c: "compress_addr_64 0 a m = (k, bs)" and r: "reads p pos bs" and pre: "prefix_conf conf pre a"
  shows "uncompress_addr (Some pre) (conf ! unat k) (Some m) p pos = Some (a, pos + length bs)"
proof -
  obtain a0 a1 a2 a3 a4 a5 a6 a7 a8 a9 a10 a11 a12 a13 a14 a15
    where al: "a = [a0, a1, a2, a3, a4, a5, a6, a7, a8, a9, a10, a11, a12, a13, a14, a15]"
    using a by (rule list16E)
  obtain m0 m1 m2 m3 m4 m5 m6 m7 where ml: "m = [m0, m1, m2, m3, m4, m5, m6, m7]"
    using m by (rule list8E)
  have pl: "(conf = unc_ctxconf \<and> pre = [a0, a1, a2, a3, a4, a5, a6, a7]) \<or>
      (conf = unc_llconf \<and> pre = [0xfe, 0x80] \<and> [a0, a1, a2, a3, a4, a5, a6, a7] = [0xfe, 0x80, 0, 0, 0, 0, 0, 0])"
    using pre by (auto simp: prefix_conf_def al llprefix_def numeral_eq_Suc)
  note d = unc_ctxconf_def unc_llconf_def uncompress_addr_def half_count_def mem_read_def [of "_ # _"]
  consider (3) "k = 3" "bs = []" "[a8, a9, a10, a11, a12, a13, a14, a15] = [m0 XOR 2, m1, m2, m3, m4, m5, m6, m7]"
    | (2) "k = 2" "bs = [a14, a15]" "[a8, a9, a10, a11, a12, a13] = [0, 0, 0, 0xff, 0xfe, 0]"
    | (1) "k = 1" "bs = [a8, a9, a10, a11, a12, a13, a14, a15]"
    using c by (auto simp: compress_addr_64_def al ml uip_is_addr_mac_addr_based_def
        sicslowpan_is_iid_16_bit_compressable_def split: if_splits)
  then show ?thesis
  proof cases
    case 3
    with pl show ?thesis
      by (elim disjE conjE) (simp_all add: d al ml uip_ds6_set_addr_iid_def Let_def replicates)
  next
    case 2
    have "mem_read p pos 2 = Some bs" using r 2 by (simp add: reads_mem_read)
    with pl 2 show ?thesis by (elim disjE conjE) (simp_all add: d al Let_def replicates)
  next
    case 1
    have "mem_read p pos 8 = Some bs" using r 1 by (simp add: reads_mem_read)
    with pl 1 show ?thesis by (elim disjE conjE) (simp_all add: d al Let_def replicates)
  qed
qed

lemma compress_addr_64_bits:
  "fst (compress_addr_64 0 a m) = 1 \<or> fst (compress_addr_64 0 a m) = 2 \<or> fst (compress_addr_64 0 a m) = 3"
  by (simp add: compress_addr_64_def)

text \<open>The contexts: at most 16 numbers, one context for each number.\<close>

definition contexts_ok :: "addr_context list \<Rightarrow> bool" where
  "contexts_ok cs \<longleftrightarrow>
     (\<forall>c \<in> set cs. ac_used c = 1 \<longrightarrow> ac_number c < 16 \<and> length (ac_prefix c) = 8) \<and>
     distinct (map ac_number (filter (\<lambda>c. ac_used c = 1) cs))"

lemma contexts_ok_init: "contexts_ok init_addr_contexts"
  by (simp add: contexts_ok_def init_addr_contexts_def)

lemma find_number:
  "distinct (map ac_number (filter (\<lambda>c. ac_used c = 1) cs)) \<Longrightarrow> c \<in> set cs \<Longrightarrow> ac_used c = 1 \<Longrightarrow>
   addr_context_lookup_by_number cs (ac_number c) = Some c"
proof (induction cs)
  case (Cons a cs)
  show ?case
  proof (cases "a = c")
    case True
    then show ?thesis using Cons.prems by (simp add: addr_context_lookup_by_number_def)
  next
    case False
    then have c: "c \<in> set cs" using Cons.prems by simp
    have "ac_used a = 1 \<Longrightarrow> ac_number a \<noteq> ac_number c" using Cons.prems(1, 3) c by (auto simp: image_iff)
    then show ?thesis using Cons.IH Cons.prems c
      by (cases "ac_used a = 1") (simp_all add: addr_context_lookup_by_number_def)
  qed
qed simp

lemma context_found:
  assumes "contexts_ok cs" "addr_context_lookup_by_prefix cs a = Some c"
  shows "addr_context_lookup_by_number cs (ac_number c) = Some c" "ac_number c < 16" "length (ac_prefix c) = 8"
    "take 8 a = ac_prefix c"
proof -
  have c: "c \<in> set cs" "ac_used c = 1" "uip_ipaddr_prefixcmp (ac_prefix c) a 64"
    using assms(2) by (auto simp: addr_context_lookup_by_prefix_def find_Some_iff)
  then show "addr_context_lookup_by_number cs (ac_number c) = Some c" "ac_number c < 16" "length (ac_prefix c) = 8"
    using assms(1) by (auto simp: contexts_ok_def find_number)
  then show "take 8 a = ac_prefix c" using c(3) by (simp add: uip_ipaddr_prefixcmp_def)
qed

subsection \<open>The source address\<close>

text \<open>What the decoder relies on for an address compressed with the link-local prefix: the bytes 2 to 7 are
  zero.\<close>

definition ll_mid_zero :: "ipaddr \<Rightarrow> bool" where
  "ll_mid_zero a \<longleftrightarrow> uip_is_addr_linklocal a \<longrightarrow> take 6 (drop 2 a) = replicate 6 0"

lemma take8_linklocal:
  assumes "length a = 16" "uip_is_addr_linklocal a" "take 6 (drop 2 a) = replicate 6 0"
  shows "take 8 a = llprefix @ replicate 6 0"
proof -
  have "take 8 a = take 2 a @ take 6 (drop 2 a)" by (simp flip: take_add)
  moreover have "take 2 a = [a ! 0, a ! 1]"
    using assms(1) by (intro nth_equalityI) (auto simp: less_Suc_eq numeral_eq_Suc)
  ultimately show ?thesis using assms(2, 3) by (simp add: uip_is_addr_linklocal_def llprefix_def)
qed

lemma small_bits: "k < 16 \<Longrightarrow> 4 \<le> n \<Longrightarrow> bit (k :: u8) n = False"
proof -
  assume "k < 16" "4 \<le> n"
  then have "take_bit 4 (unat k) = unat k" by (simp add: take_bit_nat_eq_self_iff word_less_nat_alt)
  then have "bit (unat k) n = (n < 4 \<and> bit (unat k) n)" by (metis bit_take_bit_iff)
  with \<open>4 \<le> n\<close> show ?thesis by (cases "n < 8") (simp_all add: bit_unsigned_iff impossible_bit)
qed

lemma nibbles:
  assumes "k < 16" "d < 16"
  shows "drop_bit 4 (push_bit 4 k OR d) = (k :: u8)" "(push_bit 4 k OR d) AND 0x0f = d"
proof -
  note b = small_bits [OF assms(1)] small_bits [OF assms(2)]
  show "drop_bit 4 (push_bit 4 k OR d) = k" by (rule byte_eqI; simp add: bit_simps b impossible_bit)
  show "(push_bit 4 k OR d) AND 0x0f = d" by (rule byte_eqI; simp add: bit_simps b)
qed

lemma compress_src_cases:
  assumes c: "compress_src cs lladdr u = (s1, s2, bs)"
  obtains (unspec) "uip_is_addr_unspecified (ip_src u)" "s1 = 0x40" "s2 = 0" "bs = []"
    | (ctx) c k where "addr_context_lookup_by_prefix cs (ip_src u) = Some c" "compress_addr_64 0 (ip_src u) lladdr = (k, bs)"
        "s1 = 0x80 OR 0x40 OR push_bit 4 k" "s2 = push_bit 4 (ac_number c)"
    | (ll) k where "addr_context_lookup_by_prefix cs (ip_src u) = None" "uip_is_addr_linklocal (ip_src u)" "dest_mid_zero u"
        "compress_addr_64 0 (ip_src u) lladdr = (k, bs)" "s1 = push_bit 4 k" "s2 = 0"
    | (full) "s1 = 0" "s2 = 0" "bs = ip_src u"
proof -
  obtain k ks where k: "compress_addr_64 0 (ip_src u) lladdr = (k, ks)" by fastforce
  have k4: "compress_addr_64 4 (ip_src u) lladdr = (push_bit 4 k, ks)"
    using compress_addr_64_bitpos [of 4 "ip_src u" lladdr] by (simp add: k)
  show ?thesis
    using c that k by (simp add: compress_src_def k4 iphc_consts split: if_splits option.splits)
qed

lemma src_roundtrip:
  assumes u: "40 \<le> length u" and l: "length lladdr = 8" and cs: "contexts_ok cs"
    and c: "compress_src cs lladdr u = (s1, s2, bs)" and r: "reads p pos bs"
    and ok: "addr_context_lookup_by_prefix cs (ip_src u) = None \<Longrightarrow> dest_mid_zero u \<Longrightarrow> ll_mid_zero (ip_src u)"
    and i: "iphc1 AND SICSLOWPAN_IPHC_SAC = s1 AND SICSLOWPAN_IPHC_SAC"
      "iphc1 AND SICSLOWPAN_IPHC_SAM_11 = s1 AND SICSLOWPAN_IPHC_SAM_11"
    and byte: "iphc1 AND SICSLOWPAN_IPHC_CID \<noteq> 0 \<Longrightarrow> rd p (h + 2) = Some (s2 OR d2)" and d2: "d2 < 16"
    and flag: "s1 AND SICSLOWPAN_IPHC_CID \<noteq> 0 \<Longrightarrow> iphc1 AND SICSLOWPAN_IPHC_CID \<noteq> 0"
  shows "uncompress_src cs lladdr iphc1 p h pos = Some (Address (ip_src u) (pos + length bs))"
proof -
  have len: "length (ip_src u) = 16" using u by (simp add: ip_src_def)
  have k: "k = 1 \<or> k = 2 \<or> k = 3" if "compress_addr_64 0 (ip_src u) lladdr = (k, ks)" for k ks
    using compress_addr_64_bits [of "ip_src u" lladdr] that by simp
  show ?thesis
    using c
  proof (cases rule: compress_src_cases)
    case unspec
    then have a: "ip_src u = replicate 16 0" using len by (simp add: uip_is_addr_unspecified_def)
    have "uncompress_addr None (unc_ctxconf ! 0) (Some lladdr) p pos = Some (replicate 16 0, pos)"
      by (simp add: uncompress_addr_def unc_ctxconf_def half_count_def)
    moreover have "(if iphc1 AND SICSLOWPAN_IPHC_CID \<noteq> 0 then map_option (drop_bit 4) (rd p (h + 2)) else Some 0) \<noteq> None"
      using byte by simp
    ultimately show ?thesis
      using unspec i by (auto simp: uncompress_src_def iphc_consts a)
  next
    case (ctx c k')
    note f = context_found [OF cs ctx(1)]
    have pc: "prefix_conf unc_ctxconf (ac_prefix c) (ip_src u)" using f by (simp add: prefix_conf_def)
    have U: "uncompress_addr (Some (ac_prefix c)) (unc_ctxconf ! unat k') (Some lladdr) p pos = Some (ip_src u, pos + length bs)"
      by (rule addr_64_roundtrip [OF len l ctx(2) r pc])
    have cid: "iphc1 AND SICSLOWPAN_IPHC_CID \<noteq> 0"
      using k [OF ctx(2)] by (intro flag) (auto simp: ctx(3) iphc_consts)
    have n: "drop_bit 4 (s2 OR d2) = ac_number c" unfolding ctx(4) by (rule nibbles) (fact f(2) d2)+
    obtain z where z: "rd p (h + 2) = Some z" "drop_bit 4 z = ac_number c" using byte [OF cid] n by blast
    have "iphc1 AND 0x30 = push_bit 4 k'" "iphc1 AND 0x40 \<noteq> 0"
      using k [OF ctx(2)] i by (auto simp: ctx(3) iphc_consts)
    then show ?thesis
      using k [OF ctx(2)] U z cid f(1) by (auto simp: uncompress_src_def iphc_consts)
  next
    case (ll k')
    have pc: "prefix_conf unc_llconf llprefix (ip_src u)"
      using ok [OF ll(1, 3)] ll(2) take8_linklocal [OF len] by (simp add: prefix_conf_def ll_mid_zero_def)
    have U: "uncompress_addr (Some llprefix) (unc_llconf ! unat k') (Some lladdr) p pos = Some (ip_src u, pos + length bs)"
      by (rule addr_64_roundtrip [OF len l ll(4) r pc])
    have "iphc1 AND 0x30 = push_bit 4 k'" "iphc1 AND 0x40 = 0"
      using k [OF ll(4)] i by (auto simp: ll(5) iphc_consts)
    then show ?thesis
      using k [OF ll(4)] U by (auto simp: uncompress_src_def iphc_consts)
  next
    case full
    have "mem_read p pos 16 = Some (ip_src u)" using r full by (simp add: reads_mem_read len)
    then have "uncompress_addr (Some llprefix) (unc_llconf ! 0) (Some lladdr) p pos = Some (ip_src u, pos + 16)"
      by (simp add: uncompress_addr_def unc_llconf_def half_count_def)
    then show ?thesis using i full by (simp add: uncompress_src_def iphc_consts len)
  qed
qed

subsection \<open>The destination address\<close>

lemma compress_dest_cases:
  assumes c: "compress_dest cs dest u = (d1, d2, bs)"
  obtains (mcast8) "d1 = 0x0B" "d2 = 0" "bs = [ip_dest u ! 15]" "uip_is_addr_mcast (ip_dest u)"
        "sicslowpan_is_mcast_addr_compressable8 (ip_dest u)"
    | (mcast32) "d1 = 0x0A" "d2 = 0" "bs = ip_dest u ! 1 # take 3 (drop 13 (ip_dest u))" "uip_is_addr_mcast (ip_dest u)"
        "sicslowpan_is_mcast_addr_compressable32 (ip_dest u)"
    | (mcast48) "d1 = 0x09" "d2 = 0" "bs = ip_dest u ! 1 # take 5 (drop 11 (ip_dest u))" "uip_is_addr_mcast (ip_dest u)"
        "sicslowpan_is_mcast_addr_compressable48 (ip_dest u)"
    | (mcast) "d1 = 0x08" "d2 = 0" "bs = ip_dest u" "uip_is_addr_mcast (ip_dest u)"
    | (ctx) c k where "addr_context_lookup_by_prefix cs (ip_dest u) = Some c" "compress_addr_64 0 (ip_dest u) dest = (k, bs)"
        "d1 = 0x04 OR k" "d2 = ac_number c"
    | (ll) k where "uip_is_addr_linklocal (ip_dest u)" "dest_mid_zero u"
        "compress_addr_64 0 (ip_dest u) dest = (k, bs)" "d1 = k" "d2 = 0"
    | (full) "d1 = 0" "d2 = 0" "bs = ip_dest u"
proof -
  obtain k ks where k: "compress_addr_64 0 (ip_dest u) dest = (k, ks)" by fastforce
  show ?thesis
    using c that k by (simp add: compress_dest_def Let_def k iphc_consts split: if_splits option.splits)
qed

lemma mcast_roundtrip:
  assumes len: "length a = 16" and m: "a ! 0 = 0xff"
  shows "sicslowpan_is_mcast_addr_compressable8 a \<Longrightarrow> reads p pos [a ! 15] \<Longrightarrow>
      uncompress_addr (Some [0xff, 0x02]) (unc_mxconf ! 3) None p pos = Some (a, pos + 1)"
    "sicslowpan_is_mcast_addr_compressable32 a \<Longrightarrow> reads p pos (take 3 (drop 13 a)) \<Longrightarrow>
      uncompress_addr (Some [0xff, a ! 1]) (unc_mxconf ! 2) None p pos = Some (a, pos + 3)"
    "sicslowpan_is_mcast_addr_compressable48 a \<Longrightarrow> reads p pos (take 5 (drop 11 a)) \<Longrightarrow>
      uncompress_addr (Some [0xff, a ! 1]) (unc_mxconf ! 1) None p pos = Some (a, pos + 5)"
    "reads p pos a \<Longrightarrow> uncompress_addr (Some pre) (unc_mxconf ! 0) None p pos = Some (a, pos + 16)"
proof -
  obtain a0 a1 a2 a3 a4 a5 a6 a7 a8 a9 a10 a11 a12 a13 a14 a15
    where al: "a = [a0, a1, a2, a3, a4, a5, a6, a7, a8, a9, a10, a11, a12, a13, a14, a15]"
    using len by (rule list16E)
  have r: "reads p pos bs \<Longrightarrow> n = length bs \<Longrightarrow> mem_read p pos n = Some bs" for bs n by (rule reads_mem_read)
  note d = unc_mxconf_def uncompress_addr_def half_count_def mem_read_def [of "_ # _"] Let_def replicates
  show "sicslowpan_is_mcast_addr_compressable8 a \<Longrightarrow> reads p pos [a ! 15] \<Longrightarrow>
      uncompress_addr (Some [0xff, 0x02]) (unc_mxconf ! 3) None p pos = Some (a, pos + 1)"
    using m by (drule_tac n = 1 in r) (simp_all add: sicslowpan_is_mcast_addr_compressable8_def al d)
  show "sicslowpan_is_mcast_addr_compressable32 a \<Longrightarrow> reads p pos (take 3 (drop 13 a)) \<Longrightarrow>
      uncompress_addr (Some [0xff, a ! 1]) (unc_mxconf ! 2) None p pos = Some (a, pos + 3)"
    using m by (drule_tac n = 3 in r) (simp_all add: sicslowpan_is_mcast_addr_compressable32_def al d)
  show "sicslowpan_is_mcast_addr_compressable48 a \<Longrightarrow> reads p pos (take 5 (drop 11 a)) \<Longrightarrow>
      uncompress_addr (Some [0xff, a ! 1]) (unc_mxconf ! 1) None p pos = Some (a, pos + 5)"
    using m by (drule_tac n = 5 in r) (simp_all add: sicslowpan_is_mcast_addr_compressable48_def al d)
  show "reads p pos a \<Longrightarrow>
      uncompress_addr (Some pre) (unc_mxconf ! 0) None p pos = Some (a, pos + 16)"
    by (drule_tac n = 16 in r) (simp_all add: al d)
qed

lemma dest_roundtrip:
  assumes u: "40 \<le> length u" and l: "length dest = 8" and cs: "contexts_ok cs"
    and c: "compress_dest cs dest u = (d1, d2, bs)" and r: "reads p pos bs"
    and i: "iphc1 AND SICSLOWPAN_IPHC_M = d1 AND SICSLOWPAN_IPHC_M" "iphc1 AND SICSLOWPAN_IPHC_DAC = d1 AND SICSLOWPAN_IPHC_DAC"
      "iphc1 AND SICSLOWPAN_IPHC_DAM_11 = d1 AND SICSLOWPAN_IPHC_DAM_11"
    and byte: "iphc1 AND SICSLOWPAN_IPHC_CID \<noteq> 0 \<Longrightarrow> rd p (h + 2) = Some (push_bit 4 k2 OR d2)" and k2: "k2 < 16"
    and flag: "d1 AND SICSLOWPAN_IPHC_DAC \<noteq> 0 \<Longrightarrow> iphc1 AND SICSLOWPAN_IPHC_CID \<noteq> 0"
  shows "uncompress_dest cs dest iphc1 p h pos = Some (Address (ip_dest u) (pos + length bs))"
proof -
  have len: "length (ip_dest u) = 16" using u by (simp add: ip_dest_def)
  have k: "k = 1 \<or> k = 2 \<or> k = 3" if "compress_addr_64 0 (ip_dest u) dest = (k, ks)" for k ks
    using compress_addr_64_bits [of "ip_dest u" dest] that by simp
  show ?thesis
    using c
  proof (cases rule: compress_dest_cases)
    case mcast8
    then show ?thesis
      using i r mcast_roundtrip(1) [OF len, of p pos]
      by (simp add: uncompress_dest_def iphc_consts uip_is_addr_mcast_def)
  next
    case mcast32
    then show ?thesis
      using i r mcast_roundtrip(2) [OF len, of p "pos + 1"]
      by (simp add: uncompress_dest_def iphc_consts uip_is_addr_mcast_def reads_Cons len)
  next
    case mcast48
    then show ?thesis
      using i r mcast_roundtrip(3) [OF len, of p "pos + 1"]
      by (simp add: uncompress_dest_def iphc_consts uip_is_addr_mcast_def reads_Cons len)
  next
    case mcast
    then show ?thesis
      using i r mcast_roundtrip(4) [OF len, of p pos]
      by (simp add: uncompress_dest_def iphc_consts uip_is_addr_mcast_def len)
  next
    case (ctx c k')
    note f = context_found [OF cs ctx(1)]
    have pc: "prefix_conf unc_ctxconf (ac_prefix c) (ip_dest u)" using f by (simp add: prefix_conf_def)
    have U: "uncompress_addr (Some (ac_prefix c)) (unc_ctxconf ! unat k') (Some dest) p pos = Some (ip_dest u, pos + length bs)"
      by (rule addr_64_roundtrip [OF len l ctx(2) r pc])
    have cid: "iphc1 AND SICSLOWPAN_IPHC_CID \<noteq> 0"
      using k [OF ctx(2)] by (intro flag) (auto simp: ctx(3) iphc_consts)
    have n: "(push_bit 4 k2 OR d2) AND 0x0f = ac_number c" unfolding ctx(4) by (rule nibbles) (fact f(2) k2)+
    obtain z where z: "rd p (h + 2) = Some z" "z AND 0x0f = ac_number c" using byte [OF cid] n by blast
    have "iphc1 AND 0x03 = k'" "iphc1 AND 0x04 \<noteq> 0" "iphc1 AND 0x08 = 0"
      using k [OF ctx(2)] i by (auto simp: ctx(3) iphc_consts)
    then show ?thesis
      using k [OF ctx(2)] U z cid f(1) by (auto simp: uncompress_dest_def iphc_consts and.assoc)
  next
    case (ll k')
    have pc: "prefix_conf unc_llconf llprefix (ip_dest u)"
      using ll(1, 2) take8_linklocal [OF len] by (simp add: prefix_conf_def dest_mid_zero_def)
    have U: "uncompress_addr (Some llprefix) (unc_llconf ! unat k') (Some dest) p pos = Some (ip_dest u, pos + length bs)"
      by (rule addr_64_roundtrip [OF len l ll(3) r pc])
    have "iphc1 AND 0x03 = k'" "iphc1 AND 0x04 = 0" "iphc1 AND 0x08 = 0"
      using k [OF ll(3)] i by (auto simp: ll(4) iphc_consts)
    then show ?thesis
      using k [OF ll(3)] U by (auto simp: uncompress_dest_def iphc_consts and.assoc)
  next
    case full
    have "mem_read p pos 16 = Some (ip_dest u)" using r full by (simp add: reads_mem_read len)
    then have "uncompress_addr (Some llprefix) (unc_llconf ! 0) (Some dest) p pos = Some (ip_dest u, pos + 16)"
      by (simp add: uncompress_addr_def unc_llconf_def half_count_def)
    then show ?thesis using i full by (simp add: uncompress_dest_def iphc_consts len and.assoc)
  qed
qed

subsection \<open>The UDP header\<close>

lemma u16_eqI: "(\<And>n. n < 16 \<Longrightarrow> bit a n = bit b n) \<Longrightarrow> a = (b :: u16)"
  by (rule bit_word_eqI) simp

lemma set16_get16: "set16 (get16 f i) = [f i, f (i + 1)]"
proof -
  have "(ucast (drop_bit 8 (get16 f i)) :: u8) = f i"
    by (rule byte_eqI; simp add: get16_def bit_simps impossible_bit)
  moreover have "(ucast (get16 f i AND 0xff) :: u8) = f (i + 1)"
    by (rule byte_eqI; simp add: get16_def bit_simps impossible_bit)
  ultimately show ?thesis by (simp add: set16_def)
qed

lemma and_split: "(q AND m) + (q AND NOT m) = (q :: u16)"
  by (subst disjunctive_add) (auto simp: bit_simps intro!: bit_word_eqI)

lemma not_masks: "NOT 0xff00 = (0xff :: u16)" "NOT 0xfff0 = (0xf :: u16)"
  by simp_all

lemma port8:
  fixes q :: u16
  assumes "q AND 0xff00 = 0xF000"
  shows "0xF000 + ucast (ucast (q - 0xF000) :: u8) = q"
proof -
  have q: "q = 0xF000 + (q AND 0xff)"
    using and_split [of q "0xff00"] unfolding assms not_masks by simp
  have "(ucast (ucast (q AND 0xff) :: u8) :: u16) = q AND 0xff"
    by (rule bit_word_eqI) (auto simp: bit_simps less_Suc_eq numeral_eq_Suc)
  moreover have "q - 0xF000 = q AND 0xff" using q by (metis add_diff_cancel_left')
  ultimately show ?thesis using q by simp
qed

lemma port4:
  fixes q :: u16
  assumes "q AND 0xfff0 = 0xF0B0"
  shows "q - 0xF0B0 = q AND 0xf" "q = 0xF0B0 + (q AND 0xf)"
proof -
  show q: "q = 0xF0B0 + (q AND 0xf)"
    using and_split [of q "0xfff0"] unfolding assms not_masks by simp
  then show "q - 0xF0B0 = q AND 0xf" by (metis add_diff_cancel_left')
qed

lemma ucast_and15: "(ucast (q AND 0xf :: u16) :: u8) < 16"
proof -
  have "(ucast (q AND 0xf :: u16) :: u8) = ucast q AND 0xf" by (rule byte_eqI; simp add: bit_simps)
  also have "\<dots> \<le> 0xf" by (rule word_and_le1)
  also have "\<dots> < 16" by simp
  finally show ?thesis .
qed

lemma ports4:
  fixes q d :: u16
  assumes q: "q AND 0xfff0 = 0xF0B0" and d: "d AND 0xfff0 = 0xF0B0"
  defines "b \<equiv> (ucast (push_bit 4 (q - 0xF0B0)) + ucast (d - 0xF0B0) :: u8)"
  shows "0xF0B0 + ucast (drop_bit 4 b) = q" "0xF0B0 + ucast (b AND 0x0F) = d"
proof -
  let ?q = "ucast (q AND 0xf) :: u8" and ?d = "ucast (d AND 0xf) :: u8"
  have lt: "?q < 16" "?d < 16"
    by (rule ucast_and15)+
  have p: "(ucast (push_bit 4 (q AND 0xf)) :: u8) = push_bit 4 ?q"
    by (rule byte_eqI; simp add: bit_simps)
  have b: "b = push_bit 4 ?q OR ?d"
    unfolding b_def port4(1) [OF q] port4(1) [OF d] p
  proof (rule disjunctive_add)
    show "\<not> bit (push_bit 4 ?q) n \<or> \<not> bit ?d n" for n
      by (cases "4 \<le> n") (simp_all add: small_bits [OF lt(2)] bit_push_bit_iff del: bit_unsigned_iff)
  qed
  have u: "(ucast (ucast (x AND 0xf) :: u8) :: u16) = x AND 0xf" for x :: u16
    by (rule bit_word_eqI) (auto simp: bit_simps less_Suc_eq numeral_eq_Suc)
  show "0xF0B0 + ucast (drop_bit 4 b) = q"
    unfolding b nibbles(1) [OF lt] u using port4(2) [OF q] by simp
  show "0xF0B0 + ucast (b AND 0x0F) = d"
    unfolding b nibbles(2) [OF lt] u using port4(2) [OF d] by simp
qed

lemma ports_roundtrip:
  assumes u: "48 \<le> length u" and c: "compress_udp u = nhc # bs @ [u ! 46, u ! 47]" and r: "reads p pos (nhc # bs)"
  shows "uncompress_ports p pos nhc = Some (take 4 (drop 40 u), pos + 1 + length bs)"
    "nhc AND SICSLOWPAN_NHC_UDP_MASK = SICSLOWPAN_NHC_UDP_ID" "nhc AND SICSLOWPAN_NHC_UDP_CHECKSUMC = 0"
proof -
  define sp dp where "sp = get16 (\<lambda>i. u ! i) 40" and "dp = get16 (\<lambda>i. u ! i) 42"
  have s: "set16 sp = [u ! 40, u ! 41]" and d: "set16 dp = [u ! 42, u ! 43]"
    by (simp_all add: sp_def dp_def set16_get16)
  have t: "take 4 (drop 40 u) = [u ! 40, u ! 41, u ! 42, u ! 43]"
    using u by (intro nth_equalityI) (auto simp: less_Suc_eq numeral_eq_Suc)
  note k = iphc_consts
  note c' = c [unfolded compress_udp_def sp_def [symmetric] dp_def [symmetric] Let_def k]
  consider
    (four) "sp AND 0xfff0 = 0xF0B0" "dp AND 0xfff0 = 0xF0B0" "nhc = 0xF3"
        "bs = [ucast (push_bit 4 (sp - 0xF0B0)) + ucast (dp - 0xF0B0)]"
  | (dest8) "dp AND 0xff00 = 0xF000" "nhc = 0xF1" "bs = [u ! 40, u ! 41, ucast (dp - 0xF000)]"
  | (src8) "sp AND 0xff00 = 0xF000" "nhc = 0xF2" "bs = [ucast (sp - 0xF000), u ! 42, u ! 43]"
  | (full) "nhc = 0xF0" "bs = [u ! 40, u ! 41, u ! 42, u ! 43]"
    using c' by (simp split: if_splits)
  then have "uncompress_ports p pos nhc = Some (take 4 (drop 40 u), pos + 1 + length bs) \<and> nhc AND 0xF8 = 0xF0 \<and> nhc AND 0x04 = 0"
  proof cases
    case four
    obtain b where b: "bs = [b]" "0xF0B0 + ucast (drop_bit 4 b) = sp" "0xF0B0 + ucast (b AND 0x0F) = dp"
      using four(4) ports4 [OF four(1, 2)] by blast
    then have "rd p (pos + 1) = Some b" using r by (simp add: reads_Cons)
    then show ?thesis using b s d t by (simp add: uncompress_ports_def k four(3))
  next
    case dest8
    have "mem_read p (pos + 1) 3 = Some bs" using r by (simp add: dest8 reads_Cons [of p pos] reads_mem_read)
    then show ?thesis using port8 [OF dest8(1)] d t
      by (simp add: uncompress_ports_def k dest8)
  next
    case src8
    have "mem_read p (pos + 1) 3 = Some bs" using r by (simp add: src8 reads_Cons [of p pos] reads_mem_read)
    then show ?thesis using port8 [OF src8(1)] s t
      by (simp add: uncompress_ports_def k src8)
  next
    case full
    have "mem_read p (pos + 1) 4 = Some bs" using r by (simp add: full reads_Cons [of p pos] reads_mem_read)
    then show ?thesis using t by (simp add: uncompress_ports_def k full)
  qed
  then show "uncompress_ports p pos nhc = Some (take 4 (drop 40 u), pos + 1 + length bs)"
    "nhc AND SICSLOWPAN_NHC_UDP_MASK = SICSLOWPAN_NHC_UDP_ID" "nhc AND SICSLOWPAN_NHC_UDP_CHECKSUMC = 0"
    by (simp_all add: k)
qed

lemma compress_udp_form:
  obtains nhc bs where "compress_udp u = nhc # bs @ [u ! 46, u ! 47]" "length bs \<le> 4"
proof -
  have "\<exists>X. compress_udp u = X @ [u ! 46, u ! 47] \<and> 0 < length X \<and> length X \<le> 5"
    unfolding compress_udp_def Let_def by (rule exI, rule conjI, rule refl, simp)
  then obtain X where X: "compress_udp u = X @ [u ! 46, u ! 47]" "0 < length X \<and> length X \<le> 5" by blast
  then show ?thesis using that [of "hd X" "tl X"] by (cases X) auto
qed

subsection \<open>The encoding bytes\<close>

lemma iphc0_bits:
  assumes "tc = 0 \<or> tc = 0x08 \<or> tc = 0x10 \<or> tc = (0x18 :: u8)" "ttl = 0 \<or> ttl = 1 \<or> ttl = 2 \<or> ttl = (3 :: u8)"
    "iphc0 = SICSLOWPAN_DISPATCH_IPHC OR tc OR (if udp then SICSLOWPAN_IPHC_NH_C else 0) OR ttl"
  shows "iphc0 AND SICSLOWPAN_IPHC_FL_C = tc AND SICSLOWPAN_IPHC_FL_C" "iphc0 AND SICSLOWPAN_IPHC_TC_C = tc AND SICSLOWPAN_IPHC_TC_C"
    "(iphc0 AND SICSLOWPAN_IPHC_NH_C = 0) = (\<not> udp)" "iphc0 AND 0x03 = ttl"
proof -
  have "iphc0 AND 0x10 = tc AND 0x10 \<and> iphc0 AND 0x08 = tc AND 0x08 \<and> (iphc0 AND 0x04 = 0) = (\<not> udp) \<and> iphc0 AND 0x03 = ttl"
    using assms unfolding iphc_consts by (elim disjE) simp_all
  then show "iphc0 AND SICSLOWPAN_IPHC_FL_C = tc AND SICSLOWPAN_IPHC_FL_C" "iphc0 AND SICSLOWPAN_IPHC_TC_C = tc AND SICSLOWPAN_IPHC_TC_C"
    "(iphc0 AND SICSLOWPAN_IPHC_NH_C = 0) = (\<not> udp)" "iphc0 AND 0x03 = ttl"
    by (simp_all add: iphc_consts)
qed

lemma compress_src_bits:
  assumes "compress_src cs lladdr u = (s1, s2, bs)" "contexts_ok cs" "40 \<le> length u"
  shows "s1 AND 0x0F = 0" "s1 AND 0x80 \<noteq> 0 \<Longrightarrow> addr_context_lookup_by_prefix cs (ip_src u) \<noteq> None"
    "\<exists>k. k < 16 \<and> s2 = push_bit 4 k" "length bs \<le> 16"
proof -
  have k: "k = 1 \<or> k = 2 \<or> k = 3" "length ks \<le> 8" if "compress_addr_64 0 (ip_src u) lladdr = (k, ks)" for k ks
    using compress_addr_64_bits [of "ip_src u" lladdr] that by (auto simp: compress_addr_64_def split: if_splits)
  have len: "length (ip_src u) = 16" using assms(3) by (simp add: ip_src_def)
  have "s1 AND 0x0F = 0 \<and> (s1 AND 0x80 \<noteq> 0 \<longrightarrow> addr_context_lookup_by_prefix cs (ip_src u) \<noteq> None) \<and>
      (\<exists>k. k < 16 \<and> s2 = push_bit 4 k) \<and> length bs \<le> 16"
    using assms(1)
  proof (cases rule: compress_src_cases)
    case (ctx c k')
    then show ?thesis
      using k [OF ctx(2)] context_found(2) [OF assms(2) ctx(1)] by (elim disjE) (auto intro: exI [of _ "ac_number c"])
  next
    case (ll k')
    then show ?thesis using k [OF ll(4)] by (elim disjE) (auto intro: exI [of _ 0])
  qed (auto simp: len intro: exI [of _ 0])
  then show "s1 AND 0x0F = 0" "s1 AND 0x80 \<noteq> 0 \<Longrightarrow> addr_context_lookup_by_prefix cs (ip_src u) \<noteq> None"
    "\<exists>k. k < 16 \<and> s2 = push_bit 4 k" "length bs \<le> 16" by blast+
qed

lemma compress_dest_bits:
  assumes "compress_dest cs dest u = (d1, d2, bs)" "contexts_ok cs" "40 \<le> length u"
  shows "d1 AND 0xF0 = 0" "d1 AND 0x04 \<noteq> 0 \<Longrightarrow> addr_context_lookup_by_prefix cs (ip_dest u) \<noteq> None"
    "d2 < 16" "length bs \<le> 16"
proof -
  have k: "k = 1 \<or> k = 2 \<or> k = 3" "length ks \<le> 8" if "compress_addr_64 0 (ip_dest u) dest = (k, ks)" for k ks
    using compress_addr_64_bits [of "ip_dest u" dest] that by (auto simp: compress_addr_64_def split: if_splits)
  have len: "length (ip_dest u) = 16" using assms(3) by (simp add: ip_dest_def)
  have "d1 AND 0xF0 = 0 \<and> (d1 AND 0x04 \<noteq> 0 \<longrightarrow> addr_context_lookup_by_prefix cs (ip_dest u) \<noteq> None) \<and>
      d2 < 16 \<and> length bs \<le> 16"
    using assms(1)
  proof (cases rule: compress_dest_cases)
    case (ctx c k')
    then show ?thesis
      using k [OF ctx(2)] context_found(2) [OF assms(2) ctx(1)] by (elim disjE) auto
  next
    case (ll k')
    then show ?thesis using k [OF ll(3)] by (elim disjE) auto
  qed (auto simp: len)
  then show "d1 AND 0xF0 = 0" "d1 AND 0x04 \<noteq> 0 \<Longrightarrow> addr_context_lookup_by_prefix cs (ip_dest u) \<noteq> None"
    "d2 < 16" "length bs \<le> 16" by blast+
qed

lemma iphc1_bits:
  fixes s1 d1 :: u8
  assumes "s1 AND 0x0F = 0" "d1 AND 0xF0 = 0" "cid = 0 \<or> cid = 0x80" "iphc1 = cid OR s1 OR d1" "s1 AND 0x80 \<noteq> 0 \<Longrightarrow> cid \<noteq> 0"
  shows "iphc1 AND SICSLOWPAN_IPHC_SAC = s1 AND SICSLOWPAN_IPHC_SAC" "iphc1 AND SICSLOWPAN_IPHC_SAM_11 = s1 AND SICSLOWPAN_IPHC_SAM_11"
    "iphc1 AND SICSLOWPAN_IPHC_M = d1 AND SICSLOWPAN_IPHC_M" "iphc1 AND SICSLOWPAN_IPHC_DAC = d1 AND SICSLOWPAN_IPHC_DAC"
    "iphc1 AND SICSLOWPAN_IPHC_DAM_11 = d1 AND SICSLOWPAN_IPHC_DAM_11" "(iphc1 AND SICSLOWPAN_IPHC_CID \<noteq> 0) = (cid \<noteq> 0)"
proof -
  have z: "s1 AND 0x08 = 0" "s1 AND 0x04 = 0" "s1 AND 0x03 = 0"
    "d1 AND 0x40 = 0" "d1 AND 0x30 = 0" "d1 AND 0x80 = 0"
    using and_or_zero [OF assms(1), of "0x08" 0] and_or_zero [OF assms(1), of "0x04" 0] and_or_zero [OF assms(1), of "0x03" 0]
      and_or_zero [OF assms(2), of "0x40" 0] and_or_zero [OF assms(2), of "0x30" 0] and_or_zero [OF assms(2), of "0x80" 0]
    by simp_all
  have s: "s1 AND 0x80 = 0 \<or> cid \<noteq> 0" using assms(5) by blast
  have "iphc1 AND k = (cid AND k) OR (s1 AND k) OR (d1 AND k)" for k
    by (simp add: assms(4) word_ao_dist or.assoc)
  then show "iphc1 AND SICSLOWPAN_IPHC_SAC = s1 AND SICSLOWPAN_IPHC_SAC" "iphc1 AND SICSLOWPAN_IPHC_SAM_11 = s1 AND SICSLOWPAN_IPHC_SAM_11"
    "iphc1 AND SICSLOWPAN_IPHC_M = d1 AND SICSLOWPAN_IPHC_M" "iphc1 AND SICSLOWPAN_IPHC_DAC = d1 AND SICSLOWPAN_IPHC_DAC"
    "iphc1 AND SICSLOWPAN_IPHC_DAM_11 = d1 AND SICSLOWPAN_IPHC_DAM_11" "(iphc1 AND SICSLOWPAN_IPHC_CID \<noteq> 0) = (cid \<noteq> 0)"
    using assms(3) s z by (auto simp: iphc_consts)
qed

subsection \<open>Header round trip\<close>

text \<open>An IPv6 packet in \<open>uip_buf\<close>: version 6, the payload length is the length of what follows the header, and so
  is the length in a UDP header.\<close>

definition ip_packet_ok :: "u8 list \<Rightarrow> bool" where
  "ip_packet_ok u \<longleftrightarrow>
     40 \<le> length u \<and> length u < 65536 \<and> u ! 0 AND 0xF0 = 0x60 \<and>
     take 2 (drop 4 u) = set16 (of_nat (length u - 40)) \<and>
     (u ! 6 = UIP_PROTO_UDP \<longrightarrow> 48 \<le> length u \<and> take 2 (drop 44 u) = take 2 (drop 4 u))"

lemma set16_div:
  assumes n: "n < 65536"
  shows "set16 (of_nat n) = [of_int (int n div 256), of_int (int n mod 256)]"
proof -
  have u: "unat (of_nat n :: u16) = n" using n by (simp add: unsigned_of_nat take_bit_nat_eq_self_iff)
  have e: "(ucast w :: u8) = of_nat (unat w)" for w :: u16 by simp
  have "unat (drop_bit 8 (of_nat n :: u16)) = n div 256"
    unfolding unat_drop_bit_eq u by (simp add: drop_bit_eq_div)
  moreover have "unat (of_nat n AND 0xff :: u16) = n mod 256"
  proof -
    have "(of_nat n AND 0xff :: u16) = take_bit 8 (of_nat n)"
      unfolding take_bit_eq_mask mask_eq_exp_minus_1 by simp
    then have "unat (of_nat n AND 0xff :: u16) = take_bit 8 n" by (simp only: unsigned_take_bit_eq u)
    then show ?thesis by (simp add: take_bit_eq_mod)
  qed
  ultimately have "set16 (of_nat n) = [of_nat (n div 256), of_nat (n mod 256)]"
    by (simp only: set16_def e)
  moreover have "(of_int (int n div 256) :: u8) = of_nat (n div 256)" "(of_int (int n mod 256) :: u8) = of_nat (n mod 256)"
    using of_int_of_nat_eq [of "n div 256"] of_int_of_nat_eq [of "n mod 256"] by (simp_all only: zdiv_int zmod_int of_nat_numeral)
  ultimately show ?thesis by (simp only:)
qed

lemma mem_write_mid: "i = length x \<Longrightarrow> length y' = length y \<Longrightarrow> mem_write (x @ y @ z) i y' = Some (x @ y' @ z)"
  by (simp add: mem_write_def)

text \<open>The fields of the compressed header.\<close>

lemma compress_hdr_fields:
  assumes c: "compress_hdr_iphc cs lladdr dest u = (hdr, ulen)"
  obtains tc T ttl L s1 s2 S d1 d2 D cid where
    "compress_tcflow u = (tc, T)" "compress_ttl (u ! 7) = (ttl, L)"
    "compress_src cs lladdr u = (s1, s2, S)" "compress_dest cs dest u = (d1, d2, D)"
    "cid = (if addr_context_lookup_by_prefix cs (ip_dest u) \<noteq> None \<or> addr_context_lookup_by_prefix cs (ip_src u) \<noteq> None
       then 0x80 else 0)"
    "hdr = [SICSLOWPAN_DISPATCH_IPHC OR tc OR (if u ! 6 = UIP_PROTO_UDP then SICSLOWPAN_IPHC_NH_C else 0) OR ttl, cid OR s1 OR d1] @
       (if cid \<noteq> 0 then [s2 OR d2] else []) @ T @ (if u ! 6 = UIP_PROTO_UDP then [] else [u ! 6]) @ L @ S @ D @
       (if u ! 6 = UIP_PROTO_UDP then compress_udp u else [])"
    "ulen = of_nat (if u ! 6 = UIP_PROTO_UDP then 48 else 40)"
proof -
  obtain tc T where t: "compress_tcflow u = (tc, T)" by fastforce
  obtain ttl L where l: "compress_ttl (u ! 7) = (ttl, L)" by fastforce
  obtain s1 s2 S where s: "compress_src cs lladdr u = (s1, s2, S)" using prod_cases3 by blast
  obtain d1 d2 D where d: "compress_dest cs dest u = (d1, d2, D)" using prod_cases3 by blast
  define cid :: u8 where "cid = (if addr_context_lookup_by_prefix cs (ip_dest u) \<noteq> None \<or> addr_context_lookup_by_prefix cs (ip_src u) \<noteq> None
       then 0x80 else 0)"
  have "compress_hdr_iphc cs lladdr dest u =
    ([SICSLOWPAN_DISPATCH_IPHC OR tc OR (if u ! 6 = UIP_PROTO_UDP then SICSLOWPAN_IPHC_NH_C else 0) OR ttl, cid OR s1 OR d1] @
       (if cid \<noteq> 0 then [s2 OR d2] else []) @ T @ (if u ! 6 = UIP_PROTO_UDP then [] else [u ! 6]) @ L @ S @ D @
       (if u ! 6 = UIP_PROTO_UDP then compress_udp u else []), of_nat (if u ! 6 = UIP_PROTO_UDP then 48 else 40))"
    unfolding compress_hdr_iphc_def SICSLOWPAN_IPHC_CID_def cid_def [symmetric] t l s d Let_def prod.case
    by (simp only: UIP_IPH_LEN_def UIP_UDPH_LEN_def) simp
  then show ?thesis using c that [OF t l s d cid_def] by simp
qed

lemma compress_hdr_length:
  assumes "40 \<le> length u" "contexts_ok cs" "compress_hdr_iphc cs lladdr dest u = (hdr, ulen)"
  shows "length hdr \<le> 47"
proof -
  from assms(3) show ?thesis
  proof (cases rule: compress_hdr_fields)
    case (1 tc T ttl L s1 s2 S d1 d2 D cid)
    have "length T \<le> 4" using 1(1) by (auto simp: compress_tcflow_def Let_def split: if_splits)
    moreover have "length L \<le> 1" using 1(2) by (auto simp: compress_ttl_def split: if_splits)
    moreover have "length S \<le> 16" by (rule compress_src_bits(4) [OF 1(3) assms(2, 1)])
    moreover have "length D \<le> 16" by (rule compress_dest_bits(4) [OF 1(4) assms(2, 1)])
    moreover have "length (compress_udp u) \<le> 7" by (rule compress_udp_form [of u]) simp
    ultimately show ?thesis unfolding 1(6) by simp
  qed
qed

text \<open>The parts of the uncompressed header, and the bytes of the buffer they replace.\<close>

lemma take1_drop: "i < length u \<Longrightarrow> take 1 (drop i u) = [u ! i]"
  by (simp add: Cons_nth_drop_Suc [symmetric])

lemma header_parts:
  assumes "40 \<le> length u"
  shows "take 40 u = take 4 u @ take 2 (drop 4 u) @ [u ! 6] @ [u ! 7] @ ip_src u @ ip_dest u"
proof -
  have "take (4 + (2 + (1 + (1 + (16 + 16))))) u = take 4 u @ take 2 (drop 4 u) @ [u ! 6] @ [u ! 7] @ ip_src u @ ip_dest u"
    unfolding take_add drop_drop ip_src_def ip_dest_def
    using assms take1_drop [of 6 u] take1_drop [of 7 u] by simp
  then show ?thesis by simp
qed

lemma split_buf:
  assumes "48 \<le> length (buf :: u8 list)"
  obtains A B x y E F G H I R where "buf = A @ B @ [x] @ [y] @ E @ F @ G @ H @ I @ R"
    "length A = 4" "length B = 2" "length E = 16" "length F = 16" "length G = 4" "length H = 2" "length I = 2"
proof
  have "buf = take (4 + (2 + (1 + (1 + (16 + (16 + (4 + (2 + 2)))))))) buf @ drop 48 buf" by simp
  then show "buf = take 4 buf @ take 2 (drop 4 buf) @ [buf ! 6] @ [buf ! 7] @ take 16 (drop 8 buf) @ take 16 (drop 24 buf) @
      take 4 (drop 40 buf) @ take 2 (drop 44 buf) @ take 2 (drop 46 buf) @ drop 48 buf"
    unfolding take_add drop_drop using assms take1_drop [of 6 buf] take1_drop [of 7 buf] by simp
qed (use assms in simp_all)

text \<open>The length fields: from the length of the fragmented packet, or from the bytes received.\<close>

lemma lengths_roundtrip:
  assumes u: "ip_packet_ok u" and len: "length B = 2" "length H = 2" "length A = 4" "length E = 16" "length F = 16" "length G = 4"
    and n: "pos \<le> 255" "uncomp = of_nat k" "k \<le> length u" "k = 40 \<or> k = 48"
    and dl: "(ip_len = 0 \<and> datalen = int pos + int (length u) - int k) \<or> (ip_len = of_nat (length u))"
  shows "uncompress_lengths datalen ip_len (A @ B @ [x] @ [y] @ E @ F @ G @ H @ I) (of_nat pos) uncomp =
    Some (A @ take 2 (drop 4 u) @ [x] @ [y] @ E @ F @ G @ (if x = UIP_PROTO_UDP then take 2 (drop 4 u) else H) @ I)"
proof -
  have lu: "length u < 65536" "40 \<le> length u" and pl: "take 2 (drop 4 u) = set16 (of_nat (length u - 40))"
    using u by (auto simp: ip_packet_ok_def)
  let ?len = "if ip_len = 0 then datalen - uint (of_nat pos :: u8) + uint uncomp - int UIP_IPH_LEN else uint ip_len - int UIP_IPH_LEN"
  have p: "uint (of_nat pos :: u8) = int pos" using n(1) by (simp add: unsigned_of_nat take_bit_nat_eq_self_iff)
  have uc: "uint uncomp = int k" using n(2, 4) by auto
  have il: "ip_len = of_nat (length u) \<Longrightarrow> uint ip_len = int (length u)"
    using lu(1) by (simp add: unsigned_of_nat take_bit_nat_eq_self_iff)
  have "?len = int (length u - 40)"
    using dl
  proof
    assume "ip_len = 0 \<and> datalen = int pos + int (length u) - int k"
    then show ?thesis using lu(2) by (simp add: p uc UIP_IPH_LEN_def of_nat_diff)
  next
    assume i: "ip_len = of_nat (length u)"
    have "ip_len \<noteq> 0" using il [OF i] lu(2) by auto
    then show ?thesis using il [OF i] lu(2) by (simp add: UIP_IPH_LEN_def of_nat_diff)
  qed
  then have l: "[of_int (?len div 256), of_int (?len mod 256)] = take 2 (drop 4 u)"
    using set16_div [of "length u - 40"] lu(1) by (simp only: pl)
  let ?b = "A @ take 2 (drop 4 u) @ [x] @ [y] @ E @ F @ G @ H @ I"
  have w: "mem_write (A @ B @ [x] @ [y] @ E @ F @ G @ H @ I) 4 (take 2 (drop 4 u)) = Some ?b"
    using len lu(2) by (intro mem_write_mid) simp_all
  have r: "rd ?b 6 = Some x" using len lu(2) by (simp add: rd_def nth_append)
  have m: "mem_read ?b 4 2 = Some (take 2 (drop 4 u))" using len lu(2) by (simp add: mem_read_def)
  have w2: "mem_write ?b 44 (take 2 (drop 4 u)) = Some (A @ take 2 (drop 4 u) @ [x] @ [y] @ E @ F @ G @ take 2 (drop 4 u) @ I)"
    using mem_write_mid [of 44 "A @ take 2 (drop 4 u) @ [x] @ [y] @ E @ F @ G" "take 2 (drop 4 u)" H I] len lu(2) by simp
  show ?thesis
    unfolding uncompress_lengths_def Let_def l w bind.bind_lunit r m w2
    by (simp only: split: if_split) simp
qed

lemma buf_writes:
  assumes "length A = 4" "length B = 2" "length E = 16" "length F = 16" "length G = 4" "length H = 2" "length I = 2"
  shows "length A' = 4 \<Longrightarrow> mem_write (A @ B @ [x] @ [y] @ E @ F @ G @ H @ I @ R) 0 A' = Some (A' @ B @ [x] @ [y] @ E @ F @ G @ H @ I @ R)"
    "mem_write (A @ B @ [x] @ [y] @ E @ F @ G @ H @ I @ R) 6 [x'] = Some (A @ B @ [x'] @ [y] @ E @ F @ G @ H @ I @ R)"
    "mem_write (A @ B @ [x] @ [y] @ E @ F @ G @ H @ I @ R) 7 [y'] = Some (A @ B @ [x] @ [y'] @ E @ F @ G @ H @ I @ R)"
    "length E' = 16 \<Longrightarrow> mem_write (A @ B @ [x] @ [y] @ E @ F @ G @ H @ I @ R) 8 E' = Some (A @ B @ [x] @ [y] @ E' @ F @ G @ H @ I @ R)"
    "length F' = 16 \<Longrightarrow> mem_write (A @ B @ [x] @ [y] @ E @ F @ G @ H @ I @ R) 24 F' = Some (A @ B @ [x] @ [y] @ E @ F' @ G @ H @ I @ R)"
    "length G' = 4 \<Longrightarrow> mem_write (A @ B @ [x] @ [y] @ E @ F @ G @ H @ I @ R) 40 G' = Some (A @ B @ [x] @ [y] @ E @ F @ G' @ H @ I @ R)"
    "length I' = 2 \<Longrightarrow> mem_write (A @ B @ [x] @ [y] @ E @ F @ G @ H @ I @ R) 46 I' = Some (A @ B @ [x] @ [y] @ E @ F @ G @ H @ I' @ R)"
  using assms by (simp_all add: mem_write_def)

lemma header_roundtrip:
  assumes u: "ip_packet_ok u" and l: "length lladdr = 8" "length dest = 8" and cs: "contexts_ok cs"
    and c: "compress_hdr_iphc cs lladdr dest u = (hdr, ulen)"
    and src: "addr_context_lookup_by_prefix cs (ip_src u) = None \<Longrightarrow> dest_mid_zero u \<Longrightarrow> ll_mid_zero (ip_src u)"
    and r: "reads p (unat hl) hdr" and h: "unat hl \<le> 200" and b: "48 \<le> length buf"
    and dl: "(ip_len = 0 \<and> datalen = int (unat hl + length hdr) + int (length u) - int (unat ulen)) \<or> ip_len = of_nat (length u)"
  shows "uncompress_hdr_iphc cs lladdr dest p datalen buf ip_len hl 0 =
    Some (take (unat ulen) u @ drop (unat ulen) buf, of_nat (unat hl + length hdr), ulen)"
  using c
proof (cases rule: compress_hdr_fields)
  case (1 tc T ttl L s1 s2 S d1 d2 D cid)
  let ?udp = "u ! 6 = UIP_PROTO_UDP" and ?h = "unat hl"
  define iphc0 iphc1 where "iphc0 = SICSLOWPAN_DISPATCH_IPHC OR tc OR (if ?udp then SICSLOWPAN_IPHC_NH_C else 0) OR ttl"
    and "iphc1 = cid OR s1 OR d1"
  have len40: "40 \<le> length u" and v6: "u ! 0 AND 0xF0 = 0x60" using u by (auto simp: ip_packet_ok_def)
  have ltc: "tc = 0 \<or> tc = 0x08 \<or> tc = 0x10 \<or> tc = 0x18" using compress_tcflow_bits [of u] 1(1) by simp
  have lttl: "ttl = 0 \<or> ttl = 1 \<or> ttl = 2 \<or> ttl = 3" using compress_ttl_bits [of "u ! 7"] 1(2) by simp
  note i0 = iphc0_bits [OF ltc lttl iphc0_def]
  note sb = compress_src_bits [OF 1(3) cs len40] and db = compress_dest_bits [OF 1(4) cs len40]
  have cid: "cid = 0 \<or> cid = 0x80" "s1 AND 0x80 \<noteq> 0 \<Longrightarrow> cid \<noteq> 0" "d1 AND 0x04 \<noteq> 0 \<Longrightarrow> cid \<noteq> 0"
    using sb(2) db(2) unfolding 1(5) by auto
  note i1 = iphc1_bits [OF sb(1) db(1) cid(1) iphc1_def cid(2)]
  obtain k2 where k2: "k2 < 16" "s2 = push_bit 4 k2" using sb(3) by blast
  define C where "C = (if cid \<noteq> 0 then [s2 OR d2] else [])"
  define N where "N = (if ?udp then [] else [u ! 6])"
  define U where "U = (if ?udp then compress_udp u else [])"
  define q0 q1 q2 q3 q4 q5 where "q0 = ?h + 2 + length C" and "q1 = q0 + length T" and "q2 = q1 + length N" and "q3 = q2 + length L"
    and "q4 = q3 + length S" and "q5 = q4 + length D"
  note q = q0_def q1_def q2_def q3_def q4_def q5_def
  have hdr: "hdr = iphc0 # iphc1 # C @ T @ N @ L @ S @ D @ U"
    unfolding 1(6) iphc0_def iphc1_def C_def N_def U_def by simp
  have rs: "rd p ?h = Some iphc0" "rd p (?h + 1) = Some iphc1" "reads p (?h + 2) C" "reads p q0 T" "reads p q1 N"
    "reads p q2 L" "reads p q3 S" "reads p q4 D" "reads p q5 U"
    using r unfolding hdr reads_Cons reads_append q by (simp_all add: add.assoc)
  have byte: "rd p (?h + 2) = Some (s2 OR d2)" if "iphc1 AND SICSLOWPAN_IPHC_CID \<noteq> 0"
    using that rs(3) i1(6) by (simp add: C_def reads_Cons)
  have q0': "?h + 2 + (if iphc1 AND SICSLOWPAN_IPHC_CID \<noteq> 0 then 1 else 0) = q0"
    using i1(6) by (simp add: q0_def C_def)
  have tf: "uncompress_tcflow iphc0 p q0 = Some (take 4 u, q1)"
    unfolding q1_def by (rule tcflow_roundtrip [OF v6 _ 1(1) rs(4) i0(1, 2)]) (use len40 in simp)
  have nh: "(if iphc0 AND SICSLOWPAN_IPHC_NH_C = 0 then do { b \<leftarrow> rd p q1; x \<leftarrow> mem_write m 6 [b]; Some (x, q1 + 1) } else Some (m, q1))
      = (if ?udp then Some (m, q2) else do { x \<leftarrow> mem_write m 6 [u ! 6]; Some (x, q2) })" for m
    using rs(5) i0(3) by (cases ?udp) (simp_all add: N_def q2_def reads_Cons)
  have ttl: "(if iphc0 AND 0x03 \<noteq> 0 then Some (ttl_values ! unat (iphc0 AND 0x03), q2) else do { b \<leftarrow> rd p q2; Some (b, q2 + 1) })
      = Some (u ! 7, q3)"
    unfolding q3_def by (rule ttl_roundtrip [OF 1(2) rs(6) i0(4)])
  have sr: "uncompress_src cs lladdr iphc1 p ?h q3 = Some (Address (ip_src u) q4)"
    unfolding q4_def
    by (rule src_roundtrip [OF len40 l(1) cs 1(3) rs(7) src i1(1, 2) byte db(3)])
      (use cid(2) i1(6) in \<open>simp_all add: SICSLOWPAN_IPHC_CID_def\<close>)
  have de: "uncompress_dest cs dest iphc1 p ?h q4 = Some (Address (ip_dest u) q5)"
    unfolding q5_def
    by (rule dest_roundtrip [OF len40 l(2) cs 1(4) rs(8) i1(3, 4, 5) byte [unfolded k2(2)] k2(1)])
      (use cid(3) i1(6) in \<open>simp_all add: SICSLOWPAN_IPHC_DAC_def\<close>)
  obtain A B x y E F G H I R where buf: "buf = A @ B @ [x] @ [y] @ E @ F @ G @ H @ I @ R"
    and lens: "length A = 4" "length B = 2" "length E = 16" "length F = 16" "length G = 4" "length H = 2" "length I = 2"
    using b by (rule split_buf)
  have l4: "length (take 4 u) = 4" "length (ip_src u) = 16" "length (ip_dest u) = 16"
    using len40 by (simp_all add: ip_src_def ip_dest_def)
  let ?T = "take 4 u" and ?S = "ip_src u" and ?D = "ip_dest u" and ?L = "take 2 (drop 4 u)"
  have hl: "?h + length hdr = q5 + length U" by (simp add: hdr q)
  have pos: "q5 + length U \<le> 255" using compress_hdr_length [OF len40 cs c] h unfolding hl [symmetric] by simp
  note d = uncompress_hdr_iphc_def Let_def bind.bind_lunit rs(1, 2) q0' tf nh ttl sr prod.case addr_result.case
  show ?thesis
  proof (cases ?udp)
    case False
    then have ulen: "ulen = 40" "U = []" using 1(7) by (simp_all add: U_def)
    have "uncompress_udp iphc0 p q5 m (0 + of_nat UIP_IPH_LEN) = Some (m, q5, 40)" for m
      using i0(3) False by (simp add: uncompress_udp_def UIP_IPH_LEN_def)
    moreover have "uncompress_lengths datalen ip_len (?T @ B @ [u ! 6] @ [u ! 7] @ ?S @ ?D @ G @ H @ I @ R) (of_nat q5) 40 =
        Some (?T @ ?L @ [u ! 6] @ [u ! 7] @ ?S @ ?D @ G @ H @ I @ R)"
      using lengths_roundtrip [OF u lens(2, 6) l4 lens(5), of q5 40 40 ip_len datalen "u ! 6" "u ! 7" "I @ R"]
        pos dl len40 False unfolding hl ulen by simp
    ultimately have "uncompress_hdr_iphc cs lladdr dest p datalen buf ip_len hl 0 =
        Some (?T @ ?L @ [u ! 6] @ [u ! 7] @ ?S @ ?D @ G @ H @ I @ R, of_nat q5, 40)"
      unfolding d buf using False by (simp only: d buf_writes lens l4 de bind.bind_lunit if_False simp_thms)
    moreover have "drop 40 buf = G @ H @ I @ R" unfolding buf using lens by simp
    ultimately show ?thesis unfolding hl ulen header_parts [OF len40, symmetric] using ulen(2)
      by (simp add: header_parts [OF len40])
  next
    case True
    then have ulen: "ulen = 48" and len48: "48 \<le> length u" and udplen: "take 2 (drop 44 u) = ?L"
      using 1(7) u by (simp_all add: ip_packet_ok_def)
    obtain nhc bs where U': "compress_udp u = nhc # bs @ [u ! 46, u ! 47]" by (rule compress_udp_form)
    then have U: "U = (nhc # bs) @ [u ! 46, u ! 47]" using True by (simp add: U_def)
    have r1: "reads p q5 (nhc # bs)" and r2: "reads p (q5 + length (nhc # bs)) [u ! 46, u ! 47]"
      using rs(9) unfolding U reads_append by blast+
    note pr = ports_roundtrip [OF len48 U' r1]
    have ck: "mem_read p (q5 + 1 + length bs) 2 = Some [u ! 46, u ! 47]" using r2 by (simp add: reads_mem_read)
    have nhc: "rd p q5 = Some nhc" using r1 by (simp add: reads_Cons)
    have l2: "length (take 4 (drop 40 u)) = 4" "length [u ! 46, u ! 47] = 2" using len48 by simp_all
    have udp: "uncompress_udp iphc0 p q5 (?T @ B @ [x] @ [u ! 7] @ ?S @ ?D @ G @ H @ I @ R) (0 + of_nat UIP_IPH_LEN) =
        Some (?T @ B @ [UIP_PROTO_UDP] @ [u ! 7] @ ?S @ ?D @ take 4 (drop 40 u) @ H @ [u ! 46, u ! 47] @ R, q5 + length U, 48)"
    proof -
      have nh1: "(iphc0 AND SICSLOWPAN_IPHC_NH_C = 0) = False" using i0(3) True by simp
      have "q5 + length U = q5 + 1 + length bs + 2" "0 + of_nat UIP_IPH_LEN + of_nat UIP_UDPH_LEN = (48 :: u8)"
        by (simp_all add: U UIP_IPH_LEN_def UIP_UDPH_LEN_def)
      then show ?thesis
        unfolding uncompress_udp_def nh1
        by (simp only: nhc pr ck buf_writes lens l4 l2 bind.bind_lunit if_False if_True simp_thms prod.case)
    qed
    have lr: "uncompress_lengths datalen ip_len
        (?T @ B @ [UIP_PROTO_UDP] @ [u ! 7] @ ?S @ ?D @ take 4 (drop 40 u) @ H @ [u ! 46, u ! 47] @ R) (of_nat (q5 + length U)) 48 =
        Some (?T @ ?L @ [UIP_PROTO_UDP] @ [u ! 7] @ ?S @ ?D @ take 4 (drop 40 u) @ ?L @ [u ! 46, u ! 47] @ R)"
      using lengths_roundtrip [OF u lens(2, 6) l4 l2(1), of "q5 + length U" 48 48 ip_len datalen UIP_PROTO_UDP "u ! 7" "[u ! 46, u ! 47] @ R"]
        pos dl len48 unfolding hl ulen by simp
    have "uncompress_hdr_iphc cs lladdr dest p datalen buf ip_len hl 0 =
        Some (?T @ ?L @ [UIP_PROTO_UDP] @ [u ! 7] @ ?S @ ?D @ take 4 (drop 40 u) @ ?L @ [u ! 46, u ! 47] @ R, of_nat (q5 + length U), 48)"
      unfolding d buf using True
      by (simp only: d buf_writes lens l4 de udp lr bind.bind_lunit if_True simp_thms prod.case)
    moreover have "drop 48 buf = R" unfolding buf using lens by simp
    moreover have "take 48 u = take 40 u @ take 4 (drop 40 u) @ take 2 (drop 44 u) @ [u ! 46, u ! 47]"
    proof -
      have "take (40 + (4 + (2 + (1 + 1)))) u = take 40 u @ take 4 (drop 40 u) @ take 2 (drop 44 u) @ [u ! 46, u ! 47]"
        unfolding take_add drop_drop using take1_drop [of 46 u] take1_drop [of 47 u] len48 by simp
      then show ?thesis by simp
    qed
    ultimately show ?thesis unfolding hl ulen using True udplen
      by (simp add: header_parts [OF len40])
  qed
qed

text \<open>C6. Decompressing what the IPHC compressor produced gives back the IPv6 header: for a well-formed IPv6 packet in
  the IP buffer, a receiver with the sender's contexts that finds the compressed header in the received bytes
  restores the first 40 bytes, or 48 for a UDP packet, with the payload length computed from the number of
  bytes received, or from the length of the fragmented packet, leaves the rest of its buffer and accounts for the lengths of both
  headers. The receiver derives elided addresses from the link-layer addresses the compressor saw. The one
  exception, which the theorem excludes, is a source address whose bytes 2 to 7 the compressor does not check.\<close>

theorem iphc_roundtrip:
  assumes "ip_packet_ok u" "contexts_ok cs" "length lladdr = 8" "length dest = 8"
    and "compress_hdr_iphc cs lladdr dest u = (hdr, ulen)"
    and "addr_context_lookup_by_prefix cs (ip_src u) \<noteq> None \<or> \<not> dest_mid_zero u \<or> ll_mid_zero (ip_src u)"
    and "reads p (unat hl) hdr" "unat hl \<le> 200" "48 \<le> length buf"
    and "(ip_len = 0 \<and> datalen = int (unat hl + length hdr) + int (length u) - int (unat ulen)) \<or> ip_len = of_nat (length u)"
  shows "uncompress_hdr_iphc cs lladdr dest p datalen buf ip_len hl 0 =
      Some (take (unat ulen) u @ drop (unat ulen) buf, of_nat (unat hl + length hdr), ulen) \<and>
    length hdr \<le> 47 \<and> unat ulen \<le> length u"
proof -
  have "unat ulen \<le> length u"
    using assms(5) by (rule compress_hdr_fields) (use assms(1) in \<open>simp add: ip_packet_ok_def\<close>)
  moreover have "length hdr \<le> 47" using compress_hdr_length [OF _ assms(2, 5)] assms(1) by (simp add: ip_packet_ok_def)
  moreover have "addr_context_lookup_by_prefix cs (ip_src u) = None \<Longrightarrow> dest_mid_zero u \<Longrightarrow> ll_mid_zero (ip_src u)"
    using assms(6) by blast
  note header_roundtrip [OF assms(1, 3, 4, 2, 5) this assms(7, 8, 9, 10)]
  ultimately show ?thesis by blast
qed

text \<open>A UDP packet of the evaluation: port 3001 to port 3000, two bytes of payload.\<close>

definition demo_packet :: "u8 list" where
  "demo_packet = [0x60, 0, 0, 0, 0, 10, 17, 64,
     0xfd, 0, 0, 0, 0, 0, 0, 0, 2, 2, 3, 4, 5, 6, 7, 8,  0xfd, 0, 0, 0, 0, 0, 0, 0, 0, 0, 0, 0xff, 0xfe, 0, 0, 1,
     0x0b, 0xb9, 0x0b, 0xb8, 0, 10, 0xab, 0xcd, 0x68, 0x69]"

definition demo_lladdr :: linkaddr where "demo_lladdr = [0, 2, 3, 4, 5, 6, 7, 8]"
definition demo_dest :: linkaddr where "demo_dest = [2, 0, 0, 0xff, 0xfe, 0, 0, 2]"

lemma demo_compressed: "compress_hdr_iphc init_addr_contexts demo_lladdr demo_dest demo_packet =
    ([0x7e, 0xf6, 0, 0, 1, 0xf0, 0x0b, 0xb9, 0x0b, 0xb8, 0xab, 0xcd], 48)"
  by code_simp

lemma demo_packet_length: "length demo_packet = 50"
  by (simp add: demo_packet_def)

lemma demo_packet_ok: "ip_packet_ok demo_packet"
  unfolding ip_packet_ok_def demo_packet_length by (simp add: demo_packet_def set16_def)

lemma iphc_roundtrip_witness:
  "uncompress_hdr_iphc init_addr_contexts demo_lladdr demo_dest
     ([0x7e, 0xf6, 0, 0, 1, 0xf0, 0x0b, 0xb9, 0x0b, 0xb8, 0xab, 0xcd, 0x68, 0x69]) 14 (replicate 50 0) 0 0 0 =
   Some (take 48 demo_packet @ [0, 0], 12, 48)"
proof -
  have l: "length demo_lladdr = 8" "length demo_dest = 8" by (simp_all add: demo_lladdr_def demo_dest_def)
  have r: "reads [0x7e, 0xf6, 0, 0, 1, 0xf0, 0x0b, 0xb9, 0x0b, 0xb8, 0xab, 0xcd, 0x68, 0x69] (unat (0 :: u8))
      [0x7e, 0xf6, 0, 0, 1, 0xf0, 0x0b, 0xb9, 0x0b, 0xb8, 0xab, 0xcd]" by (simp add: reads_def)
  have c: "addr_context_lookup_by_prefix init_addr_contexts (ip_src demo_packet) \<noteq> None \<or> \<not> dest_mid_zero demo_packet \<or>
      ll_mid_zero (ip_src demo_packet)" by code_simp
  have b: "48 \<le> length (replicate 50 (0 :: u8))" "unat (0 :: u8) \<le> 200" by simp_all
  have d: "((0 :: u16) = 0 \<and> 14 = int (unat (0 :: u8) + length [0x7e, 0xf6, 0, 0, 1, 0xf0, 0x0b, 0xb9, 0x0b, 0xb8, 0xab, (0xcd :: u8)]) +
      int (length demo_packet) - int (unat (48 :: u8))) \<or> (0 :: u16) = of_nat (length demo_packet)"
    by (simp add: demo_packet_length)
  have e: "replicate 2 (0 :: u8) = [0, 0]" by (simp add: numeral_2_eq_2)
  from iphc_roundtrip [OF demo_packet_ok contexts_ok_init l demo_compressed c r b(2) b(1) d] show ?thesis
    by (simp add: e)
qed

text \<open>The source address that is not restored: the compressor tests the bytes 2 to 7 of the destination address
  where it should test those of the source address.\<close>

lemma source_bytes_lost:
  "\<exists>hdr. compress_hdr_iphc init_addr_contexts demo_lladdr demo_dest
      ([0x60, 0, 0, 0, 0, 0, 59, 64] @ ([0xfe, 0x80, 0, 0, 0, 0, 0, 1] @ [2, 2, 3, 4, 5, 6, 7, 8]) @ ([0xff, 2] @ replicate 13 0 @ [1])) = (hdr, 40) \<and>
    (\<exists>buf hl. uncompress_hdr_iphc init_addr_contexts demo_lladdr demo_dest hdr (int (length hdr)) (replicate 48 0) 0 0 0 = Some (buf, hl, 40) \<and>
      ip_src buf = [0xfe, 0x80, 0, 0, 0, 0, 0, 0] @ [2, 2, 3, 4, 5, 6, 7, 8])"
proof -
  have c: "compress_hdr_iphc init_addr_contexts demo_lladdr demo_dest
      ([0x60, 0, 0, 0, 0, 0, 59, 64] @ ([0xfe, 0x80, 0, 0, 0, 0, 0, 1] @ [2, 2, 3, 4, 5, 6, 7, 8]) @ ([0xff, 2] @ replicate 13 0 @ [1])) =
      ([0x7a, 0x3b, 59, 1], 40)"
    by code_simp
  have u: "case uncompress_hdr_iphc init_addr_contexts demo_lladdr demo_dest [0x7a, 0x3b, 59, 1] 4 (replicate 48 0) 0 0 0 of
      Some (buf, hl, n) \<Rightarrow> ip_src buf = [0xfe, 0x80, 0, 0, 0, 0, 0, 0] @ [2, 2, 3, 4, 5, 6, 7, 8] \<and> n = 40 | None \<Rightarrow> False"
    by code_simp
  show ?thesis
    by (rule exI, rule conjI [OF c]) (use u in \<open>auto split: option.splits\<close>)
qed

end
