(* ===== verification/Frame802154.thy ===== *)
theory Frame802154
  imports Csma Iphc
begin

text \<open>
  IEEE 802.15.4 frame headers: \<open>core/net/mac/frame802154.c\<close> and the framer of \<open>core/net/mac/framer-802154.c\<close>,
  without link-layer security (it is not configured). A header is built in front of the data in the packet
  buffer and parsed from the start of the data of a received frame.
\<close>

unbundle bit_operations_syntax

subsection \<open>Frames\<close>

definition FRAME802154_DATAFRAME :: u16 where "FRAME802154_DATAFRAME = 1"
definition FRAME802154_ACKFRAME :: u8 where "FRAME802154_ACKFRAME = 2"
definition FRAME802154_SHORTADDRMODE :: u8 where "FRAME802154_SHORTADDRMODE = 2"
definition FRAME802154_LONGADDRMODE :: u8 where "FRAME802154_LONGADDRMODE = 3"
definition FRAME802154_BROADCASTPANDID :: u16 where "FRAME802154_BROADCASTPANDID = 0xFFFF"
definition FRAME802154_IEEE802154_2006 :: u8 where "FRAME802154_IEEE802154_2006 = 1"
definition FRAME802154_IEEE802154E_2012 :: u8 where "FRAME802154_IEEE802154E_2012 = 2"
definition IEEE802154_PANID :: u16 where "IEEE802154_PANID = 0xABCD"
definition FRAMER_FAILED :: int where "FRAMER_FAILED = - 1"

lemmas frame_consts = FRAME802154_ACKFRAME_def FRAME802154_SHORTADDRMODE_def FRAME802154_LONGADDRMODE_def
  FRAME802154_BROADCASTPANDID_def FRAME802154_IEEE802154_2006_def FRAME802154_IEEE802154E_2012_def FRAMER_FAILED_def

record frame802154_fcf =
  frame_type :: u8
  security_enabled :: u8
  frame_pending :: u8
  ack_required :: u8
  panid_compression :: u8
  sequence_number_suppression :: u8
  ie_list_present :: u8
  dest_addr_mode :: u8
  frame_version :: u8
  src_addr_mode :: u8

record frame802154 =
  dest_addr :: "u8 list"
  src_addr :: "u8 list"
  fcf :: frame802154_fcf
  fr_seq :: u8
  dest_pid :: u16
  src_pid :: u16
  fr_payload_len :: int

text \<open>All zero, as \<open>memset\<close> leaves it.\<close>

definition frame802154_zero :: frame802154 where
  "frame802154_zero = \<lparr>dest_addr = replicate 8 0, src_addr = replicate 8 0,
     fcf = \<lparr>frame_type = 0, security_enabled = 0, frame_pending = 0, ack_required = 0, panid_compression = 0,
       sequence_number_suppression = 0, ie_list_present = 0, dest_addr_mode = 0, frame_version = 0, src_addr_mode = 0\<rparr>,
     fr_seq = 0, dest_pid = 0, src_pid = 0, fr_payload_len = 0\<rparr>"

record field_length =
  seqno_len :: nat
  dest_pid_len :: nat
  dest_addr_len :: nat
  src_pid_len :: nat
  src_addr_len :: nat

subsection \<open>Lengths of the fields\<close>

definition addr_len :: "u8 \<Rightarrow> nat" where
  "addr_len md = (if md = FRAME802154_SHORTADDRMODE then 2 else if md = FRAME802154_LONGADDRMODE then 8 else 0)"

text \<open>Whether the frame has a source and a destination PAN ID; the conditions are those of the code, which
  compares the destination mode with itself.\<close>

definition frame802154_has_panid :: "frame802154_fcf \<Rightarrow> bool \<times> bool" where
  "frame802154_has_panid c =
     (if frame_version c = FRAME802154_IEEE802154E_2012
      then let (s1, d1) = (if panid_compression c = 0
                           then if dest_addr_mode c = dest_addr_mode c then (False, True)
                                else if dest_addr_mode c \<noteq> 0 then (False, True)
                                else if src_addr_mode c \<noteq> 0 then (True, False) else (False, False)
                           else (False, False));
               d2 = (if dest_addr_mode c = 0 \<and> dest_addr_mode c = 1 then (if panid_compression c = 0 then True else d1) else d1);
               d3 = (if dest_addr_mode c = 0 \<and> dest_addr_mode c = 0 then panid_compression c \<noteq> 0 else d2)
           in (s1, d3)
      else if frame_type c \<noteq> FRAME802154_ACKFRAME
      then (panid_compression c = 0 \<and> src_addr_mode c AND 3 \<noteq> 0, dest_addr_mode c AND 3 \<noteq> 0)
      else (False, False))"

text \<open>\<open>field_len\<close> also sets the PAN ID compression of the frame.\<close>

definition field_len :: "frame802154 \<Rightarrow> frame802154 \<times> field_length" where
  "field_len p =
     (let p1 = (if frame_version (fcf p) < FRAME802154_IEEE802154E_2012
                then p\<lparr>fcf := (fcf p)\<lparr>panid_compression :=
                        (if dest_addr_mode (fcf p) AND 3 \<noteq> 0 \<and> src_addr_mode (fcf p) AND 3 \<noteq> 0 \<and> src_pid p = dest_pid p
                         then 1 else 0)\<rparr>\<rparr>
                else p);
          (has_src, has_dest) = frame802154_has_panid (fcf p1)
      in (p1, \<lparr>seqno_len = (if sequence_number_suppression (fcf p1) AND 1 = 0 then 1 else 0),
               dest_pid_len = (if has_dest then 2 else 0), dest_addr_len = addr_len (dest_addr_mode (fcf p1) AND 3),
               src_pid_len = (if has_src then 2 else 0), src_addr_len = addr_len (src_addr_mode (fcf p1) AND 3)\<rparr>))"

definition frame802154_hdrlen :: "frame802154 \<Rightarrow> nat" where
  "frame802154_hdrlen p =
     (let l = snd (field_len p) in 2 + seqno_len l + dest_pid_len l + dest_addr_len l + src_pid_len l + src_addr_len l)"

subsection \<open>Creating a header\<close>

text \<open>A PAN ID, low byte first; the first \<open>n\<close> bytes of an address, last byte first.\<close>

definition pid_bytes :: "u16 \<Rightarrow> u8 list" where
  "pid_bytes pid = [ucast (pid AND 0xff), ucast (drop_bit 8 pid AND 0xff)]"

definition addr_bytes :: "nat \<Rightarrow> u8 list \<Rightarrow> u8 list" where
  "addr_bytes n a = rev (take n a)"

definition fcf_bytes :: "frame802154_fcf \<Rightarrow> u8 list" where
  "fcf_bytes c =
     [(frame_type c AND 7) OR push_bit 3 (security_enabled c AND 1) OR push_bit 4 (frame_pending c AND 1) OR
        push_bit 5 (ack_required c AND 1) OR push_bit 6 (panid_compression c AND 1),
      (sequence_number_suppression c AND 1) OR push_bit 1 (ie_list_present c AND 1) OR push_bit 2 (dest_addr_mode c AND 3) OR
        push_bit 4 (frame_version c AND 3) OR push_bit 6 (src_addr_mode c AND 3)]"

definition frame_header :: "frame802154 \<Rightarrow> u8 list" where
  "frame_header p0 =
     (let (p, l) = field_len p0
      in fcf_bytes (fcf p) @ (if seqno_len l = 1 then [fr_seq p] else []) @
         (if dest_pid_len l = 2 then pid_bytes (dest_pid p) else []) @ addr_bytes (dest_addr_len l) (dest_addr p) @
         (if src_pid_len l = 2 then pid_bytes (src_pid p) else []) @ addr_bytes (src_addr_len l) (src_addr p))"

text \<open>The header is written at the start of the buffer.\<close>

definition frame802154_create :: "frame802154 \<Rightarrow> u8 list \<Rightarrow> (u8 list \<times> nat) option" where
  "frame802154_create p buf = do { m \<leftarrow> mem_write buf 0 (frame_header p); Some (m, length (frame_header p)) }"

subsection \<open>Parsing a header\<close>

definition parse_fcf :: "u8 \<Rightarrow> u8 \<Rightarrow> frame802154_fcf" where
  "parse_fcf p0 p1 = \<lparr>frame_type = p0 AND 7, security_enabled = drop_bit 3 p0 AND 1, frame_pending = drop_bit 4 p0 AND 1,
     ack_required = drop_bit 5 p0 AND 1, panid_compression = drop_bit 6 p0 AND 1,
     sequence_number_suppression = p1 AND 1, ie_list_present = drop_bit 1 p1 AND 1, dest_addr_mode = drop_bit 2 p1 AND 3,
     frame_version = drop_bit 4 p1 AND 3, src_addr_mode = drop_bit 6 p1 AND 3\<rparr>"

text \<open>A PAN ID and an address of the given mode at position \<open>i\<close>, with the next position; the old address stays
  when the mode is neither short nor long.\<close>

definition parse_pid :: "u8 list \<Rightarrow> nat \<Rightarrow> (u16 \<times> nat) option" where
  "parse_pid d i = do { lo \<leftarrow> rd d i; hi \<leftarrow> rd d (i + 1); Some (ucast lo + push_bit 8 (ucast hi), i + 2) }"

definition parse_addr :: "u8 \<Rightarrow> u8 list \<Rightarrow> u8 list \<Rightarrow> nat \<Rightarrow> (u8 list \<times> nat) option" where
  "parse_addr md old d i =
     (if md = FRAME802154_SHORTADDRMODE
      then do { p0 \<leftarrow> rd d i; p1 \<leftarrow> rd d (i + 1); Some (p1 # p0 # replicate 6 0, i + 2) }
      else if md = FRAME802154_LONGADDRMODE then do { bs \<leftarrow> mem_read d i 8; Some (rev bs, i + 8) }
      else Some (old, i))"

text \<open>\<open>frame802154_parse\<close> on the memory \<open>d\<close> from the start of the data, of which \<open>len\<close> bytes have been received: the
  frame and the length of the header, 0 on failure.\<close>

definition frame802154_parse :: "u8 list \<Rightarrow> int \<Rightarrow> frame802154 \<Rightarrow> (frame802154 \<times> nat) option" where
  "frame802154_parse d len pf =
     (if len < 2 then Some (pf, 0)
      else do {
        p0 \<leftarrow> rd d 0;
        p1 \<leftarrow> rd d 1;
        let c = parse_fcf p0 p1;
        (sq, i1) \<leftarrow> (if sequence_number_suppression c = 0 then do { b \<leftarrow> rd d 2; Some (b, 3) } else Some (fr_seq pf, 2));
        let (has_src, has_dest) = frame802154_has_panid c;
        (dpid, da, i2) \<leftarrow>
          (if dest_addr_mode c \<noteq> 0
           then do {
             (pid, i) \<leftarrow> (if has_dest then parse_pid d i1 else Some (0, i1));
             (a, j) \<leftarrow> parse_addr (dest_addr_mode c) (dest_addr pf) d i;
             Some (pid, a, j)
           }
           else Some (0, linkaddr_null, i1));
        (spid, dpid', sa, i3) \<leftarrow>
          (if src_addr_mode c \<noteq> 0
           then do {
             (pid, i) \<leftarrow> (if has_src then parse_pid d i2 else Some (dpid, i2));
             (a, j) \<leftarrow> parse_addr (src_addr_mode c) (src_addr pf) d i;
             Some (pid, (if has_src \<and> \<not> has_dest then pid else dpid), a, j)
           }
           else Some (0, dpid, linkaddr_null, i2));
        Some (\<lparr>dest_addr = da, src_addr = sa, fcf = c, fr_seq = sq, dest_pid = dpid', src_pid = spid, fr_payload_len = len - int i3\<rparr>,
              if int i3 > len then 0 else i3)
      })"

definition frame802154_is_broadcast_addr :: "u8 \<Rightarrow> u8 list \<Rightarrow> bool" where
  "frame802154_is_broadcast_addr md a \<longleftrightarrow>
     (let n = (if md = FRAME802154_SHORTADDRMODE then 2 else 8) in take n a = replicate n 0xff)"

text \<open>The other checks of the file, used by layers that are not modelled.\<close>

definition frame802154_check_dest_panid :: "u16 \<Rightarrow> frame802154 \<Rightarrow> bool" where
  "frame802154_check_dest_panid pan f \<longleftrightarrow>
     \<not> (snd (frame802154_has_panid (fcf f)) \<and> dest_pid f \<noteq> pan \<and> dest_pid f \<noteq> FRAME802154_BROADCASTPANDID)"

text \<open>\<open>frame802154_extract_linkaddr\<close> with both results wanted: what the addresses become, or \<open>None\<close> where it
  returns 0. An address that cannot be handled leaves its result; here the first of them ends the call.\<close>

definition extract_addr :: "u8 \<Rightarrow> u8 list \<Rightarrow> linkaddr option" where
  "extract_addr md a =
     (let n = (if md = 0 then 0 else if md = FRAME802154_SHORTADDRMODE then 2 else 8 :: nat)
      in if n = 0 \<or> frame802154_is_broadcast_addr md a then Some linkaddr_null
         else if n \<noteq> 8 then None else Some a)"

definition frame802154_extract_linkaddr :: "frame802154 \<Rightarrow> (linkaddr \<times> linkaddr) option" where
  "frame802154_extract_linkaddr f = do {
     s \<leftarrow> extract_addr (src_addr_mode (fcf f)) (src_addr f);
     d \<leftarrow> extract_addr (dest_addr_mode (fcf f)) (dest_addr f);
     Some (s, d)
   }"

subsection \<open>The framer\<close>

record framer_state =
  mac_dsn :: u8
  framer_initialized :: bool
  mac_pan_id :: u16

text \<open>The sequence number of the frame: the attribute, or the next of the framer's own numbers.\<close>

definition frame_seqno :: "framer_state \<Rightarrow> csma_state \<Rightarrow> u8 \<times> framer_state \<times> csma_state" where
  "frame_seqno f s =
     (if packetbuf_attr PACKETBUF_ATTR_MAC_SEQNO s \<noteq> 0 then (ucast (packetbuf_attr PACKETBUF_ATTR_MAC_SEQNO s), f, s)
      else let n = (if mac_dsn f = 0 then 1 else mac_dsn f)
           in (n, f\<lparr>mac_dsn := n + 1\<rparr>, packetbuf_set_attr PACKETBUF_ATTR_MAC_SEQNO (ucast n) s))"

text \<open>The frame for the contents of the packet buffer.\<close>

definition frame_params :: "u16 \<Rightarrow> u8 \<Rightarrow> 'a pb_state_scheme \<Rightarrow> frame802154" where
  "frame_params pan sq s =
     frame802154_zero\<lparr>
       dest_addr := (if packetbuf_holds_broadcast s then [0xFF, 0xFF] @ replicate 6 0 else packetbuf_addr PACKETBUF_ADDR_RECEIVER s),
       src_addr := packetbuf_addr PACKETBUF_ADDR_SENDER s,
       fcf := (fcf frame802154_zero)\<lparr>
         frame_type := ucast (packetbuf_attr PACKETBUF_ATTR_FRAME_TYPE s),
         frame_pending := ucast (packetbuf_attr PACKETBUF_ATTR_PENDING s),
         ack_required := (if packetbuf_holds_broadcast s then 0 else ucast (packetbuf_attr PACKETBUF_ATTR_MAC_ACK s)),
         panid_compression := 0, sequence_number_suppression := 0, frame_version := FRAME802154_IEEE802154_2006,
         src_addr_mode := FRAME802154_LONGADDRMODE,
         dest_addr_mode := (if packetbuf_holds_broadcast s then FRAME802154_SHORTADDRMODE else FRAME802154_LONGADDRMODE)\<rparr>,
       fr_seq := sq, dest_pid := pan, src_pid := pan, fr_payload_len := uint (packetbuf_datalen s)\<rparr>"

definition create_frame :: "bool \<Rightarrow> framer_state \<Rightarrow> csma_state \<Rightarrow> (framer_state \<times> csma_state \<times> int) option" where
  "create_frame do_create f s =
     (if mac_pan_id f = 0xffff then Some (f, s, - 1)
      else let (f1, s1) = (if framer_initialized f then (f, s)
                           else (case mac_rand s of (r, t) \<Rightarrow> (f\<lparr>framer_initialized := True, mac_dsn := ucast (r AND 0xff)\<rparr>, t)));
               (sq, f2, s2) = (if do_create then frame_seqno f1 s1 else (0, f1, s1));
               p = frame_params (mac_pan_id f2) sq s2;
               hdr_len = frame802154_hdrlen p
           in if \<not> do_create then Some (f2, s2, int hdr_len)
              else do {
                (s3, ok) \<leftarrow> packetbuf_hdralloc hdr_len s2;
                if ok then do { (m, n) \<leftarrow> frame802154_create p (packetbuf s3); Some (f2, s3\<lparr>packetbuf := m\<rparr>, int hdr_len) }
                else Some (f2, s3, FRAMER_FAILED)
              })"

definition hdr_length :: "framer_state \<Rightarrow> csma_state \<Rightarrow> (framer_state \<times> csma_state \<times> int) option" where
  "hdr_length = create_frame False"

definition framer_create :: "framer_state \<Rightarrow> csma_state \<Rightarrow> (framer_state \<times> csma_state \<times> int) option" where
  "framer_create = create_frame True"

text \<open>\<open>parse\<close>; what the uninitialised local \<open>frame\<close> holds is not used.\<close>

definition framer_parse :: "u16 \<Rightarrow> 'a pb_state_scheme \<Rightarrow> ('a pb_state_scheme \<times> int) option" where
  "framer_parse pan s = do {
     (fr, hdr_len) \<leftarrow> frame802154_parse (drop (packetbuf_dataptr s) (packetbuf s)) (uint (packetbuf_datalen s)) frame802154_zero;
     if hdr_len = 0 then Some (s, FRAMER_FAILED)
     else (case packetbuf_hdrreduce hdr_len s of
         (s1, False) \<Rightarrow> Some (s1, FRAMER_FAILED)
       | (s1, True) \<Rightarrow>
           let s2 = packetbuf_set_attr PACKETBUF_ATTR_FRAME_TYPE (ucast (frame_type (fcf fr))) s1
           in if dest_addr_mode (fcf fr) \<noteq> 0 \<and> dest_pid fr \<noteq> pan \<and> dest_pid fr \<noteq> FRAME802154_BROADCASTPANDID
              then Some (s2, FRAMER_FAILED)
              else let s3 = (if dest_addr_mode (fcf fr) \<noteq> 0 \<and>
                                \<not> frame802154_is_broadcast_addr (dest_addr_mode (fcf fr)) (dest_addr fr)
                             then packetbuf_set_addr PACKETBUF_ADDR_RECEIVER (dest_addr fr) s2 else s2);
                       s4 = packetbuf_set_addr PACKETBUF_ADDR_SENDER (src_addr fr) s3;
                       s5 = packetbuf_set_attr PACKETBUF_ATTR_PENDING (ucast (frame_pending (fcf fr))) s4;
                       s6 = packetbuf_set_attr PACKETBUF_ATTR_MAC_SEQNO
                              (if sequence_number_suppression (fcf fr) = 0 then ucast (fr_seq fr) else 0xffff) s5
                   in Some (s6, int hdr_len))
   }"

end
