(* ===== verification/FrameRound.thy ===== *)
theory FrameRound
  imports Frame802154 IphcRound CsmaProps
begin

text \<open>
  The framer: a header that was created is parsed with the same addresses, PAN identifiers and flags, and a frame
  goes from the packet buffer of one node to that of another.
\<close>

unbundle bit_operations_syntax

subsection \<open>A header is parsed as it was created\<close>

lemma half_eqI:
  assumes "bit a 0 = bit b 0" "bit a 1 = bit b 1" "bit a 2 = bit b 2" "bit a 3 = bit b 3"
    "bit a 4 = bit b 4" "bit a 5 = bit b 5" "bit a 6 = bit b 6" "bit a 7 = bit b 7"
    "bit a 8 = bit b 8" "bit a 9 = bit b 9" "bit a 10 = bit b 10" "bit a 11 = bit b 11"
    "bit a 12 = bit b 12" "bit a 13 = bit b 13" "bit a 14 = bit b 14" "bit a 15 = bit b 15"
  shows "a = (b :: u16)"
proof (rule bit_word_eqI)
  have "\<forall>n < 16. bit a n = bit b n" using assms by (simp add: numeral_eq_Suc All_less_Suc)
  then show "bit a n = bit b n" if "n < LENGTH(16)" for n using that by simp
qed

lemma pid_roundtrip: "ucast (ucast (pid AND 0xff) :: u8) + push_bit 8 (ucast (ucast (drop_bit 8 pid AND 0xff) :: u8)) = (pid :: u16)"
proof -
  have "(ucast (ucast (pid AND 0xff) :: u8) :: u16) = pid AND 0xff"
    by (rule half_eqI; simp add: bit_simps)
  moreover have "push_bit 8 (ucast (ucast (drop_bit 8 pid AND 0xff) :: u8)) = pid AND 0xff00"
    by (rule half_eqI; simp add: bit_simps)
  ultimately show ?thesis using and_split [of pid "0xff00"] unfolding not_masks by (simp only: add.commute)
qed

lemma small_word_bits: "unat w < 2 ^ k \<Longrightarrow> k \<le> n \<Longrightarrow> bit (w :: 'a::len word) n = False"
proof -
  assume "unat w < 2 ^ k" "k \<le> n"
  then have "take_bit k (unat w) = unat w" by (simp add: take_bit_nat_eq_self_iff)
  then have "bit (unat w) n = (n < k \<and> bit (unat w) n)" by (metis bit_take_bit_iff)
  with \<open>k \<le> n\<close> show ?thesis by (cases "n < LENGTH('a)") (simp_all add: bit_unsigned_iff impossible_bit)
qed

lemma fcf_byte0:
  fixes ft pend ack :: u8
  assumes "ft < 8"
  defines "b \<equiv> (ft AND 7) OR push_bit 3 (0 AND 1) OR push_bit 4 (pend AND 1) OR push_bit 5 (ack AND 1) OR push_bit 6 (1 AND 1)"
  shows "b AND 7 = ft" "drop_bit 3 b AND 1 = 0" "drop_bit 4 b AND 1 = pend AND 1" "drop_bit 5 b AND 1 = ack AND 1"
    "drop_bit 6 b AND 1 = 1"
proof -
  have "unat ft < 2 ^ 3" using assms(1) by (simp add: word_less_nat_alt)
  note z = small_word_bits [OF this]
  show "b AND 7 = ft" unfolding b_def by (rule byte_eqI; simp add: bit_simps z)
  show "drop_bit 3 b AND 1 = 0" unfolding b_def by (rule byte_eqI; simp add: bit_simps)
  show "drop_bit 4 b AND 1 = pend AND 1" unfolding b_def by (rule byte_eqI; simp add: bit_simps)
  show "drop_bit 5 b AND 1 = ack AND 1" unfolding b_def by (rule byte_eqI; simp add: bit_simps)
  show "drop_bit 6 b AND 1 = 1" unfolding b_def by (rule byte_eqI; simp add: bit_simps)
qed

definition frame_modes :: "bool \<Rightarrow> frame802154 \<Rightarrow> bool" where
  "frame_modes bc p \<longleftrightarrow> src_addr_mode (fcf p) = 3 \<and> dest_addr_mode (fcf p) = (if bc then 2 else 3) \<and>
     frame_version (fcf p) = 1 \<and> security_enabled (fcf p) = 0 \<and> ie_list_present (fcf p) = 0 \<and>
     sequence_number_suppression (fcf p) = 0 \<and> frame_type (fcf p) < 8 \<and> frame_type (fcf p) \<noteq> 2 \<and>
     src_pid p = dest_pid p \<and> length (src_addr p) = 8 \<and> length (dest_addr p) = 8"

lemma header_form:
  assumes "frame_modes bc p"
  shows "frame_header p = [(frame_type (fcf p) AND 7) OR push_bit 3 (0 AND 1) OR push_bit 4 (frame_pending (fcf p) AND 1) OR
        push_bit 5 (ack_required (fcf p) AND 1) OR push_bit 6 (1 AND 1), if bc then 0xD8 else 0xDC, fr_seq p] @
      pid_bytes (dest_pid p) @ (if bc then [dest_addr p ! 1, dest_addr p ! 0] else rev (dest_addr p)) @ rev (src_addr p)"
    "frame802154_hdrlen p = (if bc then 15 else 21)" "length (frame_header p) = (if bc then 15 else 21)"
proof -
  obtain b0 b1 b2 b3 b4 b5 b6 b7 where d: "dest_addr p = [b0, b1, b2, b3, b4, b5, b6, b7]"
    using assms unfolding frame_modes_def by (blast intro: list8E)
  show "frame_header p = [(frame_type (fcf p) AND 7) OR push_bit 3 (0 AND 1) OR push_bit 4 (frame_pending (fcf p) AND 1) OR
        push_bit 5 (ack_required (fcf p) AND 1) OR push_bit 6 (1 AND 1), if bc then 0xD8 else 0xDC, fr_seq p] @
      pid_bytes (dest_pid p) @ (if bc then [dest_addr p ! 1, dest_addr p ! 0] else rev (dest_addr p)) @ rev (src_addr p)"
    using assms
    by (cases bc) (simp_all add: frame_modes_def frame_header_def field_len_def frame802154_has_panid_def frame_consts
        Let_def fcf_bytes_def addr_len_def addr_bytes_def d)
  then show "length (frame_header p) = (if bc then 15 else 21)"
    using assms by (cases bc) (simp_all add: frame_modes_def pid_bytes_def)
  show "frame802154_hdrlen p = (if bc then 15 else 21)"
    using assms
    by (cases bc) (simp_all add: frame_modes_def frame802154_hdrlen_def field_len_def frame802154_has_panid_def frame_consts
        Let_def addr_len_def)
qed

lemma parse_header:
  assumes p: "frame_modes bc p" and len: "int (length (frame_header p)) \<le> len"
  shows "frame802154_parse (frame_header p @ r) len pf =
    Some (\<lparr>dest_addr = (if bc then [dest_addr p ! 0, dest_addr p ! 1] @ replicate 6 0 else dest_addr p), src_addr = src_addr p,
       fcf = \<lparr>frame_type = frame_type (fcf p), security_enabled = 0, frame_pending = frame_pending (fcf p) AND 1,
         ack_required = ack_required (fcf p) AND 1, panid_compression = 1, sequence_number_suppression = 0,
         ie_list_present = 0, dest_addr_mode = dest_addr_mode (fcf p), frame_version = 1, src_addr_mode = 3\<rparr>,
       fr_seq = fr_seq p, dest_pid = dest_pid p, src_pid = dest_pid p, fr_payload_len = len - int (length (frame_header p))\<rparr>,
     length (frame_header p))"
proof -
  define ft pend ack where "ft = frame_type (fcf p)" and "pend = frame_pending (fcf p)" and "ack = ack_required (fcf p)"
  define b0 where "b0 = (ft AND 7) OR push_bit 3 (0 AND 1) OR push_bit 4 (pend AND 1) OR push_bit 5 (ack AND 1) OR push_bit 6 (1 AND 1)"
  have ft: "ft < 8" "ft \<noteq> 2" using p by (simp_all add: frame_modes_def ft_def)
  note F = fcf_byte0 [OF ft(1), of pend ack, folded b0_def]
  obtain d0 d1 d2 d3 d4 d5 d6 d7 where d: "dest_addr p = [d0, d1, d2, d3, d4, d5, d6, d7]"
    using p unfolding frame_modes_def by (blast intro: list8E)
  obtain s0 s1 s2 s3 s4 s5 s6 s7 where s: "src_addr p = [s0, s1, s2, s3, s4, s5, s6, s7]"
    using p unfolding frame_modes_def by (blast intro: list8E)
  obtain lo hi where lh: "pid_bytes (dest_pid p) = [lo, hi]" "ucast lo + push_bit 8 (ucast hi) = dest_pid p"
    using pid_roundtrip by (simp add: pid_bytes_def)
  have H: "frame_header p = [b0, if bc then 0xD8 else 0xDC, fr_seq p, lo, hi] @ (if bc then [d1, d0] else [d7, d6, d5, d4, d3, d2, d1, d0]) @
      [s7, s6, s5, s4, s3, s2, s1, s0]"
    using header_form(1) [OF p] by (simp add: b0_def ft_def pend_def ack_def lh d s)
  show ?thesis
  proof (cases bc)
    case True
    have fcf: "parse_fcf b0 0xD8 = \<lparr>frame_type = ft, security_enabled = 0, frame_pending = pend AND 1,
         ack_required = ack AND 1, panid_compression = 1, sequence_number_suppression = 0,
         ie_list_present = 0, dest_addr_mode = 2, frame_version = 1, src_addr_mode = 3\<rparr>"
      unfolding parse_fcf_def F by simp
    let ?D = "[b0, 0xD8, fr_seq p, lo, hi, d1, d0, s7, s6, s5, s4, s3, s2, s1, s0] @ r"
    have R: "rd ?D 0 = Some b0" "rd ?D 1 = Some 0xD8" "rd ?D 2 = Some (fr_seq p)" "parse_pid ?D 3 = Some (dest_pid p, 5)"
      "parse_addr 2 v ?D 5 = Some ([d0, d1] @ replicate 6 0, 7)"
      "parse_addr 3 v ?D 7 = Some ([s0, s1, s2, s3, s4, s5, s6, s7], 15)" for v
      using lh(2) by (simp_all add: rd_def parse_pid_def parse_addr_def frame_consts mem_read_def)
    have "frame802154_has_panid (parse_fcf b0 0xD8) = (False, True)"
      using ft(2) by (simp add: fcf frame802154_has_panid_def frame_consts)
    then have "frame802154_parse ?D len pf = Some (\<lparr>dest_addr = [d0, d1] @ replicate 6 0, src_addr = [s0, s1, s2, s3, s4, s5, s6, s7],
       fcf = parse_fcf b0 0xD8, fr_seq = fr_seq p, dest_pid = dest_pid p, src_pid = dest_pid p, fr_payload_len = len - 15\<rparr>, 15)"
      using len H True
      by (simp only: frame802154_parse_def R Let_def bind.bind_lunit prod.case) (simp add: fcf R del: append_Cons append.simps)
    then show ?thesis using True ft_def pend_def ack_def p unfolding fcf
      by (simp add: H d s frame_modes_def)
  next
    case False
    have fcf: "parse_fcf b0 0xDC = \<lparr>frame_type = ft, security_enabled = 0, frame_pending = pend AND 1,
         ack_required = ack AND 1, panid_compression = 1, sequence_number_suppression = 0,
         ie_list_present = 0, dest_addr_mode = 3, frame_version = 1, src_addr_mode = 3\<rparr>"
      unfolding parse_fcf_def F by simp
    let ?D = "[b0, 0xDC, fr_seq p, lo, hi, d7, d6, d5, d4, d3, d2, d1, d0, s7, s6, s5, s4, s3, s2, s1, s0] @ r"
    have R: "rd ?D 0 = Some b0" "rd ?D 1 = Some 0xDC" "rd ?D 2 = Some (fr_seq p)" "parse_pid ?D 3 = Some (dest_pid p, 5)"
      "parse_addr 3 v ?D 5 = Some ([d0, d1, d2, d3, d4, d5, d6, d7], 13)"
      "parse_addr 3 v ?D 13 = Some ([s0, s1, s2, s3, s4, s5, s6, s7], 21)" for v
      using lh(2) by (simp_all add: rd_def parse_pid_def parse_addr_def frame_consts mem_read_def)
    have "frame802154_has_panid (parse_fcf b0 0xDC) = (False, True)"
      using ft(2) by (simp add: fcf frame802154_has_panid_def frame_consts)
    then have "frame802154_parse ?D len pf = Some (\<lparr>dest_addr = [d0, d1, d2, d3, d4, d5, d6, d7], src_addr = [s0, s1, s2, s3, s4, s5, s6, s7],
       fcf = parse_fcf b0 0xDC, fr_seq = fr_seq p, dest_pid = dest_pid p, src_pid = dest_pid p, fr_payload_len = len - 21\<rparr>, 21)"
      using len H False
      by (simp only: frame802154_parse_def R Let_def bind.bind_lunit prod.case) (simp add: fcf R del: append_Cons append.simps)
    then show ?thesis using False ft_def pend_def ack_def p unfolding fcf
      by (simp add: H d s frame_modes_def)
  qed
qed

subsection \<open>From one node to another\<close>

text \<open>What the framer depends on.\<close>

definition pb_same :: "'a pb_state_scheme \<Rightarrow> 'b pb_state_scheme \<Rightarrow> bool" where
  "pb_same s s' \<longleftrightarrow> packetbuf s' = packetbuf s \<and> buflen s' = buflen s \<and> bufptr s' = bufptr s \<and> hdrlen s' = hdrlen s \<and>
     packetbuf_addrs s' = packetbuf_addrs s \<and>
     (\<forall>t. t \<noteq> PACKETBUF_ATTR_MAC_SEQNO \<longrightarrow> packetbuf_attrs s' t = packetbuf_attrs s t)"

lemma mac_rand_pb: "mac_rand s = (r, t) \<Longrightarrow> pb_same s t \<and> packetbuf_attrs t = packetbuf_attrs s"
  by (auto simp: mac_rand_def pb_same_def split: prod.splits)

lemma ucast_up_down: "(ucast (ucast (x :: u8) :: u16) :: u8) = x"
  by (rule byte_eqI; simp add: bit_simps)

lemma ucast_up_0: "(ucast (x :: u8) :: u16) = 0 \<longleftrightarrow> x = 0"
  using ucast_up_down [of x] by force

lemma frame_seqno_pb: "frame_seqno f s = (q, f', s') \<Longrightarrow> pb_same s s' \<and> mac_pan_id f' = mac_pan_id f \<and>
    (packetbuf_attrs s PACKETBUF_ATTR_MAC_SEQNO = 0 \<longrightarrow> packetbuf_attrs s' PACKETBUF_ATTR_MAC_SEQNO \<noteq> 0) \<and>
    q = ucast (packetbuf_attrs s' PACKETBUF_ATTR_MAC_SEQNO)"
  by (auto simp: frame_seqno_def pb_same_def packetbuf_attr_def packetbuf_set_attr_def Let_def ucast_up_down ucast_up_0
      split: if_splits)

text \<open>The frame parameters of a packet buffer that the layers above have filled.\<close>

definition frame_ready :: "'a pb_state_scheme \<Rightarrow> bool" where
  "frame_ready s \<longleftrightarrow> length (packetbuf_addr PACKETBUF_ADDR_SENDER s) = 8 \<and> length (packetbuf_addr PACKETBUF_ADDR_RECEIVER s) = 8 \<and>
     packetbuf_addr PACKETBUF_ADDR_RECEIVER s \<noteq> replicate 8 0xff \<and>
     packetbuf_attr PACKETBUF_ATTR_FRAME_TYPE s = FRAME802154_DATAFRAME"

definition frame_hdrlen_of :: "'a pb_state_scheme \<Rightarrow> nat" where
  "frame_hdrlen_of s = (if packetbuf_holds_broadcast s then 15 else 21)"

lemma params_modes: "frame_ready s \<Longrightarrow> frame_modes (packetbuf_holds_broadcast s) (frame_params pan q s)"
  by (simp add: frame_ready_def frame_modes_def frame_params_def frame802154_zero_def frame_consts FRAME802154_DATAFRAME_def)

lemma create_frame_result:
  assumes s: "pb_wf s" "frame_ready s" and pan: "mac_pan_id f \<noteq> 0xffff"
  obtains f2 s2 q where "pb_same s s2" "mac_pan_id f2 = mac_pan_id f" "q = ucast (packetbuf_attrs s2 PACKETBUF_ATTR_MAC_SEQNO)"
    "framer_create f s = (do {
       (s3, ok) \<leftarrow> packetbuf_hdralloc (frame_hdrlen_of s) s2;
       if ok then do { (m, n) \<leftarrow> frame802154_create (frame_params (mac_pan_id f) q s2) (packetbuf s3);
                       Some (f2, s3\<lparr>packetbuf := m\<rparr>, int (frame_hdrlen_of s)) }
       else Some (f2, s3, FRAMER_FAILED)
     })" "frame_params (mac_pan_id f) q s2 = frame_params (mac_pan_id f) q s"
proof -
  obtain f1 s1 where 1: "(if framer_initialized f then (f, s)
       else (case mac_rand s of (r, t) \<Rightarrow> (f\<lparr>framer_initialized := True, mac_dsn := ucast (r AND 0xff)\<rparr>, t))) = (f1, s1)"
    by fastforce
  have s1: "pb_same s s1" "mac_pan_id f1 = mac_pan_id f"
    using 1 mac_rand_pb by (auto simp: pb_same_def split: if_splits prod.splits)
  obtain q f2 s2 where 2: "frame_seqno f1 s1 = (q, f2, s2)" using prod_cases3 by blast
  note s2 = frame_seqno_pb [OF 2]
  have same: "pb_same s s2" using s1(1) s2 by (auto simp: pb_same_def)
  have pars: "frame_params (mac_pan_id f) q s2 = frame_params (mac_pan_id f) q s"
    using same by (simp add: pb_same_def frame_params_def packetbuf_holds_broadcast_def packetbuf_addr_def packetbuf_attr_def
        packetbuf_datalen_def)
  have "frame802154_hdrlen (frame_params (mac_pan_id f) q s) = frame_hdrlen_of s"
    unfolding frame_hdrlen_of_def by (rule header_form(2) [OF params_modes [OF s(2)]])
  then have hl: "frame802154_hdrlen (frame_params (mac_pan_id f) q s2) = frame_hdrlen_of s" "mac_pan_id f2 = mac_pan_id f"
    using s1(2) s2 pars by simp_all
  have "framer_create f s = (do {
       (s3, ok) \<leftarrow> packetbuf_hdralloc (frame_hdrlen_of s) s2;
       if ok then do { (m, n) \<leftarrow> frame802154_create (frame_params (mac_pan_id f) q s2) (packetbuf s3);
                       Some (f2, s3\<lparr>packetbuf := m\<rparr>, int (frame_hdrlen_of s)) }
       else Some (f2, s3, FRAMER_FAILED)
     })"
    using pan by (simp add: framer_create_def create_frame_def 1 2 hl Let_def cong: if_cong)
  moreover have "q = ucast (packetbuf_attrs s2 PACKETBUF_ATTR_MAC_SEQNO)" using s2 by blast
  ultimately show ?thesis using that [OF same hl(2) _ _ pars] by blast
qed

text \<open>What is in the packet buffer after the header has been built: the frame for the air.\<close>

lemma framer_create_frame:
  assumes s: "pb_wf s" "frame_ready s" "hdrlen s = 0" "bufptr s = 0" and pan: "mac_pan_id f \<noteq> 0xffff"
    and fits: "frame_hdrlen_of s + length (pb_payload s) \<le> PACKETBUF_SIZE"
  shows "\<exists>f' s' q. framer_create f s = Some (f', s', int (frame_hdrlen_of s)) \<and> pb_wf s' \<and>
     pb_header s' = frame_header (frame_params (mac_pan_id f) q s) \<and> pb_payload s' = pb_payload s \<and>
     q = ucast (packetbuf_attrs s' PACKETBUF_ATTR_MAC_SEQNO) \<and> packetbuf_addrs s' = packetbuf_addrs s"
proof -
  obtain f2 s2 q where same: "pb_same s s2" and q: "q = ucast (packetbuf_attrs s2 PACKETBUF_ATTR_MAC_SEQNO)"
    and eq: "framer_create f s = (do {
       (s3, ok) \<leftarrow> packetbuf_hdralloc (frame_hdrlen_of s) s2;
       if ok then do { (m, n) \<leftarrow> frame802154_create (frame_params (mac_pan_id f) q s2) (packetbuf s3);
                       Some (f2, s3\<lparr>packetbuf := m\<rparr>, int (frame_hdrlen_of s)) }
       else Some (f2, s3, FRAMER_FAILED)
     })" and pars: "frame_params (mac_pan_id f) q s2 = frame_params (mac_pan_id f) q s"
    by (rule create_frame_result [OF s(1, 2) pan])
  let ?n = "frame_hdrlen_of s" and ?h = "frame_header (frame_params (mac_pan_id f) q s)"
  have w2: "pb_wf s2" "pb_payload s2 = pb_payload s" "unat (hdrlen s2) = 0" "unat (bufptr s2) = 0" "unat (buflen s2) = length (pb_payload s)"
    using s same payload_length [OF s(1)] by (simp_all add: pb_same_def pb_wf_def pb_payload_def)
  obtain s3 ok where a: "packetbuf_hdralloc ?n s2 = Some (s3, ok)" "pb_wf s3" "pb_payload s3 = pb_payload s2"
    "ok \<longleftrightarrow> ?n + unat (hdrlen s2) + unat (bufptr s2) + unat (buflen s2) \<le> PACKETBUF_SIZE"
    "if ok then drop ?n (pb_header s3) = pb_header s2 \<and> length (pb_header s3) = ?n + length (pb_header s2) else s3 = s2"
    "packetbuf_attrs s3 = packetbuf_attrs s2" "packetbuf_addrs s3 = packetbuf_addrs s2"
    using hdralloc_abs [OF w2(1)] by blast
  have ok: "ok" using a(4) w2(3, 4, 5) fits by simp
  have "length (pb_header s2) = 0" using header_length [OF w2(1)] w2(3) by simp
  then have h3: "unat (hdrlen s3) = ?n" using a(5) ok header_length [OF a(2)] by simp
  have hl: "length ?h = ?n" unfolding frame_hdrlen_of_def by (rule header_form(3) [OF params_modes [OF s(2)]])
  have L: "length (packetbuf s3) = PACKETBUF_SIZE" using a(2) by (simp add: pb_wf_def)
  define s' where "s' = s3\<lparr>packetbuf := ?h @ drop ?n (packetbuf s3)\<rparr>"
  have n: "?n \<le> PACKETBUF_SIZE" using fits by simp
  have "frame802154_create (frame_params (mac_pan_id f) q s2) (packetbuf s3) = Some (?h @ drop ?n (packetbuf s3), ?n)"
    using L n hl by (simp add: frame802154_create_def mem_write_def pars)
  then have "framer_create f s = Some (f2, s', int ?n)" using a(1) ok by (simp add: eq s'_def)
  moreover have "pb_wf s'" "pb_header s' = ?h" "pb_payload s' = pb_payload s"
    using a(2, 3) w2(2) L n hl h3 by (simp_all add: s'_def pb_wf_def pb_header_def pb_payload_def add.commute)
  moreover have "q = ucast (packetbuf_attrs s' PACKETBUF_ATTR_MAC_SEQNO)" "packetbuf_addrs s' = packetbuf_addrs s"
    using q a(6, 7) same by (simp_all add: s'_def pb_same_def)
  ultimately show ?thesis by blast
qed

text \<open>What the receiver reads from it.\<close>

lemma framer_parse_frame:
  assumes s: "frame_ready s" and t: "pb_wf t"
    and bytes: "bytes = frame_header (frame_params pan q s) @ pay" "length bytes \<le> PACKETBUF_SIZE"
  shows "\<exists>t1 t2. packetbuf_copyfrom bytes (of_nat (length bytes)) t = Some (t1, of_nat (length bytes)) \<and>
     framer_parse pan t1 = Some (t2, int (frame_hdrlen_of s)) \<and> pb_wf t2 \<and> pb_payload t2 = pay \<and>
     packetbuf_addr PACKETBUF_ADDR_SENDER t2 = packetbuf_addr PACKETBUF_ADDR_SENDER s \<and>
     packetbuf_addr PACKETBUF_ADDR_RECEIVER t2 = packetbuf_addr PACKETBUF_ADDR_RECEIVER s \<and>
     packetbuf_attr PACKETBUF_ATTR_FRAME_TYPE t2 = packetbuf_attr PACKETBUF_ATTR_FRAME_TYPE s \<and>
     packetbuf_attr PACKETBUF_ATTR_MAC_SEQNO t2 = ucast q"
proof -
  let ?bc = "packetbuf_holds_broadcast s" and ?n = "frame_hdrlen_of s" and ?p = "frame_params pan q s"
  note m = params_modes [OF s, of pan q]
  have hl: "length (frame_header ?p) = ?n" unfolding frame_hdrlen_of_def by (rule header_form(3) [OF m])
  have len: "unat (of_nat (length bytes) :: u16) = length bytes"
    using bytes(2) by (simp add: PACKETBUF_SIZE_def unsigned_of_nat take_bit_nat_eq_self_iff)
  obtain t1 l where t1: "packetbuf_copyfrom bytes (of_nat (length bytes)) t = Some (t1, l)" "pb_wf t1" "pb_header t1 = []"
    "pb_payload t1 = bytes" "l = buflen t1" "packetbuf_attrs t1 = (\<lambda>_. 0)" "packetbuf_addrs t1 = (\<lambda>_. linkaddr_null)"
    using copyfrom_abs [OF t, of "of_nat (length bytes)" bytes] len bytes(2) by (auto simp: min_def)
  have bl: "unat (buflen t1) = length bytes" using payload_length [OF t1(2)] t1(4) by simp
  then have bl': "buflen t1 = of_nat (length bytes)" using len by (simp add: word_unat_eq_iff)
  define d where "d = drop (packetbuf_dataptr t1) (packetbuf t1)"
  have "take (length bytes) d = bytes"
    using t1(4) bl hdrlen_exact [OF t1(2)] by (simp add: pb_payload_def d_def packetbuf_dataptr_def)
  then have d: "d = frame_header ?p @ (pay @ drop (length bytes) d)"
    using append_take_drop_id [of "length bytes" d] bytes(1) by simp
  have n: "?n \<le> length bytes" using hl bytes(1) by simp
  obtain fr where fr: "frame802154_parse d (uint (packetbuf_datalen t1)) frame802154_zero = Some (fr, ?n)"
    "dest_addr fr = (if ?bc then [0xff, 0xff] @ replicate 6 0 else packetbuf_addr PACKETBUF_ADDR_RECEIVER s)"
    "src_addr fr = packetbuf_addr PACKETBUF_ADDR_SENDER s" "frame_type (fcf fr) = 1" "sequence_number_suppression (fcf fr) = 0"
    "dest_addr_mode (fcf fr) = (if ?bc then 2 else 3)" "fr_seq fr = q" "dest_pid fr = pan"
  proof -
    have "int ?n \<le> int (unat (buflen t1))" using n unfolding bl by (simp only: of_nat_le_iff)
    then have "int (length (frame_header ?p)) \<le> uint (packetbuf_datalen t1)" by (simp add: hl packetbuf_datalen_def)
    note P = parse_header [OF m this, of "pay @ drop (length bytes) d" frame802154_zero, unfolded d [symmetric] hl]
    show ?thesis
      by (rule that [OF P])
        (use s in \<open>auto simp: frame_params_def frame_consts frame_ready_def FRAME802154_DATAFRAME_def\<close>)
  qed
  have n0: "?n \<noteq> 0" by (simp add: frame_hdrlen_of_def)
  obtain t2 where red: "packetbuf_hdrreduce ?n t1 = (t2, True)" and t2: "pb_wf t2" "pb_payload t2 = drop ?n (pb_payload t1)"
    "packetbuf_addrs t2 = (\<lambda>_. linkaddr_null)" "packetbuf_attrs t2 = (\<lambda>_. 0)"
    using hdrreduce_abs [OF t1(2), of ?n] n bl t1(4, 6, 7) by (auto simp: packetbuf_hdrreduce_def)
  have pay: "drop ?n (pb_payload t1) = pay" using t1(4) bytes(1) hl by simp
  have bc: "frame802154_is_broadcast_addr (dest_addr_mode (fcf fr)) (dest_addr fr) \<longleftrightarrow> ?bc"
  proof (cases ?bc)
    case True
    then show ?thesis using fr(2, 6) by (simp add: frame802154_is_broadcast_addr_def frame_consts numeral_2_eq_2)
  next
    case False
    then show ?thesis using fr(2, 6) s by (simp add: frame802154_is_broadcast_addr_def frame_consts frame_ready_def)
  qed
  define t5 where "t5 = packetbuf_set_attr PACKETBUF_ATTR_MAC_SEQNO (ucast q)
      (packetbuf_set_attr PACKETBUF_ATTR_PENDING (ucast (frame_pending (fcf fr)))
        (packetbuf_set_addr PACKETBUF_ADDR_SENDER (src_addr fr)
          (if ?bc then packetbuf_set_attr PACKETBUF_ATTR_FRAME_TYPE 1 t2
           else packetbuf_set_addr PACKETBUF_ADDR_RECEIVER (dest_addr fr) (packetbuf_set_attr PACKETBUF_ATTR_FRAME_TYPE 1 t2))))"
  have "framer_parse pan t1 = Some (t5, int ?n)"
    using n0 bc fr by (simp add: framer_parse_def d_def [symmetric] red Let_def t5_def)
  moreover have "pb_wf t5" "pb_payload t5 = pay"
    using t2 pay by (simp_all add: t5_def pb_wf_def pb_payload_def packetbuf_set_attr_def packetbuf_set_addr_def)
  moreover have "packetbuf_addr PACKETBUF_ADDR_SENDER t5 = packetbuf_addr PACKETBUF_ADDR_SENDER s"
    "packetbuf_addr PACKETBUF_ADDR_RECEIVER t5 = packetbuf_addr PACKETBUF_ADDR_RECEIVER s"
    "packetbuf_attr PACKETBUF_ATTR_FRAME_TYPE t5 = packetbuf_attr PACKETBUF_ATTR_FRAME_TYPE s"
    "packetbuf_attr PACKETBUF_ATTR_MAC_SEQNO t5 = ucast q"
    using t2 fr s by (auto simp: t5_def packetbuf_set_attr_def packetbuf_set_addr_def packetbuf_addr_def packetbuf_attr_def
        packetbuf_holds_broadcast_def frame_ready_def FRAME802154_DATAFRAME_def)
  moreover have "packetbuf_copyfrom bytes (of_nat (length bytes)) t = Some (t1, of_nat (length bytes))"
    using t1(1, 5) bl' by simp
  ultimately show ?thesis by blast
qed

text \<open>C13. A frame is received as it was sent: when the framer has built the header of a data frame in front of the
  payload, a node with the same PAN identifier that gets the bytes of the frame parses them successfully, and
  its packet buffer holds the payload, the sender, the receiver (the null address for a broadcast), the frame type and
  the low byte of the sequence number of the sender.\<close>

theorem framer_roundtrip:
  assumes "pb_wf s" "frame_ready s" "hdrlen s = 0" "bufptr s = 0" "mac_pan_id f \<noteq> 0xffff" "pb_wf t"
    and "(if packetbuf_holds_broadcast s then 15 else 21) + length (pb_payload s) \<le> PACKETBUF_SIZE"
  shows "\<exists>f' s' n t1 t2. framer_create f s = Some (f', s', n) \<and> n = (if packetbuf_holds_broadcast s then 15 else 21) \<and>
     packetbuf_copyfrom (pb_header s' @ pb_payload s') (of_nat (length (pb_header s' @ pb_payload s'))) t =
       Some (t1, of_nat (length (pb_header s' @ pb_payload s'))) \<and>
     framer_parse (mac_pan_id f) t1 = Some (t2, n) \<and> pb_payload t2 = pb_payload s \<and>
     packetbuf_addr PACKETBUF_ADDR_SENDER t2 = packetbuf_addr PACKETBUF_ADDR_SENDER s \<and>
     packetbuf_addr PACKETBUF_ADDR_RECEIVER t2 = packetbuf_addr PACKETBUF_ADDR_RECEIVER s \<and>
     packetbuf_attr PACKETBUF_ATTR_FRAME_TYPE t2 = packetbuf_attr PACKETBUF_ATTR_FRAME_TYPE s \<and>
     packetbuf_attr PACKETBUF_ATTR_MAC_SEQNO t2 = take_bit 8 (packetbuf_attr PACKETBUF_ATTR_MAC_SEQNO s')"
proof -
  have fits: "frame_hdrlen_of s + length (pb_payload s) \<le> PACKETBUF_SIZE" using assms(7) by (simp add: frame_hdrlen_of_def)
  obtain f' s' q where c: "framer_create f s = Some (f', s', int (frame_hdrlen_of s))" "pb_wf s'"
    "pb_header s' = frame_header (frame_params (mac_pan_id f) q s)" "pb_payload s' = pb_payload s"
    "q = ucast (packetbuf_attrs s' PACKETBUF_ATTR_MAC_SEQNO)"
    using framer_create_frame [OF assms(1-5) fits] by blast
  have len: "length (pb_header s' @ pb_payload s') \<le> PACKETBUF_SIZE"
    using fits header_form(3) [OF params_modes [OF assms(2)]] by (simp add: c frame_hdrlen_of_def)
  have "(ucast q :: u16) = take_bit 8 (packetbuf_attr PACKETBUF_ATTR_MAC_SEQNO s')"
    unfolding c(5) packetbuf_attr_def by (rule bit_word_eqI) (auto simp: bit_simps)
  moreover have "int (frame_hdrlen_of s) = (if packetbuf_holds_broadcast s then 15 else 21)" by (simp add: frame_hdrlen_of_def)
  ultimately show ?thesis
    using c(1, 4) framer_parse_frame [OF assms(2, 6), of "pb_header s' @ pb_payload s'" "mac_pan_id f" q "pb_payload s'"] c(3) len
    by fastforce
qed

definition demo_framer :: framer_state where
  "demo_framer = \<lparr>mac_dsn = 0, framer_initialized = True, mac_pan_id = IEEE802154_PANID\<rparr>"

definition frame_demo :: csma_state where
  "frame_demo = csma_demo\<lparr>packetbuf := [1, 2, 3] @ replicate 125 0, buflen := 3, packetbuf_attrs := (\<lambda>_. 1),
     packetbuf_addrs := (\<lambda>t. case t of PACKETBUF_ADDR_SENDER \<Rightarrow> demo_ll 1 | PACKETBUF_ADDR_RECEIVER \<Rightarrow> demo_ll 2)\<rparr>"

lemma frame_demo_ok: "pb_wf frame_demo" "frame_ready frame_demo" "hdrlen frame_demo = 0" "bufptr frame_demo = 0"
  "pb_payload frame_demo = [1, 2, 3]" "packetbuf_addr PACKETBUF_ADDR_SENDER frame_demo = demo_ll 1"
  "\<not> packetbuf_holds_broadcast frame_demo"
proof -
  have r8: "replicate 8 v = [v, v, v, v, v, v, v, v]" for v :: u8 by (simp add: numeral_eq_Suc)
  show "pb_wf frame_demo" "frame_ready frame_demo" "hdrlen frame_demo = 0" "bufptr frame_demo = 0"
    "pb_payload frame_demo = [1, 2, 3]" "packetbuf_addr PACKETBUF_ADDR_SENDER frame_demo = demo_ll 1"
    "\<not> packetbuf_holds_broadcast frame_demo"
    by (simp_all add: frame_demo_def pb_wf_def frame_ready_def packetbuf_addr_def packetbuf_attr_def PACKETBUF_SIZE_def
        csma_demo_fields demo_ll_def FRAME802154_DATAFRAME_def pb_payload_def packetbuf_holds_broadcast_def linkaddr_null_def r8)
qed

theorem framer_roundtrip_witness:
  "\<exists>f' s' (t1 :: csma_state) t2. framer_create demo_framer frame_demo = Some (f', s', 21) \<and>
     framer_parse IEEE802154_PANID t1 = Some (t2, 21) \<and> pb_payload t2 = [1, 2, 3] \<and>
     packetbuf_addr PACKETBUF_ADDR_SENDER t2 = demo_ll 1"
proof -
  have f: "mac_pan_id demo_framer \<noteq> 0xffff" "mac_pan_id demo_framer = IEEE802154_PANID"
    by (simp_all add: demo_framer_def IEEE802154_PANID_def)
  have l: "(if packetbuf_holds_broadcast frame_demo then 15 else 21) + length (pb_payload frame_demo) \<le> PACKETBUF_SIZE"
    by (simp add: frame_demo_ok PACKETBUF_SIZE_def)
  from framer_roundtrip [OF frame_demo_ok(1-4) f(1) frame_demo_ok(1) l] show ?thesis
    unfolding f(2) frame_demo_ok(5, 6) using frame_demo_ok(7) by auto
qed

end
