(* ===== verification/Sicslowpan.thy ===== *)
theory Sicslowpan
  imports Frame802154 Iphc
begin

text \<open>
  The 6LoWPAN adaptation layer of \<open>core/net/ipv6/sicslowpan.c\<close>: \<open>output\<close> turns the IPv6 packet in \<open>uip_buf\<close> into
  one frame or into fragments and hands them to CSMA, \<open>input\<close> turns received frames into IPv6 packets. The state holds the
  CSMA layer with the packet buffer, the framer, the reassembly contexts and the IP buffer. \<open>lp_sent\<close> and
  \<open>lp_delivered\<close> record the frames handed to the layer below and the packets handed to the IP stack
  (\<open>tcpip_input\<close>). No rime sniffer is installed. \<open>memcpy\<close> outside of an array is undefined (\<open>None\<close>).
\<close>

unbundle bit_operations_syntax

subsection \<open>State\<close>

definition SICSLOWPAN_DISPATCH_IPV6 :: u8 where "SICSLOWPAN_DISPATCH_IPV6 = 0x41"
definition SICSLOWPAN_DISPATCH_FRAG1 :: u16 where "SICSLOWPAN_DISPATCH_FRAG1 = 0xc0"
definition SICSLOWPAN_DISPATCH_FRAGN :: u16 where "SICSLOWPAN_DISPATCH_FRAGN = 0xe0"
definition SICSLOWPAN_IPV6_HDR_LEN :: u8 where "SICSLOWPAN_IPV6_HDR_LEN = 1"
definition SICSLOWPAN_FRAG1_HDR_LEN :: u8 where "SICSLOWPAN_FRAG1_HDR_LEN = 4"
definition SICSLOWPAN_FRAGN_HDR_LEN :: u8 where "SICSLOWPAN_FRAGN_HDR_LEN = 5"
definition SICSLOWPAN_FRAGMENT_BUFFERS :: nat where "SICSLOWPAN_FRAGMENT_BUFFERS = 12"
definition SICSLOWPAN_REASS_CONTEXTS :: nat where "SICSLOWPAN_REASS_CONTEXTS = 2"
definition SICSLOWPAN_FRAGMENT_SIZE :: nat where "SICSLOWPAN_FRAGMENT_SIZE = 110"
definition SICSLOWPAN_FIRST_FRAGMENT_SIZE :: nat where "SICSLOWPAN_FIRST_FRAGMENT_SIZE = SICSLOWPAN_FRAGMENT_SIZE + 38"
definition SICSLOWPAN_REASS_MAXAGE :: u32 where "SICSLOWPAN_REASS_MAXAGE = 8"
definition MAC_MAX_PAYLOAD :: int where "MAC_MAX_PAYLOAD = 127 - 2"
definition MAC_TX_ERR_FATAL :: int where "MAC_TX_ERR_FATAL = 5"

lemmas lowpan_consts = SICSLOWPAN_DISPATCH_IPV6_def SICSLOWPAN_DISPATCH_FRAG1_def SICSLOWPAN_DISPATCH_FRAGN_def
  SICSLOWPAN_IPV6_HDR_LEN_def SICSLOWPAN_FRAG1_HDR_LEN_def SICSLOWPAN_FRAGN_HDR_LEN_def SICSLOWPAN_FRAGMENT_BUFFERS_def
  SICSLOWPAN_REASS_CONTEXTS_def SICSLOWPAN_FRAGMENT_SIZE_def SICSLOWPAN_FIRST_FRAGMENT_SIZE_def SICSLOWPAN_REASS_MAXAGE_def
  MAC_MAX_PAYLOAD_def UIP_BUFSIZE_def MAC_TX_ERR_FATAL_def

record timer =
  timer_start :: u32
  timer_interval :: u32

record sicslowpan_frag_info =
  fi_sender :: linkaddr
  fi_receiver :: linkaddr
  fi_tag :: u16
  fi_len :: u16
  fi_reassembled_len :: u16
  fi_timer :: timer
  fi_first_frag_len :: u16
  fi_first_frag :: "u8 list"

record sicslowpan_frag_buf =
  fb_index :: u8
  fb_offset :: u8
  fb_len :: u8
  fb_data :: "u8 list"

record lowpan_state =
  lp_mac :: csma_state
  lp_framer :: framer_state
  lp_contexts :: "addr_context list"
  my_tag :: u16
  frag_info :: "nat \<Rightarrow> sicslowpan_frag_info"
  frag_buf :: "nat \<Rightarrow> sicslowpan_frag_buf"
  uip_buf :: "u8 list"
  uip_len :: u16
  clock_time :: u32
  last_rssi :: u16
  lp_sent :: "(u8 list \<times> (pb_attr \<Rightarrow> u16) \<times> (pb_addr \<Rightarrow> linkaddr)) list"
  lp_delivered :: "u8 list list"

text \<open>\<open>timer_set\<close> and \<open>timer_expired\<close> of \<open>core/sys/timer.c\<close>.\<close>

definition timer_set :: "u32 \<Rightarrow> u32 \<Rightarrow> timer" where
  "timer_set now interval = \<lparr>timer_start = now, timer_interval = interval\<rparr>"

definition timer_expired :: "u32 \<Rightarrow> timer \<Rightarrow> bool" where
  "timer_expired now t \<longleftrightarrow> timer_interval t < (now - timer_start t) + 1"

definition mod_info :: "nat \<Rightarrow> (sicslowpan_frag_info \<Rightarrow> sicslowpan_frag_info) \<Rightarrow> lowpan_state \<Rightarrow> lowpan_state" where
  "mod_info i f s = s\<lparr>frag_info := (frag_info s)(i := f (frag_info s i))\<rparr>"

subsection \<open>Reassembly\<close>

text \<open>The loops over the buffers and contexts run over the list of the indices left.\<close>

fun clear_loop :: "nat list \<Rightarrow> nat \<Rightarrow> lowpan_state \<Rightarrow> lowpan_state \<times> nat" where
  "clear_loop [] ctx s = (s, 0)"
| "clear_loop (i # is) ctx s =
     (if fb_len (frag_buf s i) > 0 \<and> unat (fb_index (frag_buf s i)) = ctx
      then (case clear_loop is ctx (s\<lparr>frag_buf := (frag_buf s)(i := (frag_buf s i)\<lparr>fb_len := 0\<rparr>)\<rparr>) of (s', n) \<Rightarrow> (s', n + 1))
      else clear_loop is ctx s)"

definition clear_fragments :: "nat \<Rightarrow> lowpan_state \<Rightarrow> lowpan_state \<times> nat" where
  "clear_fragments ctx s =
     clear_loop [0..<SICSLOWPAN_FRAGMENT_BUFFERS] ctx (mod_info ctx (\<lambda>x. x\<lparr>fi_len := 0\<rparr>) s)"

fun timeout_loop :: "nat list \<Rightarrow> nat \<Rightarrow> lowpan_state \<Rightarrow> lowpan_state \<times> nat" where
  "timeout_loop [] not_context s = (s, 0)"
| "timeout_loop (i # is) not_context s =
     (if fi_len (frag_info s i) > 0 \<and> i \<noteq> not_context \<and> timer_expired (clock_time s) (fi_timer (frag_info s i))
      then (case clear_fragments i s of (s1, n) \<Rightarrow>
              (case timeout_loop is not_context s1 of (s2, k) \<Rightarrow> (s2, n + k)))
      else timeout_loop is not_context s)"

definition timeout_fragments :: "nat \<Rightarrow> lowpan_state \<Rightarrow> lowpan_state \<times> nat" where
  "timeout_fragments not_context s = timeout_loop [0..<SICSLOWPAN_REASS_CONTEXTS] not_context s"

text \<open>The frame in the packet buffer from \<open>packetbuf_ptr\<close> on.\<close>

definition packetbuf_ptr :: "lowpan_state \<Rightarrow> u8 list" where
  "packetbuf_ptr s = drop (packetbuf_dataptr (lp_mac s)) (packetbuf (lp_mac s))"

text \<open>\<open>store_fragment\<close>: the length stored, or -1. The length is kept in a byte.\<close>

fun store_loop :: "nat list \<Rightarrow> nat \<Rightarrow> u8 \<Rightarrow> u8 \<Rightarrow> lowpan_state \<Rightarrow> (lowpan_state \<times> int) option" where
  "store_loop [] index offset hdr_len s = Some (s, - 1)"
| "store_loop (i # is) index offset hdr_len s =
     (if fb_len (frag_buf s i) = 0
      then do {
        let n = uint (packetbuf_datalen (lp_mac s)) - uint hdr_len;
        bs \<leftarrow> (if n < 0 then None else mem_read (packetbuf_ptr s) (unat hdr_len) (nat n));
        d \<leftarrow> mem_write (fb_data (frag_buf s i)) 0 bs;
        Some (s\<lparr>frag_buf := (frag_buf s)(i := \<lparr>fb_index = of_nat index, fb_offset = offset, fb_len = of_int n, fb_data = d\<rparr>)\<rparr>,
              uint (of_int n :: u8))
      }
      else store_loop is index offset hdr_len s)"

definition store_fragment :: "nat \<Rightarrow> u8 \<Rightarrow> u8 \<Rightarrow> lowpan_state \<Rightarrow> (lowpan_state \<times> int) option" where
  "store_fragment index offset hdr_len s = store_loop [0..<SICSLOWPAN_FRAGMENT_BUFFERS] index offset hdr_len s"

text \<open>\<open>add_fragment\<close>: for a first fragment, a free context (expired ones are freed); for another one, the context
  of its tag and sender, in which it is stored.\<close>

fun free_context_loop :: "nat list \<Rightarrow> nat option \<Rightarrow> lowpan_state \<Rightarrow> lowpan_state \<times> nat option" where
  "free_context_loop [] found s = (s, found)"
| "free_context_loop (i # is) found s =
     (let s1 = (if fi_len (frag_info s i) > 0 \<and> timer_expired (clock_time s) (fi_timer (frag_info s i))
                then fst (clear_fragments i s) else s)
      in free_context_loop is (if found = None \<and> fi_len (frag_info s1 i) = 0 then Some i else found) s1)"

definition find_context :: "u16 \<Rightarrow> lowpan_state \<Rightarrow> nat option" where
  "find_context tag s = find (\<lambda>i. fi_tag (frag_info s i) = tag \<and> fi_len (frag_info s i) > 0 \<and>
     fi_sender (frag_info s i) = packetbuf_addr PACKETBUF_ADDR_SENDER (lp_mac s)) [0..<SICSLOWPAN_REASS_CONTEXTS]"

definition add_fragment :: "u16 \<Rightarrow> u16 \<Rightarrow> u8 \<Rightarrow> u8 \<Rightarrow> lowpan_state \<Rightarrow> (lowpan_state \<times> nat option) option" where
  "add_fragment tag frag_size offset hdr_len s =
     (if offset = 0
      then (case free_context_loop [0..<SICSLOWPAN_REASS_CONTEXTS] None s of
          (s1, None) \<Rightarrow> Some (s1, None)
        | (s1, Some c) \<Rightarrow>
            Some (mod_info c (\<lambda>x. x\<lparr>fi_len := frag_size, fi_tag := tag,
                    fi_sender := packetbuf_addr PACKETBUF_ADDR_SENDER (lp_mac s1),
                    fi_timer := timer_set (clock_time s1) (SICSLOWPAN_REASS_MAXAGE * CLOCK_SECOND div 16)\<rparr>) s1, Some c))
      else (case find_context tag s of
          None \<Rightarrow> Some (s, None)
        | Some c \<Rightarrow> do {
            (s1, len) \<leftarrow> store_fragment c offset hdr_len s;
            (s2, len2) \<leftarrow> (if len < 0
                           then (case timeout_fragments c s1 of (t, n) \<Rightarrow>
                                   if n > 0 then store_fragment c offset hdr_len t else Some (t, len))
                           else Some (s1, len));
            if len2 > 0
            then Some (mod_info c (\<lambda>x. x\<lparr>fi_reassembled_len := fi_reassembled_len x + of_int len2\<rparr>) s2, Some c)
            else Some (s2, None)
          }))"

fun copy_loop :: "nat list \<Rightarrow> nat \<Rightarrow> lowpan_state \<Rightarrow> lowpan_state option" where
  "copy_loop [] ctx s = Some s"
| "copy_loop (i # is) ctx s =
     (if fb_len (frag_buf s i) > 0 \<and> unat (fb_index (frag_buf s i)) = ctx
      then do {
        bs \<leftarrow> mem_read (fb_data (frag_buf s i)) 0 (unat (fb_len (frag_buf s i)));
        b \<leftarrow> mem_write (uip_buf s) (unat (push_bit 3 (ucast (fb_offset (frag_buf s i)) :: u16))) bs;
        copy_loop is ctx (s\<lparr>uip_buf := b\<rparr>)
      }
      else copy_loop is ctx s)"

definition copy_frags2uip :: "nat \<Rightarrow> lowpan_state \<Rightarrow> lowpan_state option" where
  "copy_frags2uip ctx s = do {
     bs \<leftarrow> mem_read (fi_first_frag (frag_info s ctx)) 0 (unat (fi_first_frag_len (frag_info s ctx)));
     b \<leftarrow> mem_write (uip_buf s) 0 bs;
     s1 \<leftarrow> copy_loop [0..<SICSLOWPAN_FRAGMENT_BUFFERS] ctx (s\<lparr>uip_buf := b\<rparr>);
     Some (fst (clear_fragments ctx s1))
   }"

subsection \<open>Receiving\<close>

text \<open>Where the headers are uncompressed to: the IP buffer, or the buffer of a reassembly context.\<close>

datatype lowpan_buffer = Uip_buf | First_frag nat

fun buffer_of :: "lowpan_buffer \<Rightarrow> lowpan_state \<Rightarrow> u8 list" where
  "buffer_of Uip_buf s = uip_buf s"
| "buffer_of (First_frag c) s = fi_first_frag (frag_info s c)"

fun set_buffer :: "lowpan_buffer \<Rightarrow> u8 list \<Rightarrow> lowpan_state \<Rightarrow> lowpan_state" where
  "set_buffer Uip_buf b s = s\<lparr>uip_buf := b\<rparr>"
| "set_buffer (First_frag c) b s = mod_info c (\<lambda>x. x\<lparr>fi_first_frag := b\<rparr>) s"

definition get16_at :: "u8 list \<Rightarrow> nat \<Rightarrow> u16 option" where
  "get16_at p i = do { hi \<leftarrow> rd p i; lo \<leftarrow> rd p (i + 1); Some (push_bit 8 (ucast hi) OR ucast lo) }"

definition tcpip_deliver :: "lowpan_state \<Rightarrow> lowpan_state" where
  "tcpip_deliver s = s\<lparr>lp_delivered := lp_delivered s @ [take (unat (uip_len s)) (uip_buf s)]\<rparr>"

text \<open>The headers after a fragmentation header, if any: the new state, \<open>packetbuf_hdr_len\<close> and
  \<open>uncomp_hdr_len\<close>, or nothing for an unknown dispatch.\<close>

definition uncompress_header ::
  "lowpan_buffer \<Rightarrow> u16 \<Rightarrow> u8 \<Rightarrow> lowpan_state \<Rightarrow> (lowpan_state \<times> u8 \<times> u8) option option" where
  "uncompress_header buffer frag_size hdr_len s = do {
     dispatch \<leftarrow> rd (packetbuf_ptr s) (unat hdr_len);
     if dispatch AND 0xe0 = SICSLOWPAN_DISPATCH_IPHC
     then do {
       (b, h, n) \<leftarrow> uncompress_hdr_iphc (lp_contexts s) (packetbuf_addr PACKETBUF_ADDR_SENDER (lp_mac s))
          (packetbuf_addr PACKETBUF_ADDR_RECEIVER (lp_mac s)) (packetbuf_ptr s) (uint (packetbuf_datalen (lp_mac s)))
          (buffer_of buffer s) frag_size hdr_len 0;
       Some (Some (set_buffer buffer b s, h, n))
     }
     else if dispatch = SICSLOWPAN_DISPATCH_IPV6
     then do {
       let h = hdr_len + SICSLOWPAN_IPV6_HDR_LEN;
       bs \<leftarrow> mem_read (packetbuf_ptr s) (unat h) UIP_IPH_LEN;
       b \<leftarrow> mem_write (buffer_of buffer s) 0 bs;
       Some (Some (set_buffer buffer b s, h + of_nat UIP_IPH_LEN, of_nat UIP_IPH_LEN))
     }
     else Some None
   }"

text \<open>From \<open>copypayload\<close> on; \<open>ctx\<close> is the reassembly context of a fragment.\<close>

definition copypayload ::
  "lowpan_buffer option \<Rightarrow> nat option \<Rightarrow> bool \<Rightarrow> bool \<Rightarrow> u16 \<Rightarrow> u8 \<Rightarrow> u8 \<Rightarrow> u8 \<Rightarrow> lowpan_state \<Rightarrow> lowpan_state option" where
  "copypayload buffer ctx first_fragment last_fragment frag_size frag_offset hdr_len uncomp s =
     (if packetbuf_datalen (lp_mac s) < ucast hdr_len then Some s
      else let payload_len = uint (packetbuf_datalen (lp_mac s)) - uint hdr_len;
               req_size = uint uncomp + uint (push_bit 3 (ucast frag_offset) :: u16) + payload_len
           in if req_size > int UIP_BUFSIZE then Some s
              else do {
                s1 \<leftarrow> (case buffer of
                         None \<Rightarrow> Some s
                       | Some bf \<Rightarrow> do {
                           bs \<leftarrow> mem_read (packetbuf_ptr s) (unat hdr_len) (nat payload_len);
                           b \<leftarrow> mem_write (buffer_of bf s) (unat uncomp) bs;
                           Some (set_buffer bf b s)
                         });
                s2 \<leftarrow> (case ctx of
                         Some c \<Rightarrow>
                           if frag_size > 0
                           then let s' = (if first_fragment
                                          then mod_info c (\<lambda>x. x\<lparr>fi_reassembled_len := of_int (uint uncomp + payload_len),
                                                 fi_first_frag_len := of_int (uint uncomp + payload_len)\<rparr>) s1 else s1)
                                in if last_fragment
                                   then copy_frags2uip c (mod_info c (\<lambda>x. x\<lparr>fi_reassembled_len := frag_size\<rparr>) s')
                                   else Some s'
                           else Some s1
                       | None \<Rightarrow> Some s1);
                Some (if ctx = None \<or> last_fragment
                      then tcpip_deliver (s2\<lparr>uip_len := (if ctx \<noteq> None \<and> last_fragment then frag_size
                                                        else of_int (payload_len + uint uncomp))\<rparr>)
                      else s2)
              })"

definition lowpan_input :: "lowpan_state \<Rightarrow> lowpan_state option" where
  "lowpan_input s0 = do {
     let s = s0\<lparr>last_rssi := packetbuf_attr PACKETBUF_ATTR_RSSI (lp_mac s0)\<rparr>;
     let p = packetbuf_ptr s;
     d \<leftarrow> get16_at p 0;
     let kind = drop_bit 8 (d AND 0xf800);
     let frag_size = d AND 0x07ff;
     if kind = SICSLOWPAN_DISPATCH_FRAG1
     then do {
       tag \<leftarrow> get16_at p 2;
       (s1, ctx) \<leftarrow> add_fragment tag frag_size 0 SICSLOWPAN_FRAG1_HDR_LEN s;
       case ctx of
         None \<Rightarrow> Some s1
       | Some c \<Rightarrow> do {
           r \<leftarrow> uncompress_header (First_frag c) frag_size SICSLOWPAN_FRAG1_HDR_LEN s1;
           case r of
             None \<Rightarrow> Some s1
           | Some (s2, h, n) \<Rightarrow> copypayload (Some (First_frag c)) (Some c) True False frag_size 0 h n s2
         }
     }
     else if kind = SICSLOWPAN_DISPATCH_FRAGN
     then do {
       offset \<leftarrow> rd p 4;
       tag \<leftarrow> get16_at p 2;
       (s1, ctx) \<leftarrow> add_fragment tag frag_size offset SICSLOWPAN_FRAGN_HDR_LEN s;
       case ctx of
         None \<Rightarrow> Some s1
       | Some c \<Rightarrow> copypayload None (Some c) False (fi_reassembled_len (frag_info s1 c) \<ge> frag_size) frag_size offset
                     SICSLOWPAN_FRAGN_HDR_LEN 0 s1
     }
     else do {
       r \<leftarrow> uncompress_header Uip_buf 0 0 s;
       case r of
         None \<Rightarrow> Some s
       | Some (s2, h, n) \<Rightarrow> copypayload (Some Uip_buf) None False False 0 0 h n s2
     }
   }"

subsection \<open>Sending\<close>

text \<open>\<open>send_packet\<close> and \<open>send\<close> of \<open>core/net/llsec/nullsec.c\<close> below it.\<close>

definition lowpan_send_packet :: "linkaddr \<Rightarrow> lowpan_state \<Rightarrow> lowpan_state option" where
  "lowpan_send_packet dest s = do {
     let m = packetbuf_set_attr PACKETBUF_ATTR_FRAME_TYPE FRAME802154_DATAFRAME
               (packetbuf_set_addr PACKETBUF_ADDR_RECEIVER dest (lp_mac s));
     m1 \<leftarrow> send_packet (Some Sicslowpan_packet_sent) None m;
     Some (s\<lparr>lp_mac := m1, lp_sent := lp_sent s @ [pb_frame m]\<rparr>)
   }"

text \<open>A write to the packet buffer at an offset from \<open>packetbuf_ptr\<close>.\<close>

definition pb_write :: "nat \<Rightarrow> u8 list \<Rightarrow> csma_state \<Rightarrow> csma_state option" where
  "pb_write i bs m = do { b \<leftarrow> mem_write (packetbuf m) (packetbuf_dataptr m + i) bs; Some (m\<lparr>packetbuf := b\<rparr>) }"

text \<open>\<open>payload_len\<close> bytes of the packet from offset \<open>from\<close> are copied behind the header, and the frame is sent from
  a copy, which is loaded again. The result is whether the following fragments are sent.\<close>

definition send_fragment :: "linkaddr \<Rightarrow> nat \<Rightarrow> u8 \<Rightarrow> int \<Rightarrow> lowpan_state \<Rightarrow> (lowpan_state \<times> bool) option" where
  "send_fragment dest from hdr_len payload_len s = do {
     bs \<leftarrow> (if payload_len < 0 then None else mem_read (uip_buf s) from (nat payload_len));
     m1 \<leftarrow> pb_write (unat hdr_len) bs (lp_mac s);
     (m2, q) \<leftarrow> queuebuf_new_from_packetbuf (packetbuf_set_datalen (of_int (payload_len + uint hdr_len)) m1);
     case q of
       None \<Rightarrow> Some (s\<lparr>lp_mac := m2\<rparr>, False)
     | Some _ \<Rightarrow> do {
         s1 \<leftarrow> lowpan_send_packet dest (s\<lparr>lp_mac := m2\<rparr>);
         m3 \<leftarrow> queuebuf_to_packetbuf q (lp_mac s1);
         let m4 = queuebuf_free q m3;
         Some (s1\<lparr>lp_mac := m4\<rparr>, \<not> (last_tx_status m4 = MAC_TX_COLLISION \<or> last_tx_status m4 = MAC_TX_ERR \<or>
                                        last_tx_status m4 = MAC_TX_ERR_FATAL))
       }
   }"

text \<open>The loop over the following fragments, with fuel: \<open>processed\<close> bytes have been sent. The result is the
  value \<open>output\<close> returns.\<close>

fun fragment_loop :: "nat \<Rightarrow> linkaddr \<Rightarrow> u16 \<Rightarrow> int \<Rightarrow> lowpan_state \<Rightarrow> (lowpan_state \<times> bool) option" where
  "fragment_loop 0 dest processed payload_len s = None"
| "fragment_loop (Suc fuel) dest processed payload_len s =
     (if processed < uip_len s
      then do {
        m \<leftarrow> pb_write 4 [ucast (drop_bit 3 processed)] (lp_mac s);
        let n = (if uint (uip_len s) - uint processed < payload_len then uint (uip_len s) - uint processed else payload_len);
        (s1, ok) \<leftarrow> send_fragment dest (unat processed) SICSLOWPAN_FRAGN_HDR_LEN n (s\<lparr>lp_mac := m\<rparr>);
        if ok then fragment_loop fuel dest (processed + of_int n) n s1 else Some (s1, False)
      }
      else Some (s, True))"

text \<open>A packet too large for a frame: \<open>hdr_len\<close> bytes of compressed header, which stands for \<open>uncomp\<close> bytes, are in the
  packet buffer.\<close>

definition output_fragments :: "linkaddr \<Rightarrow> int \<Rightarrow> u8 \<Rightarrow> u8 \<Rightarrow> lowpan_state \<Rightarrow> (lowpan_state \<times> bool) option" where
  "output_fragments dest max_payload hdr_len uncomp s =
     (let estimated = uint (uip_len s) div (max_payload - uint SICSLOWPAN_FRAGN_HDR_LEN) + 1;
          freebuf = int (queuebuf_numfree (lp_mac s)) - 1
      in if freebuf < estimated then Some (s, False)
         else do {
           let m0 = (lp_mac s)\<lparr>last_tx_status := MAC_TX_OK\<rparr>;
           hdr \<leftarrow> mem_read (packetbuf_ptr s) 0 (unat hdr_len);
           m1 \<leftarrow> pb_write (unat SICSLOWPAN_FRAG1_HDR_LEN) hdr m0;
           m2 \<leftarrow> pb_write 0 (set16 (push_bit 8 SICSLOWPAN_DISPATCH_FRAG1 OR uip_len s)) m1;
           let frag_tag = my_tag s;
           m3 \<leftarrow> pb_write 2 (set16 frag_tag) m2;
           let h = hdr_len + SICSLOWPAN_FRAG1_HDR_LEN;
           let payload_len = (max_payload - uint h) div 8 * 8;
           (s1, ok) \<leftarrow> send_fragment dest (unat uncomp) h payload_len (s\<lparr>lp_mac := m3, my_tag := frag_tag + 1\<rparr>);
           if \<not> ok then Some (s1, False)
           else do {
             m4 \<leftarrow> pb_write 0 (set16 (push_bit 8 SICSLOWPAN_DISPATCH_FRAGN OR uip_len s1)) (lp_mac s1);
             fragment_loop (unat (uip_len s1) + 1) dest (of_int (payload_len + uint uncomp))
               ((max_payload - uint SICSLOWPAN_FRAGN_HDR_LEN) div 8 * 8) (s1\<lparr>lp_mac := m4\<rparr>)
           }
         })"

definition lowpan_output :: "linkaddr option \<Rightarrow> lowpan_state \<Rightarrow> (lowpan_state \<times> bool) option" where
  "lowpan_output localdest s0 = do {
     let s = s0\<lparr>lp_mac := packetbuf_clear (lp_mac s0)\<rparr>;
     let dest = (case localdest of None \<Rightarrow> linkaddr_null | Some a \<Rightarrow> a);
     let (hdr, uncomp) = compress_hdr_iphc (lp_contexts s) (uip_lladdr (mac_node (lp_mac s))) dest (uip_buf s);
     m1 \<leftarrow> pb_write 0 hdr (lp_mac s);
     (f, m2, n) \<leftarrow> hdr_length (lp_framer s) (packetbuf_set_addr PACKETBUF_ADDR_RECEIVER dest m1);
     let max_payload = MAC_MAX_PAYLOAD - (if n < 0 then 21 else n);
     let hdr_len = (of_nat (length hdr) :: u8);
     let s1 = s\<lparr>lp_mac := m2, lp_framer := f\<rparr>;
     if uint (uip_len s1) - uint uncomp > max_payload - uint hdr_len
     then output_fragments dest max_payload hdr_len uncomp s1
     else do {
       let k = uint (uip_len s1) - uint uncomp;
       bs \<leftarrow> (if k < 0 then None else mem_read (uip_buf s1) (unat uncomp) (nat k));
       m3 \<leftarrow> pb_write (unat hdr_len) bs m2;
       s2 \<leftarrow> lowpan_send_packet dest (s1\<lparr>lp_mac := packetbuf_set_datalen (of_int (k + uint hdr_len)) m3\<rparr>);
       Some (s2, True)
     }
   }"

text \<open>The state after power-on: the static variables are zero. \<open>sicslowpan_init\<close> sets up the contexts.\<close>

definition lowpan_power_on :: "csma_state \<Rightarrow> framer_state \<Rightarrow> lowpan_state" where
  "lowpan_power_on m f = \<lparr>lp_mac = m, lp_framer = f, lp_contexts = [], my_tag = 0,
     frag_info = (\<lambda>_. \<lparr>fi_sender = linkaddr_null, fi_receiver = linkaddr_null, fi_tag = 0, fi_len = 0, fi_reassembled_len = 0,
       fi_timer = \<lparr>timer_start = 0, timer_interval = 0\<rparr>, fi_first_frag_len = 0,
       fi_first_frag = replicate SICSLOWPAN_FIRST_FRAGMENT_SIZE 0\<rparr>),
     frag_buf = (\<lambda>_. \<lparr>fb_index = 0, fb_offset = 0, fb_len = 0, fb_data = replicate SICSLOWPAN_FRAGMENT_SIZE 0\<rparr>),
     uip_buf = replicate UIP_BUFSIZE 0, uip_len = 0, clock_time = 0, last_rssi = 0, lp_sent = [], lp_delivered = []\<rparr>"

definition sicslowpan_init :: "lowpan_state \<Rightarrow> lowpan_state" where
  "sicslowpan_init s = s\<lparr>lp_contexts := init_addr_contexts\<rparr>"

definition compress_hdr_ipv6 :: "lowpan_state \<Rightarrow> (lowpan_state \<times> u8 \<times> u8) option" where
  "compress_hdr_ipv6 s = do {
     m1 \<leftarrow> pb_write 0 [SICSLOWPAN_DISPATCH_IPV6] (lp_mac s);
     bs \<leftarrow> mem_read (uip_buf s) 0 UIP_IPH_LEN;
     m2 \<leftarrow> pb_write 1 bs m1;
     Some (s\<lparr>lp_mac := m2\<rparr>, SICSLOWPAN_IPV6_HDR_LEN + of_nat UIP_IPH_LEN, of_nat UIP_IPH_LEN)
   }"

end
