(* ===== verification/LowpanMac.thy ===== *)
theory LowpanMac
  imports Sicslowpan CsmaProps
begin

text \<open>
  What the adaptation layer relies on in CSMA: a request to send is accepted while there is room, and a queue buffer
  that the caller holds for itself stays as it is.
\<close>

unbundle bit_operations_syntax

text \<open>A queue buffer in use that no queued packet owns.\<close>

definition spare :: "nat \<Rightarrow> csma_state \<Rightarrow> bool" where
  "spare b s \<longleftrightarrow> b \<in> memb_used (bufmem s) \<and> (\<forall>q \<in> queued s. rb_buf (packets s q) \<noteq> Some b)"

text \<open>Room for one more packet to a neighbour.\<close>

definition mac_room :: "linkaddr \<Rightarrow> nat \<Rightarrow> csma_state \<Rightarrow> bool" where
  "mac_room a k s \<longleftrightarrow> ((\<exists>n \<in> set (neighbor_list s). nq_addr (neighbors s n) = a) \<or> length (neighbor_list s) < CSMA_MAX_NEIGHBOR_QUEUES) \<and>
     card (queued s) + k \<le> QUEUEBUF_NUM \<and> card (memb_used (bufmem s)) + k \<le> QUEUEBUF_NUM"

lemma qb_frame_cong: "qb_ram s' = qb_ram s \<Longrightarrow> qb_ram_ptr s' = qb_ram_ptr s \<Longrightarrow> qb_frame s' b = qb_frame s b"
  by (simp add: qb_frame_def)

lemma queuebuf_new_status:
  "queuebuf_new_from_packetbuf (s :: csma_state) = Some (s', p) \<Longrightarrow> last_tx_status s' = last_tx_status s"
  by (auto simp: queuebuf_new_from_packetbuf_def split: prod.splits option.splits elim!: bind_SomeE)

lemma alloc_packet_bufs:
  assumes w: "qb_wf s" "pb_wf s" and a: "alloc_packet sent p s = Some (s', a)"
  shows "memb_used (bufmem s) \<subseteq> memb_used (bufmem s') \<and> card (memb_used (bufmem s')) \<le> card (memb_used (bufmem s)) + 1 \<and>
    (\<forall>c \<in> memb_used (bufmem s). qb_frame s' c = qb_frame s c \<and>
       (\<forall>x. rb_buf (packets s' x) = Some c \<longrightarrow> rb_buf (packets s x) = Some c \<and> a \<noteq> Some x)) \<and> last_tx_status s' = last_tx_status s \<and>
    (a = None \<longrightarrow> bufmem s' = bufmem s)"
proof -
  have fin: "finite (memb_used (bufmem s))" by (rule finite_memb)
  obtain pm q where pm: "memb_alloc (packet_memb s) = (pm, q)" by fastforce
  show ?thesis
  proof (cases q)
    case None
    then have "s' = s\<lparr>packet_memb := pm\<rparr>" "a = None" using a by (simp_all add: alloc_packet_def pm)
    then show ?thesis by (simp add: qb_frame_def)
  next
    case (Some q')
    obtain mm m where mm: "memb_alloc (metadata_memb s) = (mm, m)" by fastforce
    show ?thesis
    proof (cases m)
      case None
      then have "s' = s\<lparr>packet_memb := fst (memb_free pm q'), metadata_memb := mm,
          packets := (packets s)(q' := (packets s q')\<lparr>rb_ptr := None\<rparr>)\<rparr>" "a = None"
        using a Some by (simp_all add: alloc_packet_def pm mm)
      then show ?thesis by (simp add: qb_frame_def)
    next
      case (Some m')
      define s0 where "s0 = s\<lparr>packet_memb := pm, metadata_memb := mm\<rparr>"
      have s0: "qb_wf s0" "pb_wf s0" "bufmem s0 = bufmem s" "\<And>b. qb_frame s0 b = qb_frame s b" "packets s0 = packets s"
        "last_tx_status s0 = last_tx_status s"
        using w by (simp_all add: s0_def qb_wf_def pb_wf_def qb_frame_def)
      from new_queuebuf [OF s0(1,2)] obtain s1 b where s1: "queuebuf_new_from_packetbuf s0 = Some (s1, b)"
          "case b of None \<Rightarrow> s1 = s0 | Some b \<Rightarrow> memb_used (bufmem s1) = insert b (memb_used (bufmem s0)) \<and>
            b \<notin> memb_used (bufmem s0) \<and> qb_frame s1 b = pb_frame s0 \<and> (\<forall>c \<in> memb_used (bufmem s0). qb_frame s1 c = qb_frame s0 c)"
        by blast
      note sel = queuebuf_new_sel [OF s1(1)] queuebuf_new_status [OF s1(1)]
      show ?thesis
      proof (cases b)
        case None
        with s1(2) have "s1 = s0" by simp
        then show ?thesis using a None s1(1) \<open>q = Some q'\<close> \<open>m = Some m'\<close> s0
          by (auto simp: alloc_packet_def pm mm s0_def [symmetric] Let_def qb_frame_def split: if_splits)
      next
        case (Some b')
        then have b': "memb_used (bufmem s1) = insert b' (memb_used (bufmem s))" "b' \<notin> memb_used (bufmem s)"
          "\<And>c. c \<in> memb_used (bufmem s) \<Longrightarrow> qb_frame s1 c = qb_frame s c" using s1(2) s0 by simp_all
        have card: "card (memb_used (bufmem s1)) = card (memb_used (bufmem s)) + 1" using b'(1, 2) fin by simp
        define s2 where "s2 = s1\<lparr>packets := (packets s1)(q' := (packets s1 q')\<lparr>rb_ptr := Some m', rb_buf := Some b'\<rparr>)\<rparr>"
        define mt where "mt = (let attr = packetbuf_attr PACKETBUF_ATTR_MAX_MAC_TRANSMISSIONS s2
            in if attr = 0 then CSMA_MAX_MAX_FRAME_RETRIES + 1 else ucast attr)"
        define t where "t = s2\<lparr>metadata := (metadata s2)(m' := \<lparr>md_sent = sent, md_cptr = p, md_max_transmissions = mt\<rparr>),
            packets := (packets s2)(q' := (packets s2 q')\<lparr>rb_radio := of_int (sending_in_LR (mac_node s2))\<rparr>)\<rparr>"
        have "alloc_packet sent p s = Some (t, Some q')"
          using s1(1) \<open>q = Some q'\<close> \<open>m = Some m'\<close> unfolding Some
          by (simp add: alloc_packet_def pm mm s0_def [symmetric] Let_def s2_def t_def mt_def)
        then have e: "s' = t" "a = Some q'" using a by simp_all
        have "packets s1 = packets s" using sel s0(5) by simp
        then have f: "bufmem t = bufmem s1" "rb_buf (packets t q') = Some b'" "x \<noteq> q' \<Longrightarrow> packets t x = packets s x"
          "qb_frame t c = qb_frame s1 c" "last_tx_status t = last_tx_status s" for x c
          using sel s0(6) by (simp_all add: t_def s2_def qb_frame_def)
        have "rb_buf (packets s x) = Some c \<and> a \<noteq> Some x"
          if "c \<in> memb_used (bufmem s)" "rb_buf (packets t x) = Some c" for c x
          using that b'(2) f(2) f(3) [of x] e(2) by (cases "x = q'") auto
        then show ?thesis using b' card f by (simp add: e subset_insertI)
      qed
    qed
  qed
qed

lemma next_seqno_bufs:
  "qb_ram (next_seqno s) = qb_ram s" "qb_ram_ptr (next_seqno s) = qb_ram_ptr s" "packets (next_seqno s) = packets s"
  "last_tx_status (next_seqno s) = last_tx_status s" "neighbors (next_seqno s) = neighbors s"
  by (auto simp: next_seqno_def Let_def packetbuf_set_attr_def mac_rand_def case_prod_beta)

lemma get_queue_bufs:
  assumes "get_queue s = (s', n)"
  shows "qb_ram s' = qb_ram s" "qb_ram_ptr s' = qb_ram_ptr s" "packets s' = packets s" "last_tx_status s' = last_tx_status s"
    "bufmem s' = bufmem s" "packetbuf_addrs s' = packetbuf_addrs s"
  using assms by (auto simp: get_queue_def Let_def mod_queue_def split: option.splits prod.splits)

lemma get_queue_room:
  assumes w: "csma_wf s" and r: "mac_room (packetbuf_addr PACKETBUF_ADDR_RECEIVER s) k s" and g: "get_queue s = (s', n)"
  shows "n \<noteq> None"
proof
  assume "n = None"
  with g have "length (neighbor_list s) = CSMA_MAX_NEIGHBOR_QUEUES"
    "neighbor_queue_from_addr (packetbuf_addr PACKETBUF_ADDR_RECEIVER s) s = None"
    using get_queue_None [OF w] by (auto simp: get_queue_def Let_def split: option.splits prod.splits)
  with r show False by (auto simp: mac_room_def neighbor_queue_from_addr_def find_None_iff)
qed

lemma schedule_bufs: "bufmem (schedule_transmission n s) = bufmem s" "packets (schedule_transmission n s) = packets s"
  "last_tx_status (schedule_transmission n s) = last_tx_status s"
  "queued (schedule_transmission n s) = queued s" "neighbor_list (schedule_transmission n s) = neighbor_list s"
  "nq_addr (neighbors (schedule_transmission n s) k) = nq_addr (neighbors s k)"
proof -
  note q = quiet_schedule [of s n]
  show "queued (schedule_transmission n s) = queued s" by (rule quiet_queued [OF q])
  show "bufmem (schedule_transmission n s) = bufmem s" "packets (schedule_transmission n s) = packets s"
    "neighbor_list (schedule_transmission n s) = neighbor_list s"
    "nq_addr (neighbors (schedule_transmission n s) k) = nq_addr (neighbors s k)"
    using q by (simp_all add: quiet_def core_same_def)
  show "last_tx_status (schedule_transmission n s) = last_tx_status s"
    by (simp add: schedule_transmission_def Let_def mod_queue_def mac_rand_def case_prod_beta split: if_splits)
qed

text \<open>A request to send while there is room: the frame is queued and the state of the adaptation layer's own
  queue buffer and of the last outcome do not change.\<close>

lemma send_room:
  assumes w: "csma_wf s" and r: "mac_room a (Suc k) s" and a: "packetbuf_addr PACKETBUF_ADDR_RECEIVER s = a"
  shows "\<exists>s'. send_packet sent p s = Some s' \<and> csma_wf s' \<and> last_tx_status s' = last_tx_status s \<and>
     (\<exists>n \<in> set (neighbor_list s'). nq_addr (neighbors s' n) = a) \<and> card (queued s') \<le> card (queued s) + 1 \<and>
     card (memb_used (bufmem s')) \<le> card (memb_used (bufmem s)) + 1 \<and> node_kept s s' \<and>
     (\<forall>b. spare b s \<longrightarrow> spare b s' \<and> qb_frame s' b = qb_frame s b)"
proof -
  define s0 where "s0 = next_seqno s"
  have w0: "csma_wf s0" unfolding s0_def by (rule quiet_wf [OF quiet_next_seqno w])
  have f0: "bufmem s0 = bufmem s" "neighbor_list s0 = neighbor_list s" "queued s0 = queued s" "qb_ram s0 = qb_ram s"
    "qb_ram_ptr s0 = qb_ram_ptr s" "packets s0 = packets s" "last_tx_status s0 = last_tx_status s" "neighbors s0 = neighbors s"
    "packetbuf_addr PACKETBUF_ADDR_RECEIVER s0 = a"
    using next_seqno_more [where s = s] next_seqno_bufs [of s] a by (simp_all add: s0_def)
  have r0: "mac_room a (Suc k) s0" using r by (simp add: mac_room_def f0)
  obtain s1 n where g: "get_queue s0 = (s1, Some n)"
    using get_queue_room [OF w0 r0 [folded f0(9)]] by (cases "get_queue s0") auto
  note G = get_queue_Some [OF w0 g] and M = get_queue_more [OF w0 g] and B = get_queue_bufs [OF g]
  have len: "length (nq_packets (neighbors s1 n)) < CSMA_MAX_PACKET_PER_NEIGHBOR"
    using queued_full [OF G(1)] G(2) f0(3) r by (auto simp: mac_room_def)
  from enqueue_cases [OF G(1) len, of False sent p] obtain s2 q where al: "alloc_packet sent p s1 = Some (s2, q)"
    and c: "case q of
     Some q \<Rightarrow>
       (let s3 = mod_queue n (\<lambda>x. x\<lparr>nq_packets := nq_packets x @ [q]\<rparr>) s2;
            s' = (if first_of (nq_packets (neighbors s3 n)) = Some q then schedule_transmission n s3 else s3)
        in csma_wf s' \<and> node_kept s1 s' \<and> neighbor_list s' = neighbor_list s1 \<and>
           nq_addr (neighbors s' n) = nq_addr (neighbors s1 n) \<and> queued s' = insert q (queued s1))
   | None \<Rightarrow> card (queued s1) = QUEUEBUF_NUM \<or> card (memb_used (bufmem s1)) = QUEUEBUF_NUM"
    by (fastforce simp: Let_def split: option.splits)
  have w1: "qb_wf s1" "pb_wf s1" using G(1) by (simp_all add: open_queue_def)
  note A = alloc_packet_bufs [OF w1 al]
  have qs: "queued s1 = queued s" "bufmem s1 = bufmem s" using G(2) f0 B by simp_all
  obtain q' where q: "q = Some q'"
    using c qs r by (cases q) (auto simp: mac_room_def)
  define s3 where "s3 = mod_queue n (\<lambda>x. x\<lparr>nq_packets := nq_packets x @ [q']\<rparr>) s2"
  define s' where "s' = (if first_of (nq_packets (neighbors s3 n)) = Some q' then schedule_transmission n s3 else s3)"
  have C: "csma_wf s'" "node_kept s1 s'" "neighbor_list s' = neighbor_list s1" "nq_addr (neighbors s' n) = nq_addr (neighbors s1 n)"
    "queued s' = insert q' (queued s1)"
    using c unfolding q option.case Let_def s3_def [symmetric] s'_def [symmetric] by blast+
  have e: "send_packet sent p s = Some s'"
    using g len al q unfolding s'_def s3_def by (simp add: send_packet_def s0_def [symmetric] Let_def)
  have b3: "bufmem s3 = bufmem s2" "packets s3 = packets s2" "last_tx_status s3 = last_tx_status s2" "qb_frame s3 b = qb_frame s2 b" for b
    by (simp_all add: s3_def mod_queue_def qb_frame_def)
  have fr: "bufmem s' = bufmem s2" "packets s' = packets s2" "last_tx_status s' = last_tx_status s2" "qb_frame s' b = qb_frame s2 b" for b
    using b3 schedule_bufs [of n s3] schedule_fields(7,8) [of n s3] by (simp_all add: s'_def qb_frame_def)
  have nl: "n \<in> set (neighbor_list s')" "nq_addr (neighbors s' n) = a"
    using C(3, 4) M(1) G(4) f0(9) by simp_all
  have "card (queued s') \<le> card (queued s) + 1"
    unfolding C(5) qs(1) by (simp add: card_insert_le_m1 card_insert_if)
  moreover have "\<exists>n \<in> set (neighbor_list s'). nq_addr (neighbors s' n) = a" using nl by blast
  moreover have "card (memb_used (bufmem s')) \<le> card (memb_used (bufmem s)) + 1" using A qs fr(1) by simp
  moreover have "spare b s' \<and> qb_frame s' b = qb_frame s b" if b: "spare b s" for b
  proof -
    have u: "b \<in> memb_used (bufmem s1)" using b qs by (simp add: spare_def)
    have "qb_frame s' b = qb_frame s b" using A u fr(4) B f0 by (simp add: qb_frame_def)
    moreover have "rb_buf (packets s' x) \<noteq> Some b" if "x \<in> queued s'" for x
    proof
      assume x: "rb_buf (packets s' x) = Some b"
      then have "rb_buf (packets s1 x) = Some b" "q \<noteq> Some x" using A u fr(2) by auto
      with that C(5) qs q b show False by (auto simp: spare_def B f0)
    qed
    ultimately show ?thesis using A u fr(1) by (auto simp: spare_def)
  qed
  moreover have "node_kept s s'"
    using node_kept_next_seqno [of s] C(2) M(2) by (auto simp: s0_def node_kept_def)
  moreover have "last_tx_status s' = last_tx_status s" using A fr(3) B f0 by simp
  ultimately show ?thesis using e C(1) by blast
qed

subsection \<open>A frame sent from a copy\<close>

lemma csma_wf_cong:
  assumes "csma_wf s" "qb_wf s'" "pb_wf s'" "neighbor_memb s' = neighbor_memb s" "packet_memb s' = packet_memb s"
    "metadata_memb s' = metadata_memb s" "neighbor_list s' = neighbor_list s" "neighbors s' = neighbors s" "packets s' = packets s"
    "(\<lambda>q. the (rb_buf (packets s q))) ` queued s \<subseteq> memb_used (bufmem s')"
  shows "csma_wf s'" "queued s' = queued s"
proof -
  show q: "queued s' = queued s" using assms by (simp add: queued_def)
  show "csma_wf s'" using assms unfolding csma_wf_def csma_core_def q by simp
qed

lemma copy_packet:
  assumes w: "csma_wf m" and c: "card (memb_used (bufmem m)) < QUEUEBUF_NUM"
  shows "\<exists>m2 b. queuebuf_new_from_packetbuf m = Some (m2, Some b) \<and> csma_wf m2 \<and> spare b m2 \<and> qb_frame m2 b = pb_frame m \<and>
     queued m2 = queued m \<and> card (memb_used (bufmem m2)) = card (memb_used (bufmem m)) + 1 \<and> neighbor_list m2 = neighbor_list m \<and>
     neighbors m2 = neighbors m \<and> last_tx_status m2 = last_tx_status m \<and> mac_node m2 = mac_node m \<and> pb_frame m2 = pb_frame m"
proof -
  have q: "qb_wf m" "pb_wf m" using w by (simp_all add: csma_wf_def)
  from new_queuebuf [OF q] c obtain m2 b where m2: "queuebuf_new_from_packetbuf m = Some (m2, Some b)" "qb_wf m2" "pb_wf m2"
      "pb_frame m2 = pb_frame m" "memb_used (bufmem m2) = insert b (memb_used (bufmem m))" "b \<notin> memb_used (bufmem m)"
      "qb_frame m2 b = pb_frame m" by (auto split: option.splits)
  note sel = queuebuf_new_sel [OF m2(1)] queuebuf_new_status [OF m2(1)]
  have own: "(\<lambda>q. the (rb_buf (packets m q))) ` queued m \<subseteq> memb_used (bufmem m)"
    "\<forall>q \<in> queued m. rb_buf (packets m q) \<noteq> None" using w by (simp_all add: csma_wf_def csma_core_def)
  have "(\<lambda>q. the (rb_buf (packets m q))) ` queued m \<subseteq> memb_used (bufmem m2)" using own(1) m2(5) by auto
  then have r: "csma_wf m2" "queued m2 = queued m" using csma_wf_cong [OF w m2(2, 3)] sel by simp_all
  have "spare b m2"
    using m2(5, 6) own unfolding spare_def r(2) using sel by (fastforce simp: image_subset_iff)
  moreover have "card (memb_used (bufmem m2)) = card (memb_used (bufmem m)) + 1"
    using m2(5, 6) finite_memb(2) [of "bufmem m"] by simp
  ultimately show ?thesis using m2 r sel by blast
qed

lemma reload_packet:
  assumes w: "csma_wf m" and b: "spare b m"
  shows "\<exists>m3. queuebuf_to_packetbuf (Some b) m = Some m3 \<and> csma_wf (queuebuf_free (Some b) m3) \<and>
     hdrlen (queuebuf_free (Some b) m3) = 0 \<and> bufptr (queuebuf_free (Some b) m3) = 0 \<and>
     pb_frame (queuebuf_free (Some b) m3) = qb_frame m b \<and> queued (queuebuf_free (Some b) m3) = queued m \<and>
     card (memb_used (bufmem (queuebuf_free (Some b) m3))) + 1 = card (memb_used (bufmem m)) \<and>
     neighbor_list (queuebuf_free (Some b) m3) = neighbor_list m \<and> neighbors (queuebuf_free (Some b) m3) = neighbors m \<and>
     last_tx_status (queuebuf_free (Some b) m3) = last_tx_status m \<and> mac_node (queuebuf_free (Some b) m3) = mac_node m"
proof -
  have q: "qb_wf m" "pb_wf m" and bu: "b \<in> memb_used (bufmem m)" using w b by (simp_all add: csma_wf_def spare_def)
  from load_queuebuf [OF q bu] obtain m3 x l where m3: "queuebuf_to_packetbuf (Some b) m = Some m3" "qb_wf m3" "pb_wf m3"
      "pb_frame m3 = qb_frame m b" "bufmem m3 = bufmem m"
    and e: "m3 = m\<lparr>packetbuf := x, buflen := l, bufptr := 0, hdrlen := 0, packetbuf_attrs := fst (snd (qb_frame m b)),
        packetbuf_addrs := snd (snd (qb_frame m b))\<rparr>" by blast
  define m4 where "m4 = queuebuf_free (Some b) m3"
  have bu3: "b \<in> memb_used (bufmem m3)" using bu m3(5) by simp
  note F = free_queuebuf [OF m3(2) bu3, folded m4_def]
  have sel: "packetbuf m4 = packetbuf m3" "buflen m4 = buflen m3" "bufptr m4 = bufptr m3" "hdrlen m4 = hdrlen m3"
    "packetbuf_attrs m4 = packetbuf_attrs m3" "packetbuf_addrs m4 = packetbuf_addrs m3" "neighbors m4 = neighbors m3"
    "neighbor_list m4 = neighbor_list m3" "neighbor_memb m4 = neighbor_memb m3" "packet_memb m4 = packet_memb m3"
    "metadata_memb m4 = metadata_memb m3" "packets m4 = packets m3" "last_tx_status m4 = last_tx_status m3" "mac_node m4 = mac_node m3"
    by (auto simp: m4_def queuebuf_free_def split: option.splits)
  have pw: "pb_wf m4" "pb_frame m4 = qb_frame m b"
    using m3(3, 4) sel by (simp_all add: pb_wf_def pb_frame_def pb_header_def pb_payload_def)
  have own: "(\<lambda>q. the (rb_buf (packets m q))) ` queued m \<subseteq> memb_used (bufmem m)"
    "\<forall>q \<in> queued m. rb_buf (packets m q) \<noteq> None" using w by (simp_all add: csma_wf_def csma_core_def)
  have "(\<lambda>q. the (rb_buf (packets m q))) ` queued m \<subseteq> memb_used (bufmem m4)"
    using own b F m3(5) by (fastforce simp: spare_def image_subset_iff)
  then have "csma_wf m4" "queued m4 = queued m"
    using csma_wf_cong [OF w _ pw(1)] F sel e by simp_all
  moreover have "card (memb_used (bufmem m4)) + 1 = card (memb_used (bufmem m))"
  proof -
    have "0 < card (memb_used (bufmem m))" using bu finite_memb(2) [of "bufmem m"] by (auto simp: card_gt_0_iff)
    then show ?thesis using F m3(5) bu by simp
  qed
  ultimately show ?thesis using m3(1) sel e pw(2) unfolding m4_def by simp
qed

end
