(* ===== verification/LowpanOut.thy ===== *)
theory LowpanOut
  imports LowpanMac FrameRound
begin

text \<open>
  What \<open>output\<close> hands to the layer below: one frame, or fragments that cover the packet.
\<close>

unbundle bit_operations_syntax

subsection \<open>One fragment\<close>

lemma csma_wf_pb:
  assumes "csma_wf m" "pb_wf m'" "m' = m\<lparr>packetbuf := x, buflen := l, bufptr := p, hdrlen := h, packetbuf_attrs := a, packetbuf_addrs := r,
     last_tx_status := st\<rparr>"
  shows "csma_wf m'" "queued m' = queued m"
proof -
  have "qb_wf m" "(\<lambda>q. the (rb_buf (packets m q))) ` queued m \<subseteq> memb_used (bufmem m)"
    using assms(1) by (simp_all add: csma_wf_def csma_core_def)
  moreover from this(1) have "qb_wf m'" by (simp add: assms(3) qb_wf_def)
  ultimately show "csma_wf m'" "queued m' = queued m"
    using csma_wf_cong [OF assms(1) _ assms(2)] by (simp_all add: assms(3))
qed

text \<open>The packet buffer holds a frame without a header in front of its data.\<close>

definition flat :: "csma_state \<Rightarrow> bool" where
  "flat m \<longleftrightarrow> hdrlen m = 0 \<and> bufptr m = 0"

lemma flat_dataptr: "flat m \<Longrightarrow> packetbuf_dataptr m = 0"
  by (simp add: flat_def packetbuf_dataptr_def packetbuf_hdrlen_def)

lemma flat_frame: "flat m \<Longrightarrow> pb_frame m = (take (unat (buflen m)) (packetbuf m), packetbuf_attrs m, packetbuf_addrs m)"
  by (simp add: flat_def pb_frame_def pb_header_def pb_payload_def)

lemma pb_write_flat:
  assumes "flat m" "length (packetbuf m) = 128" "i + length bs \<le> 128"
  shows "pb_write i bs m = Some (m\<lparr>packetbuf := take i (packetbuf m) @ bs @ drop (i + length bs) (packetbuf m)\<rparr>)"
  using assms by (simp add: pb_write_def flat_dataptr mem_write_def)

text \<open>What the layers above have set up for one fragment and for the ones after it.\<close>

definition ready :: "linkaddr \<Rightarrow> nat \<Rightarrow> lowpan_state \<Rightarrow> bool" where
  "ready dest k s \<longleftrightarrow> csma_wf (lp_mac s) \<and> flat (lp_mac s) \<and> last_tx_status (lp_mac s) = MAC_TX_OK \<and>
     packetbuf_addr PACKETBUF_ADDR_RECEIVER (lp_mac s) = dest \<and>
     ((\<exists>n \<in> set (neighbor_list (lp_mac s)). nq_addr (neighbors (lp_mac s) n) = dest) \<or>
        length (neighbor_list (lp_mac s)) < CSMA_MAX_NEIGHBOR_QUEUES) \<and>
     card (queued (lp_mac s)) + k \<le> QUEUEBUF_NUM \<and> card (memb_used (bufmem (lp_mac s))) + k + 1 \<le> QUEUEBUF_NUM"

text \<open>The frame as it is handed to CSMA.\<close>

definition lowpan_frame :: "linkaddr \<Rightarrow> csma_state \<Rightarrow> u8 list \<Rightarrow> u8 list \<times> (pb_attr \<Rightarrow> u16) \<times> (pb_addr \<Rightarrow> linkaddr)" where
  "lowpan_frame dest m bs = (bs, (packetbuf_attrs m)(PACKETBUF_ATTR_FRAME_TYPE := FRAME802154_DATAFRAME),
     (packetbuf_addrs m)(PACKETBUF_ADDR_RECEIVER := dest))"

definition rest_same :: "lowpan_state \<Rightarrow> lowpan_state \<Rightarrow> bool" where
  "rest_same s s' \<longleftrightarrow> uip_buf s' = uip_buf s \<and> uip_len s' = uip_len s \<and> my_tag s' = my_tag s \<and> lp_framer s' = lp_framer s \<and>
     lp_contexts s' = lp_contexts s \<and> frag_info s' = frag_info s \<and> frag_buf s' = frag_buf s \<and> clock_time s' = clock_time s \<and>
     lp_delivered s' = lp_delivered s \<and> packetbuf_attrs (lp_mac s') = packetbuf_attrs (lp_mac s) \<and>
     packetbuf_addrs (lp_mac s') = packetbuf_addrs (lp_mac s)"

lemma send_fragment_ok:
  assumes r: "ready dest (Suc k) s" and b: "from + n \<le> length (uip_buf s)" "unat h + n \<le> 128"
  shows "\<exists>s'. send_fragment dest from h (int n) s = Some (s', True) \<and> ready dest k s' \<and> rest_same s s' \<and>
     take (unat h + n) (packetbuf (lp_mac s')) = take (unat h) (packetbuf (lp_mac s)) @ take n (drop from (uip_buf s)) \<and>
     lp_sent s' = lp_sent s @ [lowpan_frame dest (lp_mac s) (take (unat h) (packetbuf (lp_mac s)) @ take n (drop from (uip_buf s)))]"
proof -
  define m where "m = lp_mac s"
  have w: "csma_wf m" "flat m" "last_tx_status m = MAC_TX_OK" "packetbuf_addr PACKETBUF_ADDR_RECEIVER m = dest"
    "(\<exists>n \<in> set (neighbor_list m). nq_addr (neighbors m n) = dest) \<or> length (neighbor_list m) < CSMA_MAX_NEIGHBOR_QUEUES"
    "card (queued m) + Suc k \<le> QUEUEBUF_NUM" "card (memb_used (bufmem m)) + Suc k + 1 \<le> QUEUEBUF_NUM"
    using r by (simp_all add: ready_def m_def)
  have L: "length (packetbuf m) = 128" using w(1) by (simp add: csma_wf_def pb_wf_def PACKETBUF_SIZE_def)
  define bs where "bs = take n (drop from (uip_buf s))"
  have bs: "mem_read (uip_buf s) from n = Some bs" "length bs = n" using b(1) by (simp_all add: mem_read_def bs_def)
  define F where "F = take (unat h) (packetbuf m) @ bs"
  have F: "length F = unat h + n" using b(2) L bs(2) by (simp add: F_def)
  define m1 where "m1 = packetbuf_set_datalen (of_int (int n + uint h)) (m\<lparr>packetbuf := F @ drop (unat h + n) (packetbuf m)\<rparr>)"
  have wr: "pb_write (unat h) bs m = Some (m\<lparr>packetbuf := F @ drop (unat h + n) (packetbuf m)\<rparr>)"
    using pb_write_flat [OF w(2) L, of "unat h" bs] b(2) bs(2) by (simp add: F_def)
  have bl: "unat (of_int (int n + uint h) :: u16) = unat h + n"
  proof -
    have "int n + uint h = int (unat h + n)" by simp
    then have "(of_int (int n + uint h) :: u16) = of_nat (unat h + n)" by (simp only: of_int_of_nat_eq)
    then have "unat (of_int (int n + uint h) :: u16) = take_bit 16 (unat h + n)" by (simp only: unsigned_of_nat) simp
    then show ?thesis using b(2) by (simp add: take_bit_nat_eq_self_iff)
  qed
  have fl1: "flat m1" using w(2) by (simp add: m1_def flat_def packetbuf_set_datalen_def)
  have pb1: "pb_wf m1" using w(2) L b(2) F bl by (simp add: m1_def pb_wf_def flat_def packetbuf_set_datalen_def PACKETBUF_SIZE_def)
  have e1: "m1 = m\<lparr>packetbuf := F @ drop (unat h + n) (packetbuf m), buflen := of_int (int n + uint h), bufptr := bufptr m, hdrlen := hdrlen m,
     packetbuf_attrs := packetbuf_attrs m, packetbuf_addrs := packetbuf_addrs m, last_tx_status := last_tx_status m\<rparr>"
    by (simp add: m1_def packetbuf_set_datalen_def)
  note w1 = csma_wf_pb [OF w(1) pb1 e1]
  have fr1: "pb_frame m1 = (F, packetbuf_attrs m, packetbuf_addrs m)"
    using flat_frame [OF fl1] bl F by (simp add: m1_def packetbuf_set_datalen_def)
  have c1: "bufmem m1 = bufmem m" "neighbor_list m1 = neighbor_list m" "neighbors m1 = neighbors m" "last_tx_status m1 = last_tx_status m"
    by (simp_all add: e1)
  have "card (memb_used (bufmem m1)) < QUEUEBUF_NUM" using w(7) c1 by simp
  from copy_packet [OF w1(1) this] obtain m2 b where m2: "queuebuf_new_from_packetbuf m1 = Some (m2, Some b)" "csma_wf m2" "spare b m2"
    "qb_frame m2 b = pb_frame m1" "queued m2 = queued m1" "card (memb_used (bufmem m2)) = card (memb_used (bufmem m1)) + 1"
    "neighbor_list m2 = neighbor_list m1" "neighbors m2 = neighbors m1" "last_tx_status m2 = last_tx_status m1" "pb_frame m2 = pb_frame m1"
    by blast
  define m3 where "m3 = packetbuf_set_attr PACKETBUF_ATTR_FRAME_TYPE FRAME802154_DATAFRAME (packetbuf_set_addr PACKETBUF_ADDR_RECEIVER dest m2)"
  have e3: "m3 = m2\<lparr>packetbuf := packetbuf m2, buflen := buflen m2, bufptr := bufptr m2, hdrlen := hdrlen m2,
     packetbuf_attrs := (packetbuf_attrs m2)(PACKETBUF_ATTR_FRAME_TYPE := FRAME802154_DATAFRAME),
     packetbuf_addrs := (packetbuf_addrs m2)(PACKETBUF_ADDR_RECEIVER := dest), last_tx_status := last_tx_status m2\<rparr>"
    by (simp add: m3_def packetbuf_set_attr_def packetbuf_set_addr_def)
  have pb3: "pb_wf m3" using m2(2) by (simp add: e3 csma_wf_def pb_wf_def)
  note w3 = csma_wf_pb [OF m2(2) pb3 e3]
  have s3: "spare b m3" "qb_frame m3 b = qb_frame m2 b" using m2(3) unfolding spare_def w3(2) by (simp_all add: e3 qb_frame_def)
  have f3: "bufmem m3 = bufmem m2" "neighbor_list m3 = neighbor_list m2" "neighbors m3 = neighbors m2" "last_tx_status m3 = last_tx_status m2"
    "packetbuf_addr PACKETBUF_ADDR_RECEIVER m3 = dest" by (simp_all add: e3 packetbuf_addr_def)
  have fr3: "pb_frame m3 = lowpan_frame dest m F"
    using m2(10) fr1 by (simp add: e3 pb_frame_def pb_header_def pb_payload_def lowpan_frame_def)
  have "mac_room dest (Suc 0) m3"
    unfolding mac_room_def w3(2) f3 m2 c1 w1(2) using w(5, 6, 7) by simp
  from send_room [OF w3(1) this f3(5)] obtain m4 where m4: "send_packet (Some Sicslowpan_packet_sent) None m3 = Some m4" "csma_wf m4"
    "last_tx_status m4 = last_tx_status m3" "\<exists>n \<in> set (neighbor_list m4). nq_addr (neighbors m4 n) = dest"
    "card (queued m4) \<le> card (queued m3) + 1" "card (memb_used (bufmem m4)) \<le> card (memb_used (bufmem m3)) + 1"
    "spare b m4" "qb_frame m4 b = qb_frame m3 b" using s3(1) by blast
  from reload_packet [OF m4(2, 7)] obtain t where t: "queuebuf_to_packetbuf (Some b) m4 = Some t" and m5: "csma_wf (queuebuf_free (Some b) t)"
    "hdrlen (queuebuf_free (Some b) t) = 0" "bufptr (queuebuf_free (Some b) t) = 0"
    "pb_frame (queuebuf_free (Some b) t) = qb_frame m4 b" "queued (queuebuf_free (Some b) t) = queued m4"
    "card (memb_used (bufmem (queuebuf_free (Some b) t))) + 1 = card (memb_used (bufmem m4))"
    "neighbor_list (queuebuf_free (Some b) t) = neighbor_list m4" "neighbors (queuebuf_free (Some b) t) = neighbors m4"
    "last_tx_status (queuebuf_free (Some b) t) = last_tx_status m4" by blast
  define m5 where "m5 = queuebuf_free (Some b) t"
  note m5 = m5 [folded m5_def]
  define s' where "s' = s\<lparr>lp_mac := m5, lp_sent := lp_sent s @ [lowpan_frame dest m F]\<rparr>"
  have fl5: "flat m5" using m5 by (simp add: flat_def)
  have fr5: "pb_frame m5 = (F, packetbuf_attrs m, packetbuf_addrs m)" using m5(4) m4(8) s3(2) m2(4) fr1 by simp
  have st: "last_tx_status m5 = MAC_TX_OK" using m5(9) m4(3) f3(4) m2(9) c1(4) w(3) by simp
  have lps: "lowpan_send_packet dest (s\<lparr>lp_mac := m2\<rparr>) = Some (s\<lparr>lp_mac := m4, lp_sent := lp_sent s @ [lowpan_frame dest m F]\<rparr>)"
    using m4(1) fr3 by (simp add: lowpan_send_packet_def m3_def [symmetric])
  have "send_fragment dest from h (int n) s = Some (s', True)"
    using bs(1) wr m2(1) [unfolded m1_def] lps t st
    by (simp add: send_fragment_def m_def [symmetric] m5_def [symmetric] s'_def csma_consts MAC_TX_ERR_FATAL_def)
  moreover have "ready dest k s'"
    unfolding ready_def using m5 fl5 st w m4 w3(2) m2 w1(2) f3 c1 fr5
    by (auto simp: s'_def packetbuf_addr_def pb_frame_def)
  moreover have "rest_same s s'"
    using fr5 by (simp add: rest_same_def s'_def m_def pb_frame_def)
  moreover have "take (unat h + n) (packetbuf m5) = F"
  proof -
    have "F = take (unat (buflen m5)) (packetbuf m5)" using flat_frame [OF fl5] fr5 by simp
    then show ?thesis using F by (metis append_take_drop_id append_eq_conv_conj)
  qed
  ultimately show ?thesis by (intro exI [of _ s']) (simp add: s'_def F_def bs_def m_def)
qed

subsection \<open>The following fragments\<close>

lemma length_set16 [simp]: "length (set16 v) = 2"
  by (simp add: set16_def)

text \<open>The packet from offset \<open>off\<close> on in pieces of \<open>step\<close> bytes.\<close>

function pieces :: "nat \<Rightarrow> nat \<Rightarrow> 'a list \<Rightarrow> (nat \<times> 'a list) list" where
  "pieces step off u = (if step = 0 \<or> length u \<le> off then [] else (off, take step (drop off u)) # pieces step (off + step) u)"
  by auto
termination by (relation "measure (\<lambda>(step, off, u). length u - off)") auto

declare pieces.simps [simp del]

lemma pieces_end: "length u \<le> off \<Longrightarrow> pieces step off u = []"
  by (simp add: pieces.simps)

lemma pieces_step: "0 < step \<Longrightarrow> off < length u \<Longrightarrow> pieces step off u = (off, take step (drop off u)) # pieces step (off + step) u"
  by (subst pieces.simps) simp

lemma pieces_length: "0 < step \<Longrightarrow> length (pieces step off u) \<le> length u - off"
proof (induction step off u rule: pieces.induct)
  case (1 step off u)
  show ?case
  proof (cases "off < length u")
    case True
    then have "length (pieces step (off + step) u) \<le> length u - (off + step)" using 1 by simp
    then show ?thesis using True 1(2) by (simp add: pieces_step)
  qed (simp add: pieces_end)
qed

lemma ready_write:
  assumes "ready dest k s" "i + length bs \<le> 128"
  shows "\<exists>m. pb_write i bs (lp_mac s) = Some m \<and> ready dest k (s\<lparr>lp_mac := m\<rparr>) \<and>
     packetbuf m = take i (packetbuf (lp_mac s)) @ bs @ drop (i + length bs) (packetbuf (lp_mac s)) \<and> length (packetbuf (lp_mac s)) = 128 \<and>
     packetbuf_attrs m = packetbuf_attrs (lp_mac s) \<and> packetbuf_addrs m = packetbuf_addrs (lp_mac s)"
proof -
  define m where "m = lp_mac s"
  have w: "csma_wf m" "flat m" using assms(1) by (simp_all add: ready_def m_def)
  have L: "length (packetbuf m) = 128" using w(1) by (simp add: csma_wf_def pb_wf_def PACKETBUF_SIZE_def)
  define m' where "m' = m\<lparr>packetbuf := take i (packetbuf m) @ bs @ drop (i + length bs) (packetbuf m)\<rparr>"
  have e: "pb_write i bs m = Some m'" using pb_write_flat [OF w(2) L assms(2)] by (simp add: m'_def)
  have pw: "pb_wf m'" using w(1) L assms(2) by (simp add: m'_def csma_wf_def pb_wf_def PACKETBUF_SIZE_def)
  have "m' = m\<lparr>packetbuf := packetbuf m', buflen := buflen m, bufptr := bufptr m, hdrlen := hdrlen m,
     packetbuf_attrs := packetbuf_attrs m, packetbuf_addrs := packetbuf_addrs m, last_tx_status := last_tx_status m\<rparr>"
    by (simp add: m'_def)
  note w' = csma_wf_pb [OF w(1) pw this]
  have "ready dest k (s\<lparr>lp_mac := m'\<rparr>)"
    using assms(1) w' by (simp add: ready_def m_def [symmetric]) (simp add: m'_def flat_def packetbuf_addr_def)
  then show ?thesis using e L by (auto simp: m_def [symmetric] m'_def)
qed

definition later_frame :: "u16 \<Rightarrow> u16 \<Rightarrow> nat \<times> u8 list \<Rightarrow> u8 list" where
  "later_frame len tag x = set16 (push_bit 8 SICSLOWPAN_DISPATCH_FRAGN OR len) @ set16 tag @ [of_nat (fst x div 8)] @ snd x"

lemma fragment_loop_ok:
  assumes "ready dest (length (pieces step off u)) s" "length (pieces step off u) < fuel"
    and "take (length u) (uip_buf s) = u" "unat (uip_len s) = length u" "unat processed = off" "0 < step" "step + 5 \<le> 128"
    and "take 4 (packetbuf (lp_mac s)) = set16 (push_bit 8 SICSLOWPAN_DISPATCH_FRAGN OR uip_len s) @ set16 tag"
  shows "\<exists>s'. fragment_loop fuel dest processed (int step) s = Some (s', True) \<and> rest_same s s' \<and>
     ready dest 0 s' \<and>
     lp_sent s' = lp_sent s @ map (\<lambda>x. lowpan_frame dest (lp_mac s) (later_frame (uip_len s) tag x)) (pieces step off u)"
  using assms
proof (induction fuel arbitrary: s off processed)
  case 0
  then show ?case by simp
next
  case (Suc fuel)
  show ?case
  proof (cases "off < length u")
    case False
    then have "\<not> processed < uip_len s" using Suc.prems by (simp add: word_less_nat_alt)
    then show ?thesis using False Suc.prems(1) by (simp add: pieces_end rest_same_def)
  next
    case True
    define n where "n = min step (length u - off)"
    define H4 where "H4 = set16 (push_bit 8 SICSLOWPAN_DISPATCH_FRAGN OR uip_len s) @ set16 tag"
    have step: "0 < step" "step + 5 \<le> 128" by fact+
    have n: "0 < n" "n \<le> step" "off + n \<le> length u" using True step by (auto simp: n_def)
    have lu: "length u \<le> length (uip_buf s)" "length u < 65536"
      using arg_cong [OF Suc.prems(3), of length] Suc.prems(4) unat_u16_bound [of "uip_len s"] by simp_all
    have ps: "pieces step off u = (off, take step (drop off u)) # pieces step (off + step) u"
      by (rule pieces_step [OF step(1) True])
    define k where "k = length (pieces step (off + step) u)"
    have rd: "ready dest (Suc k) s" using Suc.prems(1) by (simp add: ps k_def)
    define b where "b = (ucast (drop_bit 3 processed) :: u8)"
    have b: "b = of_nat (off div 8)"
    proof -
      have "unat (drop_bit 3 processed) = off div 8" unfolding unat_drop_bit_eq Suc.prems(5) by (simp add: drop_bit_eq_div)
      then show ?thesis unfolding b_def using of_nat_unat [of "drop_bit 3 processed", where ?'a = u8] by simp
    qed
    from ready_write [OF rd, of 4 "[b]"] obtain m where m: "pb_write 4 [b] (lp_mac s) = Some m" "ready dest (Suc k) (s\<lparr>lp_mac := m\<rparr>)"
      "packetbuf m = take 4 (packetbuf (lp_mac s)) @ [b] @ drop 5 (packetbuf (lp_mac s))" "length (packetbuf (lp_mac s)) = 128"
      "packetbuf_attrs m = packetbuf_attrs (lp_mac s)" "packetbuf_addrs m = packetbuf_addrs (lp_mac s)" by auto
    define s0 where "s0 = s\<lparr>lp_mac := m\<rparr>"
    have t5: "take 5 (packetbuf m) = H4 @ [b]" using m(3, 4) Suc.prems(8) by (simp add: H4_def)
    have bytes: "take n (drop off (uip_buf s)) = take step (drop off u)"
    proof -
      have "take n (drop off (uip_buf s)) = take n (drop off (take (length u) (uip_buf s)))" using n(3) by (simp add: drop_take min_def)
      then show ?thesis unfolding Suc.prems(3) by (simp add: n_def min_def)
    qed
    have "off + n \<le> length (uip_buf s0)" "unat SICSLOWPAN_FRAGN_HDR_LEN + n \<le> 128"
      using n lu step by (simp_all add: s0_def SICSLOWPAN_FRAGN_HDR_LEN_def)
    from send_fragment_ok [OF m(2) [folded s0_def] this] obtain s1 where
      s1: "send_fragment dest off SICSLOWPAN_FRAGN_HDR_LEN (int n) s0 = Some (s1, True)" "ready dest k s1" "rest_same s0 s1"
        "take (5 + n) (packetbuf (lp_mac s1)) = (H4 @ [b]) @ take step (drop off u)"
        "lp_sent s1 = lp_sent s @ [lowpan_frame dest m ((H4 @ [b]) @ take step (drop off u))]"
      using t5 bytes by (auto simp: s0_def SICSLOWPAN_FRAGN_HDR_LEN_def)
    have rs: "rest_same s s1" using s1(3) m(5, 6) by (simp add: rest_same_def s0_def)
    have fr: "lowpan_frame dest m = lowpan_frame dest (lp_mac s)" "lowpan_frame dest (lp_mac s1) = lowpan_frame dest (lp_mac s)"
      using m(5, 6) rs by (simp_all add: fun_eq_iff lowpan_frame_def rest_same_def)
    have sent: "lp_sent s1 = lp_sent s @ [lowpan_frame dest (lp_mac s) (later_frame (uip_len s) tag (off, take step (drop off u)))]"
      using s1(5) b by (simp add: fr later_frame_def H4_def)
    have h4: "take 4 (packetbuf (lp_mac s1)) = H4"
    proof -
      have "take 4 (take (5 + n) (packetbuf (lp_mac s1))) = H4" unfolding s1(4) by (simp add: H4_def set16_def)
      then show ?thesis by (simp add: min_def)
    qed
    have lt: "processed < uip_len s" using True Suc.prems(4, 5) by (simp add: word_less_nat_alt)
    have nn: "(if uint (uip_len s) - uint processed < int step then uint (uip_len s) - uint processed else int step) = int n"
    proof -
      have "uint (uip_len s) = int (length u)" "uint processed = int off" using Suc.prems(4, 5) by (metis uint_nat)+
      then show ?thesis using True by (auto simp: n_def min_def of_nat_diff)
    qed
    have loop: "fragment_loop (Suc fuel) dest processed (int step) s = fragment_loop fuel dest (processed + of_int (int n)) (int n) s1"
      unfolding fragment_loop.simps nn b_def [symmetric] using lt m(1) s1(1) Suc.prems(5) by (simp add: s0_def)
    have pr: "unat (processed + of_int (int n)) = off + n"
      using Suc.prems(5) n(3) lu(2) by (simp add: unat_word_ariths unsigned_of_nat take_bit_eq_mod)
    show ?thesis
    proof (cases "n = step")
      case True
      have "\<exists>s'. fragment_loop fuel dest (processed + of_int (int n)) (int step) s1 = Some (s', True) \<and> rest_same s1 s' \<and> ready dest 0 s' \<and>
         lp_sent s' = lp_sent s1 @ map (\<lambda>x. lowpan_frame dest (lp_mac s1) (later_frame (uip_len s1) tag x)) (pieces step (off + step) u)"
        by (rule Suc.IH) (use s1(2) rs Suc.prems pr True step h4 ps in \<open>simp_all add: k_def rest_same_def H4_def\<close>)
      then show ?thesis using rs sent unfolding loop ps fr(2) by (auto simp: True rest_same_def fr)
    next
      case False
      then have "off + n = length u" "length u \<le> off + step" using n(1) by (auto simp: n_def)
      moreover obtain f where "fuel = Suc f" using Suc.prems(2) ps by (cases fuel) auto
      ultimately have "fragment_loop fuel dest (processed + of_int (int n)) (int n) s1 = Some (s1, True)"
        using pr Suc.prems(4) rs by (simp add: word_less_nat_alt rest_same_def)
      then show ?thesis using rs sent s1(2) \<open>length u \<le> off + step\<close> unfolding loop ps by (simp add: pieces_end k_def)
    qed
  qed
qed

subsection \<open>The whole packet\<close>

lemma compress_prefix:
  assumes "40 \<le> length u" "u ! 6 = UIP_PROTO_UDP \<Longrightarrow> 48 \<le> length u"
  shows "compress_hdr_iphc cs ll d (u @ r) = compress_hdr_iphc cs ll d u"
proof -
  have i: "i < 40 \<Longrightarrow> (u @ r) ! i = u ! i" for i using assms(1) by (simp add: nth_append)
  have j: "u ! 6 = UIP_PROTO_UDP \<Longrightarrow> i < 48 \<Longrightarrow> (u @ r) ! i = u ! i" for i using assms(2) by (simp add: nth_append)
  have sd: "ip_src (u @ r) = ip_src u" "ip_dest (u @ r) = ip_dest u" using assms(1) by (simp_all add: ip_src_def ip_dest_def)
  have "compress_src cs ll (u @ r) = compress_src cs ll u" "compress_dest cs d (u @ r) = compress_dest cs d u"
    unfolding compress_src_def compress_dest_def dest_mid_zero_def sd by (rule refl)+
  moreover have "compress_tcflow (u @ r) = compress_tcflow u" using i by (simp add: compress_tcflow_def Let_def)
  moreover have "u ! 6 = UIP_PROTO_UDP \<Longrightarrow> compress_udp (u @ r) = compress_udp u"
    using j by (simp add: compress_udp_def get16_def Let_def)
  ultimately show ?thesis
    by (cases "u ! 6 = UIP_PROTO_UDP") (simp_all add: compress_hdr_iphc_def i sd cong: if_cong)
qed

lemma hdr_length_result:
  assumes pan: "mac_pan_id f \<noteq> 0xffff" and ft: "packetbuf_attr PACKETBUF_ATTR_FRAME_TYPE m = 0"
    and a: "length (packetbuf_addr PACKETBUF_ADDR_SENDER m) = 8" "length (packetbuf_addr PACKETBUF_ADDR_RECEIVER m) = 8"
  shows "\<exists>f' nd. hdr_length f m = Some (f', m\<lparr>mac_node := nd\<rparr>, int (frame_hdrlen_of m)) \<and> mac_pan_id f' = mac_pan_id f \<and>
     node_kept m (m\<lparr>mac_node := nd\<rparr>) \<and> uip_lladdr nd = uip_lladdr (mac_node m)"
proof -
  obtain f1 m1 where 1: "(if framer_initialized f then (f, m)
       else (case mac_rand m of (r, t) \<Rightarrow> (f\<lparr>framer_initialized := True, mac_dsn := ucast (r AND 0xff)\<rparr>, t))) = (f1, m1)"
    by fastforce
  have s1: "m1 = m\<lparr>mac_node := mac_node m1\<rparr>" "mac_pan_id f1 = mac_pan_id f" "node_kept m m1" "uip_lladdr (mac_node m1) = uip_lladdr (mac_node m)"
    using 1 node_kept_rand [of m] random_rand_state [of "mac_node m"] by (auto simp: mac_rand_def split: if_splits prod.splits)
  have "frame_params pan q m1 = frame_params pan q m" for pan q
    by (subst s1(1)) (simp add: frame_params_def packetbuf_holds_broadcast_def packetbuf_addr_def packetbuf_attr_def packetbuf_datalen_def)
  moreover have "frame_modes (packetbuf_holds_broadcast m) (frame_params pan q m)" for pan q
    using ft a by (simp add: frame_modes_def frame_params_def frame802154_zero_def frame_consts)
  ultimately have "frame802154_hdrlen (frame_params pan q m1) = frame_hdrlen_of m" for pan q
    using header_form(2) by (simp add: frame_hdrlen_of_def)
  then have "hdr_length f m = Some (f1, m1, int (frame_hdrlen_of m))"
    using pan by (simp add: hdr_length_def create_frame_def 1 Let_def)
  then show ?thesis using s1 by (intro exI [of _ f1] exI [of _ "mac_node m1"]) simp
qed

text \<open>The frames for a packet: the largest payload of a frame, and the data of the frames.\<close>

definition lowpan_max :: "linkaddr \<Rightarrow> nat" where
  "lowpan_max dest = 125 - (if dest = linkaddr_null then 15 else 21)"

definition first_frame :: "u16 \<Rightarrow> u16 \<Rightarrow> u8 list \<Rightarrow> u8 list \<Rightarrow> u8 list" where
  "first_frame len tag hdr bs = set16 (push_bit 8 SICSLOWPAN_DISPATCH_FRAG1 OR len) @ set16 tag @ hdr @ bs"

definition first_size :: "linkaddr \<Rightarrow> u8 list \<Rightarrow> nat" where
  "first_size dest hdr = (lowpan_max dest - (length hdr + 4)) div 8 * 8"

definition later_size :: "linkaddr \<Rightarrow> nat" where
  "later_size dest = (lowpan_max dest - 5) div 8 * 8"

definition lowpan_frames :: "addr_context list \<Rightarrow> linkaddr \<Rightarrow> linkaddr \<Rightarrow> u16 \<Rightarrow> u8 list \<Rightarrow> u8 list list" where
  "lowpan_frames cs lladdr dest tag u =
     (let (hdr, n) = compress_hdr_iphc cs lladdr dest u
      in if length u - unat n \<le> lowpan_max dest - length hdr then [hdr @ drop (unat n) u]
         else first_frame (of_nat (length u)) tag hdr (take (first_size dest hdr) (drop (unat n) u)) #
              map (later_frame (of_nat (length u)) tag) (pieces (later_size dest) (unat n + first_size dest hdr) u))"

text \<open>Room below for \<open>k\<close> frames, and for the number of fragments that \<open>output\<close> estimates.\<close>

definition output_room :: "linkaddr \<Rightarrow> nat \<Rightarrow> nat \<Rightarrow> csma_state \<Rightarrow> bool" where
  "output_room dest k len m \<longleftrightarrow>
     ((\<exists>n \<in> set (neighbor_list m). nq_addr (neighbors m n) = dest) \<or> length (neighbor_list m) < CSMA_MAX_NEIGHBOR_QUEUES) \<and>
     card (queued m) + k \<le> QUEUEBUF_NUM \<and> card (memb_used (bufmem m)) + k + 1 \<le> QUEUEBUF_NUM \<and>
     (1 < k \<longrightarrow> card (memb_used (bufmem m)) + len div (lowpan_max dest - 5) + 2 \<le> QUEUEBUF_NUM)"

lemma numfree_exact: "csma_wf m \<Longrightarrow> queuebuf_numfree m = QUEUEBUF_NUM - card (memb_used (bufmem m))"
  using numfree_used [of "bufmem m"] by (simp add: queuebuf_numfree_def csma_wf_def qb_wf_def unit_pool_def)

lemma lowpan_max_cases: "lowpan_max dest = 110 \<or> lowpan_max dest = 104"
  by (simp add: lowpan_max_def)

lemma first_size_bound: "first_size dest hdr \<le> lowpan_max dest - (length hdr + 4)"
  by (simp add: first_size_def div_times_less_eq_dividend)

lemma later_size_cases: "later_size dest = 104 \<or> later_size dest = 96"
  by (simp add: later_size_def lowpan_max_def)

lemma unat_hdr_len: "length hdr \<le> 47 \<Longrightarrow> unat (of_nat (length hdr) + SICSLOWPAN_FRAG1_HDR_LEN :: u8) = length hdr + 4"
  by (simp add: SICSLOWPAN_FRAG1_HDR_LEN_def unat_word_ariths unsigned_of_nat take_bit_eq_mod)

lemma rest_same_write:
  "packetbuf_attrs m = packetbuf_attrs (lp_mac s) \<Longrightarrow> packetbuf_addrs m = packetbuf_addrs (lp_mac s) \<Longrightarrow> rest_same s (s\<lparr>lp_mac := m\<rparr>)"
  by (simp add: rest_same_def)

lemma first_fragment_ok:
  assumes r: "ready dest k s" and c: "length hdr \<le> 47"
  shows "\<exists>m1 m2 m3. pb_write 4 hdr (lp_mac s) = Some m1 \<and> pb_write 0 (set16 a) m1 = Some m2 \<and> pb_write 2 (set16 b) m2 = Some m3 \<and>
     ready dest k (s\<lparr>lp_mac := m3\<rparr>) \<and> take (length hdr + 4) (packetbuf m3) = set16 a @ set16 b @ hdr \<and>
     packetbuf_attrs m3 = packetbuf_attrs (lp_mac s) \<and> packetbuf_addrs m3 = packetbuf_addrs (lp_mac s)"
proof -
  from ready_write [OF r, of 4 hdr] c obtain m1 where m1: "pb_write 4 hdr (lp_mac s) = Some m1" "ready dest k (s\<lparr>lp_mac := m1\<rparr>)"
      "packetbuf m1 = take 4 (packetbuf (lp_mac s)) @ hdr @ drop (4 + length hdr) (packetbuf (lp_mac s))" "length (packetbuf (lp_mac s)) = 128"
      "packetbuf_attrs m1 = packetbuf_attrs (lp_mac s)" "packetbuf_addrs m1 = packetbuf_addrs (lp_mac s)" by auto
  from ready_write [OF m1(2), of 0 "set16 a"] obtain m2 where m2: "pb_write 0 (set16 a) m1 = Some m2" "ready dest k (s\<lparr>lp_mac := m2\<rparr>)"
      "packetbuf m2 = set16 a @ drop 2 (packetbuf m1)" "length (packetbuf m1) = 128"
      "packetbuf_attrs m2 = packetbuf_attrs m1" "packetbuf_addrs m2 = packetbuf_addrs m1" by (auto simp: numeral_2_eq_2)
  from ready_write [OF m2(2), of 2 "set16 b"] obtain m3 where m3: "pb_write 2 (set16 b) m2 = Some m3" "ready dest k (s\<lparr>lp_mac := m3\<rparr>)"
      "packetbuf m3 = take 2 (packetbuf m2) @ set16 b @ drop 4 (packetbuf m2)"
      "packetbuf_attrs m3 = packetbuf_attrs m2" "packetbuf_addrs m3 = packetbuf_addrs m2" by auto
  have "take (length hdr + 4) (packetbuf m3) = set16 a @ set16 b @ hdr"
    using m1(4) c by (simp add: m3(3) m2(3) m1(3))
  then show ?thesis using m1 m2 m3 by auto
qed

lemma output_fragments_ok:
  assumes r: "ready dest (Suc (length (pieces (later_size dest) (unat n + first_size dest hdr) u))) s"
    and u: "uip_buf s = u @ rest" "uip_len s = of_nat (length u)" "length u < 65536"
    and c: "length hdr \<le> 47" "hdr_len = of_nat (length hdr)" "take (length hdr) (packetbuf (lp_mac s)) = hdr" "unat n \<le> 48"
    and big: "lowpan_max dest - length hdr < length u - unat n"
    and est: "card (memb_used (bufmem (lp_mac s))) + length u div (lowpan_max dest - 5) + 2 \<le> QUEUEBUF_NUM"
  shows "\<exists>s'. output_fragments dest (int (lowpan_max dest)) hdr_len n s = Some (s', True) \<and> csma_wf (lp_mac s') \<and>
    lp_sent s' = lp_sent s @ map (lowpan_frame dest (lp_mac s))
      (first_frame (of_nat (length u)) (my_tag s) hdr (take (first_size dest hdr) (drop (unat n) u)) #
       map (later_frame (of_nat (length u)) (my_tag s)) (pieces (later_size dest) (unat n + first_size dest hdr) u)) \<and>
    my_tag s' = my_tag s + 1"
proof -
  define k where "k = length (pieces (later_size dest) (unat n + first_size dest hdr) u)"
  define fs where "fs = first_size dest hdr"
  define a where "a = push_bit 8 SICSLOWPAN_DISPATCH_FRAG1 OR uip_len s"
  define a' where "a' = push_bit 8 SICSLOWPAN_DISPATCH_FRAGN OR uip_len s"
  have rd: "ready dest (Suc k) s" using r by (simp only: k_def)
  have w: "csma_wf (lp_mac s)" "flat (lp_mac s)" "last_tx_status (lp_mac s) = MAC_TX_OK" using rd by (simp_all add: ready_def)
  have L: "length (packetbuf (lp_mac s)) = 128" using w(1) by (simp add: csma_wf_def pb_wf_def PACKETBUF_SIZE_def)
  have len: "unat (uip_len s) = length u" using u(2, 3) by (simp add: unsigned_of_nat take_bit_nat_eq_self_iff)
  have ul: "uint (uip_len s) = int (length u)" using len by (metis uint_nat)
  have lm: "104 \<le> lowpan_max dest" "lowpan_max dest \<le> 110" using lowpan_max_cases [of dest] by auto
  have fs: "fs \<le> lowpan_max dest - (length hdr + 4)" "unat n + fs < length u" using first_size_bound [of dest hdr] big c(1) lm(1)
    by (simp_all add: fs_def)
  have freebuf: "\<not> int (queuebuf_numfree (lp_mac s)) - 1 < uint (uip_len s) div (int (lowpan_max dest) - uint SICSLOWPAN_FRAGN_HDR_LEN) + 1"
  proof -
    have "uint (uip_len s) div (int (lowpan_max dest) - uint SICSLOWPAN_FRAGN_HDR_LEN) = int (length u div (lowpan_max dest - 5))"
      using lm ul by (simp add: SICSLOWPAN_FRAGN_HDR_LEN_def zdiv_int of_nat_diff)
    then show ?thesis using est numfree_exact [OF w(1)] by simp
  qed
  have m0: "(lp_mac s)\<lparr>last_tx_status := MAC_TX_OK\<rparr> = lp_mac s" using w(3) by simp
  have uh: "unat hdr_len = length hdr" using c(1) by (simp add: c(2) unsigned_of_nat take_bit_nat_eq_self_iff)
  have rdh: "mem_read (packetbuf_ptr s) 0 (unat hdr_len) = Some hdr"
    using c(1, 3) L by (simp add: mem_read_def packetbuf_ptr_def flat_dataptr [OF w(2)] uh)
  from first_fragment_ok [OF rd c(1), of a "my_tag s"] obtain m1 m2 m3 where
    m: "pb_write 4 hdr (lp_mac s) = Some m1" "pb_write 0 (set16 a) m1 = Some m2" "pb_write 2 (set16 (my_tag s)) m2 = Some m3"
      "ready dest (Suc k) (s\<lparr>lp_mac := m3\<rparr>)" "take (length hdr + 4) (packetbuf m3) = set16 a @ set16 (my_tag s) @ hdr"
      "packetbuf_attrs m3 = packetbuf_attrs (lp_mac s)" "packetbuf_addrs m3 = packetbuf_addrs (lp_mac s)" by blast
  define s0 where "s0 = s\<lparr>lp_mac := m3, my_tag := my_tag s + 1\<rparr>"
  have rd0: "ready dest (Suc k) s0" using m(4) by (simp add: ready_def s0_def)
  have f0: "uip_buf s0 = uip_buf s" "uip_len s0 = uip_len s" "lp_mac s0 = m3" "lp_sent s0 = lp_sent s" "my_tag s0 = my_tag s + 1"
    by (simp_all add: s0_def)
  define h where "h = hdr_len + SICSLOWPAN_FRAG1_HDR_LEN"
  have h: "unat h = length hdr + 4" using unat_hdr_len [OF c(1)] by (simp add: h_def c(2))
  have pl: "(int (lowpan_max dest) - uint h) div 8 * 8 = int fs"
  proof -
    have "uint h = int (length hdr + 4)" using h by (metis uint_nat)
    then have "int (lowpan_max dest) - uint h = int (lowpan_max dest - (length hdr + 4))" using c(1) lm(1) by simp
    then show ?thesis by (simp add: fs_def first_size_def zdiv_int)
  qed
  have "unat n + fs \<le> length (uip_buf s0)" "unat h + fs \<le> 128"
    using fs lm c(1) h by (simp_all add: f0 u(1))
  from send_fragment_ok [OF rd0 this] obtain s1 where s1: "send_fragment dest (unat n) h (int fs) s0 = Some (s1, True)" "ready dest k s1"
    "rest_same s0 s1" "take (unat h + fs) (packetbuf (lp_mac s1)) = take (unat h) (packetbuf m3) @ take fs (drop (unat n) (uip_buf s))"
    "lp_sent s1 = lp_sent s @ [lowpan_frame dest m3 (take (unat h) (packetbuf m3) @ take fs (drop (unat n) (uip_buf s)))]"
    unfolding f0 by blast
  have fr: "lowpan_frame dest m3 = lowpan_frame dest (lp_mac s)" using m(6, 7) by (simp add: fun_eq_iff lowpan_frame_def)
  have tk: "take fs (drop (unat n) (uip_buf s)) = take fs (drop (unat n) u)" using fs(2) by (simp add: u(1))
  have sent1: "lp_sent s1 = lp_sent s @ [lowpan_frame dest (lp_mac s) (first_frame (of_nat (length u)) (my_tag s) hdr (take fs (drop (unat n) u)))]"
    using s1(5) h m(5) unfolding fr tk by (simp add: first_frame_def a_def u(2))
  have same: "uip_buf s1 = uip_buf s" "uip_len s1 = uip_len s" "my_tag s1 = my_tag s + 1"
    "packetbuf_attrs (lp_mac s1) = packetbuf_attrs (lp_mac s)" "packetbuf_addrs (lp_mac s1) = packetbuf_addrs (lp_mac s)"
    using s1(3) f0 m(6, 7) by (simp_all add: rest_same_def)
  from ready_write [OF s1(2), of 0 "set16 a'"] obtain m4 where m4: "pb_write 0 (set16 a') (lp_mac s1) = Some m4"
    "ready dest k (s1\<lparr>lp_mac := m4\<rparr>)" "packetbuf m4 = set16 a' @ drop 2 (packetbuf (lp_mac s1))"
    "packetbuf_attrs m4 = packetbuf_attrs (lp_mac s1)" "packetbuf_addrs m4 = packetbuf_addrs (lp_mac s1)" by (auto simp: numeral_2_eq_2)
  have L1: "length (packetbuf (lp_mac s1)) = 128" using s1(2) by (simp add: ready_def csma_wf_def pb_wf_def PACKETBUF_SIZE_def)
  have tag: "take 4 (packetbuf m4) = set16 a' @ set16 (my_tag s)"
  proof -
    have "take 4 (take (unat h + fs) (packetbuf (lp_mac s1))) = set16 a @ set16 (my_tag s)"
      unfolding s1(4) using m(5) by (simp add: h)
    then have "take 4 (packetbuf (lp_mac s1)) = set16 a @ set16 (my_tag s)" by (simp add: h min_def)
    then have "take 2 (drop 2 (packetbuf (lp_mac s1))) = set16 (my_tag s)"
      using take_drop [of 2 2 "packetbuf (lp_mac s1)"] by simp
    then show ?thesis by (simp add: m4(3))
  qed
  define s2 where "s2 = s1\<lparr>lp_mac := m4\<rparr>"
  have f2: "uip_buf s2 = uip_buf s" "uip_len s2 = uip_len s" "lp_mac s2 = m4" "lp_sent s2 = lp_sent s1" "my_tag s2 = my_tag s + 1"
    using same by (simp_all add: s2_def)
  have fr2: "lowpan_frame dest m4 = lowpan_frame dest (lp_mac s)" using m4(4, 5) same by (simp add: fun_eq_iff lowpan_frame_def)
  have step: "0 < later_size dest" "later_size dest + 5 \<le> 128" using later_size_cases [of dest] by auto
  have pr: "unat (of_int (int fs + uint n) :: u16) = unat n + fs"
  proof -
    have "int fs + uint n = int (fs + unat n)" by simp
    then have "(of_int (int fs + uint n) :: u16) = of_nat (fs + unat n)" by (simp only: of_int_of_nat_eq)
    moreover have "fs + unat n < 65536" using fs(2) u(3) by simp
    ultimately show ?thesis by (simp only: unsigned_of_nat) (simp add: take_bit_eq_mod)
  qed
  have "\<exists>s'. fragment_loop (unat (uip_len s) + 1) dest (of_int (int fs + uint n)) (int (later_size dest)) s2 = Some (s', True) \<and>
     rest_same s2 s' \<and> ready dest 0 s' \<and>
     lp_sent s' = lp_sent s2 @ map (\<lambda>x. lowpan_frame dest (lp_mac s2) (later_frame (uip_len s2) (my_tag s) x))
       (pieces (later_size dest) (unat n + fs) u)"
  proof (rule fragment_loop_ok)
    show "ready dest (length (pieces (later_size dest) (unat n + fs) u)) s2" using m4(2) by (simp add: s2_def k_def fs_def)
    show "length (pieces (later_size dest) (unat n + fs) u) < unat (uip_len s) + 1"
      using pieces_length [OF step(1), of "unat n + fs" u] len by simp
    show "take (length u) (uip_buf s2) = u" "unat (uip_len s2) = length u" by (simp_all add: f2 u(1) len)
    show "unat (of_int (int fs + uint n) :: u16) = unat n + fs" by (rule pr)
    show "0 < later_size dest" "later_size dest + 5 \<le> 128" by (rule step)+
    show "take 4 (packetbuf (lp_mac s2)) = set16 (push_bit 8 SICSLOWPAN_DISPATCH_FRAGN OR uip_len s2) @ set16 (my_tag s)"
      using tag by (simp add: f2 a'_def)
  qed
  then obtain s3 where s3: "fragment_loop (unat (uip_len s) + 1) dest (of_int (int fs + uint n)) (int (later_size dest)) s2 = Some (s3, True)"
    "rest_same s2 s3" "ready dest 0 s3" "lp_sent s3 = lp_sent s2 @ map (\<lambda>x. lowpan_frame dest (lp_mac s2) (later_frame (uip_len s2) (my_tag s) x))
       (pieces (later_size dest) (unat n + fs) u)" by blast
  have ls: "(int (lowpan_max dest) - uint SICSLOWPAN_FRAGN_HDR_LEN) div 8 * 8 = int (later_size dest)"
    using lm by (simp add: later_size_def zdiv_int of_nat_diff SICSLOWPAN_FRAGN_HDR_LEN_def)
  have u4: "unat SICSLOWPAN_FRAG1_HDR_LEN = 4" by (simp add: SICSLOWPAN_FRAG1_HDR_LEN_def)
  have "output_fragments dest (int (lowpan_max dest)) hdr_len n s = Some (s3, True)"
    unfolding output_fragments_def Let_def m0 rdh u4 h_def [symmetric] a_def [symmetric] pl if_not_P [OF freebuf]
    using m(1, 2, 3) s1(1) m4(1) s3(1)
    by (simp add: s0_def [symmetric] same(2) a'_def [symmetric] ls s2_def [symmetric] del: fragment_loop.simps of_int_add)
  moreover have "csma_wf (lp_mac s3)" "my_tag s3 = my_tag s + 1" using s3(2, 3) f2 by (simp_all add: ready_def rest_same_def)
  moreover have "lp_sent s3 = lp_sent s @ map (lowpan_frame dest (lp_mac s))
      (first_frame (of_nat (length u)) (my_tag s) hdr (take fs (drop (unat n) u)) #
       map (later_frame (of_nat (length u)) (my_tag s)) (pieces (later_size dest) (unat n + fs) u))"
    using s3(4) sent1 by (simp add: f2 fr2 u(2) comp_def)
  ultimately show ?thesis unfolding fs_def by blast
qed

lemma output_fragments_status:
  assumes "output_fragments d mp h n (s\<lparr>lp_mac := (lp_mac s)\<lparr>last_tx_status := MAC_TX_OK\<rparr>\<rparr>) = Some (s', True)"
  shows "output_fragments d mp h n s = Some (s', True)"
proof -
  define t where "t = s\<lparr>lp_mac := (lp_mac s)\<lparr>last_tx_status := MAC_TX_OK\<rparr>\<rparr>"
  have e: "(lp_mac t)\<lparr>last_tx_status := MAC_TX_OK\<rparr> = (lp_mac s)\<lparr>last_tx_status := MAC_TX_OK\<rparr>" "uip_len t = uip_len s" "my_tag t = my_tag s"
    "queuebuf_numfree (lp_mac t) = queuebuf_numfree (lp_mac s)" "packetbuf_ptr t = packetbuf_ptr s"
    "t\<lparr>lp_mac := m, my_tag := k\<rparr> = s\<lparr>lp_mac := m, my_tag := k\<rparr>" for m k
    by (simp_all add: t_def queuebuf_numfree_def packetbuf_ptr_def packetbuf_dataptr_def packetbuf_hdrlen_def)
  have "output_fragments d mp h n t = Some (s', True)" using assms by (simp only: t_def)
  then show ?thesis unfolding output_fragments_def Let_def e
    by (cases "int (queuebuf_numfree (lp_mac s)) - 1 < uint (uip_len s) div (mp - uint SICSLOWPAN_FRAGN_HDR_LEN) + 1")
      (simp_all only: if_True if_False option.inject prod.inject simp_thms)
qed

lemma single_frame_ok:
  assumes w: "csma_wf m" "flat m" and r: "mac_room dest 1 m" and h: "hdr = take (length hdr) (packetbuf m)" "length hdr + length bs \<le> 128"
  shows "\<exists>m3 s'. pb_write (length hdr) bs m = Some m3 \<and>
     lowpan_send_packet dest (s\<lparr>lp_mac := packetbuf_set_datalen (of_nat (length hdr + length bs)) m3\<rparr>) = Some s' \<and>
     csma_wf (lp_mac s') \<and> lp_sent s' = lp_sent s @ [lowpan_frame dest m (hdr @ bs)] \<and> my_tag s' = my_tag s"
proof -
  have L: "length (packetbuf m) = 128" using w(1) by (simp add: csma_wf_def pb_wf_def PACKETBUF_SIZE_def)
  define n where "n = length hdr + length bs"
  define m3 where "m3 = m\<lparr>packetbuf := take (length hdr) (packetbuf m) @ bs @ drop n (packetbuf m)\<rparr>"
  have wr: "pb_write (length hdr) bs m = Some m3" using pb_write_flat [OF w(2) L h(2)] by (simp add: m3_def n_def)
  define m4 where "m4 = packetbuf_set_attr PACKETBUF_ATTR_FRAME_TYPE FRAME802154_DATAFRAME
    (packetbuf_set_addr PACKETBUF_ADDR_RECEIVER dest (packetbuf_set_datalen (of_nat n) m3))"
  have e: "m4 = m\<lparr>packetbuf := packetbuf m3, buflen := of_nat n, bufptr := bufptr m, hdrlen := hdrlen m,
     packetbuf_attrs := (packetbuf_attrs m)(PACKETBUF_ATTR_FRAME_TYPE := FRAME802154_DATAFRAME),
     packetbuf_addrs := (packetbuf_addrs m)(PACKETBUF_ADDR_RECEIVER := dest), last_tx_status := last_tx_status m\<rparr>"
    by (simp add: m4_def m3_def packetbuf_set_attr_def packetbuf_set_addr_def packetbuf_set_datalen_def)
  have "n < 65536" using h(2) by (simp add: n_def)
  then have bl: "unat (of_nat n :: u16) = n" by (simp add: unsigned_of_nat take_bit_nat_eq_self_iff)
  have lh: "length (take (length hdr) (packetbuf m)) = length hdr" using arg_cong [OF h(1), of length] by simp
  have fl: "flat m4" using w(2) by (simp add: e flat_def)
  have pb: "pb_wf m4"
    using w L h(2) bl lh by (simp add: e pb_wf_def flat_def PACKETBUF_SIZE_def m3_def n_def)
  note w4 = csma_wf_pb [OF w(1) pb e]
  have fr: "pb_frame m4 = lowpan_frame dest m (hdr @ bs)"
    using flat_frame [OF fl] bl h(1) lh by (simp add: e m3_def lowpan_frame_def n_def)
  have "mac_room dest (Suc 0) m4" using r unfolding mac_room_def w4(2) by (simp add: e)
  moreover have "packetbuf_addr PACKETBUF_ADDR_RECEIVER m4 = dest" by (simp add: e packetbuf_addr_def)
  ultimately obtain m5 where m5: "send_packet (Some Sicslowpan_packet_sent) None m4 = Some m5" "csma_wf m5"
    using send_room [OF w4(1)] by blast
  have "lowpan_send_packet dest (s\<lparr>lp_mac := packetbuf_set_datalen (of_nat n) m3\<rparr>) =
     Some (s\<lparr>lp_mac := m5, lp_sent := lp_sent s @ [lowpan_frame dest m (hdr @ bs)]\<rparr>)"
    using m5(1) fr by (simp add: lowpan_send_packet_def m4_def [symmetric])
  then show ?thesis using wr m5(2) by (simp add: n_def)
qed

definition data_frame :: "linkaddr \<Rightarrow> u8 list \<Rightarrow> u8 list \<times> (pb_attr \<Rightarrow> u16) \<times> (pb_addr \<Rightarrow> linkaddr)" where
  "data_frame dest bs = (bs, (\<lambda>_. 0)(PACKETBUF_ATTR_FRAME_TYPE := FRAME802154_DATAFRAME), (\<lambda>_. linkaddr_null)(PACKETBUF_ADDR_RECEIVER := dest))"

definition link_dest :: "linkaddr option \<Rightarrow> linkaddr" where
  "link_dest d = (case d of None \<Rightarrow> linkaddr_null | Some a \<Rightarrow> a)"

lemma lowpan_output_frames:
  assumes w: "csma_wf (lp_mac s)" and pan: "mac_pan_id (lp_framer s) \<noteq> 0xffff"
    and u: "uip_buf s = u @ rest" "uip_len s = of_nat (length u)" "ip_packet_ok u" and cs: "contexts_ok (lp_contexts s)"
    and d: "length (link_dest ld) = 8"
    and fs: "frames = lowpan_frames (lp_contexts s) (uip_lladdr (mac_node (lp_mac s))) (link_dest ld) (my_tag s) u"
    and room: "output_room (link_dest ld) (length frames) (length u) (lp_mac s)"
  shows "\<exists>s'. lowpan_output ld s = Some (s', True) \<and> csma_wf (lp_mac s') \<and>
     lp_sent s' = lp_sent s @ map (data_frame (link_dest ld)) frames \<and>
     my_tag s' = (if 1 < length frames then my_tag s + 1 else my_tag s)"
proof -
  define dest where "dest = link_dest ld"
  define ll where "ll = uip_lladdr (mac_node (lp_mac s))"
  define m0 where "m0 = packetbuf_clear (lp_mac s)"
  have dest: "length dest = 8" using d by (simp add: dest_def)
  have len: "40 \<le> length u" "length u < 65536" "u ! 6 = UIP_PROTO_UDP \<Longrightarrow> 48 \<le> length u" using u(3) by (simp_all add: ip_packet_ok_def)
  have L: "length (packetbuf (lp_mac s)) = 128" using w by (simp add: csma_wf_def pb_wf_def PACKETBUF_SIZE_def)
  obtain hdr n where c: "compress_hdr_iphc (lp_contexts s) ll dest u = (hdr, n)" by fastforce
  have cb: "compress_hdr_iphc (lp_contexts s) ll dest (uip_buf s) = (hdr, n)"
    unfolding u(1) using compress_prefix [OF len(1, 3)] c by simp
  have hl: "length hdr \<le> 47" by (rule compress_hdr_length [OF len(1) cs c])
  have n: "unat n \<le> length u" "unat n \<le> 48"
    using c by (rule compress_hdr_fields, use len in simp)+
  have z8: "length linkaddr_null = 8" by (simp add: linkaddr_null_def)
  define m1 where "m1 = packetbuf_set_addr PACKETBUF_ADDR_RECEIVER dest (m0\<lparr>packetbuf := hdr @ drop (length hdr) (packetbuf m0)\<rparr>)"
  have fl0: "flat m0" "packetbuf m0 = packetbuf (lp_mac s)"
    by (simp_all add: m0_def flat_def packetbuf_clear_def packetbuf_attr_clear_def)
  have wr: "pb_write 0 hdr m0 = Some (m0\<lparr>packetbuf := hdr @ drop (length hdr) (packetbuf m0)\<rparr>)"
    using pb_write_flat [OF fl0(1), of 0 hdr] L fl0(2) hl by simp
  have e1: "m1 = (lp_mac s)\<lparr>packetbuf := hdr @ drop (length hdr) (packetbuf (lp_mac s)), buflen := 0, bufptr := 0, hdrlen := 0, packetbuf_attrs := (\<lambda>_. 0),
     packetbuf_addrs := (\<lambda>_. linkaddr_null)(PACKETBUF_ADDR_RECEIVER := dest), last_tx_status := last_tx_status (lp_mac s)\<rparr>"
    by (simp add: m1_def m0_def packetbuf_set_addr_def packetbuf_clear_def packetbuf_attr_clear_def)
  have pb: "packetbuf m1 = hdr @ drop (length hdr) (packetbuf (lp_mac s))" by (simp add: e1)
  have "pb_wf m1" using L hl by (simp add: e1 pb_wf_def PACKETBUF_SIZE_def)
  note w1 = csma_wf_pb [OF w this e1]
  have a1: "packetbuf_attr PACKETBUF_ATTR_FRAME_TYPE m1 = 0" "packetbuf_addr PACKETBUF_ADDR_SENDER m1 = linkaddr_null"
    "packetbuf_addr PACKETBUF_ADDR_RECEIVER m1 = dest" "flat m1"
    by (simp_all add: e1 packetbuf_attr_def packetbuf_addr_def flat_def)
  obtain f nd where hr: "hdr_length (lp_framer s) m1 = Some (f, m1\<lparr>mac_node := nd\<rparr>, int (frame_hdrlen_of m1))"
      "node_kept m1 (m1\<lparr>mac_node := nd\<rparr>)"
    using hdr_length_result [OF pan a1(1)] a1 dest z8 by auto
  define m2 where "m2 = m1\<lparr>mac_node := nd\<rparr>"
  have "qb_wf m1" "pb_wf m1" and own: "(\<lambda>q. the (rb_buf (packets m1 q))) ` queued m1 \<subseteq> memb_used (bufmem m1)"
    using w1(1) by (simp_all add: csma_wf_def csma_core_def)
  then have "qb_wf m2" "pb_wf m2" by (simp_all add: m2_def qb_wf_def pb_wf_def)
  note w2' = csma_wf_cong [OF w1(1) this, unfolded m2_def, simplified, OF own, folded m2_def]
  have w2: "csma_wf m2" "flat m2" using w2'(1) a1(4) by (simp_all add: m2_def flat_def)
  have q2: "queued m2 = queued (lp_mac s)" using w1(2) w2'(2) by simp
  have f2: "bufmem m2 = bufmem (lp_mac s)" "neighbor_list m2 = neighbor_list (lp_mac s)" "neighbors m2 = neighbors (lp_mac s)"
    "last_tx_status m2 = last_tx_status (lp_mac s)" "packetbuf m2 = packetbuf m1" "packetbuf_attrs m2 = (\<lambda>_. 0)"
    "packetbuf_addrs m2 = (\<lambda>_. linkaddr_null)(PACKETBUF_ADDR_RECEIVER := dest)" "packetbuf_addr PACKETBUF_ADDR_RECEIVER m2 = dest"
    by (simp_all add: m2_def e1 packetbuf_addr_def)
  have fr: "lowpan_frame dest m2 = data_frame dest" by (simp add: fun_eq_iff lowpan_frame_def data_frame_def f2)
  have mx: "MAC_MAX_PAYLOAD - (if int (frame_hdrlen_of m1) < 0 then 21 else int (frame_hdrlen_of m1)) = int (lowpan_max dest)"
    using a1(3) by (simp add: MAC_MAX_PAYLOAD_def frame_hdrlen_of_def lowpan_max_def packetbuf_holds_broadcast_def packetbuf_addr_def)
  define s1 where "s1 = s\<lparr>lp_mac := m2, lp_framer := f\<rparr>"
  have ul: "uint (uip_len s) = int (length u)"
  proof -
    have "unat (uip_len s) = length u" using len(2) by (simp add: u(2) unsigned_of_nat take_bit_nat_eq_self_iff)
    then show ?thesis by (metis uint_nat)
  qed
  have un: "uint n = int (unat n)" by simp
  have uh: "unat (of_nat (length hdr) :: u8) = length hdr" "uint (of_nat (length hdr) :: u8) = int (length hdr)"
    using hl by (simp_all add: unsigned_of_nat take_bit_nat_eq_self_iff)
  have lm: "104 \<le> lowpan_max dest" "lowpan_max dest \<le> 110" using lowpan_max_cases [of dest] by auto
  have big: "(int (lowpan_max dest) - int (length hdr) < int (length u) - int (unat n)) = (lowpan_max dest - length hdr < length u - unat n)"
    using hl lm n by linarith
  have c0: "compress_hdr_iphc (lp_contexts s) (uip_lladdr (mac_node m0)) dest (uip_buf s) = (hdr, n)"
    using cb by (simp add: m0_def packetbuf_clear_def packetbuf_attr_clear_def ll_def)
  have F: "frames = lowpan_frames (lp_contexts s) ll dest (my_tag s) u" by (simp add: fs dest_def ll_def)
  have start: "lowpan_output ld s =
     (if int (length u) - int (unat n) > int (lowpan_max dest) - int (length hdr)
      then output_fragments dest (int (lowpan_max dest)) (of_nat (length hdr)) n s1
      else do {
        bs \<leftarrow> (if int (length u) - int (unat n) < 0 then None
               else mem_read (uip_buf s) (unat n) (nat (int (length u) - int (unat n))));
        m3 \<leftarrow> pb_write (length hdr) bs m2;
        s2 \<leftarrow> lowpan_send_packet dest (s1\<lparr>lp_mac := packetbuf_set_datalen (of_int (int (length u) - int (unat n) + int (length hdr))) m3\<rparr>);
        Some (s2, True)
      })"
  proof -
    have l: "link_dest ld = dest" by (simp add: dest_def)
    have e: "uip_buf (s\<lparr>lp_mac := m0\<rparr>) = uip_buf s" "lp_contexts (s\<lparr>lp_mac := m0\<rparr>) = lp_contexts s" "lp_mac (s\<lparr>lp_mac := m0\<rparr>) = m0"
      "lp_framer (s\<lparr>lp_mac := m0\<rparr>) = lp_framer s" "(s\<lparr>lp_mac := m0\<rparr>)\<lparr>lp_mac := m2, lp_framer := f\<rparr> = s1"
      by (simp_all add: s1_def)
    have e1: "uip_buf s1 = uip_buf s" "uip_len s1 = uip_len s" by (simp_all add: s1_def)
    show ?thesis
      unfolding lowpan_output_def Let_def m0_def [symmetric] link_dest_def [symmetric] l e c0 prod.case wr Option.bind.bind_lunit
        m1_def [symmetric] hr(1) m2_def [symmetric] mx uh ul un e1
      by (rule refl)
  qed
  show ?thesis
  proof (cases "lowpan_max dest - length hdr < length u - unat n")
    case False
    have fr1: "frames = [hdr @ drop (unat n) u]" using False by (simp add: F lowpan_frames_def c)
    have nb: "\<not> int (lowpan_max dest) - int (length hdr) < int (length u) - int (unat n)" unfolding big by (rule False)
    have "mac_room dest 1 m2" using room unfolding mac_room_def q2 f2 fr1 output_room_def dest_def by simp
    moreover have "hdr = take (length hdr) (packetbuf m2)" by (simp add: f2 pb)
    moreover have "length hdr + length (drop (unat n) u) \<le> 128" using False lm hl by simp
    ultimately obtain m3 s' where s': "pb_write (length hdr) (drop (unat n) u) m2 = Some m3"
      "lowpan_send_packet dest (s1\<lparr>lp_mac := packetbuf_set_datalen (of_nat (length hdr + length (drop (unat n) u))) m3\<rparr>) = Some s'"
      "csma_wf (lp_mac s')" "lp_sent s' = lp_sent s1 @ [lowpan_frame dest m2 (hdr @ drop (unat n) u)]" "my_tag s' = my_tag s1"
      using single_frame_ok [OF w2] by blast
    have k: "int (length u) - int (unat n) = int (length (drop (unat n) u))" using n by simp
    have rd: "mem_read (uip_buf s) (unat n) (length (drop (unat n) u)) = Some (drop (unat n) u)"
      using n by (simp add: mem_read_def u(1))
    have "lowpan_output ld s = Some (s', True)"
    proof -
      have o: "(of_int (int (length (drop (unat n) u)) + int (length hdr)) :: u16) = of_nat (length hdr + length (drop (unat n) u))"
        by (simp only: of_nat_add of_int_add of_int_of_nat_eq add.commute)
      have nn: "(if int (length (drop (unat n) u)) < 0 then None else X) = X" for X :: "'a option" by simp
      show ?thesis unfolding start k if_not_P [OF nb [unfolded k]] o nn nat_int rd Option.bind.bind_lunit s'(1) s'(2) by (rule refl)
    qed
    then show ?thesis using s'(3, 4, 5) by (simp add: fr1 fr [unfolded dest_def] s1_def dest_def)
  next
    case True
    define s2 where "s2 = s1\<lparr>lp_mac := m2\<lparr>last_tx_status := MAC_TX_OK\<rparr>\<rparr>"
    have fr1: "frames = first_frame (of_nat (length u)) (my_tag s) hdr (take (first_size dest hdr) (drop (unat n) u)) #
         map (later_frame (of_nat (length u)) (my_tag s)) (pieces (later_size dest) (unat n + first_size dest hdr) u)"
      using True by (simp add: F lowpan_frames_def c)
    have l1: "length frames = Suc (length (pieces (later_size dest) (unat n + first_size dest hdr) u))" by (simp add: fr1)
    have "0 < length (pieces (later_size dest) (unat n + first_size dest hdr) u)"
    proof -
      have "unat n + first_size dest hdr < length u" using first_size_bound [of dest hdr] True hl lm n by linarith
      then show ?thesis using pieces_step [of "later_size dest"] later_size_cases [of dest] by fastforce
    qed
    then have l2: "1 < length frames" by (simp add: l1)
    have "ready dest (length frames) s2"
    proof -
      define m3 where "m3 = m2\<lparr>last_tx_status := MAC_TX_OK\<rparr>"
      have e3: "m3 = m2\<lparr>packetbuf := packetbuf m2, buflen := buflen m2, bufptr := bufptr m2, hdrlen := hdrlen m2,
         packetbuf_attrs := packetbuf_attrs m2, packetbuf_addrs := packetbuf_addrs m2, last_tx_status := MAC_TX_OK\<rparr>"
        by (simp add: m3_def)
      have pb3: "pb_wf m3" using w2(1) by (simp add: m3_def csma_wf_def pb_wf_def)
      note w3 = csma_wf_pb [OF w2(1) pb3 e3]
      have f3: "flat m3" "last_tx_status m3 = MAC_TX_OK" "packetbuf_addr PACKETBUF_ADDR_RECEIVER m3 = dest"
        "neighbor_list m3 = neighbor_list (lp_mac s)" "neighbors m3 = neighbors (lp_mac s)" "bufmem m3 = bufmem (lp_mac s)"
        using w2(2) f2(1, 2, 3, 8) by (simp_all add: m3_def flat_def packetbuf_addr_def)
      have "lp_mac s2 = m3" by (simp add: s2_def m3_def)
      then show ?thesis
        using room w3(1) f3(1, 2, 3) unfolding ready_def output_room_def dest_def [symmetric] w3(2) q2 f3(4, 5, 6) by (simp add: w3(2) q2 f3)
    qed
    then have rdy: "ready dest (Suc (length (pieces (later_size dest) (unat n + first_size dest hdr) u))) s2" unfolding l1 .
    have s2: "uip_buf s2 = u @ rest" "uip_len s2 = of_nat (length u)" "take (length hdr) (packetbuf (lp_mac s2)) = hdr"
      "my_tag s2 = my_tag s" "lp_sent s2 = lp_sent s" "lowpan_frame dest (lp_mac s2) = data_frame dest"
      using u fr by (simp_all add: s2_def s1_def f2 pb fun_eq_iff lowpan_frame_def)
    have "card (memb_used (bufmem (lp_mac s2))) + length u div (lowpan_max dest - 5) + 2 \<le> QUEUEBUF_NUM"
      using room l2 by (simp add: output_room_def dest_def s2_def f2)
    from output_fragments_ok [OF rdy s2(1, 2) len(2) hl refl s2(3) n(2) True this] obtain s' where
      s': "output_fragments dest (int (lowpan_max dest)) (of_nat (length hdr)) n s2 = Some (s', True)" "csma_wf (lp_mac s')"
        "lp_sent s' = lp_sent s @ map (data_frame dest) frames" "my_tag s' = my_tag s + 1"
      unfolding s2(4, 5, 6) fr1 by blast
    have "output_fragments dest (int (lowpan_max dest)) (of_nat (length hdr)) n s1 = Some (s', True)"
      by (rule output_fragments_status) (use s'(1) in \<open>simp add: s2_def s1_def\<close>)
    then have "lowpan_output ld s = Some (s', True)" unfolding start big if_P [OF True] .
    then show ?thesis using s'(2, 3, 4) l2 by (simp add: dest_def)
  qed
qed

end
