(* ===== verification/LowpanIn.thy ===== *)
theory LowpanIn
  imports LowpanOut
begin

text \<open>
  What \<open>input\<close> makes of the frames of \<open>output\<close>: the packet, from one frame, or put together from its fragments.
\<close>

unbundle bit_operations_syntax

subsection \<open>A received frame\<close>

text \<open>The packet buffer as the framer leaves it for a received frame.\<close>

definition carries :: "linkaddr \<Rightarrow> linkaddr \<Rightarrow> u8 list \<Rightarrow> csma_state \<Rightarrow> bool" where
  "carries a b bs m \<longleftrightarrow> pb_wf m \<and> pb_payload m = bs \<and> packetbuf_addr PACKETBUF_ADDR_SENDER m = a \<and>
     packetbuf_addr PACKETBUF_ADDR_RECEIVER m = b"

lemma carries_ptr:
  assumes "carries a b bs (lp_mac s)"
  shows "reads (packetbuf_ptr s) 0 bs" "unat (packetbuf_datalen (lp_mac s)) = length bs" "length bs \<le> 128"
    "uint (packetbuf_datalen (lp_mac s)) = int (length bs)"
proof -
  define m where "m = lp_mac s"
  have m: "pb_wf m" "pb_payload m = bs" using assms by (simp_all add: carries_def m_def)
  note b = wf_bounds [OF m(1)]
  have d: "packetbuf_dataptr m = unat (hdrlen m) + unat (bufptr m)"
    using hdrlen_exact [OF m(1)] by (simp add: packetbuf_dataptr_def)
  have l: "length bs = unat (buflen m)" using payload_length [OF m(1)] m(2) by simp
  show "reads (packetbuf_ptr s) 0 bs"
    using m b(4) l unfolding reads_def packetbuf_ptr_def m_def [symmetric] d
    by (simp add: pb_payload_def pb_wf_def PACKETBUF_SIZE_def)
  show "unat (packetbuf_datalen (lp_mac s)) = length bs" "length bs \<le> 128" using l b by (simp_all add: m_def packetbuf_datalen_def)
  then show "uint (packetbuf_datalen (lp_mac s)) = int (length bs)" by (metis uint_nat)
qed

lemma get16_set16: "reads p i (set16 v) \<Longrightarrow> get16_at p i = Some v"
proof -
  assume "reads p i (set16 v)"
  then have "rd p i = Some (ucast (drop_bit 8 v))" "rd p (i + 1) = Some (ucast (v AND 0xff))"
    by (simp_all add: set16_def reads_Cons)
  moreover have "push_bit 8 (ucast (ucast (drop_bit 8 v) :: u8)) OR ucast (ucast (v AND 0xff) :: u8) = v"
    by (rule half_eqI; simp add: bit_simps)
  ultimately show ?thesis by (simp add: get16_at_def)
qed

lemma small_and:
  assumes "unat (v :: u16) < 2048"
  shows "v AND 0x7ff = v" "v AND 0xf800 = 0"
proof -
  have "unat (take_bit 11 v) = unat v" using assms by (simp add: unsigned_take_bit_eq take_bit_nat_eq_self_iff)
  then have "take_bit 11 v = v" by (simp only: word_unat_eq_iff)
  moreover have "take_bit 11 v = v AND 0x7ff" by (simp add: take_bit_eq_mask mask_eq_exp_minus_1)
  ultimately show a: "v AND 0x7ff = v" by simp
  have "(v AND 0x7ff) AND 0xf800 = 0" by (simp add: and.assoc)
  then show "v AND 0xf800 = 0" by (simp only: a)
qed

lemma dispatch_bits:
  assumes "unat (v :: u16) < 2048"
  shows "drop_bit 8 ((push_bit 8 SICSLOWPAN_DISPATCH_FRAG1 OR v) AND 0xf800) = SICSLOWPAN_DISPATCH_FRAG1"
    "(push_bit 8 SICSLOWPAN_DISPATCH_FRAG1 OR v) AND 0x7ff = v"
    "drop_bit 8 ((push_bit 8 SICSLOWPAN_DISPATCH_FRAGN OR v) AND 0xf800) = SICSLOWPAN_DISPATCH_FRAGN"
    "(push_bit 8 SICSLOWPAN_DISPATCH_FRAGN OR v) AND 0x7ff = v"
    "SICSLOWPAN_DISPATCH_FRAGN \<noteq> SICSLOWPAN_DISPATCH_FRAG1"
proof -
  have "push_bit 8 SICSLOWPAN_DISPATCH_FRAG1 = 0xc000" "push_bit 8 SICSLOWPAN_DISPATCH_FRAGN = 0xe000"
    by (simp_all add: SICSLOWPAN_DISPATCH_FRAG1_def SICSLOWPAN_DISPATCH_FRAGN_def)
  moreover have "(x OR v) AND 0xf800 = x AND 0xf800" "(x OR v) AND 0x7ff = x AND 0x7ff OR v" for x :: u16
    using small_and [OF assms] by (simp_all add: and.commute [of "x OR v"] bit.conj_disj_distrib bit.conj_disj_distrib2)
  ultimately show "drop_bit 8 ((push_bit 8 SICSLOWPAN_DISPATCH_FRAG1 OR v) AND 0xf800) = SICSLOWPAN_DISPATCH_FRAG1"
    "(push_bit 8 SICSLOWPAN_DISPATCH_FRAG1 OR v) AND 0x7ff = v"
    "drop_bit 8 ((push_bit 8 SICSLOWPAN_DISPATCH_FRAGN OR v) AND 0xf800) = SICSLOWPAN_DISPATCH_FRAGN"
    "(push_bit 8 SICSLOWPAN_DISPATCH_FRAGN OR v) AND 0x7ff = v"
    "SICSLOWPAN_DISPATCH_FRAGN \<noteq> SICSLOWPAN_DISPATCH_FRAG1"
    by (simp_all add: SICSLOWPAN_DISPATCH_FRAG1_def SICSLOWPAN_DISPATCH_FRAGN_def)
qed

lemma hdr_dispatch:
  assumes "compress_hdr_iphc cs ll d u = (hdr, n)"
  obtains b0 b1 t where "hdr = b0 # b1 # t" "b0 AND 0xe0 = SICSLOWPAN_DISPATCH_IPHC"
  using assms
proof (cases rule: compress_hdr_fields)
  case (1 tc T ttl L s1 s2 S d1 d2 D cid)
  have ltc: "tc = 0 \<or> tc = 0x08 \<or> tc = 0x10 \<or> tc = 0x18" using compress_tcflow_bits [of u] 1(1) by simp
  have lttl: "ttl = 0 \<or> ttl = 1 \<or> ttl = 2 \<or> ttl = 3" using compress_ttl_bits [of "u ! 7"] 1(2) by simp
  have "(SICSLOWPAN_DISPATCH_IPHC OR tc OR (if u ! 6 = UIP_PROTO_UDP then SICSLOWPAN_IPHC_NH_C else 0) OR ttl) AND 0xe0 =
     SICSLOWPAN_DISPATCH_IPHC"
    using ltc lttl unfolding iphc_consts by (elim disjE) simp_all
  with that 1(6) show ?thesis by simp
qed

lemma iphc_not_fragment:
  assumes "b0 AND 0xe0 = SICSLOWPAN_DISPATCH_IPHC"
  shows "drop_bit 8 ((push_bit 8 (ucast b0) OR ucast (b1 :: u8)) AND 0xf800) \<noteq> SICSLOWPAN_DISPATCH_FRAG1"
    "drop_bit 8 ((push_bit 8 (ucast b0) OR ucast b1) AND 0xf800) \<noteq> SICSLOWPAN_DISPATCH_FRAGN"
proof -
  have "bit (b0 AND 0xe0) 7 = bit (0x60 :: u8) 7" using assms by (simp add: iphc_consts)
  then have "\<not> bit b0 7" by (simp add: bit_simps)
  then have "\<not> bit (drop_bit 8 ((push_bit 8 (ucast b0) OR ucast b1) AND 0xf800) :: u16) 7"
    using bit_imp_le_length [of b1 15] by (auto simp: bit_simps)
  moreover have "bit SICSLOWPAN_DISPATCH_FRAG1 7" "bit SICSLOWPAN_DISPATCH_FRAGN 7"
    by (simp_all add: SICSLOWPAN_DISPATCH_FRAG1_def SICSLOWPAN_DISPATCH_FRAGN_def bit_simps)
  ultimately show "drop_bit 8 ((push_bit 8 (ucast b0) OR ucast (b1 :: u8)) AND 0xf800) \<noteq> SICSLOWPAN_DISPATCH_FRAG1"
    "drop_bit 8 ((push_bit 8 (ucast b0) OR ucast b1) AND 0xf800) \<noteq> SICSLOWPAN_DISPATCH_FRAGN" by metis+
qed

lemma uncompress_header_own:
  assumes u: "ip_packet_ok u" and l: "length ll = 8" "length d = 8" and cs: "contexts_ok (lp_contexts s)"
    and c: "compress_hdr_iphc (lp_contexts s) ll d u = (hdr, n)"
    and src: "addr_context_lookup_by_prefix (lp_contexts s) (ip_src u) = None \<Longrightarrow> dest_mid_zero u \<Longrightarrow> ll_mid_zero (ip_src u)"
    and r: "reads (packetbuf_ptr s) (unat hl) hdr" and h: "unat hl \<le> 200" and b: "48 \<le> length (buffer_of bf s)"
    and a: "packetbuf_addr PACKETBUF_ADDR_SENDER (lp_mac s) = ll" "packetbuf_addr PACKETBUF_ADDR_RECEIVER (lp_mac s) = d"
    and dl: "(frag_size = 0 \<and> uint (packetbuf_datalen (lp_mac s)) = int (unat hl + length hdr) + int (length u) - int (unat n)) \<or>
      frag_size = of_nat (length u)"
  shows "uncompress_header bf frag_size hl s =
    Some (Some (set_buffer bf (take (unat n) u @ drop (unat n) (buffer_of bf s)) s, of_nat (unat hl + length hdr), n))"
proof -
  obtain b0 b1 t where b0: "hdr = b0 # b1 # t" "b0 AND 0xe0 = SICSLOWPAN_DISPATCH_IPHC" by (rule hdr_dispatch [OF c])
  then have rd: "rd (packetbuf_ptr s) (unat hl) = Some b0" using r by (simp add: reads_Cons)
  have un: "uncompress_hdr_iphc (lp_contexts s) ll d (packetbuf_ptr s) (uint (packetbuf_datalen (lp_mac s))) (buffer_of bf s) frag_size hl 0 =
     Some (take (unat n) u @ drop (unat n) (buffer_of bf s), of_nat (unat hl + length hdr), n)"
    by (rule header_roundtrip [OF u l cs c _ r h b dl]) (rule src)
  show ?thesis unfolding uncompress_header_def rd Option.bind.bind_lunit a un using b0(2) by simp
qed

subsection \<open>A packet in one frame\<close>

lemma input_single:
  assumes u: "ip_packet_ok u" and l: "length ll = 8" "length d = 8" and cs: "contexts_ok (lp_contexts s)"
    and c: "compress_hdr_iphc (lp_contexts s) ll d u = (hdr, n)"
    and src: "addr_context_lookup_by_prefix (lp_contexts s) (ip_src u) = None \<Longrightarrow> dest_mid_zero u \<Longrightarrow> ll_mid_zero (ip_src u)"
    and m: "carries ll d (hdr @ drop (unat n) u) (lp_mac s)" and b: "length (uip_buf s) = UIP_BUFSIZE"
  shows "\<exists>s'. lowpan_input s = Some s' \<and> lp_delivered s' = lp_delivered s @ [u] \<and> frag_info s' = frag_info s \<and> frag_buf s' = frag_buf s \<and>
     lp_contexts s' = lp_contexts s \<and> length (uip_buf s') = UIP_BUFSIZE"
proof -
  define t where "t = s\<lparr>last_rssi := packetbuf_attr PACKETBUF_ATTR_RSSI (lp_mac s)\<rparr>"
  have ft: "lp_contexts t = lp_contexts s" "lp_mac t = lp_mac s" "uip_buf t = uip_buf s" "lp_delivered t = lp_delivered s"
    "frag_info t = frag_info s" "frag_buf t = frag_buf s" by (simp_all add: t_def)
  note cp = carries_ptr [OF m [folded ft(2)]]
  have len: "40 \<le> length u" "u ! 6 = UIP_PROTO_UDP \<Longrightarrow> 48 \<le> length u" using u by (simp_all add: ip_packet_ok_def)
  have n: "unat n \<le> length u" "unat n \<le> 48" using c by (rule compress_hdr_fields, use len in simp)+
  have hl: "length hdr \<le> 47" by (rule compress_hdr_length [OF len(1) cs c])
  have lu: "length u \<le> 200" using cp(3) n by simp
  obtain b0 b1 r where b0: "hdr = b0 # b1 # r" "b0 AND 0xe0 = SICSLOWPAN_DISPATCH_IPHC" by (rule hdr_dispatch [OF c])
  have rh: "reads (packetbuf_ptr t) (unat (0 :: u8)) hdr" "reads (packetbuf_ptr t) (length hdr) (drop (unat n) u)"
    using cp(1) by (simp_all add: reads_append)
  have d: "get16_at (packetbuf_ptr t) 0 = Some (push_bit 8 (ucast b0) OR ucast b1)"
    using rh(1) b0(1) by (simp add: get16_at_def reads_Cons)
  have ad: "packetbuf_addr PACKETBUF_ADDR_SENDER (lp_mac t) = ll" "packetbuf_addr PACKETBUF_ADDR_RECEIVER (lp_mac t) = d"
    using m by (simp_all add: carries_def ft)
  define b1' where "b1' = take (unat n) u @ drop (unat n) (uip_buf s)"
  have lb: "length b1' = 1600" using n lu b by (simp add: b1'_def UIP_BUFSIZE_def)
  have un: "uncompress_header Uip_buf 0 0 t = Some (Some (set_buffer Uip_buf (take (unat n) u @ drop (unat n) (buffer_of Uip_buf t)) t,
      of_nat (unat (0 :: u8) + length hdr), n))"
    by (rule uncompress_header_own [OF u l _ _ _ rh(1) _ _ ad])
      (use cs c src b n cp(4) in \<open>simp_all add: ft UIP_BUFSIZE_def\<close>)
  define s2 where "s2 = t\<lparr>uip_buf := b1'\<rparr>"
  define h :: u8 where "h = of_nat (length hdr)"
  have un': "uncompress_header Uip_buf 0 0 t = Some (Some (s2, h, n))" using un by (simp add: s2_def b1'_def ft h_def)
  have uh: "unat h = length hdr" using hl by (simp add: h_def unsigned_of_nat take_bit_nat_eq_self_iff)
  then have uih: "uint h = int (length hdr)" by (metis uint_nat)
  have f2: "lp_mac s2 = lp_mac t" "packetbuf_ptr s2 = packetbuf_ptr t" "uip_buf s2 = b1'" by (simp_all add: s2_def packetbuf_ptr_def)
  have c1: "\<not> packetbuf_datalen (lp_mac t) < ucast h"
    using cp(2) uh hl by (simp add: word_less_nat_alt unat_ucast_u16)
  have c2: "uint (packetbuf_datalen (lp_mac t)) - uint h = int (length u - unat n)" using cp(4) uih n by simp
  have c3: "\<not> int UIP_BUFSIZE < uint n + uint (push_bit 3 (ucast (0 :: u8)) :: u16) + int (length u - unat n)"
    using n lu by (simp add: UIP_BUFSIZE_def)
  have c4: "mem_read (packetbuf_ptr t) (unat h) (length u - unat n) = Some (drop (unat n) u)"
    by (rule reads_mem_read) (use rh(2) uh n in simp_all)
  have c5: "mem_write b1' (unat n) (drop (unat n) u) = Some (u @ drop (length u) b1')"
  proof -
    have "take (unat n) b1' = take (unat n) u" using n by (simp add: b1'_def)
    then show ?thesis using n lb lu by (simp add: mem_write_def flip: append_assoc)
  qed
  have "copypayload (Some Uip_buf) None False False 0 0 h n s2 =
     Some (tcpip_deliver (s2\<lparr>uip_buf := u @ drop (length u) b1', uip_len := of_int (int (length u - unat n) + uint n)\<rparr>))"
    unfolding copypayload_def f2 Let_def c2 if_not_P [OF c1] if_not_P [OF c3] option.case nat_int c4 Option.bind.bind_lunit
      buffer_of.simps c5 set_buffer.simps by (simp only: simp_thms if_True if_False)
  moreover have "(of_int (int (length u - unat n) + uint n) :: u16) = of_nat (length u)"
  proof -
    have "int (length u - unat n) + uint n = int (length u)" using n by simp
    then show ?thesis by (simp only: of_int_of_nat_eq)
  qed
  moreover have "unat (of_nat (length u) :: u16) = length u" using lu by (simp add: unsigned_of_nat take_bit_nat_eq_self_iff)
  ultimately have "copypayload (Some Uip_buf) None False False 0 0 h n s2 =
     Some (s2\<lparr>uip_buf := u @ drop (length u) b1', uip_len := of_nat (length u), lp_delivered := lp_delivered s @ [u]\<rparr>)"
    by (simp add: tcpip_deliver_def s2_def ft)
  then have "lowpan_input s = Some (s2\<lparr>uip_buf := u @ drop (length u) b1', uip_len := of_nat (length u), lp_delivered := lp_delivered s @ [u]\<rparr>)"
    unfolding lowpan_input_def Let_def t_def [symmetric] d Option.bind.bind_lunit un' using iphc_not_fragment [OF b0(2)] by simp
  then show ?thesis using lb lu by (simp add: s2_def ft UIP_BUFSIZE_def)
qed

end
