(* ===== verification/LowpanReass.thy ===== *)
theory LowpanReass
  imports LowpanIn
begin

text \<open>
  The state of reassembly: which buffers are in use, the invariant of contexts and buffers, and the effect of each
  operation.
\<close>

unbundle bit_operations_syntax

subsection \<open>Contexts and buffers\<close>

lemma mod_info_sel [simp]:
  "frag_info (mod_info c f s) = (frag_info s)(c := f (frag_info s c))" "frag_buf (mod_info c f s) = frag_buf s"
  "uip_buf (mod_info c f s) = uip_buf s" "lp_mac (mod_info c f s) = lp_mac s" "lp_contexts (mod_info c f s) = lp_contexts s"
  "lp_delivered (mod_info c f s) = lp_delivered s" "clock_time (mod_info c f s) = clock_time s" "uip_len (mod_info c f s) = uip_len s"
  "packetbuf_ptr (mod_info c f s) = packetbuf_ptr s"
  by (simp_all add: mod_info_def packetbuf_ptr_def)

text \<open>A buffer in use for a context, and the buffers after those of a context are freed.\<close>

definition in_use :: "nat \<Rightarrow> sicslowpan_frag_buf \<Rightarrow> bool" where
  "in_use c b \<longleftrightarrow> fb_len b > 0 \<and> unat (fb_index b) = c"

definition freed :: "nat \<Rightarrow> nat set \<Rightarrow> (nat \<Rightarrow> sicslowpan_frag_buf) \<Rightarrow> nat \<Rightarrow> sicslowpan_frag_buf" where
  "freed c A fb i = (if i \<in> A \<and> in_use c (fb i) then (fb i)\<lparr>fb_len := 0\<rparr> else fb i)"

lemma freed_not_used: "\<not> in_use c ((fb i)\<lparr>fb_len := 0\<rparr>)"
  by (simp add: in_use_def)

lemma clear_loop_freed: "fst (clear_loop is c s) = s\<lparr>frag_buf := freed c (set is) (frag_buf s)\<rparr>"
proof (induction "is" arbitrary: s)
  case Nil
  have "freed c {} (frag_buf s) = frag_buf s" by (simp add: fun_eq_iff freed_def)
  then show ?case by simp
next
  case (Cons i "is")
  let ?s = "if in_use c (frag_buf s i) then s\<lparr>frag_buf := (frag_buf s)(i := (frag_buf s i)\<lparr>fb_len := 0\<rparr>)\<rparr> else s"
  have "fst (clear_loop (i # is) c s) = fst (clear_loop is c ?s)" by (simp add: in_use_def case_prod_beta)
  moreover have "freed c (set is) (frag_buf ?s) = freed c (set (i # is)) (frag_buf s)"
    by (auto simp: fun_eq_iff freed_def in_use_def)
  ultimately show ?case using Cons.IH [of ?s] by simp
qed

lemma clear_fragments_eq:
  "fst (clear_fragments c s) = s\<lparr>frag_info := (frag_info s)(c := (frag_info s c)\<lparr>fi_len := 0\<rparr>),
     frag_buf := freed c {..<SICSLOWPAN_FRAGMENT_BUFFERS} (frag_buf s)\<rparr>"
  by (simp add: clear_fragments_def clear_loop_freed atLeast0LessThan) (simp add: mod_info_def)

text \<open>Every buffer in use belongs to a context in use; the arrays have their lengths.\<close>

definition reass_wf :: "lowpan_state \<Rightarrow> bool" where
  "reass_wf s \<longleftrightarrow> length (uip_buf s) = UIP_BUFSIZE \<and>
     (\<forall>c < SICSLOWPAN_REASS_CONTEXTS. length (fi_first_frag (frag_info s c)) = SICSLOWPAN_FIRST_FRAGMENT_SIZE) \<and>
     (\<forall>i < SICSLOWPAN_FRAGMENT_BUFFERS. length (fb_data (frag_buf s i)) = SICSLOWPAN_FRAGMENT_SIZE \<and>
        unat (fb_len (frag_buf s i)) \<le> SICSLOWPAN_FRAGMENT_SIZE \<and>
        (fb_len (frag_buf s i) > 0 \<longrightarrow> unat (fb_index (frag_buf s i)) < SICSLOWPAN_REASS_CONTEXTS \<and>
           fi_len (frag_info s (unat (fb_index (frag_buf s i)))) > 0))"

lemma reass_wf_cong:
  "reass_wf s \<Longrightarrow> frag_info s' = frag_info s \<Longrightarrow> frag_buf s' = frag_buf s \<Longrightarrow> length (uip_buf s') = length (uip_buf s) \<Longrightarrow> reass_wf s'"
  by (simp add: reass_wf_def)

lemma wf_mod_info:
  assumes "reass_wf s" "\<And>x. length (fi_first_frag (f x)) = length (fi_first_frag x)"
    and "fi_len (f (frag_info s c)) = 0 \<Longrightarrow> \<forall>i < SICSLOWPAN_FRAGMENT_BUFFERS. \<not> in_use c (frag_buf s i)"
  shows "reass_wf (mod_info c f s)"
  using assms unfolding reass_wf_def in_use_def by (auto simp: word_gt_0)

lemma wf_clear: "reass_wf s \<Longrightarrow> reass_wf (fst (clear_fragments c s))"
  unfolding reass_wf_def clear_fragments_eq by (auto simp: freed_def in_use_def)

lemma free_unused:
  "reass_wf s \<Longrightarrow> fi_len (frag_info s c) = 0 \<Longrightarrow> i < SICSLOWPAN_FRAGMENT_BUFFERS \<Longrightarrow> \<not> in_use c (frag_buf s i)"
  by (auto simp: reass_wf_def in_use_def)

text \<open>The contexts of a set given up: their lengths are zero, and so are those of the buffers they use.\<close>

definition purge :: "nat set \<Rightarrow> lowpan_state \<Rightarrow> lowpan_state" where
  "purge A s = s\<lparr>frag_info := (\<lambda>c. if c \<in> A then (frag_info s c)\<lparr>fi_len := 0\<rparr> else frag_info s c),
     frag_buf := (\<lambda>i. if i < SICSLOWPAN_FRAGMENT_BUFFERS \<and> (\<exists>c \<in> A. in_use c (frag_buf s i))
                      then (frag_buf s i)\<lparr>fb_len := 0\<rparr> else frag_buf s i)\<rparr>"

lemma purge_sel [simp]:
  "fi_len (frag_info (purge A s) c) = (if c \<in> A then 0 else fi_len (frag_info s c))"
  "fi_timer (frag_info (purge A s) c) = fi_timer (frag_info s c)" "clock_time (purge A s) = clock_time s"
  "lp_mac (purge A s) = lp_mac s"
  by (simp_all add: purge_def)

lemma purge_empty [simp]: "purge {} s = s"
  by (simp add: purge_def)

lemma clear_fragments_purge: "fst (clear_fragments c s) = purge {c} s"
  by (auto simp: clear_fragments_eq purge_def freed_def fun_eq_iff)

lemma purge_eqI:
  "frag_info (purge A (purge B s)) = frag_info (purge C s) \<Longrightarrow> frag_buf (purge A (purge B s)) = frag_buf (purge C s) \<Longrightarrow>
   purge A (purge B s) = purge C s"
  by (simp add: purge_def)

lemma purge_insert: "purge A (purge {c} s) = purge (insert c A) s"
  by (rule purge_eqI) (auto simp: purge_def fun_eq_iff in_use_def)

definition stalled :: "lowpan_state \<Rightarrow> nat \<Rightarrow> bool" where
  "stalled s c \<longleftrightarrow> fi_len (frag_info s c) > 0 \<and> timer_expired (clock_time s) (fi_timer (frag_info s c))"

lemma find_cong_on: "(\<And>x. x \<in> set xs \<Longrightarrow> P x = Q x) \<Longrightarrow> find P xs = find Q xs"
  by (induction xs) auto

text \<open>The loop gives up each stalled context of its list and finds the first one that is free after that.\<close>

lemma free_context_loop_exact:
  assumes "distinct is"
  shows "free_context_loop is found s = (purge {c \<in> set is. stalled s c} s,
     if found = None then find (\<lambda>c. fi_len (frag_info s c) = 0 \<or> stalled s c) is else found)"
  using assms
proof (induction "is" arbitrary: found s)
  case (Cons i "is")
  define s1 where "s1 = (if stalled s i then purge {i} s else s)"
  have st: "stalled s1 c = stalled s c" "(fi_len (frag_info s1 c) = 0) = (fi_len (frag_info s c) = 0)" if "c \<in> set is" for c
    using that Cons.prems by (auto simp: s1_def stalled_def)
  have i: "(fi_len (frag_info s1 i) = 0) = (fi_len (frag_info s i) = 0 \<or> stalled s i)"
    by (simp add: s1_def)
  have "{c \<in> set is. stalled s1 c} = {c \<in> set is. stalled s c}" using st(1) by blast
  then have p: "purge {c \<in> set is. stalled s1 c} s1 = purge {c \<in> set (i # is). stalled s c} s"
    by (auto simp: s1_def purge_insert intro!: arg_cong [of _ _ "\<lambda>A. purge A s"])
  have f: "find (\<lambda>c. fi_len (frag_info s1 c) = 0 \<or> stalled s1 c) is = find (\<lambda>c. fi_len (frag_info s c) = 0 \<or> stalled s c) is"
    by (intro find_cong_on) (simp add: st)
  have "free_context_loop (i # is) found s =
      free_context_loop is (if found = None \<and> fi_len (frag_info s1 i) = 0 then Some i else found) s1"
    by (simp add: s1_def stalled_def [symmetric] clear_fragments_purge Let_def)
  then show ?case using Cons.IH [of "if found = None \<and> fi_len (frag_info s1 i) = 0 then Some i else found" s1] Cons.prems
    by (simp add: p f i)
qed simp

text \<open>What freeing contexts leaves: a context is as it was or free, and so is each buffer.\<close>

definition only_freed :: "lowpan_state \<Rightarrow> lowpan_state \<Rightarrow> bool" where
  "only_freed s s' \<longleftrightarrow> (\<exists>fi fb. s' = s\<lparr>frag_info := fi, frag_buf := fb\<rparr>) \<and>
     (\<forall>c. frag_info s' c = frag_info s c \<or> frag_info s' c = (frag_info s c)\<lparr>fi_len := 0\<rparr>) \<and>
     (\<forall>i. frag_buf s' i = frag_buf s i \<or> frag_buf s' i = (frag_buf s i)\<lparr>fb_len := 0\<rparr>)"

lemma only_freed_refl: "only_freed s s"
proof -
  have "s = s\<lparr>frag_info := frag_info s, frag_buf := frag_buf s\<rparr>" by simp
  then show ?thesis unfolding only_freed_def by blast
qed

lemma only_freed_trans: "only_freed s t \<Longrightarrow> only_freed t u \<Longrightarrow> only_freed s u"
proof -
  assume a: "only_freed s t" "only_freed t u"
  obtain fi fb fi' fb' where "t = s\<lparr>frag_info := fi, frag_buf := fb\<rparr>" "u = t\<lparr>frag_info := fi', frag_buf := fb'\<rparr>"
    using a unfolding only_freed_def by blast
  then have "u = s\<lparr>frag_info := fi', frag_buf := fb'\<rparr>" by simp
  then have "\<exists>fi fb. u = s\<lparr>frag_info := fi, frag_buf := fb\<rparr>" by blast
  moreover have "frag_info u c = frag_info s c \<or> frag_info u c = (frag_info s c)\<lparr>fi_len := 0\<rparr>" for c
  proof -
    have "frag_info t c = frag_info s c \<or> frag_info t c = (frag_info s c)\<lparr>fi_len := 0\<rparr>"
      "frag_info u c = frag_info t c \<or> frag_info u c = (frag_info t c)\<lparr>fi_len := 0\<rparr>" using a by (auto simp: only_freed_def)
    then show ?thesis by auto
  qed
  moreover have "frag_buf u i = frag_buf s i \<or> frag_buf u i = (frag_buf s i)\<lparr>fb_len := 0\<rparr>" for i
  proof -
    have "frag_buf t i = frag_buf s i \<or> frag_buf t i = (frag_buf s i)\<lparr>fb_len := 0\<rparr>"
      "frag_buf u i = frag_buf t i \<or> frag_buf u i = (frag_buf t i)\<lparr>fb_len := 0\<rparr>" using a by (auto simp: only_freed_def)
    then show ?thesis by auto
  qed
  ultimately show ?thesis unfolding only_freed_def by blast
qed

lemma only_freed_clear: "only_freed s (fst (clear_fragments c s))"
  unfolding only_freed_def clear_fragments_eq by (auto simp: freed_def)

lemma only_freed_sel:
  assumes "only_freed s s'"
  shows "lp_mac s' = lp_mac s" "uip_buf s' = uip_buf s" "lp_contexts s' = lp_contexts s" "lp_delivered s' = lp_delivered s"
    "clock_time s' = clock_time s" "packetbuf_ptr s' = packetbuf_ptr s"
  using assms by (auto simp: only_freed_def packetbuf_ptr_def)

lemma timeout_loop_freed:
  assumes "reass_wf s"
  shows "reass_wf (fst (timeout_loop is c s)) \<and> only_freed s (fst (timeout_loop is c s))"
  using assms
proof (induction "is" arbitrary: s)
  case (Cons i "is")
  note wf_clear [OF Cons.prems, of i] only_freed_clear [of s i]
  with Cons show ?case by (auto simp: case_prod_beta intro: only_freed_trans)
qed (simp add: only_freed_refl)

lemma free_context_loop_result:
  assumes "free_context_loop is found s = (s', r)" "reass_wf s"
  shows "reass_wf s' \<and> only_freed s s' \<and> (found \<noteq> None \<longrightarrow> r = found) \<and>
    (found = None \<longrightarrow> (\<exists>i \<in> set is. fi_len (frag_info s i) = 0) \<longrightarrow> r \<noteq> None) \<and>
    (\<forall>c. found = None \<longrightarrow> r = Some c \<longrightarrow> c \<in> set is \<and> fi_len (frag_info s' c) = 0)"
  using assms
proof (induction "is" arbitrary: found s)
  case Nil
  then show ?case by (auto simp: only_freed_refl)
next
  case (Cons i "is")
  define s1 where "s1 = (if fi_len (frag_info s i) > 0 \<and> timer_expired (clock_time s) (fi_timer (frag_info s i))
                then fst (clear_fragments i s) else s)"
  have s1: "reass_wf s1" "only_freed s s1"
    using wf_clear [OF Cons.prems(2), of i] only_freed_clear [of s i] Cons.prems(2) only_freed_refl [of s] by (simp_all add: s1_def)
  define f where "f = (if found = None \<and> fi_len (frag_info s1 i) = 0 then Some i else found)"
  have "free_context_loop is f s1 = (s', r)" using Cons.prems(1) by (simp add: s1_def [symmetric] f_def Let_def)
  note ih = Cons.IH [OF this s1(1)]
  have len: "fi_len (frag_info s j) = 0 \<Longrightarrow> fi_len (frag_info s1 j) = 0" "fi_len (frag_info s1 j) = 0 \<Longrightarrow> fi_len (frag_info s' j) = 0" for j
  proof -
    have "frag_info s1 j = frag_info s j \<or> frag_info s1 j = (frag_info s j)\<lparr>fi_len := 0\<rparr>"
      "frag_info s' j = frag_info s1 j \<or> frag_info s' j = (frag_info s1 j)\<lparr>fi_len := 0\<rparr>"
      using s1(2) ih by (auto simp: only_freed_def)
    then show "fi_len (frag_info s j) = 0 \<Longrightarrow> fi_len (frag_info s1 j) = 0" "fi_len (frag_info s1 j) = 0 \<Longrightarrow> fi_len (frag_info s' j) = 0"
      by auto
  qed
  show ?case
  proof (cases "found = None \<and> fi_len (frag_info s1 i) = 0")
    case True
    then have "f = Some i" by (simp add: f_def)
    then have "r = Some i" using ih by simp
    then show ?thesis using ih s1 True len by (auto intro: only_freed_trans)
  next
    case False
    then have f: "f = found" by (simp only: f_def if_False)
    show ?thesis
    proof (cases found)
      case None
      then have ne: "fi_len (frag_info s i) \<noteq> 0" using False len(1) by auto
      have "(\<exists>j \<in> set (i # is). fi_len (frag_info s j) = 0) \<Longrightarrow> r \<noteq> None" using ih None f ne len(1) by auto
      then show ?thesis using ih s1 None f by (auto intro: only_freed_trans)
    next
      case (Some j)
      then show ?thesis using ih s1 f by (auto intro: only_freed_trans)
    qed
  qed
qed

subsection \<open>Storing a fragment\<close>

lemma store_loop_result:
  assumes "store_loop is c off h s = Some (s', len)"
  shows "(len = - 1 \<and> s' = s \<and> (\<forall>i \<in> set is. fb_len (frag_buf s i) \<noteq> 0)) \<or>
    (\<exists>i \<in> set is. \<exists>d n bs. fb_len (frag_buf s i) = 0 \<and>
       s' = s\<lparr>frag_buf := (frag_buf s)(i := \<lparr>fb_index = of_nat c, fb_offset = off, fb_len = of_nat n, fb_data = d\<rparr>)\<rparr> \<and>
       len = uint (of_nat n :: u8) \<and> int n = uint (packetbuf_datalen (lp_mac s)) - uint h \<and>
       mem_read (packetbuf_ptr s) (unat h) n = Some bs \<and> mem_write (fb_data (frag_buf s i)) 0 bs = Some d)"
  using assms
proof (induction "is")
  case (Cons i "is")
  show ?case
  proof (cases "fb_len (frag_buf s i) = 0")
    case True
    define n where "n = nat (uint (packetbuf_datalen (lp_mac s)) - uint h)"
    have nn: "\<not> uint (packetbuf_datalen (lp_mac s)) - uint h < 0"
      using Cons.prems True by (auto simp: Let_def split: if_splits)
    then have n: "int n = uint (packetbuf_datalen (lp_mac s)) - uint h" by (simp add: n_def)
    from Cons.prems True nn obtain bs d where b: "mem_read (packetbuf_ptr s) (unat h) n = Some bs"
      "mem_write (fb_data (frag_buf s i)) 0 bs = Some d"
      "s' = s\<lparr>frag_buf := (frag_buf s)(i := \<lparr>fb_index = of_nat c, fb_offset = off, fb_len = of_int (int n), fb_data = d\<rparr>)\<rparr>"
      "len = uint (of_int (int n) :: u8)"
      unfolding store_loop.simps Let_def if_P [OF True] if_not_P [OF nn] n n_def [symmetric]
      by (auto elim!: bind_SomeE)
    note b(3, 4) [unfolded of_int_of_nat_eq]
    then have "fb_len (frag_buf s i) = 0 \<and>
       s' = s\<lparr>frag_buf := (frag_buf s)(i := \<lparr>fb_index = of_nat c, fb_offset = off, fb_len = of_nat n, fb_data = d\<rparr>)\<rparr> \<and>
       len = uint (of_nat n :: u8) \<and> int n = uint (packetbuf_datalen (lp_mac s)) - uint h \<and>
       mem_read (packetbuf_ptr s) (unat h) n = Some bs \<and> mem_write (fb_data (frag_buf s i)) 0 bs = Some d"
      using b(1, 2) True n by blast
    then show ?thesis by (intro disjI2 bexI [of _ i]) (blast, simp)
  next
    case False
    then show ?thesis using Cons by auto
  qed
qed simp

lemma mem_write_length: "mem_write m i bs = Some m' \<Longrightarrow> length m' = length m \<and> i + length bs \<le> length m"
  by (auto simp: mem_write_def split: if_splits)

lemma mem_read_length: "mem_read m i n = Some bs \<Longrightarrow> length bs = n"
  by (auto simp: mem_read_def split: if_splits)

lemma wf_store:
  assumes "store_fragment c off h s = Some (s', len)" "reass_wf s" "c < SICSLOWPAN_REASS_CONTEXTS" "fi_len (frag_info s c) > 0"
  shows "reass_wf s' \<and> frag_info s' = frag_info s \<and> lp_mac s' = lp_mac s"
  using store_loop_result [OF assms(1) [unfolded store_fragment_def]]
proof (elim disjE conjE bexE exE)
  assume "s' = s"
  then show ?thesis using assms(2) by simp
next
  fix i d n bs
  assume e: "s' = s\<lparr>frag_buf := (frag_buf s)(i := \<lparr>fb_index = of_nat c, fb_offset = off, fb_len = of_nat n, fb_data = d\<rparr>)\<rparr>"
    and r: "mem_read (packetbuf_ptr s) (unat h) n = Some bs" "mem_write (fb_data (frag_buf s i)) 0 bs = Some d"
    and i: "i \<in> set [0..<SICSLOWPAN_FRAGMENT_BUFFERS]"
  have d: "length d = SICSLOWPAN_FRAGMENT_SIZE" "n \<le> SICSLOWPAN_FRAGMENT_SIZE"
    using mem_read_length [OF r(1)] mem_write_length [OF r(2)] assms(2) i by (auto simp: reass_wf_def)
  moreover have "unat (of_nat n :: u8) = n" "unat (of_nat c :: u8) = c"
    using d(2) assms(3) by (simp_all add: SICSLOWPAN_FRAGMENT_SIZE_def SICSLOWPAN_REASS_CONTEXTS_def unsigned_of_nat take_bit_nat_eq_self_iff)
  ultimately show ?thesis using assms(2, 3, 4) unfolding reass_wf_def e by auto
qed

lemma find_context_Some:
  assumes "find_context tag s = Some c"
  shows "c < SICSLOWPAN_REASS_CONTEXTS" "fi_len (frag_info s c) > 0"
  using assms by (auto simp: find_context_def find_Some_iff)

lemma timeout_keeps:
  assumes "i \<notin> set is \<or> i = c"
  shows "frag_info (fst (timeout_loop is c s)) i = frag_info s i"
  using assms by (induction "is" arbitrary: s) (auto simp: case_prod_beta clear_fragments_eq)

lemma wf_add_fragment:
  assumes a: "add_fragment tag sz off h s = Some (s', r)" and w: "reass_wf s"
  shows "reass_wf s' \<and> (\<forall>c. r = Some c \<longrightarrow> c < SICSLOWPAN_REASS_CONTEXTS) \<and> lp_mac s' = lp_mac s"
proof (cases "off = 0")
  case True
  obtain s1 q where l: "free_context_loop [0..<SICSLOWPAN_REASS_CONTEXTS] None s = (s1, q)" by fastforce
  note R = free_context_loop_result [OF l w]
  show ?thesis
  proof (cases q)
    case None
    then show ?thesis using a True l R only_freed_sel [of s s1] by (simp add: add_fragment_def)
  next
    case (Some c)
    then have c: "c < SICSLOWPAN_REASS_CONTEXTS" "fi_len (frag_info s1 c) = 0" using R by auto
    have "s' = mod_info c (\<lambda>x. x\<lparr>fi_len := sz, fi_tag := tag,
                    fi_sender := packetbuf_addr PACKETBUF_ADDR_SENDER (lp_mac s1),
                    fi_timer := timer_set (clock_time s1) (SICSLOWPAN_REASS_MAXAGE * CLOCK_SECOND div 16)\<rparr>) s1" "r = Some c"
      using a True l Some by (simp_all add: add_fragment_def)
    then show ?thesis using R c free_unused [of s1 c] only_freed_sel [of s s1] by (auto intro!: wf_mod_info)
  qed
next
  case False
  show ?thesis
  proof (cases "find_context tag s")
    case None
    then show ?thesis using a False w by (simp add: add_fragment_def)
  next
    case (Some c)
    note c = find_context_Some [OF Some]
    obtain s1 len where s1: "store_fragment c off h s = Some (s1, len)"
      using a False Some by (auto simp: add_fragment_def elim!: bind_SomeE)
    note W1 = wf_store [OF s1 w c]
    define t where "t = fst (timeout_loop [0..<SICSLOWPAN_REASS_CONTEXTS] c s1)"
    have t: "reass_wf t" "only_freed s1 t" "frag_info t c = frag_info s1 c"
      using timeout_loop_freed [of s1 "[0..<SICSLOWPAN_REASS_CONTEXTS]" c] timeout_keeps [of c] W1 by (simp_all add: t_def)
    obtain s2 len2 where s2: "(if len < 0
                           then (case timeout_fragments c s1 of (t, n) \<Rightarrow>
                                   if n > 0 then store_fragment c off h t else Some (t, len))
                           else Some (s1, len)) = Some (s2, len2)"
      using a False Some s1 by (auto simp: add_fragment_def elim!: bind_SomeE)
    have W2: "reass_wf s2 \<and> frag_info s2 c = frag_info s c \<and> lp_mac s2 = lp_mac s"
    proof (cases "len < 0")
      case True
      then have "store_fragment c off h t = Some (s2, len2) \<or> s2 = t"
        using s2 by (auto simp: timeout_fragments_def t_def split: prod.splits if_splits)
      then show ?thesis
      proof
        assume "store_fragment c off h t = Some (s2, len2)"
        from wf_store [OF this t(1) c(1)] show ?thesis using c W1 t only_freed_sel [OF t(2)] by simp
      next
        assume "s2 = t"
        then show ?thesis using W1 t only_freed_sel [OF t(2)] by simp
      qed
    next
      case False
      then show ?thesis using s2 W1 by simp
    qed
    show ?thesis
    proof (cases "len2 > 0")
      case True
      then have "s' = mod_info c (\<lambda>x. x\<lparr>fi_reassembled_len := fi_reassembled_len x + of_int len2\<rparr>) s2" "r = Some c"
        using a False Some s1 s2 by (simp_all add: add_fragment_def)
      then show ?thesis using W2 c by (auto intro!: wf_mod_info)
    next
      case False
      then have "s' = s2" "r = None" using a \<open>off \<noteq> 0\<close> Some s1 s2 by (simp_all add: add_fragment_def)
      then show ?thesis using W2 by simp
    qed
  qed
qed

subsection \<open>The invariant of input\<close>

lemma uncompress_udp_length: "uncompress_udp i p pos buf uc = Some (b, q, n) \<Longrightarrow> length b = length buf"
  by (auto simp: uncompress_udp_def split: if_splits elim!: bind_SomeE dest!: mem_write_length)

lemma uncompress_lengths_length: "uncompress_lengths dl il buf h n = Some b \<Longrightarrow> length b = length buf"
  by (auto simp: uncompress_lengths_def Let_def split: if_splits elim!: bind_SomeE dest!: mem_write_length)

lemma uncompress_iphc_length:
  assumes "uncompress_hdr_iphc cs a b p dl buf il h u = Some (x, h', n)"
  shows "length x = length buf"
  using assms unfolding uncompress_hdr_iphc_def Let_def
  by (auto split: if_splits addr_result.splits elim!: bind_SomeE
      dest!: mem_write_length uncompress_udp_length uncompress_lengths_length)

fun buffer_ok :: "lowpan_buffer \<Rightarrow> bool" where
  "buffer_ok Uip_buf = True"
| "buffer_ok (First_frag c) = (c < SICSLOWPAN_REASS_CONTEXTS)"

lemma wf_set_buffer: "reass_wf s \<Longrightarrow> length b = length (buffer_of bf s) \<Longrightarrow> reass_wf (set_buffer bf b s)"
  by (cases bf) (auto simp: reass_wf_def)

lemma buffer_set_buffer [simp]: "buffer_of bf (set_buffer bf b s) = b"
  by (cases bf) simp_all

lemma wf_uncompress_header:
  assumes "uncompress_header bf sz h s = Some (Some (s', h', n))" "reass_wf s"
  shows "reass_wf s'"
  using assms unfolding uncompress_header_def Let_def
  by (auto split: if_splits elim!: bind_SomeE dest!: mem_write_length uncompress_iphc_length intro!: wf_set_buffer)

lemma copy_loop_keeps:
  assumes "copy_loop is c s = Some s'"
  shows "\<exists>b. s' = s\<lparr>uip_buf := b\<rparr> \<and> length b = length (uip_buf s)"
  using assms
proof (induction "is" arbitrary: s)
  case Nil
  then show ?case by (intro exI [of _ "uip_buf s"]) simp
next
  case (Cons i "is")
  show ?case
  proof (cases "fb_len (frag_buf s i) > 0 \<and> unat (fb_index (frag_buf s i)) = c")
    case True
    from Cons.prems obtain bs b where b: "mem_write (uip_buf s) (unat (push_bit 3 (ucast (fb_offset (frag_buf s i)) :: u16))) bs = Some b"
      "copy_loop is c (s\<lparr>uip_buf := b\<rparr>) = Some s'"
      unfolding copy_loop.simps if_P [OF True] by (elim bind_SomeE)
    from Cons.IH [OF b(2)] mem_write_length [OF b(1)] show ?thesis by auto
  next
    case False
    then have "copy_loop is c s = Some s'" using Cons.prems by (simp only: copy_loop.simps if_False)
    then show ?thesis by (rule Cons.IH)
  qed
qed

lemma wf_copy_frags2uip:
  assumes "copy_frags2uip c s = Some s'" "reass_wf s"
  shows "reass_wf s'"
proof -
  from assms(1) obtain bs b s1 where b: "mem_write (uip_buf s) 0 bs = Some b"
      "copy_loop [0..<SICSLOWPAN_FRAGMENT_BUFFERS] c (s\<lparr>uip_buf := b\<rparr>) = Some s1" "s' = fst (clear_fragments c s1)"
    unfolding copy_frags2uip_def by (elim bind_SomeE) simp
  from copy_loop_keeps [OF b(2)] mem_write_length [OF b(1)] have "reass_wf s1"
    by (auto intro!: reass_wf_cong [OF assms(2)])
  then show ?thesis unfolding b(3) by (rule wf_clear)
qed

lemma wf_copypayload:
  assumes "copypayload bf ctx ff lf sz off h n s = Some s'" "reass_wf s" "\<And>c. ctx = Some c \<Longrightarrow> c < SICSLOWPAN_REASS_CONTEXTS"
  shows "reass_wf s'"
proof (cases "packetbuf_datalen (lp_mac s) < ucast h \<or>
    uint n + uint (push_bit 3 (ucast off) :: u16) + (uint (packetbuf_datalen (lp_mac s)) - uint h) > int UIP_BUFSIZE")
  case True
  then have "s' = s" using assms(1) by (auto simp: copypayload_def Let_def split: if_splits)
  then show ?thesis using assms(2) by simp
next
  case False
  define pl where "pl = uint (packetbuf_datalen (lp_mac s)) - uint h"
  from False assms(1) obtain s1 s2 where
    s1: "(case bf of None \<Rightarrow> Some s
          | Some bf \<Rightarrow> do { bs \<leftarrow> mem_read (packetbuf_ptr s) (unat h) (nat pl);
               b \<leftarrow> mem_write (buffer_of bf s) (unat n) bs; Some (set_buffer bf b s) }) = Some s1"
    and s2: "(case ctx of
        Some c \<Rightarrow> if sz > 0
           then let s' = (if ff then mod_info c (\<lambda>x. x\<lparr>fi_reassembled_len := of_int (uint n + pl),
                                 fi_first_frag_len := of_int (uint n + pl)\<rparr>) s1 else s1)
                in if lf then copy_frags2uip c (mod_info c (\<lambda>x. x\<lparr>fi_reassembled_len := sz\<rparr>) s') else Some s'
           else Some s1
      | None \<Rightarrow> Some s1) = Some s2"
    and s': "s' = (if ctx = None \<or> lf
        then tcpip_deliver (s2\<lparr>uip_len := (if ctx \<noteq> None \<and> lf then sz else of_int (pl + uint n))\<rparr>) else s2)"
    unfolding copypayload_def Let_def pl_def by (auto elim!: bind_SomeE simp: Let_def)
  have w1: "reass_wf s1"
    using s1 assms(2) by (auto split: option.splits elim!: bind_SomeE dest!: mem_write_length intro!: wf_set_buffer)
  have w2: "reass_wf s2"
  proof (cases ctx)
    case None
    then show ?thesis using s2 w1 by simp
  next
    case (Some c)
    define s3 where "s3 = (if ff then mod_info c (\<lambda>x. x\<lparr>fi_reassembled_len := of_int (uint n + pl),
                                 fi_first_frag_len := of_int (uint n + pl)\<rparr>) s1 else s1)"
    have "reass_wf (mod_info c (\<lambda>x. x\<lparr>fi_reassembled_len := of_int (uint n + pl), fi_first_frag_len := of_int (uint n + pl)\<rparr>) s1)"
      by (rule wf_mod_info [OF w1]) (use free_unused [OF w1] in auto)
    then have w3: "reass_wf s3" using w1 by (simp add: s3_def)
    moreover have "reass_wf (mod_info c (\<lambda>x. x\<lparr>fi_reassembled_len := sz\<rparr>) s3)"
      by (rule wf_mod_info [OF w3]) (use free_unused [OF w3] in auto)
    ultimately show ?thesis using s2 w1 unfolding Some option.case Let_def s3_def [symmetric]
      by (auto split: if_splits dest: wf_copy_frags2uip)
  qed
  show ?thesis unfolding s' using w2 by (auto simp: tcpip_deliver_def intro: reass_wf_cong)
qed

lemma wf_input:
  assumes a: "lowpan_input s0 = Some s'" and w: "reass_wf s0"
  shows "reass_wf s'"
proof -
  define s where "s = s0\<lparr>last_rssi := packetbuf_attr PACKETBUF_ATTR_RSSI (lp_mac s0)\<rparr>"
  have ws: "reass_wf s" using w by (auto simp: s_def intro: reass_wf_cong)
  from a obtain d where d: "get16_at (packetbuf_ptr s) 0 = Some d"
    unfolding lowpan_input_def Let_def s_def [symmetric] by (elim bind_SomeE)
  consider "drop_bit 8 (d AND 0xf800) = SICSLOWPAN_DISPATCH_FRAG1"
    | "drop_bit 8 (d AND 0xf800) \<noteq> SICSLOWPAN_DISPATCH_FRAG1" "drop_bit 8 (d AND 0xf800) = SICSLOWPAN_DISPATCH_FRAGN"
    | "drop_bit 8 (d AND 0xf800) \<noteq> SICSLOWPAN_DISPATCH_FRAG1" "drop_bit 8 (d AND 0xf800) \<noteq> SICSLOWPAN_DISPATCH_FRAGN"
    by blast
  then show ?thesis
  proof cases
    case 1
    from a d 1 obtain tag s1 ctx where s1: "add_fragment tag (d AND 0x07ff) 0 SICSLOWPAN_FRAG1_HDR_LEN s = Some (s1, ctx)"
      and r: "(case ctx of None \<Rightarrow> Some s1
       | Some c \<Rightarrow> do {
           r \<leftarrow> uncompress_header (First_frag c) (d AND 0x07ff) SICSLOWPAN_FRAG1_HDR_LEN s1;
           case r of
             None \<Rightarrow> Some s1
           | Some (s2, h, n) \<Rightarrow> copypayload (Some (First_frag c)) (Some c) True False (d AND 0x07ff) 0 h n s2
         }) = Some s'"
      unfolding lowpan_input_def Let_def s_def [symmetric] d by (auto elim!: bind_SomeE)
    note W = wf_add_fragment [OF s1 ws]
    show ?thesis
    proof (cases ctx)
      case None
      then show ?thesis using r W by simp
    next
      case (Some c)
      with W have "c < SICSLOWPAN_REASS_CONTEXTS" by simp
      with r Some W show ?thesis
        by (auto elim!: bind_SomeE split: option.splits) (metis wf_uncompress_header wf_copypayload option.inject)
    qed
  next
    case 2
    from a d 2 obtain tag off s1 ctx where s1: "add_fragment tag (d AND 0x07ff) off SICSLOWPAN_FRAGN_HDR_LEN s = Some (s1, ctx)"
      and r: "(case ctx of None \<Rightarrow> Some s1
       | Some c \<Rightarrow> copypayload None (Some c) False (fi_reassembled_len (frag_info s1 c) \<ge> (d AND 0x07ff)) (d AND 0x07ff) off SICSLOWPAN_FRAGN_HDR_LEN 0 s1) = Some s'"
      unfolding lowpan_input_def Let_def s_def [symmetric] d by (auto elim!: bind_SomeE)
    note W = wf_add_fragment [OF s1 ws]
    show ?thesis
    proof (cases ctx)
      case None
      then show ?thesis using r W by simp
    next
      case (Some c)
      with r W show ?thesis using wf_copypayload [of None "Some c"] by simp
    qed
  next
    case 3
    from a d 3 obtain r where u: "uncompress_header Uip_buf 0 0 s = Some r"
      and r: "(case r of None \<Rightarrow> Some s
         | Some (s2, h, n) \<Rightarrow> copypayload (Some Uip_buf) None False False 0 0 h n s2) = Some s'"
      unfolding lowpan_input_def Let_def s_def [symmetric] d by (auto elim!: bind_SomeE)
    show ?thesis
      using u r ws by (auto split: option.splits) (metis wf_uncompress_header wf_copypayload option.distinct(1))
  qed
qed

end
