(* ===== verification/LowpanRound.thy ===== *)
theory LowpanRound
  imports LowpanReass "HOL-Library.Multiset"
begin

text \<open>
  Reassembly of the fragments of \<open>output\<close>, in any order after the first one, and a packet from the IP buffer of the sender to
  the IP stack of the receiver.
\<close>

unbundle bit_operations_syntax

subsection \<open>Copying the fragments\<close>

text \<open>A buffer that holds a part of the packet, and a received part.\<close>

definition consistent :: "u8 list \<Rightarrow> sicslowpan_frag_buf \<Rightarrow> bool" where
  "consistent u b \<longleftrightarrow> 8 * unat (fb_offset b) + unat (fb_len b) \<le> length u \<and> unat (fb_len b) \<le> length (fb_data b) \<and>
     take (unat (fb_len b)) (fb_data b) = take (unat (fb_len b)) (drop (8 * unat (fb_offset b)) u)"

definition covers :: "nat \<Rightarrow> sicslowpan_frag_buf \<Rightarrow> nat \<Rightarrow> bool" where
  "covers c b j \<longleftrightarrow> in_use c b \<and> 8 * unat (fb_offset b) \<le> j \<and> j < 8 * unat (fb_offset b) + unat (fb_len b)"

lemma unat_offset: "unat (push_bit 3 (ucast (b :: u8)) :: u16) = 8 * unat b"
proof -
  have "unat b < 256" using unsigned_less [of b] by simp
  then have "unat b * 8 < 2 ^ 16" by simp
  then have "take_bit 16 (unat b * 8) = unat b * 8" by (simp only: take_bit_nat_eq_self_iff)
  then show ?thesis
    unfolding unsigned_push_bit_eq unat_ucast_u16 by (simp add: push_bit_eq_mult mult.commute)
qed

lemma nth_write: "j < length m \<Longrightarrow> i + length bs \<le> length m \<Longrightarrow>
    (take i m @ bs @ drop (i + length bs) m) ! j = (if i \<le> j \<and> j < i + length bs then bs ! (j - i) else m ! j)"
  by (auto simp: nth_append)

lemma copy_loop_agrees:
  assumes "\<forall>i \<in> set is. in_use c (frag_buf s i) \<longrightarrow> consistent u (frag_buf s i)" "length u \<le> length (uip_buf s)"
  shows "\<exists>b. copy_loop is c s = Some (s\<lparr>uip_buf := b\<rparr>) \<and> length b = length (uip_buf s) \<and>
    (\<forall>j < length u. (uip_buf s ! j = u ! j \<or> (\<exists>i \<in> set is. covers c (frag_buf s i) j)) \<longrightarrow> b ! j = u ! j)"
  using assms
proof (induction "is" arbitrary: s)
  case Nil
  then show ?case by (intro exI [of _ "uip_buf s"]) simp
next
  case (Cons i "is")
  show ?case
  proof (cases "in_use c (frag_buf s i)")
    case True
    then have con: "consistent u (frag_buf s i)" using Cons.prems(1) by simp
    define off n where "off = 8 * unat (fb_offset (frag_buf s i))" and "n = unat (fb_len (frag_buf s i))"
    define bs where "bs = take n (drop off u)"
    have c: "off + n \<le> length u" "n \<le> length (fb_data (frag_buf s i))" "take n (fb_data (frag_buf s i)) = bs" "length bs = n"
      using con by (auto simp: consistent_def off_def n_def bs_def)
    define b where "b = take off (uip_buf s) @ bs @ drop (off + n) (uip_buf s)"
    have w: "mem_read (fb_data (frag_buf s i)) 0 (unat (fb_len (frag_buf s i))) = Some bs"
      "mem_write (uip_buf s) (unat (push_bit 3 (ucast (fb_offset (frag_buf s i)) :: u16))) bs = Some b"
      using c Cons.prems(2) by (simp_all add: mem_read_def mem_write_def unat_offset b_def off_def n_def)
    have lb: "length b = length (uip_buf s)" using c Cons.prems(2) by (simp add: b_def)
    have bj: "b ! j = (if off \<le> j \<and> j < off + n then u ! j else uip_buf s ! j)" if "j < length u" for j
    proof -
      have "b ! j = (if off \<le> j \<and> j < off + n then bs ! (j - off) else uip_buf s ! j)"
        using nth_write [of j "uip_buf s" off bs] that c Cons.prems(2) unfolding b_def by simp
      moreover have "bs ! (j - off) = u ! j" if "off \<le> j" "j < off + n" using that c by (simp add: bs_def)
      ultimately show ?thesis by simp
    qed
    have "copy_loop (i # is) c s = copy_loop is c (s\<lparr>uip_buf := b\<rparr>)"
      using True w by (simp add: in_use_def)
    moreover obtain b' where b': "copy_loop is c (s\<lparr>uip_buf := b\<rparr>) = Some (s\<lparr>uip_buf := b'\<rparr>)" "length b' = length b"
      "\<forall>j < length u. (b ! j = u ! j \<or> (\<exists>i \<in> set is. covers c (frag_buf s i) j)) \<longrightarrow> b' ! j = u ! j"
      using Cons.IH [of "s\<lparr>uip_buf := b\<rparr>"] Cons.prems lb by auto
    moreover have "b' ! j = u ! j" if j: "j < length u" "uip_buf s ! j = u ! j \<or> (\<exists>k \<in> set (i # is). covers c (frag_buf s k) j)" for j
    proof -
      from j(2) have "b ! j = u ! j \<or> (\<exists>k \<in> set is. covers c (frag_buf s k) j)"
        using bj [OF j(1)] by (auto simp: covers_def off_def n_def)
      then show ?thesis using b'(3) j(1) by blast
    qed
    ultimately show ?thesis using lb by (intro exI [of _ b']) auto
  next
    case False
    then have "copy_loop (i # is) c s = copy_loop is c s" by (auto simp: in_use_def)
    moreover have "\<not> covers c (frag_buf s i) j" for j using False by (simp add: covers_def)
    ultimately show ?thesis using Cons.IH [of s] Cons.prems by simp
  qed
qed

subsection \<open>A context that waits for fragments\<close>

text \<open>The context has the first \<open>f\<close> bytes of the packet and the parts \<open>R\<close> of the rest.\<close>

definition stored :: "lowpan_state \<Rightarrow> nat \<Rightarrow> nat \<times> u8 list \<Rightarrow> bool" where
  "stored s c x \<longleftrightarrow> (\<exists>i < SICSLOWPAN_FRAGMENT_BUFFERS. \<forall>j. fst x \<le> j \<and> j < fst x + length (snd x) \<longrightarrow> covers c (frag_buf s i) j)"

definition part_lengths :: "(nat \<times> u8 list) list \<Rightarrow> nat" where
  "part_lengths R = sum_list (map (\<lambda>x. length (snd x)) R)"

definition partial :: "linkaddr \<Rightarrow> nat \<Rightarrow> u16 \<Rightarrow> u8 list \<Rightarrow> nat \<Rightarrow> (nat \<times> u8 list) list \<Rightarrow> lowpan_state \<Rightarrow> bool" where
  "partial ll c tag u f R s \<longleftrightarrow> reass_wf s \<and> c < SICSLOWPAN_REASS_CONTEXTS \<and>
     (\<forall>k < SICSLOWPAN_REASS_CONTEXTS. (fi_tag (frag_info s k) = tag \<and> fi_len (frag_info s k) > 0 \<and> fi_sender (frag_info s k) = ll) = (k = c)) \<and>
     fi_len (frag_info s c) = of_nat (length u) \<and> unat (fi_first_frag_len (frag_info s c)) = f \<and>
     f \<le> SICSLOWPAN_FIRST_FRAGMENT_SIZE \<and> f \<le> length u \<and> take f (fi_first_frag (frag_info s c)) = take f u \<and>
     unat (fi_reassembled_len (frag_info s c)) = f + part_lengths R \<and>
     (\<forall>i < SICSLOWPAN_FRAGMENT_BUFFERS. in_use c (frag_buf s i) \<longrightarrow> consistent u (frag_buf s i)) \<and>
     (\<forall>x \<in> set R. stored s c x)"

definition piece_ok :: "u8 list \<Rightarrow> nat \<times> u8 list \<Rightarrow> bool" where
  "piece_ok u x \<longleftrightarrow> 8 \<le> fst x \<and> 8 dvd fst x \<and> snd x \<noteq> [] \<and> length (snd x) \<le> 104 \<and> fst x + length (snd x) \<le> length u \<and>
     snd x = take (length (snd x)) (drop (fst x) u)"

definition free_bufs :: "lowpan_state \<Rightarrow> nat set" where
  "free_bufs s = {i. i < SICSLOWPAN_FRAGMENT_BUFFERS \<and> fb_len (frag_buf s i) = 0}"

lemma find_partial:
  assumes "partial ll c tag u f R s" "packetbuf_addr PACKETBUF_ADDR_SENDER (lp_mac s) = ll"
  shows "find_context tag s = Some c"
proof -
  have "c < 2" "\<And>k. k < 2 \<Longrightarrow> (fi_tag (frag_info s k) = tag \<and> fi_len (frag_info s k) > 0 \<and> fi_sender (frag_info s k) = ll) = (k = c)"
    using assms(1) by (simp_all add: partial_def SICSLOWPAN_REASS_CONTEXTS_def)
  then show ?thesis unfolding find_context_def assms(2) SICSLOWPAN_REASS_CONTEXTS_def by (auto simp: find_Some_iff2 upt_rec numeral_2_eq_2)
qed

lemma store_loop_finds:
  assumes "\<exists>i \<in> set is. fb_len (frag_buf s i) = 0" "int n = uint (packetbuf_datalen (lp_mac s)) - uint h"
    "mem_read (packetbuf_ptr s) (unat h) n = Some bs" "\<forall>i \<in> set is. n \<le> length (fb_data (frag_buf s i))"
  shows "\<exists>i \<in> set is. fb_len (frag_buf s i) = 0 \<and>
    store_loop is c off h s = Some (s\<lparr>frag_buf := (frag_buf s)(i := \<lparr>fb_index = of_nat c, fb_offset = off, fb_len = of_nat n,
       fb_data = bs @ drop n (fb_data (frag_buf s i))\<rparr>)\<rparr>, uint (of_nat n :: u8))"
  using assms
proof (induction "is")
  case (Cons i "is")
  show ?case
  proof (cases "fb_len (frag_buf s i) = 0")
    case True
    have l: "length bs = n" by (rule mem_read_length [OF Cons.prems(3)])
    then have "mem_write (fb_data (frag_buf s i)) 0 bs = Some (bs @ drop n (fb_data (frag_buf s i)))"
      using Cons.prems(4) by (simp add: mem_write_def)
    then show ?thesis
      using True Cons.prems(3) by (intro bexI [of _ i]) (simp_all add: Cons.prems(2) [symmetric] Let_def fun_upd_def cong: if_cong)
  next
    case False
    then show ?thesis using Cons by auto
  qed
qed simp

lemma partial_cong:
  assumes "partial ll c tag u f R s" "frag_info s' = frag_info s" "frag_buf s' = frag_buf s" "length (uip_buf s') = length (uip_buf s)"
  shows "partial ll c tag u f R s'"
  using assms reass_wf_cong [of s s'] unfolding partial_def stored_def by simp

lemma piece_offset:
  assumes "piece_ok u x" "length u \<le> UIP_BUFSIZE"
  shows "unat (of_nat (fst x div 8) :: u8) = fst x div 8" "8 * (fst x div 8) = fst x" "(of_nat (fst x div 8) :: u8) \<noteq> 0"
proof -
  have "fst x div 8 < 256" "8 dvd fst x" "1 \<le> fst x div 8"
    using assms by (auto simp: piece_ok_def UIP_BUFSIZE_def less_eq_div_iff_mult_less_eq)
  then show "unat (of_nat (fst x div 8) :: u8) = fst x div 8" "8 * (fst x div 8) = fst x"
    by (simp_all add: unsigned_of_nat take_bit_nat_eq_self_iff)
  then show "(of_nat (fst x div 8) :: u8) \<noteq> 0" using \<open>1 \<le> fst x div 8\<close> by (metis not_one_le_zero unsigned_0)
qed

lemma add_later:
  assumes P: "partial ll c tag u f R s" and sn: "packetbuf_addr PACKETBUF_ADDR_SENDER (lp_mac s) = ll"
    and x: "piece_ok u x" and u: "length u \<le> UIP_BUFSIZE" and le: "f + part_lengths R + length (snd x) \<le> length u"
    and d: "uint (packetbuf_datalen (lp_mac s)) = int (5 + length (snd x))" "reads (packetbuf_ptr s) 5 (snd x)"
    and free: "free_bufs s \<noteq> {}"
  shows "\<exists>s1 i. add_fragment tag (of_nat (length u)) (of_nat (fst x div 8)) SICSLOWPAN_FRAGN_HDR_LEN s = Some (s1, Some c) \<and>
    partial ll c tag u f (R @ [x]) s1 \<and> lp_mac s1 = lp_mac s \<and> packetbuf_ptr s1 = packetbuf_ptr s \<and> lp_delivered s1 = lp_delivered s \<and>
    lp_contexts s1 = lp_contexts s \<and> i \<in> free_bufs s \<and> free_bufs s1 = free_bufs s - {i}"
proof -
  define n where "n = length (snd x)"
  define off where "off = (of_nat (fst x div 8) :: u8)"
  note off = piece_offset [OF x u, folded off_def]
  have w: "reass_wf s" "c < SICSLOWPAN_REASS_CONTEXTS" using P by (simp_all add: partial_def)
  have n: "0 < n" "n \<le> 104" "unat (of_nat n :: u8) = n"
    using x by (simp_all add: piece_ok_def n_def unsigned_of_nat take_bit_nat_eq_self_iff)
  have h5: "unat SICSLOWPAN_FRAGN_HDR_LEN = 5" "uint SICSLOWPAN_FRAGN_HDR_LEN = 5" by (simp_all add: SICSLOWPAN_FRAGN_HDR_LEN_def)
  have "\<exists>i \<in> set [0..<SICSLOWPAN_FRAGMENT_BUFFERS]. fb_len (frag_buf s i) = 0" using free by (auto simp: free_bufs_def)
  moreover have "int n = uint (packetbuf_datalen (lp_mac s)) - uint SICSLOWPAN_FRAGN_HDR_LEN" using d(1) by (simp add: h5 n_def)
  moreover have "mem_read (packetbuf_ptr s) (unat SICSLOWPAN_FRAGN_HDR_LEN) n = Some (snd x)"
    by (rule reads_mem_read) (use d(2) in \<open>simp_all add: h5 n_def\<close>)
  moreover have "\<forall>i \<in> set [0..<SICSLOWPAN_FRAGMENT_BUFFERS]. n \<le> length (fb_data (frag_buf s i))"
    using w(1) n(2) by (auto simp: reass_wf_def SICSLOWPAN_FRAGMENT_SIZE_def)
  ultimately obtain i where i: "i < SICSLOWPAN_FRAGMENT_BUFFERS" "fb_len (frag_buf s i) = 0" and
    st: "store_fragment c off SICSLOWPAN_FRAGN_HDR_LEN s = Some (s\<lparr>frag_buf := (frag_buf s)(i := \<lparr>fb_index = of_nat c, fb_offset = off,
       fb_len = of_nat n, fb_data = snd x @ drop n (fb_data (frag_buf s i))\<rparr>)\<rparr>, uint (of_nat n :: u8))"
    using store_loop_finds [of "[0..<SICSLOWPAN_FRAGMENT_BUFFERS]" s n SICSLOWPAN_FRAGN_HDR_LEN "snd x" c off] unfolding store_fragment_def by auto
  define b where "b = \<lparr>fb_index = of_nat c, fb_offset = off, fb_len = of_nat n, fb_data = snd x @ drop n (fb_data (frag_buf s i))\<rparr>"
  define t where "t = s\<lparr>frag_buf := (frag_buf s)(i := b)\<rparr>"
  define g where "g = (\<lambda>x :: sicslowpan_frag_info. x\<lparr>fi_reassembled_len := fi_reassembled_len x + of_int (uint (of_nat n :: u8))\<rparr>)"
  define s1 where "s1 = mod_info c g t"
  have un: "uint (of_nat n :: u8) = int n" using n(3) by (metis uint_nat)
  have "add_fragment tag (of_nat (length u)) off SICSLOWPAN_FRAGN_HDR_LEN s = Some (s1, Some c)"
    using off(3) find_partial [OF P sn] st n(1)
    by (simp add: add_fragment_def un s1_def g_def t_def b_def)
  note A = this and W = wf_add_fragment [OF this w(1)]
  have c8: "unat (of_nat c :: u8) = c" using w(2) by (simp add: SICSLOWPAN_REASS_CONTEXTS_def unsigned_of_nat take_bit_nat_eq_self_iff)
  have bu: "in_use c b" "8 * unat (fb_offset b) = fst x" "unat (fb_len b) = n" "fb_data b = snd x @ drop n (fb_data (frag_buf s i))"
    using c8 n off by (auto simp: b_def in_use_def word_gt_0)
  have fb: "frag_buf s1 j = (if j = i then b else frag_buf s j)" for j by (simp add: s1_def t_def)
  have con: "consistent u b"
    using x by (simp add: consistent_def bu) (simp add: piece_ok_def n_def)
  have keep: "stored s1 c y" if "stored s c y" for y
  proof (cases "snd y = []")
    case True
    then show ?thesis using i(1) by (auto simp: stored_def)
  next
    case False
    from that obtain k where k: "k < SICSLOWPAN_FRAGMENT_BUFFERS" "\<forall>j. fst y \<le> j \<and> j < fst y + length (snd y) \<longrightarrow> covers c (frag_buf s k) j"
      by (auto simp: stored_def)
    then have "covers c (frag_buf s k) (fst y)" using False by simp
    then have "k \<noteq> i" using i(2) by (auto simp: covers_def in_use_def)
    then show ?thesis using k fb by (auto simp: stored_def)
  qed
  have new: "stored s1 c x" using i(1) fb bu by (auto simp: stored_def covers_def n_def)
  have len: "unat (fi_reassembled_len (frag_info s1 c)) = f + part_lengths (R @ [x])"
  proof -
    have "unat (fi_reassembled_len (frag_info s c)) = f + part_lengths R" using P by (simp add: partial_def)
    moreover have "f + part_lengths R + n < 65536" using le u by (simp add: n_def UIP_BUFSIZE_def)
    ultimately show ?thesis using n(2)
      by (simp add: s1_def t_def g_def un unat_word_ariths unsigned_of_nat take_bit_eq_mod part_lengths_def n_def)
  qed
  have fi: "fi_tag (frag_info s1 k) = fi_tag (frag_info s k)" "fi_len (frag_info s1 k) = fi_len (frag_info s k)"
    "fi_sender (frag_info s1 k) = fi_sender (frag_info s k)" "fi_first_frag_len (frag_info s1 k) = fi_first_frag_len (frag_info s k)"
    "fi_first_frag (frag_info s1 k) = fi_first_frag (frag_info s k)" for k
    by (simp_all add: s1_def t_def g_def)
  have part: "partial ll c tag u f (R @ [x]) s1"
    unfolding partial_def fi fb
  proof (intro conjI)
    show "reass_wf s1" using W by blast
    show "\<forall>j < SICSLOWPAN_FRAGMENT_BUFFERS. in_use c (if j = i then b else frag_buf s j) \<longrightarrow> consistent u (if j = i then b else frag_buf s j)"
      using P con by (auto simp: partial_def)
    show "\<forall>y \<in> set (R @ [x]). stored s1 c y" using P keep new by (auto simp: partial_def)
    show "unat (fi_reassembled_len (frag_info s1 c)) = f + part_lengths (R @ [x])" by (rule len)
  qed (use P in \<open>auto simp: partial_def\<close>)
  have fr: "i \<in> free_bufs s" "free_bufs s1 = free_bufs s - {i}"
    using i bu(3) n(1) by (auto simp: free_bufs_def fb)
  have "lp_mac s1 = lp_mac s" "packetbuf_ptr s1 = packetbuf_ptr s" "lp_delivered s1 = lp_delivered s" "lp_contexts s1 = lp_contexts s"
    by (simp_all add: s1_def t_def packetbuf_ptr_def)
  then show ?thesis using A part fr unfolding off_def by blast
qed

lemma copy_frags_packet:
  assumes P: "partial ll c tag u f R s" and u: "length u \<le> UIP_BUFSIZE"
    and cover: "\<forall>j. f \<le> j \<and> j < length u \<longrightarrow> (\<exists>x \<in> set R. fst x \<le> j \<and> j < fst x + length (snd x))"
  shows "\<exists>s'. copy_frags2uip c s = Some s' \<and> take (length u) (uip_buf s') = u \<and> lp_delivered s' = lp_delivered s \<and>
    fi_len (frag_info s' c) = 0"
proof -
  have w: "reass_wf s" "c < SICSLOWPAN_REASS_CONTEXTS" and ff: "unat (fi_first_frag_len (frag_info s c)) = f" "f \<le> length u"
    "f \<le> SICSLOWPAN_FIRST_FRAGMENT_SIZE" "take f (fi_first_frag (frag_info s c)) = take f u"
    and con: "\<forall>i < SICSLOWPAN_FRAGMENT_BUFFERS. in_use c (frag_buf s i) \<longrightarrow> consistent u (frag_buf s i)"
    and st: "\<forall>x \<in> set R. stored s c x"
    using P by (simp_all add: partial_def)
  have L: "length (uip_buf s) = UIP_BUFSIZE" "length (fi_first_frag (frag_info s c)) = SICSLOWPAN_FIRST_FRAGMENT_SIZE"
    using w by (auto simp: reass_wf_def)
  define b0 where "b0 = take f u @ drop f (uip_buf s)"
  have r: "mem_read (fi_first_frag (frag_info s c)) 0 (unat (fi_first_frag_len (frag_info s c))) = Some (take f u)"
    "mem_write (uip_buf s) 0 (take f u) = Some b0"
    using ff L u by (simp_all add: mem_read_def mem_write_def b0_def)
  have l0: "length b0 = UIP_BUFSIZE" using ff L u by (simp add: b0_def)
  have A1: "\<forall>i \<in> set [0..<SICSLOWPAN_FRAGMENT_BUFFERS]. in_use c (frag_buf (s\<lparr>uip_buf := b0\<rparr>) i) \<longrightarrow> consistent u (frag_buf (s\<lparr>uip_buf := b0\<rparr>) i)"
    using con by simp
  have A2: "length u \<le> length (uip_buf (s\<lparr>uip_buf := b0\<rparr>))" using u l0 by simp
  from copy_loop_agrees [OF A1 A2] obtain b where "copy_loop [0..<SICSLOWPAN_FRAGMENT_BUFFERS] c (s\<lparr>uip_buf := b0\<rparr>) = Some (s\<lparr>uip_buf := b0\<rparr>\<lparr>uip_buf := b\<rparr>)"
    "length b = length (uip_buf (s\<lparr>uip_buf := b0\<rparr>))"
    "\<forall>j < length u. (uip_buf (s\<lparr>uip_buf := b0\<rparr>) ! j = u ! j \<or> (\<exists>i \<in> set [0..<SICSLOWPAN_FRAGMENT_BUFFERS].
       covers c (frag_buf (s\<lparr>uip_buf := b0\<rparr>) i) j)) \<longrightarrow> b ! j = u ! j"
    by blast
  then have b: "copy_loop [0..<SICSLOWPAN_FRAGMENT_BUFFERS] c (s\<lparr>uip_buf := b0\<rparr>) = Some (s\<lparr>uip_buf := b\<rparr>)"
    "length b = length b0" "\<forall>j < length u. (b0 ! j = u ! j \<or> (\<exists>i < SICSLOWPAN_FRAGMENT_BUFFERS. covers c (frag_buf s i) j)) \<longrightarrow> b ! j = u ! j"
    by (simp_all add: Bex_def)
  have "b ! j = u ! j" if j: "j < length u" for j
  proof (cases "j < f")
    case True
    then have "b0 ! j = u ! j" using j ff by (simp add: b0_def nth_append)
    then show ?thesis using b(3) j by blast
  next
    case False
    then have "f \<le> j \<and> j < length u" using j by simp
    then obtain x where "x \<in> set R" "fst x \<le> j" "j < fst x + length (snd x)" using cover by blast
    then have "\<exists>i < SICSLOWPAN_FRAGMENT_BUFFERS. covers c (frag_buf s i) j" using st unfolding stored_def by blast
    then show ?thesis using b(3) j by blast
  qed
  then have "take (length u) b = u" using b(2) l0 u by (intro nth_equalityI) simp_all
  moreover have "copy_frags2uip c s = Some (fst (clear_fragments c (s\<lparr>uip_buf := b\<rparr>)))"
    unfolding copy_frags2uip_def r Option.bind.bind_lunit b(1) by (rule refl)
  ultimately show ?thesis by (simp add: clear_fragments_eq)
qed

lemma input_later:
  assumes P: "partial ll c tag u f R s" and m: "carries ll d (later_frame (of_nat (length u)) tag x) (lp_mac s)"
    and x: "piece_ok u x" and u: "length u \<le> UIP_BUFSIZE" and le: "f + part_lengths (R @ [x]) \<le> length u"
    and free: "free_bufs s \<noteq> {}"
    and cover: "\<And>j. f + part_lengths (R @ [x]) = length u \<Longrightarrow> f \<le> j \<Longrightarrow> j < length u \<Longrightarrow>
      \<exists>y \<in> set (R @ [x]). fst y \<le> j \<and> j < fst y + length (snd y)"
  shows "\<exists>s' i. lowpan_input s = Some s' \<and> (if f + part_lengths (R @ [x]) < length u
    then partial ll c tag u f (R @ [x]) s' \<and> lp_delivered s' = lp_delivered s \<and> i \<in> free_bufs s \<and> free_bufs s' = free_bufs s - {i}
    else lp_delivered s' = lp_delivered s @ [u])"
proof -
  define t where "t = s\<lparr>last_rssi := packetbuf_attr PACKETBUF_ATTR_RSSI (lp_mac s)\<rparr>"
  have ft: "lp_mac t = lp_mac s" "uip_buf t = uip_buf s" "lp_delivered t = lp_delivered s"
    "frag_info t = frag_info s" "frag_buf t = frag_buf s" by (simp_all add: t_def)
  have Pt: "partial ll c tag u f R t" by (rule partial_cong [OF P]) (simp_all add: ft)
  define sz where "sz = (of_nat (length u) :: u16)"
  have lu: "unat sz = length u" using u by (simp add: sz_def UIP_BUFSIZE_def unsigned_of_nat take_bit_nat_eq_self_iff)
  have lu2: "unat sz < 2048" using lu u by (simp add: UIP_BUFSIZE_def)
  define n where "n = length (snd x)"
  define off where "off = (of_nat (fst x div 8) :: u8)"
  note off = piece_offset [OF x u, folded off_def]
  note cp = carries_ptr [OF m [folded ft(1)]]
  have ll5: "length (later_frame (of_nat (length u)) tag x) = 5 + n" by (simp add: later_frame_def n_def)
  have rd: "reads (packetbuf_ptr t) 0 (set16 (push_bit 8 SICSLOWPAN_DISPATCH_FRAGN OR sz))" "reads (packetbuf_ptr t) 2 (set16 tag)"
    "rd (packetbuf_ptr t) 4 = Some off" "reads (packetbuf_ptr t) 5 (snd x)"
    using cp(1) unfolding later_frame_def reads_append sz_def [symmetric] off_def [symmetric]
    by (simp_all add: reads_rd eval_nat_numeral)
  have sn: "packetbuf_addr PACKETBUF_ADDR_SENDER (lp_mac t) = ll" using m by (simp add: carries_def ft)
  have d: "uint (packetbuf_datalen (lp_mac t)) = int (5 + length (snd x))" using cp(4) ll5 by (simp add: n_def)
  have le': "f + part_lengths R + length (snd x) \<le> length u" using le by (simp add: part_lengths_def)
  have ft': "free_bufs t = free_bufs s" by (simp add: free_bufs_def ft)
  from add_later [OF Pt sn x u le' d rd(4)] free obtain s1 i where
    s1: "add_fragment tag sz off SICSLOWPAN_FRAGN_HDR_LEN t = Some (s1, Some c)" "partial ll c tag u f (R @ [x]) s1" "lp_mac s1 = lp_mac t"
      "packetbuf_ptr s1 = packetbuf_ptr t" "lp_delivered s1 = lp_delivered s" "i \<in> free_bufs s" "free_bufs s1 = free_bufs s - {i}"
    unfolding sz_def off_def ft' ft(3) by blast
  define lf where "lf \<longleftrightarrow> sz \<le> fi_reassembled_len (frag_info s1 c)"
  have lf: "lf = (\<not> f + part_lengths (R @ [x]) < length u)"
    using s1(2) lu by (auto simp: lf_def partial_def word_le_nat_alt)
  have inp: "lowpan_input s = copypayload None (Some c) False lf sz off SICSLOWPAN_FRAGN_HDR_LEN 0 s1"
    unfolding lowpan_input_def Let_def t_def [symmetric] get16_set16 [OF rd(1)] get16_set16 [OF rd(2)] Option.bind.bind_lunit
      dispatch_bits [OF lu2] if_not_P [OF dispatch_bits(5) [OF lu2]] if_P [OF refl] rd(3) s1(1) prod.case option.case lf_def by (rule refl)
  have h5: "unat SICSLOWPAN_FRAGN_HDR_LEN = 5" "uint SICSLOWPAN_FRAGN_HDR_LEN = 5" by (simp_all add: SICSLOWPAN_FRAGN_HDR_LEN_def)
  have c1: "\<not> packetbuf_datalen (lp_mac s1) < ucast SICSLOWPAN_FRAGN_HDR_LEN"
    using cp(2) ll5 s1(3) by (simp add: word_less_nat_alt unat_ucast_u16 h5)
  have c2: "uint (packetbuf_datalen (lp_mac s1)) - uint SICSLOWPAN_FRAGN_HDR_LEN = int n" using d s1(3) by (simp add: h5 n_def)
  have c3: "\<not> int UIP_BUFSIZE < uint (0 :: u8) + uint (push_bit 3 (ucast off) :: u16) + int n"
  proof -
    have "unat (push_bit 3 (ucast off) :: u16) = fst x" using unat_offset [of off] off by simp
    then have "uint (push_bit 3 (ucast off) :: u16) = int (fst x)" by (metis uint_nat)
    then show ?thesis using x u by (simp add: piece_ok_def n_def)
  qed
  have sz0: "0 < sz" using lu x by (auto simp: piece_ok_def word_gt_0 dest!: arg_cong [of _ _ unat])
  show ?thesis
  proof (cases lf)
    case False
    then have "copypayload None (Some c) False lf sz off SICSLOWPAN_FRAGN_HDR_LEN 0 s1 = Some s1"
      unfolding copypayload_def Let_def c2 if_not_P [OF c1] if_not_P [OF c3] option.case if_P [OF sz0] by simp
    then show ?thesis using inp s1 False lf by auto
  next
    case True
    define s2 where "s2 = mod_info c (\<lambda>x. x\<lparr>fi_reassembled_len := sz\<rparr>) s1"
    have "copypayload None (Some c) False lf sz off SICSLOWPAN_FRAGN_HDR_LEN 0 s1 =
       copy_frags2uip c s2 \<bind> (\<lambda>t. Some (tcpip_deliver (t\<lparr>uip_len := sz\<rparr>)))"
      using True unfolding copypayload_def Let_def c2 if_not_P [OF c1] if_not_P [OF c3] option.case if_P [OF sz0] s2_def by simp
    moreover have "s2 = s1"
    proof -
      have e: "f + part_lengths (R @ [x]) = length u" using True lf le by simp
      have "unat (fi_reassembled_len (frag_info s1 c)) = unat sz" using s1(2) lu e by (simp add: partial_def)
      then have e: "fi_reassembled_len (frag_info s1 c) = sz" by (simp only: word_unat_eq_iff)
      have "(frag_info s1 c)\<lparr>fi_reassembled_len := fi_reassembled_len (frag_info s1 c)\<rparr> = frag_info s1 c" by simp
      then have "(frag_info s1 c)\<lparr>fi_reassembled_len := sz\<rparr> = frag_info s1 c" by (simp only: e)
      then show ?thesis by (simp add: s2_def mod_info_def)
    qed
    moreover obtain s3 where "copy_frags2uip c s1 = Some s3" "take (length u) (uip_buf s3) = u" "lp_delivered s3 = lp_delivered s1"
      using copy_frags_packet [OF s1(2) u] cover True lf le by (metis le_neq_implies_less)
    ultimately have "lowpan_input s = Some (tcpip_deliver (s3\<lparr>uip_len := sz\<rparr>))"
      "lp_delivered (tcpip_deliver (s3\<lparr>uip_len := sz\<rparr>)) = lp_delivered s @ [u]"
      using inp lu s1(5) by (simp_all add: tcpip_deliver_def)
    then show ?thesis using True lf by auto
  qed
qed

lemma hdr_min:
  assumes "compress_hdr_iphc cs ll d u = (hdr, n)"
  shows "3 \<le> length hdr"
  using assms
proof (cases rule: compress_hdr_fields)
  case (1 tc T ttl L s1 s2 S d1 d2 D cid)
  have "1 \<le> length (compress_udp u)" by (rule compress_udp_form [of u]) simp
  then show ?thesis unfolding 1(6) by simp
qed

lemma unat_of_nat_byte: "m < 256 \<Longrightarrow> unat (of_nat m :: u8) = m"
  by (simp add: unsigned_of_nat take_bit_nat_eq_self_iff)

lemma first_size_max: "3 \<le> length hdr \<Longrightarrow> first_size d hdr \<le> 96"
  using lowpan_max_cases [of d] by (auto simp: first_size_def)

lemma input_first:
  assumes w: "reass_wf s" and u: "ip_packet_ok u" "length u \<le> UIP_BUFSIZE" and l: "length ll = 8" "length d = 8"
    and cs: "contexts_ok (lp_contexts s)" and c: "compress_hdr_iphc (lp_contexts s) ll d u = (hdr, n)"
    and src: "addr_context_lookup_by_prefix (lp_contexts s) (ip_src u) = None \<Longrightarrow> dest_mid_zero u \<Longrightarrow> ll_mid_zero (ip_src u)"
    and m: "carries ll d (first_frame (of_nat (length u)) tag hdr (take fs (drop (unat n) u))) (lp_mac s)"
    and fs: "fs = first_size d hdr" "unat n + fs < length u"
    and free: "\<exists>k < SICSLOWPAN_REASS_CONTEXTS. fi_len (frag_info s k) = 0"
    and none: "\<forall>k < SICSLOWPAN_REASS_CONTEXTS. \<not> (fi_tag (frag_info s k) = tag \<and> fi_len (frag_info s k) > 0 \<and> fi_sender (frag_info s k) = ll)"
  shows "\<exists>s' k. lowpan_input s = Some s' \<and> partial ll k tag u (unat n + fs) [] s' \<and> lp_delivered s' = lp_delivered s \<and>
    free_bufs s \<subseteq> free_bufs s'"
proof -
  define t where "t = s\<lparr>last_rssi := packetbuf_attr PACKETBUF_ATTR_RSSI (lp_mac s)\<rparr>"
  have ft: "lp_mac t = lp_mac s" "uip_buf t = uip_buf s" "lp_delivered t = lp_delivered s" "lp_contexts t = lp_contexts s"
    "frag_info t = frag_info s" "frag_buf t = frag_buf s" by (simp_all add: t_def)
  have wt: "reass_wf t" by (rule reass_wf_cong [OF w]) (simp_all add: ft)
  have len: "40 \<le> length u" "u ! 6 = UIP_PROTO_UDP \<Longrightarrow> 48 \<le> length u" using u by (simp_all add: ip_packet_ok_def)
  have n: "unat n \<le> 48" using c by (rule compress_hdr_fields) simp
  have hl: "length hdr \<le> 47" "3 \<le> length hdr" using compress_hdr_length [OF len(1) cs c] hdr_min [OF c] .
  have fs96: "fs \<le> 96" using first_size_max [OF hl(2)] by (simp add: fs)
  define sz where "sz = (of_nat (length u) :: u16)"
  have lu: "unat sz = length u" using u(2) by (simp add: sz_def UIP_BUFSIZE_def unsigned_of_nat take_bit_nat_eq_self_iff)
  have lu2: "unat sz < 2048" using lu u(2) by (simp add: UIP_BUFSIZE_def)
  have sz0: "0 < sz" using lu len(1) by (auto simp: word_gt_0)
  define pay where "pay = take fs (drop (unat n) u)"
  have pay: "length pay = fs" using fs(2) by (simp add: pay_def)
  note cp = carries_ptr [OF m [folded ft(1)]]
  have ll: "length (first_frame (of_nat (length u)) tag hdr (take fs (drop (unat n) u))) = 4 + length hdr + fs"
    using pay by (simp add: first_frame_def pay_def)
  have rd: "reads (packetbuf_ptr t) 0 (set16 (push_bit 8 SICSLOWPAN_DISPATCH_FRAG1 OR sz))" "reads (packetbuf_ptr t) 2 (set16 tag)"
    "reads (packetbuf_ptr t) 4 hdr" "reads (packetbuf_ptr t) (4 + length hdr) pay"
    using cp(1) unfolding first_frame_def reads_append sz_def [symmetric] pay_def [symmetric]
    by (simp_all add: eval_nat_numeral)
  obtain s1 q where lp: "free_context_loop [0..<SICSLOWPAN_REASS_CONTEXTS] None t = (s1, q)" by fastforce
  note R = free_context_loop_result [OF lp wt]
  have "\<exists>i \<in> set [0..<SICSLOWPAN_REASS_CONTEXTS]. fi_len (frag_info t i) = 0" using free by (auto simp: ft)
  then obtain k where q: "q = Some k" "k < SICSLOWPAN_REASS_CONTEXTS" "fi_len (frag_info s1 k) = 0" using R by (cases q) auto
  have of1: "only_freed t s1" and w1: "reass_wf s1" using R by blast+
  note fr = only_freed_sel [OF of1]
  define g where "g = (\<lambda>x :: sicslowpan_frag_info. x\<lparr>fi_len := sz, fi_tag := tag, fi_sender := packetbuf_addr PACKETBUF_ADDR_SENDER (lp_mac s1),
                    fi_timer := timer_set (clock_time s1) (SICSLOWPAN_REASS_MAXAGE * CLOCK_SECOND div 16)\<rparr>)"
  define s2 where "s2 = mod_info k g s1"
  have A: "add_fragment tag sz 0 SICSLOWPAN_FRAG1_HDR_LEN t = Some (s2, Some k)"
    using lp q(1) by (simp add: add_fragment_def s2_def g_def)
  have w2: "reass_wf s2" using wf_add_fragment [OF A wt] by blast
  have ad: "packetbuf_addr PACKETBUF_ADDR_SENDER (lp_mac s2) = ll" "packetbuf_addr PACKETBUF_ADDR_RECEIVER (lp_mac s2) = d"
    using m fr by (simp_all add: carries_def ft s2_def)
  have f2: "lp_contexts s2 = lp_contexts s" "packetbuf_ptr s2 = packetbuf_ptr t" "lp_mac s2 = lp_mac t" using fr by (simp_all add: s2_def ft)
  have h4: "unat SICSLOWPAN_FRAG1_HDR_LEN = 4" by (simp add: SICSLOWPAN_FRAG1_HDR_LEN_def)
  define h where "h = (of_nat (unat SICSLOWPAN_FRAG1_HDR_LEN + length hdr) :: u8)"
  define bf where "bf = fi_first_frag (frag_info s2 k)"
  have lb: "length bf = 148" using w2 q(2) by (simp add: reass_wf_def bf_def SICSLOWPAN_FIRST_FRAGMENT_SIZE_def SICSLOWPAN_FRAGMENT_SIZE_def)
  define bf1 where "bf1 = take (unat n) u @ drop (unat n) bf"
  define s3 where "s3 = set_buffer (First_frag k) bf1 s2"
  have U: "uncompress_header (First_frag k) sz SICSLOWPAN_FRAG1_HDR_LEN s2 = Some (Some (s3, h, n))"
    unfolding s3_def h_def bf1_def bf_def buffer_of.simps [symmetric]
    by (rule uncompress_header_own [OF u(1) l _ _ _ _ _ _ ad])
      (use cs c src rd(3) lb in \<open>simp_all add: f2 h4 sz_def bf_def\<close>)
  have inp: "lowpan_input s = copypayload (Some (First_frag k)) (Some k) True False sz 0 h n s3"
    unfolding lowpan_input_def Let_def t_def [symmetric] get16_set16 [OF rd(1)] get16_set16 [OF rd(2)] Option.bind.bind_lunit
      dispatch_bits [OF lu2] if_P [OF refl] A prod.case option.case U by (rule refl)
  have f3: "lp_mac s3 = lp_mac t" "packetbuf_ptr s3 = packetbuf_ptr t" "buffer_of (First_frag k) s3 = bf1"
    by (simp_all add: s3_def f2)
  have "4 + length hdr < 256" using hl by simp
  then have uh: "unat h = 4 + length hdr" unfolding h_def h4 by (rule unat_of_nat_byte)
  then have uih: "uint h = int (4 + length hdr)" by (metis uint_nat)
  have c1: "\<not> packetbuf_datalen (lp_mac t) < ucast h" using cp(2) ll uh by (simp add: word_less_nat_alt unat_ucast_u16)
  have c2: "uint (packetbuf_datalen (lp_mac t)) - uint h = int fs" using cp(4) ll uih by simp
  have c3: "\<not> int UIP_BUFSIZE < uint n + uint (push_bit 3 (ucast (0 :: u8)) :: u16) + int fs"
  proof -
    have "int (unat n) \<le> 48" using n by linarith
    then show ?thesis using fs96 by (simp add: UIP_BUFSIZE_def)
  qed
  have c4: "mem_read (packetbuf_ptr t) (unat h) fs = Some pay" by (rule reads_mem_read) (use rd(4) uh pay in simp_all)
  define bf2 where "bf2 = take (unat n + fs) u @ drop (unat n + fs) bf1"
  have c5: "mem_write bf1 (unat n) pay = Some bf2"
  proof -
    have "unat n + fs \<le> length bf1" using n fs96 lb fs(2) by (simp add: bf1_def)
    moreover have "take (unat n) bf1 = take (unat n) u" using fs(2) by (simp add: bf1_def)
    moreover have "take (unat n + fs) u = take (unat n) u @ pay" by (simp add: take_add pay_def)
    ultimately show ?thesis using pay by (simp add: mem_write_def bf2_def)
  qed
  define s4 where "s4 = mod_info k (\<lambda>x. x\<lparr>fi_reassembled_len := of_int (uint n + int fs), fi_first_frag_len := of_int (uint n + int fs)\<rparr>)
      (set_buffer (First_frag k) bf2 s3)"
  have E: "lowpan_input s = Some s4"
    unfolding inp copypayload_def f3 Let_def c2 if_not_P [OF c1] if_not_P [OF c3] option.case nat_int c4 Option.bind.bind_lunit c5
      if_P [OF sz0] s4_def by simp
  have fi: "frag_info s4 k = (g (frag_info s1 k))\<lparr>fi_first_frag := bf2, fi_reassembled_len := of_int (uint n + int fs),
      fi_first_frag_len := of_int (uint n + int fs)\<rparr>" "j \<noteq> k \<Longrightarrow> frag_info s4 j = frag_info s1 j" "frag_buf s4 = frag_buf s1" for j
    by (simp_all add: s4_def s3_def s2_def)
  have "unat n + fs < 65536" using n fs96 by simp
  moreover have "(of_int (uint n + int fs) :: u16) = of_nat (unat n + fs)"
  proof -
    have "uint n + int fs = int (unat n + fs)" by simp
    then show ?thesis by (simp only: of_int_of_nat_eq)
  qed
  ultimately have un: "unat (of_int (uint n + int fs) :: u16) = unat n + fs"
    by (simp only: unsigned_of_nat) (simp add: take_bit_nat_eq_self_iff)
  have "partial ll k tag u (unat n + fs) [] s4"
    unfolding partial_def
  proof (intro conjI)
    have "length bf2 = length bf1" using c5 mem_write_length by blast
    moreover have "length bf1 = length bf" using n lb fs(2) by (simp add: bf1_def)
    ultimately show "reass_wf s4"
      using wf_copypayload [OF E [unfolded inp]] wf_set_buffer [OF w2, of bf1 "First_frag k"] q(2) by (simp add: s3_def bf_def)
    show "\<forall>j < SICSLOWPAN_REASS_CONTEXTS. (fi_tag (frag_info s4 j) = tag \<and> fi_len (frag_info s4 j) > 0 \<and> fi_sender (frag_info s4 j) = ll) = (j = k)"
    proof (intro allI impI)
      fix j assume j: "j < SICSLOWPAN_REASS_CONTEXTS"
      show "(fi_tag (frag_info s4 j) = tag \<and> fi_len (frag_info s4 j) > 0 \<and> fi_sender (frag_info s4 j) = ll) = (j = k)"
      proof (cases "j = k")
        case True
        then show ?thesis using ad(1) sz0 by (simp add: fi(1) g_def s2_def)
      next
        case False
        have "frag_info s1 j = frag_info s j \<or> frag_info s1 j = (frag_info s j)\<lparr>fi_len := 0\<rparr>"
          using of1 unfolding only_freed_def ft by blast
        then show ?thesis using False none j by (auto simp: fi(2))
      qed
    qed
    show "take (unat n + fs) (fi_first_frag (frag_info s4 k)) = take (unat n + fs) u"
      using fs(2) by (simp add: fi(1) bf2_def)
    show "\<forall>i < SICSLOWPAN_FRAGMENT_BUFFERS. in_use k (frag_buf s4 i) \<longrightarrow> consistent u (frag_buf s4 i)"
      using free_unused [OF w1 q(3)] by (simp add: fi(3))
  qed (use q n fs96 fs un in \<open>simp_all add: fi(1) g_def sz_def part_lengths_def SICSLOWPAN_FIRST_FRAGMENT_SIZE_def SICSLOWPAN_FRAGMENT_SIZE_def\<close>)
  moreover have "lp_delivered s4 = lp_delivered s" using fr by (simp add: s4_def s3_def s2_def ft)
  moreover have "free_bufs s \<subseteq> free_bufs s4"
  proof
    fix i assume i: "i \<in> free_bufs s"
    have "frag_buf s1 i = frag_buf s i \<or> frag_buf s1 i = (frag_buf s i)\<lparr>fb_len := 0\<rparr>" using of1 unfolding only_freed_def ft by blast
    then show "i \<in> free_bufs s4" using i by (auto simp: free_bufs_def fi(3))
  qed
  ultimately show ?thesis using E by blast
qed

subsection \<open>All the fragments\<close>

text \<open>The packet buffer takes the received frames one after the other.\<close>

fun receive_all :: "csma_state list \<Rightarrow> lowpan_state \<Rightarrow> lowpan_state option" where
  "receive_all [] s = Some s"
| "receive_all (m # ms) s = do { s1 \<leftarrow> lowpan_input (s\<lparr>lp_mac := m\<rparr>); receive_all ms s1 }"

lemma part_lengths_append [simp]: "part_lengths (R @ S) = part_lengths R + part_lengths S"
  by (simp add: part_lengths_def)

lemma part_lengths_Cons [simp]: "part_lengths [] = 0" "part_lengths (x # S) = length (snd x) + part_lengths S"
  by (simp_all add: part_lengths_def)

lemma part_lengths_mset: "part_lengths R = (\<Sum>x \<in># mset R. length (snd x))"
  by (simp add: part_lengths_def sum_mset_sum_list flip: mset_map)

lemma receive_later:
  assumes "partial ll c tag u f R s" "list_all2 (\<lambda>x m. carries ll d (later_frame (of_nat (length u)) tag x) m) xs ms"
    and "\<forall>x \<in> set xs. piece_ok u x" "f + part_lengths (R @ xs) = length u" "xs \<noteq> []" "length xs \<le> card (free_bufs s)"
    and u: "length u \<le> UIP_BUFSIZE"
    and "\<And>j. f \<le> j \<Longrightarrow> j < length u \<Longrightarrow> \<exists>y \<in> set (R @ xs). fst y \<le> j \<and> j < fst y + length (snd y)"
  shows "\<exists>s'. receive_all ms s = Some s' \<and> lp_delivered s' = lp_delivered s @ [u]"
  using assms(1-6, 8)
proof (induction xs arbitrary: R s ms)
  case (Cons x xs)
  obtain m ms' where ms: "ms = m # ms'" "carries ll d (later_frame (of_nat (length u)) tag x) m"
    "list_all2 (\<lambda>x m. carries ll d (later_frame (of_nat (length u)) tag x) m) xs ms'"
    using Cons.prems(2) by (auto simp: list_all2_Cons1)
  define t where "t = s\<lparr>lp_mac := m\<rparr>"
  have P: "partial ll c tag u f R t" by (rule partial_cong [OF Cons.prems(1)]) (simp_all add: t_def)
  have ft: "free_bufs t = free_bufs s" "lp_mac t = m" "lp_delivered t = lp_delivered s" by (simp_all add: t_def free_bufs_def)
  have fin: "finite (free_bufs s)" by (simp add: free_bufs_def)
  have x: "piece_ok u x" using Cons.prems(3) by simp
  have le: "f + part_lengths (R @ [x]) \<le> length u" using Cons.prems(4) by simp
  have ne: "free_bufs t \<noteq> {}" using Cons.prems(6) ft by auto
  have c: "\<exists>y \<in> set (R @ [x]). fst y \<le> j \<and> j < fst y + length (snd y)"
    if "f + part_lengths (R @ [x]) = length u" "f \<le> j" "j < length u" for j
  proof -
    have "part_lengths xs = 0" using that(1) Cons.prems(4) by simp
    then have "xs = []" using Cons.prems(3) by (cases xs) (auto simp: piece_ok_def)
    then show ?thesis using Cons.prems(7) [OF that(2, 3)] by simp
  qed
  obtain s1 i where s1: "lowpan_input t = Some s1" "if f + part_lengths (R @ [x]) < length u
    then partial ll c tag u f (R @ [x]) s1 \<and> lp_delivered s1 = lp_delivered t \<and> i \<in> free_bufs t \<and> free_bufs s1 = free_bufs t - {i}
    else lp_delivered s1 = lp_delivered t @ [u]"
    using input_later [OF P ms(2) [folded ft(2)] x u le ne c] by blast
  have rec: "receive_all ms s = receive_all ms' s1" using s1(1) by (simp add: ms(1) t_def)
  show ?case
  proof (cases "xs = []")
    case True
    then have "\<not> f + part_lengths (R @ [x]) < length u" "ms' = []" using Cons.prems(4) ms(3) by simp_all
    then show ?thesis using s1(2) rec ft by simp
  next
    case False
    then obtain y ys where "xs = y # ys" by (cases xs) auto
    then have "0 < part_lengths xs" using Cons.prems(3) by (auto simp: piece_ok_def)
    then have lt: "f + part_lengths (R @ [x]) < length u" using Cons.prems(4) by simp
    then have s1': "partial ll c tag u f (R @ [x]) s1" "lp_delivered s1 = lp_delivered s" "i \<in> free_bufs s" "free_bufs s1 = free_bufs s - {i}"
      using s1(2) ft by simp_all
    have "length xs \<le> card (free_bufs s1)" using Cons.prems(6) s1'(3, 4) fin by simp
    then have "\<exists>s'. receive_all ms' s1 = Some s' \<and> lp_delivered s' = lp_delivered s1 @ [u]"
      using Cons.prems False by (intro Cons.IH [OF s1'(1) ms(3)]) simp_all
    then show ?thesis using rec s1'(2) by simp
  qed
qed simp

subsection \<open>The pieces of a packet\<close>

lemma pieces_ok:
  assumes "0 < step" "step \<le> 104" "8 dvd step"
  shows "8 \<le> off \<Longrightarrow> 8 dvd off \<Longrightarrow> x \<in> set (pieces step off u) \<Longrightarrow> piece_ok u x"
  using assms
proof (induction step off u rule: pieces.induct)
  case (1 step off u)
  show ?case
  proof (cases "off < length u")
    case True
    have ih: "x \<in> set (pieces step (off + step) u) \<Longrightarrow> piece_ok u x" using 1 True by simp
    have "piece_ok u (off, take step (drop off u))" using 1 True by (auto simp: piece_ok_def min_def)
    then show ?thesis using 1 True ih by (auto simp: pieces_step)
  next
    case False
    then show ?thesis using 1 by (simp add: pieces_end)
  qed
qed

lemma pieces_sum: "0 < step \<Longrightarrow> off \<le> length u \<Longrightarrow> off + part_lengths (pieces step off u) = length u"
proof (induction step off u rule: pieces.induct)
  case (1 step off u)
  consider "off = length u" | "off < length u" "off + step \<le> length u" | "off < length u" "length u < off + step"
    using 1(3) by linarith
  then show ?case
  proof cases
    case 1
    then show ?thesis by (simp add: pieces_end)
  next
    case 2
    then have "off + step + part_lengths (pieces step (off + step) u) = length u" using 1 by simp
    then show ?thesis using pieces_step [OF \<open>0 < step\<close> 2(1)] 2 by simp
  next
    case 3
    then show ?thesis using pieces_step [OF \<open>0 < step\<close> 3(1)] by (simp add: pieces_end)
  qed
qed

lemma pieces_cover:
  "0 < step \<Longrightarrow> off \<le> j \<Longrightarrow> j < length u \<Longrightarrow> \<exists>x \<in> set (pieces step off u). fst x \<le> j \<and> j < fst x + length (snd x)"
proof (induction step off u rule: pieces.induct)
  case (1 step off u)
  show ?case
  proof (cases "j < off + step")
    case True
    then show ?thesis using 1 by (auto simp: pieces_step)
  next
    case False
    then show ?thesis using 1 by (simp add: pieces_step)
  qed
qed

lemma mset_map_ex: "mset ys = mset (map g xs) \<Longrightarrow> \<exists>zs. ys = map g zs \<and> mset zs = mset xs"
proof (induction ys arbitrary: xs)
  case (Cons y ys)
  then have "y \<in> set (map g xs)" by (metis list.set_intros(1) set_mset_mset)
  then obtain a z b where x: "xs = a @ z # b" "y = g z" by (auto dest: split_list)
  then have "mset ys = mset (map g (a @ b))" using Cons.prems by simp
  then obtain zs where "ys = map g zs" "mset zs = mset (a @ b)" using Cons.IH by blast
  then show ?case using x by (intro exI [of _ "z # zs"]) simp
qed simp

end
