(* ===== verification/LowpanProps.thy ===== *)
theory LowpanProps
  imports LowpanRound
begin

text \<open>
  The properties of the adaptation layer: reassembly, delivery of a packet, the invariant of the reassembly buffers and what happens when there
  is no room.
\<close>

unbundle bit_operations_syntax

subsection \<open>Reassembly\<close>

text \<open>The receiver can put a packet of \<open>k\<close> fragments after the first one together.\<close>

definition can_receive :: "linkaddr \<Rightarrow> u16 \<Rightarrow> nat \<Rightarrow> lowpan_state \<Rightarrow> bool" where
  "can_receive ll tag k s \<longleftrightarrow> reass_wf s \<and> (0 < k \<longrightarrow>
     (\<exists>c < SICSLOWPAN_REASS_CONTEXTS. fi_len (frag_info s c) = 0) \<and>
     (\<forall>c < SICSLOWPAN_REASS_CONTEXTS. \<not> (fi_tag (frag_info s c) = tag \<and> fi_len (frag_info s c) > 0 \<and> fi_sender (frag_info s c) = ll)) \<and>
     k \<le> card (free_bufs s))"

text \<open>The source address is one that the compressor does not lose.\<close>

definition source_kept :: "addr_context list \<Rightarrow> u8 list \<Rightarrow> bool" where
  "source_kept cs u \<longleftrightarrow> addr_context_lookup_by_prefix cs (ip_src u) \<noteq> None \<or> \<not> dest_mid_zero u \<or> ll_mid_zero (ip_src u)"

lemma receive_frames:
  assumes u: "ip_packet_ok u" "length u \<le> UIP_BUFSIZE" and l: "length ll = 8" "length d = 8"
    and cs: "contexts_ok (lp_contexts s)" "source_kept (lp_contexts s) u"
    and fr: "lowpan_frames (lp_contexts s) ll d tag u = fr # frs" "mset frs' = mset frs"
    and can: "can_receive ll tag (length frs) s" and ms: "list_all2 (carries ll d) (fr # frs') ms"
  shows "\<exists>s'. receive_all ms s = Some s' \<and> lp_delivered s' = lp_delivered s @ [u]"
proof -
  obtain hdr n where c: "compress_hdr_iphc (lp_contexts s) ll d u = (hdr, n)" by fastforce
  have src: "addr_context_lookup_by_prefix (lp_contexts s) (ip_src u) = None \<Longrightarrow> dest_mid_zero u \<Longrightarrow> ll_mid_zero (ip_src u)"
    using cs(2) by (auto simp: source_kept_def)
  have len: "40 \<le> length u" "u ! 6 = UIP_PROTO_UDP \<Longrightarrow> 48 \<le> length u" using u by (simp_all add: ip_packet_ok_def)
  have n: "unat n \<le> length u" "unat n = 48 \<or> unat n = 40"
    using c by (rule compress_hdr_fields, use len in simp, rule compress_hdr_fields) (simp split: if_splits)
  have hl: "length hdr \<le> 47" "3 \<le> length hdr" using compress_hdr_length [OF len(1) cs(1) c] hdr_min [OF c] .
  obtain m ms' where m: "ms = m # ms'" "carries ll d fr m" "list_all2 (carries ll d) frs' ms'"
    using ms by (auto simp: list_all2_Cons1)
  define t where "t = s\<lparr>lp_mac := m\<rparr>"
  have ft: "lp_contexts t = lp_contexts s" "lp_mac t = m" "lp_delivered t = lp_delivered s" "free_bufs t = free_bufs s" "frag_info t = frag_info s"
    by (simp_all add: t_def free_bufs_def)
  have wt: "reass_wf t" using can by (auto simp: can_receive_def t_def intro: reass_wf_cong)
  show ?thesis
  proof (cases "length u - unat n \<le> lowpan_max d - length hdr")
    case True
    then have f: "fr = hdr @ drop (unat n) u" "frs = []" using fr(1) by (simp_all add: lowpan_frames_def c)
    then have "ms' = []" using fr(2) m(3) by simp
    moreover have "length (uip_buf t) = UIP_BUFSIZE" using wt by (simp add: reass_wf_def)
    moreover have "contexts_ok (lp_contexts t)" "carries ll d (hdr @ drop (unat n) u) (lp_mac t)" using cs m(2) f ft by simp_all
    ultimately show ?thesis
      using input_single [OF u(1) l, of t hdr n] c src ft by (auto simp: m(1) t_def)
  next
    case False
    define fs where "fs = first_size d hdr"
    define ps where "ps = pieces (later_size d) (unat n + fs) u"
    have f: "fr = first_frame (of_nat (length u)) tag hdr (take fs (drop (unat n) u))" "frs = map (later_frame (of_nat (length u)) tag) ps"
      using fr(1) False by (simp_all add: lowpan_frames_def c fs_def ps_def)
    have fsb: "unat n + fs < length u"
      using first_size_bound [of d hdr] False hl n lowpan_max_cases [of d] by (auto simp: fs_def)
    have step: "0 < later_size d" "later_size d \<le> 104" "8 dvd later_size d" using later_size_cases [of d] by auto
    have o8: "8 \<le> unat n + fs" "8 dvd unat n + fs" using n(2) by (auto simp: fs_def first_size_def)
    from fr(2) f(2) obtain qs where qs: "frs' = map (later_frame (of_nat (length u)) tag) qs" "mset qs = mset ps"
      using mset_map_ex by blast
    have set: "set qs = set ps" using qs(2) by (metis set_mset_mset)
    have psne: "ps \<noteq> []" using fsb pieces_step [OF step(1), of "unat n + fs" u] by (simp add: ps_def)
    have lq: "length qs = length frs" using qs(2) f(2) by (metis length_map size_mset)
    have can': "\<exists>k < SICSLOWPAN_REASS_CONTEXTS. fi_len (frag_info t k) = 0"
      "\<forall>k < SICSLOWPAN_REASS_CONTEXTS. \<not> (fi_tag (frag_info t k) = tag \<and> fi_len (frag_info t k) > 0 \<and> fi_sender (frag_info t k) = ll)"
      "length frs \<le> card (free_bufs t)"
      using can psne f(2) by (simp_all add: can_receive_def ft)
    obtain s1 k where s1: "lowpan_input t = Some s1" "partial ll k tag u (unat n + fs) [] s1" "lp_delivered s1 = lp_delivered t"
        "free_bufs t \<subseteq> free_bufs s1"
      using input_first [OF wt u l _ _ _ _ fs_def fsb can'(1, 2)] cs c src m(2) f(1) ft by auto
    have "length qs \<le> card (free_bufs s1)"
      using can'(3) lq card_mono [OF _ s1(4)] by (simp add: free_bufs_def)
    moreover have "list_all2 (\<lambda>x m. carries ll d (later_frame (of_nat (length u)) tag x) m) qs ms'"
      using m(3) by (simp add: qs(1) list_all2_map1)
    moreover have "\<forall>x \<in> set qs. piece_ok u x" using pieces_ok [OF step o8] by (simp add: set ps_def)
    moreover have "unat n + fs + part_lengths ([] @ qs) = length u"
      using pieces_sum [OF step(1), of "unat n + fs" u] fsb by (simp add: part_lengths_mset qs(2)) (simp add: ps_def flip: part_lengths_mset)
    moreover have "qs \<noteq> []" using psne qs(2) by auto
    moreover have "\<exists>y \<in> set ([] @ qs). fst y \<le> j \<and> j < fst y + length (snd y)" if "unat n + fs \<le> j" "j < length u" for j
      using pieces_cover [OF step(1) that] by (simp add: set ps_def)
    ultimately obtain s' where "receive_all ms' s1 = Some s'" "lp_delivered s' = lp_delivered s1 @ [u]"
      using receive_later [OF s1(2) _ _ _ _ _ u(2)] by blast
    then show ?thesis using s1(1, 3) ft by (simp add: m(1) t_def [symmetric])
  qed
qed

text \<open>C5. Reassembly does not depend on the order of the fragments: when a node gets the frames that \<open>output\<close> makes of a
  well-formed IPv6 packet, the first fragment before the others and those in any order, and it has a free context and
  enough fragment buffers, \<open>input\<close> accepts every frame and hands exactly that packet to the IP stack, once. A packet
  that fits in one frame needs no context.\<close>

theorem lowpan_reassembly:
  assumes "ip_packet_ok u" "length u \<le> UIP_BUFSIZE" "length ll = 8" "length d = 8"
    and "contexts_ok (lp_contexts s)" "source_kept (lp_contexts s) u"
    and "lowpan_frames (lp_contexts s) ll d tag u = fr # frs" "mset frs' = mset frs"
    and "can_receive ll tag (length frs) s" "list_all2 (carries ll d) (fr # frs') ms"
  shows "\<exists>s'. receive_all ms s = Some s' \<and> lp_delivered s' = lp_delivered s @ [u]"
  by (rule receive_frames [OF assms])

subsection \<open>From the sender to the receiver\<close>

text \<open>A frame that the framer of the sender built arrives in the packet buffer of the receiver as its payload with the
  addresses of the sender and the receiver.\<close>

lemma framer_carries:
  assumes "pb_wf s" "frame_ready s" "hdrlen s = 0" "bufptr s = 0" "mac_pan_id f \<noteq> 0xffff" "pb_wf t"
    and "frame_hdrlen_of s + length (pb_payload s) \<le> PACKETBUF_SIZE"
  shows "\<exists>f' s' n t1 t2. framer_create f s = Some (f', s', n) \<and>
     packetbuf_copyfrom (pb_header s' @ pb_payload s') (of_nat (length (pb_header s' @ pb_payload s'))) t =
       Some (t1, of_nat (length (pb_header s' @ pb_payload s'))) \<and> framer_parse (mac_pan_id f) t1 = Some (t2, n) \<and>
     carries (packetbuf_addr PACKETBUF_ADDR_SENDER s) (packetbuf_addr PACKETBUF_ADDR_RECEIVER s) (pb_payload s) t2"
proof -
  obtain f' s' q where c: "framer_create f s = Some (f', s', int (frame_hdrlen_of s))" "pb_wf s'"
    "pb_header s' = frame_header (frame_params (mac_pan_id f) q s)" "pb_payload s' = pb_payload s"
    using framer_create_frame [OF assms(1-5, 7)] by blast
  have len: "length (pb_header s' @ pb_payload s') \<le> PACKETBUF_SIZE"
    using assms(7) header_form(3) [OF params_modes [OF assms(2)]] by (simp add: c frame_hdrlen_of_def)
  show ?thesis
    using c(1, 4) framer_parse_frame [OF assms(2, 6), of "pb_header s' @ pb_payload s'" "mac_pan_id f" q "pb_payload s'"] c(3) len
    unfolding carries_def by fastforce
qed

text \<open>C4. A packet travels from the IP buffer of the sender to the IP stack of the receiver: when CSMA has room for its
  frames, \<open>output\<close> of a well-formed IPv6 packet succeeds and hands a list of data frames to CSMA, and a receiver with the same contexts and
  a free reassembly context that gets these frames in this order delivers exactly the packet.\<close>

theorem packet_delivered:
  assumes "csma_wf (lp_mac s)" "mac_pan_id (lp_framer s) \<noteq> 0xffff" "uip_buf s = u @ rest" "uip_len s = of_nat (length u)"
    and "ip_packet_ok u" "length u \<le> UIP_BUFSIZE" "contexts_ok (lp_contexts s)" "source_kept (lp_contexts s) u"
    and "ll = uip_lladdr (mac_node (lp_mac s))" "length ll = 8" "length (link_dest ld) = 8"
    and "frames = lowpan_frames (lp_contexts s) ll (link_dest ld) (my_tag s) u"
    and "output_room (link_dest ld) (length frames) (length u) (lp_mac s)"
    and "lp_contexts t = lp_contexts s" "can_receive ll (my_tag s) (length frames - 1) t"
  shows "\<exists>s'. lowpan_output ld s = Some (s', True) \<and> lp_sent s' = lp_sent s @ map (data_frame (link_dest ld)) frames \<and>
    (\<forall>ms. list_all2 (\<lambda>fr m. carries ll (link_dest ld) (fst fr) m) (drop (length (lp_sent s)) (lp_sent s')) ms \<longrightarrow>
      (\<exists>t'. receive_all ms t = Some t' \<and> lp_delivered t' = lp_delivered t @ [u]))"
proof -
  obtain s' where s': "lowpan_output ld s = Some (s', True)" "lp_sent s' = lp_sent s @ map (data_frame (link_dest ld)) frames"
    using lowpan_output_frames [OF assms(1-5, 7, 11) assms(12) [unfolded assms(9)] assms(13)] by blast
  obtain fr frs where fr: "frames = fr # frs" using assms(12) by (auto simp: lowpan_frames_def Let_def split: prod.splits if_splits)
  have "\<exists>t'. receive_all ms t = Some t' \<and> lp_delivered t' = lp_delivered t @ [u]"
    if "list_all2 (\<lambda>fr m. carries ll (link_dest ld) (fst fr) m) (drop (length (lp_sent s)) (lp_sent s')) ms" for ms
  proof (rule receive_frames)
    have "list_all2 (\<lambda>fr m. carries ll (link_dest ld) (fst fr) m) (map (data_frame (link_dest ld)) frames) ms" using that s'(2) by simp
    then show "list_all2 (carries ll (link_dest ld)) (fr # frs) ms" by (simp add: list_all2_map1 data_frame_def fr [symmetric])
    show "lowpan_frames (lp_contexts t) ll (link_dest ld) (my_tag s) u = fr # frs" using assms(12, 14) fr by simp
    show "can_receive ll (my_tag s) (length frs) t" using assms(15) by (simp add: fr)
  qed (use assms(5-8, 10, 11, 14) in simp_all)
  then show ?thesis using s' by blast
qed

subsection \<open>The invariant\<close>

text \<open>As long as the code stays inside its arrays, every fragment buffer in use belongs to a reassembly context that exists and
  is in use, whatever frames were received before.\<close>

lemma reassembly_invariant:
  assumes "receive_all ms s = Some s'" "reass_wf s"
  shows "reass_wf s'"
  using assms
proof (induction ms arbitrary: s)
  case (Cons m ms)
  obtain s1 where s1: "lowpan_input (s\<lparr>lp_mac := m\<rparr>) = Some s1" "receive_all ms s1 = Some s'"
    using Cons.prems(1) by (auto elim!: bind_SomeE)
  have "reass_wf (s\<lparr>lp_mac := m\<rparr>)" using Cons.prems(2) by (auto intro: reass_wf_cong)
  then show ?case using Cons.IH [OF s1(2)] wf_input [OF s1(1)] by blast
qed simp

subsection \<open>No room\<close>

text \<open>A context counts as stalled from 500 ticks after its start on (\<open>SICSLOWPAN_REASS_MAXAGE\<close> of half a second).\<close>

lemma stalled_age:
  assumes "fi_timer (frag_info s c) = timer_set start (SICSLOWPAN_REASS_MAXAGE * CLOCK_SECOND div 16)"
    and "unat (clock_time s - start) < 2 ^ 32 - 1"
  shows "stalled s c \<longleftrightarrow> fi_len (frag_info s c) > 0 \<and> 500 \<le> unat (clock_time s - start)"
proof -
  have "unat (clock_time s - start + 1) = unat (clock_time s - start) + 1"
    using assms(2) by (simp add: unat_word_ariths(1))
  then show ?thesis using assms(1)
    by (auto simp: stalled_def timer_expired_def timer_set_def SICSLOWPAN_REASS_MAXAGE_def CLOCK_SECOND_def word_less_nat_alt)
qed

text \<open>C19. A stalled reassembly gives way to a new packet, and only a stalled one does: on a first fragment every context in
  use that was started at least 500 ticks ago is given up with all its buffers, whatever the other contexts hold; the packet
  gets the first context that is free then, with its length, tag, sender and a new timer and with no buffer of an earlier
  packet, and is refused when there is none. The contexts that are neither given up nor chosen, their buffers and the rest
  of the state stay as they are.\<close>

theorem stalled_reassembly_gives_way:
  assumes "reass_wf s"
    and "\<forall>c < SICSLOWPAN_REASS_CONTEXTS. fi_len (frag_info s c) > 0 \<longrightarrow> unat (clock_time s - start c) < 2 ^ 32 - 1 \<and>
      fi_timer (frag_info s c) = timer_set (start c) (SICSLOWPAN_REASS_MAXAGE * CLOCK_SECOND div 16)"
    and "old = {c. c < SICSLOWPAN_REASS_CONTEXTS \<and> fi_len (frag_info s c) > 0 \<and> 500 \<le> unat (clock_time s - start c)}"
    and "r = find (\<lambda>c. fi_len (frag_info s c) = 0 \<or> c \<in> old) [0..<SICSLOWPAN_REASS_CONTEXTS]"
  shows "\<exists>s'. add_fragment tag sz 0 h s = Some (s', r) \<and> s' = s\<lparr>frag_info := frag_info s', frag_buf := frag_buf s'\<rparr> \<and>
    (\<forall>c. frag_info s' c =
       (if r = Some c then (frag_info s c)\<lparr>fi_len := sz, fi_tag := tag,
          fi_sender := packetbuf_addr PACKETBUF_ADDR_SENDER (lp_mac s),
          fi_timer := timer_set (clock_time s) (SICSLOWPAN_REASS_MAXAGE * CLOCK_SECOND div 16)\<rparr>
        else if c \<in> old then (frag_info s c)\<lparr>fi_len := 0\<rparr> else frag_info s c)) \<and>
    (\<forall>i. frag_buf s' i =
       (if i < SICSLOWPAN_FRAGMENT_BUFFERS \<and> (\<exists>c \<in> old. in_use c (frag_buf s i))
        then (frag_buf s i)\<lparr>fb_len := 0\<rparr> else frag_buf s i)) \<and>
    (\<forall>c i. r = Some c \<longrightarrow> i < SICSLOWPAN_FRAGMENT_BUFFERS \<longrightarrow> \<not> in_use c (frag_buf s' i))"
proof -
  have st: "stalled s c \<longleftrightarrow> c \<in> old" if "c < SICSLOWPAN_REASS_CONTEXTS" for c
    using that assms(2, 3) stalled_age [of s c "start c"] by (cases "fi_len (frag_info s c) = 0") (auto simp: word_gt_0 stalled_def)
  have o: "{c \<in> set [0..<SICSLOWPAN_REASS_CONTEXTS]. stalled s c} = old" using st assms(3) by auto
  have "find (\<lambda>c. fi_len (frag_info s c) = 0 \<or> stalled s c) [0..<SICSLOWPAN_REASS_CONTEXTS] = r"
    unfolding assms(4) using st by (intro find_cong_on) auto
  then have l: "free_context_loop [0..<SICSLOWPAN_REASS_CONTEXTS] None s = (purge old s, r)"
    using free_context_loop_exact [of "[0..<SICSLOWPAN_REASS_CONTEXTS]" None s, unfolded o] by simp
  have "reass_wf (purge old s)" using free_context_loop_result [OF l assms(1)] by blast
  moreover have "fi_len (frag_info (purge old s) c) = 0" if "r = Some c" for c
    using that assms(4) by (auto simp: find_Some_iff)
  ultimately have u: "\<not> in_use c (frag_buf (purge old s) i)" if "r = Some c" "i < SICSLOWPAN_FRAGMENT_BUFFERS" for c i
    using free_unused that by blast
  show ?thesis
  proof (cases r)
    case None
    then show ?thesis using l by (simp add: add_fragment_def) (auto simp: purge_def)
  next
    case (Some c)
    then show ?thesis using l u [of c] by (simp add: add_fragment_def) (auto simp: purge_def mod_info_def)
  qed
qed

text \<open>C25. A fragment that belongs to no packet in reassembly is dropped: when no context in use has the tag of the fragment and its
  sender, a fragment other than the first one changes nothing except for the signal strength that \<open>input\<close> records.\<close>

theorem unknown_fragment_dropped:
  assumes "carries ll d (later_frame len tag x) (lp_mac s)" "unat len < 2048" "8 \<le> fst x" "fst x < 2048"
    and "\<forall>c < SICSLOWPAN_REASS_CONTEXTS. \<not> (fi_tag (frag_info s c) = tag \<and> fi_len (frag_info s c) > 0 \<and> fi_sender (frag_info s c) = ll)"
  shows "lowpan_input s = Some (s\<lparr>last_rssi := packetbuf_attr PACKETBUF_ATTR_RSSI (lp_mac s)\<rparr>)"
proof -
  define t where "t = s\<lparr>last_rssi := packetbuf_attr PACKETBUF_ATTR_RSSI (lp_mac s)\<rparr>"
  have ft: "lp_mac t = lp_mac s" "frag_info t = frag_info s" by (simp_all add: t_def)
  define off where "off = (of_nat (fst x div 8) :: u8)"
  have "fst x div 8 < 256" using assms(4) by auto
  then have "unat off = fst x div 8" unfolding off_def by (rule unat_of_nat_byte)
  then have off: "off \<noteq> 0" using assms(3) by auto
  note cp = carries_ptr [OF assms(1) [folded ft(1)]]
  have rd: "reads (packetbuf_ptr t) 0 (set16 (push_bit 8 SICSLOWPAN_DISPATCH_FRAGN OR len))" "reads (packetbuf_ptr t) 2 (set16 tag)"
    "rd (packetbuf_ptr t) 4 = Some off"
    using cp(1) unfolding later_frame_def reads_append off_def [symmetric]
    by (simp_all add: reads_rd eval_nat_numeral)
  have sn: "packetbuf_addr PACKETBUF_ADDR_SENDER (lp_mac t) = ll" using assms(1) by (simp add: carries_def ft)
  have "find_context tag t = None"
    unfolding find_context_def sn find_None_iff ft(2) using assms(5) by auto
  then have A: "add_fragment tag len off SICSLOWPAN_FRAGN_HDR_LEN t = Some (t, None)" using off by (simp add: add_fragment_def)
  show ?thesis
    unfolding lowpan_input_def Let_def t_def [symmetric] get16_set16 [OF rd(1)] get16_set16 [OF rd(2)] Option.bind.bind_lunit
      dispatch_bits [OF assms(2)] if_not_P [OF dispatch_bits(5) [OF assms(2)]] if_P [OF refl] rd(3) A prod.case option.case by (rule refl)
qed

subsection \<open>Witnesses\<close>

text \<open>A UDP packet of 260 bytes, which needs three fragments, between the nodes 1 and 2.\<close>

definition demo_long :: "u8 list" where
  "demo_long = [0x60, 0, 0, 0, 0, 220, 17, 64,
     0xfd, 0, 0, 0, 0, 0, 0, 0, 2, 2, 3, 4, 5, 6, 7, 8,  0xfd, 0, 0, 0, 0, 0, 0, 0, 0, 0, 0, 0xff, 0xfe, 0, 0, 1,
     0x0b, 0xb9, 0x0b, 0xb8, 0, 220, 0xab, 0xcd] @ replicate 212 0x55"

definition demo_from :: linkaddr where "demo_from = [0, 0, 0, 0, 0, 0, 0, 2]"
definition demo_to :: linkaddr where "demo_to = [0, 0, 0, 0, 0, 0, 0, 3]"

lemma replicate_8: "replicate 8 v = [v, v, v, v, v, v, v, v]"
  by (simp add: numeral_eq_Suc)

definition demo_sender :: lowpan_state where
  "demo_sender = (sicslowpan_init (lowpan_power_on csma_demo demo_framer))\<lparr>uip_buf := demo_long @ replicate 1340 0, uip_len := 260\<rparr>"

definition demo_receiver :: lowpan_state where
  "demo_receiver = sicslowpan_init (lowpan_power_on csma_demo demo_framer)"

lemma demo_long_length: "length demo_long = 260"
  by (simp add: demo_long_def)

lemma demo_long_ok: "ip_packet_ok demo_long"
  unfolding ip_packet_ok_def demo_long_length by (simp add: demo_long_def set16_def)

definition demo_hdr :: "u8 list" where
  "demo_hdr = [126, 214, 0, 2, 2, 3, 4, 5, 6, 7, 8, 0, 1, 240, 11, 185, 11, 184, 171, 205]"

lemma demo_long_compressed: "compress_hdr_iphc init_addr_contexts demo_from demo_to demo_long = (demo_hdr, 48)"
  by code_simp

lemma demo_source_kept: "source_kept init_addr_contexts demo_long"
  by code_simp

lemma demo_ll_other: "demo_to \<noteq> linkaddr_null" "length demo_from = 8" "length demo_to = 8" "demo_to = demo_ll 2" "demo_from = demo_ll 1"
  by (simp_all add: demo_from_def demo_to_def linkaddr_null_def demo_ll_def replicate_8)

definition demo_first :: "u8 list" where
  "demo_first = first_frame 260 0 demo_hdr (take 80 (drop 48 demo_long))"

definition demo_later :: "nat \<Rightarrow> u8 list" where
  "demo_later off = later_frame 260 0 (off, take 96 (drop off demo_long))"

lemma demo_frames: "lowpan_frames init_addr_contexts demo_from demo_to 0 demo_long = [demo_first, demo_later 128, demo_later 224]"
proof -
  have "lowpan_max demo_to = 104" using demo_ll_other by (simp add: lowpan_max_def)
  then have s: "first_size demo_to demo_hdr = 80" "later_size demo_to = 96" "lowpan_max demo_to = 104"
    by (simp_all add: first_size_def later_size_def demo_hdr_def)
  have "pieces 96 128 demo_long = [(128, take 96 (drop 128 demo_long)), (224, take 96 (drop 224 demo_long))]"
    by (simp add: pieces_step pieces_end demo_long_length)
  then show ?thesis
    unfolding lowpan_frames_def demo_long_compressed Let_def prod.case demo_long_length s
    by (simp add: demo_first_def demo_later_def demo_hdr_def)
qed

text \<open>The packet buffer of the receiver with a frame of node 1 for node 2.\<close>

definition demo_rx :: "u8 list \<Rightarrow> csma_state" where
  "demo_rx bs = csma_demo\<lparr>packetbuf := bs @ replicate (128 - length bs) 0, buflen := of_nat (length bs),
     packetbuf_addrs := (\<lambda>_. linkaddr_null)(PACKETBUF_ADDR_SENDER := demo_from, PACKETBUF_ADDR_RECEIVER := demo_to)\<rparr>"

lemma carries_demo: "length bs \<le> 128 \<Longrightarrow> carries demo_from demo_to bs (demo_rx bs)"
proof -
  assume l: "length bs \<le> 128"
  then have "length bs < 65536" by simp
  then have "unat (of_nat (length bs) :: u16) = length bs" by (simp add: unsigned_of_nat take_bit_nat_eq_self_iff)
  then show ?thesis using l
    by (simp add: carries_def demo_rx_def pb_wf_def pb_payload_def packetbuf_addr_def csma_demo_fields PACKETBUF_SIZE_def)
qed

lemma demo_frame_lengths: "length demo_first \<le> 128" "length (demo_later off) \<le> 128"
  by (simp_all add: demo_first_def demo_later_def first_frame_def later_frame_def demo_hdr_def)

lemma demo_receiver_ready:
  "can_receive demo_from 0 2 demo_receiver" "lp_contexts demo_receiver = init_addr_contexts" "lp_delivered demo_receiver = []"
proof -
  have f: "fi_len (frag_info demo_receiver c) = 0" "fb_len (frag_buf demo_receiver i) = 0" "uip_buf demo_receiver = replicate UIP_BUFSIZE 0"
    "fi_first_frag (frag_info demo_receiver c) = replicate SICSLOWPAN_FIRST_FRAGMENT_SIZE 0"
    "fb_data (frag_buf demo_receiver i) = replicate SICSLOWPAN_FRAGMENT_SIZE 0" for c i
    by (simp_all add: demo_receiver_def sicslowpan_init_def lowpan_power_on_def)
  have "free_bufs demo_receiver = {..<SICSLOWPAN_FRAGMENT_BUFFERS}" by (auto simp: free_bufs_def f)
  then show "can_receive demo_from 0 2 demo_receiver"
    by (auto simp: can_receive_def reass_wf_def f SICSLOWPAN_REASS_CONTEXTS_def SICSLOWPAN_FRAGMENT_BUFFERS_def intro: exI [of _ 0])
  show "lp_contexts demo_receiver = init_addr_contexts" "lp_delivered demo_receiver = []"
    by (simp_all add: demo_receiver_def sicslowpan_init_def lowpan_power_on_def)
qed

text \<open>The last two fragments arrive in the wrong order.\<close>

lemma demo_frames_received:
  "list_all2 (carries demo_from demo_to) (demo_first # [demo_later 224, demo_later 128])
     [demo_rx demo_first, demo_rx (demo_later 224), demo_rx (demo_later 128)]"
  "mset [demo_later 224, demo_later 128] = mset [demo_later 128, demo_later 224]"
  "can_receive demo_from 0 (length [demo_later 128, demo_later 224]) demo_receiver"
  "length demo_long \<le> UIP_BUFSIZE" "contexts_ok (lp_contexts demo_receiver)" "source_kept (lp_contexts demo_receiver) demo_long"
  "lowpan_frames (lp_contexts demo_receiver) demo_from demo_to 0 demo_long = demo_first # [demo_later 128, demo_later 224]"
  unfolding demo_receiver_ready(2) using demo_receiver_ready(1) contexts_ok_init demo_source_kept demo_frames
  by (simp_all add: carries_demo demo_frame_lengths demo_long_length UIP_BUFSIZE_def numeral_2_eq_2)

theorem lowpan_reassembly_witness:
  "\<exists>s'. receive_all [demo_rx demo_first, demo_rx (demo_later 224), demo_rx (demo_later 128)] demo_receiver = Some s' \<and>
     lp_delivered s' = [demo_long]"
  using lowpan_reassembly [OF demo_long_ok demo_frames_received(4) demo_ll_other(2, 3) demo_frames_received(5-7, 2, 3, 1)]
  by (simp add: demo_receiver_ready(3))

theorem packet_delivered_witness:
  "\<exists>s' t'. lowpan_output (Some demo_to) demo_sender = Some (s', True) \<and> map fst (lp_sent s') = [demo_first, demo_later 128, demo_later 224] \<and>
     receive_all (map demo_rx [demo_first, demo_later 128, demo_later 224]) demo_receiver = Some t' \<and> lp_delivered t' = [demo_long]"
proof -
  have f: "lp_mac demo_sender = csma_demo" "lp_framer demo_sender = demo_framer" "lp_contexts demo_sender = init_addr_contexts"
    "my_tag demo_sender = 0" "uip_buf demo_sender = demo_long @ replicate 1340 0" "uip_len demo_sender = of_nat (length demo_long)"
    "lp_sent demo_sender = []"
    by (simp_all add: demo_sender_def sicslowpan_init_def lowpan_power_on_def demo_long_length)
  have w: "csma_wf (lp_mac demo_sender)" "mac_pan_id (lp_framer demo_sender) \<noteq> 0xffff"
    using csma_demo_wf by (simp_all add: f demo_framer_def IEEE802154_PANID_def)
  have l: "length demo_long \<le> UIP_BUFSIZE" by (simp add: demo_long_length UIP_BUFSIZE_def)
  have ll: "demo_from = uip_lladdr (mac_node (lp_mac demo_sender))" unfolding f csma_demo_fields by (simp add: power_on_def nbr_state.defs dual_state.defs ds6_state.defs rpl_state.defs demo_ll_other)
  have d: "length (link_dest (Some demo_to)) = 8" "link_dest (Some demo_to) = demo_to" using demo_ll_other(3) by (simp_all add: link_dest_def)
  define frames where "frames = [demo_first, demo_later 128, demo_later 224]"
  have fr: "frames = lowpan_frames (lp_contexts demo_sender) demo_from (link_dest (Some demo_to)) (my_tag demo_sender) demo_long"
    unfolding f d(2) demo_frames frames_def by (rule refl)
  have room: "output_room (link_dest (Some demo_to)) (length frames) (length demo_long) (lp_mac demo_sender)"
    unfolding f d(2) output_room_def csma_demo_fields demo_long_length frames_def
    by (simp add: first_used_pool demo_ll_other(1, 4) lowpan_max_def QUEUEBUF_NUM_def CSMA_MAX_NEIGHBOR_QUEUES_def)
  have can: "can_receive demo_from (my_tag demo_sender) (length frames - 1) demo_receiver"
    using demo_receiver_ready(1) by (simp add: f frames_def numeral_2_eq_2)
  have cx: "contexts_ok (lp_contexts demo_sender)" "source_kept (lp_contexts demo_sender) demo_long" "lp_contexts demo_receiver = lp_contexts demo_sender"
    using contexts_ok_init demo_source_kept demo_receiver_ready(2) by (simp_all add: f)
  from packet_delivered [OF w f(5, 6) demo_long_ok l cx(1, 2) ll demo_ll_other(2) d(1) fr room cx(3) can] obtain s' where
    s': "lowpan_output (Some demo_to) demo_sender = Some (s', True)" "lp_sent s' = map (data_frame demo_to) frames"
      "\<And>ms. list_all2 (\<lambda>fr m. carries demo_from demo_to (fst fr) m) (drop (length (lp_sent demo_sender)) (lp_sent s')) ms \<Longrightarrow>
        \<exists>t'. receive_all ms demo_receiver = Some t' \<and> lp_delivered t' = lp_delivered demo_receiver @ [demo_long]"
    unfolding d(2) f(7) append_Nil by blast
  have "list_all2 (\<lambda>fr m. carries demo_from demo_to (fst fr) m) (drop (length (lp_sent demo_sender)) (lp_sent s')) (map demo_rx frames)"
    by (simp add: s'(2) f(7) frames_def data_frame_def carries_demo demo_frame_lengths)
  from s'(3) [OF this] s'(1, 2) show ?thesis
    by (auto simp: frames_def data_frame_def demo_receiver_ready(3))
qed

text \<open>Context 0 takes in a packet since 100 ticks; the fragments of the one of context 1, which holds buffer 3, stopped to
  arrive 1000 ticks ago. The new packet gets context 1, and the buffers of context 0 stay.\<close>

definition demo_stalled :: lowpan_state where
  "demo_stalled = demo_receiver\<lparr>clock_time := 1000,
     frag_info := (\<lambda>c. (frag_info demo_receiver c)\<lparr>fi_len := 260,
       fi_timer := timer_set (if c = 0 then 900 else 0) (SICSLOWPAN_REASS_MAXAGE * CLOCK_SECOND div 16)\<rparr>),
     frag_buf := (\<lambda>i. (frag_buf demo_receiver i)\<lparr>fb_index := (if i = 3 then 1 else 0), fb_len := (if i < 5 then 96 else 0)\<rparr>)\<rparr>"

lemma demo_stalled_wf: "reass_wf demo_stalled"
proof -
  have "reass_wf demo_receiver" using demo_receiver_ready(1) by (simp add: can_receive_def)
  then show ?thesis
    by (auto simp: reass_wf_def demo_stalled_def SICSLOWPAN_FRAGMENT_SIZE_def SICSLOWPAN_REASS_CONTEXTS_def)
qed

theorem stalled_reassembly_gives_way_witness:
  "\<exists>s'. add_fragment 7 100 0 4 demo_stalled = Some (s', Some 1) \<and> fi_len (frag_info s' 1) = 100 \<and>
     fi_len (frag_info s' 0) = 260 \<and> fb_len (frag_buf s' 3) = 0 \<and> fb_len (frag_buf s' 2) = 96"
proof -
  define old where "old = {c. c < SICSLOWPAN_REASS_CONTEXTS \<and> fi_len (frag_info demo_stalled c) > 0 \<and>
    500 \<le> unat (clock_time demo_stalled - (if c = 0 then 900 else 0))}"
  have o: "old = {1}" by (auto simp: old_def demo_stalled_def SICSLOWPAN_REASS_CONTEXTS_def)
  have t: "\<forall>c < SICSLOWPAN_REASS_CONTEXTS. fi_len (frag_info demo_stalled c) > 0 \<longrightarrow>
      unat (clock_time demo_stalled - (if c = 0 then 900 else 0)) < 2 ^ 32 - 1 \<and>
      fi_timer (frag_info demo_stalled c) = timer_set (if c = 0 then 900 else 0) (SICSLOWPAN_REASS_MAXAGE * CLOCK_SECOND div 16)"
    by (simp add: demo_stalled_def)
  have r: "Some 1 = find (\<lambda>c. fi_len (frag_info demo_stalled c) = 0 \<or> c \<in> old) [0..<SICSLOWPAN_REASS_CONTEXTS]"
    by (simp add: o demo_stalled_def SICSLOWPAN_REASS_CONTEXTS_def upt_rec)
  obtain s' where s': "add_fragment 7 100 0 4 demo_stalled = Some (s', Some 1)"
    "\<And>c. frag_info s' c = (if Some 1 = Some c then (frag_info demo_stalled c)\<lparr>fi_len := 100, fi_tag := 7,
          fi_sender := packetbuf_addr PACKETBUF_ADDR_SENDER (lp_mac demo_stalled),
          fi_timer := timer_set (clock_time demo_stalled) (SICSLOWPAN_REASS_MAXAGE * CLOCK_SECOND div 16)\<rparr>
        else if c \<in> old then (frag_info demo_stalled c)\<lparr>fi_len := 0\<rparr> else frag_info demo_stalled c)"
    "\<And>i. frag_buf s' i = (if i < SICSLOWPAN_FRAGMENT_BUFFERS \<and> (\<exists>c \<in> old. in_use c (frag_buf demo_stalled i))
        then (frag_buf demo_stalled i)\<lparr>fb_len := 0\<rparr> else frag_buf demo_stalled i)"
    using stalled_reassembly_gives_way [OF demo_stalled_wf t old_def r, of 7 100 4] by auto
  then show ?thesis
    by (simp add: o) (simp add: demo_stalled_def in_use_def SICSLOWPAN_FRAGMENT_BUFFERS_def)
qed

theorem unknown_fragment_dropped_witness:
  "lowpan_input (demo_receiver\<lparr>lp_mac := demo_rx (demo_later 128)\<rparr>) =
     Some (demo_receiver\<lparr>lp_mac := demo_rx (demo_later 128), last_rssi := 0\<rparr>)"
proof -
  define s where "s = demo_receiver\<lparr>lp_mac := demo_rx (demo_later 128)\<rparr>"
  have c: "carries demo_from demo_to (later_frame 260 0 (128, take 96 (drop 128 demo_long))) (lp_mac s)"
    using carries_demo [OF demo_frame_lengths(2), of 128] by (simp add: s_def demo_later_def)
  have "fi_len (frag_info s k) = 0" for k by (simp add: s_def demo_receiver_def sicslowpan_init_def lowpan_power_on_def)
  then have n: "\<forall>k < SICSLOWPAN_REASS_CONTEXTS. \<not> (fi_tag (frag_info s k) = 0 \<and> fi_len (frag_info s k) > 0 \<and> fi_sender (frag_info s k) = demo_from)"
    by simp
  have r: "packetbuf_attr PACKETBUF_ATTR_RSSI (lp_mac s) = 0"
    by (simp add: s_def demo_rx_def packetbuf_attr_def csma_demo_def csma_power_on_def)
  show ?thesis using unknown_fragment_dropped [OF c _ _ _ n] r by (simp add: s_def)
qed

end
