(* ===== verification/Uip.thy ===== *)
theory Uip
  imports RplInit Iphc
begin

text \<open>
  The state of the IPv6 engine (\<open>core/net/ipv6/uip6.c\<close>): the packet buffer \<open>uip_buf\<close>, the lengths and positions in it,
  the UDP connections, and the node of RPL and of the IPv6 tables; the access to the buffer and the
  checksums. Reading or writing outside of the buffer is undefined (\<open>None\<close>). The processor is little-endian: a
  16-bit field of a header is read with its bytes swapped, and \<open>UIP_HTONS\<close> swaps them.
\<close>

unbundle bit_operations_syntax

subsection \<open>Constants\<close>

definition UIP_PROTO_HBHO :: u8 where "UIP_PROTO_HBHO = 0"
definition UIP_PROTO_TCP :: u8 where "UIP_PROTO_TCP = 6"
definition UIP_PROTO_ICMP6 :: u8 where "UIP_PROTO_ICMP6 = 58"
definition UIP_PROTO_DESTO :: u8 where "UIP_PROTO_DESTO = 60"
definition UIP_PROTO_ROUTING :: u8 where "UIP_PROTO_ROUTING = 43"
definition UIP_PROTO_FRAG :: u8 where "UIP_PROTO_FRAG = 44"
definition UIP_PROTO_NONE :: u8 where "UIP_PROTO_NONE = 59"
definition UIP_UDP_CONNS :: nat where "UIP_UDP_CONNS = 12"

lemmas proto_consts = UIP_PROTO_HBHO_def UIP_PROTO_TCP_def UIP_PROTO_ICMP6_def UIP_PROTO_DESTO_def UIP_PROTO_ROUTING_def
  UIP_PROTO_FRAG_def UIP_PROTO_NONE_def UIP_PROTO_UDP_def

subsection \<open>State\<close>

record uip_udp_conn =
  uc_ripaddr :: ipaddr
  uc_lport :: u16
  uc_rport :: u16
  uc_ttl :: u8

text \<open>The handlers of ICMPv6 messages, with the type and the code they are registered for.\<close>

datatype icmp6_handler = Echo_request_input | Echo_reply_input | Dis_input | Dio_input | Dao_input | Dao_ack_input

text \<open>What the engine hands to the applications: the data of a datagram and the connection it came in on, and the
  sender and hop limit of an echo reply, where its data begin and how long they are.\<close>

datatype app_event = UdpData nat "u8 list" | EchoReply ipaddr u8 nat u16

text \<open>\<open>ip_sent\<close> is what was handed to the adaptation layer: the link-layer address (null for a broadcast), the radio
  selected, the bytes. \<open>ip_next_hdr\<close> is the position \<open>uip_next_hdr\<close> points to.\<close>

record uip_state =
  ip_node :: rpl_state
  ip_buf :: "u8 list"
  ip_len :: u16
  ip_slen :: u16
  ip_ext_len :: u8
  ip_ext_opt_offset :: u8
  ip_ext_bitmap :: u8
  ip_next_hdr :: nat
  packet_forwarding :: bool
  ip_lastport :: u16
  ip_conns :: "uip_udp_conn list"
  ip_handlers :: "(u8 \<times> u8 \<times> icmp6_handler) list"
  ip_sent :: "(linkaddr option \<times> int \<times> u8 list) list"
  ip_up :: "app_event list"

definition uip_clear_buf :: "uip_state \<Rightarrow> uip_state" where
  "uip_clear_buf s = s\<lparr>ip_len := 0, ip_ext_len := 0\<rparr>"

subsection \<open>The buffer\<close>

definition UIP_HTONS :: "u16 \<Rightarrow> u16" where
  "UIP_HTONS n = push_bit 8 n OR drop_bit 8 n"

definition ld16 :: "u8 list \<Rightarrow> nat \<Rightarrow> u16 option" where
  "ld16 b i = do { lo \<leftarrow> rd b i; hi \<leftarrow> rd b (i + 1); Some (ucast lo OR push_bit 8 (ucast hi)) }"

definition st16 :: "u16 \<Rightarrow> u8 list" where
  "st16 v = [ucast v, ucast (drop_bit 8 v)]"

definition ip_put :: "nat \<Rightarrow> u8 list \<Rightarrow> uip_state \<Rightarrow> uip_state option" where
  "ip_put i bs s = do { b \<leftarrow> mem_write (ip_buf s) i bs; Some (s\<lparr>ip_buf := b\<rparr>) }"

text \<open>\<open>memmove\<close>; a negative number of bytes is a huge one.\<close>

definition ip_move :: "nat \<Rightarrow> nat \<Rightarrow> int \<Rightarrow> uip_state \<Rightarrow> uip_state option" where
  "ip_move to src n s = (if n < 0 then None else do { bs \<leftarrow> mem_read (ip_buf s) src (nat n); ip_put to bs s })"

text \<open>Where the headers after the IPv6 header and the extension headers read so far begin.\<close>

definition uip_l2_l3_hdr_len :: "uip_state \<Rightarrow> nat" where
  "uip_l2_l3_hdr_len s = UIP_IPH_LEN + unat (ip_ext_len s)"

text \<open>The payload length of the IPv6 header, from \<open>uip_len\<close>.\<close>

definition put_ip_len :: "uip_state \<Rightarrow> uip_state option" where
  "put_ip_len s = (let n = uint (ip_len s) - int UIP_IPH_LEN in ip_put 4 [word_of_int (n div 256), word_of_int n] s)"

subsection \<open>Checksums\<close>

text \<open>Two bytes at a time, the last byte of an odd number padded with 0; a carry is added.\<close>

definition add_carry :: "u16 \<Rightarrow> u16 \<Rightarrow> u16" where
  "add_carry acc t = (if acc + t < t then acc + t + 1 else acc + t)"

fun chksum :: "u16 \<Rightarrow> u8 list \<Rightarrow> u16" where
  "chksum acc [] = acc"
| "chksum acc [a] = add_carry acc (push_bit 8 (ucast a))"
| "chksum acc (a # b # bs) = chksum (add_carry acc (push_bit 8 (ucast a) + ucast b)) bs"

definition uip_chksum :: "u8 list \<Rightarrow> u16" where
  "uip_chksum data = UIP_HTONS (chksum 0 data)"

definition upper_layer_chksum :: "u8 \<Rightarrow> uip_state \<Rightarrow> u16 option" where
  "upper_layer_chksum proto s = do {
     h \<leftarrow> rd (ip_buf s) 4;
     l \<leftarrow> rd (ip_buf s) 5;
     let upper_layer_len = (push_bit 8 (ucast h) :: u16) + ucast l - ucast (ip_ext_len s);
     addrs \<leftarrow> mem_read (ip_buf s) 8 32;
     data \<leftarrow> mem_read (ip_buf s) (uip_l2_l3_hdr_len s) (unat upper_layer_len);
     let acc = chksum (chksum (upper_layer_len + ucast proto) addrs) data;
     Some (if acc = 0 then 0xffff else UIP_HTONS acc)
   }"

definition uip_icmp6chksum :: "uip_state \<Rightarrow> u16 option" where
  "uip_icmp6chksum s = upper_layer_chksum UIP_PROTO_ICMP6 s"

subsection \<open>Extension headers in front of a transport header\<close>

definition remove_ext_hdr :: "uip_state \<Rightarrow> uip_state option" where
  "remove_ext_hdr s =
     (if ip_ext_len s > 0
      then if unat (ip_len s) < UIP_IPH_LEN + unat (ip_ext_len s) then Some (uip_clear_buf s)
           else do {
             s1 \<leftarrow> ip_move UIP_IPH_LEN (UIP_IPH_LEN + unat (ip_ext_len s))
                     (uint (ip_len s) - int UIP_IPH_LEN - uint (ip_ext_len s)) s;
             s2 \<leftarrow> put_ip_len (s1\<lparr>ip_len := ip_len s1 - ucast (ip_ext_len s1)\<rparr>);
             Some (s2\<lparr>ip_ext_len := 0\<rparr>)
           }
      else Some s)"

subsection \<open>UDP connections\<close>

text \<open>\<open>uip_udp_new\<close>: the next unused local port, then the first free connection. The address is copied.\<close>

partial_function (option) udp_port_loop :: "uip_udp_conn list \<Rightarrow> u16 \<Rightarrow> u16 option" where
  "udp_port_loop cs lastport =
     (let p = (if lastport + 1 \<ge> 32000 then 4096 else lastport + 1)
      in if \<exists>c \<in> set cs. uc_lport c = UIP_HTONS p then udp_port_loop cs p else Some p)"

fun free_conn_loop :: "uip_udp_conn list \<Rightarrow> nat \<Rightarrow> nat option" where
  "free_conn_loop [] i = None"
| "free_conn_loop (c # cs) i = (if uc_lport c = 0 then Some i else free_conn_loop cs (i + 1))"

definition uip_udp_new :: "ipaddr option \<Rightarrow> u16 \<Rightarrow> uip_state \<Rightarrow> (uip_state \<times> nat option) option" where
  "uip_udp_new ripaddr rport s = do {
     p \<leftarrow> udp_port_loop (ip_conns s) (ip_lastport s);
     let s1 = s\<lparr>ip_lastport := p\<rparr>;
     case free_conn_loop (ip_conns s1) 0 of
       None \<Rightarrow> Some (s1, None)
     | Some k \<Rightarrow> Some (s1\<lparr>ip_conns := (ip_conns s1)[k := \<lparr>uc_ripaddr = (case ripaddr of None \<Rightarrow> replicate 16 0 | Some a \<Rightarrow> a),
                   uc_lport = UIP_HTONS p, uc_rport = rport, uc_ttl = cur_hop_limit (uip_ds6_if (ip_node s1))\<rparr>]\<rparr>, Some k)
   }"

text \<open>The static memory at power-on.\<close>

definition uip_power_on :: "rpl_state \<Rightarrow> uip_state" where
  "uip_power_on n = \<lparr>ip_node = n, ip_buf = replicate UIP_BUFSIZE 0, ip_len = 0, ip_slen = 0, ip_ext_len = 0, ip_ext_opt_offset = 0,
     ip_ext_bitmap = 0, ip_next_hdr = 0, packet_forwarding = False, ip_lastport = 0,
     ip_conns = replicate UIP_UDP_CONNS \<lparr>uc_ripaddr = replicate 16 0, uc_lport = 0, uc_rport = 0, uc_ttl = 0\<rparr>,
     ip_handlers = [], ip_sent = [], ip_up = []\<rparr>"

end
