(* ===== verification/RplExtHeader.thy ===== *)
theory RplExtHeader
  imports Uip
begin

text \<open>
  The RPL option in the hop-by-hop header (\<open>core/net/rpl/rpl-ext-header.c\<close>), as far as no message is sent: making room for
  it, filling it in on the last step before transmission, removing it and turning it round. The header of 8 bytes has
  its option at offset 2: type, length, flags, instance, and the rank of the sender. \<open>None\<close> is a null pointer
  dereference or an access outside of the buffer.
\<close>

unbundle bit_operations_syntax

definition RPL_HDR_OPT_LEN :: u8 where "RPL_HDR_OPT_LEN = 4"
definition RPL_HOP_BY_HOP_LEN :: nat where "RPL_HOP_BY_HOP_LEN = 8"
definition RPL_HDR_OPT_DOWN :: u8 where "RPL_HDR_OPT_DOWN = 0x80"
definition RPL_HDR_OPT_RANK_ERR :: u8 where "RPL_HDR_OPT_RANK_ERR = 0x40"
definition RPL_HDR_OPT_FWD_ERR :: u8 where "RPL_HDR_OPT_FWD_ERR = 0x20"
definition UIP_EXT_HDR_OPT_RPL :: u8 where "UIP_EXT_HDR_OPT_RPL = 0x63"

lemmas hbho_consts = RPL_HDR_OPT_LEN_def RPL_HOP_BY_HOP_LEN_def RPL_HDR_OPT_DOWN_def RPL_HDR_OPT_RANK_ERR_def
  RPL_HDR_OPT_FWD_ERR_def UIP_EXT_HDR_OPT_RPL_def

text \<open>The option, with \<open>uip_ext_opt_offset\<close> 2 in all functions but \<open>rpl_verify_header\<close>.\<close>

definition rpl_opt :: "uip_state \<Rightarrow> nat" where
  "rpl_opt s = uip_l2_l3_hdr_len s + 2"

definition set_rpl_opt :: "uip_state \<Rightarrow> uip_state option" where
  "set_rpl_opt s = do {
     let h = uip_l2_l3_hdr_len s;
     s1 \<leftarrow> ip_move (h + RPL_HOP_BY_HOP_LEN) h (uint (ip_len s) - int UIP_IPH_LEN) s;
     proto \<leftarrow> rd (ip_buf s1) 6;
     s2 \<leftarrow> ip_put h (replicate RPL_HOP_BY_HOP_LEN 0) s1;
     s3 \<leftarrow> ip_put h [proto] s2;
     s4 \<leftarrow> ip_put 6 [UIP_PROTO_HBHO] s3;
     s5 \<leftarrow> ip_put (h + 1) [of_nat (RPL_HOP_BY_HOP_LEN - 8)] s4;
     s6 \<leftarrow> ip_put (rpl_opt s5) ([UIP_EXT_HDR_OPT_RPL, RPL_HDR_OPT_LEN, 0, 0] @ st16 0) s5;
     let s7 = s6\<lparr>ip_len := ip_len s6 + of_nat RPL_HOP_BY_HOP_LEN\<rparr>;
     temp_len \<leftarrow> rd (ip_buf s7) 5;
     l \<leftarrow> rd (ip_buf s7) (h + 1);
     s8 \<leftarrow> ip_put 5 [temp_len + l + 8] s7;
     if temp_len + l + 8 < temp_len
     then do { hi \<leftarrow> rd (ip_buf s8) 4; ip_put 4 [hi + 1] s8 }
     else Some s8
   }"

text \<open>The result is whether the packet has to be dropped. On the way out \<open>uip_ext_len\<close> stays 0.\<close>

definition rpl_update_header_final :: "ipaddr \<Rightarrow> uip_state \<Rightarrow> (uip_state \<times> bool) option" where
  "rpl_update_header_final addr s = do {
     let s0 = s\<lparr>ip_ext_len := 0\<rparr>;
     let n = ip_node s;
     proto \<leftarrow> rd (ip_buf s) 6;
     if proto \<noteq> UIP_PROTO_HBHO then Some (s0, False)
     else do {
       l \<leftarrow> rd (ip_buf s) (uip_l2_l3_hdr_len s0 + 1);
       if l \<noteq> of_nat (RPL_HOP_BY_HOP_LEN - 8) then Some (s, False)
       else do {
         ty \<leftarrow> rd (ip_buf s) (rpl_opt s0);
         senderrank \<leftarrow> ld16 (ip_buf s) (rpl_opt s0 + 4);
         if ty \<noteq> UIP_EXT_HDR_OPT_RPL \<or> senderrank \<noteq> 0 then Some (s0, False)
         else (case default_instance n of
           None \<Rightarrow> Some (s0, True)
         | Some i \<Rightarrow>
             if \<not> i_used (instance_table n i) then Some (s0, True)
             else do {
               cur \<leftarrow> i_current_dag (instance_table n i);
               if \<not> d_joined (dag_table n cur) then Some (s0, True)
               else do {
                 down \<leftarrow> (case rpl_find_parent cur addr n of
                     None \<Rightarrow> Some True
                   | Some p \<Rightarrow> do { d \<leftarrow> p_dag (parents n p); Some (Some p \<noteq> d_preferred_parent (dag_table n d)) });
                 s1 \<leftarrow> (if down then ip_put (rpl_opt s0 + 2) [RPL_HDR_OPT_DOWN] s0 else Some s0);
                 s2 \<leftarrow> ip_put (rpl_opt s0 + 3) [i_instance_id (instance_table n i)] s1;
                 s3 \<leftarrow> ip_put (rpl_opt s0 + 4) (st16 (UIP_HTONS (d_rank (dag_table n cur)))) s2;
                 Some (s3, False)
               }
             })
       }
     }
   }"

text \<open>What follows the header is taken to begin 8 bytes later, although the header can be longer.\<close>

definition rpl_remove_header :: "uip_state \<Rightarrow> uip_state option" where
  "rpl_remove_header s = do {
     let s0 = s\<lparr>ip_ext_len := 0\<rparr>;
     let h = uip_l2_l3_hdr_len s0;
     proto \<leftarrow> rd (ip_buf s0) 6;
     if proto \<noteq> UIP_PROTO_HBHO then Some s0
     else do {
       nxt \<leftarrow> rd (ip_buf s0) h;
       s1 \<leftarrow> ip_put 6 [nxt] s0;
       temp_len \<leftarrow> rd (ip_buf s1) 5;
       l \<leftarrow> rd (ip_buf s1) (h + 1);
       let s2 = s1\<lparr>ip_len := ip_len s1 - (ucast l + 8)\<rparr>;
       s3 \<leftarrow> ip_put 5 [temp_len - (l + 8)] s2;
       s4 \<leftarrow> (if temp_len - (l + 8) > temp_len
              then do { hi \<leftarrow> rd (ip_buf s3) 4; ip_put 4 [hi - 1] s3 } else Some s3);
       ip_move h (h + RPL_HOP_BY_HOP_LEN) (uint (ip_len s4) - int UIP_IPH_LEN) s4
     }
   }"

definition rpl_invert_header :: "uip_state \<Rightarrow> (uip_state \<times> u8) option" where
  "rpl_invert_header s = do {
     let s0 = s\<lparr>ip_ext_len := 0\<rparr>;
     let n = ip_node s;
     proto \<leftarrow> rd (ip_buf s) 6;
     if proto \<noteq> UIP_PROTO_HBHO then Some (s, 0)
     else do {
       ty \<leftarrow> rd (ip_buf s) (rpl_opt s0);
       if ty \<noteq> UIP_EXT_HDR_OPT_RPL then Some (s, 0)
       else do {
         flags \<leftarrow> rd (ip_buf s) (rpl_opt s0 + 2);
         s1 \<leftarrow> ip_put (rpl_opt s0 + 2) [(flags AND RPL_HDR_OPT_DOWN) XOR RPL_HDR_OPT_DOWN] s0;
         instance_id \<leftarrow> rd (ip_buf s1) (rpl_opt s0 + 3);
         i \<leftarrow> rpl_get_instance instance_id n;
         cur \<leftarrow> i_current_dag (instance_table n i);
         s2 \<leftarrow> ip_put (rpl_opt s0 + 4) (st16 (UIP_HTONS (d_rank (dag_table n cur)))) s1;
         Some (s2\<lparr>ip_ext_len := ip_ext_len s\<rparr>, of_nat RPL_HOP_BY_HOP_LEN)
       }
     }
   }"

end
