(* ===== verification/Tcpip.thy ===== *)
theory Tcpip
  imports RplExtHeader
begin

text \<open>
  The output of IPv6 packets: \<open>tcpip_ipv6_output\<close> (\<open>core/net/ip/tcpip.c\<close>), which finds the next hop, completes the RPL option,
  selects the radio and the source address and hands the packet to the adaptation layer, and \<open>uip_icmp6_send\<close>
  (\<open>core/net/ipv6/uip-icmp6.c\<close>). The messages RPL sends are events of its trace: \<open>rpl_call\<close> runs an operation of RPL and then
  puts the messages it sent into the buffer, one after the other, and sends them, as the code does in the midst of
  the operation.
\<close>

unbundle bit_operations_syntax

subsection \<open>The next hop\<close>

text \<open>\<open>NoRoute\<close>: no route and no default router. \<open>Dead\<close>: the neighbour of the route is gone; the route is removed, after
  a global repair if the node is the root, and the packet stays in the buffer.\<close>

datatype next_hop = NoRoute | Dead | Hop ipaddr

definition choose_next_hop :: "ipaddr \<Rightarrow> rpl_state \<Rightarrow> (rpl_state \<times> next_hop) option" where
  "choose_next_hop dst n =
     (if uip_ds6_is_addr_onlink dst n then Some (n, Hop dst)
      else (case uip_ds6_route_lookup dst n of
        (n1, None) \<Rightarrow> Some (n1, case uip_ds6_defrt_choose n1 of None \<Rightarrow> NoRoute | Some a \<Rightarrow> Hop a)
      | (n1, Some r) \<Rightarrow> (case uip_ds6_route_nexthop (Some r) n1 of
          Some a \<Rightarrow> Some (n1, Hop a)
        | None \<Rightarrow> do {
            n2 \<leftarrow> (case re_dag (rt_state (routes n1 r)) of
                None \<Rightarrow> Some n1
              | Some d \<Rightarrow> do {
                  i \<leftarrow> d_instance (dag_table n1 d);
                  map_option fst (rpl_repair_root (i_instance_id (instance_table n1 i)) n1)
                });
            n3 \<leftarrow> uip_ds6_route_rm (Some r) n2;
            Some (n3, Dead)
          })))"

text \<open>The radio of the next hop, if it is a neighbour in the address map.\<close>

definition hop_radio :: "ipaddr \<Rightarrow> rpl_state \<Rightarrow> rpl_state" where
  "hop_radio a n = (case uip_ds6_nbr_lookup (Some a) n of
     None \<Rightarrow> n
   | Some k \<Rightarrow> (case uip_ds6_nbr_get_ll (Some k) n of
       None \<Rightarrow> n
     | Some m \<Rightarrow> select_loop_lr m (ds6_lr_addrmap n) n))"

subsection \<open>Output\<close>

definition tcpip_output :: "linkaddr option \<Rightarrow> uip_state \<Rightarrow> uip_state option" where
  "tcpip_output a s = do {
     bs \<leftarrow> mem_read (ip_buf s) 0 (unat (ip_len s));
     Some (s\<lparr>ip_sent := ip_sent s @ [(a, sending_in_LR (ip_node s), bs)]\<rparr>)
   }"

text \<open>Transmission to the next hop. No packet waits for an address to be resolved.\<close>

definition send_to_hop :: "ipaddr \<Rightarrow> uip_state \<Rightarrow> uip_state option" where
  "send_to_hop a s = do {
     (s1, err) \<leftarrow> rpl_update_header_final a s;
     if err then Some (uip_clear_buf s1)
     else do {
       let s2 = s1\<lparr>ip_node := hop_radio a (ip_node s1)\<rparr>;
       s3 \<leftarrow> (if packet_forwarding s2 then Some s2
              else ip_put 8 (uip_ds6_select_src (ip_dest (ip_buf s2)) (ip_node s2)) s2);
       case uip_ds6_nbr_lookup (Some a) (ip_node s3) of
         None \<Rightarrow> Some (s3\<lparr>ip_len := 0\<rparr>)
       | Some k \<Rightarrow> do {
           s4 \<leftarrow> tcpip_output (uip_ds6_nbr_get_ll (Some k) (ip_node s3)) s3;
           Some (uip_clear_buf s4)
         }
     }
   }"

definition tcpip_ipv6_output :: "uip_state \<Rightarrow> uip_state option" where
  "tcpip_ipv6_output s =
     (if ip_len s = 0 then Some s
      else if ip_len s > ucast UIP_LINK_MTU then Some (uip_clear_buf s)
      else if uip_is_addr_unspecified (ip_dest (ip_buf s)) then Some (uip_clear_buf s)
      else if uip_is_addr_mcast (ip_dest (ip_buf s))
      then do { s1 \<leftarrow> tcpip_output None s; Some (uip_clear_buf s1) }
      else do {
        (n1, hop) \<leftarrow> choose_next_hop (ip_dest (ip_buf s)) (ip_node s);
        let s1 = s\<lparr>ip_node := n1\<rparr>;
        case hop of
          NoRoute \<Rightarrow> Some (uip_clear_buf s1)
        | Dead \<Rightarrow> Some s1
        | Hop a \<Rightarrow> send_to_hop a s1
      })"

subsection \<open>ICMPv6 messages\<close>

text \<open>The headers \<open>uip_icmp6_send\<close> writes in front of the \<open>payload_len\<close> bytes of the message.\<close>

definition icmp6_headers :: "ipaddr \<Rightarrow> u8 \<Rightarrow> u8 \<Rightarrow> nat \<Rightarrow> uip_state \<Rightarrow> uip_state option" where
  "icmp6_headers dst ty code payload_len s = do {
     let l = payload_len + 4;
     s1 \<leftarrow> ip_put 0 [0x60, 0, 0, 0, of_nat (l div 256), of_nat l, UIP_PROTO_ICMP6, cur_hop_limit (uip_ds6_if (ip_node s))] s;
     s2 \<leftarrow> ip_put 24 dst s1;
     s3 \<leftarrow> ip_put 8 (uip_ds6_select_src dst (ip_node s2)) s2;
     s4 \<leftarrow> ip_put (uip_l2_l3_hdr_len s3) [ty, code, 0, 0] s3;
     c \<leftarrow> uip_icmp6chksum s4;
     ip_put (uip_l2_l3_hdr_len s4 + 2) (st16 (NOT c)) s4
   }"

definition icmp6_send :: "ipaddr \<Rightarrow> u8 \<Rightarrow> u8 \<Rightarrow> nat \<Rightarrow> uip_state \<Rightarrow> uip_state option" where
  "icmp6_send dst ty code payload_len s = do {
     s1 \<leftarrow> icmp6_headers dst ty code payload_len s;
     tcpip_ipv6_output (s1\<lparr>ip_len := of_nat (UIP_IPH_LEN + 4 + payload_len)\<rparr>)
   }"

fun send_messages :: "io_event list \<Rightarrow> uip_state \<Rightarrow> uip_state option" where
  "send_messages [] s = Some s"
| "send_messages (Icmp6Send dst ty code bytes # es) s = do {
     s1 \<leftarrow> ip_put (uip_l2_l3_hdr_len s + 4) bytes s;
     s2 \<leftarrow> icmp6_send dst ty code (length bytes) s1;
     send_messages es s2
   }"
| "send_messages (e # es) s = send_messages es s"

definition rpl_call :: "(rpl_state \<Rightarrow> rpl_state option) \<Rightarrow> uip_state \<Rightarrow> uip_state option" where
  "rpl_call f s = do {
     n \<leftarrow> f (ip_node s);
     send_messages (drop (length (io (ip_node s))) (io n)) (s\<lparr>ip_node := n\<rparr>)
   }"

end
