(* ===== verification/RplForward.thy ===== *)
theory RplForward
  imports Tcpip
begin

text \<open>
  The RPL option on the way of a packet (\<open>core/net/rpl/rpl-ext-header.c\<close>): checking it on reception, where ranks that do not
  fit the direction of the packet reveal a loop, updating it before the packet is forwarded, and inserting it
  into a packet of this node. A message sent meanwhile overwrites the packet: what is read afterwards is what the
  message left in the buffer.
\<close>

unbundle bit_operations_syntax

subsection \<open>Checking the option\<close>

text \<open>A route that led here wrongly is dropped.\<close>

definition forward_error :: "nat \<Rightarrow> uip_state \<Rightarrow> uip_state option" where
  "forward_error i s = do {
     let (n1, route) = uip_ds6_route_lookup (ip_dest (ip_buf s)) (ip_node s);
     n2 \<leftarrow> uip_ds6_route_rm route n1;
     n3 \<leftarrow> rpl_reset_dio_timer i n2;
     Some (s\<lparr>ip_node := n3\<rparr>)
   }"

text \<open>The packet comes from a rank that is not on the other side of the one of this node.\<close>

definition loop_detected :: "nat \<Rightarrow> ptr \<Rightarrow> nat \<Rightarrow> uip_state \<Rightarrow> (uip_state \<times> bool) option" where
  "loop_detected i sender opt s = do {
     let s1 = (if sender \<noteq> None
               then s\<lparr>ip_node := rpl_schedule_unicast_dio_immediately i
                        (mod_inst i (\<lambda>x. x\<lparr>i_unicast_dio_target := sender\<rparr>) (ip_node s))\<rparr>
               else s);
     flags \<leftarrow> rd (ip_buf s1) (opt + 2);
     if flags AND RPL_HDR_OPT_RANK_ERR \<noteq> 0
     then do { n \<leftarrow> rpl_reset_dio_timer i (ip_node s1); Some (s1\<lparr>ip_node := n\<rparr>, True) }
     else do { s2 \<leftarrow> ip_put (opt + 2) [flags OR RPL_HDR_OPT_RANK_ERR] s1; Some (s2, False) }
   }"

text \<open>The result is whether the packet has to be dropped. The position of the option depends on \<open>uip_ext_len\<close>, which a message
  sent by the selection of a parent sets to 0.\<close>

definition rpl_verify_header :: "u8 \<Rightarrow> uip_state \<Rightarrow> (uip_state \<times> bool) option" where
  "rpl_verify_header off s = do {
     let opt = uip_l2_l3_hdr_len s + unat off;
     l \<leftarrow> rd (ip_buf s) (uip_l2_l3_hdr_len s + 1);
     ty \<leftarrow> rd (ip_buf s) opt;
     optlen \<leftarrow> rd (ip_buf s) (opt + 1);
     if l \<noteq> of_nat (RPL_HOP_BY_HOP_LEN - 8) \<or> ty \<noteq> UIP_EXT_HDR_OPT_RPL \<or> optlen \<noteq> RPL_HDR_OPT_LEN then Some (s, True)
     else do {
       flags \<leftarrow> rd (ip_buf s) (opt + 2);
       instance_id \<leftarrow> rd (ip_buf s) (opt + 3);
       rank \<leftarrow> ld16 (ip_buf s) (opt + 4);
       case rpl_get_instance instance_id (ip_node s) of
         None \<Rightarrow> Some (s, True)
       | Some i \<Rightarrow>
           if flags AND RPL_HDR_OPT_FWD_ERR \<noteq> 0 then do { s1 \<leftarrow> forward_error i s; Some (s1, True) }
           else do {
             cur \<leftarrow> i_current_dag (instance_table (ip_node s) i);
             if \<not> d_joined (dag_table (ip_node s) cur) then Some (s, True)
             else do {
               let down = (flags AND RPL_HDR_OPT_DOWN \<noteq> 0);
               let sender_rank = UIP_HTONS rank;
               let sender_closer = (sender_rank < d_rank (dag_table (ip_node s) cur));
               let sender = nbr_table_get_from_lladdr (ip_node s) RPL_PARENTS (Some (packetbuf_sender (ip_node s)));
               s1 \<leftarrow> (case sender of
                   None \<Rightarrow> Some s
                 | Some p \<Rightarrow>
                     if flags AND RPL_HDR_OPT_RANK_ERR \<noteq> 0
                     then rpl_call (\<lambda>n. map_option fst (rpl_select_dag i p (mod_parent p (\<lambda>x. x\<lparr>p_rank := sender_rank\<rparr>) n))) s
                     else Some s);
               if down = sender_closer then Some (s1, False)
               else loop_detected i sender (uip_l2_l3_hdr_len s1 + unat off) s1
             }
           }
     }
   }"

subsection \<open>Updating and inserting the option\<close>

text \<open>The direction of a packet this node forwards. A packet on its way down that has no route here is not
  forwarded: its sender gets a no-path DAO. The DAO takes the address from the packet.\<close>

definition update_direction :: "uip_state \<Rightarrow> (uip_state \<times> bool) option" where
  "update_direction s = do {
     let opt = rpl_opt s;
     let dst = ip_dest (ip_buf s);
     flags \<leftarrow> rd (ip_buf s) (opt + 2);
     let (n1, route) = uip_ds6_route_lookup dst (ip_node s);
     let s1 = s\<lparr>ip_node := n1\<rparr>;
     if flags AND RPL_HDR_OPT_DOWN \<noteq> 0
     then if route = None
          then do {
            s2 \<leftarrow> ip_put (opt + 2) [flags OR RPL_HDR_OPT_FWD_ERR] s1;
            s3 \<leftarrow> (case rpl_get_parent (packetbuf_sender (ip_node s2)) (ip_node s2) of
                None \<Rightarrow> Some s2
              | Some p \<Rightarrow> rpl_call (dao_output_target (Some p) dst RPL_ZERO_LIFETIME) s2);
            Some (s3, True)
          }
          else Some (s1, False)
     else do {
       s2 \<leftarrow> ip_put (opt + 2)
               [if route = None then flags AND NOT RPL_HDR_OPT_DOWN else flags OR RPL_HDR_OPT_DOWN] s1;
       Some (s2, False)
     }
   }"

text \<open>The result is whether the packet has to be dropped; then, and when the instance is unknown, \<open>uip_ext_len\<close> stays 0.\<close>

definition rpl_update_header_empty :: "uip_state \<Rightarrow> (uip_state \<times> bool) option" where
  "rpl_update_header_empty s = do {
     let s0 = s\<lparr>ip_ext_len := 0\<rparr>;
     let n = ip_node s;
     let opt = rpl_opt s0;
     proto \<leftarrow> rd (ip_buf s) 6;
     if proto \<noteq> UIP_PROTO_HBHO
     then if unat (ip_len s) + RPL_HOP_BY_HOP_LEN > UIP_BUFSIZE then Some (s, False)
          else do {
            s1 \<leftarrow> set_rpl_opt s0;
            Some (s1\<lparr>ip_ext_len := ip_ext_len s + of_nat RPL_HOP_BY_HOP_LEN\<rparr>, False)
          }
     else do {
       l \<leftarrow> rd (ip_buf s) (uip_l2_l3_hdr_len s0 + 1);
       ty \<leftarrow> rd (ip_buf s) opt;
       optlen \<leftarrow> rd (ip_buf s) (opt + 1);
       if l \<noteq> of_nat (RPL_HOP_BY_HOP_LEN - 8) \<or> ty \<noteq> UIP_EXT_HDR_OPT_RPL \<or> optlen \<noteq> RPL_HDR_OPT_LEN then Some (s, False)
       else do {
         instance_id \<leftarrow> rd (ip_buf s) (opt + 3);
         case rpl_get_instance instance_id n of
           None \<Rightarrow> Some (s0, False)
         | Some i \<Rightarrow>
             if \<not> i_used (instance_table n i) then Some (s0, False)
             else do {
               cur \<leftarrow> i_current_dag (instance_table n i);
               if \<not> d_joined (dag_table n cur) then Some (s0, False)
               else do {
                 s1 \<leftarrow> ip_put (opt + 4) (st16 (UIP_HTONS (d_rank (dag_table n cur)))) s0;
                 (s2, err) \<leftarrow> update_direction s1;
                 Some (if err then s2 else s2\<lparr>ip_ext_len := ip_ext_len s\<rparr>, err)
               }
             }
       }
     }
   }"

definition rpl_insert_header :: "uip_state \<Rightarrow> uip_state option" where
  "rpl_insert_header s =
     (if default_instance (ip_node s) \<noteq> None \<and> \<not> uip_is_addr_mcast (ip_dest (ip_buf s))
      then map_option fst (rpl_update_header_empty s) else Some s)"

end
