(* ===== verification/Icmp6.thy ===== *)
theory Icmp6
  imports RplForward
begin

text \<open>
  ICMPv6 (\<open>core/net/ipv6/uip-icmp6.c\<close>): the table of input handlers, errors sent about a packet in the buffer, echo requests and
  replies. The handlers of the RPL messages are those of RplNode; they read the message from the buffer, and what they
  send goes out through \<open>rpl_call\<close>. A DAO acknowledgement is not acted upon in this configuration.
\<close>

unbundle bit_operations_syntax

definition ICMP6_DST_UNREACH :: u8 where "ICMP6_DST_UNREACH = 1"
definition ICMP6_PACKET_TOO_BIG :: u8 where "ICMP6_PACKET_TOO_BIG = 2"
definition ICMP6_TIME_EXCEEDED :: u8 where "ICMP6_TIME_EXCEEDED = 3"
definition ICMP6_PARAM_PROB :: u8 where "ICMP6_PARAM_PROB = 4"
definition ICMP6_ECHO_REQUEST :: u8 where "ICMP6_ECHO_REQUEST = 128"
definition ICMP6_ECHO_REPLY :: u8 where "ICMP6_ECHO_REPLY = 129"
definition ICMP6_PARAMPROB_HEADER :: u8 where "ICMP6_PARAMPROB_HEADER = 0"
definition ICMP6_PARAMPROB_NEXTHEADER :: u8 where "ICMP6_PARAMPROB_NEXTHEADER = 1"
definition ICMP6_PARAMPROB_OPTION :: u8 where "ICMP6_PARAMPROB_OPTION = 2"
definition ICMP6_DST_UNREACH_NOTNEIGHBOR :: u8 where "ICMP6_DST_UNREACH_NOTNEIGHBOR = 2"
definition ICMP6_DST_UNREACH_NOPORT :: u8 where "ICMP6_DST_UNREACH_NOPORT = 4"
definition ICMP6_TIME_EXCEED_TRANSIT :: u8 where "ICMP6_TIME_EXCEED_TRANSIT = 0"
definition UIP_ICMP6_HANDLER_CODE_ANY :: u8 where "UIP_ICMP6_HANDLER_CODE_ANY = 0xff"
definition RPL_CODE_DAO_ACK :: u8 where "RPL_CODE_DAO_ACK = 3"

lemmas icmp6_consts = ICMP6_DST_UNREACH_def ICMP6_PACKET_TOO_BIG_def ICMP6_TIME_EXCEEDED_def ICMP6_PARAM_PROB_def
  ICMP6_ECHO_REQUEST_def ICMP6_ECHO_REPLY_def ICMP6_PARAMPROB_HEADER_def ICMP6_PARAMPROB_NEXTHEADER_def
  ICMP6_PARAMPROB_OPTION_def ICMP6_DST_UNREACH_NOTNEIGHBOR_def ICMP6_DST_UNREACH_NOPORT_def
  ICMP6_TIME_EXCEED_TRANSIT_def UIP_ICMP6_HANDLER_CODE_ANY_def RPL_CODE_DAO_ACK_def

subsection \<open>Handlers\<close>

definition input_handler_lookup :: "u8 \<Rightarrow> u8 \<Rightarrow> uip_state \<Rightarrow> icmp6_handler option" where
  "input_handler_lookup ty icode s =
     map_option (\<lambda>(_, _, h). h)
       (find (\<lambda>(t, c, _). t = ty \<and> (c = icode \<or> c = UIP_ICMP6_HANDLER_CODE_ANY)) (ip_handlers s))"

text \<open>\<open>list_add\<close> moves a handler that is on the list to its end.\<close>

definition uip_icmp6_register_input_handler :: "u8 \<times> u8 \<times> icmp6_handler \<Rightarrow> uip_state \<Rightarrow> uip_state" where
  "uip_icmp6_register_input_handler h s = s\<lparr>ip_handlers := remove1 h (ip_handlers s) @ [h]\<rparr>"

definition uip_icmp6_init :: "uip_state \<Rightarrow> uip_state" where
  "uip_icmp6_init s =
     uip_icmp6_register_input_handler (ICMP6_ECHO_REPLY, UIP_ICMP6_HANDLER_CODE_ANY, Echo_reply_input)
       (uip_icmp6_register_input_handler (ICMP6_ECHO_REQUEST, UIP_ICMP6_HANDLER_CODE_ANY, Echo_request_input) s)"

definition rpl_icmp6_register_handlers :: "uip_state \<Rightarrow> uip_state" where
  "rpl_icmp6_register_handlers s =
     foldl (\<lambda>t h. uip_icmp6_register_input_handler h t) s
       [(ICMP6_RPL, RPL_CODE_DIS, Dis_input), (ICMP6_RPL, RPL_CODE_DIO, Dio_input), (ICMP6_RPL, RPL_CODE_DAO, Dao_input),
        (ICMP6_RPL, RPL_CODE_DAO_ACK, Dao_ack_input)]"

subsection \<open>Errors\<close>

text \<open>An error is not answered: a message of a type below 128, looked for behind the extension headers.\<close>

definition answers_error :: "uip_state \<Rightarrow> bool option" where
  "answers_error s = do {
     nxt \<leftarrow> rd (ip_buf s) (if ip_ext_len s \<noteq> 0 then uip_l2_l3_hdr_len s else 6);
     ty \<leftarrow> rd (ip_buf s) (uip_l2_l3_hdr_len s);
     Some (nxt = UIP_PROTO_ICMP6 \<and> ty < 128)
   }"

text \<open>The packet becomes the body of the message, as much of it as fits into the MTU; \<open>tmp_ipaddr\<close> is its destination.\<close>

definition error_body :: "uip_state \<Rightarrow> uip_state option" where
  "error_body s = do {
     let len = ip_len s + 48;
     let s1 = s\<lparr>ip_len := (if len > ucast UIP_LINK_MTU then ucast UIP_LINK_MTU else len)\<rparr>;
     s2 \<leftarrow> ip_move (uip_l2_l3_hdr_len s1 + 4 + unat (ip_ext_len s1) + 4) 0
             (uint (ip_len s1) - 44 - uint (ip_ext_len s1) - 4) s1;
     s3 \<leftarrow> ip_put 0 [0x60, 0, 0, 0] s2;
     s4 \<leftarrow> ip_put (if ip_ext_len s3 \<noteq> 0 then UIP_IPH_LEN else 6) [UIP_PROTO_ICMP6] s3;
     ip_put 7 [cur_hop_limit (uip_ds6_if (ip_node s4))] s4
   }"

text \<open>The ICMPv6 header of the error, once the addresses are set.\<close>

definition error_headers :: "u8 \<Rightarrow> u8 \<Rightarrow> u32 \<Rightarrow> uip_state \<Rightarrow> uip_state option" where
  "error_headers ty code param s = do {
     let h = uip_l2_l3_hdr_len s;
     s1 \<leftarrow> ip_put h [ty, code] s;
     s2 \<leftarrow> ip_put (h + 4) (set32 param) s1;
     s3 \<leftarrow> put_ip_len s2;
     s4 \<leftarrow> ip_put (h + 2) [0, 0] s3;
     c \<leftarrow> uip_icmp6chksum s4;
     ip_put (h + 2) (st16 (NOT c)) s4
   }"

definition uip_icmp6_error_output :: "u8 \<Rightarrow> u8 \<Rightarrow> u32 \<Rightarrow> uip_state \<Rightarrow> uip_state option" where
  "uip_icmp6_error_output ty code param s = do {
     is_error \<leftarrow> answers_error s;
     if is_error then Some (uip_clear_buf s)
     else do {
       s1 \<leftarrow> rpl_remove_header s;
       let tmp = ip_dest (ip_buf s1);
       s2 \<leftarrow> error_body s1;
       let src = ip_src (ip_buf s2);
       if uip_is_addr_unspecified src then Some (uip_clear_buf s2)
       else do {
         s3 \<leftarrow> ip_put 24 src s2;
         if uip_is_addr_mcast tmp \<and> \<not> (ty = ICMP6_PARAM_PROB \<and> code = ICMP6_PARAMPROB_OPTION) then Some (uip_clear_buf s3)
         else do {
           s4 \<leftarrow> ip_put 8 (uip_ds6_select_src tmp (ip_node s3)) s3;
           s5 \<leftarrow> error_headers ty code param s4;
           rpl_insert_header s5
         }
       }
     }
   }"

subsection \<open>Echo\<close>

text \<open>Without its extension headers, except for the RPL option, which is turned round.\<close>

definition cut_headers :: "uip_state \<Rightarrow> uip_state option" where
  "cut_headers s =
     (if ip_ext_len s = 0 then Some s
      else do {
        (s1, temp_ext_len) \<leftarrow> rpl_invert_header s;
        if temp_ext_len \<noteq> 0
        then do {
          s2 \<leftarrow> ip_put UIP_IPH_LEN [UIP_PROTO_ICMP6] s1;
          let cut = uint (ip_ext_len s2) - uint temp_ext_len;
          s3 \<leftarrow> (if ip_ext_len s2 \<noteq> temp_ext_len
                 then do {
                   t \<leftarrow> put_ip_len (s2\<lparr>ip_len := ip_len s2 - of_int cut\<rparr>);
                   ip_move (nat (int (uip_l2_l3_hdr_len t) + 4 - cut)) (uip_l2_l3_hdr_len t + 4)
                     (uint (ip_len t) - int UIP_IPH_LEN - uint temp_ext_len - 4) t
                 }
                 else Some s2);
          Some (s3\<lparr>ip_ext_len := temp_ext_len\<rparr>)
        }
        else do {
          s2 \<leftarrow> ip_put 6 [UIP_PROTO_ICMP6] s1;
          s3 \<leftarrow> put_ip_len (s2\<lparr>ip_len := ip_len s2 - ucast (ip_ext_len s2)\<rparr>);
          s4 \<leftarrow> ip_move (UIP_IPH_LEN + 4) (uip_l2_l3_hdr_len s3 + 4) (uint (ip_len s3) - int UIP_IPH_LEN - 4) s3;
          Some (s4\<lparr>ip_ext_len := 0\<rparr>)
        }
      })"

definition echo_request_input :: "uip_state \<Rightarrow> uip_state option" where
  "echo_request_input s = do {
     s1 \<leftarrow> ip_put 7 [cur_hop_limit (uip_ds6_if (ip_node s))] s;
     let src = ip_src (ip_buf s1);
     let dst = ip_dest (ip_buf s1);
     s2 \<leftarrow> ip_put 24 src s1;
     s3 \<leftarrow> ip_put 8 (if uip_is_addr_mcast dst then uip_ds6_select_src src (ip_node s2) else dst) s2;
     s4 \<leftarrow> cut_headers s3;
     s5 \<leftarrow> ip_put (uip_l2_l3_hdr_len s4) [ICMP6_ECHO_REPLY, 0, 0, 0] s4;
     c \<leftarrow> uip_icmp6chksum s5;
     ip_put (uip_l2_l3_hdr_len s5 + 2) (st16 (NOT c)) s5
   }"

text \<open>The callbacks get the sender, the hop limit, a pointer and a length. The pointer counts headers of 4 bytes instead of
  bytes; with the RPL option the length is that without the option.\<close>

definition echo_reply_input :: "uip_state \<Rightarrow> uip_state option" where
  "echo_reply_input s = do {
     let sender = ip_src (ip_buf s);
     ttl \<leftarrow> rd (ip_buf s) 7;
     s1 \<leftarrow> cut_headers s;
     let s2 = s1\<lparr>ip_len := ip_len s1 - ucast (ip_ext_len s1)\<rparr>;
     let event = EchoReply sender ttl (uip_l2_l3_hdr_len s2 + 4 * 4) (ip_len s2 - 4 - of_nat UIP_IPH_LEN);
     Some (uip_clear_buf (s2\<lparr>ip_up := ip_up s2 @ [event]\<rparr>))
   }"

subsection \<open>Messages of RPL\<close>

text \<open>The message from \<open>UIP_ICMP_PAYLOAD\<close> on, and its length.\<close>

definition icmp_payload :: "uip_state \<Rightarrow> nat \<Rightarrow> u8" where
  "icmp_payload s k = (let i = uip_l2_l3_hdr_len s + 4 + k in if i < length (ip_buf s) then ip_buf s ! i else 0)"

definition icmp_payload_len :: "uip_state \<Rightarrow> u8" where
  "icmp_payload_len s = ucast (ip_len s) - (44 + ip_ext_len s)"

definition run_handler :: "icmp6_handler \<Rightarrow> uip_state \<Rightarrow> uip_state option" where
  "run_handler h s = (case h of
     Echo_request_input \<Rightarrow> echo_request_input s
   | Echo_reply_input \<Rightarrow> echo_reply_input s
   | Dis_input \<Rightarrow> map_option uip_clear_buf (rpl_call (dis_input (ip_src (ip_buf s)) (ip_dest (ip_buf s))) s)
   | Dio_input \<Rightarrow> map_option uip_clear_buf (rpl_call (dio_input (ip_src (ip_buf s)) (icmp_payload s) (icmp_payload_len s)) s)
   | Dao_input \<Rightarrow> map_option uip_clear_buf (rpl_call (dao_input (ip_src (ip_buf s)) (icmp_payload s) (icmp_payload_len s)) s)
   | Dao_ack_input \<Rightarrow> Some (uip_clear_buf s))"

text \<open>The result is whether there is a handler.\<close>

definition uip_icmp6_input :: "u8 \<Rightarrow> u8 \<Rightarrow> uip_state \<Rightarrow> (uip_state \<times> bool) option" where
  "uip_icmp6_input ty icode s = (case input_handler_lookup ty icode s of
     None \<Rightarrow> Some (s, False)
   | Some h \<Rightarrow> do { s1 \<leftarrow> run_handler h s; Some (s1, True) })"

end
