(* ===== verification/Uip6.thy ===== *)
theory Uip6
  imports Icmp6
begin

text \<open>
  The processing of a received IPv6 packet (\<open>uip_process\<close> in \<open>core/net/ipv6/uip6.c\<close>): the checks of the header, the options
  of the extension headers, forwarding, the delivery of ICMPv6 and UDP; and the transmission of a datagram
  (\<open>core/net/ip/uip-udp-packet.c\<close>). The goto labels of the code are values of \<open>uip_label\<close>. TCP is not modelled: a segment leaves
  the model at the label \<open>Tcp_input\<close>. The applications read a datagram and answer it, if at all, later.
\<close>

unbundle bit_operations_syntax

definition UIP_EXT_HDR_OPT_PAD1 :: u8 where "UIP_EXT_HDR_OPT_PAD1 = 0"
definition UIP_EXT_HDR_OPT_PADN :: u8 where "UIP_EXT_HDR_OPT_PADN = 1"
definition UIP_EXT_HDR_BITMAP_HBHO :: u8 where "UIP_EXT_HDR_BITMAP_HBHO = 0x01"
definition UIP_EXT_HDR_BITMAP_DESTO1 :: u8 where "UIP_EXT_HDR_BITMAP_DESTO1 = 0x02"
definition UIP_EXT_HDR_BITMAP_ROUTING :: u8 where "UIP_EXT_HDR_BITMAP_ROUTING = 0x04"
definition UIP_EXT_HDR_BITMAP_DESTO2 :: u8 where "UIP_EXT_HDR_BITMAP_DESTO2 = 0x40"

lemmas uip6_consts = UIP_EXT_HDR_OPT_PAD1_def UIP_EXT_HDR_OPT_PADN_def UIP_EXT_HDR_BITMAP_HBHO_def
  UIP_EXT_HDR_BITMAP_DESTO1_def UIP_EXT_HDR_BITMAP_ROUTING_def UIP_EXT_HDR_BITMAP_DESTO2_def

datatype uip_label = Drop | Send | Continue | Icmp6_input | Udp_input | Tcp_input

definition uip_is_addr_loopback :: "ipaddr \<Rightarrow> bool" where
  "uip_is_addr_loopback a \<longleftrightarrow> take 16 a = replicate 15 0 @ [1]"

subsection \<open>The options of an extension header\<close>

text \<open>One round of the loop over the options: with a label the loop is left, without one it goes on. The position of an option is
  an 8-bit number, which wraps: the loop may never end.\<close>

definition option_round :: "uip_state \<Rightarrow> (uip_state \<times> uip_label option) option" where
  "option_round s = do {
     let h = uip_l2_l3_hdr_len s;
     let off = ip_ext_opt_offset s;
     l \<leftarrow> rd (ip_buf s) (h + 1);
     if unat off < 8 * unat l + 8
     then do {
       ty \<leftarrow> rd (ip_buf s) (h + unat off);
       optlen \<leftarrow> rd (ip_buf s) (h + unat off + 1);
       if ty = UIP_EXT_HDR_OPT_PAD1 then Some (s\<lparr>ip_ext_opt_offset := off + 1\<rparr>, None)
       else if ty = UIP_EXT_HDR_OPT_PADN then Some (s\<lparr>ip_ext_opt_offset := off + (optlen + 2)\<rparr>, None)
       else if ty = UIP_EXT_HDR_OPT_RPL
       then do {
         (s1, err) \<leftarrow> rpl_verify_header off s;
         if err then Some (s1, Some Drop)
         else do {
           n \<leftarrow> rd (ip_buf s1) (uip_l2_l3_hdr_len s1 + unat off + 1);
           Some (s1\<lparr>ip_ext_opt_offset := off + (n + 2)\<rparr>, Some Continue)
         }
       }
       else if ty AND 0xc0 = 0 then Some (s\<lparr>ip_ext_opt_offset := off + (optlen + 2)\<rparr>, None)
       else if ty AND 0xc0 = 0x40 \<or> ty AND 0xc0 = 0xc0 \<and> uip_is_addr_mcast (ip_dest (ip_buf s)) then Some (s, Some Drop)
       else do {
         s1 \<leftarrow> uip_icmp6_error_output ICMP6_PARAM_PROB ICMP6_PARAMPROB_OPTION
                 (of_nat (UIP_IPH_LEN + unat (ip_ext_len s) + unat off)) s;
         Some (s1, Some Send)
       }
     }
     else Some (s, Some Continue)
   }"

partial_function (option) options_loop :: "uip_state \<Rightarrow> (uip_state \<times> uip_label) option" where
  "options_loop s = do {
     (s1, label) \<leftarrow> option_round s;
     case label of None \<Rightarrow> options_loop s1 | Some l \<Rightarrow> Some (s1, l)
   }"

definition ext_hdr_options_process :: "uip_state \<Rightarrow> (uip_state \<times> uip_label) option" where
  "ext_hdr_options_process s = options_loop (s\<lparr>ip_ext_opt_offset := 2\<rparr>)"

text \<open>Past an extension header.\<close>

definition skip_header :: "uip_state \<Rightarrow> uip_state option" where
  "skip_header s = do {
     let h = uip_l2_l3_hdr_len s;
     l \<leftarrow> rd (ip_buf s) (h + 1);
     Some (s\<lparr>ip_next_hdr := h, ip_ext_len := ip_ext_len s + (push_bit 3 l + 8)\<rparr>)
   }"

definition options_header :: "uip_state \<Rightarrow> (uip_state \<times> uip_label) option" where
  "options_header s = do {
     (s1, label) \<leftarrow> ext_hdr_options_process s;
     if label = Continue then do { s2 \<leftarrow> skip_header s1; Some (s2, Continue) } else Some (s1, label)
   }"

subsection \<open>The IPv6 header\<close>

text \<open>The length in the header may exceed the number of bytes received by that of the IPv6 header.\<close>

definition check_header :: "uip_state \<Rightarrow> (uip_state \<times> uip_label) option" where
  "check_header s = do {
     vtc \<leftarrow> rd (ip_buf s) 0;
     hi \<leftarrow> rd (ip_buf s) 4;
     lo \<leftarrow> rd (ip_buf s) 5;
     let l = 256 * unat hi + unat lo;
     if vtc AND 0xf0 \<noteq> 0x60 then Some (s, Drop)
     else if l > unat (ip_len s) then Some (s, Drop)
     else do {
       let s1 = s\<lparr>ip_len := of_nat (l + UIP_IPH_LEN)\<rparr>;
       if uip_is_addr_mcast (ip_src (ip_buf s1)) then Some (s1, Drop)
       else Some (s1\<lparr>ip_next_hdr := 6, ip_ext_len := 0, ip_ext_bitmap := 0\<rparr>, Continue)
     }
   }"

text \<open>The hop-by-hop header is processed before the packet is forwarded.\<close>

definition hbho_header :: "uip_state \<Rightarrow> (uip_state \<times> uip_label) option" where
  "hbho_header s = do {
     nxt \<leftarrow> rd (ip_buf s) (ip_next_hdr s);
     if nxt = UIP_PROTO_HBHO
     then options_header (s\<lparr>ip_ext_bitmap := ip_ext_bitmap s OR UIP_EXT_HDR_BITMAP_HBHO\<rparr>)
     else Some (s, Continue)
   }"

subsection \<open>Forwarding\<close>

definition for_me :: "ipaddr \<Rightarrow> rpl_state \<Rightarrow> bool" where
  "for_me a n \<longleftrightarrow> uip_ds6_addr_lookup a n \<noteq> None \<or> uip_ds6_maddr_lookup a n \<noteq> None \<or>
     uip_ds6_long_addr_lookup a n \<noteq> None \<or> uip_ds6_long_maddr_lookup a n \<noteq> None"

definition forward :: "uip_state \<Rightarrow> (uip_state \<times> uip_label) option" where
  "forward s = do {
     ttl \<leftarrow> rd (ip_buf s) 7;
     if ip_len s > ucast UIP_LINK_MTU
     then do { s1 \<leftarrow> uip_icmp6_error_output ICMP6_PACKET_TOO_BIG 0 UIP_LINK_MTU s; Some (s1, Send) }
     else if ttl \<le> 1
     then do { s1 \<leftarrow> uip_icmp6_error_output ICMP6_TIME_EXCEEDED ICMP6_TIME_EXCEED_TRANSIT 0 s; Some (s1, Send) }
     else do {
       (s1, err) \<leftarrow> rpl_update_header_empty s;
       if err then Some (s1, Drop)
       else do {
         t \<leftarrow> rd (ip_buf s1) 7;
         s2 \<leftarrow> ip_put 7 [t - 1] s1;
         Some (s2\<lparr>packet_forwarding := True\<rparr>, Send)
       }
     }
   }"

text \<open>A packet that is not for this node.\<close>

definition not_for_me :: "uip_state \<Rightarrow> (uip_state \<times> uip_label) option" where
  "not_for_me s =
     (let src = ip_src (ip_buf s); dst = ip_dest (ip_buf s)
      in if \<not> uip_is_addr_mcast dst \<and> \<not> uip_is_addr_linklocal dst \<and> \<not> uip_is_addr_linklocal src \<and>
            \<not> uip_is_addr_unspecified src \<and> \<not> uip_is_addr_loopback dst
         then forward s
         else if uip_is_addr_linklocal src \<and> \<not> uip_is_addr_unspecified src \<and> \<not> uip_is_addr_loopback dst \<and>
                 \<not> uip_is_addr_mcast dst \<and> \<not> uip_ds6_is_addr_onlink dst (ip_node s)
         then do {
           s1 \<leftarrow> uip_icmp6_error_output ICMP6_DST_UNREACH ICMP6_DST_UNREACH_NOTNEIGHBOR 0 s;
           Some (s1, Send)
         }
         else Some (s, Drop))"

subsection \<open>The chain of headers\<close>

definition bad_hdr :: "uip_state \<Rightarrow> (uip_state \<times> uip_label) option" where
  "bad_hdr s = do {
     s1 \<leftarrow> uip_icmp6_error_output ICMP6_PARAM_PROB ICMP6_PARAMPROB_NEXTHEADER (of_nat (ip_next_hdr s)) s;
     Some (s1, Send)
   }"

definition routing_header :: "uip_state \<Rightarrow> (uip_state \<times> uip_label) option" where
  "routing_header s = do {
     seg_left \<leftarrow> rd (ip_buf s) (uip_l2_l3_hdr_len s + 3);
     if seg_left > 0
     then do {
       s1 \<leftarrow> uip_icmp6_error_output ICMP6_PARAM_PROB ICMP6_PARAMPROB_HEADER
               (of_nat (UIP_IPH_LEN + unat (ip_ext_len s) + 2)) s;
       Some (s1, Send)
     }
     else do { s1 \<leftarrow> skip_header s; Some (s1, Continue) }
   }"

text \<open>One header. Each kind of extension header is accepted once, destination options twice. Fragments are dropped:
  reassembly is not configured.\<close>

definition next_header :: "uip_state \<Rightarrow> (uip_state \<times> uip_label) option" where
  "next_header s = do {
     nxt \<leftarrow> rd (ip_buf s) (ip_next_hdr s);
     let seen = (\<lambda>b. ip_ext_bitmap s AND b \<noteq> 0);
     let see = (\<lambda>b. s\<lparr>ip_ext_bitmap := ip_ext_bitmap s OR b\<rparr>);
     if nxt = UIP_PROTO_TCP then Some (s, Tcp_input)
     else if nxt = UIP_PROTO_UDP then Some (s, Udp_input)
     else if nxt = UIP_PROTO_ICMP6 then Some (s, Icmp6_input)
     else if nxt = UIP_PROTO_HBHO
     then if seen UIP_EXT_HDR_BITMAP_HBHO then bad_hdr s else options_header (see UIP_EXT_HDR_BITMAP_HBHO)
     else if nxt = UIP_PROTO_DESTO
     then if seen UIP_EXT_HDR_BITMAP_DESTO1
          then if seen UIP_EXT_HDR_BITMAP_DESTO2 then bad_hdr s else options_header (see UIP_EXT_HDR_BITMAP_DESTO2)
          else options_header (see UIP_EXT_HDR_BITMAP_DESTO1)
     else if nxt = UIP_PROTO_ROUTING
     then if seen UIP_EXT_HDR_BITMAP_ROUTING then bad_hdr s else routing_header (see UIP_EXT_HDR_BITMAP_ROUTING)
     else if nxt = UIP_PROTO_FRAG \<or> nxt = UIP_PROTO_NONE then Some (s, Drop)
     else bad_hdr s
   }"

partial_function (option) headers_loop :: "uip_state \<Rightarrow> (uip_state \<times> uip_label) option" where
  "headers_loop s = do {
     (s1, label) \<leftarrow> next_header s;
     if label = Continue then headers_loop s1 else Some (s1, label)
   }"

subsection \<open>Delivery\<close>

definition icmp6_input :: "uip_state \<Rightarrow> (uip_state \<times> uip_label) option" where
  "icmp6_input s = do {
     c \<leftarrow> uip_icmp6chksum s;
     if c \<noteq> 0xffff then Some (s, Drop)
     else do {
       ty \<leftarrow> rd (ip_buf s) (uip_l2_l3_hdr_len s);
       icode \<leftarrow> rd (ip_buf s) (uip_l2_l3_hdr_len s + 1);
       (s1, known) \<leftarrow> uip_icmp6_input ty icode s;
       let s2 = (if known then s1 else uip_clear_buf s1);
       Some (s2, if ip_len s2 > 0 then Send else Drop)
     }
   }"

text \<open>The connection a datagram is for.\<close>

fun udp_conn_loop :: "uip_udp_conn list \<Rightarrow> u16 \<Rightarrow> u16 \<Rightarrow> ipaddr \<Rightarrow> nat \<Rightarrow> nat option" where
  "udp_conn_loop [] srcport destport src i = None"
| "udp_conn_loop (c # cs) srcport destport src i =
     (if uc_lport c \<noteq> 0 \<and> destport = uc_lport c \<and> (uc_rport c = 0 \<or> srcport = uc_rport c) \<and>
         (uip_is_addr_unspecified (uc_ripaddr c) \<or> src = uc_ripaddr c)
      then Some i else udp_conn_loop cs srcport destport src (i + 1))"

definition udp_input :: "uip_state \<Rightarrow> (uip_state \<times> uip_label) option" where
  "udp_input s = do {
     s1 \<leftarrow> remove_ext_hdr s;
     s2 \<leftarrow> ip_put 6 [UIP_PROTO_UDP] s1;
     srcport \<leftarrow> ld16 (ip_buf s2) 40;
     destport \<leftarrow> ld16 (ip_buf s2) 42;
     if destport = 0 then Some (s2, Drop)
     else (case udp_conn_loop (ip_conns s2) srcport destport (ip_src (ip_buf s2)) 0 of
         None \<Rightarrow> do {
           s3 \<leftarrow> uip_icmp6_error_output ICMP6_DST_UNREACH ICMP6_DST_UNREACH_NOPORT 0 s2;
           Some (s3, Send)
         }
       | Some k \<Rightarrow> do {
           let s3 = s2\<lparr>ip_len := ip_len s2 - 48, ip_slen := 0\<rparr>;
           bs \<leftarrow> mem_read (ip_buf s3) 48 (unat (ip_len s3));
           Some (s3\<lparr>ip_up := ip_up s3 @ [UdpData k bs]\<rparr>, Drop)
         })
   }"

subsection \<open>A received packet\<close>

definition uip_headers :: "uip_state \<Rightarrow> (uip_state \<times> uip_label) option" where
  "uip_headers s = do {
     (s1, l1) \<leftarrow> check_header s;
     if l1 \<noteq> Continue then Some (s1, l1)
     else do {
       (s2, l2) \<leftarrow> hbho_header s1;
       if l2 \<noteq> Continue then Some (s2, l2)
       else if \<not> for_me (ip_dest (ip_buf s2)) (ip_node s2) then not_for_me s2
       else headers_loop s2
     }
   }"

definition uip_input :: "uip_state \<Rightarrow> (uip_state \<times> uip_label) option" where
  "uip_input s = do {
     (s1, l1) \<leftarrow> uip_headers s;
     (s2, l2) \<leftarrow> (case l1 of Icmp6_input \<Rightarrow> icmp6_input s1 | Udp_input \<Rightarrow> udp_input s1 | _ \<Rightarrow> Some (s1, l1));
     Some (if l2 = Drop then (uip_clear_buf s2)\<lparr>ip_ext_bitmap := 0\<rparr> else s2, l2)
   }"

text \<open>\<open>tcpip_input\<close>: the packet is processed, the answer or the forwarded packet is sent.\<close>

definition packet_input :: "uip_state \<Rightarrow> (uip_state \<times> uip_label) option" where
  "packet_input s =
     (if ip_len s > 0
      then do {
        (s1, label) \<leftarrow> uip_input s;
        s2 \<leftarrow> (if ip_len s1 > 0 \<and> label \<noteq> Tcp_input then tcpip_ipv6_output s1 else Some s1);
        Some (s2, label)
      }
      else Some (s, Drop))"

definition tcpip_input :: "uip_state \<Rightarrow> (uip_state \<times> uip_label) option" where
  "tcpip_input s = map_option (\<lambda>(s1, label). (uip_clear_buf s1, label)) (packet_input s)"

subsection \<open>Sending a datagram\<close>

text \<open>The label \<open>udp_send\<close> for the connection \<open>k\<close>: the data are in the buffer.\<close>

definition udp_send :: "nat \<Rightarrow> uip_state \<Rightarrow> uip_state option" where
  "udp_send k s =
     (if ip_slen s = 0 then Some ((uip_clear_buf s)\<lparr>ip_ext_bitmap := 0\<rparr>)
      else if length (ip_conns s) \<le> k then None
      else do {
        let c = ip_conns s ! k;
        s1 \<leftarrow> put_ip_len (s\<lparr>ip_len := ip_slen s + 48\<rparr>);
        s2 \<leftarrow> ip_put 6 [UIP_PROTO_UDP, uc_ttl c] s1;
        s3 \<leftarrow> ip_put 40 (st16 (uc_lport c) @ st16 (uc_rport c) @ st16 (UIP_HTONS (ip_slen s + 8)) @ st16 0) s2;
        s4 \<leftarrow> ip_put 24 (uc_ripaddr c) s3;
        s5 \<leftarrow> ip_put 8 (uip_ds6_select_src (uc_ripaddr c) (ip_node s4)) s4;
        s6 \<leftarrow> rpl_insert_header s5;
        ip_put 0 [0x60, 0, 0, 0] s6
      })"

definition uip_udp_packet_send :: "nat \<Rightarrow> u8 list option \<Rightarrow> uip_state \<Rightarrow> uip_state option" where
  "uip_udp_packet_send k data s = (case data of
     None \<Rightarrow> Some (s\<lparr>ip_slen := 0\<rparr>)
   | Some bs \<Rightarrow> do {
       s1 \<leftarrow> ip_put 48 (take (UIP_BUFSIZE - 48) bs) (s\<lparr>ip_slen := of_nat (length bs)\<rparr>);
       s2 \<leftarrow> udp_send k s1;
       s3 \<leftarrow> tcpip_ipv6_output s2;
       Some (s3\<lparr>ip_slen := 0\<rparr>)
     })"

definition uip_udp_packet_sendto :: "nat \<Rightarrow> u8 list option \<Rightarrow> (ipaddr \<times> u16) option \<Rightarrow> uip_state \<Rightarrow> uip_state option" where
  "uip_udp_packet_sendto k data to s = (case to of
     None \<Rightarrow> Some s
   | Some (toaddr, toport) \<Rightarrow>
       if length (ip_conns s) \<le> k then None
       else do {
         let c = ip_conns s ! k;
         s1 \<leftarrow> uip_udp_packet_send k data (s\<lparr>ip_conns := (ip_conns s)[k := c\<lparr>uc_ripaddr := toaddr, uc_rport := toport\<rparr>]\<rparr>);
         Some (s1\<lparr>ip_conns := (ip_conns s1)[k := (ip_conns s1 ! k)\<lparr>uc_ripaddr := uc_ripaddr c, uc_rport := uc_rport c\<rparr>]\<rparr>)
       })"

end
