(* ===== verification/UipInv.thy ===== *)
theory UipInv
  imports Uip6 RplReach
begin

text \<open>
  The invariant of the IPv6 engine: the tables of the node are well-formed and the packet buffer keeps its size. Every
  operation on packets keeps it, whatever the bytes of the packet. The rules follow the shape of the
  definitions, as those of RplInv do.
\<close>

unbundle bit_operations_syntax

named_theorems ip_ops \<open>operations in the option monad that keep the invariant\<close>
named_theorems ip_steps \<open>operations that keep the invariant\<close>

definition ip_wf :: "bool \<Rightarrow> uip_state \<Rightarrow> bool" where
  "ip_wf fw s \<longleftrightarrow> node_wf (ip_node s) \<and> length (ip_buf s) = UIP_BUFSIZE \<and> length (ip_conns s) = UIP_UDP_CONNS \<and>
     (fw \<longrightarrow> packet_forwarding s)"

lemma ip_wf_upd [ip_steps]:
  "ip_wf fw s \<Longrightarrow> ip_wf fw (s\<lparr>ip_len := v\<rparr>)" "ip_wf fw s \<Longrightarrow> ip_wf fw (s\<lparr>ip_slen := v\<rparr>)" "ip_wf fw s \<Longrightarrow> ip_wf fw (s\<lparr>ip_ext_len := e\<rparr>)"
  "ip_wf fw s \<Longrightarrow> ip_wf fw (s\<lparr>ip_ext_opt_offset := e\<rparr>)" "ip_wf fw s \<Longrightarrow> ip_wf fw (s\<lparr>ip_ext_bitmap := e\<rparr>)"
  "ip_wf fw s \<Longrightarrow> ip_wf fw (s\<lparr>ip_next_hdr := p\<rparr>)" "ip_wf fw s \<Longrightarrow> ip_wf fw (s\<lparr>packet_forwarding := True\<rparr>)"
  "ip_wf fw s \<Longrightarrow> ip_wf fw (s\<lparr>ip_lastport := v\<rparr>)" "ip_wf fw s \<Longrightarrow> ip_wf fw (s\<lparr>ip_conns := (ip_conns s)[k := c]\<rparr>)"
  "ip_wf fw s \<Longrightarrow> ip_wf fw (s\<lparr>ip_sent := o1\<rparr>)"
  "ip_wf fw s \<Longrightarrow> ip_wf fw (s\<lparr>ip_up := u\<rparr>)" "ip_wf fw s \<Longrightarrow> node_wf n \<Longrightarrow> ip_wf fw (s\<lparr>ip_node := n\<rparr>)"
  "ip_wf fw s \<Longrightarrow> ip_wf fw (uip_clear_buf s)"
  by (simp_all add: ip_wf_def uip_clear_buf_def)

lemma ip_wf_if [ip_steps]: "ip_wf fw a \<Longrightarrow> ip_wf fw b \<Longrightarrow> ip_wf fw (if c then a else b)"
  by simp

lemma ip_wf_node: "ip_wf fw s \<Longrightarrow> node_wf (ip_node s)"
  by (simp add: ip_wf_def)

subsection \<open>The buffer\<close>

lemma wf_put [ip_ops]: "ip_wf fw s \<Longrightarrow> post (ip_put i bs s) (ip_wf fw)"
  by (auto simp: ip_put_def mem_write_def ip_wf_def post_def)

lemma wf_move [ip_ops]: "ip_wf fw s \<Longrightarrow> post (ip_move i j n s) (ip_wf fw)"
  unfolding ip_move_def by (rule post_rules ip_ops | assumption)+

lemma wf_put_len [ip_ops]: "ip_wf fw s \<Longrightarrow> post (put_ip_len s) (ip_wf fw)"
  unfolding put_ip_len_def by (hypsubst | rule post_rules ip_ops | assumption)+

lemma wf_remove_ext [ip_ops]: "ip_wf fw s \<Longrightarrow> post (remove_ext_hdr s) (ip_wf fw)"
  unfolding remove_ext_hdr_def by (hypsubst | rule ip_ops post_rules ip_steps | assumption)+

lemma wf_set_rpl_opt [ip_ops]: "ip_wf fw s \<Longrightarrow> post (set_rpl_opt s) (ip_wf fw)"
  unfolding set_rpl_opt_def by (hypsubst | rule ip_ops post_rules ip_steps | assumption)+

lemma wf_update_final [ip_ops]: "ip_wf fw s \<Longrightarrow> posts (rpl_update_header_final a s) (ip_wf fw)"
  unfolding rpl_update_header_final_def by (hypsubst | rule ip_ops post_rules ip_steps | assumption)+

lemma wf_remove_header [ip_ops]: "ip_wf fw s \<Longrightarrow> post (rpl_remove_header s) (ip_wf fw)"
  unfolding rpl_remove_header_def by (hypsubst | rule ip_ops post_rules ip_steps | assumption)+

lemma wf_invert_header [ip_ops]: "ip_wf fw s \<Longrightarrow> posts (rpl_invert_header s) (ip_wf fw)"
  unfolding rpl_invert_header_def by (hypsubst | rule ip_ops post_rules ip_steps | assumption)+

subsection \<open>Output\<close>

lemma same_repair_root: "posts (rpl_repair_root i s) (route_same s)"
  unfolding rpl_repair_root_def by (hypsubst | rule same_ops post_rules same_steps | assumption)+

lemma lookup_found: "uip_ds6_route_lookup a s = (s', Some r) \<Longrightarrow> r \<in> set (routelist s')"
  by (auto simp: uip_ds6_route_lookup_def Let_def first_of_Some split: option.splits if_splits)

lemma lookup_wf: "uip_ds6_route_lookup a s = (s', r) \<Longrightarrow> node_wf s \<Longrightarrow> node_wf s'"
  using wf_route_lookup [of s a] by simp

lemma route_rm_after:
  assumes "node_wf s" "uip_ds6_route_lookup a s = (s1, Some r)" "route_same s1 s2"
  shows "post (uip_ds6_route_rm (Some r) s2) node_wf"
proof (rule wf_route_rm)
  show "node_wf s2" using lookup_wf [OF assms(2, 1)] assms(3) by (rule same_node_wf [rotated])
  show "r \<in> set (routelist s2)" using lookup_found [OF assms(2)] assms(3) by (simp add: route_same_def)
qed

lemma wf_choose_next_hop: "node_wf n \<Longrightarrow> posts (choose_next_hop d n) node_wf"
proof (cases "uip_ds6_is_addr_onlink d n")
  case False
  assume n: "node_wf n"
  obtain n1 r where l: "uip_ds6_route_lookup d n = (n1, r)" by fastforce
  have n1: "node_wf n1" using lookup_wf [OF l n] .
  show ?thesis
  proof (cases r)
    case None
    then show ?thesis using False l n1 by (simp add: choose_next_hop_def post_basic)
  next
    case (Some r')
    have rep: "post (map_option fst (rpl_repair_root i n1)) (route_same n1)" for i
      by (rule post_map_option, rule same_repair_root)
    show ?thesis
    proof (cases "uip_ds6_route_nexthop (Some r') n1")
      case None
      have d: "choose_next_hop d n = do {
            n2 \<leftarrow> (case re_dag (rt_state (routes n1 r')) of
                None \<Rightarrow> Some n1
              | Some d \<Rightarrow> do {
                  i \<leftarrow> d_instance (dag_table n1 d);
                  map_option fst (rpl_repair_root (i_instance_id (instance_table n1 i)) n1)
                });
            n3 \<leftarrow> uip_ds6_route_rm (Some r') n2;
            Some (n3, Dead) }"
        using False l Some None by (simp add: choose_next_hop_def)
      have p: "post (case re_dag (rt_state (routes n1 r')) of
                None \<Rightarrow> Some n1
              | Some d \<Rightarrow> do {
                  i \<leftarrow> d_instance (dag_table n1 d);
                  map_option fst (rpl_repair_root (i_instance_id (instance_table n1 i)) n1)
                }) (route_same n1)"
        by (rule post_rules rep route_same_refl)+
      show ?thesis
        unfolding d
        by (rule post_then [OF p], rule post_then [OF route_rm_after [OF n l [unfolded Some]]]) (simp_all add: post_basic)
    qed (use False l Some n1 in \<open>simp add: choose_next_hop_def post_basic\<close>)
  qed
qed (simp add: choose_next_hop_def post_basic)

lemma wf_hop_radio: "node_wf n \<Longrightarrow> node_wf (hop_radio a n)"
proof -
  have "route_same n (hop_radio a n)"
    unfolding hop_radio_def by (auto split: option.splits intro: same_select_loop)
  then show "node_wf n \<Longrightarrow> node_wf (hop_radio a n)" by (rule same_node_wf)
qed

lemma wf_tcpip_output [ip_ops]: "ip_wf fw s \<Longrightarrow> post (tcpip_output a s) (ip_wf fw)"
  unfolding tcpip_output_def by (hypsubst | rule ip_ops post_rules ip_steps | assumption)+

lemma wf_send_to_hop [ip_ops]: "ip_wf fw s \<Longrightarrow> post (send_to_hop a s) (ip_wf fw)"
  unfolding send_to_hop_def
  by (hypsubst | rule ip_ops post_rules ip_steps wf_hop_radio | assumption | erule ip_wf_node)+

lemma wf_output [ip_ops]: "ip_wf fw s \<Longrightarrow> post (tcpip_ipv6_output s) (ip_wf fw)"
proof -
  assume s: "ip_wf fw s"
  have "post (case hop of NoRoute \<Rightarrow> Some (uip_clear_buf (s\<lparr>ip_node := n1\<rparr>)) | Dead \<Rightarrow> Some (s\<lparr>ip_node := n1\<rparr>)
        | Hop a \<Rightarrow> send_to_hop a (s\<lparr>ip_node := n1\<rparr>)) (ip_wf fw)"
    if "choose_next_hop (ip_dest (ip_buf s)) (ip_node s) = Some (n1, hop)" for n1 hop
    using s postsD [OF wf_choose_next_hop [OF ip_wf_node [OF s]] that]
    by (cases hop) (auto intro!: ip_ops ip_steps post_basic)
  then have n: "post (do { (n1, hop) \<leftarrow> choose_next_hop (ip_dest (ip_buf s)) (ip_node s);
        let s1 = s\<lparr>ip_node := n1\<rparr>;
        case hop of NoRoute \<Rightarrow> Some (uip_clear_buf s1) | Dead \<Rightarrow> Some s1 | Hop a \<Rightarrow> send_to_hop a s1 }) (ip_wf fw)"
    unfolding Let_def by (auto intro: post_bind_value)
  show ?thesis
    unfolding tcpip_ipv6_output_def by (insert s) (hypsubst | rule n ip_ops post_rules ip_steps | assumption)+
qed

lemma wf_icmp6_headers [ip_ops]: "ip_wf fw s \<Longrightarrow> post (icmp6_headers d t c n s) (ip_wf fw)"
  unfolding icmp6_headers_def by (hypsubst | rule ip_ops post_rules ip_steps | assumption)+

lemma wf_icmp6_send [ip_ops]: "ip_wf fw s \<Longrightarrow> post (icmp6_send d t c n s) (ip_wf fw)"
  unfolding icmp6_send_def by (hypsubst | rule ip_ops post_rules ip_steps | assumption)+

lemma wf_send_messages [ip_ops]: "ip_wf fw s \<Longrightarrow> post (send_messages es s) (ip_wf fw)"
proof (induction es s rule: send_messages.induct)
  case (2 dst ty code bytes es s)
  show ?case unfolding send_messages.simps
    by (rule post_bind_state(1) [OF wf_put [OF 2(2)]], rule post_bind_state(1) [OF wf_icmp6_send], assumption, rule 2(1))
qed (simp_all add: post_basic)

lemma wf_rpl_call: "ip_wf fw s \<Longrightarrow> post (f (ip_node s)) node_wf \<Longrightarrow> post (rpl_call f s) (ip_wf fw)"
  unfolding rpl_call_def
  by (rule post_bind_value, rule wf_send_messages) (auto intro: ip_steps dest: postD)

subsection \<open>The RPL option\<close>

lemma wf_forward_error [ip_ops]: "ip_wf fw s \<Longrightarrow> post (forward_error i s) (ip_wf fw)"
proof -
  assume s: "ip_wf fw s"
  obtain n1 r where l: "uip_ds6_route_lookup (ip_dest (ip_buf s)) (ip_node s) = (n1, r)" by fastforce
  have "post (uip_ds6_route_rm r n1) node_wf"
  proof (cases r)
    case None
    then show ?thesis using lookup_wf [OF l ip_wf_node [OF s]] by (simp add: uip_ds6_route_rm_def post_basic)
  next
    case (Some r')
    then show ?thesis using route_rm_after [OF ip_wf_node [OF s]] l by simp
  qed
  then have "post (do { n2 \<leftarrow> uip_ds6_route_rm r n1; rpl_reset_dio_timer i n2 }) node_wf"
    by (rule post_bind_state(1)) (rule wf_ops)
  then show ?thesis
    unfolding forward_error_def l Let_def prod.case
    using s by (auto simp: post_def bind_eq_Some_conv intro!: ip_steps)
qed

lemma wf_loop_detected [ip_ops]: "ip_wf fw s \<Longrightarrow> posts (loop_detected i p opt s) (ip_wf fw)"
proof -
  assume s: "ip_wf fw s"
  define t where "t = (if p \<noteq> None then s\<lparr>ip_node := rpl_schedule_unicast_dio_immediately i
             (mod_inst i (\<lambda>x. x\<lparr>i_unicast_dio_target := p\<rparr>) (ip_node s))\<rparr> else s)"
  have a: "ip_wf fw t"
    unfolding t_def rpl_schedule_unicast_dio_immediately_def using s
    by (intro ip_steps wf_steps) (simp_all add: ip_wf_def)
  have "post (rpl_reset_dio_timer i (ip_node t)) node_wf" using ip_wf_node [OF a] by (rule wf_ops)
  then have b: "rpl_reset_dio_timer i (ip_node t) = Some n \<Longrightarrow> ip_wf fw (t\<lparr>ip_node := n\<rparr>)" for n
    using a by (auto intro: ip_steps dest: postD)
  have c: "ip_put j bs t = Some t' \<Longrightarrow> ip_wf fw t'" for j bs t' using postD [OF wf_put [OF a]] .
  show ?thesis unfolding loop_detected_def t_def [symmetric]
    by (auto simp: posts_def bind_eq_Some_conv Let_def b c split: if_splits)
qed

lemma wf_select_call: "ip_wf fw s \<Longrightarrow>
    post (rpl_call (\<lambda>n. map_option fst (rpl_select_dag i p (mod_parent p (\<lambda>x. x\<lparr>p_rank := r\<rparr>) n))) s) (ip_wf fw)"
  by (rule wf_rpl_call, assumption) (rule post_rules wf_ops wf_steps ip_wf_node | assumption)+

lemma wf_verify [ip_ops]: "ip_wf fw s \<Longrightarrow> posts (rpl_verify_header off s) (ip_wf fw)"
  unfolding rpl_verify_header_def
  by (hypsubst | rule wf_select_call ip_ops post_rules ip_steps | assumption)+

lemma wf_no_path_call: "ip_wf fw s \<Longrightarrow> post (rpl_call (dao_output_target p d l) s) (ip_wf fw)"
  by (rule wf_rpl_call, assumption) (rule wf_ops ip_wf_node | assumption)+

lemma wf_update_direction [ip_ops]: "ip_wf fw s \<Longrightarrow> posts (update_direction s) (ip_wf fw)"
proof -
  assume s: "ip_wf fw s"
  obtain n1 r where l: "uip_ds6_route_lookup (ip_dest (ip_buf s)) (ip_node s) = (n1, r)" by fastforce
  have n: "ip_wf fw (s\<lparr>ip_node := n1\<rparr>)" using s lookup_wf [OF l ip_wf_node [OF s]] by (rule ip_steps)
  show ?thesis unfolding update_direction_def l Let_def prod.case
    by (insert n s lookup_wf [OF l ip_wf_node [OF s]]) (hypsubst | rule wf_no_path_call ip_ops post_rules ip_steps | assumption)+
qed

lemma wf_update_empty [ip_ops]: "ip_wf fw s \<Longrightarrow> posts (rpl_update_header_empty s) (ip_wf fw)"
  unfolding rpl_update_header_empty_def
  by (hypsubst | rule ip_ops post_rules ip_steps | assumption)+

lemma wf_insert_header [ip_ops]: "ip_wf fw s \<Longrightarrow> post (rpl_insert_header s) (ip_wf fw)"
  unfolding rpl_insert_header_def by (hypsubst | rule ip_ops post_rules ip_steps | assumption)+

subsection \<open>ICMPv6\<close>

lemma wf_error_body [ip_ops]: "ip_wf fw s \<Longrightarrow> post (error_body s) (ip_wf fw)"
  unfolding error_body_def by (hypsubst | rule ip_ops post_rules ip_steps | assumption)+

lemma wf_error_headers [ip_ops]: "ip_wf fw s \<Longrightarrow> post (error_headers t c p s) (ip_wf fw)"
  unfolding error_headers_def by (hypsubst | rule ip_ops post_rules ip_steps | assumption)+

lemma wf_error_output [ip_ops]: "ip_wf fw s \<Longrightarrow> post (uip_icmp6_error_output t c p s) (ip_wf fw)"
  unfolding uip_icmp6_error_output_def by (hypsubst | rule ip_ops post_rules ip_steps | assumption)+

lemma wf_cut_headers [ip_ops]: "ip_wf fw s \<Longrightarrow> post (cut_headers s) (ip_wf fw)"
  unfolding cut_headers_def by (hypsubst | rule ip_ops post_rules ip_steps | assumption)+

lemma wf_echo_request [ip_ops]: "ip_wf fw s \<Longrightarrow> post (echo_request_input s) (ip_wf fw)"
  unfolding echo_request_input_def by (hypsubst | rule ip_ops post_rules ip_steps | assumption)+

lemma wf_echo_reply [ip_ops]: "ip_wf fw s \<Longrightarrow> post (echo_reply_input s) (ip_wf fw)"
  unfolding echo_reply_input_def by (hypsubst | rule ip_ops post_rules ip_steps | assumption)+

lemma wf_rpl_handler: "ip_wf fw s \<Longrightarrow> post (f (ip_node s)) node_wf \<Longrightarrow> post (map_option uip_clear_buf (rpl_call f s)) (ip_wf fw)"
  using wf_rpl_call [of fw s f] by (auto simp: post_def intro: ip_steps)

lemma wf_run_handler [ip_ops]: "ip_wf fw s \<Longrightarrow> post (run_handler h s) (ip_wf fw)"
  unfolding run_handler_def
  by (cases h; simp only: icmp6_handler.case)
    (rule ip_ops post_basic ip_steps wf_rpl_handler wf_ops ip_wf_node | assumption)+

lemma wf_icmp6_handlers [ip_ops]: "ip_wf fw s \<Longrightarrow> posts (uip_icmp6_input ty c s) (ip_wf fw)"
  unfolding uip_icmp6_input_def by (hypsubst | rule ip_ops post_rules ip_steps | assumption)+

subsection \<open>Received packets\<close>

lemma wf_option_round [ip_ops]: "ip_wf fw s \<Longrightarrow> posts (option_round s) (ip_wf fw)"
  unfolding option_round_def by (hypsubst | rule ip_ops post_rules ip_steps | assumption)+

lemma options_loop_wf: "options_loop s = Some r \<Longrightarrow> ip_wf fw s \<longrightarrow> ip_wf fw (fst r)"
proof (rule options_loop.raw_induct [where P = "\<lambda>s r. ip_wf fw s \<longrightarrow> ip_wf fw (fst r)"], goal_cases)
  case (1 loop s r)
  have step: "ip_wf fw t \<Longrightarrow> posts (loop t) (ip_wf fw)" for t
    using 1(2) by (fastforce simp: posts_def)
  have "ip_wf fw s \<Longrightarrow> posts (Some r) (ip_wf fw)"
    unfolding 1(3) [symmetric] by (hypsubst | rule step ip_ops post_rules ip_steps | assumption)+
  then show ?case by (cases r) (auto simp: posts_def)
qed

lemma wf_options [ip_ops]: "ip_wf fw s \<Longrightarrow> posts (options_loop s) (ip_wf fw)"
  using options_loop_wf by (fastforce simp: posts_def)

lemma wf_process_options [ip_ops]: "ip_wf fw s \<Longrightarrow> posts (ext_hdr_options_process s) (ip_wf fw)"
  unfolding ext_hdr_options_process_def by (rule ip_ops ip_steps | assumption)+

lemma wf_skip_header [ip_ops]: "ip_wf fw s \<Longrightarrow> post (skip_header s) (ip_wf fw)"
  unfolding skip_header_def by (hypsubst | rule ip_ops post_rules ip_steps | assumption)+

lemma wf_options_header [ip_ops]: "ip_wf fw s \<Longrightarrow> posts (options_header s) (ip_wf fw)"
  unfolding options_header_def by (hypsubst | rule ip_ops post_rules ip_steps | assumption)+

lemma wf_check_header [ip_ops]: "ip_wf fw s \<Longrightarrow> posts (check_header s) (ip_wf fw)"
  unfolding check_header_def by (hypsubst | rule ip_ops post_rules ip_steps | assumption)+

lemma wf_hbho_header [ip_ops]: "ip_wf fw s \<Longrightarrow> posts (hbho_header s) (ip_wf fw)"
  unfolding hbho_header_def by (hypsubst | rule ip_ops post_rules ip_steps | assumption)+

lemma wf_forward [ip_ops]: "ip_wf fw s \<Longrightarrow> posts (forward s) (ip_wf fw)"
  unfolding forward_def by (hypsubst | rule ip_ops post_rules ip_steps | assumption)+

lemma wf_not_for_me [ip_ops]: "ip_wf fw s \<Longrightarrow> posts (not_for_me s) (ip_wf fw)"
  unfolding not_for_me_def by (hypsubst | rule ip_ops post_rules ip_steps | assumption)+

lemma wf_bad_hdr [ip_ops]: "ip_wf fw s \<Longrightarrow> posts (bad_hdr s) (ip_wf fw)"
  unfolding bad_hdr_def by (hypsubst | rule ip_ops post_rules ip_steps | assumption)+

lemma wf_routing_header [ip_ops]: "ip_wf fw s \<Longrightarrow> posts (routing_header s) (ip_wf fw)"
  unfolding routing_header_def by (hypsubst | rule ip_ops post_rules ip_steps | assumption)+

lemma wf_next_header [ip_ops]: "ip_wf fw s \<Longrightarrow> posts (next_header s) (ip_wf fw)"
  unfolding next_header_def by (hypsubst | rule ip_ops post_rules ip_steps | assumption)+

lemma headers_loop_wf: "headers_loop s = Some r \<Longrightarrow> ip_wf fw s \<longrightarrow> ip_wf fw (fst r)"
proof (rule headers_loop.raw_induct [where P = "\<lambda>s r. ip_wf fw s \<longrightarrow> ip_wf fw (fst r)"], goal_cases)
  case (1 loop s r)
  have step: "ip_wf fw t \<Longrightarrow> posts (loop t) (ip_wf fw)" for t
    using 1(2) by (fastforce simp: posts_def)
  have "ip_wf fw s \<Longrightarrow> posts (Some r) (ip_wf fw)"
    unfolding 1(3) [symmetric] by (hypsubst | rule step ip_ops post_rules ip_steps | assumption)+
  then show ?case by (cases r) (auto simp: posts_def)
qed

lemma wf_headers_loop [ip_ops]: "ip_wf fw s \<Longrightarrow> posts (headers_loop s) (ip_wf fw)"
  using headers_loop_wf by (fastforce simp: posts_def)

lemma wf_headers [ip_ops]: "ip_wf fw s \<Longrightarrow> posts (uip_headers s) (ip_wf fw)"
  unfolding uip_headers_def by (hypsubst | rule ip_ops post_rules ip_steps | assumption)+

lemma wf_icmp6_input [ip_ops]: "ip_wf fw s \<Longrightarrow> posts (icmp6_input s) (ip_wf fw)"
  unfolding icmp6_input_def by (hypsubst | rule ip_ops post_rules ip_steps | assumption)+

lemma wf_udp_input [ip_ops]: "ip_wf fw s \<Longrightarrow> posts (udp_input s) (ip_wf fw)"
  unfolding udp_input_def by (hypsubst | rule ip_ops post_rules ip_steps | assumption)+

lemma wf_delivery: "ip_wf fw s \<Longrightarrow>
    posts (case l of Icmp6_input \<Rightarrow> icmp6_input s | Udp_input \<Rightarrow> udp_input s | _ \<Rightarrow> Some (s, l)) (ip_wf fw)"
  by (cases l) (simp_all add: ip_ops post_basic)

lemma wf_uip_input [ip_ops]: "ip_wf fw s \<Longrightarrow> posts (uip_input s) (ip_wf fw)"
  unfolding uip_input_def by (hypsubst | rule ip_ops wf_delivery post_rules ip_steps | assumption)+

lemma wf_packet_input [ip_ops]: "ip_wf fw s \<Longrightarrow> posts (packet_input s) (ip_wf fw)"
  unfolding packet_input_def by (hypsubst | rule ip_ops post_rules ip_steps | assumption)+

lemma wf_tcpip_input [ip_ops]: "ip_wf fw s \<Longrightarrow> posts (tcpip_input s) (ip_wf fw)"
  using wf_packet_input [of fw s] by (auto simp: tcpip_input_def posts_def intro: ip_steps)

subsection \<open>Datagrams\<close>

lemma wf_udp_send [ip_ops]: "ip_wf fw s \<Longrightarrow> post (udp_send k s) (ip_wf fw)"
  unfolding udp_send_def by (hypsubst | rule ip_ops post_rules ip_steps | assumption)+

lemma wf_packet_send [ip_ops]: "ip_wf fw s \<Longrightarrow> post (uip_udp_packet_send k d s) (ip_wf fw)"
  unfolding uip_udp_packet_send_def by (hypsubst | rule ip_ops post_rules ip_steps | assumption)+

lemma wf_packet_sendto [ip_ops]: "ip_wf fw s \<Longrightarrow> post (uip_udp_packet_sendto k d a s) (ip_wf fw)"
  unfolding uip_udp_packet_sendto_def by (hypsubst | rule ip_ops post_rules ip_steps | assumption)+

end
