(* ===== verification/UipMem.thy ===== *)
theory UipMem
  imports Uip6
begin

text \<open>
  What the operations on the packet buffer do to its bytes: \<open>put_at\<close> is the buffer with some bytes replaced, and the
  rules read a byte or an address of it.
\<close>

unbundle bit_operations_syntax

definition put_at :: "nat \<Rightarrow> u8 list \<Rightarrow> u8 list \<Rightarrow> u8 list" where
  "put_at i bs m = take i m @ bs @ drop (i + length bs) m"

named_theorems buf_simps \<open>bytes of the packet buffer\<close>

lemma length_put_at [simp]: "i + length bs \<le> length m \<Longrightarrow> length (put_at i bs m) = length m"
  by (simp add: put_at_def)

lemma nth_put_at: "i + length bs \<le> length m \<Longrightarrow> k < length m \<Longrightarrow>
    put_at i bs m ! k = (if i \<le> k \<and> k < i + length bs then bs ! (k - i) else m ! k)"
  by (auto simp: put_at_def nth_append min_def)

lemma ip_put_Some: "ip_put i bs s = Some s' \<longleftrightarrow> i + length bs \<le> length (ip_buf s) \<and> s' = s\<lparr>ip_buf := put_at i bs (ip_buf s)\<rparr>"
  by (auto simp: ip_put_def mem_write_def put_at_def)

lemma ip_put_ok [buf_simps]: "i + length bs \<le> length (ip_buf s) \<Longrightarrow> ip_put i bs s = Some (s\<lparr>ip_buf := put_at i bs (ip_buf s)\<rparr>)"
  by (simp add: ip_put_Some)

lemma rd_ok [buf_simps]: "i < length b \<Longrightarrow> rd b i = Some (b ! i)"
  by (simp add: rd_def)

lemma rd_Some: "rd b i = Some x \<longleftrightarrow> i < length b \<and> x = b ! i"
  by (auto simp: rd_def)

lemma ld16_ok [buf_simps]: "i + 1 < length b \<Longrightarrow> ld16 b i = Some (ucast (b ! i) OR push_bit 8 (ucast (b ! (i + 1))))"
  by (simp add: ld16_def rd_def)

lemma slice_eqI: "length a = length b \<Longrightarrow> (\<And>k. i \<le> k \<Longrightarrow> k < i + n \<Longrightarrow> k < length a \<Longrightarrow> a ! k = b ! k) \<Longrightarrow> take n (drop i a) = take n (drop i b)"
  by (rule nth_equalityI) auto

lemma slice_put_out:
  "i + length bs \<le> length m \<Longrightarrow> j + n \<le> i \<or> i + length bs \<le> j \<Longrightarrow> take n (drop j (put_at i bs m)) = take n (drop j m)"
  by (rule slice_eqI) (auto simp: nth_put_at)

lemma slice_put_in: "i + length bs \<le> length m \<Longrightarrow> n = length bs \<Longrightarrow> take n (drop i (put_at i bs m)) = bs"
  by (rule nth_equalityI) (auto simp: nth_put_at)

lemma ip_move_Some: "ip_move i j n s = Some s' \<longleftrightarrow> 0 \<le> n \<and> j + nat n \<le> length (ip_buf s) \<and> i + nat n \<le> length (ip_buf s) \<and>
    s' = s\<lparr>ip_buf := put_at i (take (nat n) (drop j (ip_buf s))) (ip_buf s)\<rparr>"
  by (auto simp: ip_move_def mem_read_def ip_put_Some)

lemma mem_read_Some: "mem_read m i n = Some bs \<longleftrightarrow> i + n \<le> length m \<and> bs = take n (drop i m)"
  by (auto simp: mem_read_def)

subsection \<open>Byte order\<close>

lemma UIP_HTONS_twice [simp]: "UIP_HTONS (UIP_HTONS v) = v"
  by (rule bit_eqI) (auto simp: UIP_HTONS_def bit_simps)

lemma ld16_st16 [buf_simps]: "ucast (ucast v :: u8) OR push_bit 8 (ucast (ucast (drop_bit 8 v) :: u8)) = (v :: u16)"
  by (rule bit_eqI) (auto simp: bit_simps)

lemma length_st16 [simp]: "length (st16 v) = 2"
  by (simp add: st16_def)

subsection \<open>The RPL option\<close>

text \<open>A packet with a hop-by-hop header of 8 bytes that holds the RPL option only.\<close>

definition has_rpl_opt :: "u8 list \<Rightarrow> bool" where
  "has_rpl_opt b \<longleftrightarrow> b ! 6 = UIP_PROTO_HBHO \<and> b ! 41 = 0 \<and> b ! 42 = UIP_EXT_HDR_OPT_RPL \<and> b ! 43 = RPL_HDR_OPT_LEN"

text \<open>The rank in the option.\<close>

definition opt_rank :: "u8 list \<Rightarrow> u16" where
  "opt_rank b = UIP_HTONS (ucast (b ! 46) OR push_bit 8 (ucast (b ! 47)))"

lemma rpl_opt_0: "ip_ext_len s = 0 \<Longrightarrow> rpl_opt s = 42" "ip_ext_len s = 0 \<Longrightarrow> uip_l2_l3_hdr_len s = 40"
  by (simp_all add: rpl_opt_def uip_l2_l3_hdr_len_def UIP_IPH_LEN_def)

end
