(* ===== verification/UipOpt.thy ===== *)
theory UipOpt
  imports UipMem
begin

text \<open>
  The RPL option of a packet: inserting and removing it, what the update before forwarding changes, and what the check on
  reception answers.
\<close>

unbundle bit_operations_syntax

definition payload_len :: "u8 list \<Rightarrow> u16" where
  "payload_len b = push_bit 8 (ucast (b ! 4)) + ucast (b ! 5)"

subsection \<open>The length in the header\<close>

text \<open>Adding 8 to the low byte with a carry, and taking it off with a borrow.\<close>

lemma u8_uint: "0 \<le> uint (x :: u8)" "uint (x :: u8) < 256"
  using unsigned_less [of x] by (simp_all add: unsigned_greater_eq)

lemma int_carry: "0 \<le> (y :: int) \<Longrightarrow> y < 256 \<Longrightarrow> (y + 8) mod 256 = (if (y + 8) mod 256 < y then y - 248 else y + 8)"
  by (cases "y < 248") (simp_all add: mod_pos_geq)

lemma int_borrow: "0 \<le> (y :: int) \<Longrightarrow> y < 256 \<Longrightarrow> (y - 8) mod 256 = (if y < (y - 8) mod 256 then y + 248 else y - 8)"
  using mod_add_self2 [of "y - 8" 256] by (cases "8 \<le> y") simp_all

lemma u8_add_carry: "uint ((x :: u8) + 8) = (if x + 8 < x then uint x + 8 - 256 else uint x + 8)"
proof -
  have m: "uint (x + 8) = (uint x + 8) mod 256" by (simp add: uint_word_ariths)
  show ?thesis using int_carry [OF u8_uint [of x]] unfolding word_less_def m by (auto split: if_splits)
qed

lemma u8_sub_borrow: "uint ((x :: u8) - 8) = (if x - 8 > x then uint x - 8 + 256 else uint x - 8)"
proof -
  have m: "uint (x - 8) = (uint x - 8) mod 256" by (simp add: uint_word_ariths)
  show ?thesis using int_borrow [OF u8_uint [of x]] unfolding word_less_def m by (auto split: if_splits)
qed

lemma ucast_of_int: "(ucast (x :: u8) :: u16) = of_int (uint x)"
  by simp

lemma hi_byte: "(push_bit 8 (ucast (x :: u8)) :: u16) = of_int (256 * uint x)"
  by (simp add: push_bit_eq_mult)

lemma hi_byte_step: "(push_bit 8 (ucast ((x :: u8) + 1)) :: u16) = push_bit 8 (ucast x) + 256"
  "(push_bit 8 (ucast ((x :: u8) - 1)) :: u16) = push_bit 8 (ucast x) - 256"
proof -
  have a: "256 * uint (x + 1) = (256 * uint x + 256) - 65536 * ((uint x + 1) div 256)"
    by (simp add: uint_word_ariths minus_div_mult_eq_mod [symmetric])
  have b: "256 * uint (x - 1) = (256 * uint x - 256) - 65536 * ((uint x - 1) div 256)"
    by (simp add: uint_word_ariths minus_div_mult_eq_mod [symmetric])
  have z: "(65536 :: u16) = 0" by simp
  show "(push_bit 8 (ucast (x + 1)) :: u16) = push_bit 8 (ucast x) + 256"
    unfolding hi_byte a by (simp add: z)
  show "(push_bit 8 (ucast (x - 1)) :: u16) = push_bit 8 (ucast x) - 256"
    unfolding hi_byte b by (simp add: z)
qed

lemma len_bytes_add:
  fixes hi lo :: u8
  shows "(push_bit 8 (ucast (if lo + 8 < lo then hi + 1 else hi)) :: u16) + ucast (lo + 8) = push_bit 8 (ucast hi) + ucast lo + 8"
  unfolding ucast_of_int [of "lo + 8"] u8_add_carry
  by (simp add: hi_byte_step)

lemma len_bytes_sub:
  fixes hi lo :: u8
  shows "(push_bit 8 (ucast (if lo - 8 > lo then hi - 1 else hi)) :: u16) + ucast (lo - 8) = push_bit 8 (ucast hi) + ucast lo - 8"
  unfolding ucast_of_int [of "lo - 8"] u8_sub_borrow
  by (simp add: hi_byte_step)

subsection \<open>Inserting and removing\<close>

lemma put_upd: "i + length bs \<le> length m \<Longrightarrow> ip_put i bs (s\<lparr>ip_buf := m\<rparr>) = Some (s\<lparr>ip_buf := put_at i bs m\<rparr>)"
  "i + length bs \<le> length m \<Longrightarrow> ip_put i bs (s\<lparr>ip_buf := m, ip_len := n\<rparr>) = Some (s\<lparr>ip_buf := put_at i bs m, ip_len := n\<rparr>)"
  by (simp_all add: ip_put_Some)

lemma upd_sel: "ip_buf (s\<lparr>ip_buf := m\<rparr>) = m" "ip_buf (s\<lparr>ip_buf := m, ip_len := n\<rparr>) = m" "ip_len (s\<lparr>ip_buf := m\<rparr>) = ip_len s"
  "rpl_opt (s\<lparr>ip_buf := m\<rparr>) = rpl_opt s"
  by (simp_all add: rpl_opt_def uip_l2_l3_hdr_len_def)

lemma set_rpl_opt_ok:
  assumes "ip_ext_len s = 0" "length (ip_buf s) = UIP_BUFSIZE" "40 \<le> unat (ip_len s)" "unat (ip_len s) + 8 \<le> UIP_BUFSIZE"
  obtains b where "set_rpl_opt s = Some (s\<lparr>ip_buf := b, ip_len := ip_len s + 8\<rparr>)" "length b = UIP_BUFSIZE"
    "\<And>k. k < 40 \<Longrightarrow> b ! k = (if k = 6 then UIP_PROTO_HBHO else if k = 5 then ip_buf s ! 5 + 8
       else if k = 4 \<and> ip_buf s ! 5 + 8 < ip_buf s ! 5 then ip_buf s ! 4 + 1 else ip_buf s ! k)"
    "take 8 (drop 40 b) = [ip_buf s ! 6, 0, UIP_EXT_HDR_OPT_RPL, RPL_HDR_OPT_LEN, 0, 0, 0, 0]"
    "\<And>k. 48 \<le> k \<Longrightarrow> k < unat (ip_len s) + 8 \<Longrightarrow> b ! k = ip_buf s ! (k - 8)"
proof -
  define n where "n = unat (ip_len s) - 40"
  have n: "uint (ip_len s) - int UIP_IPH_LEN = int n" "n + 48 \<le> 1600"
    using assms(3,4) by (simp_all add: n_def UIP_IPH_LEN_def UIP_BUFSIZE_def)
  define m where "m = put_at 48 (take n (drop 40 (ip_buf s))) (ip_buf s)"
  define m1 where "m1 = put_at 40 (replicate 8 0) m"
  define m2 where "m2 = put_at 40 [m ! 6] m1"
  define m3 where "m3 = put_at 6 [0] m2"
  define m4 where "m4 = put_at 41 [0] m3"
  define c where "c = put_at 42 [UIP_EXT_HDR_OPT_RPL, RPL_HDR_OPT_LEN, 0, 0, 0, 0] m4"
  define c5 where "c5 = put_at 5 [c ! 5 + 8] c"
  define b where "b = (if c ! 5 + 8 < c ! 5 then put_at 4 [c5 ! 4 + 1] c5 else c5)"
  have l: "length (ip_buf s) = 1600" using assms(2) by (simp add: UIP_BUFSIZE_def)
  have lm: "length m = 1600" using l n by (simp add: m_def)
  have lm1: "length m1 = 1600" by (simp add: m1_def lm)
  have lm2: "length m2 = 1600" by (simp add: m2_def lm1)
  have lm3: "length m3 = 1600" by (simp add: m3_def lm2)
  have lm4: "length m4 = 1600" by (simp add: m4_def lm3)
  have lc: "length c = 1600" by (simp add: c_def lm4)
  have lc5: "length c5 = 1600" by (simp add: c5_def lc)
  have c41: "c ! 41 = 0" by (simp add: c_def m4_def nth_put_at lm4 lm3)
  have mv: "ip_move 48 40 (int n) s = Some (s\<lparr>ip_buf := m\<rparr>)" using l n(2) by (simp add: ip_move_Some m_def)
  have "set_rpl_opt s = Some (s\<lparr>ip_buf := b, ip_len := ip_len s + 8\<rparr>)"
    unfolding set_rpl_opt_def Let_def rpl_opt_0(2) [OF assms(1)] n(1) RPL_HOP_BY_HOP_LEN_def
    by (simp add: mv upd_sel rd_ok lm put_upd m1_def [symmetric] lm1 m2_def [symmetric] lm2 m3_def [symmetric] lm3
        m4_def [symmetric] lm4 rpl_opt_0(1) [OF assms(1)] UIP_PROTO_HBHO_def st16_def c_def [symmetric] lc c41 c5_def [symmetric] lc5 b_def)
  moreover have "length b = UIP_BUFSIZE" by (simp add: b_def lc5 UIP_BUFSIZE_def)
  moreover have mk: "m ! k = (if 48 \<le> k \<and> k < 48 + n then ip_buf s ! (k - 8) else ip_buf s ! k)" if "k < 1600" for k
    using that l n by (auto simp: m_def nth_put_at)
  have ck: "c ! k = (if k = 6 then 0 else if k = 40 then ip_buf s ! 6 else if k = 41 then 0 else if 42 \<le> k \<and> k < 48 then
      [UIP_EXT_HDR_OPT_RPL, RPL_HDR_OPT_LEN, 0, 0, 0, 0] ! (k - 42) else m ! k)" if "k < 1600" for k
    using that by (auto simp: c_def m4_def m3_def m2_def m1_def nth_put_at lm4 lm3 lm2 lm1 lm mk)
  have bk: "b ! k = (if k = 4 \<and> c ! 5 + 8 < c ! 5 then c ! 4 + 1 else if k = 5 then c ! 5 + 8 else c ! k)" if "k < 1600" for k
    using that by (auto simp: b_def c5_def nth_put_at lc lc5 length_put_at)
  moreover have lb: "length b = 1600" by (simp add: b_def lc5)
  moreover have "take 8 (drop 40 b) = [ip_buf s ! 6, 0, UIP_EXT_HDR_OPT_RPL, RPL_HDR_OPT_LEN, 0, 0, 0, 0]"
  proof (rule nth_equalityI)
    fix i assume "i < length (take 8 (drop 40 b))"
    then have "i = 0 \<or> i = 1 \<or> i = Suc 1 \<or> i = 3 \<or> i = 4 \<or> i = 5 \<or> 6 = i \<or> 7 = i" by auto
    then show "take 8 (drop 40 b) ! i = [ip_buf s ! 6, 0, UIP_EXT_HDR_OPT_RPL, RPL_HDR_OPT_LEN, 0, 0, 0, 0] ! i"
      by (elim disjE) (simp_all add: lb bk ck)
  qed (simp add: lb)
  moreover have "b ! k = (if k = 6 then UIP_PROTO_HBHO else if k = 5 then ip_buf s ! 5 + 8
       else if k = 4 \<and> ip_buf s ! 5 + 8 < ip_buf s ! 5 then ip_buf s ! 4 + 1 else ip_buf s ! k)" if "k < 40" for k
    using that by (simp add: bk ck mk UIP_PROTO_HBHO_def)
  moreover have "b ! k = ip_buf s ! (k - 8)" if "48 \<le> k" "k < unat (ip_len s) + 8" for k
    using that n(2) assms(4) by (simp add: bk ck mk n_def UIP_BUFSIZE_def)
  ultimately show ?thesis by (intro that [of b])
qed

text \<open>Removing an RPL option of 8 bytes.\<close>

lemma rpl_remove_header_ok:
  assumes "length (ip_buf s) = UIP_BUFSIZE" "48 \<le> unat (ip_len s)" "unat (ip_len s) \<le> UIP_BUFSIZE" "has_rpl_opt (ip_buf s)"
  obtains b where "rpl_remove_header s = Some (s\<lparr>ip_buf := b, ip_len := ip_len s - 8, ip_ext_len := 0\<rparr>)" "length b = UIP_BUFSIZE"
    "\<And>k. k < 40 \<Longrightarrow> b ! k = (if k = 6 then ip_buf s ! 40 else if k = 5 then ip_buf s ! 5 - 8
       else if k = 4 \<and> ip_buf s ! 5 - 8 > ip_buf s ! 5 then ip_buf s ! 4 - 1 else ip_buf s ! k)"
    "\<And>k. 40 \<le> k \<Longrightarrow> k + 8 < unat (ip_len s) \<Longrightarrow> b ! k = ip_buf s ! (k + 8)"
proof -
  define n where "n = unat (ip_len s) - 48"
  have u: "unat (ip_len s - 8) = n + 40" using assms(2) by (simp add: n_def unat_sub word_le_nat_alt)
  then have n: "uint (ip_len s - 8) - int UIP_IPH_LEN = int n" "n + 48 \<le> 1600"
    using assms(3) by (simp_all add: UIP_IPH_LEN_def UIP_BUFSIZE_def n_def uint_nat del: unat_sub)
  have l: "length (ip_buf s) = 1600" using assms(1) by (simp add: UIP_BUFSIZE_def)
  have o: "ip_buf s ! 6 = 0" "ip_buf s ! 41 = 0" using assms(4) by (simp_all add: has_rpl_opt_def UIP_PROTO_HBHO_def)
  define m1 where "m1 = put_at 6 [ip_buf s ! 40] (ip_buf s)"
  define m2 where "m2 = put_at 5 [m1 ! 5 - 8] m1"
  define m3 where "m3 = (if m1 ! 5 - 8 > m1 ! 5 then put_at 4 [m2 ! 4 - 1] m2 else m2)"
  define b where "b = put_at 40 (take n (drop 48 m3)) m3"
  have l1: "length m1 = 1600" by (simp add: m1_def l)
  have l2: "length m2 = 1600" by (simp add: m2_def l1)
  have l3: "length m3 = 1600" by (simp add: m3_def l2)
  have lb: "length b = 1600" using n(2) by (simp add: b_def l3)
  have m41: "m1 ! 41 = 0" by (simp add: m1_def nth_put_at l o)
  have m15: "m1 ! k = (if k = 6 then ip_buf s ! 40 else ip_buf s ! k)" if "k < 1600" for k
    using that by (auto simp: m1_def nth_put_at l)
  have m3: "m3 ! k = (if k = 4 \<and> m1 ! 5 - 8 > m1 ! 5 then m1 ! 4 - 1 else if k = 5 then m1 ! 5 - 8 else m1 ! k)" if "k < 1600" for k
    using that by (auto simp: m3_def m2_def nth_put_at l1 l2)
  have bk: "b ! k = (if 40 \<le> k \<and> k < 40 + n then m3 ! (k + 8) else m3 ! k)" if "k < 1600" for k
    using that n(2) by (auto simp: b_def nth_put_at l3 add.commute)
  have "rpl_remove_header s = Some (s\<lparr>ip_buf := b, ip_len := ip_len s - 8, ip_ext_len := 0\<rparr>)"
    using n(2) by (simp add: rpl_remove_header_def rd_ok l o UIP_PROTO_HBHO_def rpl_opt_0 ip_put_Some ip_put_ok m1_def [symmetric] l1 m41
        m2_def [symmetric] l2 Let_def ip_move_Some RPL_HOP_BY_HOP_LEN_def n(1) b_def m3_def)
  moreover have "b ! k = (if k = 6 then ip_buf s ! 40 else if k = 5 then ip_buf s ! 5 - 8
       else if k = 4 \<and> ip_buf s ! 5 - 8 > ip_buf s ! 5 then ip_buf s ! 4 - 1 else ip_buf s ! k)" if "k < 40" for k
    using that by (simp add: bk m3 m15)
  moreover have "b ! k = ip_buf s ! (k + 8)" if "40 \<le> k" "k + 8 < unat (ip_len s)" for k
    using that n(2) assms(3) by (auto simp: bk m3 m15 n_def UIP_BUFSIZE_def)
  ultimately show ?thesis using lb by (intro that [of b]) (simp_all add: UIP_BUFSIZE_def)
qed

text \<open>C15. The RPL option is put into a packet and taken out again without a trace: on a node with a default instance,
  \<open>rpl_insert_header\<close> puts a hop-by-hop header of 8 bytes, the option with rank 0 in it, between the IPv6 header of a packet
  that has none and what follows, chains it and counts its bytes in both lengths; \<open>rpl_remove_header\<close> on the result gives
  back the packet, byte for byte, with its length.\<close>

theorem rpl_header_roundtrip:
  assumes "length (ip_buf s) = UIP_BUFSIZE" "40 \<le> unat (ip_len s)" "unat (ip_len s) + 8 \<le> UIP_BUFSIZE"
    and "ip_buf s ! 6 \<noteq> UIP_PROTO_HBHO" "default_instance (ip_node s) \<noteq> None" "\<not> uip_is_addr_mcast (ip_dest (ip_buf s))"
  shows "\<exists>s1 s2. rpl_insert_header s = Some s1 \<and> ip_buf s1 ! 6 = UIP_PROTO_HBHO \<and>
     take 8 (drop 40 (ip_buf s1)) = [ip_buf s ! 6, 0, UIP_EXT_HDR_OPT_RPL, RPL_HDR_OPT_LEN, 0, 0, 0, 0] \<and>
     (\<forall>k. 40 \<le> k \<longrightarrow> k < unat (ip_len s) \<longrightarrow> ip_buf s1 ! (k + 8) = ip_buf s ! k) \<and>
     ip_len s1 = ip_len s + 8 \<and> payload_len (ip_buf s1) = payload_len (ip_buf s) + 8 \<and>
     rpl_remove_header s1 = Some s2 \<and> ip_len s2 = ip_len s \<and>
     take (unat (ip_len s)) (ip_buf s2) = take (unat (ip_len s)) (ip_buf s)"
proof -
  let ?s0 = "s\<lparr>ip_ext_len := 0\<rparr>"
  obtain b where b: "set_rpl_opt ?s0 = Some (?s0\<lparr>ip_buf := b, ip_len := ip_len ?s0 + 8\<rparr>)" "length b = UIP_BUFSIZE"
    "\<And>k. k < 40 \<Longrightarrow> b ! k = (if k = 6 then UIP_PROTO_HBHO else if k = 5 then ip_buf ?s0 ! 5 + 8
       else if k = 4 \<and> ip_buf ?s0 ! 5 + 8 < ip_buf ?s0 ! 5 then ip_buf ?s0 ! 4 + 1 else ip_buf ?s0 ! k)"
    "take 8 (drop 40 b) = [ip_buf ?s0 ! 6, 0, UIP_EXT_HDR_OPT_RPL, RPL_HDR_OPT_LEN, 0, 0, 0, 0]"
    "\<And>k. 48 \<le> k \<Longrightarrow> k < unat (ip_len ?s0) + 8 \<Longrightarrow> b ! k = ip_buf ?s0 ! (k - 8)"
    using assms(1-3) by (rule_tac set_rpl_opt_ok [of ?s0]) simp_all
  define s1 where "s1 = s\<lparr>ip_buf := b, ip_len := ip_len s + 8, ip_ext_len := ip_ext_len s + 8\<rparr>"
  have ins: "rpl_insert_header s = Some s1"
    using assms b(1) by (simp add: rpl_insert_header_def rpl_update_header_empty_def rd_ok UIP_BUFSIZE_def RPL_HOP_BY_HOP_LEN_def s1_def)
  have o: "b ! (40 + i) = [ip_buf s ! 6, 0, UIP_EXT_HDR_OPT_RPL, RPL_HDR_OPT_LEN, 0, 0, 0, 0] ! i" if "i < 8" for i
    using arg_cong [OF b(4), of "\<lambda>l. l ! i"] that b(2) by (simp add: UIP_BUFSIZE_def)
  have o8: "b ! 40 = ip_buf s ! 6" "b ! 41 = 0" "b ! 42 = UIP_EXT_HDR_OPT_RPL" "b ! 43 = RPL_HDR_OPT_LEN" "b ! 46 = 0" "b ! 47 = 0"
    using o [of 0] o [of 1] o [of 2] o [of 3] o [of 6] o [of 7] by simp_all
  have b6: "b ! 6 = UIP_PROTO_HBHO" using b(3) [of 6] by simp
  have opt: "has_rpl_opt b" using o8 b6 by (simp add: has_rpl_opt_def)
  have l: "unat (ip_len s1) = unat (ip_len s) + 8"
    using assms(3) by (simp add: s1_def unat_word_ariths UIP_BUFSIZE_def)
  obtain c where c: "rpl_remove_header s1 = Some (s1\<lparr>ip_buf := c, ip_len := ip_len s1 - 8, ip_ext_len := 0\<rparr>)" "length c = UIP_BUFSIZE"
    "\<And>k. k < 40 \<Longrightarrow> c ! k = (if k = 6 then ip_buf s1 ! 40 else if k = 5 then ip_buf s1 ! 5 - 8
       else if k = 4 \<and> ip_buf s1 ! 5 - 8 > ip_buf s1 ! 5 then ip_buf s1 ! 4 - 1 else ip_buf s1 ! k)"
    "\<And>k. 40 \<le> k \<Longrightarrow> k + 8 < unat (ip_len s1) \<Longrightarrow> c ! k = ip_buf s1 ! (k + 8)"
    using assms(2,3) l b(2) opt by (rule_tac rpl_remove_header_ok [of s1]) (simp_all add: s1_def)
  have "c ! k = ip_buf s ! k" if "k < unat (ip_len s)" for k
  proof (cases "k < 40")
    case True
    have "ip_buf s ! 5 + 8 - 8 > ip_buf s ! 5 + 8 \<longleftrightarrow> ip_buf s ! 5 + 8 < ip_buf s ! 5" by simp
    then show ?thesis using True by (auto simp: c(3) s1_def b(3) o8)
  next
    case False
    then show ?thesis using that b(5) [of "k + 8"] by (simp add: c(4) s1_def l [unfolded s1_def, simplified])
  qed
  then have "take (unat (ip_len s)) c = take (unat (ip_len s)) (ip_buf s)"
    using assms(1,3) c(2) by (intro nth_equalityI) auto
  moreover have "payload_len b = payload_len (ip_buf s) + 8"
    using len_bytes_add [of "ip_buf s ! 5" "ip_buf s ! 4"] by (simp add: payload_len_def b(3) split: if_split_asm)
  moreover have "b ! (k + 8) = ip_buf s ! k" if "40 \<le> k" "k < unat (ip_len s)" for k
    using that b(5) [of "k + 8"] by simp
  moreover have "take 8 (drop 40 b) = [ip_buf s ! 6, 0, UIP_EXT_HDR_OPT_RPL, RPL_HDR_OPT_LEN, 0, 0, 0, 0]" using b(4) by simp
  ultimately show ?thesis using ins c(1) b6 by (simp add: s1_def)
qed

text \<open>A packet of 50 bytes between two neighbours.\<close>

definition plain_packet :: uip_state where
  "plain_packet = (uip_power_on demo)\<lparr>ip_len := 50,
     ip_buf := [0x60, 0, 0, 0, 0, 10, 58, 64] @ demo_ip 1 @ demo_ip 2 @ replicate 10 7 @ replicate 1550 0\<rparr>"

theorem rpl_header_roundtrip_witness:
  "\<exists>s1 s2. rpl_insert_header plain_packet = Some s1 \<and> ip_len s1 = 58 \<and> rpl_remove_header s1 = Some s2 \<and>
     take 50 (ip_buf s2) = take 50 (ip_buf plain_packet)"
proof -
  have "length (ip_buf plain_packet) = UIP_BUFSIZE" "40 \<le> unat (ip_len plain_packet)" "unat (ip_len plain_packet) + 8 \<le> UIP_BUFSIZE"
    "ip_buf plain_packet ! 6 \<noteq> UIP_PROTO_HBHO" "default_instance (ip_node plain_packet) \<noteq> None"
    "\<not> uip_is_addr_mcast (ip_dest (ip_buf plain_packet))"
    by (simp_all add: plain_packet_def uip_power_on_def UIP_BUFSIZE_def UIP_PROTO_HBHO_def demo_ip_def ip_dest_def uip_is_addr_mcast_def)
  note rpl_header_roundtrip [OF this]
  moreover have "ip_len plain_packet = 50" by (simp add: plain_packet_def)
  ultimately show ?thesis by auto
qed

end
