(* ===== verification/UipTransit.thy ===== *)
theory UipTransit
  imports UipOpt
begin

text \<open>
  A packet on its way: what a node that forwards it changes, and how the ranks in the RPL option reveal a loop.
\<close>

unbundle bit_operations_syntax

definition opt_down :: "u8 list \<Rightarrow> bool" where "opt_down b \<longleftrightarrow> b ! 44 AND RPL_HDR_OPT_DOWN \<noteq> 0"
definition opt_rank_err :: "u8 list \<Rightarrow> bool" where "opt_rank_err b \<longleftrightarrow> b ! 44 AND RPL_HDR_OPT_RANK_ERR \<noteq> 0"
definition opt_fwd_err :: "u8 list \<Rightarrow> bool" where "opt_fwd_err b \<longleftrightarrow> b ! 44 AND RPL_HDR_OPT_FWD_ERR \<noteq> 0"

lemmas opt_flag_defs = opt_down_def opt_rank_err_def opt_fwd_err_def

text \<open>The node has joined the DAG \<open>cur\<close> of the instance \<open>i\<close> the option names.\<close>

definition in_dag :: "nat \<Rightarrow> dagptr \<Rightarrow> u8 list \<Rightarrow> rpl_state \<Rightarrow> bool" where
  "in_dag i cur b n \<longleftrightarrow> rpl_get_instance (b ! 45) n = Some i \<and> i_used (instance_table n i) \<and>
     i_current_dag (instance_table n i) = Some cur \<and> d_joined (dag_table n cur)"

text \<open>The rank of the sender is on the side the direction of the packet asks for.\<close>

definition rank_fits :: "u8 list \<Rightarrow> u16 \<Rightarrow> bool" where
  "rank_fits b rank \<longleftrightarrow> opt_down b = (opt_rank b < rank)"

definition route_to :: "u8 list \<Rightarrow> rpl_state \<Rightarrow> bool" where
  "route_to b n \<longleftrightarrow> snd (uip_ds6_route_lookup (ip_dest b) n) \<noteq> None"

subsection \<open>Bits of the flags\<close>

lemma flag_bits:
  "(f :: u8) AND 0x80 \<noteq> 0 \<longleftrightarrow> bit f 7" "f AND 0x40 \<noteq> 0 \<longleftrightarrow> bit f 6" "f AND 0x20 \<noteq> 0 \<longleftrightarrow> bit f 5"
  using mask_shift_bit [of 7 f] mask_shift_bit [of 6 f] mask_shift_bit [of 5 f] by (simp_all add: push_bit_eq_mult)

lemma flag_updates:
  "bit ((f :: u8) OR 0x40) 6" "bit (f OR 0x40) 7 = bit f 7" "bit (f OR 0x40) 5 = bit f 5"
  "bit (f OR 0x80) 6 = bit f 6" "bit (f AND NOT 0x80) 6 = bit f 6" "bit (f OR 0x80) 7" "\<not> bit (f AND NOT 0x80) 7"
  "bit (f OR 0x80) 5 = bit f 5" "bit (f AND NOT 0x80) 5 = bit f 5"
  by (simp_all add: bit_simps)

text \<open>With the mask as it is simplified.\<close>

lemma flag_updates_neg: "bit ((f :: u8) AND - 129) 6 = bit f 6" "\<not> bit ((f :: u8) AND - 129) 7" "bit ((f :: u8) AND - 129) 5 = bit f 5"
proof -
  have "(- 129 :: u8) = NOT 0x80" by simp
  then show "bit (f AND - 129) 6 = bit f 6" "\<not> bit (f AND - 129) 7" "bit (f AND - 129) 5 = bit f 5"
    using flag_updates(5,7,9) [of f] by metis+
qed

lemma opt_bit: "opt_down b \<longleftrightarrow> bit (b ! 44) 7" "opt_rank_err b \<longleftrightarrow> bit (b ! 44) 6" "opt_fwd_err b \<longleftrightarrow> bit (b ! 44) 5"
  unfolding opt_flag_defs RPL_HDR_OPT_DOWN_def RPL_HDR_OPT_RANK_ERR_def RPL_HDR_OPT_FWD_ERR_def flag_bits by simp_all

lemmas opt_bits = opt_bit RPL_HDR_OPT_DOWN_def RPL_HDR_OPT_RANK_ERR_def RPL_HDR_OPT_FWD_ERR_def flag_updates flag_updates_neg

subsection \<open>Before forwarding\<close>

lemma lookup_pair: "uip_ds6_route_lookup a n = (fst (uip_ds6_route_lookup a n), snd (uip_ds6_route_lookup a n))"
  by simp

text \<open>The direction: a new flags byte, or none if the packet goes down a route.\<close>

lemma update_direction_ok:
  assumes "length (ip_buf s) = UIP_BUFSIZE" "ip_ext_len s = 0" "opt_down (ip_buf s) \<longrightarrow> route_to (ip_buf s) (ip_node s)"
  shows "update_direction s = Some (s\<lparr>ip_node := fst (uip_ds6_route_lookup (ip_dest (ip_buf s)) (ip_node s)),
     ip_buf := put_at 44 [if route_to (ip_buf s) (ip_node s) then ip_buf s ! 44 OR RPL_HDR_OPT_DOWN
                          else ip_buf s ! 44 AND NOT RPL_HDR_OPT_DOWN] (ip_buf s)\<rparr>, False)"
proof -
  obtain n1 r where l: "uip_ds6_route_lookup (ip_dest (ip_buf s)) (ip_node s) = (n1, r)" by fastforce
  have b: "length (ip_buf s) = 1600" using assms(1) by (simp add: UIP_BUFSIZE_def)
  have down: "put_at 44 [ip_buf s ! 44 OR RPL_HDR_OPT_DOWN] (ip_buf s) = ip_buf s" if "opt_down (ip_buf s)"
  proof (rule nth_equalityI)
    have "ip_buf s ! 44 OR 0x80 = ip_buf s ! 44"
      using that by (intro bit_word_eqI) (auto simp: opt_bits bit_simps less_Suc_eq numeral_eq_Suc)
    then show "put_at 44 [ip_buf s ! 44 OR RPL_HDR_OPT_DOWN] (ip_buf s) ! k = ip_buf s ! k"
      if "k < length (put_at 44 [ip_buf s ! 44 OR RPL_HDR_OPT_DOWN] (ip_buf s))" for k
      using that by (cases "k = 44") (auto simp: nth_put_at b RPL_HDR_OPT_DOWN_def)
  qed (simp add: b)
  show ?thesis
    using assms(3) down
    by (cases r; cases "opt_down (ip_buf s)") (simp_all add: update_direction_def l rpl_opt_0 assms(2) rd_ok b ip_put_ok route_to_def opt_down_def)
qed

text \<open>The update of the option of a packet that has a route or goes up: the flags and the rank.\<close>

lemma update_empty_ok:
  assumes l: "length (ip_buf s) = UIP_BUFSIZE" and o: "has_rpl_opt (ip_buf s)" and d: "in_dag i cur (ip_buf s) (ip_node s)"
    and r: "opt_down (ip_buf s) \<longrightarrow> route_to (ip_buf s) (ip_node s)"
  obtains b where "rpl_update_header_empty s = Some (s\<lparr>ip_node := fst (uip_ds6_route_lookup (ip_dest (ip_buf s)) (ip_node s)), ip_buf := b\<rparr>, False)"
    "length b = UIP_BUFSIZE" "opt_rank b = d_rank (dag_table (ip_node s) cur)"
    "b ! 44 = (if route_to (ip_buf s) (ip_node s) then ip_buf s ! 44 OR RPL_HDR_OPT_DOWN else ip_buf s ! 44 AND NOT RPL_HDR_OPT_DOWN)"
    "\<And>k. k < UIP_BUFSIZE \<Longrightarrow> k \<noteq> 44 \<Longrightarrow> k \<noteq> 46 \<Longrightarrow> k \<noteq> 47 \<Longrightarrow> b ! k = ip_buf s ! k"
proof -
  have b: "length (ip_buf s) = 1600" using l by (simp add: UIP_BUFSIZE_def)
  define rank where "rank = d_rank (dag_table (ip_node s) cur)"
  define b1 where "b1 = put_at 46 (st16 (UIP_HTONS rank)) (ip_buf s)"
  have b1: "length b1 = 1600" "b1 ! 44 = ip_buf s ! 44" by (simp_all add: b1_def b nth_put_at)
  have dst: "ip_dest b1 = ip_dest (ip_buf s)" by (simp add: ip_dest_def b1_def slice_put_out b)
  define f where "f = (if route_to (ip_buf s) (ip_node s) then ip_buf s ! 44 OR RPL_HDR_OPT_DOWN else ip_buf s ! 44 AND NOT RPL_HDR_OPT_DOWN)"
  let ?s1 = "s\<lparr>ip_ext_len := 0, ip_buf := b1\<rparr>"
  have "update_direction ?s1 = Some (?s1\<lparr>ip_node := fst (uip_ds6_route_lookup (ip_dest (ip_buf s)) (ip_node s)),
      ip_buf := put_at 44 [f] b1\<rparr>, False)"
    using update_direction_ok [of ?s1] r b1 dst by (simp add: f_def route_to_def opt_down_def UIP_BUFSIZE_def)
  then have "rpl_update_header_empty s = Some (s\<lparr>ip_node := fst (uip_ds6_route_lookup (ip_dest (ip_buf s)) (ip_node s)),
      ip_buf := put_at 44 [f] b1\<rparr>, False)"
    using o d b by (simp add: rpl_update_header_empty_def rd_ok has_rpl_opt_def UIP_PROTO_HBHO_def rpl_opt_0 RPL_HOP_BY_HOP_LEN_def
        in_dag_def rank_def [symmetric] ip_put_ok b1_def)
  moreover have "opt_rank (put_at 44 [f] b1) = rank"
    by (simp add: opt_rank_def nth_put_at b1 b1_def b st16_def ld16_st16)
  moreover have "put_at 44 [f] b1 ! k = (if k = 44 then f else ip_buf s ! k)" if "k < 1600" "k \<noteq> 46" "k \<noteq> 47" for k
    using that by (auto simp: nth_put_at b1 b1_def b)
  ultimately show ?thesis using b1(1) by (intro that [of "put_at 44 [f] b1"]) (simp_all add: UIP_BUFSIZE_def rank_def f_def)
qed

text \<open>Whatever the update does, if the packet is not dropped, its hop limit and its addresses stay.\<close>

lemma update_direction_bytes:
  "update_direction s = Some (s', False) \<Longrightarrow> ip_ext_len s = 0 \<Longrightarrow> length (ip_buf s') = length (ip_buf s) \<and> (\<forall>k < 40. ip_buf s' ! k = ip_buf s ! k)"
  by (auto simp: update_direction_def rpl_opt_0 bind_eq_Some_conv rd_Some Let_def ip_put_Some nth_put_at split: prod.splits if_splits)

lemma update_empty_header:
  assumes u: "rpl_update_header_empty s = Some (s', False)" and l: "length (ip_buf s) = UIP_BUFSIZE" "40 \<le> unat (ip_len s)"
  shows "length (ip_buf s') = UIP_BUFSIZE \<and> (\<forall>k < 40. 7 \<le> k \<longrightarrow> ip_buf s' ! k = ip_buf s ! k)"
proof (cases "ip_buf s ! 6 = UIP_PROTO_HBHO")
  case False
  show ?thesis
  proof (cases "unat (ip_len s) + 8 \<le> UIP_BUFSIZE")
    case True
    let ?s0 = "s\<lparr>ip_ext_len := 0\<rparr>"
    have "ip_ext_len ?s0 = 0" by simp
    then show ?thesis
      by (rule set_rpl_opt_ok)
        (use False True u l in \<open>auto simp: rpl_update_header_empty_def rd_ok UIP_BUFSIZE_def RPL_HOP_BY_HOP_LEN_def\<close>)
  qed (use False u l in \<open>simp add: rpl_update_header_empty_def rd_ok UIP_BUFSIZE_def RPL_HOP_BY_HOP_LEN_def\<close>)
next
  case True
  have b: "length (ip_buf s) = 1600" using l(1) by (simp add: UIP_BUFSIZE_def)
  show ?thesis
    using u True b unfolding rpl_update_header_empty_def Let_def
    by (auto simp: rd_ok UIP_PROTO_HBHO_def rpl_opt_0 bind_eq_Some_conv ip_put_Some nth_put_at UIP_BUFSIZE_def
        split: if_splits option.splits dest!: update_direction_bytes)
qed

subsection \<open>Forwarding\<close>

lemma mtu: "(ucast UIP_LINK_MTU :: u16) = 1280"
  by (simp add: UIP_LINK_MTU_def)

text \<open>A packet with the RPL option of a DAG of this node.\<close>

definition transit_packet :: "nat \<Rightarrow> dagptr \<Rightarrow> uip_state \<Rightarrow> bool" where
  "transit_packet i cur s \<longleftrightarrow> length (ip_buf s) = UIP_BUFSIZE \<and> has_rpl_opt (ip_buf s) \<and> in_dag i cur (ip_buf s) (ip_node s) \<and>
     ip_len s \<le> 1280 \<and> 1 < ip_buf s ! 7 \<and> (opt_down (ip_buf s) \<longrightarrow> route_to (ip_buf s) (ip_node s))"

lemma forward_ok:
  assumes "transit_packet i cur s"
  shows "\<exists>s'. forward s = Some (s', Send) \<and> packet_forwarding s' \<and> ip_len s' = ip_len s \<and> ip_ext_len s' = ip_ext_len s \<and>
     length (ip_buf s') = UIP_BUFSIZE \<and> ip_buf s' ! 7 = ip_buf s ! 7 - 1 \<and>
     opt_rank (ip_buf s') = d_rank (dag_table (ip_node s) cur) \<and>
     opt_down (ip_buf s') = route_to (ip_buf s) (ip_node s) \<and> opt_rank_err (ip_buf s') = opt_rank_err (ip_buf s) \<and>
     opt_fwd_err (ip_buf s') = opt_fwd_err (ip_buf s) \<and>
     (\<forall>k < UIP_BUFSIZE. k \<notin> {7, 44, 46, 47} \<longrightarrow> ip_buf s' ! k = ip_buf s ! k)"
proof -
  have l: "length (ip_buf s) = UIP_BUFSIZE" and t: "1 < ip_buf s ! 7" and m: "ip_len s \<le> 1280"
    using assms by (simp_all add: transit_packet_def)
  obtain b where b: "rpl_update_header_empty s = Some (s\<lparr>ip_node := fst (uip_ds6_route_lookup (ip_dest (ip_buf s)) (ip_node s)), ip_buf := b\<rparr>, False)"
    "length b = UIP_BUFSIZE" "opt_rank b = d_rank (dag_table (ip_node s) cur)"
    "b ! 44 = (if route_to (ip_buf s) (ip_node s) then ip_buf s ! 44 OR RPL_HDR_OPT_DOWN else ip_buf s ! 44 AND NOT RPL_HDR_OPT_DOWN)"
    "\<And>k. k < UIP_BUFSIZE \<Longrightarrow> k \<noteq> 44 \<Longrightarrow> k \<noteq> 46 \<Longrightarrow> k \<noteq> 47 \<Longrightarrow> b ! k = ip_buf s ! k"
    using update_empty_ok [of s i cur] assms unfolding transit_packet_def by blast
  have lb: "length b = 1600" "length (ip_buf s) = 1600" using b(2) l by (simp_all add: UIP_BUFSIZE_def)
  have "\<not> 1280 < ip_len s" "\<not> ip_buf s ! 7 \<le> 1" using m t by (simp_all add: not_less not_le)
  then have "forward s = Some (s\<lparr>ip_node := fst (uip_ds6_route_lookup (ip_dest (ip_buf s)) (ip_node s)),
      ip_buf := put_at 7 [b ! 7 - 1] b, packet_forwarding := True\<rparr>, Send)"
    by (simp add: forward_def mtu rd_ok lb b(1) ip_put_ok)
  moreover have "put_at 7 [b ! 7 - 1] b ! k = (if k = 7 then ip_buf s ! 7 - 1 else b ! k)" if "k < 1600" for k
    using that b(5) [of 7] by (auto simp: nth_put_at lb UIP_BUFSIZE_def)
  moreover have "opt_rank (put_at 7 [b ! 7 - 1] b) = opt_rank b" by (simp add: opt_rank_def nth_put_at lb)
  ultimately show ?thesis
    using b(3-5) lb by (auto simp: UIP_BUFSIZE_def opt_bits)
qed

text \<open>A packet and what is left of it after some nodes have forwarded it: each receives the header it was sent with, does not
  answer it with an error, and forwards it. The header can have changed elsewhere in between, as by the check of the option.\<close>

inductive transit :: "nat \<Rightarrow> u8 \<Rightarrow> u8 \<Rightarrow> bool" where
  start: "transit 0 ttl ttl"
| hop: "transit n ttl (ip_buf s ! 7) \<Longrightarrow> length (ip_buf s) = UIP_BUFSIZE \<Longrightarrow> 40 \<le> unat (ip_len s) \<Longrightarrow> ip_len s \<le> 1280 \<Longrightarrow>
    1 < ip_buf s ! 7 \<Longrightarrow> forward s = Some (s', Send) \<Longrightarrow> transit (Suc n) ttl (ip_buf s' ! 7)"

lemma forward_ttl:
  assumes "length (ip_buf s) = UIP_BUFSIZE" "40 \<le> unat (ip_len s)" "ip_len s \<le> 1280" "1 < ip_buf s ! 7"
    "forward s = Some (s', Send)"
  shows "ip_buf s' ! 7 = ip_buf s ! 7 - 1"
proof -
  have "\<not> 1280 < ip_len s" "\<not> ip_buf s ! 7 \<le> 1" using assms by (simp_all add: not_less not_le)
  then obtain s1 where s1: "rpl_update_header_empty s = Some (s1, False)" and
      s': "\<exists>s2. ip_put 7 [ip_buf s1 ! 7 - 1] s1 = Some s2 \<and> s' = s2\<lparr>packet_forwarding := True\<rparr>"
    using assms(5) by (auto simp: forward_def mtu bind_eq_Some_conv rd_Some split: if_splits)
  have "length (ip_buf s1) = UIP_BUFSIZE" "ip_buf s1 ! 7 = ip_buf s ! 7"
    using update_empty_header [OF s1 assms(1,2)] by simp_all
  then show ?thesis using s' by (auto simp: ip_put_Some nth_put_at UIP_BUFSIZE_def)
qed

lemma transit_ends:
  assumes "transit n ttl ttl'"
  shows "unat ttl' + n = unat ttl \<and> n \<le> 254"
proof -
  have "unat ttl' + n = unat ttl \<and> (0 < n \<longrightarrow> 1 \<le> unat ttl')"
    using assms
  proof (induction rule: transit.induct)
    case (hop n ttl s s')
    have "ip_buf s' ! 7 = ip_buf s ! 7 - 1" using hop.hyps(2-6) by (rule forward_ttl)
    moreover have "1 < unat (ip_buf s ! 7)" using hop.hyps(5) by (simp add: word_less_nat_alt)
    moreover have "unat (ip_buf s ! 7 - 1) = unat (ip_buf s ! 7) - 1"
      using hop.hyps(5) unat_sub [of 1 "ip_buf s ! 7"] by (simp add: less_imp_le)
    ultimately show ?case using hop.IH by simp
  qed simp
  then show ?thesis using unat_u8_bound [of ttl] by (cases "n = 0") auto
qed

subsection \<open>The check of the option\<close>

text \<open>What the check does with a packet that has no forwarding error, from a neighbour that is no parent or without a rank
  error.\<close>

lemma verify_char:
  assumes l: "length (ip_buf s) = UIP_BUFSIZE" and e: "ip_ext_len s = 0" and o: "has_rpl_opt (ip_buf s)"
    and d: "in_dag i cur (ip_buf s) (ip_node s)" and f: "\<not> opt_fwd_err (ip_buf s)"
    and p: "opt_rank_err (ip_buf s) \<Longrightarrow> nbr_table_get_from_lladdr (ip_node s) RPL_PARENTS (Some (packetbuf_sender (ip_node s))) = None"
  shows "rpl_verify_header 2 s =
     (if rank_fits (ip_buf s) (d_rank (dag_table (ip_node s) cur)) then Some (s, False)
      else loop_detected i (nbr_table_get_from_lladdr (ip_node s) RPL_PARENTS (Some (packetbuf_sender (ip_node s)))) 42 s)"
proof -
  have b: "length (ip_buf s) = 1600" using l by (simp add: UIP_BUFSIZE_def)
  have r: "ld16 (ip_buf s) 46 = Some (UIP_HTONS (opt_rank (ip_buf s)))" by (simp add: ld16_ok b opt_rank_def)
  show ?thesis
    using o d f p
    by (simp add: rpl_verify_header_def rpl_opt_0 e rd_ok b has_rpl_opt_def RPL_HOP_BY_HOP_LEN_def r in_dag_def opt_flag_defs rank_fits_def
        split: option.split)
qed

definition dio_to_sender :: "nat \<Rightarrow> ptr \<Rightarrow> rpl_state \<Rightarrow> rpl_state" where
  "dio_to_sender i p n = (if p = None then n
     else mod_inst i (\<lambda>x. x\<lparr>i_unicast_dio_target := p, i_unicast_dio_timer := Some 0\<rparr>) n)"

lemma dio_to_sender_node:
  "dag_table (dio_to_sender i p n) = dag_table n" "in_dag j cur b (dio_to_sender i p n) = in_dag j cur b n"
  "route_to b (dio_to_sender i p n) = route_to b n"
proof -
  have g: "instance_loop d (mod_inst i (\<lambda>x. x\<lparr>i_unicast_dio_target := p, i_unicast_dio_timer := Some 0\<rparr>) n) js = instance_loop d n js" for d js
    by (induction js) (auto simp: mod_inst_def)
  show "dag_table (dio_to_sender i p n) = dag_table n" by (simp add: dio_to_sender_def mod_inst_def)
  have h: "rpl_get_instance d (dio_to_sender i p n) = rpl_get_instance d n" for d
    by (simp add: dio_to_sender_def rpl_get_instance_def g)
  have k: "i_current_dag (instance_table (dio_to_sender i p n) j) = i_current_dag (instance_table n j)"
    "i_used (instance_table (dio_to_sender i p n) j) = i_used (instance_table n j)"
    "dag_table (dio_to_sender i p n) = dag_table n"
    by (simp_all add: dio_to_sender_def mod_inst_def)
  show "in_dag j cur b (dio_to_sender i p n) = in_dag j cur b n" by (simp add: in_dag_def h k)
  show "route_to b (dio_to_sender i p n) = route_to b n"
    by (cases p) (simp_all add: route_to_def dio_to_sender_def uip_ds6_route_lookup_def mod_inst_def Let_def split: option.splits)
qed

lemma loop_detected_eq:
  assumes "length (ip_buf s) = UIP_BUFSIZE"
  shows "loop_detected i p 42 s = (if opt_rank_err (ip_buf s)
     then map_option (\<lambda>n. (s\<lparr>ip_node := n\<rparr>, True)) (rpl_reset_dio_timer i (dio_to_sender i p (ip_node s)))
     else Some (s\<lparr>ip_node := dio_to_sender i p (ip_node s), ip_buf := put_at 44 [ip_buf s ! 44 OR RPL_HDR_OPT_RANK_ERR] (ip_buf s)\<rparr>, False))"
proof -
  have b: "length (ip_buf s) = 1600" using assms by (simp add: UIP_BUFSIZE_def)
  define t where "t = s\<lparr>ip_node := dio_to_sender i p (ip_node s)\<rparr>"
  have t: "(if p \<noteq> None then s\<lparr>ip_node := rpl_schedule_unicast_dio_immediately i
             (mod_inst i (\<lambda>x. x\<lparr>i_unicast_dio_target := p\<rparr>) (ip_node s))\<rparr> else s) = t"
    by (auto simp: t_def dio_to_sender_def rpl_schedule_unicast_dio_immediately_def mod_inst_def)
  have "ip_buf t = ip_buf s" "ip_node t = dio_to_sender i p (ip_node s)" by (simp_all add: t_def)
  then show ?thesis
    unfolding loop_detected_def t Let_def
    by (cases "rpl_reset_dio_timer i (dio_to_sender i p (ip_node s))") (auto simp: rd_ok b ip_put_ok opt_rank_err_def t_def)
qed

text \<open>The parent the packet came from, if it is one.\<close>

abbreviation "sender_of n \<equiv> nbr_table_get_from_lladdr n RPL_PARENTS (Some (packetbuf_sender n))"

subsection \<open>Properties\<close>

text \<open>C14. A node forwards a packet with the RPL option of its own DAG unchanged but for four bytes: the hop limit is one less, the
  rank in the option is the one of the node, and the option says that the packet goes down exactly if this node has a
  route to the destination. The marks of rank and forwarding errors, the addresses, the payload and the length stay.\<close>

theorem forward_changes:
  assumes "transit_packet i cur s"
  shows "\<exists>s'. forward s = Some (s', Send) \<and> packet_forwarding s' \<and> ip_len s' = ip_len s \<and> ip_ext_len s' = ip_ext_len s \<and>
     length (ip_buf s') = UIP_BUFSIZE \<and> ip_buf s' ! 7 = ip_buf s ! 7 - 1 \<and>
     opt_rank (ip_buf s') = d_rank (dag_table (ip_node s) cur) \<and>
     opt_down (ip_buf s') = route_to (ip_buf s) (ip_node s) \<and> opt_rank_err (ip_buf s') = opt_rank_err (ip_buf s) \<and>
     opt_fwd_err (ip_buf s') = opt_fwd_err (ip_buf s) \<and>
     (\<forall>k < UIP_BUFSIZE. k \<notin> {7, 44, 46, 47} \<longrightarrow> ip_buf s' ! k = ip_buf s ! k)"
  using assms by (rule forward_ok)

text \<open>C7. A packet in a loop is caught by its ranks. A node that gets a packet from the wrong side - from a rank that is not above
  its own although the packet goes down, or below it although the packet goes up - marks it, tells the sender its rank if
  that is a parent, and forwards it with its own rank, all else but the hop limit and the direction unchanged; the next
  node, of whatever DAG of the instance, that gets the marked packet from the wrong side and from a neighbour that is no
  parent drops it and starts to announce its rank again.\<close>

theorem rank_loop_is_dropped:
  assumes s: "transit_packet i cur s" "ip_ext_len s = 0" "\<not> opt_fwd_err (ip_buf s)" "\<not> opt_rank_err (ip_buf s)"
      "\<not> rank_fits (ip_buf s) (d_rank (dag_table (ip_node s) cur))"
  shows "\<exists>s1 s2. rpl_verify_header 2 s = Some (s1, False) \<and> ip_node s1 = dio_to_sender i (sender_of (ip_node s)) (ip_node s) \<and>
     forward (s1\<lparr>ip_ext_len := 8\<rparr>) = Some (s2, Send) \<and> length (ip_buf s2) = UIP_BUFSIZE \<and>
     opt_rank_err (ip_buf s2) \<and> opt_rank (ip_buf s2) = d_rank (dag_table (ip_node s) cur) \<and>
     opt_down (ip_buf s2) = route_to (ip_buf s) (ip_node s) \<and>
     (\<forall>k < UIP_BUFSIZE. k \<notin> {7, 44, 46, 47} \<longrightarrow> ip_buf s2 ! k = ip_buf s ! k) \<and>
     (\<forall>r j dag. length (ip_buf r) = UIP_BUFSIZE \<longrightarrow> ip_ext_len r = 0 \<longrightarrow> take 48 (ip_buf r) = take 48 (ip_buf s2) \<longrightarrow>
        in_dag j dag (ip_buf r) (ip_node r) \<longrightarrow> sender_of (ip_node r) = None \<longrightarrow>
        \<not> rank_fits (ip_buf r) (d_rank (dag_table (ip_node r) dag)) \<longrightarrow>
        rpl_verify_header 2 r = map_option (\<lambda>n. (r\<lparr>ip_node := n\<rparr>, True)) (rpl_reset_dio_timer j (ip_node r)))"
proof -
  have l: "length (ip_buf s) = UIP_BUFSIZE" "has_rpl_opt (ip_buf s)" "in_dag i cur (ip_buf s) (ip_node s)"
    using s(1) by (simp_all add: transit_packet_def)
  have lb: "length (ip_buf s) = 1600" using l(1) by (simp add: UIP_BUFSIZE_def)
  define b where "b = put_at 44 [ip_buf s ! 44 OR RPL_HDR_OPT_RANK_ERR] (ip_buf s)"
  define s1 where "s1 = s\<lparr>ip_node := dio_to_sender i (sender_of (ip_node s)) (ip_node s), ip_buf := b\<rparr>"
  have bk: "b ! k = (if k = 44 then ip_buf s ! 44 OR RPL_HDR_OPT_RANK_ERR else ip_buf s ! k)" if "k < 1600" for k
    using that by (auto simp: b_def nth_put_at lb)
  have v: "rpl_verify_header 2 s = Some (s1, False)"
    using verify_char [OF l(1) s(2) l(2, 3) s(3)] s(4, 5) loop_detected_eq [OF l(1)] by (simp add: s1_def b_def)
  have dst: "ip_dest b = ip_dest (ip_buf s)" by (simp add: ip_dest_def b_def slice_put_out lb)
  have b45: "in_dag i cur b n = in_dag i cur (ip_buf s) n" "route_to b n = route_to (ip_buf s) n" for n
    by (simp_all add: in_dag_def route_to_def bk dst)
  have "transit_packet i cur (s1\<lparr>ip_ext_len := 8\<rparr>)"
    using s(1) by (simp add: transit_packet_def s1_def dio_to_sender_node b45)
      (simp add: has_rpl_opt_def bk b_def lb UIP_BUFSIZE_def opt_bits nth_put_at)
  from forward_ok [OF this] obtain s2 where s2: "forward (s1\<lparr>ip_ext_len := 8\<rparr>) = Some (s2, Send)" "length (ip_buf s2) = UIP_BUFSIZE"
      "opt_rank (ip_buf s2) = d_rank (dag_table (ip_node s) cur)" "opt_rank_err (ip_buf s2) = opt_rank_err b"
      "opt_fwd_err (ip_buf s2) = opt_fwd_err b" "opt_down (ip_buf s2) = route_to (ip_buf s) (ip_node s)"
      "\<forall>k < UIP_BUFSIZE. k \<notin> {7, 44, 46, 47} \<longrightarrow> ip_buf s2 ! k = b ! k"
    by (auto simp: s1_def dio_to_sender_node b45)
  have same: "\<forall>k < UIP_BUFSIZE. k \<notin> {7, 44, 46, 47} \<longrightarrow> ip_buf s2 ! k = ip_buf s ! k"
    using s2(7) by (auto simp: bk UIP_BUFSIZE_def)
  have err: "opt_rank_err (ip_buf s2)" unfolding s2(4) by (simp add: opt_bits bk)
  have "rpl_verify_header 2 r = map_option (\<lambda>n. (r\<lparr>ip_node := n\<rparr>, True)) (rpl_reset_dio_timer j (ip_node r))"
    if r: "length (ip_buf r) = UIP_BUFSIZE" "ip_ext_len r = 0" "in_dag j dag (ip_buf r) (ip_node r)" "sender_of (ip_node r) = None"
    and eq: "take 48 (ip_buf r) = take 48 (ip_buf s2)" and nf: "\<not> rank_fits (ip_buf r) (d_rank (dag_table (ip_node r) dag))" for r j dag
  proof -
    have rk: "ip_buf r ! k = ip_buf s2 ! k" if "k < 48" for k
      using arg_cong [OF eq, of "\<lambda>x. x ! k"] that by simp
    have o: "has_rpl_opt (ip_buf r)" using l(2) same by (simp add: has_rpl_opt_def rk UIP_BUFSIZE_def)
    have e: "opt_rank_err (ip_buf r)" "\<not> opt_fwd_err (ip_buf r)"
      using err s2(5) s(3) rk [of 44] by (simp_all add: opt_bits bk)
    show ?thesis
      using verify_char [OF r(1, 2) o r(3) e(2) r(4)] nf e(1) loop_detected_eq [OF r(1)] by (simp add: r(4) dio_to_sender_def)
  qed
  then show ?thesis using v s2 err same by (intro exI [of _ s1] exI [of _ s2]) (simp add: s1_def)
qed

subsection \<open>Witnesses\<close>

text \<open>A packet that goes up, from a rank of 256, at a node of rank 512 that has no route to its destination.\<close>

definition up_packet :: uip_state where
  "up_packet = (uip_power_on demo)\<lparr>ip_len := 48,
     ip_buf := [0x60, 0, 0, 0, 0, 8, 0, 64] @ demo_ip 1 @ demo_ip 2 @ [59, 0, 0x63, 4, 0, 30, 1, 0] @ replicate 1552 0\<rparr>"

lemma up_packet_sel:
  "length (ip_buf up_packet) = UIP_BUFSIZE" "ip_ext_len up_packet = 0" "ip_node up_packet = demo" "ip_len up_packet = 48"
  "ip_buf up_packet ! 7 = 64" "ip_buf up_packet ! 44 = 0" "ip_buf up_packet ! 45 = 30" "opt_rank (ip_buf up_packet) = 256"
  by (simp_all add: up_packet_def uip_power_on_def UIP_BUFSIZE_def demo_ip_def nth_append opt_rank_def UIP_HTONS_def push_bit_eq_mult)

lemma demo_instance: "rpl_get_instance 30 (demo\<lparr>dag_table := d\<rparr>) = Some 0"
  by (simp add: rpl_get_instance_def RPL_MAX_INSTANCES_def demo_inst_def)

lemma up_packet_transit: "transit_packet 0 (0, 0) up_packet" "\<not> opt_down (ip_buf up_packet)" "\<not> route_to (ip_buf up_packet) demo"
proof -
  have d: "demo = demo\<lparr>dag_table := dag_table demo\<rparr>" by simp
  have i: "rpl_get_instance 30 demo = Some 0"
    using demo_instance [of "dag_table demo"] by (simp add: d [symmetric] del: demo_sel2(3))
  have "has_rpl_opt (ip_buf up_packet)"
    by (simp add: has_rpl_opt_def up_packet_def UIP_PROTO_HBHO_def hbho_consts demo_ip_def nth_append)
  moreover show n: "\<not> opt_down (ip_buf up_packet)" by (simp add: opt_down_def up_packet_sel)
  moreover have "in_dag 0 (0, 0) (ip_buf up_packet) demo"
    by (simp add: in_dag_def up_packet_sel i) (simp add: demo_inst_def demo_dag_def)
  ultimately show "transit_packet 0 (0, 0) up_packet" by (simp add: transit_packet_def up_packet_sel)
  show "\<not> route_to (ip_buf up_packet) demo" by (simp add: route_to_def uip_ds6_route_lookup_def)
qed

theorem forward_changes_witness:
  "\<exists>s'. forward up_packet = Some (s', Send) \<and> ip_buf s' ! 7 = 63 \<and> opt_rank (ip_buf s') = 512 \<and> \<not> opt_down (ip_buf s')"
proof -
  from forward_changes [OF up_packet_transit(1)] obtain s' where "forward up_packet = Some (s', Send)"
    "ip_buf s' ! 7 = 64 - 1" "opt_rank (ip_buf s') = d_rank demo_dag" "opt_down (ip_buf s') = route_to (ip_buf up_packet) demo"
    by (auto simp: up_packet_sel)
  then show ?thesis using up_packet_transit(3) by (simp add: demo_dag_def)
qed

text \<open>The packet is marked there and dropped by a node of rank 1024.\<close>

theorem rank_loop_is_dropped_witness:
  "\<exists>s1 s2 n. rpl_verify_header 2 up_packet = Some (s1, False) \<and> forward (s1\<lparr>ip_ext_len := 8\<rparr>) = Some (s2, Send) \<and>
     rpl_verify_header 2 ((uip_power_on (demo\<lparr>dag_table := \<lambda>_. demo_dag\<lparr>d_rank := 1024\<rparr>\<rparr>))\<lparr>ip_buf := ip_buf s2\<rparr>) = Some (n, True)"
proof -
  have nf: "\<not> rank_fits (ip_buf up_packet) (d_rank (dag_table (ip_node up_packet) (0, 0)))"
    using up_packet_transit(2) by (simp add: rank_fits_def up_packet_sel) (simp add: demo_dag_def)
  have e: "\<not> opt_fwd_err (ip_buf up_packet)" "\<not> opt_rank_err (ip_buf up_packet)"
    by (simp_all add: opt_flag_defs up_packet_sel)
  obtain s1 s2 where s: "rpl_verify_header 2 up_packet = Some (s1, False)" "forward (s1\<lparr>ip_ext_len := 8\<rparr>) = Some (s2, Send)"
    "length (ip_buf s2) = UIP_BUFSIZE" "opt_rank (ip_buf s2) = d_rank (dag_table (ip_node up_packet) (0, 0))"
    "opt_down (ip_buf s2) = route_to (ip_buf up_packet) (ip_node up_packet)"
    "\<forall>k < UIP_BUFSIZE. k \<notin> {7, 44, 46, 47} \<longrightarrow> ip_buf s2 ! k = ip_buf up_packet ! k"
    "\<And>r j dag. length (ip_buf r) = UIP_BUFSIZE \<Longrightarrow> ip_ext_len r = 0 \<Longrightarrow> take 48 (ip_buf r) = take 48 (ip_buf s2) \<Longrightarrow>
        in_dag j dag (ip_buf r) (ip_node r) \<Longrightarrow> sender_of (ip_node r) = None \<Longrightarrow>
        \<not> rank_fits (ip_buf r) (d_rank (dag_table (ip_node r) dag)) \<Longrightarrow>
        rpl_verify_header 2 r = map_option (\<lambda>n. (r\<lparr>ip_node := n\<rparr>, True)) (rpl_reset_dio_timer j (ip_node r))"
    using rank_loop_is_dropped [OF up_packet_transit(1) up_packet_sel(2) e nf] by blast
  define m where "m = demo\<lparr>dag_table := \<lambda>_. demo_dag\<lparr>d_rank := 1024\<rparr>\<rparr>"
  define r where "r = (uip_power_on m)\<lparr>ip_buf := ip_buf s2\<rparr>"
  have b: "ip_buf s2 ! 45 = 30" using s(6) by (simp add: UIP_BUFSIZE_def up_packet_sel)
  have d: "dag_table m = (\<lambda>_. demo_dag\<lparr>d_rank := 1024\<rparr>)" "instance_table m 0 = demo_inst"
    "rpl_get_instance 30 m = Some 0" "i_used demo_inst"
    by (simp_all add: m_def demo_instance demo_inst_def)
  have sn: "sender_of m = None"
    by (simp add: m_def nbr_table_get_from_lladdr_def index_from_lladdr_def demo_ll_def)
  have "in_dag 0 (0, 0) (ip_buf s2) m" using b d by (simp add: in_dag_def) (simp add: demo_inst_def demo_dag_def)
  moreover have "\<not> rank_fits (ip_buf s2) 1024"
    using s(4,5) up_packet_transit(3) by (simp add: rank_fits_def up_packet_sel) (simp add: demo_dag_def)
  ultimately have "rpl_verify_header 2 r = map_option (\<lambda>n. (r\<lparr>ip_node := n\<rparr>, True)) (rpl_reset_dio_timer 0 m)"
    using s(7) [of r 0 "(0, 0)"] s(3) sn by (simp add: r_def uip_power_on_def d)
  moreover have "rpl_reset_dio_timer 0 m = Some m" by (simp add: rpl_reset_dio_timer_def d) (simp add: demo_inst_def)
  ultimately show ?thesis using s(1, 2) unfolding r_def m_def by auto
qed

end
