(* ===== verification/IpNode.thy ===== *)
theory IpNode
  imports UipInv UipTransit
begin

text \<open>
  A node with its IPv6 engine: its start (\<open>tcpip_process\<close> in \<open>core/net/ip/tcpip.c\<close>, \<open>uip_init\<close> in \<open>core/net/ipv6/uip6.c\<close>), the
  events that reach it, and what holds in every state it can come into.
\<close>

unbundle bit_operations_syntax

subsection \<open>Start\<close>

definition uip_init :: "linkaddr \<Rightarrow> uip_state \<Rightarrow> uip_state option" where
  "uip_init long_lladdr s = do {
     n \<leftarrow> uip_ds6_init long_lladdr (ip_node s);
     let s1 = uip_icmp6_init (s\<lparr>ip_node := n\<rparr>);
     Some (s1\<lparr>ip_lastport := 1024, ip_conns := map (\<lambda>c. c\<lparr>uc_lport := 0\<rparr>) (ip_conns s1)\<rparr>)
   }"

definition tcpip_start :: "linkaddr \<Rightarrow> uip_state \<Rightarrow> uip_state option" where
  "tcpip_start long_lladdr s = do {
     s1 \<leftarrow> uip_init long_lladdr (s\<lparr>packet_forwarding := False\<rparr>);
     let s2 = s1\<lparr>ip_node := rpl_init (ip_node s1)\<rparr>;
     Some (rpl_icmp6_register_handlers s2)
   }"

subsection \<open>What happens to a node\<close>

text \<open>\<open>frame\<close>: a packet the adaptation layer left in the buffer, whatever bytes it is made of, from a neighbour, on one of the
  radios. \<open>event\<close>: a timer, an answer of the link layer, a call of the application. \<open>sendto\<close>, \<open>new_conn\<close>: the application.\<close>

inductive ip_step :: "uip_state \<Rightarrow> uip_state \<Rightarrow> bool" where
  frame: "node_handle (Heard radio a) (ip_node s) = Some n \<Longrightarrow> length buf = UIP_BUFSIZE \<Longrightarrow>
     tcpip_input (s\<lparr>ip_node := n, ip_buf := buf, ip_len := len\<rparr>) = Some (s', label) \<Longrightarrow> label \<noteq> Tcp_input \<Longrightarrow> ip_step s s'"
| event: "enabled e (ip_node s) \<Longrightarrow> rpl_call (node_handle e) s = Some s' \<Longrightarrow> ip_step s s'"
| sendto: "uip_udp_packet_sendto k data to s = Some s' \<Longrightarrow> ip_step s s'"
| new_conn: "uip_udp_new ra rport s = Some (s', k) \<Longrightarrow> ip_step s s'"

inductive ip_reach :: "uip_state \<Rightarrow> bool" where
  start: "tcpip_start long_lladdr (uip_power_on (power_on lladdr rand)) = Some s \<Longrightarrow> ip_reach s"
| step: "ip_reach s \<Longrightarrow> ip_step s s' \<Longrightarrow> ip_reach s'"

lemma register_sel [simp]:
  "ip_node (uip_icmp6_register_input_handler h s) = ip_node s" "ip_buf (uip_icmp6_register_input_handler h s) = ip_buf s"
  "ip_conns (uip_icmp6_register_input_handler h s) = ip_conns s"
  "packet_forwarding (uip_icmp6_register_input_handler h s) = packet_forwarding s"
  "ip_sent (uip_icmp6_register_input_handler h s) = ip_sent s"
  by (simp_all add: uip_icmp6_register_input_handler_def)

lemma start_sel:
  assumes "tcpip_start b (uip_power_on (power_on a r)) = Some s"
  shows "node_boot a b r = Some (ip_node s)" "length (ip_buf s) = UIP_BUFSIZE" "length (ip_conns s) = UIP_UDP_CONNS"
    "\<not> packet_forwarding s"
  using assms
  by (auto simp: tcpip_start_def uip_init_def uip_icmp6_init_def rpl_icmp6_register_handlers_def uip_power_on_def node_boot_def
      bind_eq_Some_conv Let_def)

lemma wf_udp_new: "ip_wf fw s \<Longrightarrow> uip_udp_new ra rport s = Some (s', k) \<Longrightarrow> ip_wf fw s'"
  by (auto simp: uip_udp_new_def bind_eq_Some_conv Let_def ip_wf_def split: option.splits)

lemma wf_ip_step:
  assumes "ip_step s s'" "ip_wf fw s"
  shows "ip_wf fw s'"
  using assms(1)
proof (cases rule: ip_step.cases)
  case (frame radio a n buf len label)
  have "node_step (ip_node s) (Heard radio a) n" using frame(1) by (intro node_step.event) (simp_all add: enabled_def)
  then have "node_wf n" using wf_step [OF _ ip_wf_node [OF assms(2)]] by blast
  then have "ip_wf fw (s\<lparr>ip_node := n, ip_buf := buf, ip_len := len\<rparr>)" using assms(2) frame(2) by (simp add: ip_wf_def)
  then show ?thesis using postsD [OF wf_tcpip_input frame(3)] by simp
next
  case (event e)
  have "post (node_handle e (ip_node s)) node_wf"
    using wf_step [OF node_step.event [OF event(1)] ip_wf_node [OF assms(2)]] by (auto simp: post_def)
  then show ?thesis using postD [OF wf_rpl_call [OF assms(2)] event(2)] by blast
next
  case (sendto k data to)
  then show ?thesis using postD [OF wf_packet_sendto [OF assms(2)]] by blast
next
  case (new_conn ra rport k)
  then show ?thesis using wf_udp_new [OF assms(2)] by blast
qed

lemma ip_reach_wf: "ip_reach s \<Longrightarrow> ip_wf False s"
proof (induction rule: ip_reach.induct)
  case (start b a r s)
  then show ?case using start_sel(2,3) wf_boot [OF start_sel(1)] by (simp add: ip_wf_def)
qed (rule wf_ip_step)

subsection \<open>Tables and packets\<close>

text \<open>C8. No sequence of packets, timers and calls of the application damages the tables of a node: whatever the bytes of
  the packets that are no TCP segments, in every state that is reached the neighbour and routing tables are well-formed, with
  at most 70 routes, each over an existing next hop. An operation that accesses memory it must not, or does not end, reaches
  no state; where the code has such operations, the properties of IpProps and the findings say so.\<close>

theorem packets_keep_tables:
  assumes "ip_reach s"
  shows "distinct (nt_keys (ip_node s)) \<and>
     inj_on (nt_lladdr (ip_node s)) (set (nt_keys (ip_node s))) \<and>
     num_routes (ip_node s) = int (length (routelist (ip_node s))) \<and> num_routes (ip_node s) \<le> 70 \<and>
     (\<forall>r \<in> set (routelist (ip_node s)). \<exists>i n. neighbor_routes (routes (ip_node s) r) = Some i \<and>
        i \<in> set (nbr_items (ip_node s) NBR_ROUTES) \<and> n \<in> set (route_list (nbr_routes (ip_node s) i)) \<and>
        nbrr_route (ip_node s) n = r)"
proof -
  have "node_wf (ip_node s)" using ip_reach_wf [OF assms] by (simp add: ip_wf_def)
  then show ?thesis using node_wf_tables [of "ip_node s"] by blast
qed

text \<open>A node that has been started, and then hears 40 bytes that are no IPv6 packet.\<close>

lemma start_Some: "\<exists>s. tcpip_start b (uip_power_on (power_on a r)) = Some s"
proof -
  obtain n where "node_boot a b r = Some n" using boot_Some by blast
  then show ?thesis by (auto simp: tcpip_start_def uip_init_def uip_icmp6_init_def uip_power_on_def node_boot_def Let_def
      uip_icmp6_register_input_handler_def)
qed

lemma noise_dropped:
  assumes "length (ip_buf s) = UIP_BUFSIZE" "ip_buf s ! 0 = 0" "0 < ip_len s"
  shows "\<exists>s'. tcpip_input s = Some (s', Drop) \<and> ip_node s' = ip_node s"
  using assms by (simp add: tcpip_input_def packet_input_def uip_input_def uip_headers_def check_header_def rd_ok UIP_BUFSIZE_def
      uip_clear_buf_def)

theorem packets_keep_tables_witness:
  "\<exists>s. ip_reach s \<and> packetbuf_sender (ip_node s) = demo_ll 3 \<and> num_routes (ip_node s) \<le> 70"
proof -
  obtain s where "tcpip_start (demo_ll 2) (uip_power_on (power_on (demo_ll 1) (\<lambda>_. 7))) = Some s" using start_Some by blast
  then have s: "ip_reach s" by (rule ip_reach.start)
  define n where "n = (ip_node s)\<lparr>radio_received := LONG_RADIO, packetbuf_sender := demo_ll 3\<rparr>"
  have n: "node_handle (Heard LONG_RADIO (demo_ll 3)) (ip_node s) = Some n"
    by (simp add: node_handle_def dual_radio_received_def n_def)
  define t where "t = s\<lparr>ip_node := n, ip_buf := replicate UIP_BUFSIZE 0, ip_len := 40\<rparr>"
  obtain s' where s': "tcpip_input t = Some (s', Drop)" "ip_node s' = n"
    using noise_dropped [of t] by (auto simp: t_def UIP_BUFSIZE_def)
  have "ip_step s s'" using n _ s'(1) [unfolded t_def] by (rule ip_step.frame) simp_all
  then have "ip_reach s'" using s by (rule ip_reach.step [rotated])
  then show ?thesis using packets_keep_tables [of s'] s'(2) by (intro exI [of _ s']) (simp add: n_def)
qed

end
