(* ===== verification/UipChk.thy ===== *)
theory UipChk
  imports UipMem
begin

text \<open>
  The checksum of ICMPv6: a message that is handed to the adaptation layer is accepted by the node that receives it. The
  sum of the 16-bit words is taken modulo 65535; the sender stores its complement.
\<close>

unbundle bit_operations_syntax

subsection \<open>One's complement sums\<close>

fun words_sum :: "u8 list \<Rightarrow> nat" where
  "words_sum [] = 0"
| "words_sum [a] = 256 * unat a"
| "words_sum (a # b # bs) = 256 * unat a + unat b + words_sum bs"

lemma u16_bound: "unat (x :: u16) < 65536"
  using unsigned_less [of x] by simp

lemma u8_bound: "unat (x :: u8) < 256"
  using unsigned_less [of x] by simp

lemma u16_add: "unat ((a :: u16) + t) = (if unat a + unat t < 65536 then unat a + unat t else unat a + unat t - 65536)"
  using unat_plus_if' [of a t] by simp

lemma unat_wide: "unat (ucast (a :: u8) :: u16) = unat a"
  using u8_bound [of a] by (simp add: unsigned_ucast_eq take_bit_nat_eq_self)

lemma unat_pair: "unat ((push_bit 8 (ucast (a :: u8)) :: u16) + ucast (b :: u8)) = 256 * unat a + unat b"
proof -
  have "unat (push_bit 8 (ucast a) :: u16) = 256 * unat a"
    using u8_bound [of a] by (simp add: push_bit_eq_mult unat_word_ariths unat_wide)
  then show ?thesis using u8_bound [of a] u8_bound [of b] by (simp add: u16_add unat_wide)
qed

lemma unat_single: "unat (push_bit 8 (ucast (a :: u8)) :: u16) = 256 * unat a"
  using unat_pair [of a 0] by simp

lemma add_carry_unat: "unat (add_carry a t) = (if unat a + unat t < 65536 then unat a + unat t else unat a + unat t - 65535)"
proof (cases "unat a + unat t < 65536")
  case True
  then show ?thesis by (simp add: add_carry_def word_less_nat_alt u16_add)
next
  case False
  have "unat (a + t) = unat a + unat t - 65536" using False by (simp add: u16_add)
  moreover have "unat a + unat t - 65536 < 65535" "unat a + unat t - 65536 < unat t"
    using u16_bound [of a] u16_bound [of t] False by linarith+
  ultimately have "unat (a + t + 1) = unat a + unat t - 65536 + 1" "a + t < t"
    by (simp_all add: u16_add [of "a + t"] word_less_nat_alt)
  then show ?thesis using False by (simp add: add_carry_def)
qed

lemma add_carry_mod: "unat (add_carry a t) mod 65535 = (unat a + unat t) mod 65535"
  by (simp add: add_carry_unat mod_if [of "unat a + unat t"])

lemma add_carry_pos: "0 < unat a \<Longrightarrow> 0 < unat (add_carry a t)"
  by (simp add: add_carry_unat)

lemma chksum_mod: "unat (chksum acc bs) mod 65535 = (unat acc + words_sum bs) mod 65535"
proof (induction acc bs rule: chksum.induct)
  case (3 acc a b bs)
  have "unat (chksum acc (a # b # bs)) mod 65535
      = (unat (add_carry acc (push_bit 8 (ucast a) + ucast b)) mod 65535 + words_sum bs) mod 65535"
    using 3 by (simp add: mod_add_left_eq)
  then show ?case by (simp add: add_carry_mod mod_add_left_eq unat_pair add.assoc)
qed (simp_all add: add_carry_mod unat_single)

lemma chksum_pos: "0 < unat acc \<Longrightarrow> 0 < unat (chksum acc bs)"
  by (induction acc bs rule: chksum.induct) (simp_all add: add_carry_pos)

lemma words_sum_append: "even (length xs) \<Longrightarrow> words_sum (xs @ ys) = words_sum xs + words_sum ys"
  by (induction xs rule: words_sum.induct) simp_all

subsection \<open>Complement\<close>

lemma complement_word: "unat (NOT (x :: u16)) = 65535 - unat x"
proof -
  have "x + NOT x = - 1" by (simp add: not_eq_complement)
  moreover have "unat (- 1 :: u16) = 65535" by (simp add: unsigned_minus_1_eq_mask mask_eq_exp_minus_1)
  ultimately have "(if unat x + unat (NOT x) < 65536 then unat x + unat (NOT x) else unat x + unat (NOT x) - 65536) = 65535"
    using u16_add [of x "NOT x"] by simp
  then show ?thesis using u16_bound [of x] u16_bound [of "NOT x"] by (auto split: if_splits)
qed

text \<open>The value of the checksum field, as the sum reads it.\<close>

lemma st16_sum: "words_sum (st16 (UIP_HTONS v)) = unat v"
proof -
  have "(push_bit 8 (ucast (ucast (UIP_HTONS v) :: u8)) :: u16) + ucast (ucast (drop_bit 8 (UIP_HTONS v)) :: u8) = v"
    (is "?a + ?b = v")
  proof -
    have "?a + ?b = ?a OR ?b" by (rule disjunctive_add) (auto simp: bit_simps)
    also have "\<dots> = v" by (rule bit_eqI) (auto simp: UIP_HTONS_def bit_simps)
    finally show ?thesis .
  qed
  then show ?thesis using unat_pair [of "ucast (UIP_HTONS v)" "ucast (drop_bit 8 (UIP_HTONS v))"]
    by (simp add: st16_def)
qed

lemma HTONS_not: "NOT (UIP_HTONS v) = UIP_HTONS (NOT v)"
  by (rule bit_eqI) (auto simp: UIP_HTONS_def bit_simps dest: bit_imp_le_length)

lemma HTONS_ones: "UIP_HTONS 0xffff = 0xffff"
  by (simp add: UIP_HTONS_def)

text \<open>A message whose checksum field holds the complement of the sum with an empty field sums up to 65535.\<close>

lemma complement_sum:
  assumes "0 < unat acc" "even (length xs)"
  shows "chksum acc (xs @ st16 (NOT (UIP_HTONS (chksum acc (xs @ [0, 0] @ ys)))) @ ys) = 0xffff"
proof -
  define c where "c = chksum acc (xs @ [0, 0] @ ys)"
  define r where "r = chksum acc (xs @ st16 (NOT (UIP_HTONS c)) @ ys)"
  have e: "even (length (st16 v))" for v by (simp add: st16_def)
  have c: "unat c mod 65535 = (unat acc + (words_sum xs + words_sum ys)) mod 65535"
    by (simp add: c_def chksum_mod words_sum_append assms(2))
  have "unat r mod 65535 = (unat acc + (words_sum xs + (65535 - unat c + words_sum ys))) mod 65535"
    unfolding r_def chksum_mod by (simp add: words_sum_append assms(2) e HTONS_not st16_sum complement_word)
  also have "\<dots> = ((unat acc + (words_sum xs + words_sum ys)) mod 65535 + (65535 - unat c)) mod 65535"
    unfolding mod_add_left_eq by (simp add: algebra_simps)
  also have "\<dots> = (unat c + (65535 - unat c)) mod 65535" unfolding c [symmetric] by (simp add: mod_add_left_eq)
  also have "\<dots> = 0" using u16_bound [of c] by simp
  finally have "65535 dvd unat r" by (simp add: mod_eq_0_iff_dvd)
  moreover have "0 < unat r" unfolding r_def by (rule chksum_pos) (rule assms)
  ultimately have "unat r = 65535" using u16_bound [of r] by (auto elim!: dvdE)
  then have "unat r = unat (0xffff :: u16)" by simp
  then show ?thesis unfolding r_def c_def by (rule iffD2 [OF word_unat_eq_iff])
qed

subsection \<open>The checksum of a message in the buffer\<close>

lemma len_bytes: "l < 65536 \<Longrightarrow> (push_bit 8 (ucast (of_nat (l div 256) :: u8)) :: u16) + ucast (of_nat l :: u8) = of_nat l"
proof (rule iffD2 [OF word_unat_eq_iff])
  assume l: "l < 65536"
  have "unat (of_nat (l div 256) :: u8) = l div 256" "unat (of_nat l :: u8) = l mod 256" "unat (of_nat l :: u16) = l"
    using l by (simp_all add: unat_of_nat less_mult_imp_div_less)
  then show "unat ((push_bit 8 (ucast (of_nat (l div 256) :: u8)) :: u16) + ucast (of_nat l :: u8)) = unat (of_nat l :: u16)"
    by (simp add: unat_pair)
qed

text \<open>The sum over the pseudo-header.\<close>

definition pseudo_sum :: "nat \<Rightarrow> u8 list \<Rightarrow> u16" where
  "pseudo_sum m addrs = chksum (of_nat m + 58) addrs"

lemma pseudo_pos: "m \<le> 1560 \<Longrightarrow> 0 < unat (pseudo_sum m addrs)"
proof -
  assume "m \<le> 1560"
  then have "unat (of_nat m + 58 :: u16) = m + 58" using u16_add [of "of_nat m" 58] by (simp add: unat_of_nat)
  then show ?thesis unfolding pseudo_sum_def by (intro chksum_pos) simp
qed

lemma icmp6chksum_ok:
  assumes "length (ip_buf s) = 1600" "ip_ext_len s = 0" "m \<le> 1560"
    and "(push_bit 8 (ucast (ip_buf s ! 4)) :: u16) + ucast (ip_buf s ! 5) = of_nat m"
  shows "uip_icmp6chksum s =
     Some (UIP_HTONS (chksum (pseudo_sum m (take 32 (drop 8 (ip_buf s)))) (take m (drop 40 (ip_buf s)))))"
proof -
  define c where "c = chksum (pseudo_sum m (take 32 (drop 8 (ip_buf s)))) (take m (drop 40 (ip_buf s)))"
  have u: "unat (of_nat m :: u16) = m" using assms(3) by (simp add: unat_of_nat)
  have h: "uip_l2_l3_hdr_len s = 40" using assms(2) by (rule rpl_opt_0)
  have c0: "c \<noteq> 0" using chksum_pos [OF pseudo_pos [OF assms(3)]] unfolding c_def by (metis less_irrefl unat_0)
  have "uip_icmp6chksum s = Some (if c = 0 then 0xffff else UIP_HTONS c)"
    using assms(1,3)
    by (simp add: uip_icmp6chksum_def upper_layer_chksum_def rd_ok assms(2,4) u h mem_read_def c_def pseudo_sum_def UIP_PROTO_ICMP6_def)
  then show ?thesis using c0 by (simp add: c_def)
qed

text \<open>The headers of a message, and its checksum.\<close>

lemma take_4: "take (n + 4) (a # b # c # d # xs) = a # b # c # d # take n xs"
  by (simp add: eval_nat_numeral)

definition icmp6_header_bytes :: "nat \<Rightarrow> u8 \<Rightarrow> u8 list" where
  "icmp6_header_bytes n hops = [0x60, 0, 0, 0, of_nat ((n + 4) div 256), of_nat (n + 4), 58, hops]"

lemma icmp6_headers_ok:
  assumes l: "length (ip_buf s) = 1600" and e: "ip_ext_len s = 0" and d: "length dst = 16" and n: "n \<le> 1556"
    and src: "src = uip_ds6_select_src dst (ip_node s)" "length src = 16"
  obtains b where "icmp6_headers dst ty code n s = Some (s\<lparr>ip_buf := b\<rparr>)" "length b = 1600"
    "take 8 b = icmp6_header_bytes n (cur_hop_limit (uip_ds6_if (ip_node s)))"
    "take 16 (drop 8 b) = src" "take 16 (drop 24 b) = dst" "take n (drop 44 b) = take n (drop 44 (ip_buf s))"
    "take 4 (drop 40 b) = [ty, code] @ st16 (NOT (UIP_HTONS (chksum (pseudo_sum (n + 4) (src @ dst))
        ([ty, code] @ [0, 0] @ take n (drop 44 (ip_buf s))))))"
proof -
  define hd where "hd = icmp6_header_bytes n (cur_hop_limit (uip_ds6_if (ip_node s)))"
  have hdl: "length hd = 8" by (simp add: hd_def icmp6_header_bytes_def)
  have hd: "hd = [0x60, 0, 0, 0, of_nat ((n + 4) div 256), of_nat n + 4, 58, cur_hop_limit (uip_ds6_if (ip_node s))]"
    by (simp add: hd_def icmp6_header_bytes_def)
  define rest where "rest = drop 44 (ip_buf s)"
  define b1 where "b1 = put_at 0 hd (ip_buf s)"
  define b2 where "b2 = put_at 24 dst b1"
  define b3 where "b3 = put_at 8 src b2"
  define b4 where "b4 = put_at 40 [ty, code, 0, 0] b3"
  have b1: "b1 = hd @ drop 8 (ip_buf s)" by (simp add: b1_def put_at_def hdl)
  have b2: "b2 = hd @ take 16 (drop 8 (ip_buf s)) @ dst @ drop 40 (ip_buf s)"
    by (simp add: b2_def b1 put_at_def hdl d)
  have b3: "b3 = hd @ src @ dst @ drop 40 (ip_buf s)" by (simp add: b3_def b2 put_at_def hdl d src(2) l)
  have b4: "b4 = hd @ src @ dst @ [ty, code, 0, 0] @ rest" by (simp add: b4_def b3 put_at_def hdl d src(2) l rest_def)
  have bl: "length b1 = 1600" "length b2 = 1600" "length b3 = 1600" "length b4 = 1600"
    by (simp_all add: b1 b2 b3 b4 l hdl d src(2) rest_def)
  define c where "c = UIP_HTONS (chksum (pseudo_sum (n + 4) (src @ dst)) ([ty, code] @ [0, 0] @ take n rest))"
  define b where "b = hd @ src @ dst @ [ty, code] @ st16 (NOT c) @ rest"
  have ln: "b4 ! 4 = of_nat ((n + 4) div 256)" "b4 ! 5 = of_nat (n + 4)"
    by (simp_all add: b4 nth_append hd_def icmp6_header_bytes_def)
  have "uip_icmp6chksum (s\<lparr>ip_buf := b4\<rparr>) = Some c"
    using icmp6chksum_ok [of "s\<lparr>ip_buf := b4\<rparr>" "n + 4"] len_bytes [of "n + 4"] n
    by (simp add: bl e ln) (simp add: b4 hdl d src(2) c_def take_4)
  moreover have "put_at 42 (st16 (NOT c)) b4 = b" by (simp add: b4 b_def put_at_def hdl d src(2))
  ultimately have "icmp6_headers dst ty code n s = Some (s\<lparr>ip_buf := b\<rparr>)"
    using n hd [symmetric] unfolding icmp6_headers_def Let_def
    by (simp add: ip_put_ok l d e src(2) rpl_opt_0 UIP_PROTO_ICMP6_def src(1) [symmetric] hdl b1_def [symmetric] b2_def [symmetric]
        b3_def [symmetric] b4_def [symmetric] bl)
  then show ?thesis
  proof (rule that)
    have "length rest = 1556" by (simp add: rest_def l)
    then show "length b = 1600" by (simp add: b_def hdl src(2) d)
  qed (simp_all add: b_def hdl src(2) d hd_def [symmetric] rest_def c_def)
qed

end
