(* ===== verification/UipSend.thy ===== *)
theory UipSend
  imports UipChk IpNode
begin

text \<open>
  Messages on their way out: what \<open>tcpip_ipv6_output\<close> hands to the adaptation layer for a packet without the RPL option, and
  what the receiver of an ICMPv6 message makes of it.
\<close>

unbundle bit_operations_syntax

lemma final_no_option:
  "length (ip_buf s) = UIP_BUFSIZE \<Longrightarrow> ip_buf s ! 6 \<noteq> UIP_PROTO_HBHO \<Longrightarrow> rpl_update_header_final a s = Some (s\<lparr>ip_ext_len := 0\<rparr>, False)"
  by (simp add: rpl_update_header_final_def rd_ok UIP_BUFSIZE_def)

lemma put_same: "put_at i (take n (drop i b)) b = b"
  by (simp add: put_at_def min_def) (metis append_take_drop_id take_drop add.commute drop_drop)

lemma hop_bytes:
  assumes "send_to_hop h s = Some s'" "length (ip_buf s) = UIP_BUFSIZE" "ip_buf s ! 6 \<noteq> UIP_PROTO_HBHO"
    and "packet_forwarding s \<or> uip_ds6_select_src (ip_dest (ip_buf s)) (ip_node s') = ip_src (ip_buf s)"
  shows "ip_sent s' = ip_sent s \<or> (\<exists>a radio. ip_sent s' = ip_sent s @ [(a, radio, take (unat (ip_len s)) (ip_buf s))])"
proof -
  define n where "n = hop_radio h (ip_node s)"
  have s': "ip_node s' = n" using assms(1-3)
    by (auto simp: send_to_hop_def final_no_option n_def ip_put_def tcpip_output_def uip_clear_buf_def bind_eq_Some_conv Let_def
        split: option.splits if_splits)
  have put: "ip_put 8 (ip_src (ip_buf s)) (s\<lparr>ip_ext_len := 0, ip_node := n\<rparr>) = Some (s\<lparr>ip_ext_len := 0, ip_node := n\<rparr>)"
    using assms(2) by (simp add: ip_put_ok ip_src_def UIP_BUFSIZE_def put_same)
  show ?thesis
  proof (cases "packet_forwarding s")
    case True
    then show ?thesis using assms(1-3)
      by (auto simp: send_to_hop_def final_no_option n_def [symmetric] tcpip_output_def uip_clear_buf_def bind_eq_Some_conv Let_def
          mem_read_Some split: option.splits)
  next
    case False
    then have src: "uip_ds6_select_src (ip_dest (ip_buf s)) n = ip_src (ip_buf s)" using assms(4) s' by simp
    show ?thesis using assms(1-3) False
      by (auto simp: send_to_hop_def final_no_option n_def [symmetric] tcpip_output_def uip_clear_buf_def bind_eq_Some_conv Let_def
          mem_read_Some src put split: option.splits)
  qed
qed

text \<open>A packet without the option goes out as it is, if its source is the one for the radio of the next hop.\<close>

lemma output_bytes:
  assumes "tcpip_ipv6_output s = Some s'" "length (ip_buf s) = UIP_BUFSIZE" "ip_buf s ! 6 \<noteq> UIP_PROTO_HBHO"
    and "packet_forwarding s \<or> uip_ds6_select_src (ip_dest (ip_buf s)) (ip_node s') = ip_src (ip_buf s)"
  shows "ip_sent s' = ip_sent s \<or> (\<exists>a radio. ip_sent s' = ip_sent s @ [(a, radio, take (unat (ip_len s)) (ip_buf s))])"
proof -
  have hop: "ip_sent s' = ip_sent s \<or> (\<exists>a radio. ip_sent s' = ip_sent s @ [(a, radio, take (unat (ip_len s)) (ip_buf s))])"
    if "send_to_hop h (s\<lparr>ip_node := n\<rparr>) = Some s'" for h n
    using hop_bytes [OF that] assms(2-4) by simp
  have out: "ip_sent t = ip_sent s @ [(None, sending_in_LR (ip_node s), take (unat (ip_len s)) (ip_buf s))]"
    if "tcpip_output None s = Some t" for t
    using that by (auto simp: tcpip_output_def bind_eq_Some_conv mem_read_Some)
  have clear: "ip_sent (uip_clear_buf t) = ip_sent t" for t by (simp add: uip_clear_buf_def)
  have next_case: "ip_sent s' = ip_sent s \<or> (\<exists>a radio. ip_sent s' = ip_sent s @ [(a, radio, take (unat (ip_len s)) (ip_buf s))])"
    if "(case hop of NoRoute \<Rightarrow> Some (uip_clear_buf (s\<lparr>ip_node := n\<rparr>)) | Dead \<Rightarrow> Some (s\<lparr>ip_node := n\<rparr>)
         | Hop h \<Rightarrow> send_to_hop h (s\<lparr>ip_node := n\<rparr>)) = Some s'" for hop n
    using that by (cases hop) (auto simp: clear dest: hop)
  show ?thesis
    using assms(1) unfolding tcpip_ipv6_output_def Let_def
    by (auto simp: bind_eq_Some_conv clear out split: if_splits prod.splits dest: next_case)
qed


text \<open>A DODAG information solicitation with two bytes, to all RPL nodes.\<close>

lemma multicast_goes_out:
  assumes "length (ip_buf s) = UIP_BUFSIZE" "ip_ext_len s = 0" "length dst = 16" "n \<le> 1236"
    and "length (uip_ds6_select_src dst (ip_node s)) = 16" "uip_is_addr_mcast dst"
  shows "\<exists>s' bs. icmp6_send dst ty code n s = Some s' \<and> ip_sent s' = ip_sent s @ [(None, sending_in_LR (ip_node s), bs)] \<and>
     length bs = 44 + n \<and> ip_node s' = ip_node s"
proof -
  have l: "length (ip_buf s) = 1600" and n: "n \<le> 1556" using assms(1,4) by (simp_all add: UIP_BUFSIZE_def)
  obtain b where b: "icmp6_headers dst ty code n s = Some (s\<lparr>ip_buf := b\<rparr>)" "length b = 1600" "take 16 (drop 24 b) = dst"
    using icmp6_headers_ok [OF l assms(2,3) n refl assms(5), of ty code] by blast
  have u: "unat (of_nat (44 + n) :: u16) = 44 + n" using assms(4) by (simp add: unat_of_nat del: of_nat_add)
  have nz: "(of_nat (44 + n) :: u16) \<noteq> 0" using u by (metis add_eq_0_iff_both_eq_0 unat_0 zero_neq_numeral)
  have mtu: "\<not> (1280 :: u16) < of_nat (44 + n)" using u assms(4) by (simp add: word_less_nat_alt del: of_nat_add)
  have ns: "\<not> uip_is_addr_unspecified dst" using assms(3,6)
    by (auto simp: uip_is_addr_unspecified_def uip_is_addr_mcast_def)
  have "icmp6_send dst ty code n s = Some ((s\<lparr>ip_buf := b, ip_len := 0, ip_ext_len := 0,
      ip_sent := ip_sent s @ [(None, sending_in_LR (ip_node s), take (44 + n) b)]\<rparr>))"
    using u nz mtu ns assms(4)
    by (simp add: icmp6_send_def b UIP_IPH_LEN_def tcpip_ipv6_output_def UIP_LINK_MTU_def ip_dest_def assms(6) tcpip_output_def
        mem_read_def uip_clear_buf_def del: of_nat_add)
  then show ?thesis using assms(4) b(2) by auto
qed

definition demo_icmp :: uip_state where
  "demo_icmp = uip_power_on ((power_on (demo_ll 1) (\<lambda>_. 7))\<lparr>addr_list := [used_addr ([0xfe, 0x80] @ replicate 14 1)]\<rparr>)"


end
