(* ===== verification/IpProps.thy ===== *)
theory IpProps
  imports UipSend
begin

text \<open>
  Properties of the IPv6 engine as a whole: the source address of what a node sends after it has forwarded a packet, and the
  options that are never done with.
\<close>

unbundle bit_operations_syntax

subsection \<open>The source address of a packet\<close>

definition keeps_header :: "uip_state \<Rightarrow> uip_state \<Rightarrow> bool" where
  "keeps_header s s' \<longleftrightarrow> ip_node s' = ip_node s \<and> ip_sent s' = ip_sent s \<and> packet_forwarding s' = packet_forwarding s \<and>
     ip_len s' = ip_len s \<and> length (ip_buf s') = length (ip_buf s) \<and> (\<forall>k < 40. ip_buf s' ! k = ip_buf s ! k)"

lemma keeps_refl: "keeps_header s s" "keeps_header s (s\<lparr>ip_ext_len := e\<rparr>)"
  by (simp_all add: keeps_header_def)

lemma keeps_put: "keeps_header s t \<Longrightarrow> post (ip_put (rpl_opt u + k) bs t) (keeps_header s)"
  by (auto simp: post_def ip_put_Some keeps_header_def nth_put_at rpl_opt_def uip_l2_l3_hdr_len_def UIP_IPH_LEN_def)

lemma final_frame: "posts (rpl_update_header_final a s) (keeps_header s)"
  unfolding rpl_update_header_final_def by (hypsubst | rule keeps_put keeps_refl post_rules | assumption)+

lemma slice_same:
  "length b = length (b' :: u8 list) \<Longrightarrow> (\<And>k. k < m \<Longrightarrow> b ! k = b' ! k) \<Longrightarrow> i + n \<le> m \<Longrightarrow> take n (drop i b) = take n (drop i b')"
  by (rule slice_eqI) auto

text \<open>The radio of a next hop: the one the address map has for it.\<close>

lemma select_loop_find: "select_loop_lr m es n = (case find (\<lambda>e. am_lladdr e = m) es of None \<Rightarrow> n
    | Some e \<Rightarrow> dual_radio_switch (if am_lr e = 1 then LONG_RADIO else SHORT_RADIO) n)"
  by (induction es) auto

lemma hop_radio_map:
  assumes "uip_ds6_nbr_lookup (Some a) n = Some k" "uip_ds6_nbr_get_ll (Some k) n = Some m"
    and "find (\<lambda>e. am_lladdr e = m) (ds6_lr_addrmap n) = Some e"
  shows "sending_in_LR (hop_radio a n) = (if am_lr e = 1 then LONG_RADIO else SHORT_RADIO)"
    and "uip_ds6_nbr_lookup (Some a) (hop_radio a n) = Some k" "uip_ds6_nbr_get_ll (Some k) (hop_radio a n) = Some m"
proof -
  have h: "hop_radio a n = dual_radio_switch (if am_lr e = 1 then LONG_RADIO else SHORT_RADIO) n"
    by (simp add: hop_radio_def assms select_loop_find)
  show "sending_in_LR (hop_radio a n) = (if am_lr e = 1 then LONG_RADIO else SHORT_RADIO)"
    unfolding h by (simp add: sending_in_LR_def dual_radio_switch_def radio_defs)
  show "uip_ds6_nbr_lookup (Some a) (hop_radio a n) = Some k" "uip_ds6_nbr_get_ll (Some k) (hop_radio a n) = Some m"
    using assms(1,2) unfolding h
    by (simp_all add: dual_radio_switch_def radio_defs uip_ds6_nbr_lookup_def nbr_items_def uses_def [abs_def]
        uip_ds6_nbr_get_ll_def nbr_table_get_lladdr_def key_from_item_def)
qed

lemma send_to_hop_known:
  assumes "rpl_update_header_final a s = Some (s1, False)" "hop_radio a (ip_node s1) = n"
    and "(if packet_forwarding s1 then Some (s1\<lparr>ip_node := n\<rparr>)
      else ip_put 8 (uip_ds6_select_src (ip_dest (ip_buf s1)) n) (s1\<lparr>ip_node := n\<rparr>)) = Some s3"
    and "ip_node s3 = n" "uip_ds6_nbr_lookup (Some a) n = Some k" "uip_ds6_nbr_get_ll (Some k) n = Some m"
    and "tcpip_output (Some m) s3 = Some s4"
  shows "send_to_hop a s = Some (uip_clear_buf s4)"
proof -
  define s2 where "s2 = s1\<lparr>ip_node := n\<rparr>"
  have s2: "packet_forwarding s2 = packet_forwarding s1" "ip_node s2 = n" "ip_buf s2 = ip_buf s1" by (simp_all add: s2_def)
  have "(if packet_forwarding s2 then Some s2 else ip_put 8 (uip_ds6_select_src (ip_dest (ip_buf s2)) (ip_node s2)) s2) = Some s3"
    using assms(3) unfolding s2 s2_def [symmetric] .
  then show ?thesis using assms(4-7) unfolding send_to_hop_def assms(1) by (simp add: Let_def assms(2) s2_def [symmetric])
qed

text \<open>C17. A packet to a next hop that is a neighbour in the address map goes out on the radio the map has for it, to its link-layer
  address, with the option completed, and the buffer is free then. As long as the node has not forwarded a packet, the source
  address is selected after the radio and so belongs to it. From the first forwarded packet on, \<open>packet_forwarding\<close>
  stays set (\<open>forwarding_stays\<close>), and the packets of the node itself keep the address that was selected before the
  radio was, even if it belongs to the other radio.\<close>

theorem source_of_hop:
  assumes "length (ip_buf s) = UIP_BUFSIZE" "40 \<le> unat (ip_len s)" "unat (ip_len s) \<le> UIP_BUFSIZE"
    and "rpl_update_header_final a s = Some (s1, False)"
    and "uip_ds6_nbr_lookup (Some a) (ip_node s) = Some k" "uip_ds6_nbr_get_ll (Some k) (ip_node s) = Some m"
    and "find (\<lambda>e. am_lladdr e = m) (ds6_lr_addrmap (ip_node s)) = Some e"
    and "n = dual_radio_switch (if am_lr e = 1 then LONG_RADIO else SHORT_RADIO) (ip_node s)"
    and "length (uip_ds6_select_src (ip_dest (ip_buf s)) n) = 16"
  shows "\<exists>s' bs. send_to_hop a s = Some s' \<and> ip_len s' = 0 \<and> ip_node s' = n \<and> packet_forwarding s' = packet_forwarding s \<and>
     ip_sent s' = ip_sent s @ [(Some m, if am_lr e = 1 then LONG_RADIO else SHORT_RADIO, bs)] \<and> length bs = unat (ip_len s) \<and>
     ip_src bs = (if packet_forwarding s then ip_src (ip_buf s) else uip_ds6_select_src (ip_dest (ip_buf s)) n) \<and>
     (\<forall>i < length bs. i < 8 \<or> 24 \<le> i \<longrightarrow> bs ! i = ip_buf s1 ! i)"
proof -
  note f = assms(4)
  have s1: "ip_node s1 = ip_node s" "ip_sent s1 = ip_sent s" "packet_forwarding s1 = packet_forwarding s" "ip_len s1 = ip_len s"
    "length (ip_buf s1) = UIP_BUFSIZE" "\<And>k. k < 40 \<Longrightarrow> ip_buf s1 ! k = ip_buf s ! k"
    using postsD [OF final_frame f] assms(1) by (simp_all add: keeps_header_def)
  have ad: "ip_src (ip_buf s1) = ip_src (ip_buf s)" "ip_dest (ip_buf s1) = ip_dest (ip_buf s)"
    unfolding ip_src_def ip_dest_def using s1(5,6) assms(1) by (intro slice_same [where m = 40]; simp)+
  have n: "hop_radio a (ip_node s) = n" by (simp add: hop_radio_def assms(5-8) select_loop_find)
  note h = hop_radio_map [OF assms(5-7), unfolded n]
  define b where "b = (if packet_forwarding s then ip_buf s1 else put_at 8 (uip_ds6_select_src (ip_dest (ip_buf s)) n) (ip_buf s1))"
  have b: "length b = UIP_BUFSIZE" using s1(5) assms(9) by (simp add: b_def UIP_BUFSIZE_def)
  have src: "ip_src (take (unat (ip_len s)) b) = ip_src b" using assms(2) by (simp add: ip_src_def drop_take min_def)
  have p: "ip_src b = (if packet_forwarding s then ip_src (ip_buf s) else uip_ds6_select_src (ip_dest (ip_buf s)) n)"
  proof (cases "packet_forwarding s")
    case True
    then show ?thesis unfolding b_def by (simp only: if_True ad)
  next
    case False
    have "take 16 (drop 8 (put_at 8 (uip_ds6_select_src (ip_dest (ip_buf s)) n) (ip_buf s1))) =
        uip_ds6_select_src (ip_dest (ip_buf s)) n"
      using s1(5) by (intro nth_equalityI) (auto simp: assms(9) nth_put_at UIP_BUFSIZE_def)
    then show ?thesis using False unfolding b_def ip_src_def by (simp only: if_False)
  qed
  have same: "b ! i = ip_buf s1 ! i" if "i < UIP_BUFSIZE" "i < 8 \<or> 24 \<le> i" for i
    using that s1(5) assms(9) by (auto simp: b_def nth_put_at UIP_BUFSIZE_def)
  define s3 where "s3 = s1\<lparr>ip_node := n, ip_buf := b\<rparr>"
  have put: "(if packet_forwarding s then Some (s1\<lparr>ip_node := n\<rparr>)
      else ip_put 8 (uip_ds6_select_src (ip_dest (ip_buf s)) n) (s1\<lparr>ip_node := n\<rparr>)) = Some s3"
    using s1(5) assms(9) by (simp add: b_def s3_def ip_put_Some UIP_BUFSIZE_def)
  have s3: "ip_node s3 = n" "ip_buf s3 = b" "ip_len s3 = ip_len s" "ip_sent s3 = ip_sent s" "packet_forwarding s3 = packet_forwarding s"
    by (simp_all add: s3_def s1)
  define s4 where "s4 = s3\<lparr>ip_sent := ip_sent s3 @ [(Some m, sending_in_LR n, take (unat (ip_len s)) b)]\<rparr>"
  have out: "tcpip_output (Some m) s3 = Some s4"
    using assms(3) b by (simp add: tcpip_output_def mem_read_def s4_def s3)
  have s4: "ip_node s4 = n" "ip_sent s4 = ip_sent s @ [(Some m, sending_in_LR n, take (unat (ip_len s)) b)]"
    "packet_forwarding s4 = packet_forwarding s"
    by (simp_all add: s4_def s3)
  have "send_to_hop a s = Some (uip_clear_buf s4)"
    by (rule send_to_hop_known [OF f _ _ s3(1) h(2,3) out]) (use n put in \<open>simp_all only: s1 ad\<close>)
  moreover have "ip_len (uip_clear_buf s4) = 0" "ip_node (uip_clear_buf s4) = n"
    "packet_forwarding (uip_clear_buf s4) = packet_forwarding s"
    "ip_sent (uip_clear_buf s4) = ip_sent s @ [(Some m, if am_lr e = 1 then LONG_RADIO else SHORT_RADIO, take (unat (ip_len s)) b)]"
    by (simp_all add: uip_clear_buf_def s4 h(1))
  moreover have "length (take (unat (ip_len s)) b) = unat (ip_len s)" using assms(3) b by simp
  moreover have "ip_src (take (unat (ip_len s)) b) =
      (if packet_forwarding s then ip_src (ip_buf s) else uip_ds6_select_src (ip_dest (ip_buf s)) n)"
    using src p by simp
  moreover have "\<forall>i < length (take (unat (ip_len s)) b). i < 8 \<or> 24 \<le> i \<longrightarrow> take (unat (ip_len s)) b ! i = ip_buf s1 ! i"
    using same assms(3) b by simp
  ultimately show ?thesis by blast
qed

lemma forwarding_stays: "ip_step\<^sup>*\<^sup>* s t \<Longrightarrow> ip_wf True s \<Longrightarrow> packet_forwarding t"
proof -
  assume "ip_step\<^sup>*\<^sup>* s t" "ip_wf True s"
  then have "ip_wf True t" by (induction rule: rtranclp_induct) (auto intro: wf_ip_step)
  then show ?thesis by (simp add: ip_wf_def)
qed

text \<open>A node with an address on each radio and a neighbour it reaches on the long one, and a packet of its own that has the address
  of the short radio.\<close>

definition demo_addr :: "u8 \<Rightarrow> ipaddr" where
  "demo_addr x = [0xfe, 0x80, 0, 0, 0, 0, 0, 0, 0, 0, 0, 0, 0, 0, 0, x]"

definition two_node :: rpl_state where
  "two_node = (power_on (demo_ll 1) (\<lambda>_. 7))\<lparr>nt_keys := [0], used_map := (\<lambda>_. 1), nt_lladdr := (\<lambda>_. demo_ll 9),
     ds6_neighbors := (\<lambda>_. zero_nbr\<lparr>nb_ipaddr := demo_addr 9\<rparr>),
     ds6_lr_addrmap := [\<lparr>am_lladdr = demo_ll 9, am_lr = 1, am_isused = 1\<rparr>],
     addr_list := [used_addr (demo_addr 1)], long_addr_list := [used_addr (demo_addr 2)]\<rparr>"

definition two_radios :: "bool \<Rightarrow> uip_state" where
  "two_radios forwarded = (uip_power_on two_node)
     \<lparr>ip_buf := replicate 8 58 @ demo_addr 1 @ demo_addr 9 @ replicate 1560 0, ip_len := 40, packet_forwarding := forwarded\<rparr>"

lemma two_node_hop:
  "uip_ds6_nbr_lookup (Some (demo_addr 9)) two_node = Some 0" "uip_ds6_nbr_get_ll (Some 0) two_node = Some (demo_ll 9)"
  "ds6_lr_addrmap two_node = [\<lparr>am_lladdr = demo_ll 9, am_lr = 1, am_isused = 1\<rparr>]"
  "uip_ds6_select_src (demo_addr 9) (dual_radio_switch LONG_RADIO two_node) = demo_addr 2"
proof -
  show "uip_ds6_nbr_lookup (Some (demo_addr 9)) two_node = Some 0"
    by (simp add: two_node_def uip_ds6_nbr_lookup_def nbr_items_def uses_def power_on_def rpl_state.defs ds6_state.defs
        dual_state.defs nbr_state.defs DS6_NEIGHBORS_def)
  show "uip_ds6_nbr_get_ll (Some 0) two_node = Some (demo_ll 9)"
    by (simp add: two_node_def uip_ds6_nbr_get_ll_def nbr_table_get_lladdr_def key_from_item_def power_on_def rpl_state.defs
        ds6_state.defs dual_state.defs nbr_state.defs)
  show "ds6_lr_addrmap two_node = [\<lparr>am_lladdr = demo_ll 9, am_lr = 1, am_isused = 1\<rparr>]" by (simp add: two_node_def)
  have l: "long_addr_list two_node = [used_addr (demo_addr 2)]" by (simp add: two_node_def)
  have r: "sending_in_LR (dual_radio_switch LONG_RADIO two_node) = LONG_RADIO"
    by (simp add: sending_in_LR_def dual_radio_switch_def radio_defs)
  have "long_addr_list (dual_radio_switch LONG_RADIO two_node) = [used_addr (demo_addr 2)]"
    by (simp add: dual_radio_switch_def radio_defs l)
  then show "uip_ds6_select_src (demo_addr 9) (dual_radio_switch LONG_RADIO two_node) = demo_addr 2"
    using r
    by (simp add: uip_ds6_select_src_def uip_is_addr_linklocal_def uip_ds6_long_get_link_local_def addr_matches_def used_addr_def demo_addr_def)
qed

lemma two_radios_sel:
  "length (ip_buf (two_radios f)) = UIP_BUFSIZE" "ip_len (two_radios f) = 40" "ip_sent (two_radios f) = []"
  "packet_forwarding (two_radios f) = f" "ip_buf (two_radios f) ! 6 = 58" "ip_node (two_radios f) = two_node"
  "ip_src (ip_buf (two_radios f)) = demo_addr 1" "ip_dest (ip_buf (two_radios f)) = demo_addr 9"
  by (simp_all add: two_radios_def uip_power_on_def UIP_BUFSIZE_def demo_addr_def ip_src_def ip_dest_def nth_append)

theorem source_of_hop_witness:
  "\<forall>f. \<exists>s' bs. send_to_hop (demo_addr 9) (two_radios f) = Some s' \<and> ip_sent s' = [(Some (demo_ll 9), LONG_RADIO, bs)] \<and>
     ip_src bs = demo_addr (if f then 1 else 2)"
proof
  fix f
  have l: "length (demo_addr 2) = 16" by (simp add: demo_addr_def)
  have "rpl_update_header_final (demo_addr 9) (two_radios f) = Some ((two_radios f)\<lparr>ip_ext_len := 0\<rparr>, False)"
    by (rule final_no_option) (simp_all add: two_radios_sel UIP_PROTO_HBHO_def)
  from source_of_hop [OF two_radios_sel(1) _ _ this, of 0 "demo_ll 9" "\<lparr>am_lladdr = demo_ll 9, am_lr = 1, am_isused = 1\<rparr>"]
  show "\<exists>s' bs. send_to_hop (demo_addr 9) (two_radios f) = Some s' \<and> ip_sent s' = [(Some (demo_ll 9), LONG_RADIO, bs)] \<and>
     ip_src bs = demo_addr (if f then 1 else 2)"
    by (auto simp: two_radios_sel two_node_hop l UIP_BUFSIZE_def)
qed

subsection \<open>Options that are never done with\<close>

text \<open>The first option of the header at the start of the chain is one to skip, and says that it is 254 bytes long.\<close>

definition endless_option :: "u8 list \<Rightarrow> bool" where
  "endless_option b \<longleftrightarrow> b ! 42 AND 0xc0 = 0 \<and> b ! 42 \<noteq> UIP_EXT_HDR_OPT_PAD1 \<and> b ! 43 = 254"

lemma endless_round:
  assumes "length (ip_buf s) = UIP_BUFSIZE" "ip_ext_len s = 0" "ip_ext_opt_offset s = 2" "endless_option (ip_buf s)"
  shows "option_round s = Some (s, None)"
proof -
  have ty: "ip_buf s ! 42 \<noteq> UIP_EXT_HDR_OPT_RPL" using assms(4) by (auto simp: endless_option_def UIP_EXT_HDR_OPT_RPL_def)
  have w: "(258 :: u8) = 2" by simp
  have same: "s\<lparr>ip_ext_opt_offset := 2\<rparr> = s" using assms(3) by simp
  show ?thesis
    using assms ty by (simp add: option_round_def Let_def rpl_opt_0 rd_ok UIP_BUFSIZE_def endless_option_def same w)
qed

text \<open>A round that comes back to its state is the first of infinitely many.\<close>

lemma endless_loop: "options_loop s = Some r \<Longrightarrow> option_round s \<noteq> Some (s, None)"
proof (rule options_loop.raw_induct [where P = "\<lambda>s r. option_round s \<noteq> Some (s, None)"], goal_cases)
  case (1 loop s r)
  show ?case
  proof
    assume e: "option_round s = Some (s, None)"
    then have "loop s = Some r" using 1(3) by simp
    from 1(2) [OF this] e show False by simp
  qed
qed (assumption)

text \<open>C16. A packet whose hop-by-hop header starts with an option to skip of 254 bytes is never done with: the position of the next
  option is kept in 8 bits and comes back to the same option. A round of the loop over the options, all of whose reads are
  within the buffer, ends in the state it began in; the processing of the packet does not return, whoever it is for.\<close>

theorem options_never_end:
  assumes "length (ip_buf s) = UIP_BUFSIZE" "0 < ip_len s" "ip_buf s ! 0 AND 0xf0 = 0x60"
    and "256 * unat (ip_buf s ! 4) + unat (ip_buf s ! 5) \<le> unat (ip_len s)" "\<not> uip_is_addr_mcast (ip_src (ip_buf s))"
    and "ip_buf s ! 6 = UIP_PROTO_HBHO" "endless_option (ip_buf s)"
  shows "\<exists>s1. check_header s = Some (s1, Continue) \<and> ip_buf s1 = ip_buf s \<and>
     option_round (s1\<lparr>ip_ext_opt_offset := 2\<rparr>) = Some (s1\<lparr>ip_ext_opt_offset := 2\<rparr>, None) \<and>
     ext_hdr_options_process s1 = None \<and> uip_headers s = None \<and> tcpip_input s = None"
proof -
  define s1 where "s1 = s\<lparr>ip_len := of_nat (256 * unat (ip_buf s ! 4) + unat (ip_buf s ! 5) + UIP_IPH_LEN), ip_next_hdr := 6,
    ip_ext_len := 0, ip_ext_bitmap := 0\<rparr>"
  have c: "check_header s = Some (s1, Continue)"
    using assms(1-5) by (simp add: check_header_def rd_ok UIP_BUFSIZE_def Let_def s1_def)
  have o: "option_round t = Some (t, None)" if "ip_buf t = ip_buf s" "ip_ext_len t = 0" "ip_ext_opt_offset t = 2" for t
    using endless_round [of t] that assms(1,7) by simp
  then have r: "option_round (s1\<lparr>ip_ext_opt_offset := 2\<rparr>) = Some (s1\<lparr>ip_ext_opt_offset := 2\<rparr>, None)"
    by (simp add: s1_def)
  have l: "options_loop t = None" if "ip_buf t = ip_buf s" "ip_ext_len t = 0" "ip_ext_opt_offset t = 2" for t
    using endless_loop [of t] o [OF that] by (cases "options_loop t") simp_all
  have "uip_headers s = None"
    using assms(1,6) l
    by (simp add: uip_headers_def c s1_def rd_ok UIP_BUFSIZE_def hbho_header_def options_header_def ext_hdr_options_process_def Let_def)
  moreover have "ext_hdr_options_process s1 = None" using l by (simp add: ext_hdr_options_process_def s1_def)
  ultimately show ?thesis using assms(2) c r
    by (simp add: tcpip_input_def packet_input_def uip_input_def) (simp add: s1_def)
qed

text \<open>A packet of 48 bytes with an option of padding.\<close>

theorem options_never_end_witness:
  "tcpip_input ((uip_power_on (power_on (demo_ll 1) (\<lambda>_. 7)))\<lparr>ip_len := 48,
     ip_buf := [0x60, 0, 0, 0, 0, 8, 0, 64] @ demo_addr 1 @ demo_addr 2 @ [59, 0, UIP_EXT_HDR_OPT_PADN, 254] @ replicate 1556 0\<rparr>) = None"
  (is "tcpip_input ?s = None")
proof -
  have "length (ip_buf ?s) = UIP_BUFSIZE" "0 < ip_len ?s" "ip_buf ?s ! 0 AND 0xf0 = 0x60"
    "256 * unat (ip_buf ?s ! 4) + unat (ip_buf ?s ! 5) \<le> unat (ip_len ?s)" "\<not> uip_is_addr_mcast (ip_src (ip_buf ?s))"
    "ip_buf ?s ! 6 = UIP_PROTO_HBHO" "endless_option (ip_buf ?s)"
    by (simp_all add: UIP_BUFSIZE_def endless_option_def uip6_consts UIP_PROTO_HBHO_def demo_addr_def ip_src_def uip_is_addr_mcast_def)
  from options_never_end [OF this] show ?thesis by blast
qed

end
