(* ===== verification/UipPorts.thy ===== *)
theory UipPorts
  imports IpNode UipChk
begin

text \<open>
  The local port of a new UDP connection: the search ends, because there are fewer connections than ports.
\<close>

definition next_port :: "u16 \<Rightarrow> u16" where
  "next_port p = (if p + 1 \<ge> 32000 then 4096 else p + 1)"

lemma next_port_low: "unat (next_port p) < 32000"
  by (auto simp: next_port_def word_less_nat_alt not_le)

lemma next_port_unat: "unat p < 32000 \<Longrightarrow> unat (next_port p) = (if unat p + 1 < 32000 then unat p + 1 else 4096)"
proof -
  assume p: "unat p < 32000"
  then have s: "unat (p + 1) = unat p + 1" by (simp add: u16_add [of p 1])
  have "(32000 \<le> p + 1) = (32000 \<le> unat p + 1)" by (simp only: word_le_nat_alt s) simp
  then show ?thesis using s by (simp add: next_port_def)
qed

text \<open>The ports the search visits.\<close>

lemma ports_unat: "unat q < 32000 \<Longrightarrow> k \<le> 12 \<Longrightarrow>
    unat ((next_port ^^ k) q) = (if unat q + k < 32000 then unat q + k else unat q + k - 27904)"
proof (induction k)
  case (Suc k)
  then have u: "unat ((next_port ^^ k) q) = (if unat q + k < 32000 then unat q + k else unat q + k - 27904)" by simp
  then have "unat ((next_port ^^ k) q) < 32000" using Suc.prems by auto
  from next_port_unat [OF this] show ?case using u Suc.prems by (auto split: if_splits)
qed simp

lemma ports_distinct: "unat q < 32000 \<Longrightarrow> inj_on (\<lambda>k. (next_port ^^ k) q) {..12}"
proof (rule inj_onI)
  fix i j
  assume q: "unat q < 32000" and ij: "i \<in> {..12}" "j \<in> {..12}" and e: "(next_port ^^ i) q = (next_port ^^ j) q"
  have "(if unat q + i < 32000 then unat q + i else unat q + i - 27904) =
      (if unat q + j < 32000 then unat q + j else unat q + j - 27904)"
    using arg_cong [OF e, of unat] ports_unat [OF q] ij by simp
  then show "i = j" using ij q by (auto split: if_splits)
qed

lemma port_loop_unfold: "udp_port_loop cs p =
    (if \<exists>c \<in> set cs. uc_lport c = UIP_HTONS (next_port p) then udp_port_loop cs (next_port p) else Some (next_port p))"
  by (subst udp_port_loop.simps) (simp add: next_port_def Let_def)

lemma port_loop_none: "udp_port_loop cs p = None \<Longrightarrow> (UIP_HTONS ((next_port ^^ Suc k) p)) \<in> uc_lport ` set cs"
proof (induction k arbitrary: p)
  case 0
  then show ?case using port_loop_unfold [of cs p] by (force split: if_splits)
next
  case (Suc k)
  have "udp_port_loop cs (next_port p) = None" using Suc.prems port_loop_unfold [of cs p] by (auto split: if_splits)
  from Suc.IH [OF this] show ?case by (simp add: funpow_swap1)
qed

lemma port_loop_returns:
  assumes "length cs \<le> 12"
  shows "\<exists>q. udp_port_loop cs p = Some q"
proof (rule ccontr)
  assume "\<nexists>q. udp_port_loop cs p = Some q"
  then have n: "udp_port_loop cs p = None" by simp
  let ?f = "\<lambda>k. UIP_HTONS ((next_port ^^ k) (next_port p))"
  have "inj_on (\<lambda>k. (next_port ^^ k) (next_port p)) {..12}" using next_port_low by (rule ports_distinct)
  then have "inj_on ?f {..12}" unfolding inj_on_def by (metis UIP_HTONS_twice)
  moreover have "?f ` {..12} \<subseteq> uc_lport ` set cs"
    using port_loop_none [OF n] by (auto simp: funpow_swap1)
  ultimately have "card {..12::nat} \<le> card (uc_lport ` set cs)" by (metis card_inj_on_le finite_imageI finite_set)
  also have "\<dots> \<le> length cs" using card_image_le [of "set cs" uc_lport] card_length [of cs] by simp
  finally show False using assms by simp
qed

lemma port_loop_free: "udp_port_loop cs p = Some q \<Longrightarrow> UIP_HTONS q \<notin> uc_lport ` set cs \<and> unat q < 32000"
proof (rule udp_port_loop.raw_induct [where P = "\<lambda>cs p q. UIP_HTONS q \<notin> uc_lport ` set cs \<and> unat q < 32000"], goal_cases)
  case (1 loop cs p q)
  then show ?case using next_port_low [of p] by (auto simp: Let_def next_port_def split: if_splits)
qed

lemma free_conn_spec: "case free_conn_loop cs i of None \<Rightarrow> \<forall>c \<in> set cs. uc_lport c \<noteq> 0
    | Some k \<Rightarrow> i \<le> k \<and> k < i + length cs \<and> uc_lport (cs ! (k - i)) = 0 \<and> (\<forall>j < k - i. uc_lport (cs ! j) \<noteq> 0)"
proof (induction cs i rule: free_conn_loop.induct)
  case (2 c cs i)
  show ?case
  proof (cases "uc_lport c = 0")
    case False
    show ?thesis
    proof (cases "free_conn_loop cs (i + 1)")
      case (Some k)
      then have k: "i + 1 \<le> k" "k < i + 1 + length cs" "uc_lport (cs ! (k - (i + 1))) = 0" "\<forall>j < k - (i + 1). uc_lport (cs ! j) \<noteq> 0"
        using 2 False by auto
      have "uc_lport ((c # cs) ! j) \<noteq> 0" if "j < k - i" for j using that False k(1,4) by (cases j) auto
      then show ?thesis using k False Some by (auto simp: nth_Cons')
    qed (use 2 False in auto)
  qed simp
qed simp

text \<open>C18. A new UDP connection is always made or refused: the search for a local port returns, with a port below 32000 that no
  connection uses, because at most 12 connections cannot take 13 ports; the connection is the first free entry of the
  table, with the address, ports and hop limit of the request, and all else stays as it is; it is refused only if no entry is free.\<close>

theorem udp_new_returns:
  assumes "length (ip_conns s) \<le> UIP_UDP_CONNS"
  shows "\<exists>s' k p. uip_udp_new ra rport s = Some (s', k) \<and> s' = s\<lparr>ip_lastport := p, ip_conns := ip_conns s'\<rparr> \<and> p < 32000 \<and>
     UIP_HTONS p \<notin> uc_lport ` set (ip_conns s) \<and>
     (case k of None \<Rightarrow> ip_conns s' = ip_conns s \<and> (\<forall>c \<in> set (ip_conns s). uc_lport c \<noteq> 0)
      | Some i \<Rightarrow> i < length (ip_conns s) \<and> uc_lport (ip_conns s ! i) = 0 \<and> (\<forall>j < i. uc_lport (ip_conns s ! j) \<noteq> 0) \<and>
          ip_conns s' = (ip_conns s)[i := \<lparr>uc_ripaddr = (case ra of None \<Rightarrow> replicate 16 0 | Some a \<Rightarrow> a), uc_lport = UIP_HTONS p,
            uc_rport = rport, uc_ttl = cur_hop_limit (uip_ds6_if (ip_node s))\<rparr>])"
proof -
  obtain p where p: "udp_port_loop (ip_conns s) (ip_lastport s) = Some p"
    using port_loop_returns assms by (auto simp: UIP_UDP_CONNS_def)
  have q: "UIP_HTONS p \<notin> uc_lport ` set (ip_conns s)" "p < 32000"
    using port_loop_free [OF p] by (simp_all add: word_less_nat_alt)
  show ?thesis
    using free_conn_spec [of "ip_conns s" 0] q
    by (cases "free_conn_loop (ip_conns s) 0") (auto simp: uip_udp_new_def p)
qed

text \<open>The first connection of a node.\<close>

theorem udp_new_returns_witness:
  "\<exists>s' i. uip_udp_new None 0 ((uip_power_on (power_on (demo_ll 1) (\<lambda>_. 7)))\<lparr>ip_lastport := 31999\<rparr>) = Some (s', Some i) \<and>
     i < 12 \<and> ip_lastport s' < 32000 \<and> uc_lport (ip_conns s' ! i) \<noteq> 0"
proof -
  let ?s = "(uip_power_on (power_on (demo_ll 1) (\<lambda>_. 7)))\<lparr>ip_lastport := 31999\<rparr>"
  have c: "ip_conns ?s = replicate 12 \<lparr>uc_ripaddr = replicate 16 0, uc_lport = 0, uc_rport = 0, uc_ttl = 0\<rparr>"
    by (simp add: uip_power_on_def UIP_UDP_CONNS_def)
  obtain s' k where "uip_udp_new None 0 ?s = Some (s', k)" "ip_lastport s' < 32000" "UIP_HTONS (ip_lastport s') \<noteq> 0"
    "case k of None \<Rightarrow> False | Some i \<Rightarrow> i < 12 \<and> uc_lport (ip_conns s' ! i) = UIP_HTONS (ip_lastport s')"
    using udp_new_returns [of ?s None 0] unfolding c by (fastforce simp: UIP_UDP_CONNS_def split: option.splits)
  then show ?thesis by (cases k) auto
qed

end
