(* ===== verification/Spec2Isabelle.thy ===== *)
theory Spec2Isabelle
  imports Prelude CList Memb NbrTable DualRadio Ds6State Ds6Tables Ds6Nbr Ds6Route RplDefs RplOf RplTimers RplMessages
    RplParents NodeEnv RplRoutes RplDag RplDio RplNode RplFrame RplInit RplInv RplReach
    Packetbuf Queuebuf Csma CsmaInv CsmaSent CsmaReach CsmaNet CsmaProps
    Iphc IphcRound Frame802154 FrameRound Sicslowpan LowpanMac LowpanOut
    LowpanIn LowpanReass LowpanRound LowpanProps
    Uip RplExtHeader Tcpip RplForward Icmp6 Uip6 UipInv UipMem UipOpt UipTransit IpNode UipChk UipSend IpProps UipPorts
begin

text \<open>
  SEDA-Net is a Contiki stack whose nodes have two radios, a short-range and a long-range one, and a
  version of RPL that balances the load of the routing tree. This library models the code that makes a
  node route: the containers of the kernel, the neighbour table shared by the layers, the IPv6 tables, all of
  RPL's control plane, the IPv6 engine with ICMPv6, UDP and the RPL option, and the path of an IPv6 packet from the
  sender to the receiver except for the radio: header compression, fragmentation, packet buffer, queue
  buffers, CSMA, frames, reassembly.

  How the code runs and how it is modelled. Contiki is single-threaded: a process or a timer
  handler runs to its end. A C function is a HOL function on an explicit state record, named as in the code;
  where it can dereference a null pointer, divide by zero, shift by too much, leave an array or loop for
  ever, it returns an option and \<open>None\<close> is that behaviour; a theorem about an endless loop says so by a round
  that succeeds and comes back to its state. Machine integers keep their width. A
  pointer into a pool is an index, \<open>ptr = nat option\<close>. Timers are the remaining ticks of a ctimer or \<open>None\<close>.
  What a node sends is recorded in a trace.

  Theories and code (paths under src/).
    Prelude: vocabulary, collections of rewrite rules, generic lemmas.
    CList: core/lib/list.c, pointers in an explicit heap. Memb: core/lib/memb.c and the locale \<open>block_pool\<close>, the
    contract of a pool, interpreted on it.
    NbrTable: core/net/nbr-table.c, the table of link-layer addresses with a bit per client table.
    DualRadio: platform/cooja/dual_conf.c and the address map of core/net/nbr-table.c.
    Ds6State, Ds6Tables, Ds6Nbr, Ds6Route: core/net/ipv6/uip-ds6.c, uip-ds6-nbr.c, uip-ds6-route.c,
    core/net/ip/uip-packetqueue.c, core/sys/stimer.c.
    RplDefs: core/net/rpl/rpl.h, rpl-private.h, the lookups and counters of rpl-dag.c. RplOf: rpl-of-ltmax.c,
    rpl-mrhof.c, rpl-of0.c and the locale of an objective function. RplTimers: rpl-timers.c. RplMessages: what
    rpl-icmp6.c writes and parses. RplParents: parents and children of rpl-dag.c and rpl-nbr-policy.c.
    RplRoutes: rpl.c. RplDag, RplDio: instances, DAGs, the choice of a parent and the processing of DIOs in rpl-dag.c.
    RplNode: the handlers of rpl-icmp6.c and rpl-timers.c and the relation \<open>node_step\<close> of all events of a node.
    RplInit: the start of a node and the reachable states.
    NodeEnv, RplFrame, RplInv, RplReach: the interpretation of the locales of the neighbour and routing table on the
    callbacks of the node, frame rules, the invariant \<open>node_wf\<close>, and that every reachable state has it.
    Packetbuf: core/net/packetbuf.c. Queuebuf: core/net/queuebuf.c.
    Csma: core/net/mac/csma.c with mac.c, the entry point of core/net/mac/dualmac/dualmac.c and the callback of
    core/net/ipv6/sicslowpan.c. CsmaInv, CsmaSent, CsmaReach: the invariant of the queues, what an answer of the
    radio does, what a request does. CsmaNet: the layer as a machine beside the node of RplNode.
    CsmaProps: what the senders learn, and example states.
    Iphc: the header compression of core/net/ipv6/sicslowpan.c, compressor and decompressor as functions on
    bytes; a read behind the end of the frame is \<open>None\<close>. IphcRound: what the decompressor makes of the
    compressor's output. Frame802154: core/net/mac/frame802154.c and framer-802154.c. FrameRound: the same for frames.
    Sicslowpan: the rest of sicslowpan.c (input, output, fragments, reassembly) with core/sys/timer.c, on a record that
    holds its static variables, the shared IP buffer and, as the field \<open>lp_mac\<close>, the state of the layers below;
    what it hands to CSMA is recorded in \<open>lp_sent\<close>, what it hands to tcpip_input in \<open>lp_delivered\<close>.
    LowpanMac: the operations of the packet buffer and of CSMA as the adaptation layer uses them. LowpanOut: the frames
    a packet is cut into. LowpanIn: the reception of a packet in one frame. LowpanReass: the invariant of
    reassembly. LowpanRound: reassembly of the fragments in any order. LowpanProps: the properties of the layer.
    Uip: the packet buffer and the static variables of core/net/ipv6/uip6.c, its checksums and UDP connections.
    RplExtHeader, RplForward: core/net/rpl/rpl-ext-header.c, without and with the operations that send. Tcpip:
    core/net/ip/tcpip.c, the output of a packet, and \<open>uip_icmp6_send\<close>. Icmp6: core/net/ipv6/uip-icmp6.c and the input
    handlers of core/net/rpl/rpl-icmp6.c on the bytes in the buffer. Uip6: \<open>uip_process\<close> of uip6.c and core/net/ip/uip-udp-packet.c.
    IpNode: the start of the node (tcpip_process, \<open>uip_init\<close>) and the relation \<open>ip_step\<close> of its events: packets, timers, calls of
    the application. UipInv: its invariant. UipMem, UipChk: bytes of the buffer, one's complement sums. UipOpt, UipTransit,
    UipSend, IpProps, UipPorts: the RPL option, forwarding and loops, what is sent and accepted, options, ports.

  What the lemmas show. Containers: list.c implements sequences, memb.c hands out no block twice.
  Tables: lookups find what was added, iteration visits each entry once, the victim of a full table is never
  locked, source selection and route lookup choose the longest match, and no route or record is lost. RPL:
  ranks increase along parents, so that no loop can form; link metrics stay in their bounds;
  Trickle intervals are right although a product wraps; every reachable state of a node has well-formed
  tables. MAC: a frame comes out of a queue buffer as it went in; no request is lost and
  none reported twice; retransmissions end; and what a sender is told when another frame waits. 6LoWPAN: an
  uncompressed header is the one that was compressed, up to a source address the compressor loses; the frames
  of a packet, received in any order of the later fragments, deliver the packet; exactly the stalled
  reassemblies make room for a new packet. IPv6: no bytes of a packet damage the tables of a node; a message of
  RPL passes the checks of its receiver; the RPL option is inserted and removed without a trace; forwarding changes the hop
  limit and the option only; a packet in a loop is marked and dropped. Several
  properties state exactly where the code does not do what it means to.

  Configuration. The Cooja platform with DUAL_RADIO, ADDR_MAP, DUAL_RPL_RECAL_MODE, RPL_ETX_WEIGHT and
  LTMAX as the objective function; no DAO acknowledgements, no probing, no multicast; one instance,
  two DAGs, 70 neighbours, 70 routes, 2 default routers, 3 prefixes and addresses; 16 queue buffers, 5 queues, packet
  buffers of 128 bytes; a clock of 1000 ticks; 32-bit int and long.

  Bounds and fuel. Loops over a pointer list are \<open>partial_function (option)\<close> with theorems that they return on
  well-formed states; the other loops recurse over a list or a counter. Only \<open>fragment_loop\<close> has fuel, the length of the
  packet plus one: each turn but the last advances by at least 8 bytes, and \<open>lowpan_output_frames\<close> proves that the
  output returns.

  Not modelled. The radio duty cycling below \<open>qsend_list\<close> (loops in real time over the radio driver): its
  answers are inputs of the machine of CsmaNet, and the step from a frame sent to the packet buffer of the
  receiver is the relation \<open>carries\<close>. The auxiliary security header of frames and
  the sniffer of the adaptation layer are compiled out. TCP, fragment headers of IPv6, router and neighbour discovery
  (switched off or not used). The machines of the layers are not joined: for RPL and CSMA a message is an event of
  the trace or of \<open>node_step\<close>, for the adaptation layer a packet is delivered to a list, and \<open>rpl_call\<close> of Tcpip puts the messages of an
  operation of RPL into the packet buffer after the operation, where the code does it in its midst; so the models
  of the handlers read the received message from their own copy. Kernel, drivers, applications, other
  protocol stacks.
\<close>

end
